(* ===== verification/Prelude.thy ===== *)
theory Prelude
  imports Main "HOL-Library.Word"
begin

text \<open>
  Shared ground of the development: Rust's \<open>Result\<close> and the combinators of its \<open>?\<close> operator,
  effects that thread a state through fallible calls, machine integers, and the part of Rust's
  string library (\<open>str::lines\<close>, \<open>trim\<close>, \<open>split_whitespace\<close>, \<open>to_string\<close> on integers) that the
  components use. Strings are lists of bytes; white space is the ASCII part of Unicode's
  \<open>White_Space\<close>, which is all the texts parsed here can hold (procfs, iptables output,
  \<open>resolv.conf\<close>).

  Facts that several component proofs share are declared \<open>[simp]\<close> here or collected in the named
  collections below.
\<close>

unbundle bit_operations_syntax

named_theorems result_simps \<open>unfoldings of the Result combinators\<close>
named_theorems codec_simps \<open>decode-after-encode equations of the wire codecs\<close>

subsection \<open>Machine integers\<close>

type_synonym u8 = "8 word"
type_synonym u16 = "16 word"
type_synonym u32 = "32 word"
type_synonym u64 = "64 word"

text \<open>Two's complement integers are words too, read with \<^const>\<open>sint\<close> where the sign matters.\<close>
type_synonym i16 = "16 word"
type_synonym i32 = "32 word"
type_synonym i64 = "64 word"

text \<open>\<open>usize\<close> on the 64-bit Linux hosts m80 supports; lengths and offsets are kept as naturals and
  compared with this bound where the source checks for overflow.\<close>
abbreviation usize_bound :: nat where
  "usize_bound \<equiv> 2 ^ 64"

text \<open>\<open>checked_mul\<close>, \<open>checked_add\<close> and \<open>saturating_add\<close> of Rust's integers.\<close>

definition checked_mul :: "'a::len word \<Rightarrow> 'a word \<Rightarrow> 'a word option" where
  "checked_mul a b = (if unat a * unat b < 2 ^ LENGTH('a) then Some (a * b) else None)"

definition checked_add :: "'a::len word \<Rightarrow> 'a word \<Rightarrow> 'a word option" where
  "checked_add a b = (if unat a + unat b < 2 ^ LENGTH('a) then Some (a + b) else None)"

definition saturating_succ :: "'a::len word \<Rightarrow> 'a word" where
  "saturating_succ a = (if a = - 1 then a else a + 1)"

definition saturating_add :: "'a::len word \<Rightarrow> 'a word \<Rightarrow> 'a word" where
  "saturating_add a b = (if unat a + unat b < 2 ^ LENGTH('a) then a + b else - 1)"

lemma checked_mul_SomeD: "checked_mul a b = Some c \<Longrightarrow> unat c = unat a * unat b"
  by (auto simp: checked_mul_def unat_word_ariths split: if_splits)

lemma checked_add_SomeD: "checked_add a b = Some c \<Longrightarrow> unat c = unat a + unat b"
  by (auto simp: checked_add_def unat_word_ariths split: if_splits)

lemma unat_word_of_nat:
  "n < 2 ^ LENGTH('a) \<Longrightarrow> unat (word_of_nat n :: 'a::len word) = n"
  by (simp add: unsigned_of_nat take_bit_nat_eq_self)

lemma unat_eqI: "unat a = unat b \<Longrightarrow> a = b"
  by (rule unsigned_word_eqI)

subsection \<open>Results\<close>

datatype ('a, 'e) result = Ok 'a | Err 'e

fun is_ok :: "('a, 'e) result \<Rightarrow> bool" where
  "is_ok (Ok _) = True"
| "is_ok (Err _) = False"

text \<open>\<open>r?\<close> followed by the rest of the function.\<close>
fun and_then :: "('a, 'e) result \<Rightarrow> ('a \<Rightarrow> ('b, 'e) result) \<Rightarrow> ('b, 'e) result" where
  "and_then (Ok a) f = f a"
| "and_then (Err e) f = Err e"

text \<open>\<open>Option::ok_or\<close>, \<open>Option<Result>::transpose\<close> and \<open>collect::<Result<Vec<_>, _>>()\<close>, which
  stops at the first error.\<close>
fun ok_or :: "'a option \<Rightarrow> 'e \<Rightarrow> ('a, 'e) result" where
  "ok_or (Some a) e = Ok a"
| "ok_or None e = Err e"

fun transpose_opt :: "('a, 'e) result option \<Rightarrow> ('a option, 'e) result" where
  "transpose_opt None = Ok None"
| "transpose_opt (Some (Ok a)) = Ok (Some a)"
| "transpose_opt (Some (Err e)) = Err e"

fun collect_results :: "('a \<Rightarrow> ('b, 'e) result) \<Rightarrow> 'a list \<Rightarrow> ('b list, 'e) result" where
  "collect_results f [] = Ok []"
| "collect_results f (x # xs) =
     and_then (f x) (\<lambda>y. and_then (collect_results f xs) (\<lambda>ys. Ok (y # ys)))"

lemma and_then_eq_Ok [result_simps]:
  "and_then r f = Ok b \<longleftrightarrow> (\<exists>a. r = Ok a \<and> f a = Ok b)"
  by (cases r) auto

lemma and_then_eq_Err [result_simps]:
  "and_then r f = Err e \<longleftrightarrow> r = Err e \<or> (\<exists>a. r = Ok a \<and> f a = Err e)"
  by (cases r) auto

lemma ok_or_eq_Ok [result_simps]: "ok_or x e = Ok a \<longleftrightarrow> x = Some a"
  by (cases x) auto

lemma is_ok_iff: "is_ok r \<longleftrightarrow> (\<exists>a. r = Ok a)"
  by (cases r) auto

lemma collect_results_map:
  assumes "\<And>x. x \<in> set xs \<Longrightarrow> g (f x) = Ok x"
  shows "collect_results g (map f xs) = Ok xs"
  using assms by (induction xs) auto

lemma collect_results_Ok_set:
  "collect_results f xs = Ok ys \<Longrightarrow> (\<forall>y \<in> set ys. \<exists>x \<in> set xs. f x = Ok y)"
  by (induction xs arbitrary: ys) (fastforce simp: result_simps)+

lemma collect_results_unit:
  "(\<exists>us. collect_results f xs = Ok us) \<longleftrightarrow> (\<forall>x \<in> set xs. \<exists>u. f x = Ok u)"
  by (induction xs) (auto simp: result_simps)

lemma transpose_opt_map_option [simp]:
  assumes "\<And>x. g (f x) = Ok x"
  shows "transpose_opt (map_option g (map_option f v)) = Ok v"
  by (cases v) (simp_all add: assms)

subsection \<open>Effects\<close>

text \<open>A fallible call on a mutable state \<open>'w\<close>: the state it leaves is kept on failure too, as in
  Rust, where the callee has already run when \<open>?\<close> returns early.\<close>

type_synonym ('w, 'a, 'e) eff = "'w \<Rightarrow> ('a, 'e) result \<times> 'w"

definition ret :: "'a \<Rightarrow> ('w, 'a, 'e) eff" where
  "ret a w = (Ok a, w)"

definition fail :: "'e \<Rightarrow> ('w, 'a, 'e) eff" where
  "fail e w = (Err e, w)"

definition bind_eff :: "('w, 'a, 'e) eff \<Rightarrow> ('a \<Rightarrow> ('w, 'b, 'e) eff) \<Rightarrow> ('w, 'b, 'e) eff" where
  "bind_eff m f w = (case m w of (Ok a, w') \<Rightarrow> f a w' | (Err e, w') \<Rightarrow> (Err e, w'))"

text \<open>A pure fallible computation as an effect.\<close>
definition lift_result :: "('a, 'e) result \<Rightarrow> ('w, 'a, 'e) eff" where
  "lift_result r w = (r, w)"

text \<open>\<open>for x in xs { body(x)?; }\<close>\<close>
fun for_each :: "('a \<Rightarrow> ('w, unit, 'e) eff) \<Rightarrow> 'a list \<Rightarrow> ('w, unit, 'e) eff" where
  "for_each f [] = ret ()"
| "for_each f (x # xs) = bind_eff (f x) (\<lambda>_. for_each f xs)"

lemma ret_apply [simp]: "ret a w = (Ok a, w)"
  by (simp add: ret_def)

lemma fail_apply [simp]: "fail e w = (Err e, w)"
  by (simp add: fail_def)

lemma lift_result_apply [simp]: "lift_result r w = (r, w)"
  by (simp add: lift_result_def)

lemma bind_eff_eq_Ok [result_simps]:
  "bind_eff m f w = (Ok b, w'') \<longleftrightarrow> (\<exists>a w'. m w = (Ok a, w') \<and> f a w' = (Ok b, w''))"
  by (auto simp: bind_eff_def split: prod.splits result.splits)

lemma bind_eff_Ok [simp]: "m w = (Ok a, w') \<Longrightarrow> bind_eff m f w = f a w'"
  by (simp add: bind_eff_def)

lemma bind_eff_Err [simp]: "m w = (Err e, w') \<Longrightarrow> bind_eff m f w = (Err e, w')"
  by (simp add: bind_eff_def)

lemma bind_lift_Ok [simp]: "bind_eff (lift_result (Ok a)) f = f a"
  and bind_lift_Err [simp]: "bind_eff (lift_result (Err e)) f = fail e"
  by (rule ext, simp)+

text \<open>An invariant every step keeps survives a sequence of calls, whether or not it fails.\<close>

definition keeps :: "('w \<Rightarrow> bool) \<Rightarrow> ('w, 'a, 'e) eff \<Rightarrow> bool" where
  "keeps P m \<longleftrightarrow> (\<forall>w. P w \<longrightarrow> P (snd (m w)))"

lemma keepsI [intro?]: "(\<And>w. P w \<Longrightarrow> P (snd (m w))) \<Longrightarrow> keeps P m"
  by (simp add: keeps_def)

lemma keepsD: "keeps P m \<Longrightarrow> P w \<Longrightarrow> P (snd (m w))"
  by (simp add: keeps_def)

lemma keeps_ret [simp]: "keeps P (ret a)"
  and keeps_fail [simp]: "keeps P (fail e)"
  and keeps_lift [simp]: "keeps P (lift_result r)"
  by (simp_all add: keeps_def)

lemma keeps_bind [intro]:
  assumes "keeps P m" and "\<And>a. keeps P (f a)"
  shows "keeps P (bind_eff m f)"
  using assms by (fastforce simp: keeps_def bind_eff_def split: prod.splits result.splits)

lemma keeps_for_each: "(\<And>x. keeps P (f x)) \<Longrightarrow> keeps P (for_each f xs)"
  by (induction xs) auto

subsection \<open>Strings\<close>

definition is_ws :: "char \<Rightarrow> bool" where
  "is_ws c \<longleftrightarrow> c = CHR '' '' \<or> (9 \<le> (of_char c :: nat) \<and> (of_char c :: nat) \<le> 13)"

definition trim_start :: "string \<Rightarrow> string" where
  "trim_start s = dropWhile is_ws s"

definition trim_end :: "string \<Rightarrow> string" where
  "trim_end s = rev (dropWhile is_ws (rev s))"

definition trim :: "string \<Rightarrow> string" where
  "trim s = trim_end (trim_start s)"

text \<open>\<open>trim_matches\<close> with a predicate on characters.\<close>
definition trim_matches :: "(char \<Rightarrow> bool) \<Rightarrow> string \<Rightarrow> string" where
  "trim_matches p s = rev (dropWhile p (rev (dropWhile p s)))"

text \<open>\<open>str::split(c)\<close>: always at least one piece, empty pieces kept.\<close>
fun split_on :: "char \<Rightarrow> string \<Rightarrow> string list" where
  "split_on c [] = [[]]"
| "split_on c (x # xs) =
     (if x = c then [] # split_on c xs
      else (case split_on c xs of [] \<Rightarrow> [[x]] | p # ps \<Rightarrow> (x # p) # ps))"

text \<open>\<open>str::lines()\<close>: split at newlines, a final empty piece dropped, a trailing carriage return
  of a line that a newline ends dropped.\<close>
definition strip_cr :: "string \<Rightarrow> string" where
  "strip_cr l = (if l \<noteq> [] \<and> last l = CHR 0x0D then butlast l else l)"

definition str_lines :: "string \<Rightarrow> string list" where
  "str_lines s =
     (let ps = split_on (CHR 0x0A) s
      in map strip_cr (butlast ps) @ (if last ps = [] then [] else [last ps]))"

text \<open>\<open>split_whitespace()\<close>: maximal runs of non-blank characters.\<close>
fun split_whitespace :: "string \<Rightarrow> string list" where
  "split_whitespace [] = []"
| "split_whitespace (c # cs) =
     (if is_ws c then split_whitespace cs
      else (case cs of
              [] \<Rightarrow> [[c]]
            | d # _ \<Rightarrow>
                (if is_ws d then [c] # split_whitespace cs
                 else (case split_whitespace cs of
                         [] \<Rightarrow> [[c]]
                       | w # ws \<Rightarrow> (c # w) # ws))))"

definition starts_with :: "string \<Rightarrow> string \<Rightarrow> bool" where
  "starts_with s p \<longleftrightarrow> take (length p) s = p"

definition strip_prefix :: "string \<Rightarrow> string \<Rightarrow> string option" where
  "strip_prefix s p = (if starts_with s p then Some (drop (length p) s) else None)"

definition ends_with :: "string \<Rightarrow> string \<Rightarrow> bool" where
  "ends_with s p \<longleftrightarrow> length p \<le> length s \<and> drop (length s - length p) s = p"

fun str_contains :: "string \<Rightarrow> string \<Rightarrow> bool" where
  "str_contains [] p = (p = [])"
| "str_contains (x # xs) p = (starts_with (x # xs) p \<or> str_contains xs p)"

fun join :: "string \<Rightarrow> string list \<Rightarrow> string" where
  "join sep [] = []"
| "join sep [x] = x"
| "join sep (x # y # ys) = x @ sep @ join sep (y # ys)"

lemma split_on_nonempty [simp]: "split_on c s \<noteq> []"
  by (cases s) (auto split: list.splits)

lemma join_split_on: "join [c] (split_on c s) = s"
proof (induction s)
  case (Cons x s)
  then show ?case
    by (cases "split_on c s"; cases "tl (split_on c s)") auto
qed simp

lemma split_on_pieces: "p \<in> set (split_on c s) \<Longrightarrow> c \<notin> set p"
  by (induction s arbitrary: p) (auto split: if_splits list.splits)

lemma split_on_append: "c \<notin> set p \<Longrightarrow> split_on c (p @ c # s) = p # split_on c s"
  by (induction p) auto

lemma split_on_none: "c \<notin> set p \<Longrightarrow> split_on c p = [p]"
  by (induction p) auto

lemma split_on_join:
  assumes "ps \<noteq> []" and "\<forall>p \<in> set ps. c \<notin> set p"
  shows "split_on c (join [c] ps) = ps"
  using assms by (induction "[c]" ps rule: join.induct) (auto simp: split_on_none split_on_append)

lemma starts_with_append [simp]: "starts_with (p @ s) p"
  by (simp add: starts_with_def)

lemma str_contains_prefix: "str_contains (p @ ys) p"
  by (cases "p @ ys") (auto simp del: append_is_Nil_conv simp flip: append_is_Nil_conv
    simp: starts_with_def intro: append_eq_conv_conj [THEN iffD1, THEN conjunct1, symmetric])

lemma str_contains_self: "str_contains (xs @ p @ ys) p"
  by (induction xs) (simp_all add: str_contains_prefix)

text \<open>\<open>to_string()\<close> on unsigned integers.\<close>

definition digit_char :: "nat \<Rightarrow> char" where
  "digit_char d = char_of (48 + d)"

lemma digit_char_simps [simp]:
  "digit_char 0 = CHR ''0''"
  "digit_char (Suc 0) = CHR ''1''"
  "digit_char 2 = CHR ''2''"
  "digit_char 3 = CHR ''3''"
  "digit_char 4 = CHR ''4''"
  "digit_char 5 = CHR ''5''"
  "digit_char 6 = CHR ''6''"
  "digit_char 7 = CHR ''7''"
  "digit_char 8 = CHR ''8''"
  "digit_char 9 = CHR ''9''"
  by code_simp+

fun nat_to_string :: "nat \<Rightarrow> string" where
  "nat_to_string n =
     (if n < 10 then [digit_char n] else nat_to_string (n div 10) @ [digit_char (n mod 10)])"

declare nat_to_string.simps [simp del]

definition hex_digit :: "nat \<Rightarrow> char" where
  "hex_digit d = (if d < 10 then char_of (48 + d) else char_of (87 + d))"

text \<open>\<open>{:02x}\<close> on a byte, and \<open>hex::encode\<close>.\<close>
definition hex_byte :: "u8 \<Rightarrow> string" where
  "hex_byte b = [hex_digit (unat b div 16), hex_digit (unat b mod 16)]"

definition hex_encode :: "u8 list \<Rightarrow> string" where
  "hex_encode bs = concat (map hex_byte bs)"

lemma length_hex_byte [simp]: "length (hex_byte b) = 2"
  by (simp add: hex_byte_def)

lemma length_hex_encode [simp]: "length (hex_encode bs) = 2 * length bs"
  by (induction bs) (simp_all add: hex_encode_def)

text \<open>\<open>as_bytes()\<close>\<close>
definition str_bytes :: "string \<Rightarrow> u8 list" where
  "str_bytes s = map (\<lambda>c. word_of_nat (of_char c)) s"

definition is_ascii_digit :: "char \<Rightarrow> bool" where
  "is_ascii_digit c \<longleftrightarrow> 48 \<le> (of_char c :: nat) \<and> (of_char c :: nat) \<le> 57"

definition is_ascii_hexdigit :: "char \<Rightarrow> bool" where
  "is_ascii_hexdigit c \<longleftrightarrow>
     is_ascii_digit c \<or>
     (65 \<le> (of_char c :: nat) \<and> (of_char c :: nat) \<le> 70) \<or>
     (97 \<le> (of_char c :: nat) \<and> (of_char c :: nat) \<le> 102)"

definition is_ascii_alphanumeric :: "char \<Rightarrow> bool" where
  "is_ascii_alphanumeric c \<longleftrightarrow>
     is_ascii_digit c \<or>
     (65 \<le> (of_char c :: nat) \<and> (of_char c :: nat) \<le> 90) \<or>
     (97 \<le> (of_char c :: nat) \<and> (of_char c :: nat) \<le> 122)"

lemma of_char_digit: "d < 10 \<Longrightarrow> of_char (digit_char d) = 48 + d"
  by (simp add: digit_char_def)

lemma digit_char_is_digit: "d < 10 \<Longrightarrow> is_ascii_digit (digit_char d)"
  by (simp add: is_ascii_digit_def of_char_digit)

lemma nat_to_string_digits: "list_all is_ascii_digit (nat_to_string n)"
proof (induction n rule: nat_to_string.induct)
  case (1 n)
  then show ?case
    by (subst nat_to_string.simps) (simp add: digit_char_is_digit)
qed

lemma nat_to_string_value: "foldl (\<lambda>acc c. 10 * acc + (of_char c - 48)) 0 (nat_to_string n) = n"
proof (induction n rule: nat_to_string.induct)
  case (1 n)
  then show ?case by (subst nat_to_string.simps) (simp add: of_char_digit)
qed

lemma nat_to_string_nonempty [simp]: "nat_to_string n \<noteq> []"
  by (subst nat_to_string.simps) simp

lemma hd_nat_to_string: "0 < n \<Longrightarrow> hd (nat_to_string n) \<noteq> CHR ''0''"
proof (induction n rule: nat_to_string.induct)
  case (1 n)
  show ?case
  proof (cases "n < 10")
    case True
    with 1(2) of_char_digit [of n] show ?thesis by (subst nat_to_string.simps) auto
  next
    case False
    with 1 show ?thesis by (subst nat_to_string.simps) (simp add: hd_append)
  qed
qed

lemma length_nat_to_string: "n < 10 ^ Suc k \<Longrightarrow> length (nat_to_string n) \<le> Suc k"
proof (induction k arbitrary: n)
  case 0
  then show ?case by (subst nat_to_string.simps) simp
next
  case (Suc k)
  then have "n div 10 < 10 ^ Suc k" by (simp add: div_less_iff_less_mult mult.commute)
  with Suc.IH show ?case by (subst nat_to_string.simps) simp
qed

lemma digit_not_in: "c \<notin> set (nat_to_string n)" if "\<not> is_ascii_digit c"
  using nat_to_string_digits [of n] that by (auto simp: list_all_iff)

lemma nat_to_string_inj: "nat_to_string m = nat_to_string n \<longleftrightarrow> m = n"
  by (metis nat_to_string_value)

text \<open>\<open>str::parse::<u32>()\<close>: an optional plus sign and at least one digit, without overflow.\<close>

definition parse_u32 :: "string \<Rightarrow> u32 option" where
  "parse_u32 s =
     (let ds = (case s of c # d # r \<Rightarrow> if c = CHR ''+'' then d # r else s | _ \<Rightarrow> s);
          v = foldl (\<lambda>acc c. 10 * acc + (of_char c - 48)) 0 ds
      in if ds \<noteq> [] \<and> list_all is_ascii_digit ds \<and> v < 2 ^ 32 then Some (word_of_nat v) else None)"

lemma parse_u32_to_string: "parse_u32 (nat_to_string (unat x)) = Some x"
proof -
  have "CHR ''+'' \<notin> set (nat_to_string (unat x))" by (rule digit_not_in) code_simp
  then have "(case nat_to_string (unat x) of c # d # r \<Rightarrow> if c = CHR ''+'' then d # r else nat_to_string (unat x)
      | _ \<Rightarrow> nat_to_string (unat x)) = nat_to_string (unat x)"
    by (auto split: list.splits)
  moreover have "unat x < 2 ^ 32" using unsigned_less [of x] by simp
  ultimately show ?thesis
    using nat_to_string_digits [of "unat x"] nat_to_string_value [of "unat x"] by (simp add: parse_u32_def Let_def)
qed

subsection \<open>Transition systems\<close>

text \<open>The states a step relation reaches from an initial state, and the rule that carries an inductive
  invariant to all of them. Components with concurrent or long-running state interpret the locale
  on their own initial states and steps.\<close>

inductive reachable :: "('s \<Rightarrow> bool) \<Rightarrow> ('s \<Rightarrow> 's \<Rightarrow> bool) \<Rightarrow> 's \<Rightarrow> bool"
  for init :: "'s \<Rightarrow> bool" and step :: "'s \<Rightarrow> 's \<Rightarrow> bool"
where
  reachable_init: "init s \<Longrightarrow> reachable init step s"
| reachable_step: "reachable init step s \<Longrightarrow> step s t \<Longrightarrow> reachable init step t"

lemma reachable_steps: "reachable init step s \<Longrightarrow> step\<^sup>*\<^sup>* s t \<Longrightarrow> reachable init step t"
  by (rotate_tac, induction rule: rtranclp_induct) (auto intro: reachable_step)

locale transition_system =
  fixes init :: "'s \<Rightarrow> bool"
    and step :: "'s \<Rightarrow> 's \<Rightarrow> bool"
    and inv :: "'s \<Rightarrow> bool"
  assumes init_inv: "init s \<Longrightarrow> inv s"
    and step_inv: "inv s \<Longrightarrow> step s t \<Longrightarrow> inv t"
begin

lemma reachable_inv: "reachable init step s \<Longrightarrow> inv s"
  by (induction rule: reachable.induct) (auto intro: init_inv step_inv)

lemma steps_inv: "inv s \<Longrightarrow> step\<^sup>*\<^sup>* s t \<Longrightarrow> inv t"
  by (rotate_tac, induction rule: rtranclp_induct) (auto intro: step_inv)

end

end
