(* ===== verification/Proto_Types.thy ===== *)
theory Proto_Types
  imports Prelude
begin

text \<open>
  The data of the host/guest protocol (crate \<open>m80-proto\<close>): the public payload types of
  \<open>src/types.rs\<close> and \<open>src/types/*.rs\<close>, and the wire messages of \<open>proto/m80/wire.proto\<close> that the
  build turns into Rust structs. A message is a datatype with one constructor whose arguments are
  the fields in the order the source declares them; \<open>optional\<close> and message-typed fields are
  options, \<open>repeated\<close> fields are lists, a \<open>oneof\<close> is a datatype with a constructor per arm.
\<close>

subsection \<open>Errors (error.rs)\<close>

text \<open>
  The text of a \<open>MalformedPayload\<close> is kept as a value: one constructor per format string of the
  source, with the values it formats.
\<close>

datatype malformed =
    PayloadKindMismatch string string
  | MissingEnvelopePayload
  | CodecMessage string
  | UnknownEnvelopeField u64
  | TruncatedVarint
  | VarintExceeds64Bits
  | FieldLengthTooLarge
  | FieldLengthOverflowsUsize
  | TruncatedField
  | UnsupportedWireType u64
  | MissingProtobufField string
  | UnknownDiscriminant string i32
  | DoesNotFitInU16 string
  | UnexpectedPayloadNamed string string
  | UnexpectedPayloadFor string
  | RestoreNonceLength
  | SuccessfulHookWithError
  | FailedHookWithoutError
  | InvalidPostRestoreHostname string

datatype proto_error =
    IncompatibleVersion u32 u32
  | MalformedPayload malformed
  | EncodeFailed string
  | OversizedPayload nat nat
  | ProtoIo string

subsection \<open>Exec, shutdown and cancel (types.rs)\<close>

datatype exec_status = ExecCompleted | ExecTimedOut | ExecCancelled | ExecFailed

datatype shutdown_action = ActionExit | ActionPoweroff

datatype cancel_status = CancelCancelled | CancelAlreadyExited | CancelFailed

text \<open>\<open>spawned_at_unix_ms\<close>, \<open>exited_at_unix_ms\<close>, \<open>spawn_ms\<close>, \<open>run_ms\<close>\<close>
datatype exec_timing = ExecTiming u64 u64 u64 u64

text \<open>\<open>program\<close>, \<open>args\<close>, \<open>cwd\<close>, \<open>env\<close>, \<open>stdin\<close>, \<open>timeout_ms\<close>, \<open>streaming\<close>\<close>
datatype exec_request =
  ExecRequest string "string list" "string option" "(string \<times> string) list option"
    "u8 list option" "u64 option" bool

text \<open>\<open>status\<close>, \<open>exit_code\<close>, \<open>stdout\<close>, \<open>stderr\<close>, \<open>truncated\<close>, \<open>timing\<close>\<close>
datatype exec_response =
  ExecResponse exec_status "i32 option" "u8 list" "u8 list" "bool option" exec_timing

datatype shutdown_request = ShutdownRequest "string option"
datatype shutdown_response = ShutdownResponse shutdown_action
datatype cancel_request = CancelRequest string
datatype cancel_response = CancelResponse string cancel_status
datatype handshake_message = HandshakeMessage u32

subsection \<open>Streaming exec, metrics and health (types/streaming.rs, metrics.rs, health.rs)\<close>

datatype exec_stdout = ExecStdout u32 "u8 list"
datatype exec_stderr = ExecStderr u32 "u8 list"

text \<open>\<open>status\<close>, \<open>exit_code\<close>, \<open>total_stdout_bytes\<close>, \<open>total_stderr_bytes\<close>, \<open>truncated\<close>, \<open>timing\<close>\<close>
datatype exec_exit = ExecExit exec_status "i32 option" u64 u64 bool exec_timing

datatype metrics_request = MetricsRequest
datatype guest_cpu_metrics = GuestCpuMetrics u64 u64 u64 u64 u64 u64 u64 u64 u64 u64 u64
datatype guest_mem_metrics = GuestMemMetrics u64 u64 u64 u64 u64 u64 u64
datatype metrics_response = MetricsResponse guest_cpu_metrics guest_mem_metrics u64 u64
datatype ping_request = PingRequest
datatype pong_response = PongResponse u64

subsection \<open>PTY (types/pty.rs)\<close>

datatype pty_signal = PtyInterrupt | PtyTerminate | PtyHangup | PtyKill
datatype pty_control_event = PtyEof | PtySignalEvent pty_signal

text \<open>\<open>rows\<close>, \<open>cols\<close>, \<open>pixel_width\<close>, \<open>pixel_height\<close>\<close>
datatype pty_size = PtySize u16 u16 "u16 option" "u16 option"

text \<open>\<open>program\<close>, \<open>args\<close>, \<open>cwd\<close>, \<open>env\<close>, \<open>timeout_ms\<close>, \<open>size\<close>\<close>
datatype pty_request =
  PtyRequest string "string list" "string option" "(string \<times> string) list option" "u64 option"
    pty_size

datatype pty_input = PtyInput u32 "u8 list"
datatype pty_output = PtyOutput u32 "u8 list"
datatype pty_resize = PtyResize u32 pty_size
datatype pty_control = PtyControl u32 pty_control_event

text \<open>\<open>status\<close>, \<open>exit_code\<close>, \<open>exit_signal\<close>, \<open>total_input_bytes\<close>, \<open>total_output_bytes\<close>, \<open>truncated\<close>,
  \<open>timing\<close>\<close>
datatype pty_exit = PtyExit exec_status "i32 option" "string option" u64 u64 bool exec_timing

subsection \<open>File operations (types/fileops.rs)\<close>

datatype file_error =
  FileNotFound | FilePermissionDenied | FileIsADirectory | FileNotADirectory
| FileSymlinkRejected | FileTooLarge | FileInvalidSequence | FileIo

datatype file_kind = KindFile | KindDirectory | KindSymlink | KindOther

text \<open>\<open>name\<close>, \<open>kind\<close>, \<open>size\<close>\<close>
datatype dir_entry = DirEntry string file_kind u64

text \<open>\<open>kind\<close>, \<open>size\<close>, \<open>mtime_unix_ms\<close>, \<open>mode\<close>\<close>
datatype file_stat = FileStat file_kind u64 i64 u32

datatype file_read_request = FileReadRequest string "u64 option"
datatype file_read_response = FileReadResponse "u8 list" bool "file_error option"

text \<open>\<open>seq\<close>, \<open>bytes\<close>, \<open>done\<close>, \<open>truncated\<close>, \<open>error\<close>\<close>
datatype file_read_chunk = FileReadChunk u64 "u8 list" bool bool "file_error option"

datatype file_write_request = FileWriteRequest string "u8 list" "u32 option"
datatype file_write_response = FileWriteResponse u64 "file_error option"
datatype file_list_request = FileListRequest string
datatype file_list_response = FileListResponse "dir_entry list" "file_error option"
datatype file_stat_request = FileStatRequest string
datatype file_stat_response = FileStatResponse "file_stat option" "file_error option"
datatype file_remove_request = FileRemoveRequest string
datatype file_remove_response = FileRemoveResponse bool "file_error option"
datatype file_mkdir_request = FileMkdirRequest string "u32 option" bool
datatype file_mkdir_response = FileMkdirResponse bool "file_error option"
datatype file_write_begin_request = FileWriteBeginRequest string "u32 option"
datatype file_write_begin_response = FileWriteBeginResponse "string option" "file_error option"
datatype file_write_chunk_request = FileWriteChunkRequest string u64 "u8 list"
datatype file_write_chunk_response = FileWriteChunkResponse string u64 u64 "file_error option"
datatype file_write_commit_request = FileWriteCommitRequest string
datatype file_write_commit_response = FileWriteCommitResponse u64 "file_error option"

subsection \<open>Drive hotplug and pmem (types/hotplug.rs, types/pmem.rs)\<close>

datatype drive_mount_status_kind = DriveMounted | DriveAlreadyMounted | DriveMountFailed
datatype drive_detach_status_kind = DriveDetached | DriveNotMounted | DriveDetachFailed

datatype drive_hotplug_error =
  HotplugDeviceNotFound | HotplugMountFailed | HotplugUnmountFailed | HotplugIdentityMissing
| HotplugIdentityReadFailed | HotplugTimeout | HotplugIo

text \<open>\<open>drive_id\<close>, \<open>device_path\<close>, \<open>mount_path\<close>, \<open>identity_path\<close>\<close>
datatype drive_mount_spec = DriveMountSpec string string string "string option"

text \<open>\<open>drive_id\<close>, \<open>path\<close>, \<open>bytes\<close>\<close>
datatype tenant_identity_report = TenantIdentityReport string string "u8 list"

text \<open>\<open>drive_id\<close>, \<open>mount_path\<close>, \<open>status\<close>, \<open>error\<close>\<close>
datatype drive_mount_status =
  DriveMountStatus string string drive_mount_status_kind "drive_hotplug_error option"

datatype drive_detach_spec = DriveDetachSpec string string
datatype drive_detach_status =
  DriveDetachStatus string string drive_detach_status_kind "drive_hotplug_error option"

datatype drive_mount_request = DriveMountRequest "drive_mount_spec list"
datatype drive_mount_response =
  DriveMountResponse "drive_mount_status list" "tenant_identity_report list"
datatype drive_detach_request = DriveDetachRequest "drive_detach_spec list"
datatype drive_detach_response = DriveDetachResponse "drive_detach_status list"

datatype pmem_mount_status_kind = PmemMounted | PmemAlreadyMounted | PmemFailed

datatype pmem_mount_error =
  PmemDeviceNotFound | PmemMountFailed | PmemDaxFlagAbsent | PmemInvalidDevicePath
| PmemInvalidMountPath | PmemIo

text \<open>\<open>device_path\<close>, \<open>mount_path\<close>, \<open>digest_hex\<close>\<close>
datatype pmem_mount_spec = PmemMountSpec string string string

text \<open>\<open>device_path\<close>, \<open>mount_path\<close>, \<open>status\<close>, \<open>error\<close>\<close>
datatype pmem_mount_status =
  PmemMountStatus string string pmem_mount_status_kind "pmem_mount_error option"

datatype pmem_mount_request = PmemMountRequest "pmem_mount_spec list"
datatype pmem_mount_response = PmemMountResponse "pmem_mount_status list"

subsection \<open>Post-restore hooks (types/post\_restore.rs)\<close>

datatype hook_status = HookSucceeded | HookFailed

datatype hook_error =
  HookReseedFailed | HookMachineIdWriteFailed | HookHostnameSyscallFailed i32
| HookHostnameWriteFailed | HookRandomSeedWriteFailed | HookInvalidHostname

datatype hook_hostname = HookHostname string

datatype hook_kind = ReseedSystemdRandomSeed | RegenMachineId | SetHostname hook_hostname

text \<open>\<open>kind\<close>, \<open>status\<close>, \<open>error\<close>\<close>
datatype hook_result = HookResult hook_kind hook_status "hook_error option"

text \<open>\<open>restore_nonce\<close> is a \<open>[u8; 32]\<close>: a list whose length the conversion checks.\<close>
datatype post_restore_hook_request = PostRestoreHookRequest "u8 list" "hook_kind list"
datatype post_restore_hook_response = PostRestoreHookResponse "hook_result list"

end
