(* ===== verification/Wire_Messages.thy ===== *)
theory Wire_Messages
  imports Prelude
begin

text \<open>
  The messages of \<open>proto/m80/wire.proto\<close>, which the build turns into the Rust structs the
  conversions produce and consume. The fields are those of the schema; the codec that turns a
  message into bytes is generated code and stays a parameter of the framing model. The two empty
  messages and the messages that carry one scalar keep their own types, as in the generated code.
\<close>

subsection \<open>Exec, shutdown, cancel, metrics, health\<close>

datatype wire_handshake_message = WireHandshakeMessage u32
datatype wire_env_var = WireEnvVar string string
datatype wire_exec_timing = WireExecTiming u64 u64 u64 u64

datatype wire_exec_request =
  WireExecRequest string "string list" "string option" "wire_env_var list" "u8 list option"
    "u64 option" bool

datatype wire_exec_response =
  WireExecResponse i32 "i32 option" "u8 list" "u8 list" "bool option" "wire_exec_timing option"

datatype wire_shutdown_request = WireShutdownRequest "string option"
datatype wire_shutdown_response = WireShutdownResponse i32
datatype wire_cancel_request = WireCancelRequest string
datatype wire_cancel_ack = WireCancelAck string i32
datatype wire_metrics_request = WireMetricsRequest
datatype wire_guest_cpu_metrics =
  WireGuestCpuMetrics u64 u64 u64 u64 u64 u64 u64 u64 u64 u64 u64
datatype wire_guest_mem_metrics = WireGuestMemMetrics u64 u64 u64 u64 u64 u64 u64
datatype wire_metrics_response =
  WireMetricsResponse "wire_guest_cpu_metrics option" "wire_guest_mem_metrics option" u64 u64
datatype wire_ping_request = WirePingRequest
datatype wire_pong_response = WirePongResponse u64

datatype wire_exec_stream_chunk = WireExecStreamChunk u32 "u8 list"
datatype wire_exec_exit =
  WireExecExit i32 "i32 option" u64 u64 bool "wire_exec_timing option"

subsection \<open>PTY\<close>

datatype wire_pty_size = WirePtySize u32 u32 "u32 option" "u32 option"
datatype wire_pty_request =
  WirePtyRequest string "string list" "string option" "wire_env_var list" "u64 option"
    "wire_pty_size option"
datatype wire_pty_bytes = WirePtyBytes u32 "u8 list"
datatype wire_pty_resize = WirePtyResize u32 "wire_pty_size option"
datatype wire_pty_control_event = WirePtyEof bool | WirePtySignal i32
datatype wire_pty_control = WirePtyControl u32 "wire_pty_control_event option"
datatype wire_pty_exit =
  WirePtyExit i32 "i32 option" "string option" u64 u64 bool "wire_exec_timing option"

subsection \<open>File operations\<close>

datatype wire_file_read_request = WireFileReadRequest string "u64 option"
datatype wire_file_read_response = WireFileReadResponse "u8 list" bool "i32 option"
datatype wire_file_read_chunk = WireFileReadChunk u64 "u8 list" bool bool "i32 option"
datatype wire_file_write_request = WireFileWriteRequest string "u8 list" "u32 option"
datatype wire_file_write_response = WireFileWriteResponse u64 "i32 option"
datatype wire_file_list_request = WireFileListRequest string
datatype wire_dir_entry = WireDirEntry string i32 u64
datatype wire_file_list_response = WireFileListResponse "wire_dir_entry list" "i32 option"
datatype wire_file_stat = WireFileStat i32 u64 i64 u32
datatype wire_file_stat_request = WireFileStatRequest string
datatype wire_file_stat_response = WireFileStatResponse "wire_file_stat option" "i32 option"
datatype wire_file_remove_request = WireFileRemoveRequest string
datatype wire_file_remove_response = WireFileRemoveResponse bool "i32 option"
datatype wire_file_mkdir_request = WireFileMkdirRequest string "u32 option" bool
datatype wire_file_mkdir_response = WireFileMkdirResponse bool "i32 option"
datatype wire_file_write_begin_request = WireFileWriteBeginRequest string "u32 option"
datatype wire_file_write_begin_response = WireFileWriteBeginResponse "string option" "i32 option"
datatype wire_file_write_chunk_request = WireFileWriteChunkRequest string u64 "u8 list"
datatype wire_file_write_chunk_response = WireFileWriteChunkResponse string u64 u64 "i32 option"
datatype wire_file_write_commit_request = WireFileWriteCommitRequest string
datatype wire_file_write_commit_response = WireFileWriteCommitResponse u64 "i32 option"

subsection \<open>Drive hotplug, pmem and post-restore hooks\<close>

text \<open>Fields in the schema's order: \<open>drive_id\<close>, \<open>mount_path\<close>, \<open>identity_path\<close>, \<open>device_path\<close>.\<close>
datatype wire_drive_mount_spec = WireDriveMountSpec string string "string option" string
datatype wire_tenant_identity_report = WireTenantIdentityReport string string "u8 list"
datatype wire_drive_mount_status = WireDriveMountStatus string string i32 "i32 option"
datatype wire_drive_detach_spec = WireDriveDetachSpec string string
datatype wire_drive_detach_status = WireDriveDetachStatus string string i32 "i32 option"
datatype wire_drive_mount_request = WireDriveMountRequest "wire_drive_mount_spec list"
datatype wire_drive_mount_response =
  WireDriveMountResponse "wire_drive_mount_status list" "wire_tenant_identity_report list"
datatype wire_drive_detach_request = WireDriveDetachRequest "wire_drive_detach_spec list"
datatype wire_drive_detach_response = WireDriveDetachResponse "wire_drive_detach_status list"

datatype wire_pmem_mount_spec = WirePmemMountSpec string string string
datatype wire_pmem_mount_status = WirePmemMountStatus string string i32 "i32 option"
datatype wire_pmem_mount_request = WirePmemMountRequest "wire_pmem_mount_spec list"
datatype wire_pmem_mount_response = WirePmemMountResponse "wire_pmem_mount_status list"

datatype wire_hook_kind_kind =
  WireReseedSystemdRandomSeed bool | WireRegenMachineId bool | WireSetHostname string
datatype wire_hook_kind = WireHookKind "wire_hook_kind_kind option"
datatype wire_hook_error_kind =
    WireReseedFailed bool
  | WireMachineIdWriteFailed bool
  | WireHostnameSyscallFailedErrno i32
  | WireHostnameWriteFailed bool
  | WireRandomSeedWriteFailed bool
  | WireInvalidHostname bool
datatype wire_hook_error = WireHookError "wire_hook_error_kind option"
datatype wire_hook_result = WireHookResult "wire_hook_kind option" i32 "wire_hook_error option"
datatype wire_post_restore_hook_request =
  WirePostRestoreHookRequest "u8 list" "wire_hook_kind list"
datatype wire_post_restore_hook_response = WirePostRestoreHookResponse "wire_hook_result list"

subsection \<open>The payload oneof\<close>

datatype (plugins only: code) wire_payload =
    Handshake wire_handshake_message
  | PExecRequest wire_exec_request
  | PExecResponse wire_exec_response
  | PShutdownRequest wire_shutdown_request
  | PShutdownResponse wire_shutdown_response
  | PCancelRequest wire_cancel_request
  | PCancelAck wire_cancel_ack
  | PMetricsRequest wire_metrics_request
  | PMetricsResponse wire_metrics_response
  | PFileReadRequest wire_file_read_request
  | PFileReadResponse wire_file_read_response
  | PFileReadChunk wire_file_read_chunk
  | PFileWriteRequest wire_file_write_request
  | PFileWriteResponse wire_file_write_response
  | PFileListRequest wire_file_list_request
  | PFileListResponse wire_file_list_response
  | PFileStatRequest wire_file_stat_request
  | PFileStatResponse wire_file_stat_response
  | PFileRemoveRequest wire_file_remove_request
  | PFileRemoveResponse wire_file_remove_response
  | PFileMkdirRequest wire_file_mkdir_request
  | PFileMkdirResponse wire_file_mkdir_response
  | PFileWriteBeginRequest wire_file_write_begin_request
  | PFileWriteBeginResponse wire_file_write_begin_response
  | PFileWriteChunkRequest wire_file_write_chunk_request
  | PFileWriteChunkResponse wire_file_write_chunk_response
  | PFileWriteCommitRequest wire_file_write_commit_request
  | PFileWriteCommitResponse wire_file_write_commit_response
  | PExecStdout wire_exec_stream_chunk
  | PExecStderr wire_exec_stream_chunk
  | PExecExit wire_exec_exit
  | PPtyRequest wire_pty_request
  | PPtyInput wire_pty_bytes
  | PPtyOutput wire_pty_bytes
  | PPtyResize wire_pty_resize
  | PPtyControl wire_pty_control
  | PPtyExit wire_pty_exit
  | PDriveMountRequest wire_drive_mount_request
  | PDriveMountResponse wire_drive_mount_response
  | PDriveDetachRequest wire_drive_detach_request
  | PDriveDetachResponse wire_drive_detach_response
  | PPingRequest wire_ping_request
  | PPongResponse wire_pong_response
  | PPmemMountRequest wire_pmem_mount_request
  | PPmemMountResponse wire_pmem_mount_response
  | PPostRestoreHookRequest wire_post_restore_hook_request
  | PPostRestoreHookResponse wire_post_restore_hook_response

text \<open>\<open>WireEnvelope\<close>: \<open>version\<close>, \<open>kind\<close>, \<open>request_id\<close>, \<open>max_duration_ms\<close> and the payload oneof.\<close>
record wire_envelope =
  we_version :: u32
  we_kind :: string
  we_request_id :: "string option"
  we_max_duration_ms :: "u64 option"
  we_payload :: "wire_payload option"

end
