(* ===== verification/Conversions_Common.thy ===== *)
theory Conversions_Common
  imports Proto_Types Wire_Messages
begin

text \<open>
  The helpers of \<open>m80-proto/src/wire/conversions.rs\<close> that several payload conversions share:
  environment lists, exec timing, the integer codes of the closed enumerations, and the
  interface every payload implements (the \<open>Payload\<close> trait of \<open>types.rs\<close>) as a locale.
\<close>

subsection \<open>Environment and timing\<close>

definition env_to_wire :: "(string \<times> string) list option \<Rightarrow> wire_env_var list" where
  "env_to_wire env =
     map (\<lambda>(key, value). WireEnvVar key value) (case env of None \<Rightarrow> [] | Some kvs \<Rightarrow> kvs)"

primrec env_pair :: "wire_env_var \<Rightarrow> string \<times> string" where
  "env_pair (WireEnvVar key value) = (key, value)"

definition env_from_wire :: "wire_env_var list \<Rightarrow> (string \<times> string) list option" where
  "env_from_wire env = (if env = [] then None else Some (map env_pair env))"

definition missing :: "string \<Rightarrow> proto_error" where
  "missing field = MalformedPayload (MissingProtobufField field)"

primrec timing_to_wire :: "exec_timing \<Rightarrow> wire_exec_timing" where
  "timing_to_wire (ExecTiming spawned_at_unix_ms exited_at_unix_ms spawn_ms run_ms) =
     WireExecTiming spawned_at_unix_ms exited_at_unix_ms spawn_ms run_ms"

primrec timing_of_wire :: "wire_exec_timing \<Rightarrow> exec_timing" where
  "timing_of_wire (WireExecTiming spawned_at_unix_ms exited_at_unix_ms spawn_ms run_ms) =
     ExecTiming spawned_at_unix_ms exited_at_unix_ms spawn_ms run_ms"

definition timing_from_wire :: "wire_exec_timing option \<Rightarrow> (exec_timing, proto_error) result" where
  "timing_from_wire t = and_then (ok_or t (missing ''timing'')) (\<lambda>t. Ok (timing_of_wire t))"

text \<open>An environment the wire can carry: an absent and an empty environment are encoded alike.\<close>
definition env_representable :: "(string \<times> string) list option \<Rightarrow> bool" where
  "env_representable env \<longleftrightarrow> env \<noteq> Some []"

lemma env_from_to_wire [codec_simps]:
  "env_representable env \<Longrightarrow> env_from_wire (env_to_wire env) = env"
proof -
  have "map env_pair (map (\<lambda>(key, value). WireEnvVar key value) kvs) = kvs" for kvs
    by (induction kvs) auto
  then show "env_representable env \<Longrightarrow> ?thesis"
    by (auto simp: env_from_wire_def env_to_wire_def env_representable_def split: option.splits)
qed

lemma env_from_wire_representable [simp]: "env_representable (env_from_wire ws)"
  by (simp add: env_from_wire_def env_representable_def)

lemma timing_from_to_wire [codec_simps]: "timing_from_wire (Some (timing_to_wire t)) = Ok t"
  by (cases t) (simp add: timing_from_wire_def)

subsection \<open>Integer codes of the closed enumerations\<close>

primrec exec_status_to_i32 :: "exec_status \<Rightarrow> i32" where
  "exec_status_to_i32 ExecCompleted = 0"
| "exec_status_to_i32 ExecTimedOut = 1"
| "exec_status_to_i32 ExecCancelled = 2"
| "exec_status_to_i32 ExecFailed = 3"

definition exec_status_from_i32 :: "i32 \<Rightarrow> (exec_status, proto_error) result" where
  "exec_status_from_i32 v =
     (if v = 0 then Ok ExecCompleted
      else if v = 1 then Ok ExecTimedOut
      else if v = 2 then Ok ExecCancelled
      else if v = 3 then Ok ExecFailed
      else Err (MalformedPayload (UnknownDiscriminant ''exec status'' v)))"

primrec shutdown_action_to_i32 :: "shutdown_action \<Rightarrow> i32" where
  "shutdown_action_to_i32 ActionExit = 0"
| "shutdown_action_to_i32 ActionPoweroff = 1"

definition shutdown_action_from_i32 :: "i32 \<Rightarrow> (shutdown_action, proto_error) result" where
  "shutdown_action_from_i32 v =
     (if v = 0 then Ok ActionExit
      else if v = 1 then Ok ActionPoweroff
      else Err (MalformedPayload (UnknownDiscriminant ''shutdown action'' v)))"

primrec cancel_status_to_i32 :: "cancel_status \<Rightarrow> i32" where
  "cancel_status_to_i32 CancelCancelled = 0"
| "cancel_status_to_i32 CancelAlreadyExited = 1"
| "cancel_status_to_i32 CancelFailed = 2"

definition cancel_status_from_i32 :: "i32 \<Rightarrow> (cancel_status, proto_error) result" where
  "cancel_status_from_i32 v =
     (if v = 0 then Ok CancelCancelled
      else if v = 1 then Ok CancelAlreadyExited
      else if v = 2 then Ok CancelFailed
      else Err (MalformedPayload (UnknownDiscriminant ''cancel status'' v)))"

primrec file_error_to_i32 :: "file_error \<Rightarrow> i32" where
  "file_error_to_i32 FileNotFound = 0"
| "file_error_to_i32 FilePermissionDenied = 1"
| "file_error_to_i32 FileIsADirectory = 2"
| "file_error_to_i32 FileNotADirectory = 3"
| "file_error_to_i32 FileSymlinkRejected = 4"
| "file_error_to_i32 FileTooLarge = 5"
| "file_error_to_i32 FileInvalidSequence = 6"
| "file_error_to_i32 FileIo = 7"

definition file_error_from_i32 :: "i32 \<Rightarrow> (file_error, proto_error) result" where
  "file_error_from_i32 v =
     (if v = 0 then Ok FileNotFound
      else if v = 1 then Ok FilePermissionDenied
      else if v = 2 then Ok FileIsADirectory
      else if v = 3 then Ok FileNotADirectory
      else if v = 4 then Ok FileSymlinkRejected
      else if v = 5 then Ok FileTooLarge
      else if v = 6 then Ok FileInvalidSequence
      else if v = 7 then Ok FileIo
      else Err (MalformedPayload (UnknownDiscriminant ''file error'' v)))"

definition opt_file_error_from_i32 :: "i32 option \<Rightarrow> (file_error option, proto_error) result" where
  "opt_file_error_from_i32 v = transpose_opt (map_option file_error_from_i32 v)"

definition opt_file_error_to_i32 :: "file_error option \<Rightarrow> i32 option" where
  "opt_file_error_to_i32 v = map_option file_error_to_i32 v"

primrec file_kind_to_i32 :: "file_kind \<Rightarrow> i32" where
  "file_kind_to_i32 KindFile = 0"
| "file_kind_to_i32 KindDirectory = 1"
| "file_kind_to_i32 KindSymlink = 2"
| "file_kind_to_i32 KindOther = 3"

definition file_kind_from_i32 :: "i32 \<Rightarrow> (file_kind, proto_error) result" where
  "file_kind_from_i32 v =
     (if v = 0 then Ok KindFile
      else if v = 1 then Ok KindDirectory
      else if v = 2 then Ok KindSymlink
      else if v = 3 then Ok KindOther
      else Err (MalformedPayload (UnknownDiscriminant ''file kind'' v)))"

primrec pty_signal_to_i32 :: "pty_signal \<Rightarrow> i32" where
  "pty_signal_to_i32 PtyInterrupt = 0"
| "pty_signal_to_i32 PtyTerminate = 1"
| "pty_signal_to_i32 PtyHangup = 2"
| "pty_signal_to_i32 PtyKill = 3"

definition pty_signal_from_i32 :: "i32 \<Rightarrow> (pty_signal, proto_error) result" where
  "pty_signal_from_i32 v =
     (if v = 0 then Ok PtyInterrupt
      else if v = 1 then Ok PtyTerminate
      else if v = 2 then Ok PtyHangup
      else if v = 3 then Ok PtyKill
      else Err (MalformedPayload (UnknownDiscriminant ''pty signal'' v)))"

text \<open>
  What the ten enumeration codecs of the protocol promise: a code decodes to the value it came
  from, and every code outside the image is refused.
\<close>

locale enum_codec =
  fixes to_i32 :: "'e \<Rightarrow> i32"
    and from_i32 :: "i32 \<Rightarrow> ('e, proto_error) result"
  assumes from_to: "from_i32 (to_i32 e) = Ok e"
    and outside: "v \<notin> range to_i32 \<Longrightarrow> \<exists>what. from_i32 v = Err (MalformedPayload (UnknownDiscriminant what v))"
begin

lemma to_inject: "to_i32 a = to_i32 b \<longleftrightarrow> a = b"
  by (metis from_to result.inject(1))

lemma from_Ok_iff: "from_i32 v = Ok e \<longleftrightarrow> v = to_i32 e"
proof
  assume dec: "from_i32 v = Ok e"
  show "v = to_i32 e"
  proof (cases "v \<in> range to_i32")
    case True
    with dec show ?thesis by (auto simp: from_to)
  next
    case False
    with dec show ?thesis using outside [OF False] by auto
  qed
qed (simp add: from_to)

lemma opt_from_to: "transpose_opt (map_option from_i32 (map_option to_i32 v)) = Ok v"
  by (simp add: from_to)

end

lemma enum_codecI:
  assumes "\<And>e. from_i32 (to_i32 e) = Ok e"
    and "\<And>v e. from_i32 v = Ok e \<Longrightarrow> to_i32 e = v"
    and "\<And>v err. from_i32 v = Err err \<Longrightarrow> \<exists>what. err = MalformedPayload (UnknownDiscriminant what v)"
  shows "enum_codec to_i32 from_i32"
proof
  show "from_i32 (to_i32 e) = Ok e" for e by (rule assms(1))
  show "\<exists>what. from_i32 v = Err (MalformedPayload (UnknownDiscriminant what v))" if "v \<notin> range to_i32" for v
    using that assms(2) [of v] assms(3) [of v] by (cases "from_i32 v") auto
qed

interpretation exec_status: enum_codec exec_status_to_i32 exec_status_from_i32
proof (rule enum_codecI)
  show "exec_status_from_i32 (exec_status_to_i32 e) = Ok e" for e
    by (cases e) (simp_all add: exec_status_from_i32_def)
qed (auto simp: exec_status_from_i32_def split: if_splits)

interpretation shutdown_action: enum_codec shutdown_action_to_i32 shutdown_action_from_i32
proof (rule enum_codecI)
  show "shutdown_action_from_i32 (shutdown_action_to_i32 e) = Ok e" for e
    by (cases e) (simp_all add: shutdown_action_from_i32_def)
qed (auto simp: shutdown_action_from_i32_def split: if_splits)

interpretation cancel_status: enum_codec cancel_status_to_i32 cancel_status_from_i32
proof (rule enum_codecI)
  show "cancel_status_from_i32 (cancel_status_to_i32 e) = Ok e" for e
    by (cases e) (simp_all add: cancel_status_from_i32_def)
qed (auto simp: cancel_status_from_i32_def split: if_splits)

interpretation file_error: enum_codec file_error_to_i32 file_error_from_i32
proof (rule enum_codecI)
  show "file_error_from_i32 (file_error_to_i32 e) = Ok e" for e
    by (cases e) (simp_all add: file_error_from_i32_def)
qed (auto simp: file_error_from_i32_def split: if_splits)

interpretation file_kind: enum_codec file_kind_to_i32 file_kind_from_i32
proof (rule enum_codecI)
  show "file_kind_from_i32 (file_kind_to_i32 e) = Ok e" for e
    by (cases e) (simp_all add: file_kind_from_i32_def)
qed (auto simp: file_kind_from_i32_def split: if_splits)

interpretation pty_signal: enum_codec pty_signal_to_i32 pty_signal_from_i32
proof (rule enum_codecI)
  show "pty_signal_from_i32 (pty_signal_to_i32 e) = Ok e" for e
    by (cases e) (simp_all add: pty_signal_from_i32_def)
qed (auto simp: pty_signal_from_i32_def split: if_splits)

lemmas common_enum_codecs [codec_simps] =
  exec_status.from_to shutdown_action.from_to cancel_status.from_to file_error.from_to
  file_kind.from_to pty_signal.from_to

lemma opt_file_error_from_to [codec_simps]:
  "opt_file_error_from_i32 (opt_file_error_to_i32 v) = Ok v"
  by (simp add: opt_file_error_from_i32_def opt_file_error_to_i32_def file_error.from_to)

subsection \<open>PTY sizes\<close>

primrec pty_size_to_wire :: "pty_size \<Rightarrow> wire_pty_size" where
  "pty_size_to_wire (PtySize rows cols pixel_width pixel_height) =
     WirePtySize (ucast rows) (ucast cols) (map_option ucast pixel_width)
       (map_option ucast pixel_height)"

text \<open>\<open>u16::try_from\<close> keeps the value when it fits and fails otherwise.\<close>
definition u16_field :: "u32 \<Rightarrow> string \<Rightarrow> (u16, proto_error) result" where
  "u16_field v field =
     (if unat v < 2 ^ 16 then Ok (ucast v) else Err (MalformedPayload (DoesNotFitInU16 field)))"

primrec pty_size_of_wire :: "wire_pty_size \<Rightarrow> (pty_size, proto_error) result" where
  "pty_size_of_wire (WirePtySize rows cols pixel_width pixel_height) =
     and_then (u16_field rows ''rows'') (\<lambda>rows.
     and_then (u16_field cols ''cols'') (\<lambda>cols.
     and_then (transpose_opt (map_option (\<lambda>v. u16_field v ''pixel_width'') pixel_width)) (\<lambda>pixel_width.
     and_then (transpose_opt (map_option (\<lambda>v. u16_field v ''pixel_height'') pixel_height)) (\<lambda>pixel_height.
       Ok (PtySize rows cols pixel_width pixel_height)))))"

definition pty_size_from_wire :: "wire_pty_size option \<Rightarrow> (pty_size, proto_error) result" where
  "pty_size_from_wire sz = and_then (ok_or sz (missing ''pty size'')) pty_size_of_wire"

lemma ucast_u16_u32 [simp]: "ucast (ucast (v :: u16) :: u32) = v"
  by (rule bit_eqI) (auto simp: bit_simps)

lemma u16_field_ucast [codec_simps]: "u16_field (ucast (v :: u16)) field = Ok v"
proof -
  have "unat v < 2 ^ LENGTH(16)"
    by (rule unsigned_less)
  then have "unat (ucast v :: u32) < 2 ^ 16"
    by (simp add: unsigned_ucast_eq order_le_less_trans [OF take_bit_nat_less_eq_self])
  then show ?thesis by (simp add: u16_field_def)
qed

lemma pty_size_from_to_wire [codec_simps]:
  "pty_size_from_wire (Some (pty_size_to_wire sz)) = Ok sz"
  by (cases sz) (simp add: pty_size_from_wire_def codec_simps)

subsection \<open>The Payload trait\<close>

primrec payload_name :: "wire_payload \<Rightarrow> string" where
  "payload_name (Handshake _) = ''handshake''"
| "payload_name (PExecRequest _) = ''exec_request''"
| "payload_name (PExecResponse _) = ''exec_response''"
| "payload_name (PShutdownRequest _) = ''shutdown_request''"
| "payload_name (PShutdownResponse _) = ''shutdown_response''"
| "payload_name (PCancelRequest _) = ''cancel_request''"
| "payload_name (PCancelAck _) = ''cancel_response''"
| "payload_name (PMetricsRequest _) = ''metrics_request''"
| "payload_name (PMetricsResponse _) = ''metrics_response''"
| "payload_name (PFileReadRequest _) = ''file_read_request''"
| "payload_name (PFileReadResponse _) = ''file_read_response''"
| "payload_name (PFileReadChunk _) = ''file_read_chunk''"
| "payload_name (PFileWriteRequest _) = ''file_write_request''"
| "payload_name (PFileWriteResponse _) = ''file_write_response''"
| "payload_name (PFileListRequest _) = ''file_list_request''"
| "payload_name (PFileListResponse _) = ''file_list_response''"
| "payload_name (PFileStatRequest _) = ''file_stat_request''"
| "payload_name (PFileStatResponse _) = ''file_stat_response''"
| "payload_name (PFileRemoveRequest _) = ''file_remove_request''"
| "payload_name (PFileRemoveResponse _) = ''file_remove_response''"
| "payload_name (PFileMkdirRequest _) = ''file_mkdir_request''"
| "payload_name (PFileMkdirResponse _) = ''file_mkdir_response''"
| "payload_name (PFileWriteBeginRequest _) = ''file_write_begin_request''"
| "payload_name (PFileWriteBeginResponse _) = ''file_write_begin_response''"
| "payload_name (PFileWriteChunkRequest _) = ''file_write_chunk_request''"
| "payload_name (PFileWriteChunkResponse _) = ''file_write_chunk_response''"
| "payload_name (PFileWriteCommitRequest _) = ''file_write_commit_request''"
| "payload_name (PFileWriteCommitResponse _) = ''file_write_commit_response''"
| "payload_name (PExecStdout _) = ''exec_stdout''"
| "payload_name (PExecStderr _) = ''exec_stderr''"
| "payload_name (PExecExit _) = ''exec_exit''"
| "payload_name (PPtyRequest _) = ''pty_request''"
| "payload_name (PPtyInput _) = ''pty_input''"
| "payload_name (PPtyOutput _) = ''pty_output''"
| "payload_name (PPtyResize _) = ''pty_resize''"
| "payload_name (PPtyControl _) = ''pty_control''"
| "payload_name (PPtyExit _) = ''pty_exit''"
| "payload_name (PDriveMountRequest _) = ''drive_mount_request''"
| "payload_name (PDriveMountResponse _) = ''drive_mount_response''"
| "payload_name (PDriveDetachRequest _) = ''drive_detach_request''"
| "payload_name (PDriveDetachResponse _) = ''drive_detach_response''"
| "payload_name (PPingRequest _) = ''ping_request''"
| "payload_name (PPongResponse _) = ''pong_response''"
| "payload_name (PPmemMountRequest _) = ''pmem_mount_request''"
| "payload_name (PPmemMountResponse _) = ''pmem_mount_response''"
| "payload_name (PPostRestoreHookRequest _) = ''post_restore_hook_request''"
| "payload_name (PPostRestoreHookResponse _) = ''post_restore_hook_response''"

text \<open>
  The contract of the \<open>Payload\<close> trait: the variant \<open>into_wire\<close> builds is named by the payload's
  \<open>KIND\<close>, decoding an encoded payload returns it, decoding yields only payloads the wire can
  carry, and a foreign variant is refused as malformed. \<open>representable\<close> singles out the payloads
  whose encoding loses nothing.
\<close>

locale payload =
  fixes KIND :: string
    and into_wire :: "'p \<Rightarrow> wire_payload"
    and from_wire :: "wire_payload \<Rightarrow> ('p, proto_error) result"
    and representable :: "'p \<Rightarrow> bool"
  assumes into_wire_name: "payload_name (into_wire p) = KIND"
    and from_into: "representable p \<Longrightarrow> from_wire (into_wire p) = Ok p"
    and from_representable: "from_wire w = Ok p \<Longrightarrow> representable p"
    and foreign: "payload_name w \<noteq> KIND \<Longrightarrow> \<exists>m. from_wire w = Err (MalformedPayload m)"
begin

lemma from_wire_name: "from_wire w = Ok p \<Longrightarrow> payload_name w = KIND"
  using foreign by fastforce

text \<open>Re-encoding what was decoded decodes to the same payload.\<close>
lemma from_into_from: "from_wire w = Ok p \<Longrightarrow> from_wire (into_wire p) = Ok p"
  by (rule from_into [OF from_representable])

lemma into_wire_inject:
  "representable p \<Longrightarrow> representable q \<Longrightarrow> into_wire p = into_wire q \<Longrightarrow> p = q"
  by (metis from_into result.inject(1))

end

text \<open>
  What \<open>payload_impl!\<close> leaves to each payload: its two conversion functions are inverse, and the
  variant it names is the only one its decoder looks into.
\<close>

lemma payload_implI:
  assumes into: "\<And>p. into_wire p = variant (to_wire p)"
    and name: "\<And>v. payload_name (variant v) = KIND"
    and own: "\<And>v. from_wire (variant v) = of_wire v"
    and other: "\<And>w. (\<exists>v. w = variant v) \<or> (\<exists>m. from_wire w = Err (MalformedPayload m))"
    and round_trip: "\<And>p. representable p \<Longrightarrow> of_wire (to_wire p) = Ok p"
    and decoded: "\<And>v p. of_wire v = Ok p \<Longrightarrow> representable p"
  shows "payload KIND into_wire from_wire representable"
proof
  show "payload_name (into_wire p) = KIND" for p
    by (simp add: into name)
  show "from_wire (into_wire p) = Ok p" if "representable p" for p
    using that by (simp add: into own round_trip)
  show "representable p" if "from_wire w = Ok p" for w p
    using that other [of w] by (auto simp: own dest: decoded)
  show "\<exists>m. from_wire w = Err (MalformedPayload m)" if "payload_name w \<noteq> KIND" for w
    using that other [of w] by (auto simp: name)
qed

end
