(* ===== verification/Exec_Conversions.thy ===== *)
theory Exec_Conversions
  imports Conversions_Common
begin

text \<open>
  Payload conversions of \<open>m80-proto/src/wire/conversions.rs\<close>: exec, shutdown, cancel, metrics,
  health, streaming and PTY payloads. For each payload \<open>t\<close>, \<open>t_to_wire\<close> and \<open>t_of_wire\<close> are the
  two closures the source passes to \<open>payload_impl!\<close>, and \<open>t_into_wire\<close> and \<open>t_from_wire\<close> are the
  methods the macro expands to. Every payload is shown to satisfy the \<open>payload\<close> contract.
\<close>

subsection \<open>Exec, shutdown and cancel\<close>

definition PAYLOAD_KIND_HANDSHAKE_MESSAGE :: string where
  "PAYLOAD_KIND_HANDSHAKE_MESSAGE = ''handshake''"

primrec handshake_message_to_wire :: "handshake_message \<Rightarrow> wire_handshake_message" where
  "handshake_message_to_wire (HandshakeMessage version) =
     WireHandshakeMessage version"

primrec handshake_message_of_wire :: "wire_handshake_message \<Rightarrow> (handshake_message, proto_error) result" where
  "handshake_message_of_wire (WireHandshakeMessage version) =
     Ok (HandshakeMessage version)"

definition handshake_message_into_wire :: "handshake_message \<Rightarrow> wire_payload" where
  "handshake_message_into_wire v = Handshake (handshake_message_to_wire v)"

definition handshake_message_from_wire :: "wire_payload \<Rightarrow> (handshake_message, proto_error) result" where
  "handshake_message_from_wire p =
     (case p of Handshake v \<Rightarrow> handshake_message_of_wire v
      | other \<Rightarrow>
          Err (MalformedPayload (UnexpectedPayloadNamed PAYLOAD_KIND_HANDSHAKE_MESSAGE (payload_name other))))"

lemma handshake_message_of_to_wire [codec_simps]:
  "handshake_message_of_wire (handshake_message_to_wire v) = Ok v"
  by (cases v) (simp add: codec_simps)

interpretation handshake_message: payload PAYLOAD_KIND_HANDSHAKE_MESSAGE handshake_message_into_wire handshake_message_from_wire
    "\<lambda>_. True"
  by (rule payload_implI [where variant = Handshake and to_wire = handshake_message_to_wire
        and of_wire = handshake_message_of_wire])
    (simp_all add: handshake_message_into_wire_def handshake_message_from_wire_def
      PAYLOAD_KIND_HANDSHAKE_MESSAGE_def codec_simps
      split: wire_payload.splits)

definition PAYLOAD_KIND_EXEC_REQUEST :: string where
  "PAYLOAD_KIND_EXEC_REQUEST = ''exec_request''"

primrec exec_request_to_wire :: "exec_request \<Rightarrow> wire_exec_request" where
  "exec_request_to_wire (ExecRequest program args cwd env stdin timeout_ms streaming) =
     WireExecRequest program args cwd (env_to_wire env) stdin timeout_ms streaming"

primrec exec_request_of_wire :: "wire_exec_request \<Rightarrow> (exec_request, proto_error) result" where
  "exec_request_of_wire (WireExecRequest program args cwd env stdin timeout_ms streaming) =
     Ok (ExecRequest program args cwd (env_from_wire env) stdin timeout_ms streaming)"

definition exec_request_into_wire :: "exec_request \<Rightarrow> wire_payload" where
  "exec_request_into_wire v = PExecRequest (exec_request_to_wire v)"

definition exec_request_from_wire :: "wire_payload \<Rightarrow> (exec_request, proto_error) result" where
  "exec_request_from_wire p =
     (case p of PExecRequest v \<Rightarrow> exec_request_of_wire v
      | other \<Rightarrow>
          Err (MalformedPayload (UnexpectedPayloadNamed PAYLOAD_KIND_EXEC_REQUEST (payload_name other))))"

definition exec_request_representable :: "exec_request \<Rightarrow> bool" where
  "exec_request_representable v =
     (case v of ExecRequest program args cwd env stdin timeout_ms streaming \<Rightarrow> env_representable env)"

lemma exec_request_of_wire_OkE:
  assumes "exec_request_of_wire w = Ok p"
  obtains program args cwd ws stdin timeout_ms streaming
  where "p = ExecRequest program args cwd (env_from_wire ws) stdin timeout_ms streaming"
  using assms by (cases w) auto

lemma exec_request_of_to_wire [codec_simps]:
  "exec_request_representable v \<Longrightarrow> exec_request_of_wire (exec_request_to_wire v) = Ok v"
  by (cases v) (simp add: exec_request_representable_def codec_simps)

lemma exec_request_of_wire_representable:
  "exec_request_of_wire w = Ok p \<Longrightarrow> exec_request_representable p"
  by (auto simp: exec_request_representable_def elim!: exec_request_of_wire_OkE)

interpretation exec_request: payload PAYLOAD_KIND_EXEC_REQUEST exec_request_into_wire exec_request_from_wire
    exec_request_representable
  by (rule payload_implI [where variant = PExecRequest and to_wire = exec_request_to_wire
        and of_wire = exec_request_of_wire])
    (simp_all add: exec_request_into_wire_def exec_request_from_wire_def
      PAYLOAD_KIND_EXEC_REQUEST_def codec_simps exec_request_of_wire_representable
      split: wire_payload.splits)

definition PAYLOAD_KIND_EXEC_RESPONSE :: string where
  "PAYLOAD_KIND_EXEC_RESPONSE = ''exec_response''"

primrec exec_response_to_wire :: "exec_response \<Rightarrow> wire_exec_response" where
  "exec_response_to_wire (ExecResponse status exit_code stdout stderr truncated timing) =
     WireExecResponse (exec_status_to_i32 status) exit_code stdout stderr truncated (Some (timing_to_wire timing))"

primrec exec_response_of_wire :: "wire_exec_response \<Rightarrow> (exec_response, proto_error) result" where
  "exec_response_of_wire (WireExecResponse status exit_code stdout stderr truncated timing) =
     and_then (exec_status_from_i32 status) (\<lambda>status.
     and_then (timing_from_wire timing) (\<lambda>timing.
       Ok (ExecResponse status exit_code stdout stderr truncated timing)))"

definition exec_response_into_wire :: "exec_response \<Rightarrow> wire_payload" where
  "exec_response_into_wire v = PExecResponse (exec_response_to_wire v)"

definition exec_response_from_wire :: "wire_payload \<Rightarrow> (exec_response, proto_error) result" where
  "exec_response_from_wire p =
     (case p of PExecResponse v \<Rightarrow> exec_response_of_wire v
      | other \<Rightarrow>
          Err (MalformedPayload (UnexpectedPayloadNamed PAYLOAD_KIND_EXEC_RESPONSE (payload_name other))))"

lemma exec_response_of_to_wire [codec_simps]:
  "exec_response_of_wire (exec_response_to_wire v) = Ok v"
  by (cases v) (simp add: codec_simps)

interpretation exec_response: payload PAYLOAD_KIND_EXEC_RESPONSE exec_response_into_wire exec_response_from_wire
    "\<lambda>_. True"
  by (rule payload_implI [where variant = PExecResponse and to_wire = exec_response_to_wire
        and of_wire = exec_response_of_wire])
    (simp_all add: exec_response_into_wire_def exec_response_from_wire_def
      PAYLOAD_KIND_EXEC_RESPONSE_def codec_simps
      split: wire_payload.splits)

definition PAYLOAD_KIND_SHUTDOWN_REQUEST :: string where
  "PAYLOAD_KIND_SHUTDOWN_REQUEST = ''shutdown_request''"

primrec shutdown_request_to_wire :: "shutdown_request \<Rightarrow> wire_shutdown_request" where
  "shutdown_request_to_wire (ShutdownRequest reason) =
     WireShutdownRequest reason"

primrec shutdown_request_of_wire :: "wire_shutdown_request \<Rightarrow> (shutdown_request, proto_error) result" where
  "shutdown_request_of_wire (WireShutdownRequest reason) =
     Ok (ShutdownRequest reason)"

definition shutdown_request_into_wire :: "shutdown_request \<Rightarrow> wire_payload" where
  "shutdown_request_into_wire v = PShutdownRequest (shutdown_request_to_wire v)"

definition shutdown_request_from_wire :: "wire_payload \<Rightarrow> (shutdown_request, proto_error) result" where
  "shutdown_request_from_wire p =
     (case p of PShutdownRequest v \<Rightarrow> shutdown_request_of_wire v
      | other \<Rightarrow>
          Err (MalformedPayload (UnexpectedPayloadNamed PAYLOAD_KIND_SHUTDOWN_REQUEST (payload_name other))))"

lemma shutdown_request_of_to_wire [codec_simps]:
  "shutdown_request_of_wire (shutdown_request_to_wire v) = Ok v"
  by (cases v) (simp add: codec_simps)

interpretation shutdown_request: payload PAYLOAD_KIND_SHUTDOWN_REQUEST shutdown_request_into_wire shutdown_request_from_wire
    "\<lambda>_. True"
  by (rule payload_implI [where variant = PShutdownRequest and to_wire = shutdown_request_to_wire
        and of_wire = shutdown_request_of_wire])
    (simp_all add: shutdown_request_into_wire_def shutdown_request_from_wire_def
      PAYLOAD_KIND_SHUTDOWN_REQUEST_def codec_simps
      split: wire_payload.splits)

definition PAYLOAD_KIND_SHUTDOWN_RESPONSE :: string where
  "PAYLOAD_KIND_SHUTDOWN_RESPONSE = ''shutdown_response''"

primrec shutdown_response_to_wire :: "shutdown_response \<Rightarrow> wire_shutdown_response" where
  "shutdown_response_to_wire (ShutdownResponse action) =
     WireShutdownResponse (shutdown_action_to_i32 action)"

primrec shutdown_response_of_wire :: "wire_shutdown_response \<Rightarrow> (shutdown_response, proto_error) result" where
  "shutdown_response_of_wire (WireShutdownResponse action) =
     and_then (shutdown_action_from_i32 action) (\<lambda>action.
       Ok (ShutdownResponse action))"

definition shutdown_response_into_wire :: "shutdown_response \<Rightarrow> wire_payload" where
  "shutdown_response_into_wire v = PShutdownResponse (shutdown_response_to_wire v)"

definition shutdown_response_from_wire :: "wire_payload \<Rightarrow> (shutdown_response, proto_error) result" where
  "shutdown_response_from_wire p =
     (case p of PShutdownResponse v \<Rightarrow> shutdown_response_of_wire v
      | other \<Rightarrow>
          Err (MalformedPayload (UnexpectedPayloadNamed PAYLOAD_KIND_SHUTDOWN_RESPONSE (payload_name other))))"

lemma shutdown_response_of_to_wire [codec_simps]:
  "shutdown_response_of_wire (shutdown_response_to_wire v) = Ok v"
  by (cases v) (simp add: codec_simps)

interpretation shutdown_response: payload PAYLOAD_KIND_SHUTDOWN_RESPONSE shutdown_response_into_wire shutdown_response_from_wire
    "\<lambda>_. True"
  by (rule payload_implI [where variant = PShutdownResponse and to_wire = shutdown_response_to_wire
        and of_wire = shutdown_response_of_wire])
    (simp_all add: shutdown_response_into_wire_def shutdown_response_from_wire_def
      PAYLOAD_KIND_SHUTDOWN_RESPONSE_def codec_simps
      split: wire_payload.splits)

definition PAYLOAD_KIND_CANCEL_REQUEST :: string where
  "PAYLOAD_KIND_CANCEL_REQUEST = ''cancel_request''"

primrec cancel_request_to_wire :: "cancel_request \<Rightarrow> wire_cancel_request" where
  "cancel_request_to_wire (CancelRequest request_id) =
     WireCancelRequest request_id"

primrec cancel_request_of_wire :: "wire_cancel_request \<Rightarrow> (cancel_request, proto_error) result" where
  "cancel_request_of_wire (WireCancelRequest request_id) =
     Ok (CancelRequest request_id)"

definition cancel_request_into_wire :: "cancel_request \<Rightarrow> wire_payload" where
  "cancel_request_into_wire v = PCancelRequest (cancel_request_to_wire v)"

definition cancel_request_from_wire :: "wire_payload \<Rightarrow> (cancel_request, proto_error) result" where
  "cancel_request_from_wire p =
     (case p of PCancelRequest v \<Rightarrow> cancel_request_of_wire v
      | other \<Rightarrow>
          Err (MalformedPayload (UnexpectedPayloadNamed PAYLOAD_KIND_CANCEL_REQUEST (payload_name other))))"

lemma cancel_request_of_to_wire [codec_simps]:
  "cancel_request_of_wire (cancel_request_to_wire v) = Ok v"
  by (cases v) (simp add: codec_simps)

interpretation cancel_request: payload PAYLOAD_KIND_CANCEL_REQUEST cancel_request_into_wire cancel_request_from_wire
    "\<lambda>_. True"
  by (rule payload_implI [where variant = PCancelRequest and to_wire = cancel_request_to_wire
        and of_wire = cancel_request_of_wire])
    (simp_all add: cancel_request_into_wire_def cancel_request_from_wire_def
      PAYLOAD_KIND_CANCEL_REQUEST_def codec_simps
      split: wire_payload.splits)

definition PAYLOAD_KIND_CANCEL_RESPONSE :: string where
  "PAYLOAD_KIND_CANCEL_RESPONSE = ''cancel_response''"

primrec cancel_response_to_wire :: "cancel_response \<Rightarrow> wire_cancel_ack" where
  "cancel_response_to_wire (CancelResponse request_id status) =
     WireCancelAck request_id (cancel_status_to_i32 status)"

primrec cancel_response_of_wire :: "wire_cancel_ack \<Rightarrow> (cancel_response, proto_error) result" where
  "cancel_response_of_wire (WireCancelAck request_id status) =
     and_then (cancel_status_from_i32 status) (\<lambda>status.
       Ok (CancelResponse request_id status))"

definition cancel_response_into_wire :: "cancel_response \<Rightarrow> wire_payload" where
  "cancel_response_into_wire v = PCancelAck (cancel_response_to_wire v)"

definition cancel_response_from_wire :: "wire_payload \<Rightarrow> (cancel_response, proto_error) result" where
  "cancel_response_from_wire p =
     (case p of PCancelAck v \<Rightarrow> cancel_response_of_wire v
      | other \<Rightarrow>
          Err (MalformedPayload (UnexpectedPayloadNamed PAYLOAD_KIND_CANCEL_RESPONSE (payload_name other))))"

lemma cancel_response_of_to_wire [codec_simps]:
  "cancel_response_of_wire (cancel_response_to_wire v) = Ok v"
  by (cases v) (simp add: codec_simps)

interpretation cancel_response: payload PAYLOAD_KIND_CANCEL_RESPONSE cancel_response_into_wire cancel_response_from_wire
    "\<lambda>_. True"
  by (rule payload_implI [where variant = PCancelAck and to_wire = cancel_response_to_wire
        and of_wire = cancel_response_of_wire])
    (simp_all add: cancel_response_into_wire_def cancel_response_from_wire_def
      PAYLOAD_KIND_CANCEL_RESPONSE_def codec_simps
      split: wire_payload.splits)

subsection \<open>Metrics and health\<close>

definition PAYLOAD_KIND_METRICS_REQUEST :: string where
  "PAYLOAD_KIND_METRICS_REQUEST = ''metrics_request''"

primrec metrics_request_to_wire :: "metrics_request \<Rightarrow> wire_metrics_request" where
  "metrics_request_to_wire MetricsRequest =
     WireMetricsRequest"

primrec metrics_request_of_wire :: "wire_metrics_request \<Rightarrow> (metrics_request, proto_error) result" where
  "metrics_request_of_wire WireMetricsRequest =
     Ok MetricsRequest"

definition metrics_request_into_wire :: "metrics_request \<Rightarrow> wire_payload" where
  "metrics_request_into_wire v = PMetricsRequest (metrics_request_to_wire v)"

definition metrics_request_from_wire :: "wire_payload \<Rightarrow> (metrics_request, proto_error) result" where
  "metrics_request_from_wire p =
     (case p of PMetricsRequest v \<Rightarrow> metrics_request_of_wire v
      | other \<Rightarrow>
          Err (MalformedPayload (UnexpectedPayloadNamed PAYLOAD_KIND_METRICS_REQUEST (payload_name other))))"

lemma metrics_request_of_to_wire [codec_simps]:
  "metrics_request_of_wire (metrics_request_to_wire v) = Ok v"
  by (cases v) (simp add: codec_simps)

interpretation metrics_request: payload PAYLOAD_KIND_METRICS_REQUEST metrics_request_into_wire metrics_request_from_wire
    "\<lambda>_. True"
  by (rule payload_implI [where variant = PMetricsRequest and to_wire = metrics_request_to_wire
        and of_wire = metrics_request_of_wire])
    (simp_all add: metrics_request_into_wire_def metrics_request_from_wire_def
      PAYLOAD_KIND_METRICS_REQUEST_def codec_simps
      split: wire_payload.splits)

definition PAYLOAD_KIND_METRICS_RESPONSE :: string where
  "PAYLOAD_KIND_METRICS_RESPONSE = ''metrics_response''"

primrec cpu_metrics_to_wire :: "guest_cpu_metrics \<Rightarrow> wire_guest_cpu_metrics" where
  "cpu_metrics_to_wire
     (GuestCpuMetrics user_ticks nice_ticks system_ticks idle_ticks iowait_ticks irq_ticks softirq_ticks
        steal_ticks guest_ticks guest_nice_ticks total_ticks) =
      WireGuestCpuMetrics user_ticks nice_ticks system_ticks idle_ticks iowait_ticks irq_ticks softirq_ticks
        steal_ticks guest_ticks guest_nice_ticks total_ticks"

primrec cpu_metrics_of_wire :: "wire_guest_cpu_metrics \<Rightarrow> guest_cpu_metrics" where
  "cpu_metrics_of_wire
     (WireGuestCpuMetrics user_ticks nice_ticks system_ticks idle_ticks iowait_ticks irq_ticks softirq_ticks
        steal_ticks guest_ticks guest_nice_ticks total_ticks) =
      GuestCpuMetrics user_ticks nice_ticks system_ticks idle_ticks iowait_ticks irq_ticks softirq_ticks
        steal_ticks guest_ticks guest_nice_ticks total_ticks"

primrec mem_metrics_to_wire :: "guest_mem_metrics \<Rightarrow> wire_guest_mem_metrics" where
  "mem_metrics_to_wire
     (GuestMemMetrics mem_total_bytes mem_available_bytes mem_free_bytes buffers_bytes cached_bytes
        swap_total_bytes swap_free_bytes) =
      WireGuestMemMetrics mem_total_bytes mem_available_bytes mem_free_bytes buffers_bytes cached_bytes
        swap_total_bytes swap_free_bytes"

primrec mem_metrics_of_wire :: "wire_guest_mem_metrics \<Rightarrow> guest_mem_metrics" where
  "mem_metrics_of_wire
     (WireGuestMemMetrics mem_total_bytes mem_available_bytes mem_free_bytes buffers_bytes cached_bytes
        swap_total_bytes swap_free_bytes) =
      GuestMemMetrics mem_total_bytes mem_available_bytes mem_free_bytes buffers_bytes cached_bytes
        swap_total_bytes swap_free_bytes"

primrec metrics_response_to_wire :: "metrics_response \<Rightarrow> wire_metrics_response" where
  "metrics_response_to_wire (MetricsResponse cpu mem requests_total errors_total) =
     WireMetricsResponse (Some (cpu_metrics_to_wire cpu)) (Some (mem_metrics_to_wire mem))
       requests_total errors_total"

primrec metrics_response_of_wire ::
    "wire_metrics_response \<Rightarrow> (metrics_response, proto_error) result" where
  "metrics_response_of_wire (WireMetricsResponse cpu mem requests_total errors_total) =
     and_then (ok_or cpu (missing ''cpu'')) (\<lambda>cpu.
     and_then (ok_or mem (missing ''mem'')) (\<lambda>mem.
       Ok (MetricsResponse (cpu_metrics_of_wire cpu) (mem_metrics_of_wire mem)
             requests_total errors_total)))"

lemma cpu_metrics_of_to_wire [codec_simps]: "cpu_metrics_of_wire (cpu_metrics_to_wire c) = c"
  by (cases c) simp

lemma mem_metrics_of_to_wire [codec_simps]: "mem_metrics_of_wire (mem_metrics_to_wire m) = m"
  by (cases m) simp

definition metrics_response_into_wire :: "metrics_response \<Rightarrow> wire_payload" where
  "metrics_response_into_wire v = PMetricsResponse (metrics_response_to_wire v)"

definition metrics_response_from_wire :: "wire_payload \<Rightarrow> (metrics_response, proto_error) result" where
  "metrics_response_from_wire p =
     (case p of PMetricsResponse v \<Rightarrow> metrics_response_of_wire v
      | other \<Rightarrow>
          Err (MalformedPayload (UnexpectedPayloadNamed PAYLOAD_KIND_METRICS_RESPONSE (payload_name other))))"

lemma metrics_response_of_to_wire [codec_simps]:
  "metrics_response_of_wire (metrics_response_to_wire v) = Ok v"
  by (cases v) (simp add: codec_simps)

interpretation metrics_response: payload PAYLOAD_KIND_METRICS_RESPONSE metrics_response_into_wire metrics_response_from_wire
    "\<lambda>_. True"
  by (rule payload_implI [where variant = PMetricsResponse and to_wire = metrics_response_to_wire
        and of_wire = metrics_response_of_wire])
    (simp_all add: metrics_response_into_wire_def metrics_response_from_wire_def
      PAYLOAD_KIND_METRICS_RESPONSE_def codec_simps
      split: wire_payload.splits)

definition PAYLOAD_KIND_PING_REQUEST :: string where
  "PAYLOAD_KIND_PING_REQUEST = ''ping_request''"

primrec ping_request_to_wire :: "ping_request \<Rightarrow> wire_ping_request" where
  "ping_request_to_wire PingRequest =
     WirePingRequest"

primrec ping_request_of_wire :: "wire_ping_request \<Rightarrow> (ping_request, proto_error) result" where
  "ping_request_of_wire WirePingRequest =
     Ok PingRequest"

definition ping_request_into_wire :: "ping_request \<Rightarrow> wire_payload" where
  "ping_request_into_wire v = PPingRequest (ping_request_to_wire v)"

definition ping_request_from_wire :: "wire_payload \<Rightarrow> (ping_request, proto_error) result" where
  "ping_request_from_wire p =
     (case p of PPingRequest v \<Rightarrow> ping_request_of_wire v
      | other \<Rightarrow>
          Err (MalformedPayload (UnexpectedPayloadNamed PAYLOAD_KIND_PING_REQUEST (payload_name other))))"

lemma ping_request_of_to_wire [codec_simps]:
  "ping_request_of_wire (ping_request_to_wire v) = Ok v"
  by (cases v) (simp add: codec_simps)

interpretation ping_request: payload PAYLOAD_KIND_PING_REQUEST ping_request_into_wire ping_request_from_wire
    "\<lambda>_. True"
  by (rule payload_implI [where variant = PPingRequest and to_wire = ping_request_to_wire
        and of_wire = ping_request_of_wire])
    (simp_all add: ping_request_into_wire_def ping_request_from_wire_def
      PAYLOAD_KIND_PING_REQUEST_def codec_simps
      split: wire_payload.splits)

definition PAYLOAD_KIND_PONG_RESPONSE :: string where
  "PAYLOAD_KIND_PONG_RESPONSE = ''pong_response''"

primrec pong_response_to_wire :: "pong_response \<Rightarrow> wire_pong_response" where
  "pong_response_to_wire (PongResponse guest_unix_ms) =
     WirePongResponse guest_unix_ms"

primrec pong_response_of_wire :: "wire_pong_response \<Rightarrow> (pong_response, proto_error) result" where
  "pong_response_of_wire (WirePongResponse guest_unix_ms) =
     Ok (PongResponse guest_unix_ms)"

definition pong_response_into_wire :: "pong_response \<Rightarrow> wire_payload" where
  "pong_response_into_wire v = PPongResponse (pong_response_to_wire v)"

definition pong_response_from_wire :: "wire_payload \<Rightarrow> (pong_response, proto_error) result" where
  "pong_response_from_wire p =
     (case p of PPongResponse v \<Rightarrow> pong_response_of_wire v
      | other \<Rightarrow>
          Err (MalformedPayload (UnexpectedPayloadNamed PAYLOAD_KIND_PONG_RESPONSE (payload_name other))))"

lemma pong_response_of_to_wire [codec_simps]:
  "pong_response_of_wire (pong_response_to_wire v) = Ok v"
  by (cases v) (simp add: codec_simps)

interpretation pong_response: payload PAYLOAD_KIND_PONG_RESPONSE pong_response_into_wire pong_response_from_wire
    "\<lambda>_. True"
  by (rule payload_implI [where variant = PPongResponse and to_wire = pong_response_to_wire
        and of_wire = pong_response_of_wire])
    (simp_all add: pong_response_into_wire_def pong_response_from_wire_def
      PAYLOAD_KIND_PONG_RESPONSE_def codec_simps
      split: wire_payload.splits)

subsection \<open>Streaming exec\<close>

definition PAYLOAD_KIND_EXEC_STDOUT :: string where
  "PAYLOAD_KIND_EXEC_STDOUT = ''exec_stdout''"

primrec exec_stdout_to_wire :: "exec_stdout \<Rightarrow> wire_exec_stream_chunk" where
  "exec_stdout_to_wire (ExecStdout seq bytes) =
     WireExecStreamChunk seq bytes"

primrec exec_stdout_of_wire :: "wire_exec_stream_chunk \<Rightarrow> (exec_stdout, proto_error) result" where
  "exec_stdout_of_wire (WireExecStreamChunk seq bytes) =
     Ok (ExecStdout seq bytes)"

definition exec_stdout_into_wire :: "exec_stdout \<Rightarrow> wire_payload" where
  "exec_stdout_into_wire v = PExecStdout (exec_stdout_to_wire v)"

definition exec_stdout_from_wire :: "wire_payload \<Rightarrow> (exec_stdout, proto_error) result" where
  "exec_stdout_from_wire p =
     (case p of PExecStdout v \<Rightarrow> exec_stdout_of_wire v
      | other \<Rightarrow>
          Err (MalformedPayload (UnexpectedPayloadNamed PAYLOAD_KIND_EXEC_STDOUT (payload_name other))))"

lemma exec_stdout_of_to_wire [codec_simps]:
  "exec_stdout_of_wire (exec_stdout_to_wire v) = Ok v"
  by (cases v) (simp add: codec_simps)

interpretation exec_stdout: payload PAYLOAD_KIND_EXEC_STDOUT exec_stdout_into_wire exec_stdout_from_wire
    "\<lambda>_. True"
  by (rule payload_implI [where variant = PExecStdout and to_wire = exec_stdout_to_wire
        and of_wire = exec_stdout_of_wire])
    (simp_all add: exec_stdout_into_wire_def exec_stdout_from_wire_def
      PAYLOAD_KIND_EXEC_STDOUT_def codec_simps
      split: wire_payload.splits)

definition PAYLOAD_KIND_EXEC_STDERR :: string where
  "PAYLOAD_KIND_EXEC_STDERR = ''exec_stderr''"

primrec exec_stderr_to_wire :: "exec_stderr \<Rightarrow> wire_exec_stream_chunk" where
  "exec_stderr_to_wire (ExecStderr seq bytes) =
     WireExecStreamChunk seq bytes"

primrec exec_stderr_of_wire :: "wire_exec_stream_chunk \<Rightarrow> (exec_stderr, proto_error) result" where
  "exec_stderr_of_wire (WireExecStreamChunk seq bytes) =
     Ok (ExecStderr seq bytes)"

definition exec_stderr_into_wire :: "exec_stderr \<Rightarrow> wire_payload" where
  "exec_stderr_into_wire v = PExecStderr (exec_stderr_to_wire v)"

definition exec_stderr_from_wire :: "wire_payload \<Rightarrow> (exec_stderr, proto_error) result" where
  "exec_stderr_from_wire p =
     (case p of PExecStderr v \<Rightarrow> exec_stderr_of_wire v
      | other \<Rightarrow>
          Err (MalformedPayload (UnexpectedPayloadNamed PAYLOAD_KIND_EXEC_STDERR (payload_name other))))"

lemma exec_stderr_of_to_wire [codec_simps]:
  "exec_stderr_of_wire (exec_stderr_to_wire v) = Ok v"
  by (cases v) (simp add: codec_simps)

interpretation exec_stderr: payload PAYLOAD_KIND_EXEC_STDERR exec_stderr_into_wire exec_stderr_from_wire
    "\<lambda>_. True"
  by (rule payload_implI [where variant = PExecStderr and to_wire = exec_stderr_to_wire
        and of_wire = exec_stderr_of_wire])
    (simp_all add: exec_stderr_into_wire_def exec_stderr_from_wire_def
      PAYLOAD_KIND_EXEC_STDERR_def codec_simps
      split: wire_payload.splits)

definition PAYLOAD_KIND_EXEC_EXIT :: string where
  "PAYLOAD_KIND_EXEC_EXIT = ''exec_exit''"

primrec exec_exit_to_wire :: "exec_exit \<Rightarrow> wire_exec_exit" where
  "exec_exit_to_wire (ExecExit status exit_code total_stdout_bytes total_stderr_bytes truncated timing) =
     WireExecExit (exec_status_to_i32 status) exit_code total_stdout_bytes total_stderr_bytes truncated (Some (timing_to_wire timing))"

primrec exec_exit_of_wire :: "wire_exec_exit \<Rightarrow> (exec_exit, proto_error) result" where
  "exec_exit_of_wire (WireExecExit status exit_code total_stdout_bytes total_stderr_bytes truncated timing) =
     and_then (exec_status_from_i32 status) (\<lambda>status.
     and_then (timing_from_wire timing) (\<lambda>timing.
       Ok (ExecExit status exit_code total_stdout_bytes total_stderr_bytes truncated timing)))"

definition exec_exit_into_wire :: "exec_exit \<Rightarrow> wire_payload" where
  "exec_exit_into_wire v = PExecExit (exec_exit_to_wire v)"

definition exec_exit_from_wire :: "wire_payload \<Rightarrow> (exec_exit, proto_error) result" where
  "exec_exit_from_wire p =
     (case p of PExecExit v \<Rightarrow> exec_exit_of_wire v
      | other \<Rightarrow>
          Err (MalformedPayload (UnexpectedPayloadNamed PAYLOAD_KIND_EXEC_EXIT (payload_name other))))"

lemma exec_exit_of_to_wire [codec_simps]:
  "exec_exit_of_wire (exec_exit_to_wire v) = Ok v"
  by (cases v) (simp add: codec_simps)

interpretation exec_exit: payload PAYLOAD_KIND_EXEC_EXIT exec_exit_into_wire exec_exit_from_wire
    "\<lambda>_. True"
  by (rule payload_implI [where variant = PExecExit and to_wire = exec_exit_to_wire
        and of_wire = exec_exit_of_wire])
    (simp_all add: exec_exit_into_wire_def exec_exit_from_wire_def
      PAYLOAD_KIND_EXEC_EXIT_def codec_simps
      split: wire_payload.splits)

subsection \<open>PTY\<close>

definition PAYLOAD_KIND_PTY_REQUEST :: string where
  "PAYLOAD_KIND_PTY_REQUEST = ''pty_request''"

primrec pty_request_to_wire :: "pty_request \<Rightarrow> wire_pty_request" where
  "pty_request_to_wire (PtyRequest program args cwd env timeout_ms sz) =
     WirePtyRequest program args cwd (env_to_wire env) timeout_ms (Some (pty_size_to_wire sz))"

primrec pty_request_of_wire :: "wire_pty_request \<Rightarrow> (pty_request, proto_error) result" where
  "pty_request_of_wire (WirePtyRequest program args cwd env timeout_ms sz) =
     and_then (pty_size_from_wire sz) (\<lambda>sz.
       Ok (PtyRequest program args cwd (env_from_wire env) timeout_ms sz))"

definition pty_request_into_wire :: "pty_request \<Rightarrow> wire_payload" where
  "pty_request_into_wire v = PPtyRequest (pty_request_to_wire v)"

definition pty_request_from_wire :: "wire_payload \<Rightarrow> (pty_request, proto_error) result" where
  "pty_request_from_wire p =
     (case p of PPtyRequest v \<Rightarrow> pty_request_of_wire v
      | other \<Rightarrow>
          Err (MalformedPayload (UnexpectedPayloadNamed PAYLOAD_KIND_PTY_REQUEST (payload_name other))))"

definition pty_request_representable :: "pty_request \<Rightarrow> bool" where
  "pty_request_representable v =
     (case v of PtyRequest program args cwd env timeout_ms sz \<Rightarrow> env_representable env)"

lemma pty_request_of_wire_OkE:
  assumes "pty_request_of_wire w = Ok p"
  obtains program args cwd ws timeout_ms sz
  where "p = PtyRequest program args cwd (env_from_wire ws) timeout_ms sz"
  using assms by (cases w) (auto simp: result_simps)

lemma pty_request_of_to_wire [codec_simps]:
  "pty_request_representable v \<Longrightarrow> pty_request_of_wire (pty_request_to_wire v) = Ok v"
  by (cases v) (simp add: pty_request_representable_def codec_simps)

lemma pty_request_of_wire_representable:
  "pty_request_of_wire w = Ok p \<Longrightarrow> pty_request_representable p"
  by (auto simp: pty_request_representable_def elim!: pty_request_of_wire_OkE)

interpretation pty_request: payload PAYLOAD_KIND_PTY_REQUEST pty_request_into_wire pty_request_from_wire
    pty_request_representable
  by (rule payload_implI [where variant = PPtyRequest and to_wire = pty_request_to_wire
        and of_wire = pty_request_of_wire])
    (simp_all add: pty_request_into_wire_def pty_request_from_wire_def
      PAYLOAD_KIND_PTY_REQUEST_def codec_simps pty_request_of_wire_representable
      split: wire_payload.splits)

definition PAYLOAD_KIND_PTY_INPUT :: string where
  "PAYLOAD_KIND_PTY_INPUT = ''pty_input''"

primrec pty_input_to_wire :: "pty_input \<Rightarrow> wire_pty_bytes" where
  "pty_input_to_wire (PtyInput seq bytes) =
     WirePtyBytes seq bytes"

primrec pty_input_of_wire :: "wire_pty_bytes \<Rightarrow> (pty_input, proto_error) result" where
  "pty_input_of_wire (WirePtyBytes seq bytes) =
     Ok (PtyInput seq bytes)"

definition pty_input_into_wire :: "pty_input \<Rightarrow> wire_payload" where
  "pty_input_into_wire v = PPtyInput (pty_input_to_wire v)"

definition pty_input_from_wire :: "wire_payload \<Rightarrow> (pty_input, proto_error) result" where
  "pty_input_from_wire p =
     (case p of PPtyInput v \<Rightarrow> pty_input_of_wire v
      | other \<Rightarrow>
          Err (MalformedPayload (UnexpectedPayloadNamed PAYLOAD_KIND_PTY_INPUT (payload_name other))))"

lemma pty_input_of_to_wire [codec_simps]:
  "pty_input_of_wire (pty_input_to_wire v) = Ok v"
  by (cases v) (simp add: codec_simps)

interpretation pty_input: payload PAYLOAD_KIND_PTY_INPUT pty_input_into_wire pty_input_from_wire
    "\<lambda>_. True"
  by (rule payload_implI [where variant = PPtyInput and to_wire = pty_input_to_wire
        and of_wire = pty_input_of_wire])
    (simp_all add: pty_input_into_wire_def pty_input_from_wire_def
      PAYLOAD_KIND_PTY_INPUT_def codec_simps
      split: wire_payload.splits)

definition PAYLOAD_KIND_PTY_OUTPUT :: string where
  "PAYLOAD_KIND_PTY_OUTPUT = ''pty_output''"

primrec pty_output_to_wire :: "pty_output \<Rightarrow> wire_pty_bytes" where
  "pty_output_to_wire (PtyOutput seq bytes) =
     WirePtyBytes seq bytes"

primrec pty_output_of_wire :: "wire_pty_bytes \<Rightarrow> (pty_output, proto_error) result" where
  "pty_output_of_wire (WirePtyBytes seq bytes) =
     Ok (PtyOutput seq bytes)"

definition pty_output_into_wire :: "pty_output \<Rightarrow> wire_payload" where
  "pty_output_into_wire v = PPtyOutput (pty_output_to_wire v)"

definition pty_output_from_wire :: "wire_payload \<Rightarrow> (pty_output, proto_error) result" where
  "pty_output_from_wire p =
     (case p of PPtyOutput v \<Rightarrow> pty_output_of_wire v
      | other \<Rightarrow>
          Err (MalformedPayload (UnexpectedPayloadNamed PAYLOAD_KIND_PTY_OUTPUT (payload_name other))))"

lemma pty_output_of_to_wire [codec_simps]:
  "pty_output_of_wire (pty_output_to_wire v) = Ok v"
  by (cases v) (simp add: codec_simps)

interpretation pty_output: payload PAYLOAD_KIND_PTY_OUTPUT pty_output_into_wire pty_output_from_wire
    "\<lambda>_. True"
  by (rule payload_implI [where variant = PPtyOutput and to_wire = pty_output_to_wire
        and of_wire = pty_output_of_wire])
    (simp_all add: pty_output_into_wire_def pty_output_from_wire_def
      PAYLOAD_KIND_PTY_OUTPUT_def codec_simps
      split: wire_payload.splits)

definition PAYLOAD_KIND_PTY_RESIZE :: string where
  "PAYLOAD_KIND_PTY_RESIZE = ''pty_resize''"

primrec pty_resize_to_wire :: "pty_resize \<Rightarrow> wire_pty_resize" where
  "pty_resize_to_wire (PtyResize seq sz) =
     WirePtyResize seq (Some (pty_size_to_wire sz))"

primrec pty_resize_of_wire :: "wire_pty_resize \<Rightarrow> (pty_resize, proto_error) result" where
  "pty_resize_of_wire (WirePtyResize seq sz) =
     and_then (pty_size_from_wire sz) (\<lambda>sz.
       Ok (PtyResize seq sz))"

definition pty_resize_into_wire :: "pty_resize \<Rightarrow> wire_payload" where
  "pty_resize_into_wire v = PPtyResize (pty_resize_to_wire v)"

definition pty_resize_from_wire :: "wire_payload \<Rightarrow> (pty_resize, proto_error) result" where
  "pty_resize_from_wire p =
     (case p of PPtyResize v \<Rightarrow> pty_resize_of_wire v
      | other \<Rightarrow>
          Err (MalformedPayload (UnexpectedPayloadNamed PAYLOAD_KIND_PTY_RESIZE (payload_name other))))"

lemma pty_resize_of_to_wire [codec_simps]:
  "pty_resize_of_wire (pty_resize_to_wire v) = Ok v"
  by (cases v) (simp add: codec_simps)

interpretation pty_resize: payload PAYLOAD_KIND_PTY_RESIZE pty_resize_into_wire pty_resize_from_wire
    "\<lambda>_. True"
  by (rule payload_implI [where variant = PPtyResize and to_wire = pty_resize_to_wire
        and of_wire = pty_resize_of_wire])
    (simp_all add: pty_resize_into_wire_def pty_resize_from_wire_def
      PAYLOAD_KIND_PTY_RESIZE_def codec_simps
      split: wire_payload.splits)

primrec pty_event_to_wire :: "pty_control_event \<Rightarrow> wire_pty_control_event" where
  "pty_event_to_wire PtyEof = WirePtyEof True"
| "pty_event_to_wire (PtySignalEvent signal) = WirePtySignal (pty_signal_to_i32 signal)"

primrec pty_event_of_wire :: "wire_pty_control_event \<Rightarrow> (pty_control_event, proto_error) result" where
  "pty_event_of_wire (WirePtyEof _) = Ok PtyEof"
| "pty_event_of_wire (WirePtySignal signal) =
     and_then (pty_signal_from_i32 signal) (\<lambda>signal. Ok (PtySignalEvent signal))"

lemma pty_event_of_to_wire [codec_simps]: "pty_event_of_wire (pty_event_to_wire e) = Ok e"
  by (cases e) (simp_all add: codec_simps)

definition PAYLOAD_KIND_PTY_CONTROL :: string where
  "PAYLOAD_KIND_PTY_CONTROL = ''pty_control''"

primrec pty_control_to_wire :: "pty_control \<Rightarrow> wire_pty_control" where
  "pty_control_to_wire (PtyControl seq event) = WirePtyControl seq (Some (pty_event_to_wire event))"

primrec pty_control_of_wire :: "wire_pty_control \<Rightarrow> (pty_control, proto_error) result" where
  "pty_control_of_wire (WirePtyControl seq event) =
     and_then (ok_or event (missing ''pty control event'')) (\<lambda>event.
     and_then (pty_event_of_wire event) (\<lambda>event.
       Ok (PtyControl seq event)))"

definition pty_control_into_wire :: "pty_control \<Rightarrow> wire_payload" where
  "pty_control_into_wire v = PPtyControl (pty_control_to_wire v)"

definition pty_control_from_wire :: "wire_payload \<Rightarrow> (pty_control, proto_error) result" where
  "pty_control_from_wire p =
     (case p of PPtyControl v \<Rightarrow> pty_control_of_wire v
      | other \<Rightarrow>
          Err (MalformedPayload (UnexpectedPayloadNamed PAYLOAD_KIND_PTY_CONTROL (payload_name other))))"

lemma pty_control_of_to_wire [codec_simps]:
  "pty_control_of_wire (pty_control_to_wire v) = Ok v"
  by (cases v) (simp add: codec_simps)

interpretation pty_control: payload PAYLOAD_KIND_PTY_CONTROL pty_control_into_wire pty_control_from_wire
    "\<lambda>_. True"
  by (rule payload_implI [where variant = PPtyControl and to_wire = pty_control_to_wire
        and of_wire = pty_control_of_wire])
    (simp_all add: pty_control_into_wire_def pty_control_from_wire_def
      PAYLOAD_KIND_PTY_CONTROL_def codec_simps
      split: wire_payload.splits)

definition PAYLOAD_KIND_PTY_EXIT :: string where
  "PAYLOAD_KIND_PTY_EXIT = ''pty_exit''"

primrec pty_exit_to_wire :: "pty_exit \<Rightarrow> wire_pty_exit" where
  "pty_exit_to_wire (PtyExit status exit_code exit_signal total_input_bytes total_output_bytes truncated timing) =
     WirePtyExit (exec_status_to_i32 status) exit_code exit_signal total_input_bytes total_output_bytes truncated (Some (timing_to_wire timing))"

primrec pty_exit_of_wire :: "wire_pty_exit \<Rightarrow> (pty_exit, proto_error) result" where
  "pty_exit_of_wire (WirePtyExit status exit_code exit_signal total_input_bytes total_output_bytes truncated timing) =
     and_then (exec_status_from_i32 status) (\<lambda>status.
     and_then (timing_from_wire timing) (\<lambda>timing.
       Ok (PtyExit status exit_code exit_signal total_input_bytes total_output_bytes truncated timing)))"

definition pty_exit_into_wire :: "pty_exit \<Rightarrow> wire_payload" where
  "pty_exit_into_wire v = PPtyExit (pty_exit_to_wire v)"

definition pty_exit_from_wire :: "wire_payload \<Rightarrow> (pty_exit, proto_error) result" where
  "pty_exit_from_wire p =
     (case p of PPtyExit v \<Rightarrow> pty_exit_of_wire v
      | other \<Rightarrow>
          Err (MalformedPayload (UnexpectedPayloadNamed PAYLOAD_KIND_PTY_EXIT (payload_name other))))"

lemma pty_exit_of_to_wire [codec_simps]:
  "pty_exit_of_wire (pty_exit_to_wire v) = Ok v"
  by (cases v) (simp add: codec_simps)

interpretation pty_exit: payload PAYLOAD_KIND_PTY_EXIT pty_exit_into_wire pty_exit_from_wire
    "\<lambda>_. True"
  by (rule payload_implI [where variant = PPtyExit and to_wire = pty_exit_to_wire
        and of_wire = pty_exit_of_wire])
    (simp_all add: pty_exit_into_wire_def pty_exit_from_wire_def
      PAYLOAD_KIND_PTY_EXIT_def codec_simps
      split: wire_payload.splits)

subsection \<open>What an exec request keeps on the wire\<close>

text \<open>Every exec request survives the wire unchanged except for an environment that is present but
  empty, which the guest receives as no environment at all.\<close>
theorem exec_request_on_the_wire:
  "exec_request_from_wire (exec_request_into_wire
     (ExecRequest program args cwd env stdin timeout_ms streaming)) =
   Ok (ExecRequest program args cwd (if env = Some [] then None else env) stdin timeout_ms streaming)"
  by (cases env)
    (auto simp: exec_request_from_wire_def exec_request_into_wire_def env_to_wire_def
      env_from_wire_def comp_def case_prod_beta)

end
