(* ===== verification/Framing.thy ===== *)
theory Framing
  imports Exec_Conversions
begin

text \<open>
  Envelopes and length-prefixed frames: \<open>m80-proto/src/wire.rs\<close>, \<open>framing.rs\<close>, \<open>version.rs\<close> and the
  envelope part of \<open>types.rs\<close>. The protobuf codec prost generates for \<open>WireEnvelope\<close> is a pair of
  parameters, \<open>encode_to_vec\<close> and \<open>prost_decode\<close>; the hand-written scanner that runs before it
  (\<open>reject_unknown_envelope_fields\<close>) is modelled byte for byte. Readers and writers are the trait
  methods \<open>read_exact\<close> and \<open>write_all\<close>, passed as effects on their state.
\<close>

subsection \<open>Constants (version.rs, framing.rs)\<close>

definition PROTOCOL_VERSION :: u32 where
  "PROTOCOL_VERSION = 4"

definition MAX_FRAME_BYTES :: nat where
  "MAX_FRAME_BYTES = 4 * 1024 * 1024"

definition LENGTH_PREFIX_BYTES :: nat where
  "LENGTH_PREFIX_BYTES = 4"

subsection \<open>Envelopes (types.rs)\<close>

record 'p envelope =
  env_version :: u32
  env_kind :: string
  env_request_id :: "string option"
  env_max_duration_ms :: "u64 option"
  env_payload :: 'p

definition envelope_new :: "string \<Rightarrow> 'p \<Rightarrow> 'p envelope" where
  "envelope_new KIND pl =
     \<lparr>env_version = PROTOCOL_VERSION, env_kind = KIND, env_request_id = None,
      env_max_duration_ms = None, env_payload = pl\<rparr>"

definition envelope_with_request_id :: "string \<Rightarrow> 'p \<Rightarrow> string \<Rightarrow> 'p envelope" where
  "envelope_with_request_id KIND pl request_id =
     \<lparr>env_version = PROTOCOL_VERSION, env_kind = KIND, env_request_id = Some request_id,
      env_max_duration_ms = None, env_payload = pl\<rparr>"

definition with_max_duration_ms :: "'p envelope \<Rightarrow> u64 \<Rightarrow> 'p envelope" where
  "with_max_duration_ms e max_duration_ms = e\<lparr>env_max_duration_ms := Some max_duration_ms\<rparr>"

record raw_envelope =
  raw_version :: u32
  raw_kind :: string
  raw_request_id :: "string option"
  raw_max_duration_ms :: "u64 option"
  raw_payload :: wire_payload

definition raw_from_typed :: "('p \<Rightarrow> wire_payload) \<Rightarrow> 'p envelope \<Rightarrow> raw_envelope" where
  "raw_from_typed to_wire e =
     \<lparr>raw_version = env_version e, raw_kind = env_kind e, raw_request_id = env_request_id e,
      raw_max_duration_ms = env_max_duration_ms e, raw_payload = to_wire (env_payload e)\<rparr>"

definition raw_decode ::
    "string \<Rightarrow> (wire_payload \<Rightarrow> ('p, proto_error) result) \<Rightarrow> raw_envelope
     \<Rightarrow> ('p envelope, proto_error) result" where
  "raw_decode KIND from_wire raw =
     (if raw_kind raw \<noteq> KIND then
        Err (MalformedPayload (PayloadKindMismatch (raw_kind raw) KIND))
      else and_then (from_wire (raw_payload raw)) (\<lambda>pl.
        Ok \<lparr>env_version = raw_version raw, env_kind = raw_kind raw,
            env_request_id = raw_request_id raw, env_max_duration_ms = raw_max_duration_ms raw,
            env_payload = pl\<rparr>))"

subsection \<open>The envelope field scanner (wire.rs)\<close>

definition known_envelope_field :: "u64 \<Rightarrow> bool" where
  "known_envelope_field field \<longleftrightarrow> (1 \<le> field \<and> field \<le> 4) \<or> (10 \<le> field \<and> field \<le> 56)"

text \<open>The body of \<open>for shift in (0..64).step_by(7)\<close>, over the shifts left.\<close>
fun read_varint_loop ::
    "u8 list \<Rightarrow> nat list \<Rightarrow> u64 \<Rightarrow> nat \<Rightarrow> (u64 \<times> nat, proto_error) result" where
  "read_varint_loop bytes [] v offset = Err (MalformedPayload VarintExceeds64Bits)"
| "read_varint_loop bytes (shift # shifts) v offset =
     (if offset \<ge> length bytes then Err (MalformedPayload TruncatedVarint)
      else
        (let byte = bytes ! offset;
             offset = offset + 1;
             v = v OR push_bit shift (ucast (byte AND 0x7F))
         in if byte AND 0x80 = 0 then Ok (v, offset)
            else read_varint_loop bytes shifts v offset))"

definition varint_shifts :: "nat list" where
  "varint_shifts = [0, 7, 14, 21, 28, 35, 42, 49, 56, 63]"

definition read_varint :: "u8 list \<Rightarrow> nat \<Rightarrow> (u64 \<times> nat, proto_error) result" where
  "read_varint bytes offset = read_varint_loop bytes varint_shifts 0 offset"

definition skip_bytes :: "u8 list \<Rightarrow> nat \<Rightarrow> nat \<Rightarrow> (nat, proto_error) result" where
  "skip_bytes bytes offset len =
     (if offset + len \<ge> usize_bound then Err (MalformedPayload FieldLengthOverflowsUsize)
      else if offset + len > length bytes then Err (MalformedPayload TruncatedField)
      else Ok (offset + len))"

text \<open>\<open>usize::try_from(len)\<close> cannot fail on a 64-bit host.\<close>
definition skip_field :: "u8 list \<Rightarrow> nat \<Rightarrow> u64 \<Rightarrow> (nat, proto_error) result" where
  "skip_field bytes offset wire_type =
     (if wire_type = 0 then and_then (read_varint bytes offset) (\<lambda>(_, offset). Ok offset)
      else if wire_type = 1 then skip_bytes bytes offset 8
      else if wire_type = 2 then
        and_then (read_varint bytes offset) (\<lambda>(len, offset). skip_bytes bytes offset (unat len))
      else if wire_type = 5 then skip_bytes bytes offset 4
      else Err (MalformedPayload (UnsupportedWireType wire_type)))"

lemma read_varint_loop_advances:
  "read_varint_loop bytes shifts v offset = Ok (v', offset') \<Longrightarrow>
     offset < offset' \<and> offset' \<le> length bytes"
  by (induction bytes shifts v offset rule: read_varint_loop.induct)
    (fastforce simp: Let_def split: if_splits)+

lemma read_varint_advances:
  "read_varint bytes offset = Ok (v, offset') \<Longrightarrow> offset < offset' \<and> offset' \<le> length bytes"
  unfolding read_varint_def by (rule read_varint_loop_advances)

lemma skip_field_advances:
  "skip_field bytes offset t = Ok offset' \<Longrightarrow> offset \<le> offset'"
  by (auto simp: skip_field_def skip_bytes_def result_simps split: if_splits
    dest!: read_varint_advances)

function scan_envelope :: "u8 list \<Rightarrow> nat \<Rightarrow> (unit, proto_error) result" where
  "scan_envelope bytes offset =
     (if offset < length bytes then
        (case read_varint bytes offset of
           Err e \<Rightarrow> Err e
         | Ok (key, offset1) \<Rightarrow>
             (let field = drop_bit 3 key; wire_type = key AND 0x07
              in if \<not> known_envelope_field field then
                   Err (MalformedPayload (UnknownEnvelopeField field))
                 else
                   (case skip_field bytes offset1 wire_type of
                      Err e \<Rightarrow> Err e
                    | Ok offset2 \<Rightarrow> scan_envelope bytes offset2)))
      else Ok ())"
  by pat_completeness auto
termination
  by (relation "measure (\<lambda>(bytes, offset). length bytes - offset)")
    (auto dest!: read_varint_advances skip_field_advances)

declare scan_envelope.simps [simp del]

definition reject_unknown_envelope_fields :: "u8 list \<Rightarrow> (unit, proto_error) result" where
  "reject_unknown_envelope_fields bytes = scan_envelope bytes 0"

subsection \<open>Encoding and decoding envelopes (wire.rs)\<close>

definition wire_of_raw :: "raw_envelope \<Rightarrow> wire_envelope" where
  "wire_of_raw raw =
     \<lparr>we_version = raw_version raw, we_kind = raw_kind raw, we_request_id = raw_request_id raw,
      we_max_duration_ms = raw_max_duration_ms raw, we_payload = Some (raw_payload raw)\<rparr>"

definition encode_raw_envelope ::
    "(wire_envelope \<Rightarrow> u8 list) \<Rightarrow> raw_envelope \<Rightarrow> (u8 list, proto_error) result" where
  "encode_raw_envelope encode_to_vec raw =
     (if raw_version raw \<noteq> PROTOCOL_VERSION then
        Err (IncompatibleVersion PROTOCOL_VERSION (raw_version raw))
      else Ok (encode_to_vec (wire_of_raw raw)))"

definition decode_raw_envelope ::
    "(u8 list \<Rightarrow> (wire_envelope, string) result) \<Rightarrow> u8 list \<Rightarrow> (raw_envelope, proto_error) result" where
  "decode_raw_envelope prost_decode bytes =
     and_then (reject_unknown_envelope_fields bytes) (\<lambda>_.
     and_then (case prost_decode bytes of
                 Ok w \<Rightarrow> Ok w | Err e \<Rightarrow> Err (MalformedPayload (CodecMessage e))) (\<lambda>w.
     and_then (ok_or (we_payload w) (MalformedPayload MissingEnvelopePayload)) (\<lambda>pl.
       Ok \<lparr>raw_version = we_version w, raw_kind = we_kind w, raw_request_id = we_request_id w,
           raw_max_duration_ms = we_max_duration_ms w, raw_payload = pl\<rparr>)))"

subsection \<open>Frames (framing.rs)\<close>

definition check_size :: "nat \<Rightarrow> (unit, proto_error) result" where
  "check_size n =
     (if n > MAX_FRAME_BYTES then Err (OversizedPayload n MAX_FRAME_BYTES) else Ok ())"

text \<open>\<open>u32::to_be_bytes\<close> and \<open>u32::from_be_bytes\<close>\<close>
definition to_be_bytes :: "u32 \<Rightarrow> u8 list" where
  "to_be_bytes w =
     [ucast (drop_bit 24 w), ucast (drop_bit 16 w), ucast (drop_bit 8 w), ucast w]"

definition from_be_bytes :: "u8 list \<Rightarrow> u32" where
  "from_be_bytes bs =
     push_bit 24 (ucast (bs ! 0)) OR push_bit 16 (ucast (bs ! 1)) OR push_bit 8 (ucast (bs ! 2))
       OR ucast (bs ! 3)"

definition read_raw_frame ::
    "(nat \<Rightarrow> ('r, u8 list, proto_error) eff) \<Rightarrow> (u8 list \<Rightarrow> (wire_envelope, string) result)
     \<Rightarrow> ('r, raw_envelope, proto_error) eff" where
  "read_raw_frame read_exact prost_decode =
     bind_eff (read_exact LENGTH_PREFIX_BYTES) (\<lambda>prefix.
     let len = unat (from_be_bytes prefix) in
     bind_eff (lift_result (check_size len)) (\<lambda>_.
     bind_eff (read_exact len) (\<lambda>body.
     bind_eff (lift_result (decode_raw_envelope prost_decode body)) (\<lambda>raw.
       if raw_version raw \<noteq> PROTOCOL_VERSION then
         fail (IncompatibleVersion PROTOCOL_VERSION (raw_version raw))
       else ret raw))))"

definition read_frame ::
    "string \<Rightarrow> (wire_payload \<Rightarrow> ('p, proto_error) result)
     \<Rightarrow> (nat \<Rightarrow> ('r, u8 list, proto_error) eff) \<Rightarrow> (u8 list \<Rightarrow> (wire_envelope, string) result)
     \<Rightarrow> ('r, 'p envelope, proto_error) eff" where
  "read_frame KIND from_wire read_exact prost_decode =
     bind_eff (read_raw_frame read_exact prost_decode)
       (\<lambda>raw. lift_result (raw_decode KIND from_wire raw))"

definition write_raw_frame ::
    "(u8 list \<Rightarrow> ('w, unit, proto_error) eff) \<Rightarrow> (wire_envelope \<Rightarrow> u8 list) \<Rightarrow> raw_envelope
     \<Rightarrow> ('w, unit, proto_error) eff" where
  "write_raw_frame write_all encode_to_vec raw =
     bind_eff (lift_result (encode_raw_envelope encode_to_vec raw)) (\<lambda>body.
     bind_eff (lift_result (check_size (length body))) (\<lambda>_.
     let frame = to_be_bytes (of_nat (length body)) @ body in
       write_all frame))"

definition write_frame ::
    "('p \<Rightarrow> wire_payload) \<Rightarrow> (u8 list \<Rightarrow> ('w, unit, proto_error) eff)
     \<Rightarrow> (wire_envelope \<Rightarrow> u8 list) \<Rightarrow> 'p envelope \<Rightarrow> ('w, unit, proto_error) eff" where
  "write_frame to_wire write_all encode_to_vec e =
     write_raw_frame write_all encode_to_vec (raw_from_typed to_wire e)"

text \<open>The two stream ends the standard library gives for byte buffers: \<open>impl Read for &[u8]\<close>, whose
  \<open>read_exact\<close> fails with \<open>UnexpectedEof\<close> and empties the slice, and \<open>impl Write for Vec<u8>\<close>.\<close>

definition slice_read_exact :: "nat \<Rightarrow> (u8 list, u8 list, proto_error) eff" where
  "slice_read_exact n rest =
     (if n \<le> length rest then (Ok (take n rest), drop n rest)
      else (Err (ProtoIo ''UnexpectedEof''), []))"

definition vec_write_all :: "u8 list \<Rightarrow> (u8 list, unit, proto_error) eff" where
  "vec_write_all bs out = (Ok (), out @ bs)"

subsection \<open>Varints and fields as the protobuf specification writes them\<close>

text \<open>The canonical base-128 encoding, seven bits a byte from the low end, and the four kinds of
  field value the wire format has (start and end groups are obsolete and refused).\<close>
fun enc_varint :: "nat \<Rightarrow> u8 list" where
  "enc_varint n =
     (if n < 128 then [word_of_nat n] else word_of_nat (128 + n mod 128) # enc_varint (n div 128))"

declare enc_varint.simps [simp del]

lemma bit_128 [simp]: "bit (128 :: u8) i \<longleftrightarrow> i = 7" "bit (128 :: int) i \<longleftrightarrow> i = 7" "bit (128 :: nat) i \<longleftrightarrow> i = 7"
  using bit_exp_iff [where 'a = u8, of 7 i] bit_exp_iff [where 'a = int, of 7 i] bit_exp_iff [where 'a = nat, of 7 i] by auto

lemma mask_7: "(0x7F :: u8) = mask 7"
  by (simp add: mask_eq_exp_minus_1)

lemma bit_below_128:
  assumes "n < (128 :: nat)" and "bit n i"
  shows "i < 7"
proof -
  have "take_bit 7 n = n" using assms(1) by (simp add: take_bit_nat_eq_self)
  with assms(2) show ?thesis by (metis bit_take_bit_iff)
qed

lemma low_byte:
  assumes "n < 128"
  shows "(word_of_nat n :: u8) AND 0x80 = 0"
    and "ucast ((word_of_nat n :: u8) AND 0x7F) = (word_of_nat n :: u64)"
proof -
  note high = bit_below_128 [OF assms]
  show "(word_of_nat n :: u8) AND 0x80 = 0"
    by (rule bit_word_eqI) (auto simp: bit_simps dest: high)
  show "ucast ((word_of_nat n :: u8) AND 0x7F) = (word_of_nat n :: u64)"
    unfolding mask_7 by (rule bit_word_eqI) (auto simp: bit_simps dest: high)
qed

lemma high_byte:
  assumes "n < 128"
  shows "(word_of_nat (128 + n) :: u8) AND 0x80 \<noteq> 0"
    and "ucast ((word_of_nat (128 + n) :: u8) AND 0x7F) = (word_of_nat n :: u64)"
proof -
  note high = bit_below_128 [OF assms]
  have split: "bit (128 + n) i \<longleftrightarrow> bit n i \<or> i = 7" for i
  proof -
    have "128 AND n = 0"
      by (rule bit_eqI) (auto simp: bit_simps dest: high)
    then have "128 + n = 128 OR n"
      by (rule disjunctive_add_eq_or)
    then show ?thesis by (auto simp: bit_simps)
  qed
  have "bit ((word_of_nat (128 + n) :: u8) AND 0x80) 7"
    using split by (auto simp: bit_simps simp del: of_nat_add)
  then show "(word_of_nat (128 + n) :: u8) AND 0x80 \<noteq> 0"
    by (metis bit_0_eq bot_apply bot_bool_def)
  show "ucast ((word_of_nat (128 + n) :: u8) AND 0x7F) = (word_of_nat n :: u64)"
    unfolding mask_7 by (rule bit_word_eqI) (auto simp: bit_simps split simp del: of_nat_add dest: high)
qed

lemma split_low7:
  "(word_of_nat n :: u64) = word_of_nat (n mod 128) OR push_bit 7 (word_of_nat (n div 128))"
  by (rule bit_word_eqI)
    (auto simp: bit_simps take_bit_eq_mod [of 7, symmetric, simplified] drop_bit_eq_div [of 7, symmetric, simplified])

lemma varint_shifts_map: "varint_shifts = map (\<lambda>k. 7 * k) [0..<10]"
  by (simp add: varint_shifts_def upt_rec)

lemma read_varint_loop_enc:
  assumes "k < 10" and "n < 2 ^ (7 * (10 - k))"
  shows "read_varint_loop (pre @ enc_varint n @ rest) (map ((*) 7) [k..<10]) v (length pre) =
    Ok (v OR push_bit (7 * k) (word_of_nat n), length pre + length (enc_varint n))"
  using assms
proof (induction n arbitrary: pre k v rule: enc_varint.induct)
  case (1 n)
  have ups: "[k..<10] = k # [Suc k..<10]" using 1(2) by (simp add: upt_rec)
  show ?case
  proof (cases "n < 128")
    case True
    then show ?thesis
      by (subst enc_varint.simps, subst enc_varint.simps) (simp add: ups Let_def nth_append low_byte)
  next
    case False
    define hd where "hd = (word_of_nat (128 + n mod 128) :: u8)"
    have enc: "enc_varint n = hd # enc_varint (n div 128)"
      using False unfolding hd_def by (subst enc_varint.simps) simp
    have hd: "hd AND 0x80 \<noteq> 0" "ucast (hd AND 0x7F) = (word_of_nat (n mod 128) :: u64)"
      unfolding hd_def by (rule high_byte; simp)+
    have k: "Suc k < 10"
    proof (rule ccontr)
      assume "\<not> Suc k < 10"
      with 1(2) have "10 - k = 1" by simp
      with 1(3) False show False by simp
    qed
    then have "7 * (10 - k) = 7 * (10 - Suc k) + 7" by simp
    with 1(3) have n: "n div 128 < 2 ^ (7 * (10 - Suc k))"
      by (simp add: power_add div_less_iff_less_mult mult.commute)
    have "read_varint_loop ((pre @ [hd]) @ enc_varint (n div 128) @ rest) (map ((*) 7) [Suc k..<10])
        (v OR push_bit (7 * k) (word_of_nat (n mod 128))) (length (pre @ [hd]))
      = Ok ((v OR push_bit (7 * k) (word_of_nat (n mod 128))) OR
             push_bit (7 * Suc k) (word_of_nat (n div 128)),
            length (pre @ [hd]) + length (enc_varint (n div 128)))"
      by (rule 1(1) [OF False k n])
    moreover have "push_bit (7 * k) (word_of_nat n :: u64) =
        push_bit (7 * k) (word_of_nat (n mod 128)) OR push_bit (7 * Suc k) (word_of_nat (n div 128))"
      by (subst split_low7) (simp add: push_bit_or add.commute)
    ultimately show ?thesis
      by (simp add: ups enc Let_def nth_append hd or.assoc)
  qed
qed

lemma read_varint_enc:
  assumes "n < 2 ^ 64"
  shows "read_varint (pre @ enc_varint n @ rest) (length pre) =
    Ok (word_of_nat n, length pre + length (enc_varint n))"
proof -
  have "n < 2 ^ (7 * (10 - 0))" using assms by simp
  from read_varint_loop_enc [OF _ this] show ?thesis
    by (simp add: read_varint_def varint_shifts_map)
qed

text \<open>The bits of a tenth byte that do not fit into the \<open>u64\<close> are shifted out, so the check against more
  than 64 bits only sees an eleventh byte.\<close>
lemma read_varint_drops_high_bits:
  "read_varint [0x80, 0x80, 0x80, 0x80, 0x80, 0x80, 0x80, 0x80, 0x80, 0x7E] 0 = Ok (0, 10)"
  by code_simp

datatype field_value =
  VarintValue nat | Fixed64Value "u8 list" | LengthDelimited "u8 list" | Fixed32Value "u8 list"

primrec field_wire_type :: "field_value \<Rightarrow> nat" where
  "field_wire_type (VarintValue _) = 0"
| "field_wire_type (Fixed64Value _) = 1"
| "field_wire_type (LengthDelimited _) = 2"
| "field_wire_type (Fixed32Value _) = 5"

primrec enc_value :: "field_value \<Rightarrow> u8 list" where
  "enc_value (VarintValue n) = enc_varint n"
| "enc_value (Fixed64Value bs) = bs"
| "enc_value (LengthDelimited bs) = enc_varint (length bs) @ bs"
| "enc_value (Fixed32Value bs) = bs"

primrec value_ok :: "field_value \<Rightarrow> bool" where
  "value_ok (VarintValue n) \<longleftrightarrow> n < 2 ^ 64"
| "value_ok (Fixed64Value bs) \<longleftrightarrow> length bs = 8"
| "value_ok (LengthDelimited bs) \<longleftrightarrow> length bs < 2 ^ 64"
| "value_ok (Fixed32Value bs) \<longleftrightarrow> length bs = 4"

fun enc_field :: "nat \<times> field_value \<Rightarrow> u8 list" where
  "enc_field (num, v) = enc_varint (8 * num + field_wire_type v) @ enc_value v"

fun field_ok :: "nat \<times> field_value \<Rightarrow> bool" where
  "field_ok (num, v) \<longleftrightarrow> num < 2 ^ 61 \<and> value_ok v"

definition enc_fields :: "(nat \<times> field_value) list \<Rightarrow> u8 list" where
  "enc_fields fs = concat (map enc_field fs)"

lemma enc_fields_simps [simp]:
  "enc_fields [] = []" "enc_fields (f # fs) = enc_field f @ enc_fields fs"
  by (simp_all add: enc_fields_def)

lemma enc_varint_nonempty [simp]: "enc_varint n \<noteq> []"
  by (subst enc_varint.simps) simp

lemma skip_field_enc:
  assumes "value_ok v" and "length (pre @ enc_value v @ rest) < usize_bound"
  shows "skip_field (pre @ enc_value v @ rest) (length pre) (word_of_nat (field_wire_type v)) =
    Ok (length pre + length (enc_value v))"
proof (cases v)
  case (VarintValue n)
  with assms show ?thesis by (simp add: skip_field_def read_varint_enc)
next
  case (LengthDelimited bs)
  from assms(1) LengthDelimited have "length bs < 2 ^ 64" by simp
  moreover from this have "unat (word_of_nat (length bs) :: u64) = length bs"
    by (simp add: unat_word_of_nat)
  ultimately show ?thesis
    using assms(2) LengthDelimited read_varint_enc [of "length bs" pre "bs @ rest"]
    by (simp add: skip_field_def skip_bytes_def)
qed (use assms in \<open>simp_all add: skip_field_def skip_bytes_def\<close>)

lemma key_parts:
  assumes "num < 2 ^ 61" and "t < 8"
  shows "drop_bit 3 (word_of_nat (8 * num + t) :: u64) = word_of_nat num"
    and "(word_of_nat (8 * num + t) :: u64) AND 0x07 = word_of_nat t"
proof -
  have u: "unat (word_of_nat (8 * num + t) :: u64) = 8 * num + t"
    using assms by (subst unat_word_of_nat) auto
  have t: "unat (word_of_nat t :: u64) = t" and n: "unat (word_of_nat num :: u64) = num"
    using assms by (auto intro!: unat_word_of_nat)
  show "drop_bit 3 (word_of_nat (8 * num + t) :: u64) = word_of_nat num"
    by (rule unat_eqI)
      (simp only: unat_drop_bit_eq u n, simp add: drop_bit_eq_div assms(2))
  have m: "(0x07 :: u64) = mask 3" by (simp add: mask_eq_exp_minus_1)
  show "(word_of_nat (8 * num + t) :: u64) AND 0x07 = word_of_nat t"
    unfolding m by (rule unat_eqI)
      (simp only: take_bit_eq_mask [symmetric] unsigned_take_bit_eq u t, simp add: take_bit_eq_mod assms(2))
qed

lemma field_wire_type_less: "field_wire_type v < 8"
  by (cases v) auto

lemma known_envelope_field_iff:
  assumes "num < 2 ^ 61"
  shows "known_envelope_field (word_of_nat num) \<longleftrightarrow> num \<in> {1..4} \<union> {10..56}"
proof -
  have "unat (word_of_nat num :: u64) = num"
    using assms by (intro unat_word_of_nat) simp
  then show ?thesis
    by (simp add: known_envelope_field_def word_le_nat_alt)
qed

lemma scan_envelope_field:
  assumes "field_ok (num, v)" and "length (pre @ enc_field (num, v) @ rest) < usize_bound"
  shows "scan_envelope (pre @ enc_field (num, v) @ rest) (length pre) =
    (if known_envelope_field (word_of_nat num)
     then scan_envelope (pre @ enc_field (num, v) @ rest) (length (pre @ enc_field (num, v)))
     else Err (MalformedPayload (UnknownEnvelopeField (word_of_nat num))))"
proof -
  let ?key = "enc_varint (8 * num + field_wire_type v)"
  let ?bytes = "pre @ enc_field (num, v) @ rest"
  have num: "num < 2 ^ 61" and v: "value_ok v" using assms(1) by auto
  note parts = key_parts [OF num field_wire_type_less [of v]]
  have "read_varint ?bytes (length pre) =
      Ok (word_of_nat (8 * num + field_wire_type v), length pre + length ?key)"
    using read_varint_enc [of "8 * num + field_wire_type v" pre "enc_value v @ rest"] num
      field_wire_type_less [of v] by simp
  moreover have "skip_field ?bytes (length pre + length ?key) (word_of_nat (field_wire_type v)) =
      Ok (length (pre @ enc_field (num, v)))"
    using skip_field_enc [OF v, of "pre @ ?key" rest] assms(2) by simp
  ultimately show ?thesis
    by (subst scan_envelope.simps) (simp add: Let_def parts del: of_nat_add of_nat_mult)
qed

lemma scan_envelope_fields:
  assumes "\<forall>f \<in> set fs. field_ok f" and "length (pre @ enc_fields fs) < usize_bound"
  shows "scan_envelope (pre @ enc_fields fs) (length pre) =
    (case find (\<lambda>(num, v). \<not> known_envelope_field (word_of_nat num)) fs of
       None \<Rightarrow> Ok ()
     | Some (num, v) \<Rightarrow> Err (MalformedPayload (UnknownEnvelopeField (word_of_nat num))))"
  using assms
proof (induction fs arbitrary: pre)
  case Nil
  then show ?case by (simp add: scan_envelope.simps)
next
  case (Cons f fs)
  obtain num v where f: "f = (num, v)" by (cases f)
  have "scan_envelope ((pre @ enc_field f) @ enc_fields fs) (length (pre @ enc_field f)) =
      (case find (\<lambda>(num, v). \<not> known_envelope_field (word_of_nat num)) fs of
         None \<Rightarrow> Ok ()
       | Some (num, v) \<Rightarrow> Err (MalformedPayload (UnknownEnvelopeField (word_of_nat num))))"
    using Cons.prems by (intro Cons.IH) auto
  moreover have "scan_envelope (pre @ enc_fields (f # fs)) (length pre) =
      (if known_envelope_field (word_of_nat num)
       then scan_envelope ((pre @ enc_field f) @ enc_fields fs) (length (pre @ enc_field f))
       else Err (MalformedPayload (UnknownEnvelopeField (word_of_nat num))))"
    using scan_envelope_field [of num v pre "enc_fields fs"] Cons.prems by (simp add: f)
  ultimately show ?case by (simp add: f)
qed

text \<open>C2: The scanner decides exactly the set of known field numbers: on any sequence of well-formed
  fields it accepts when every number is one of the envelope's, and otherwise fails closed with the
  first number that is not.\<close>
theorem reject_unknown_envelope_fields_spec:
  assumes "\<forall>f \<in> set fs. field_ok f" and "length (enc_fields fs) < usize_bound"
  shows "reject_unknown_envelope_fields (enc_fields fs) =
    (case find (\<lambda>(num, v). \<not> (num \<in> {1..4} \<union> {10..56})) fs of
       None \<Rightarrow> Ok ()
     | Some (num, v) \<Rightarrow> Err (MalformedPayload (UnknownEnvelopeField (word_of_nat num))))"
proof -
  have "find (\<lambda>(num, v). \<not> known_envelope_field (word_of_nat num)) fs =
      find (\<lambda>(num, v). \<not> (num \<in> {1..4} \<union> {10..56})) fs"
    using assms(1) by (intro find_cong) (auto simp: known_envelope_field_iff)
  then show ?thesis
    using scan_envelope_fields [of fs "[]"] assms
    by (simp add: reject_unknown_envelope_fields_def)
qed

theorem reject_unknown_envelope_fields_spec_witness:
  "reject_unknown_envelope_fields
     (enc_fields [(1, VarintValue 4), (2, LengthDelimited [112]), (57, Fixed32Value [0, 0, 0, 0])]) =
   Err (MalformedPayload (UnknownEnvelopeField 57))"
  using reject_unknown_envelope_fields_spec
    [of "[(1, VarintValue 4), (2, LengthDelimited [112]), (57, Fixed32Value [0, 0, 0, 0])]"]
  by (simp add: enc_varint.simps)

subsection \<open>Frames on a byte stream\<close>

lemma be_bytes_round_trip: "from_be_bytes (to_be_bytes w) = w"
proof (rule bit_word_eqI)
  fix n :: nat
  assume "n < LENGTH(32)"
  then consider "n < 8" | "8 \<le> n" "n < 16" | "16 \<le> n" "n < 24" | "24 \<le> n" "n < 32"
    by fastforce
  then show "bit (from_be_bytes (to_be_bytes w)) n = bit w n"
    by cases (simp_all add: from_be_bytes_def to_be_bytes_def bit_simps less_diff_conv2)
qed

lemma length_to_be_bytes [simp]: "length (to_be_bytes w) = 4"
  by (simp add: to_be_bytes_def)

text \<open>
  What the frames rely on of prost, for the one envelope at hand: the encoder writes the message as
  a sequence of fields of the schema, and the decoder inverts the encoder.
\<close>
definition prost_faithful ::
    "(wire_envelope \<Rightarrow> u8 list) \<Rightarrow> (u8 list \<Rightarrow> (wire_envelope, string) result) \<Rightarrow> wire_envelope \<Rightarrow> bool" where
  "prost_faithful encode_to_vec prost_decode w \<longleftrightarrow>
     prost_decode (encode_to_vec w) = Ok w \<and>
     (\<exists>fs. encode_to_vec w = enc_fields fs \<and>
           (\<forall>f \<in> set fs. field_ok f \<and> fst f \<in> {1..4} \<union> {10..56}))"

lemma scan_accepts_faithful:
  assumes "prost_faithful enc dec w" and "length (enc w) < usize_bound"
  shows "reject_unknown_envelope_fields (enc w) = Ok ()"
proof -
  from assms(1) obtain fs where fs: "enc w = enc_fields fs"
      "\<forall>f \<in> set fs. field_ok f \<and> fst f \<in> {1..4} \<union> {10..56}"
    by (auto simp: prost_faithful_def)
  have "find (\<lambda>(num, v). \<not> known_envelope_field (word_of_nat num)) fs = None"
    using fs(2) by (force simp: find_None_iff known_envelope_field_iff)
  with scan_envelope_fields [of fs "[]"] fs assms(2) show ?thesis
    by (simp add: reject_unknown_envelope_fields_def)
qed

lemma decode_encoded:
  assumes "prost_faithful enc dec (wire_of_raw raw)" and "length (enc (wire_of_raw raw)) < usize_bound"
  shows "decode_raw_envelope dec (enc (wire_of_raw raw)) = Ok raw"
  using assms scan_accepts_faithful [OF assms]
  by (cases raw) (simp add: decode_raw_envelope_def prost_faithful_def wire_of_raw_def)

text \<open>A body within the limit is written as its length and the body, and read back from the front of
  any stream.\<close>
definition frame_of :: "(wire_envelope \<Rightarrow> u8 list) \<Rightarrow> raw_envelope \<Rightarrow> u8 list" where
  "frame_of enc raw =
     to_be_bytes (word_of_nat (length (enc (wire_of_raw raw)))) @ enc (wire_of_raw raw)"

definition frame_ok ::
    "(wire_envelope \<Rightarrow> u8 list) \<Rightarrow> (u8 list \<Rightarrow> (wire_envelope, string) result) \<Rightarrow> raw_envelope \<Rightarrow> bool" where
  "frame_ok enc dec raw \<longleftrightarrow>
     raw_version raw = PROTOCOL_VERSION \<and> prost_faithful enc dec (wire_of_raw raw) \<and>
     length (enc (wire_of_raw raw)) \<le> MAX_FRAME_BYTES"

lemma write_raw_frame_ok:
  assumes "frame_ok enc dec raw"
  shows "write_raw_frame vec_write_all enc raw out = (Ok (), out @ frame_of enc raw)"
  using assms
  by (simp add: write_raw_frame_def frame_ok_def encode_raw_envelope_def check_size_def frame_of_def
    vec_write_all_def)

lemma read_raw_frame_ok:
  assumes "frame_ok enc dec raw"
  shows "read_raw_frame slice_read_exact dec (frame_of enc raw @ rest) = (Ok raw, rest)"
proof -
  let ?body = "enc (wire_of_raw raw)"
  have len: "length ?body < 2 ^ 32"
    using assms by (simp add: frame_ok_def MAX_FRAME_BYTES_def)
  then have n: "unat (word_of_nat (length ?body) :: u32) = length ?body"
    by (simp add: unat_word_of_nat)
  have "slice_read_exact 4 (frame_of enc raw @ rest) =
      (Ok (to_be_bytes (word_of_nat (length ?body))), ?body @ rest)"
    by (simp add: slice_read_exact_def frame_of_def)
  moreover have "decode_raw_envelope dec ?body = Ok raw"
    using assms len by (intro decode_encoded) (auto simp: frame_ok_def)
  moreover have "check_size (length ?body) = Ok ()"
    using assms by (simp add: frame_ok_def check_size_def)
  moreover have "slice_read_exact (length ?body) (?body @ rest) = (Ok ?body, rest)"
    by (simp add: slice_read_exact_def)
  ultimately show ?thesis
    using assms
    by (simp add: read_raw_frame_def LENGTH_PREFIX_BYTES_def be_bytes_round_trip n frame_ok_def)
qed

text \<open>Reading \<open>k\<close> frames in a row, as the peer's receive loop does.\<close>
fun read_raw_frames ::
    "(u8 list \<Rightarrow> (wire_envelope, string) result) \<Rightarrow> nat \<Rightarrow> (u8 list, raw_envelope list, proto_error) eff" where
  "read_raw_frames dec 0 = ret []"
| "read_raw_frames dec (Suc k) =
     bind_eff (read_raw_frame slice_read_exact dec) (\<lambda>raw.
     bind_eff (read_raw_frames dec k) (\<lambda>raws. ret (raw # raws)))"

text \<open>Frames are self-delimiting: any number of envelopes written one after the other onto a stream
  is read back whole and in order, and the reader stops exactly where the last frame ends.\<close>
theorem frame_stream_round_trip:
  assumes "\<forall>raw \<in> set raws. frame_ok enc dec raw"
  shows "\<exists>bytes. for_each (write_raw_frame vec_write_all enc) raws out = (Ok (), out @ bytes) \<and>
    read_raw_frames dec (length raws) (bytes @ rest) = (Ok raws, rest)"
  using assms
proof (induction raws arbitrary: out)
  case Nil
  then show ?case by (intro exI [of _ "[]"]) simp
next
  case (Cons raw raws)
  then obtain bytes where
      "for_each (write_raw_frame vec_write_all enc) raws (out @ frame_of enc raw) =
        (Ok (), (out @ frame_of enc raw) @ bytes)"
      "read_raw_frames dec (length raws) (bytes @ rest) = (Ok raws, rest)"
    by (metis list.set_intros(2))
  moreover have "frame_ok enc dec raw" using Cons.prems by simp
  ultimately show ?case
    by (intro exI [of _ "frame_of enc raw @ bytes"])
      (simp add: write_raw_frame_ok read_raw_frame_ok)
qed

text \<open>C1: A typed round trip through the \<open>Payload\<close> interface: for every payload type and every payload the
  wire can carry, the envelope that \<open>write_frame\<close> puts on the stream is the one \<open>read_frame\<close> of
  the same type takes off it.\<close>
theorem frame_round_trip:
  assumes "payload KIND into_wire from_wire representable"
    and "representable (env_payload e)" and "env_kind e = KIND"
    and "frame_ok enc dec (raw_from_typed into_wire e)"
  shows "\<exists>bytes. write_frame into_wire vec_write_all enc e out = (Ok (), out @ bytes) \<and>
    read_frame KIND from_wire slice_read_exact dec (bytes @ rest) = (Ok e, rest)"
proof -
  have "raw_decode KIND from_wire (raw_from_typed into_wire e) = Ok e"
    using assms(2,3) payload.from_into [OF assms(1)]
    by (cases e) (simp add: raw_decode_def raw_from_typed_def)
  then show ?thesis
    using write_raw_frame_ok [OF assms(4)] read_raw_frame_ok [OF assms(4)]
    by (auto simp: write_frame_def read_frame_def)
qed

text \<open>C3: Whatever the peer sends and however the reader behaves, an envelope leaves \<open>read_raw_frame\<close>
  only with the one live protocol version; and a typed read also checks the declared kind and that
  the payload variant is the one of that kind.\<close>
theorem read_frame_fails_closed:
  assumes "payload KIND into_wire from_wire representable"
    and "read_frame KIND from_wire read_exact dec s = (Ok e, s')"
  shows "env_version e = PROTOCOL_VERSION \<and> env_kind e = KIND \<and> representable (env_payload e) \<and>
    (\<exists>raw. fst (read_raw_frame read_exact dec s) = Ok raw \<and> payload_name (raw_payload raw) = KIND \<and>
       raw_kind raw = KIND)"
proof -
  from assms(2) obtain raw s1 where raw: "read_raw_frame read_exact dec s = (Ok raw, s1)"
      and typed: "raw_decode KIND from_wire raw = Ok e"
    by (auto simp: read_frame_def result_simps)
  have "raw_version raw = PROTOCOL_VERSION"
    using raw by (auto simp: read_raw_frame_def result_simps Let_def split: if_splits)
  moreover from typed obtain p where "from_wire (raw_payload raw) = Ok p" "raw_kind raw = KIND"
      "env_version e = raw_version raw" "env_kind e = raw_kind raw" "env_payload e = p"
    by (auto simp: raw_decode_def result_simps split: if_splits)
  ultimately show ?thesis
    using raw payload.from_representable [OF assms(1)] payload.from_wire_name [OF assms(1)]
    by simp
qed

lemma keeps_read_raw_frame:
  assumes "\<And>n. n \<le> MAX_FRAME_BYTES \<Longrightarrow> keeps P (read_exact n)"
  shows "keeps P (read_raw_frame read_exact dec)"
proof -
  have body: "keeps P (bind_eff (lift_result (check_size n)) (\<lambda>_. bind_eff (read_exact n) k))"
    if "\<And>b. keeps P (k b)" for n and k :: "u8 list \<Rightarrow> ('a, raw_envelope, proto_error) eff"
    using that assms by (auto simp: check_size_def)
  show ?thesis
    unfolding read_raw_frame_def Let_def
    by (intro keeps_bind body assms) (simp_all add: LENGTH_PREFIX_BYTES_def MAX_FRAME_BYTES_def)
qed

text \<open>C4: The reader is never asked for more than the frame limit: a property of the connection that
  reads of at most \<open>MAX_FRAME_BYTES\<close> bytes keep is kept by reading a frame, whatever length
  the peer announces and whether or not the read succeeds.\<close>
theorem read_frame_bounded_allocation:
  assumes "\<And>n. n \<le> MAX_FRAME_BYTES \<Longrightarrow> keeps P (read_exact n)"
  shows "keeps P (read_frame KIND from_wire read_exact dec)"
  unfolding read_frame_def by (rule keeps_bind [OF keeps_read_raw_frame [OF assms]]) simp_all

text \<open>A frame that cannot be sent writes nothing: for a foreign version, or a body over the limit (one
  byte over is enough), \<open>write_raw_frame\<close> fails with the typed error and leaves the writer as it was; every
  other frame reaches the writer in a single call with prefix and body together.\<close>
theorem write_raw_frame_cases:
  "write_raw_frame write_all enc raw s =
     (if raw_version raw \<noteq> PROTOCOL_VERSION then
        (Err (IncompatibleVersion PROTOCOL_VERSION (raw_version raw)), s)
      else if length (enc (wire_of_raw raw)) > MAX_FRAME_BYTES then
        (Err (OversizedPayload (length (enc (wire_of_raw raw))) MAX_FRAME_BYTES), s)
      else write_all (frame_of enc raw) s)"
  by (simp add: write_raw_frame_def encode_raw_envelope_def check_size_def frame_of_def)

subsection \<open>A concrete exchange\<close>

text \<open>A ping and its answer, with the bytes protobuf gives them, instantiate the codec of the theorems
  above.\<close>

definition ascii_bytes :: "string \<Rightarrow> u8 list" where
  "ascii_bytes s = map (\<lambda>c. word_of_nat (of_char c)) s"

definition sample_ping :: "ping_request envelope" where
  "sample_ping = envelope_with_request_id PAYLOAD_KIND_PING_REQUEST PingRequest ''r1''"

definition sample_pong :: "pong_response envelope" where
  "sample_pong = envelope_new PAYLOAD_KIND_PONG_RESPONSE (PongResponse 7)"

definition sample_ping_fields :: "(nat \<times> field_value) list" where
  "sample_ping_fields =
     [(1, VarintValue 4), (2, LengthDelimited (ascii_bytes ''ping_request'')),
      (3, LengthDelimited (ascii_bytes ''r1'')), (51, LengthDelimited [])]"

definition sample_pong_fields :: "(nat \<times> field_value) list" where
  "sample_pong_fields =
     [(1, VarintValue 4), (2, LengthDelimited (ascii_bytes ''pong_response'')),
      (52, LengthDelimited (enc_field (1, VarintValue 7)))]"

definition sample_encode :: "wire_envelope \<Rightarrow> u8 list" where
  "sample_encode w =
     enc_fields (if we_kind w = ''ping_request'' then sample_ping_fields else sample_pong_fields)"

definition sample_decode :: "u8 list \<Rightarrow> (wire_envelope, string) result" where
  "sample_decode bs =
     (if bs = enc_fields sample_ping_fields then
        Ok (wire_of_raw (raw_from_typed ping_request_into_wire sample_ping))
      else if bs = enc_fields sample_pong_fields then
        Ok (wire_of_raw (raw_from_typed pong_response_into_wire sample_pong))
      else Err ''unknown message'')"

lemmas sample_defs = sample_encode_def sample_decode_def sample_ping_fields_def sample_pong_fields_def
  sample_ping_def sample_pong_def envelope_new_def envelope_with_request_id_def
  raw_from_typed_def wire_of_raw_def ascii_bytes_def enc_varint.simps
  PAYLOAD_KIND_PING_REQUEST_def PAYLOAD_KIND_PONG_RESPONSE_def

lemma sample_ping_frame_ok:
  "frame_ok sample_encode sample_decode (raw_from_typed ping_request_into_wire sample_ping)"
proof -
  have "\<exists>fs. enc_fields sample_ping_fields = enc_fields fs \<and>
      (\<forall>f \<in> set fs. field_ok f \<and> fst f \<in> {1..4} \<union> {10..56})"
    by (rule exI [of _ sample_ping_fields]) (simp add: sample_ping_fields_def ascii_bytes_def)
  then show ?thesis
    unfolding frame_ok_def prost_faithful_def
    by (simp add: sample_defs MAX_FRAME_BYTES_def)
qed

lemma sample_pong_frame_ok:
  "frame_ok sample_encode sample_decode (raw_from_typed pong_response_into_wire sample_pong)"
proof -
  have "\<exists>fs. enc_fields sample_pong_fields = enc_fields fs \<and>
      (\<forall>f \<in> set fs. field_ok f \<and> fst f \<in> {1..4} \<union> {10..56})"
    by (rule exI [of _ sample_pong_fields])
      (simp add: sample_pong_fields_def ascii_bytes_def enc_varint.simps)
  then show ?thesis
    unfolding frame_ok_def prost_faithful_def
    by (simp add: sample_defs MAX_FRAME_BYTES_def)
qed

theorem frame_stream_round_trip_witness:
  "\<exists>bytes. for_each (write_raw_frame vec_write_all sample_encode)
       [raw_from_typed ping_request_into_wire sample_ping,
        raw_from_typed pong_response_into_wire sample_pong] [] = (Ok (), bytes) \<and>
     read_raw_frames sample_decode 2 (bytes @ [1, 2, 3]) =
       (Ok [raw_from_typed ping_request_into_wire sample_ping,
            raw_from_typed pong_response_into_wire sample_pong], [1, 2, 3])"
  using frame_stream_round_trip
      [of "[raw_from_typed ping_request_into_wire sample_ping,
            raw_from_typed pong_response_into_wire sample_pong]"
        sample_encode sample_decode "[]" "[1, 2, 3]"]
    sample_ping_frame_ok sample_pong_frame_ok
  by (simp add: numeral_2_eq_2 del: for_each.simps read_raw_frames.simps)

theorem frame_round_trip_witness:
  "\<exists>bytes. write_frame pong_response_into_wire vec_write_all sample_encode sample_pong [] =
       (Ok (), bytes) \<and>
     read_frame PAYLOAD_KIND_PONG_RESPONSE pong_response_from_wire slice_read_exact sample_decode
       (bytes @ [9]) = (Ok sample_pong, [9])"
  using frame_round_trip [OF pong_response.payload_axioms _ _ sample_pong_frame_ok, of "[]" "[9]"]
  by (simp add: sample_pong_def envelope_new_def)

theorem read_frame_fails_closed_witness:
  "env_kind sample_ping = PAYLOAD_KIND_PING_REQUEST \<and> env_version sample_ping = PROTOCOL_VERSION"
proof -
  have typed: "raw_decode PAYLOAD_KIND_PING_REQUEST ping_request_from_wire
      (raw_from_typed ping_request_into_wire sample_ping) = Ok sample_ping"
    by (simp add: sample_ping_def envelope_with_request_id_def raw_decode_def raw_from_typed_def
      ping_request.from_into)
  have "read_frame PAYLOAD_KIND_PING_REQUEST ping_request_from_wire slice_read_exact sample_decode
      (frame_of sample_encode (raw_from_typed ping_request_into_wire sample_ping)) = (Ok sample_ping, [])"
    using read_raw_frame_ok [OF sample_ping_frame_ok, of "[]"] typed by (simp add: read_frame_def)
  from read_frame_fails_closed [OF ping_request.payload_axioms this] show ?thesis by simp
qed

text \<open>A reader that records the lengths it is asked for, on a peer that announces a frame of 4 GiB.\<close>
definition logging_read_exact :: "nat \<Rightarrow> (u8 list \<times> nat list, u8 list, proto_error) eff" where
  "logging_read_exact n s =
     (case slice_read_exact n (fst s) of (r, rest) \<Rightarrow> (r, (rest, n # snd s)))"

theorem read_frame_bounded_allocation_witness:
  "list_all (\<lambda>n. n \<le> MAX_FRAME_BYTES)
     (snd (snd (read_frame PAYLOAD_KIND_PING_REQUEST ping_request_from_wire logging_read_exact
        sample_decode ([255, 255, 255, 255, 1], []))))"
proof -
  have "keeps (\<lambda>s. list_all (\<lambda>n. n \<le> MAX_FRAME_BYTES) (snd s)) (logging_read_exact n)"
    if "n \<le> MAX_FRAME_BYTES" for n
    using that by (auto simp: keeps_def logging_read_exact_def split: prod.splits)
  then have "keeps (\<lambda>s. list_all (\<lambda>n. n \<le> MAX_FRAME_BYTES) (snd s))
      (read_frame PAYLOAD_KIND_PING_REQUEST ping_request_from_wire logging_read_exact sample_decode)"
    by (rule read_frame_bounded_allocation)
  then show ?thesis
    by (rule keepsD) simp
qed

end
