(* ===== verification/Mount_Conversions.thy ===== *)
theory Mount_Conversions
  imports Conversions_Common
begin

text \<open>
  The payloads whose conversions live beside their types or in their own module: drive hotplug
  (\<open>types/hotplug.rs\<close>), pmem mounts (\<open>types/pmem.rs\<close>) and post-restore hooks
  (\<open>types/post_restore.rs\<close>, \<open>wire/conversions/post_restore.rs\<close>), with the hostname validation
  that decides which \<open>SetHostname\<close> hooks exist.
\<close>

subsection \<open>Drive hotplug codes\<close>

primrec mount_status_to_i32 :: "drive_mount_status_kind \<Rightarrow> i32" where
  "mount_status_to_i32 DriveMounted = 0"
| "mount_status_to_i32 DriveAlreadyMounted = 1"
| "mount_status_to_i32 DriveMountFailed = 2"

definition mount_status_from_i32 :: "i32 \<Rightarrow> (drive_mount_status_kind, proto_error) result" where
  "mount_status_from_i32 v =
     (if v = 0 then Ok DriveMounted
      else if v = 1 then Ok DriveAlreadyMounted
      else if v = 2 then Ok DriveMountFailed
      else Err (MalformedPayload (UnknownDiscriminant ''drive mount status'' v)))"

interpretation mount_status: enum_codec mount_status_to_i32 mount_status_from_i32
proof (rule enum_codecI)
  show "mount_status_from_i32 (mount_status_to_i32 e) = Ok e" for e
    by (cases e) (simp_all add: mount_status_from_i32_def)
qed (auto simp: mount_status_from_i32_def split: if_splits)

primrec detach_status_to_i32 :: "drive_detach_status_kind \<Rightarrow> i32" where
  "detach_status_to_i32 DriveDetached = 0"
| "detach_status_to_i32 DriveNotMounted = 1"
| "detach_status_to_i32 DriveDetachFailed = 2"

definition detach_status_from_i32 :: "i32 \<Rightarrow> (drive_detach_status_kind, proto_error) result" where
  "detach_status_from_i32 v =
     (if v = 0 then Ok DriveDetached
      else if v = 1 then Ok DriveNotMounted
      else if v = 2 then Ok DriveDetachFailed
      else Err (MalformedPayload (UnknownDiscriminant ''drive detach status'' v)))"

interpretation detach_status: enum_codec detach_status_to_i32 detach_status_from_i32
proof (rule enum_codecI)
  show "detach_status_from_i32 (detach_status_to_i32 e) = Ok e" for e
    by (cases e) (simp_all add: detach_status_from_i32_def)
qed (auto simp: detach_status_from_i32_def split: if_splits)

primrec hotplug_error_to_i32 :: "drive_hotplug_error \<Rightarrow> i32" where
  "hotplug_error_to_i32 HotplugDeviceNotFound = 0"
| "hotplug_error_to_i32 HotplugMountFailed = 1"
| "hotplug_error_to_i32 HotplugUnmountFailed = 2"
| "hotplug_error_to_i32 HotplugIdentityMissing = 3"
| "hotplug_error_to_i32 HotplugIdentityReadFailed = 4"
| "hotplug_error_to_i32 HotplugTimeout = 5"
| "hotplug_error_to_i32 HotplugIo = 6"

definition hotplug_error_from_i32 :: "i32 \<Rightarrow> (drive_hotplug_error, proto_error) result" where
  "hotplug_error_from_i32 v =
     (if v = 0 then Ok HotplugDeviceNotFound
      else if v = 1 then Ok HotplugMountFailed
      else if v = 2 then Ok HotplugUnmountFailed
      else if v = 3 then Ok HotplugIdentityMissing
      else if v = 4 then Ok HotplugIdentityReadFailed
      else if v = 5 then Ok HotplugTimeout
      else if v = 6 then Ok HotplugIo
      else Err (MalformedPayload (UnknownDiscriminant ''drive hotplug error'' v)))"

interpretation hotplug_error: enum_codec hotplug_error_to_i32 hotplug_error_from_i32
proof (rule enum_codecI)
  show "hotplug_error_from_i32 (hotplug_error_to_i32 e) = Ok e" for e
    by (cases e) (simp_all add: hotplug_error_from_i32_def)
qed (auto simp: hotplug_error_from_i32_def split: if_splits)

definition opt_hotplug_error_from_i32 ::
    "i32 option \<Rightarrow> (drive_hotplug_error option, proto_error) result" where
  "opt_hotplug_error_from_i32 v = transpose_opt (map_option hotplug_error_from_i32 v)"

definition opt_hotplug_error_to_i32 :: "drive_hotplug_error option \<Rightarrow> i32 option" where
  "opt_hotplug_error_to_i32 v = map_option hotplug_error_to_i32 v"

lemmas hotplug_enum_codecs [codec_simps] =
  mount_status.from_to detach_status.from_to hotplug_error.from_to

lemma opt_hotplug_error_from_to [codec_simps]:
  "opt_hotplug_error_from_i32 (opt_hotplug_error_to_i32 v) = Ok v"
  by (simp add: opt_hotplug_error_from_i32_def opt_hotplug_error_to_i32_def hotplug_error.from_to)

subsection \<open>Drive hotplug items\<close>

primrec mount_spec_to_wire :: "drive_mount_spec \<Rightarrow> wire_drive_mount_spec" where
  "mount_spec_to_wire (DriveMountSpec drive_id device_path mount_path identity_path) =
     WireDriveMountSpec drive_id mount_path identity_path device_path"

primrec mount_spec_from_wire :: "wire_drive_mount_spec \<Rightarrow> drive_mount_spec" where
  "mount_spec_from_wire (WireDriveMountSpec drive_id mount_path identity_path device_path) =
     DriveMountSpec drive_id device_path mount_path identity_path"

primrec mount_status_to_wire :: "drive_mount_status \<Rightarrow> wire_drive_mount_status" where
  "mount_status_to_wire (DriveMountStatus drive_id mount_path status err) =
     WireDriveMountStatus drive_id mount_path (mount_status_to_i32 status)
       (opt_hotplug_error_to_i32 err)"

primrec mount_status_from_wire ::
    "wire_drive_mount_status \<Rightarrow> (drive_mount_status, proto_error) result" where
  "mount_status_from_wire (WireDriveMountStatus drive_id mount_path status err) =
     and_then (mount_status_from_i32 status) (\<lambda>status.
     and_then (opt_hotplug_error_from_i32 err) (\<lambda>err.
       Ok (DriveMountStatus drive_id mount_path status err)))"

primrec identity_to_wire :: "tenant_identity_report \<Rightarrow> wire_tenant_identity_report" where
  "identity_to_wire (TenantIdentityReport drive_id path bytes) =
     WireTenantIdentityReport drive_id path bytes"

primrec identity_from_wire :: "wire_tenant_identity_report \<Rightarrow> tenant_identity_report" where
  "identity_from_wire (WireTenantIdentityReport drive_id path bytes) =
     TenantIdentityReport drive_id path bytes"

primrec detach_spec_to_wire :: "drive_detach_spec \<Rightarrow> wire_drive_detach_spec" where
  "detach_spec_to_wire (DriveDetachSpec drive_id mount_path) =
     WireDriveDetachSpec drive_id mount_path"

primrec detach_spec_from_wire :: "wire_drive_detach_spec \<Rightarrow> drive_detach_spec" where
  "detach_spec_from_wire (WireDriveDetachSpec drive_id mount_path) =
     DriveDetachSpec drive_id mount_path"

primrec detach_status_to_wire :: "drive_detach_status \<Rightarrow> wire_drive_detach_status" where
  "detach_status_to_wire (DriveDetachStatus drive_id mount_path status err) =
     WireDriveDetachStatus drive_id mount_path (detach_status_to_i32 status)
       (opt_hotplug_error_to_i32 err)"

primrec detach_status_from_wire ::
    "wire_drive_detach_status \<Rightarrow> (drive_detach_status, proto_error) result" where
  "detach_status_from_wire (WireDriveDetachStatus drive_id mount_path status err) =
     and_then (detach_status_from_i32 status) (\<lambda>status.
     and_then (opt_hotplug_error_from_i32 err) (\<lambda>err.
       Ok (DriveDetachStatus drive_id mount_path status err)))"

lemma mount_spec_from_to_wire [codec_simps]: "mount_spec_from_wire (mount_spec_to_wire s) = s"
  by (cases s) simp

lemma mount_status_from_to_wire [codec_simps]: "mount_status_from_wire (mount_status_to_wire s) = Ok s"
  by (cases s) (simp add: codec_simps)

lemma identity_from_to_wire [codec_simps]: "identity_from_wire (identity_to_wire s) = s"
  by (cases s) simp

lemma detach_spec_from_to_wire [codec_simps]: "detach_spec_from_wire (detach_spec_to_wire s) = s"
  by (cases s) simp

lemma detach_status_from_to_wire [codec_simps]:
  "detach_status_from_wire (detach_status_to_wire s) = Ok s"
  by (cases s) (simp add: codec_simps)

text \<open>Lists of items, decoded all or not at all.\<close>
lemma map_from_to_wire [codec_simps]:
  "map (mount_spec_from_wire \<circ> mount_spec_to_wire) ss = ss"
  "map (identity_from_wire \<circ> identity_to_wire) is = is"
  "map (detach_spec_from_wire \<circ> detach_spec_to_wire) ds = ds"
  by (simp_all add: comp_def codec_simps)

lemma statuses_from_to_wire [codec_simps]:
  "collect_results mount_status_from_wire (map mount_status_to_wire ms) = Ok ms"
  "collect_results detach_status_from_wire (map detach_status_to_wire ds) = Ok ds"
  by (simp_all add: collect_results_map codec_simps)

subsection \<open>Drive hotplug payloads\<close>

definition PAYLOAD_KIND_DRIVE_MOUNT_REQUEST :: string where
  "PAYLOAD_KIND_DRIVE_MOUNT_REQUEST = ''drive_mount_request''"

primrec drive_mount_request_to_wire :: "drive_mount_request \<Rightarrow> wire_drive_mount_request" where
  "drive_mount_request_to_wire (DriveMountRequest devices) =
     WireDriveMountRequest (map mount_spec_to_wire devices)"

primrec drive_mount_request_of_wire :: "wire_drive_mount_request \<Rightarrow> (drive_mount_request, proto_error) result" where
  "drive_mount_request_of_wire (WireDriveMountRequest devices) =
     Ok (DriveMountRequest (map mount_spec_from_wire devices))"

definition drive_mount_request_into_wire :: "drive_mount_request \<Rightarrow> wire_payload" where
  "drive_mount_request_into_wire v = PDriveMountRequest (drive_mount_request_to_wire v)"

definition drive_mount_request_from_wire :: "wire_payload \<Rightarrow> (drive_mount_request, proto_error) result" where
  "drive_mount_request_from_wire p =
     (case p of PDriveMountRequest v \<Rightarrow> drive_mount_request_of_wire v
      | _ \<Rightarrow>
          Err (MalformedPayload (UnexpectedPayloadFor PAYLOAD_KIND_DRIVE_MOUNT_REQUEST)))"

lemma drive_mount_request_of_to_wire [codec_simps]:
  "drive_mount_request_of_wire (drive_mount_request_to_wire v) = Ok v"
  by (cases v) (simp add: codec_simps)

interpretation drive_mount_request: payload PAYLOAD_KIND_DRIVE_MOUNT_REQUEST drive_mount_request_into_wire drive_mount_request_from_wire
    "\<lambda>_. True"
  by (rule payload_implI [where variant = PDriveMountRequest and to_wire = drive_mount_request_to_wire
        and of_wire = drive_mount_request_of_wire])
    (simp_all add: drive_mount_request_into_wire_def drive_mount_request_from_wire_def
      PAYLOAD_KIND_DRIVE_MOUNT_REQUEST_def codec_simps
      split: wire_payload.splits)

definition PAYLOAD_KIND_DRIVE_MOUNT_RESPONSE :: string where
  "PAYLOAD_KIND_DRIVE_MOUNT_RESPONSE = ''drive_mount_response''"

primrec drive_mount_response_to_wire :: "drive_mount_response \<Rightarrow> wire_drive_mount_response" where
  "drive_mount_response_to_wire (DriveMountResponse statuses identities) =
     WireDriveMountResponse (map mount_status_to_wire statuses) (map identity_to_wire identities)"

primrec drive_mount_response_of_wire :: "wire_drive_mount_response \<Rightarrow> (drive_mount_response, proto_error) result" where
  "drive_mount_response_of_wire (WireDriveMountResponse statuses identities) =
     and_then (collect_results mount_status_from_wire statuses) (\<lambda>statuses.
       Ok (DriveMountResponse statuses (map identity_from_wire identities)))"

definition drive_mount_response_into_wire :: "drive_mount_response \<Rightarrow> wire_payload" where
  "drive_mount_response_into_wire v = PDriveMountResponse (drive_mount_response_to_wire v)"

definition drive_mount_response_from_wire :: "wire_payload \<Rightarrow> (drive_mount_response, proto_error) result" where
  "drive_mount_response_from_wire p =
     (case p of PDriveMountResponse v \<Rightarrow> drive_mount_response_of_wire v
      | _ \<Rightarrow>
          Err (MalformedPayload (UnexpectedPayloadFor PAYLOAD_KIND_DRIVE_MOUNT_RESPONSE)))"

lemma drive_mount_response_of_to_wire [codec_simps]:
  "drive_mount_response_of_wire (drive_mount_response_to_wire v) = Ok v"
  by (cases v) (simp add: codec_simps)

interpretation drive_mount_response: payload PAYLOAD_KIND_DRIVE_MOUNT_RESPONSE drive_mount_response_into_wire drive_mount_response_from_wire
    "\<lambda>_. True"
  by (rule payload_implI [where variant = PDriveMountResponse and to_wire = drive_mount_response_to_wire
        and of_wire = drive_mount_response_of_wire])
    (simp_all add: drive_mount_response_into_wire_def drive_mount_response_from_wire_def
      PAYLOAD_KIND_DRIVE_MOUNT_RESPONSE_def codec_simps
      split: wire_payload.splits)

definition PAYLOAD_KIND_DRIVE_DETACH_REQUEST :: string where
  "PAYLOAD_KIND_DRIVE_DETACH_REQUEST = ''drive_detach_request''"

primrec drive_detach_request_to_wire :: "drive_detach_request \<Rightarrow> wire_drive_detach_request" where
  "drive_detach_request_to_wire (DriveDetachRequest devices) =
     WireDriveDetachRequest (map detach_spec_to_wire devices)"

primrec drive_detach_request_of_wire :: "wire_drive_detach_request \<Rightarrow> (drive_detach_request, proto_error) result" where
  "drive_detach_request_of_wire (WireDriveDetachRequest devices) =
     Ok (DriveDetachRequest (map detach_spec_from_wire devices))"

definition drive_detach_request_into_wire :: "drive_detach_request \<Rightarrow> wire_payload" where
  "drive_detach_request_into_wire v = PDriveDetachRequest (drive_detach_request_to_wire v)"

definition drive_detach_request_from_wire :: "wire_payload \<Rightarrow> (drive_detach_request, proto_error) result" where
  "drive_detach_request_from_wire p =
     (case p of PDriveDetachRequest v \<Rightarrow> drive_detach_request_of_wire v
      | _ \<Rightarrow>
          Err (MalformedPayload (UnexpectedPayloadFor PAYLOAD_KIND_DRIVE_DETACH_REQUEST)))"

lemma drive_detach_request_of_to_wire [codec_simps]:
  "drive_detach_request_of_wire (drive_detach_request_to_wire v) = Ok v"
  by (cases v) (simp add: codec_simps)

interpretation drive_detach_request: payload PAYLOAD_KIND_DRIVE_DETACH_REQUEST drive_detach_request_into_wire drive_detach_request_from_wire
    "\<lambda>_. True"
  by (rule payload_implI [where variant = PDriveDetachRequest and to_wire = drive_detach_request_to_wire
        and of_wire = drive_detach_request_of_wire])
    (simp_all add: drive_detach_request_into_wire_def drive_detach_request_from_wire_def
      PAYLOAD_KIND_DRIVE_DETACH_REQUEST_def codec_simps
      split: wire_payload.splits)

definition PAYLOAD_KIND_DRIVE_DETACH_RESPONSE :: string where
  "PAYLOAD_KIND_DRIVE_DETACH_RESPONSE = ''drive_detach_response''"

primrec drive_detach_response_to_wire :: "drive_detach_response \<Rightarrow> wire_drive_detach_response" where
  "drive_detach_response_to_wire (DriveDetachResponse statuses) =
     WireDriveDetachResponse (map detach_status_to_wire statuses)"

primrec drive_detach_response_of_wire :: "wire_drive_detach_response \<Rightarrow> (drive_detach_response, proto_error) result" where
  "drive_detach_response_of_wire (WireDriveDetachResponse statuses) =
     and_then (collect_results detach_status_from_wire statuses) (\<lambda>statuses.
       Ok (DriveDetachResponse statuses))"

definition drive_detach_response_into_wire :: "drive_detach_response \<Rightarrow> wire_payload" where
  "drive_detach_response_into_wire v = PDriveDetachResponse (drive_detach_response_to_wire v)"

definition drive_detach_response_from_wire :: "wire_payload \<Rightarrow> (drive_detach_response, proto_error) result" where
  "drive_detach_response_from_wire p =
     (case p of PDriveDetachResponse v \<Rightarrow> drive_detach_response_of_wire v
      | _ \<Rightarrow>
          Err (MalformedPayload (UnexpectedPayloadFor PAYLOAD_KIND_DRIVE_DETACH_RESPONSE)))"

lemma drive_detach_response_of_to_wire [codec_simps]:
  "drive_detach_response_of_wire (drive_detach_response_to_wire v) = Ok v"
  by (cases v) (simp add: codec_simps)

interpretation drive_detach_response: payload PAYLOAD_KIND_DRIVE_DETACH_RESPONSE drive_detach_response_into_wire drive_detach_response_from_wire
    "\<lambda>_. True"
  by (rule payload_implI [where variant = PDriveDetachResponse and to_wire = drive_detach_response_to_wire
        and of_wire = drive_detach_response_of_wire])
    (simp_all add: drive_detach_response_into_wire_def drive_detach_response_from_wire_def
      PAYLOAD_KIND_DRIVE_DETACH_RESPONSE_def codec_simps
      split: wire_payload.splits)

subsection \<open>Pmem mounts\<close>

primrec pmem_status_to_i32 :: "pmem_mount_status_kind \<Rightarrow> i32" where
  "pmem_status_to_i32 PmemMounted = 0"
| "pmem_status_to_i32 PmemAlreadyMounted = 1"
| "pmem_status_to_i32 PmemFailed = 2"

definition pmem_status_from_i32 :: "i32 \<Rightarrow> (pmem_mount_status_kind, proto_error) result" where
  "pmem_status_from_i32 v =
     (if v = 0 then Ok PmemMounted
      else if v = 1 then Ok PmemAlreadyMounted
      else if v = 2 then Ok PmemFailed
      else Err (MalformedPayload (UnknownDiscriminant ''pmem mount status'' v)))"

interpretation pmem_status: enum_codec pmem_status_to_i32 pmem_status_from_i32
proof (rule enum_codecI)
  show "pmem_status_from_i32 (pmem_status_to_i32 e) = Ok e" for e
    by (cases e) (simp_all add: pmem_status_from_i32_def)
qed (auto simp: pmem_status_from_i32_def split: if_splits)

primrec pmem_error_to_i32 :: "pmem_mount_error \<Rightarrow> i32" where
  "pmem_error_to_i32 PmemDeviceNotFound = 0"
| "pmem_error_to_i32 PmemMountFailed = 1"
| "pmem_error_to_i32 PmemDaxFlagAbsent = 2"
| "pmem_error_to_i32 PmemInvalidDevicePath = 3"
| "pmem_error_to_i32 PmemInvalidMountPath = 4"
| "pmem_error_to_i32 PmemIo = 5"

definition pmem_error_from_i32 :: "i32 \<Rightarrow> (pmem_mount_error, proto_error) result" where
  "pmem_error_from_i32 v =
     (if v = 0 then Ok PmemDeviceNotFound
      else if v = 1 then Ok PmemMountFailed
      else if v = 2 then Ok PmemDaxFlagAbsent
      else if v = 3 then Ok PmemInvalidDevicePath
      else if v = 4 then Ok PmemInvalidMountPath
      else if v = 5 then Ok PmemIo
      else Err (MalformedPayload (UnknownDiscriminant ''pmem mount error'' v)))"

interpretation pmem_error: enum_codec pmem_error_to_i32 pmem_error_from_i32
proof (rule enum_codecI)
  show "pmem_error_from_i32 (pmem_error_to_i32 e) = Ok e" for e
    by (cases e) (simp_all add: pmem_error_from_i32_def)
qed (auto simp: pmem_error_from_i32_def split: if_splits)

definition opt_pmem_error_from_i32 :: "i32 option \<Rightarrow> (pmem_mount_error option, proto_error) result" where
  "opt_pmem_error_from_i32 v = transpose_opt (map_option pmem_error_from_i32 v)"

definition opt_pmem_error_to_i32 :: "pmem_mount_error option \<Rightarrow> i32 option" where
  "opt_pmem_error_to_i32 v = map_option pmem_error_to_i32 v"

primrec pmem_spec_to_wire :: "pmem_mount_spec \<Rightarrow> wire_pmem_mount_spec" where
  "pmem_spec_to_wire (PmemMountSpec device_path mount_path digest_hex) =
     WirePmemMountSpec device_path mount_path digest_hex"

primrec pmem_spec_from_wire :: "wire_pmem_mount_spec \<Rightarrow> pmem_mount_spec" where
  "pmem_spec_from_wire (WirePmemMountSpec device_path mount_path digest_hex) =
     PmemMountSpec device_path mount_path digest_hex"

primrec pmem_status_to_wire :: "pmem_mount_status \<Rightarrow> wire_pmem_mount_status" where
  "pmem_status_to_wire (PmemMountStatus device_path mount_path status err) =
     WirePmemMountStatus device_path mount_path (pmem_status_to_i32 status)
       (opt_pmem_error_to_i32 err)"

primrec pmem_status_from_wire ::
    "wire_pmem_mount_status \<Rightarrow> (pmem_mount_status, proto_error) result" where
  "pmem_status_from_wire (WirePmemMountStatus device_path mount_path status err) =
     and_then (pmem_status_from_i32 status) (\<lambda>status.
     and_then (opt_pmem_error_from_i32 err) (\<lambda>err.
       Ok (PmemMountStatus device_path mount_path status err)))"

lemma pmem_spec_from_to_wire [codec_simps]: "pmem_spec_from_wire (pmem_spec_to_wire s) = s"
  by (cases s) simp

lemma pmem_specs_from_to_wire [codec_simps]:
  "map (pmem_spec_from_wire \<circ> pmem_spec_to_wire) ss = ss"
  by (simp add: comp_def codec_simps)

lemma pmem_status_from_to_wire [codec_simps]: "pmem_status_from_wire (pmem_status_to_wire s) = Ok s"
  by (cases s) (simp add: opt_pmem_error_from_i32_def opt_pmem_error_to_i32_def
    pmem_status.from_to pmem_error.from_to)

lemma pmem_statuses_from_to_wire [codec_simps]:
  "collect_results pmem_status_from_wire (map pmem_status_to_wire ms) = Ok ms"
  by (simp add: collect_results_map codec_simps)

definition PAYLOAD_KIND_PMEM_MOUNT_REQUEST :: string where
  "PAYLOAD_KIND_PMEM_MOUNT_REQUEST = ''pmem_mount_request''"

primrec pmem_mount_request_to_wire :: "pmem_mount_request \<Rightarrow> wire_pmem_mount_request" where
  "pmem_mount_request_to_wire (PmemMountRequest devices) =
     WirePmemMountRequest (map pmem_spec_to_wire devices)"

primrec pmem_mount_request_of_wire :: "wire_pmem_mount_request \<Rightarrow> (pmem_mount_request, proto_error) result" where
  "pmem_mount_request_of_wire (WirePmemMountRequest devices) =
     Ok (PmemMountRequest (map pmem_spec_from_wire devices))"

definition pmem_mount_request_into_wire :: "pmem_mount_request \<Rightarrow> wire_payload" where
  "pmem_mount_request_into_wire v = PPmemMountRequest (pmem_mount_request_to_wire v)"

definition pmem_mount_request_from_wire :: "wire_payload \<Rightarrow> (pmem_mount_request, proto_error) result" where
  "pmem_mount_request_from_wire p =
     (case p of PPmemMountRequest v \<Rightarrow> pmem_mount_request_of_wire v
      | _ \<Rightarrow>
          Err (MalformedPayload (UnexpectedPayloadFor PAYLOAD_KIND_PMEM_MOUNT_REQUEST)))"

lemma pmem_mount_request_of_to_wire [codec_simps]:
  "pmem_mount_request_of_wire (pmem_mount_request_to_wire v) = Ok v"
  by (cases v) (simp add: codec_simps)

interpretation pmem_mount_request: payload PAYLOAD_KIND_PMEM_MOUNT_REQUEST pmem_mount_request_into_wire pmem_mount_request_from_wire
    "\<lambda>_. True"
  by (rule payload_implI [where variant = PPmemMountRequest and to_wire = pmem_mount_request_to_wire
        and of_wire = pmem_mount_request_of_wire])
    (simp_all add: pmem_mount_request_into_wire_def pmem_mount_request_from_wire_def
      PAYLOAD_KIND_PMEM_MOUNT_REQUEST_def codec_simps
      split: wire_payload.splits)

definition PAYLOAD_KIND_PMEM_MOUNT_RESPONSE :: string where
  "PAYLOAD_KIND_PMEM_MOUNT_RESPONSE = ''pmem_mount_response''"

primrec pmem_mount_response_to_wire :: "pmem_mount_response \<Rightarrow> wire_pmem_mount_response" where
  "pmem_mount_response_to_wire (PmemMountResponse statuses) =
     WirePmemMountResponse (map pmem_status_to_wire statuses)"

primrec pmem_mount_response_of_wire :: "wire_pmem_mount_response \<Rightarrow> (pmem_mount_response, proto_error) result" where
  "pmem_mount_response_of_wire (WirePmemMountResponse statuses) =
     and_then (collect_results pmem_status_from_wire statuses) (\<lambda>statuses.
       Ok (PmemMountResponse statuses))"

definition pmem_mount_response_into_wire :: "pmem_mount_response \<Rightarrow> wire_payload" where
  "pmem_mount_response_into_wire v = PPmemMountResponse (pmem_mount_response_to_wire v)"

definition pmem_mount_response_from_wire :: "wire_payload \<Rightarrow> (pmem_mount_response, proto_error) result" where
  "pmem_mount_response_from_wire p =
     (case p of PPmemMountResponse v \<Rightarrow> pmem_mount_response_of_wire v
      | _ \<Rightarrow>
          Err (MalformedPayload (UnexpectedPayloadFor PAYLOAD_KIND_PMEM_MOUNT_RESPONSE)))"

lemma pmem_mount_response_of_to_wire [codec_simps]:
  "pmem_mount_response_of_wire (pmem_mount_response_to_wire v) = Ok v"
  by (cases v) (simp add: codec_simps)

interpretation pmem_mount_response: payload PAYLOAD_KIND_PMEM_MOUNT_RESPONSE pmem_mount_response_into_wire pmem_mount_response_from_wire
    "\<lambda>_. True"
  by (rule payload_implI [where variant = PPmemMountResponse and to_wire = pmem_mount_response_to_wire
        and of_wire = pmem_mount_response_of_wire])
    (simp_all add: pmem_mount_response_into_wire_def pmem_mount_response_from_wire_def
      PAYLOAD_KIND_PMEM_MOUNT_RESPONSE_def codec_simps
      split: wire_payload.splits)

subsection \<open>Hostnames and post-restore hooks\<close>

definition invalid_hostname :: "string \<Rightarrow> (unit, proto_error) result" where
  "invalid_hostname reason = Err (MalformedPayload (InvalidPostRestoreHostname reason))"

text \<open>The body of the loop over the dot-separated labels.\<close>
definition validate_label :: "string \<Rightarrow> (unit, proto_error) result" where
  "validate_label label =
     (if label = [] then invalid_hostname ''hostname labels must not be empty''
      else if length label > 63 then invalid_hostname ''hostname labels must be <=63 bytes''
      else if starts_with label ''-'' then
        invalid_hostname ''hostname labels must not start with hyphen''
      else if ends_with label ''-'' then
        invalid_hostname ''hostname labels must not end with hyphen''
      else if \<not> list_all (\<lambda>b. is_ascii_alphanumeric b \<or> b = CHR ''-'') label then
        invalid_hostname ''hostname labels must contain only ASCII letters, digits, and hyphen''
      else Ok ())"

definition validate_hostname :: "string \<Rightarrow> (unit, proto_error) result" where
  "validate_hostname value =
     (if value = [] then invalid_hostname ''hostname must not be empty''
      else if length value > 253 then invalid_hostname ''hostname must be <=253 bytes''
      else and_then (collect_results validate_label (split_on (CHR ''.'') value)) (\<lambda>_. Ok ()))"

definition hook_hostname_new :: "string \<Rightarrow> (hook_hostname, proto_error) result" where
  "hook_hostname_new value = and_then (validate_hostname value) (\<lambda>_. Ok (HookHostname value))"

definition set_hostname :: "string \<Rightarrow> (hook_kind, proto_error) result" where
  "set_hostname hostname = and_then (hook_hostname_new hostname) (\<lambda>h. Ok (SetHostname h))"

primrec into_string :: "hook_hostname \<Rightarrow> string" where
  "into_string (HookHostname value) = value"

primrec hook_kind_to_wire :: "hook_kind \<Rightarrow> wire_hook_kind" where
  "hook_kind_to_wire ReseedSystemdRandomSeed =
     WireHookKind (Some (WireReseedSystemdRandomSeed True))"
| "hook_kind_to_wire RegenMachineId = WireHookKind (Some (WireRegenMachineId True))"
| "hook_kind_to_wire (SetHostname hostname) =
     WireHookKind (Some (WireSetHostname (into_string hostname)))"

primrec hook_kind_of_kind :: "wire_hook_kind_kind \<Rightarrow> (hook_kind, proto_error) result" where
  "hook_kind_of_kind (WireReseedSystemdRandomSeed _) = Ok ReseedSystemdRandomSeed"
| "hook_kind_of_kind (WireRegenMachineId _) = Ok RegenMachineId"
| "hook_kind_of_kind (WireSetHostname hostname) = set_hostname hostname"

primrec hook_kind_from_wire :: "wire_hook_kind \<Rightarrow> (hook_kind, proto_error) result" where
  "hook_kind_from_wire (WireHookKind kind) =
     and_then (ok_or kind (missing ''hook kind'')) hook_kind_of_kind"

primrec hook_error_to_wire :: "hook_error \<Rightarrow> wire_hook_error" where
  "hook_error_to_wire HookReseedFailed = WireHookError (Some (WireReseedFailed True))"
| "hook_error_to_wire HookMachineIdWriteFailed =
     WireHookError (Some (WireMachineIdWriteFailed True))"
| "hook_error_to_wire (HookHostnameSyscallFailed errno) =
     WireHookError (Some (WireHostnameSyscallFailedErrno errno))"
| "hook_error_to_wire HookHostnameWriteFailed =
     WireHookError (Some (WireHostnameWriteFailed True))"
| "hook_error_to_wire HookRandomSeedWriteFailed =
     WireHookError (Some (WireRandomSeedWriteFailed True))"
| "hook_error_to_wire HookInvalidHostname = WireHookError (Some (WireInvalidHostname True))"

primrec hook_error_of_kind :: "wire_hook_error_kind \<Rightarrow> hook_error" where
  "hook_error_of_kind (WireReseedFailed _) = HookReseedFailed"
| "hook_error_of_kind (WireMachineIdWriteFailed _) = HookMachineIdWriteFailed"
| "hook_error_of_kind (WireHostnameSyscallFailedErrno errno) = HookHostnameSyscallFailed errno"
| "hook_error_of_kind (WireHostnameWriteFailed _) = HookHostnameWriteFailed"
| "hook_error_of_kind (WireRandomSeedWriteFailed _) = HookRandomSeedWriteFailed"
| "hook_error_of_kind (WireInvalidHostname _) = HookInvalidHostname"

primrec hook_error_from_wire :: "wire_hook_error \<Rightarrow> (hook_error, proto_error) result" where
  "hook_error_from_wire (WireHookError err) =
     and_then (ok_or err (missing ''hook error'')) (\<lambda>e. Ok (hook_error_of_kind e))"

primrec hook_status_to_i32 :: "hook_status \<Rightarrow> i32" where
  "hook_status_to_i32 HookSucceeded = 0"
| "hook_status_to_i32 HookFailed = 1"

definition hook_status_from_i32 :: "i32 \<Rightarrow> (hook_status, proto_error) result" where
  "hook_status_from_i32 v =
     (if v = 0 then Ok HookSucceeded
      else if v = 1 then Ok HookFailed
      else Err (MalformedPayload (UnknownDiscriminant ''hook status'' v)))"

interpretation hook_status: enum_codec hook_status_to_i32 hook_status_from_i32
proof (rule enum_codecI)
  show "hook_status_from_i32 (hook_status_to_i32 e) = Ok e" for e
    by (cases e) (simp_all add: hook_status_from_i32_def)
qed (auto simp: hook_status_from_i32_def split: if_splits)

primrec hook_result_to_wire :: "hook_result \<Rightarrow> wire_hook_result" where
  "hook_result_to_wire (HookResult kind status err) =
     WireHookResult (Some (hook_kind_to_wire kind)) (hook_status_to_i32 status)
       (map_option hook_error_to_wire err)"

primrec hook_result_from_wire :: "wire_hook_result \<Rightarrow> (hook_result, proto_error) result" where
  "hook_result_from_wire (WireHookResult kind status err) =
     and_then (hook_status_from_i32 status) (\<lambda>status.
     and_then (transpose_opt (map_option hook_error_from_wire err)) (\<lambda>err.
       (case (status, err) of
          (HookSucceeded, Some _) \<Rightarrow> Err (MalformedPayload SuccessfulHookWithError)
        | (HookFailed, None) \<Rightarrow> Err (MalformedPayload FailedHookWithoutError)
        | (status, err) \<Rightarrow>
            and_then (ok_or kind (missing ''hook result kind'')) (\<lambda>kind.
            and_then (hook_kind_from_wire kind) (\<lambda>kind.
              Ok (HookResult kind status err))))))"

text \<open>Hooks and results the wire can carry: validated hostnames, and an error exactly on failure.\<close>

definition hook_kind_valid :: "hook_kind \<Rightarrow> bool" where
  "hook_kind_valid k =
     (case k of SetHostname h \<Rightarrow> validate_hostname (into_string h) = Ok () | _ \<Rightarrow> True)"

definition hook_result_valid :: "hook_result \<Rightarrow> bool" where
  "hook_result_valid r =
     (case r of HookResult kind status err \<Rightarrow>
        hook_kind_valid kind \<and> (status = HookFailed \<longleftrightarrow> err \<noteq> None))"

lemma hook_hostname_new_eq_Ok [result_simps]:
  "hook_hostname_new s = Ok h \<longleftrightarrow> h = HookHostname s \<and> validate_hostname s = Ok ()"
  by (auto simp: hook_hostname_new_def result_simps)

lemma hook_kind_from_to_wire [codec_simps]:
  "hook_kind_valid k \<Longrightarrow> hook_kind_from_wire (hook_kind_to_wire k) = Ok k"
  by (cases k; cases "case k of SetHostname h \<Rightarrow> h")
    (auto simp: hook_kind_valid_def set_hostname_def hook_hostname_new_def)

lemma hook_kind_of_kind_valid: "hook_kind_of_kind w = Ok k \<Longrightarrow> hook_kind_valid k"
  by (cases w) (auto simp: result_simps hook_kind_valid_def set_hostname_def)

lemma hook_kind_from_wire_valid: "hook_kind_from_wire w = Ok k \<Longrightarrow> hook_kind_valid k"
  by (cases w) (auto simp: result_simps intro: hook_kind_of_kind_valid)

lemma hook_error_from_to_wire [codec_simps]: "hook_error_from_wire (hook_error_to_wire e) = Ok e"
  by (cases e) simp_all

lemma hook_result_from_to_wire [codec_simps]:
  "hook_result_valid r \<Longrightarrow> hook_result_from_wire (hook_result_to_wire r) = Ok r"
  by (cases r) (auto simp: hook_result_valid_def hook_status.from_to codec_simps
    split: hook_status.splits option.splits)

lemma hook_result_from_wire_valid: "hook_result_from_wire w = Ok r \<Longrightarrow> hook_result_valid r"
proof (cases w)
  case (WireHookResult kind status err)
  assume "hook_result_from_wire w = Ok r"
  with WireHookResult obtain st e where "hook_status_from_i32 status = Ok st"
    and e: "transpose_opt (map_option hook_error_from_wire err) = Ok e"
    and r: "(case (st, e) of
        (HookSucceeded, Some _) \<Rightarrow> Err (MalformedPayload SuccessfulHookWithError)
      | (HookFailed, None) \<Rightarrow> Err (MalformedPayload FailedHookWithoutError)
      | (status, err) \<Rightarrow>
          and_then (ok_or kind (missing ''hook result kind'')) (\<lambda>kind.
          and_then (hook_kind_from_wire kind) (\<lambda>kind.
            Ok (HookResult kind status err)))) = Ok r"
    by (auto simp: result_simps)
  then show ?thesis
    by (cases st; cases e) (auto simp: result_simps hook_result_valid_def dest: hook_kind_from_wire_valid)
qed

definition PAYLOAD_KIND_POST_RESTORE_HOOK_REQUEST :: string where
  "PAYLOAD_KIND_POST_RESTORE_HOOK_REQUEST = ''post_restore_hook_request''"

primrec post_restore_hook_request_to_wire ::
    "post_restore_hook_request \<Rightarrow> wire_post_restore_hook_request" where
  "post_restore_hook_request_to_wire (PostRestoreHookRequest restore_nonce hooks) =
     WirePostRestoreHookRequest restore_nonce (map hook_kind_to_wire hooks)"

primrec post_restore_hook_request_of_wire ::
    "wire_post_restore_hook_request \<Rightarrow> (post_restore_hook_request, proto_error) result" where
  "post_restore_hook_request_of_wire (WirePostRestoreHookRequest restore_nonce hooks) =
     (if length restore_nonce \<noteq> 32 then Err (MalformedPayload RestoreNonceLength)
      else and_then (collect_results hook_kind_from_wire hooks) (\<lambda>hooks.
             Ok (PostRestoreHookRequest restore_nonce hooks)))"

definition post_restore_hook_request_representable :: "post_restore_hook_request \<Rightarrow> bool" where
  "post_restore_hook_request_representable v =
     (case v of PostRestoreHookRequest restore_nonce hooks \<Rightarrow>
        length restore_nonce = 32 \<and> list_all hook_kind_valid hooks)"

lemma post_restore_hook_request_of_wire_OkE:
  assumes "post_restore_hook_request_of_wire w = Ok p"
  obtains nonce hooks where "p = PostRestoreHookRequest nonce hooks" "length nonce = 32"
    "list_all hook_kind_valid hooks"
  using assms
  by (cases w) (auto simp: result_simps list_all_iff dest!: collect_results_Ok_set
    dest: hook_kind_from_wire_valid split: if_splits)

definition post_restore_hook_request_into_wire :: "post_restore_hook_request \<Rightarrow> wire_payload" where
  "post_restore_hook_request_into_wire v = PPostRestoreHookRequest (post_restore_hook_request_to_wire v)"

definition post_restore_hook_request_from_wire :: "wire_payload \<Rightarrow> (post_restore_hook_request, proto_error) result" where
  "post_restore_hook_request_from_wire p =
     (case p of PPostRestoreHookRequest v \<Rightarrow> post_restore_hook_request_of_wire v
      | other \<Rightarrow>
          Err (MalformedPayload (UnexpectedPayloadNamed PAYLOAD_KIND_POST_RESTORE_HOOK_REQUEST (payload_name other))))"

lemma hook_kinds_from_to_wire [codec_simps]:
  "list_all hook_kind_valid hs \<Longrightarrow> collect_results hook_kind_from_wire (map hook_kind_to_wire hs) = Ok hs"
  by (rule collect_results_map) (simp add: list_all_iff codec_simps)

lemma post_restore_hook_request_of_to_wire [codec_simps]:
  "post_restore_hook_request_representable v \<Longrightarrow> post_restore_hook_request_of_wire (post_restore_hook_request_to_wire v) = Ok v"
  by (cases v) (simp add: post_restore_hook_request_representable_def codec_simps)

lemma post_restore_hook_request_of_wire_representable:
  "post_restore_hook_request_of_wire w = Ok p \<Longrightarrow> post_restore_hook_request_representable p"
  by (auto simp: post_restore_hook_request_representable_def elim!: post_restore_hook_request_of_wire_OkE)

interpretation post_restore_hook_request: payload PAYLOAD_KIND_POST_RESTORE_HOOK_REQUEST post_restore_hook_request_into_wire post_restore_hook_request_from_wire
    post_restore_hook_request_representable
  by (rule payload_implI [where variant = PPostRestoreHookRequest and to_wire = post_restore_hook_request_to_wire
        and of_wire = post_restore_hook_request_of_wire])
    (simp_all add: post_restore_hook_request_into_wire_def post_restore_hook_request_from_wire_def
      PAYLOAD_KIND_POST_RESTORE_HOOK_REQUEST_def codec_simps post_restore_hook_request_of_wire_representable
      split: wire_payload.splits)

definition PAYLOAD_KIND_POST_RESTORE_HOOK_RESPONSE :: string where
  "PAYLOAD_KIND_POST_RESTORE_HOOK_RESPONSE = ''post_restore_hook_response''"

primrec post_restore_hook_response_to_wire ::
    "post_restore_hook_response \<Rightarrow> wire_post_restore_hook_response" where
  "post_restore_hook_response_to_wire (PostRestoreHookResponse results) =
     WirePostRestoreHookResponse (map hook_result_to_wire results)"

primrec post_restore_hook_response_of_wire ::
    "wire_post_restore_hook_response \<Rightarrow> (post_restore_hook_response, proto_error) result" where
  "post_restore_hook_response_of_wire (WirePostRestoreHookResponse results) =
     and_then (collect_results hook_result_from_wire results) (\<lambda>results.
       Ok (PostRestoreHookResponse results))"

definition post_restore_hook_response_representable :: "post_restore_hook_response \<Rightarrow> bool" where
  "post_restore_hook_response_representable v =
     (case v of PostRestoreHookResponse results \<Rightarrow> list_all hook_result_valid results)"

lemma post_restore_hook_response_of_wire_OkE:
  assumes "post_restore_hook_response_of_wire w = Ok p"
  obtains results where "p = PostRestoreHookResponse results" "list_all hook_result_valid results"
  using assms
  by (cases w) (auto simp: result_simps list_all_iff dest!: collect_results_Ok_set
    dest: hook_result_from_wire_valid)

lemma hook_results_from_to_wire [codec_simps]:
  "list_all hook_result_valid rs \<Longrightarrow>
     collect_results hook_result_from_wire (map hook_result_to_wire rs) = Ok rs"
  by (rule collect_results_map) (simp add: list_all_iff codec_simps)

definition post_restore_hook_response_into_wire :: "post_restore_hook_response \<Rightarrow> wire_payload" where
  "post_restore_hook_response_into_wire v = PPostRestoreHookResponse (post_restore_hook_response_to_wire v)"

definition post_restore_hook_response_from_wire :: "wire_payload \<Rightarrow> (post_restore_hook_response, proto_error) result" where
  "post_restore_hook_response_from_wire p =
     (case p of PPostRestoreHookResponse v \<Rightarrow> post_restore_hook_response_of_wire v
      | other \<Rightarrow>
          Err (MalformedPayload (UnexpectedPayloadNamed PAYLOAD_KIND_POST_RESTORE_HOOK_RESPONSE (payload_name other))))"

lemma post_restore_hook_response_of_to_wire [codec_simps]:
  "post_restore_hook_response_representable v \<Longrightarrow> post_restore_hook_response_of_wire (post_restore_hook_response_to_wire v) = Ok v"
  by (cases v) (simp add: post_restore_hook_response_representable_def codec_simps)

lemma post_restore_hook_response_of_wire_representable:
  "post_restore_hook_response_of_wire w = Ok p \<Longrightarrow> post_restore_hook_response_representable p"
  by (auto simp: post_restore_hook_response_representable_def elim!: post_restore_hook_response_of_wire_OkE)

interpretation post_restore_hook_response: payload PAYLOAD_KIND_POST_RESTORE_HOOK_RESPONSE post_restore_hook_response_into_wire post_restore_hook_response_from_wire
    post_restore_hook_response_representable
  by (rule payload_implI [where variant = PPostRestoreHookResponse and to_wire = post_restore_hook_response_to_wire
        and of_wire = post_restore_hook_response_of_wire])
    (simp_all add: post_restore_hook_response_into_wire_def post_restore_hook_response_from_wire_def
      PAYLOAD_KIND_POST_RESTORE_HOOK_RESPONSE_def codec_simps post_restore_hook_response_of_wire_representable
      split: wire_payload.splits)

subsection \<open>Host names\<close>

text \<open>RFC 1123 host names, as a grammar: labels of letters, digits and inner hyphens, at most 63 bytes
  each, joined by dots, at most 253 bytes in all.\<close>

definition rfc1123_label :: "string \<Rightarrow> bool" where
  "rfc1123_label l \<longleftrightarrow>
     l \<noteq> [] \<and> length l \<le> 63 \<and> hd l \<noteq> CHR ''-'' \<and> last l \<noteq> CHR ''-'' \<and>
     set l \<subseteq> {c. is_ascii_alphanumeric c \<or> c = CHR ''-''}"

lemma validate_label_iff: "validate_label l = Ok () \<longleftrightarrow> rfc1123_label l"
proof (cases l rule: rev_cases)
  case (snoc ys y)
  then show ?thesis
    by (cases ys) (auto simp: validate_label_def rfc1123_label_def invalid_hostname_def starts_with_def
      ends_with_def list_all_iff)
qed (simp add: validate_label_def rfc1123_label_def invalid_hostname_def)

text \<open>A hostname is accepted from the wire exactly when it is an RFC 1123 host name: the byte-wise
  checks of \<open>validate_hostname\<close> implement the grammar, and an accepted name is carried
  unchanged.\<close>
theorem set_hostname_iff_rfc1123:
  "set_hostname s = Ok k \<longleftrightarrow>
     k = SetHostname (HookHostname s) \<and> length s \<le> 253 \<and>
     (\<exists>labels. labels \<noteq> [] \<and> s = join ''.'' labels \<and> list_all rfc1123_label labels)"
proof -
  have dot: "CHR ''.'' \<notin> set l" if "rfc1123_label l" for l
    using that by (auto simp: rfc1123_label_def is_ascii_alphanumeric_def is_ascii_digit_def)
  have "(\<exists>us. collect_results validate_label (split_on (CHR ''.'') s) = Ok us) \<longleftrightarrow>
      list_all rfc1123_label (split_on (CHR ''.'') s)"
    unfolding collect_results_unit by (auto simp: list_all_iff validate_label_iff [symmetric])
  also have "\<dots> \<longleftrightarrow> (\<exists>labels. labels \<noteq> [] \<and> s = join ''.'' labels \<and> list_all rfc1123_label labels)"
    (is "?L \<longleftrightarrow> ?R")
  proof
    assume ?L
    then show ?R using join_split_on [of "CHR ''.''" s] by (metis split_on_nonempty)
  next
    assume ?R
    then show ?L using dot by (auto simp: list_all_iff split_on_join)
  qed
  finally have labels: "(\<exists>us. collect_results validate_label (split_on (CHR ''.'') s) = Ok us) \<longleftrightarrow> ?R" .
  have "s \<noteq> []" if ?R
    using that by (auto simp: rfc1123_label_def elim: join.elims)
  with labels show ?thesis
    by (auto simp: set_hostname_def hook_hostname_new_def validate_hostname_def result_simps
      invalid_hostname_def)
qed
text \<open>A post-restore report that decodes is consistent: each hook result carries an error exactly
  when its status is a failure, and names only hooks with a valid hostname.\<close>
theorem post_restore_report_consistent:
  assumes "post_restore_hook_response_from_wire w = Ok (PostRestoreHookResponse results)"
    and "HookResult kind status err \<in> set results"
  shows "(status = HookFailed \<longleftrightarrow> err \<noteq> None) \<and>
    (\<forall>h. kind = SetHostname (HookHostname h) \<longrightarrow> validate_hostname h = Ok ())"
proof -
  from post_restore_hook_response.from_representable [OF assms(1)] assms(2)
  have "hook_result_valid (HookResult kind status err)"
    by (simp add: post_restore_hook_response_representable_def list_all_iff)
  then show ?thesis by (auto simp: hook_result_valid_def hook_kind_valid_def)
qed

theorem post_restore_report_consistent_witness:
  "(HookFailed = HookFailed \<longleftrightarrow> Some HookReseedFailed \<noteq> None) \<and>
   post_restore_hook_response_from_wire
     (post_restore_hook_response_into_wire
        (PostRestoreHookResponse [HookResult ReseedSystemdRandomSeed HookFailed (Some HookReseedFailed)])) =
   Ok (PostRestoreHookResponse [HookResult ReseedSystemdRandomSeed HookFailed (Some HookReseedFailed)])"
proof -
  have dec: "post_restore_hook_response_from_wire
     (post_restore_hook_response_into_wire
        (PostRestoreHookResponse [HookResult ReseedSystemdRandomSeed HookFailed (Some HookReseedFailed)])) =
   Ok (PostRestoreHookResponse [HookResult ReseedSystemdRandomSeed HookFailed (Some HookReseedFailed)])"
    by (rule post_restore_hook_response.from_into)
      (simp add: post_restore_hook_response_representable_def hook_result_valid_def hook_kind_valid_def)
  from post_restore_report_consistent [OF dec, of ReseedSystemdRandomSeed HookFailed "Some HookReseedFailed"]
    dec
  show ?thesis by simp
qed

end
