(* ===== verification/File_Conversions.thy ===== *)
theory File_Conversions
  imports Conversions_Common
begin

text \<open>
  Payload conversions of \<open>m80-proto/src/wire/conversions/fileops.rs\<close>: guest file reads, writes
  (whole and chunked), listings, stats, removals and directory creation. The naming follows
  \<open>Exec_Conversions\<close>.
\<close>

subsection \<open>Reads and whole-file writes\<close>

definition PAYLOAD_KIND_FILE_READ_REQUEST :: string where
  "PAYLOAD_KIND_FILE_READ_REQUEST = ''file_read_request''"

primrec file_read_request_to_wire :: "file_read_request \<Rightarrow> wire_file_read_request" where
  "file_read_request_to_wire (FileReadRequest path max_bytes) =
     WireFileReadRequest path max_bytes"

primrec file_read_request_of_wire :: "wire_file_read_request \<Rightarrow> (file_read_request, proto_error) result" where
  "file_read_request_of_wire (WireFileReadRequest path max_bytes) =
     Ok (FileReadRequest path max_bytes)"

definition file_read_request_into_wire :: "file_read_request \<Rightarrow> wire_payload" where
  "file_read_request_into_wire v = PFileReadRequest (file_read_request_to_wire v)"

definition file_read_request_from_wire :: "wire_payload \<Rightarrow> (file_read_request, proto_error) result" where
  "file_read_request_from_wire p =
     (case p of PFileReadRequest v \<Rightarrow> file_read_request_of_wire v
      | other \<Rightarrow>
          Err (MalformedPayload (UnexpectedPayloadNamed PAYLOAD_KIND_FILE_READ_REQUEST (payload_name other))))"

lemma file_read_request_of_to_wire [codec_simps]:
  "file_read_request_of_wire (file_read_request_to_wire v) = Ok v"
  by (cases v) (simp add: codec_simps)

interpretation file_read_request: payload PAYLOAD_KIND_FILE_READ_REQUEST file_read_request_into_wire file_read_request_from_wire
    "\<lambda>_. True"
  by (rule payload_implI [where variant = PFileReadRequest and to_wire = file_read_request_to_wire
        and of_wire = file_read_request_of_wire])
    (simp_all add: file_read_request_into_wire_def file_read_request_from_wire_def
      PAYLOAD_KIND_FILE_READ_REQUEST_def codec_simps
      split: wire_payload.splits)

definition PAYLOAD_KIND_FILE_READ_RESPONSE :: string where
  "PAYLOAD_KIND_FILE_READ_RESPONSE = ''file_read_response''"

primrec file_read_response_to_wire :: "file_read_response \<Rightarrow> wire_file_read_response" where
  "file_read_response_to_wire (FileReadResponse bytes truncated err) =
     WireFileReadResponse bytes truncated (opt_file_error_to_i32 err)"

primrec file_read_response_of_wire :: "wire_file_read_response \<Rightarrow> (file_read_response, proto_error) result" where
  "file_read_response_of_wire (WireFileReadResponse bytes truncated err) =
     and_then (opt_file_error_from_i32 err) (\<lambda>err.
       Ok (FileReadResponse bytes truncated err))"

definition file_read_response_into_wire :: "file_read_response \<Rightarrow> wire_payload" where
  "file_read_response_into_wire v = PFileReadResponse (file_read_response_to_wire v)"

definition file_read_response_from_wire :: "wire_payload \<Rightarrow> (file_read_response, proto_error) result" where
  "file_read_response_from_wire p =
     (case p of PFileReadResponse v \<Rightarrow> file_read_response_of_wire v
      | other \<Rightarrow>
          Err (MalformedPayload (UnexpectedPayloadNamed PAYLOAD_KIND_FILE_READ_RESPONSE (payload_name other))))"

lemma file_read_response_of_to_wire [codec_simps]:
  "file_read_response_of_wire (file_read_response_to_wire v) = Ok v"
  by (cases v) (simp add: codec_simps)

interpretation file_read_response: payload PAYLOAD_KIND_FILE_READ_RESPONSE file_read_response_into_wire file_read_response_from_wire
    "\<lambda>_. True"
  by (rule payload_implI [where variant = PFileReadResponse and to_wire = file_read_response_to_wire
        and of_wire = file_read_response_of_wire])
    (simp_all add: file_read_response_into_wire_def file_read_response_from_wire_def
      PAYLOAD_KIND_FILE_READ_RESPONSE_def codec_simps
      split: wire_payload.splits)

definition PAYLOAD_KIND_FILE_READ_CHUNK :: string where
  "PAYLOAD_KIND_FILE_READ_CHUNK = ''file_read_chunk''"

primrec file_read_chunk_to_wire :: "file_read_chunk \<Rightarrow> wire_file_read_chunk" where
  "file_read_chunk_to_wire (FileReadChunk seq bytes completed truncated err) =
     WireFileReadChunk seq bytes completed truncated (opt_file_error_to_i32 err)"

primrec file_read_chunk_of_wire :: "wire_file_read_chunk \<Rightarrow> (file_read_chunk, proto_error) result" where
  "file_read_chunk_of_wire (WireFileReadChunk seq bytes completed truncated err) =
     and_then (opt_file_error_from_i32 err) (\<lambda>err.
       Ok (FileReadChunk seq bytes completed truncated err))"

definition file_read_chunk_into_wire :: "file_read_chunk \<Rightarrow> wire_payload" where
  "file_read_chunk_into_wire v = PFileReadChunk (file_read_chunk_to_wire v)"

definition file_read_chunk_from_wire :: "wire_payload \<Rightarrow> (file_read_chunk, proto_error) result" where
  "file_read_chunk_from_wire p =
     (case p of PFileReadChunk v \<Rightarrow> file_read_chunk_of_wire v
      | other \<Rightarrow>
          Err (MalformedPayload (UnexpectedPayloadNamed PAYLOAD_KIND_FILE_READ_CHUNK (payload_name other))))"

lemma file_read_chunk_of_to_wire [codec_simps]:
  "file_read_chunk_of_wire (file_read_chunk_to_wire v) = Ok v"
  by (cases v) (simp add: codec_simps)

interpretation file_read_chunk: payload PAYLOAD_KIND_FILE_READ_CHUNK file_read_chunk_into_wire file_read_chunk_from_wire
    "\<lambda>_. True"
  by (rule payload_implI [where variant = PFileReadChunk and to_wire = file_read_chunk_to_wire
        and of_wire = file_read_chunk_of_wire])
    (simp_all add: file_read_chunk_into_wire_def file_read_chunk_from_wire_def
      PAYLOAD_KIND_FILE_READ_CHUNK_def codec_simps
      split: wire_payload.splits)

definition PAYLOAD_KIND_FILE_WRITE_REQUEST :: string where
  "PAYLOAD_KIND_FILE_WRITE_REQUEST = ''file_write_request''"

primrec file_write_request_to_wire :: "file_write_request \<Rightarrow> wire_file_write_request" where
  "file_write_request_to_wire (FileWriteRequest path bytes mode) =
     WireFileWriteRequest path bytes mode"

primrec file_write_request_of_wire :: "wire_file_write_request \<Rightarrow> (file_write_request, proto_error) result" where
  "file_write_request_of_wire (WireFileWriteRequest path bytes mode) =
     Ok (FileWriteRequest path bytes mode)"

definition file_write_request_into_wire :: "file_write_request \<Rightarrow> wire_payload" where
  "file_write_request_into_wire v = PFileWriteRequest (file_write_request_to_wire v)"

definition file_write_request_from_wire :: "wire_payload \<Rightarrow> (file_write_request, proto_error) result" where
  "file_write_request_from_wire p =
     (case p of PFileWriteRequest v \<Rightarrow> file_write_request_of_wire v
      | other \<Rightarrow>
          Err (MalformedPayload (UnexpectedPayloadNamed PAYLOAD_KIND_FILE_WRITE_REQUEST (payload_name other))))"

lemma file_write_request_of_to_wire [codec_simps]:
  "file_write_request_of_wire (file_write_request_to_wire v) = Ok v"
  by (cases v) (simp add: codec_simps)

interpretation file_write_request: payload PAYLOAD_KIND_FILE_WRITE_REQUEST file_write_request_into_wire file_write_request_from_wire
    "\<lambda>_. True"
  by (rule payload_implI [where variant = PFileWriteRequest and to_wire = file_write_request_to_wire
        and of_wire = file_write_request_of_wire])
    (simp_all add: file_write_request_into_wire_def file_write_request_from_wire_def
      PAYLOAD_KIND_FILE_WRITE_REQUEST_def codec_simps
      split: wire_payload.splits)

definition PAYLOAD_KIND_FILE_WRITE_RESPONSE :: string where
  "PAYLOAD_KIND_FILE_WRITE_RESPONSE = ''file_write_response''"

primrec file_write_response_to_wire :: "file_write_response \<Rightarrow> wire_file_write_response" where
  "file_write_response_to_wire (FileWriteResponse bytes_written err) =
     WireFileWriteResponse bytes_written (opt_file_error_to_i32 err)"

primrec file_write_response_of_wire :: "wire_file_write_response \<Rightarrow> (file_write_response, proto_error) result" where
  "file_write_response_of_wire (WireFileWriteResponse bytes_written err) =
     and_then (opt_file_error_from_i32 err) (\<lambda>err.
       Ok (FileWriteResponse bytes_written err))"

definition file_write_response_into_wire :: "file_write_response \<Rightarrow> wire_payload" where
  "file_write_response_into_wire v = PFileWriteResponse (file_write_response_to_wire v)"

definition file_write_response_from_wire :: "wire_payload \<Rightarrow> (file_write_response, proto_error) result" where
  "file_write_response_from_wire p =
     (case p of PFileWriteResponse v \<Rightarrow> file_write_response_of_wire v
      | other \<Rightarrow>
          Err (MalformedPayload (UnexpectedPayloadNamed PAYLOAD_KIND_FILE_WRITE_RESPONSE (payload_name other))))"

lemma file_write_response_of_to_wire [codec_simps]:
  "file_write_response_of_wire (file_write_response_to_wire v) = Ok v"
  by (cases v) (simp add: codec_simps)

interpretation file_write_response: payload PAYLOAD_KIND_FILE_WRITE_RESPONSE file_write_response_into_wire file_write_response_from_wire
    "\<lambda>_. True"
  by (rule payload_implI [where variant = PFileWriteResponse and to_wire = file_write_response_to_wire
        and of_wire = file_write_response_of_wire])
    (simp_all add: file_write_response_into_wire_def file_write_response_from_wire_def
      PAYLOAD_KIND_FILE_WRITE_RESPONSE_def codec_simps
      split: wire_payload.splits)

subsection \<open>Listings and stats\<close>

definition PAYLOAD_KIND_FILE_LIST_REQUEST :: string where
  "PAYLOAD_KIND_FILE_LIST_REQUEST = ''file_list_request''"

primrec file_list_request_to_wire :: "file_list_request \<Rightarrow> wire_file_list_request" where
  "file_list_request_to_wire (FileListRequest path) =
     WireFileListRequest path"

primrec file_list_request_of_wire :: "wire_file_list_request \<Rightarrow> (file_list_request, proto_error) result" where
  "file_list_request_of_wire (WireFileListRequest path) =
     Ok (FileListRequest path)"

definition file_list_request_into_wire :: "file_list_request \<Rightarrow> wire_payload" where
  "file_list_request_into_wire v = PFileListRequest (file_list_request_to_wire v)"

definition file_list_request_from_wire :: "wire_payload \<Rightarrow> (file_list_request, proto_error) result" where
  "file_list_request_from_wire p =
     (case p of PFileListRequest v \<Rightarrow> file_list_request_of_wire v
      | other \<Rightarrow>
          Err (MalformedPayload (UnexpectedPayloadNamed PAYLOAD_KIND_FILE_LIST_REQUEST (payload_name other))))"

lemma file_list_request_of_to_wire [codec_simps]:
  "file_list_request_of_wire (file_list_request_to_wire v) = Ok v"
  by (cases v) (simp add: codec_simps)

interpretation file_list_request: payload PAYLOAD_KIND_FILE_LIST_REQUEST file_list_request_into_wire file_list_request_from_wire
    "\<lambda>_. True"
  by (rule payload_implI [where variant = PFileListRequest and to_wire = file_list_request_to_wire
        and of_wire = file_list_request_of_wire])
    (simp_all add: file_list_request_into_wire_def file_list_request_from_wire_def
      PAYLOAD_KIND_FILE_LIST_REQUEST_def codec_simps
      split: wire_payload.splits)

primrec dir_entry_to_wire :: "dir_entry \<Rightarrow> wire_dir_entry" where
  "dir_entry_to_wire (DirEntry name kind sz) = WireDirEntry name (file_kind_to_i32 kind) sz"

primrec dir_entry_of_wire :: "wire_dir_entry \<Rightarrow> (dir_entry, proto_error) result" where
  "dir_entry_of_wire (WireDirEntry name kind sz) =
     and_then (file_kind_from_i32 kind) (\<lambda>kind. Ok (DirEntry name kind sz))"

lemma dir_entry_of_to_wire [codec_simps]: "dir_entry_of_wire (dir_entry_to_wire e) = Ok e"
  by (cases e) (simp add: codec_simps)

lemma dir_entries_of_to_wire [codec_simps]:
  "collect_results dir_entry_of_wire (map dir_entry_to_wire es) = Ok es"
  by (rule collect_results_map) (simp add: codec_simps)

primrec stat_to_wire :: "file_stat \<Rightarrow> wire_file_stat" where
  "stat_to_wire (FileStat kind sz mtime_unix_ms mode) =
     WireFileStat (file_kind_to_i32 kind) sz mtime_unix_ms mode"

primrec stat_of_wire :: "wire_file_stat \<Rightarrow> (file_stat, proto_error) result" where
  "stat_of_wire (WireFileStat kind sz mtime_unix_ms mode) =
     and_then (file_kind_from_i32 kind) (\<lambda>kind. Ok (FileStat kind sz mtime_unix_ms mode))"

lemma stat_of_to_wire [codec_simps]: "stat_of_wire (stat_to_wire s) = Ok s"
  by (cases s) (simp add: codec_simps)

lemma opt_stat_of_to_wire [codec_simps]:
  "transpose_opt (map_option stat_of_wire (map_option stat_to_wire s)) = Ok s"
  by (simp add: codec_simps)

definition PAYLOAD_KIND_FILE_LIST_RESPONSE :: string where
  "PAYLOAD_KIND_FILE_LIST_RESPONSE = ''file_list_response''"

primrec file_list_response_to_wire :: "file_list_response \<Rightarrow> wire_file_list_response" where
  "file_list_response_to_wire (FileListResponse entries err) =
     WireFileListResponse (map dir_entry_to_wire entries) (opt_file_error_to_i32 err)"

primrec file_list_response_of_wire :: "wire_file_list_response \<Rightarrow> (file_list_response, proto_error) result" where
  "file_list_response_of_wire (WireFileListResponse entries err) =
     and_then (collect_results dir_entry_of_wire entries) (\<lambda>entries.
     and_then (opt_file_error_from_i32 err) (\<lambda>err.
       Ok (FileListResponse entries err)))"

definition file_list_response_into_wire :: "file_list_response \<Rightarrow> wire_payload" where
  "file_list_response_into_wire v = PFileListResponse (file_list_response_to_wire v)"

definition file_list_response_from_wire :: "wire_payload \<Rightarrow> (file_list_response, proto_error) result" where
  "file_list_response_from_wire p =
     (case p of PFileListResponse v \<Rightarrow> file_list_response_of_wire v
      | other \<Rightarrow>
          Err (MalformedPayload (UnexpectedPayloadNamed PAYLOAD_KIND_FILE_LIST_RESPONSE (payload_name other))))"

lemma file_list_response_of_to_wire [codec_simps]:
  "file_list_response_of_wire (file_list_response_to_wire v) = Ok v"
  by (cases v) (simp add: codec_simps)

interpretation file_list_response: payload PAYLOAD_KIND_FILE_LIST_RESPONSE file_list_response_into_wire file_list_response_from_wire
    "\<lambda>_. True"
  by (rule payload_implI [where variant = PFileListResponse and to_wire = file_list_response_to_wire
        and of_wire = file_list_response_of_wire])
    (simp_all add: file_list_response_into_wire_def file_list_response_from_wire_def
      PAYLOAD_KIND_FILE_LIST_RESPONSE_def codec_simps
      split: wire_payload.splits)

definition PAYLOAD_KIND_FILE_STAT_REQUEST :: string where
  "PAYLOAD_KIND_FILE_STAT_REQUEST = ''file_stat_request''"

primrec file_stat_request_to_wire :: "file_stat_request \<Rightarrow> wire_file_stat_request" where
  "file_stat_request_to_wire (FileStatRequest path) =
     WireFileStatRequest path"

primrec file_stat_request_of_wire :: "wire_file_stat_request \<Rightarrow> (file_stat_request, proto_error) result" where
  "file_stat_request_of_wire (WireFileStatRequest path) =
     Ok (FileStatRequest path)"

definition file_stat_request_into_wire :: "file_stat_request \<Rightarrow> wire_payload" where
  "file_stat_request_into_wire v = PFileStatRequest (file_stat_request_to_wire v)"

definition file_stat_request_from_wire :: "wire_payload \<Rightarrow> (file_stat_request, proto_error) result" where
  "file_stat_request_from_wire p =
     (case p of PFileStatRequest v \<Rightarrow> file_stat_request_of_wire v
      | other \<Rightarrow>
          Err (MalformedPayload (UnexpectedPayloadNamed PAYLOAD_KIND_FILE_STAT_REQUEST (payload_name other))))"

lemma file_stat_request_of_to_wire [codec_simps]:
  "file_stat_request_of_wire (file_stat_request_to_wire v) = Ok v"
  by (cases v) (simp add: codec_simps)

interpretation file_stat_request: payload PAYLOAD_KIND_FILE_STAT_REQUEST file_stat_request_into_wire file_stat_request_from_wire
    "\<lambda>_. True"
  by (rule payload_implI [where variant = PFileStatRequest and to_wire = file_stat_request_to_wire
        and of_wire = file_stat_request_of_wire])
    (simp_all add: file_stat_request_into_wire_def file_stat_request_from_wire_def
      PAYLOAD_KIND_FILE_STAT_REQUEST_def codec_simps
      split: wire_payload.splits)

definition PAYLOAD_KIND_FILE_STAT_RESPONSE :: string where
  "PAYLOAD_KIND_FILE_STAT_RESPONSE = ''file_stat_response''"

primrec file_stat_response_to_wire :: "file_stat_response \<Rightarrow> wire_file_stat_response" where
  "file_stat_response_to_wire (FileStatResponse stat err) =
     WireFileStatResponse (map_option stat_to_wire stat) (opt_file_error_to_i32 err)"

primrec file_stat_response_of_wire :: "wire_file_stat_response \<Rightarrow> (file_stat_response, proto_error) result" where
  "file_stat_response_of_wire (WireFileStatResponse stat err) =
     and_then (transpose_opt (map_option stat_of_wire stat)) (\<lambda>stat.
     and_then (opt_file_error_from_i32 err) (\<lambda>err.
       Ok (FileStatResponse stat err)))"

definition file_stat_response_into_wire :: "file_stat_response \<Rightarrow> wire_payload" where
  "file_stat_response_into_wire v = PFileStatResponse (file_stat_response_to_wire v)"

definition file_stat_response_from_wire :: "wire_payload \<Rightarrow> (file_stat_response, proto_error) result" where
  "file_stat_response_from_wire p =
     (case p of PFileStatResponse v \<Rightarrow> file_stat_response_of_wire v
      | other \<Rightarrow>
          Err (MalformedPayload (UnexpectedPayloadNamed PAYLOAD_KIND_FILE_STAT_RESPONSE (payload_name other))))"

lemma file_stat_response_of_to_wire [codec_simps]:
  "file_stat_response_of_wire (file_stat_response_to_wire v) = Ok v"
  by (cases v) (simp add: codec_simps)

interpretation file_stat_response: payload PAYLOAD_KIND_FILE_STAT_RESPONSE file_stat_response_into_wire file_stat_response_from_wire
    "\<lambda>_. True"
  by (rule payload_implI [where variant = PFileStatResponse and to_wire = file_stat_response_to_wire
        and of_wire = file_stat_response_of_wire])
    (simp_all add: file_stat_response_into_wire_def file_stat_response_from_wire_def
      PAYLOAD_KIND_FILE_STAT_RESPONSE_def codec_simps
      split: wire_payload.splits)

subsection \<open>Removals and directories\<close>

definition PAYLOAD_KIND_FILE_REMOVE_REQUEST :: string where
  "PAYLOAD_KIND_FILE_REMOVE_REQUEST = ''file_remove_request''"

primrec file_remove_request_to_wire :: "file_remove_request \<Rightarrow> wire_file_remove_request" where
  "file_remove_request_to_wire (FileRemoveRequest path) =
     WireFileRemoveRequest path"

primrec file_remove_request_of_wire :: "wire_file_remove_request \<Rightarrow> (file_remove_request, proto_error) result" where
  "file_remove_request_of_wire (WireFileRemoveRequest path) =
     Ok (FileRemoveRequest path)"

definition file_remove_request_into_wire :: "file_remove_request \<Rightarrow> wire_payload" where
  "file_remove_request_into_wire v = PFileRemoveRequest (file_remove_request_to_wire v)"

definition file_remove_request_from_wire :: "wire_payload \<Rightarrow> (file_remove_request, proto_error) result" where
  "file_remove_request_from_wire p =
     (case p of PFileRemoveRequest v \<Rightarrow> file_remove_request_of_wire v
      | other \<Rightarrow>
          Err (MalformedPayload (UnexpectedPayloadNamed PAYLOAD_KIND_FILE_REMOVE_REQUEST (payload_name other))))"

lemma file_remove_request_of_to_wire [codec_simps]:
  "file_remove_request_of_wire (file_remove_request_to_wire v) = Ok v"
  by (cases v) (simp add: codec_simps)

interpretation file_remove_request: payload PAYLOAD_KIND_FILE_REMOVE_REQUEST file_remove_request_into_wire file_remove_request_from_wire
    "\<lambda>_. True"
  by (rule payload_implI [where variant = PFileRemoveRequest and to_wire = file_remove_request_to_wire
        and of_wire = file_remove_request_of_wire])
    (simp_all add: file_remove_request_into_wire_def file_remove_request_from_wire_def
      PAYLOAD_KIND_FILE_REMOVE_REQUEST_def codec_simps
      split: wire_payload.splits)

definition PAYLOAD_KIND_FILE_REMOVE_RESPONSE :: string where
  "PAYLOAD_KIND_FILE_REMOVE_RESPONSE = ''file_remove_response''"

primrec file_remove_response_to_wire :: "file_remove_response \<Rightarrow> wire_file_remove_response" where
  "file_remove_response_to_wire (FileRemoveResponse removed err) =
     WireFileRemoveResponse removed (opt_file_error_to_i32 err)"

primrec file_remove_response_of_wire :: "wire_file_remove_response \<Rightarrow> (file_remove_response, proto_error) result" where
  "file_remove_response_of_wire (WireFileRemoveResponse removed err) =
     and_then (opt_file_error_from_i32 err) (\<lambda>err.
       Ok (FileRemoveResponse removed err))"

definition file_remove_response_into_wire :: "file_remove_response \<Rightarrow> wire_payload" where
  "file_remove_response_into_wire v = PFileRemoveResponse (file_remove_response_to_wire v)"

definition file_remove_response_from_wire :: "wire_payload \<Rightarrow> (file_remove_response, proto_error) result" where
  "file_remove_response_from_wire p =
     (case p of PFileRemoveResponse v \<Rightarrow> file_remove_response_of_wire v
      | other \<Rightarrow>
          Err (MalformedPayload (UnexpectedPayloadNamed PAYLOAD_KIND_FILE_REMOVE_RESPONSE (payload_name other))))"

lemma file_remove_response_of_to_wire [codec_simps]:
  "file_remove_response_of_wire (file_remove_response_to_wire v) = Ok v"
  by (cases v) (simp add: codec_simps)

interpretation file_remove_response: payload PAYLOAD_KIND_FILE_REMOVE_RESPONSE file_remove_response_into_wire file_remove_response_from_wire
    "\<lambda>_. True"
  by (rule payload_implI [where variant = PFileRemoveResponse and to_wire = file_remove_response_to_wire
        and of_wire = file_remove_response_of_wire])
    (simp_all add: file_remove_response_into_wire_def file_remove_response_from_wire_def
      PAYLOAD_KIND_FILE_REMOVE_RESPONSE_def codec_simps
      split: wire_payload.splits)

definition PAYLOAD_KIND_FILE_MKDIR_REQUEST :: string where
  "PAYLOAD_KIND_FILE_MKDIR_REQUEST = ''file_mkdir_request''"

primrec file_mkdir_request_to_wire :: "file_mkdir_request \<Rightarrow> wire_file_mkdir_request" where
  "file_mkdir_request_to_wire (FileMkdirRequest path mode recursive) =
     WireFileMkdirRequest path mode recursive"

primrec file_mkdir_request_of_wire :: "wire_file_mkdir_request \<Rightarrow> (file_mkdir_request, proto_error) result" where
  "file_mkdir_request_of_wire (WireFileMkdirRequest path mode recursive) =
     Ok (FileMkdirRequest path mode recursive)"

definition file_mkdir_request_into_wire :: "file_mkdir_request \<Rightarrow> wire_payload" where
  "file_mkdir_request_into_wire v = PFileMkdirRequest (file_mkdir_request_to_wire v)"

definition file_mkdir_request_from_wire :: "wire_payload \<Rightarrow> (file_mkdir_request, proto_error) result" where
  "file_mkdir_request_from_wire p =
     (case p of PFileMkdirRequest v \<Rightarrow> file_mkdir_request_of_wire v
      | other \<Rightarrow>
          Err (MalformedPayload (UnexpectedPayloadNamed PAYLOAD_KIND_FILE_MKDIR_REQUEST (payload_name other))))"

lemma file_mkdir_request_of_to_wire [codec_simps]:
  "file_mkdir_request_of_wire (file_mkdir_request_to_wire v) = Ok v"
  by (cases v) (simp add: codec_simps)

interpretation file_mkdir_request: payload PAYLOAD_KIND_FILE_MKDIR_REQUEST file_mkdir_request_into_wire file_mkdir_request_from_wire
    "\<lambda>_. True"
  by (rule payload_implI [where variant = PFileMkdirRequest and to_wire = file_mkdir_request_to_wire
        and of_wire = file_mkdir_request_of_wire])
    (simp_all add: file_mkdir_request_into_wire_def file_mkdir_request_from_wire_def
      PAYLOAD_KIND_FILE_MKDIR_REQUEST_def codec_simps
      split: wire_payload.splits)

definition PAYLOAD_KIND_FILE_MKDIR_RESPONSE :: string where
  "PAYLOAD_KIND_FILE_MKDIR_RESPONSE = ''file_mkdir_response''"

primrec file_mkdir_response_to_wire :: "file_mkdir_response \<Rightarrow> wire_file_mkdir_response" where
  "file_mkdir_response_to_wire (FileMkdirResponse created err) =
     WireFileMkdirResponse created (opt_file_error_to_i32 err)"

primrec file_mkdir_response_of_wire :: "wire_file_mkdir_response \<Rightarrow> (file_mkdir_response, proto_error) result" where
  "file_mkdir_response_of_wire (WireFileMkdirResponse created err) =
     and_then (opt_file_error_from_i32 err) (\<lambda>err.
       Ok (FileMkdirResponse created err))"

definition file_mkdir_response_into_wire :: "file_mkdir_response \<Rightarrow> wire_payload" where
  "file_mkdir_response_into_wire v = PFileMkdirResponse (file_mkdir_response_to_wire v)"

definition file_mkdir_response_from_wire :: "wire_payload \<Rightarrow> (file_mkdir_response, proto_error) result" where
  "file_mkdir_response_from_wire p =
     (case p of PFileMkdirResponse v \<Rightarrow> file_mkdir_response_of_wire v
      | other \<Rightarrow>
          Err (MalformedPayload (UnexpectedPayloadNamed PAYLOAD_KIND_FILE_MKDIR_RESPONSE (payload_name other))))"

lemma file_mkdir_response_of_to_wire [codec_simps]:
  "file_mkdir_response_of_wire (file_mkdir_response_to_wire v) = Ok v"
  by (cases v) (simp add: codec_simps)

interpretation file_mkdir_response: payload PAYLOAD_KIND_FILE_MKDIR_RESPONSE file_mkdir_response_into_wire file_mkdir_response_from_wire
    "\<lambda>_. True"
  by (rule payload_implI [where variant = PFileMkdirResponse and to_wire = file_mkdir_response_to_wire
        and of_wire = file_mkdir_response_of_wire])
    (simp_all add: file_mkdir_response_into_wire_def file_mkdir_response_from_wire_def
      PAYLOAD_KIND_FILE_MKDIR_RESPONSE_def codec_simps
      split: wire_payload.splits)

subsection \<open>Chunked writes\<close>

definition PAYLOAD_KIND_FILE_WRITE_BEGIN_REQUEST :: string where
  "PAYLOAD_KIND_FILE_WRITE_BEGIN_REQUEST = ''file_write_begin_request''"

primrec file_write_begin_request_to_wire :: "file_write_begin_request \<Rightarrow> wire_file_write_begin_request" where
  "file_write_begin_request_to_wire (FileWriteBeginRequest path mode) =
     WireFileWriteBeginRequest path mode"

primrec file_write_begin_request_of_wire :: "wire_file_write_begin_request \<Rightarrow> (file_write_begin_request, proto_error) result" where
  "file_write_begin_request_of_wire (WireFileWriteBeginRequest path mode) =
     Ok (FileWriteBeginRequest path mode)"

definition file_write_begin_request_into_wire :: "file_write_begin_request \<Rightarrow> wire_payload" where
  "file_write_begin_request_into_wire v = PFileWriteBeginRequest (file_write_begin_request_to_wire v)"

definition file_write_begin_request_from_wire :: "wire_payload \<Rightarrow> (file_write_begin_request, proto_error) result" where
  "file_write_begin_request_from_wire p =
     (case p of PFileWriteBeginRequest v \<Rightarrow> file_write_begin_request_of_wire v
      | other \<Rightarrow>
          Err (MalformedPayload (UnexpectedPayloadNamed PAYLOAD_KIND_FILE_WRITE_BEGIN_REQUEST (payload_name other))))"

lemma file_write_begin_request_of_to_wire [codec_simps]:
  "file_write_begin_request_of_wire (file_write_begin_request_to_wire v) = Ok v"
  by (cases v) (simp add: codec_simps)

interpretation file_write_begin_request: payload PAYLOAD_KIND_FILE_WRITE_BEGIN_REQUEST file_write_begin_request_into_wire file_write_begin_request_from_wire
    "\<lambda>_. True"
  by (rule payload_implI [where variant = PFileWriteBeginRequest and to_wire = file_write_begin_request_to_wire
        and of_wire = file_write_begin_request_of_wire])
    (simp_all add: file_write_begin_request_into_wire_def file_write_begin_request_from_wire_def
      PAYLOAD_KIND_FILE_WRITE_BEGIN_REQUEST_def codec_simps
      split: wire_payload.splits)

definition PAYLOAD_KIND_FILE_WRITE_BEGIN_RESPONSE :: string where
  "PAYLOAD_KIND_FILE_WRITE_BEGIN_RESPONSE = ''file_write_begin_response''"

primrec file_write_begin_response_to_wire :: "file_write_begin_response \<Rightarrow> wire_file_write_begin_response" where
  "file_write_begin_response_to_wire (FileWriteBeginResponse upload_id err) =
     WireFileWriteBeginResponse upload_id (opt_file_error_to_i32 err)"

primrec file_write_begin_response_of_wire :: "wire_file_write_begin_response \<Rightarrow> (file_write_begin_response, proto_error) result" where
  "file_write_begin_response_of_wire (WireFileWriteBeginResponse upload_id err) =
     and_then (opt_file_error_from_i32 err) (\<lambda>err.
       Ok (FileWriteBeginResponse upload_id err))"

definition file_write_begin_response_into_wire :: "file_write_begin_response \<Rightarrow> wire_payload" where
  "file_write_begin_response_into_wire v = PFileWriteBeginResponse (file_write_begin_response_to_wire v)"

definition file_write_begin_response_from_wire :: "wire_payload \<Rightarrow> (file_write_begin_response, proto_error) result" where
  "file_write_begin_response_from_wire p =
     (case p of PFileWriteBeginResponse v \<Rightarrow> file_write_begin_response_of_wire v
      | other \<Rightarrow>
          Err (MalformedPayload (UnexpectedPayloadNamed PAYLOAD_KIND_FILE_WRITE_BEGIN_RESPONSE (payload_name other))))"

lemma file_write_begin_response_of_to_wire [codec_simps]:
  "file_write_begin_response_of_wire (file_write_begin_response_to_wire v) = Ok v"
  by (cases v) (simp add: codec_simps)

interpretation file_write_begin_response: payload PAYLOAD_KIND_FILE_WRITE_BEGIN_RESPONSE file_write_begin_response_into_wire file_write_begin_response_from_wire
    "\<lambda>_. True"
  by (rule payload_implI [where variant = PFileWriteBeginResponse and to_wire = file_write_begin_response_to_wire
        and of_wire = file_write_begin_response_of_wire])
    (simp_all add: file_write_begin_response_into_wire_def file_write_begin_response_from_wire_def
      PAYLOAD_KIND_FILE_WRITE_BEGIN_RESPONSE_def codec_simps
      split: wire_payload.splits)

definition PAYLOAD_KIND_FILE_WRITE_CHUNK_REQUEST :: string where
  "PAYLOAD_KIND_FILE_WRITE_CHUNK_REQUEST = ''file_write_chunk_request''"

primrec file_write_chunk_request_to_wire :: "file_write_chunk_request \<Rightarrow> wire_file_write_chunk_request" where
  "file_write_chunk_request_to_wire (FileWriteChunkRequest upload_id seq bytes) =
     WireFileWriteChunkRequest upload_id seq bytes"

primrec file_write_chunk_request_of_wire :: "wire_file_write_chunk_request \<Rightarrow> (file_write_chunk_request, proto_error) result" where
  "file_write_chunk_request_of_wire (WireFileWriteChunkRequest upload_id seq bytes) =
     Ok (FileWriteChunkRequest upload_id seq bytes)"

definition file_write_chunk_request_into_wire :: "file_write_chunk_request \<Rightarrow> wire_payload" where
  "file_write_chunk_request_into_wire v = PFileWriteChunkRequest (file_write_chunk_request_to_wire v)"

definition file_write_chunk_request_from_wire :: "wire_payload \<Rightarrow> (file_write_chunk_request, proto_error) result" where
  "file_write_chunk_request_from_wire p =
     (case p of PFileWriteChunkRequest v \<Rightarrow> file_write_chunk_request_of_wire v
      | other \<Rightarrow>
          Err (MalformedPayload (UnexpectedPayloadNamed PAYLOAD_KIND_FILE_WRITE_CHUNK_REQUEST (payload_name other))))"

lemma file_write_chunk_request_of_to_wire [codec_simps]:
  "file_write_chunk_request_of_wire (file_write_chunk_request_to_wire v) = Ok v"
  by (cases v) (simp add: codec_simps)

interpretation file_write_chunk_request: payload PAYLOAD_KIND_FILE_WRITE_CHUNK_REQUEST file_write_chunk_request_into_wire file_write_chunk_request_from_wire
    "\<lambda>_. True"
  by (rule payload_implI [where variant = PFileWriteChunkRequest and to_wire = file_write_chunk_request_to_wire
        and of_wire = file_write_chunk_request_of_wire])
    (simp_all add: file_write_chunk_request_into_wire_def file_write_chunk_request_from_wire_def
      PAYLOAD_KIND_FILE_WRITE_CHUNK_REQUEST_def codec_simps
      split: wire_payload.splits)

definition PAYLOAD_KIND_FILE_WRITE_CHUNK_RESPONSE :: string where
  "PAYLOAD_KIND_FILE_WRITE_CHUNK_RESPONSE = ''file_write_chunk_response''"

primrec file_write_chunk_response_to_wire :: "file_write_chunk_response \<Rightarrow> wire_file_write_chunk_response" where
  "file_write_chunk_response_to_wire (FileWriteChunkResponse upload_id seq bytes_written err) =
     WireFileWriteChunkResponse upload_id seq bytes_written (opt_file_error_to_i32 err)"

primrec file_write_chunk_response_of_wire :: "wire_file_write_chunk_response \<Rightarrow> (file_write_chunk_response, proto_error) result" where
  "file_write_chunk_response_of_wire (WireFileWriteChunkResponse upload_id seq bytes_written err) =
     and_then (opt_file_error_from_i32 err) (\<lambda>err.
       Ok (FileWriteChunkResponse upload_id seq bytes_written err))"

definition file_write_chunk_response_into_wire :: "file_write_chunk_response \<Rightarrow> wire_payload" where
  "file_write_chunk_response_into_wire v = PFileWriteChunkResponse (file_write_chunk_response_to_wire v)"

definition file_write_chunk_response_from_wire :: "wire_payload \<Rightarrow> (file_write_chunk_response, proto_error) result" where
  "file_write_chunk_response_from_wire p =
     (case p of PFileWriteChunkResponse v \<Rightarrow> file_write_chunk_response_of_wire v
      | other \<Rightarrow>
          Err (MalformedPayload (UnexpectedPayloadNamed PAYLOAD_KIND_FILE_WRITE_CHUNK_RESPONSE (payload_name other))))"

lemma file_write_chunk_response_of_to_wire [codec_simps]:
  "file_write_chunk_response_of_wire (file_write_chunk_response_to_wire v) = Ok v"
  by (cases v) (simp add: codec_simps)

interpretation file_write_chunk_response: payload PAYLOAD_KIND_FILE_WRITE_CHUNK_RESPONSE file_write_chunk_response_into_wire file_write_chunk_response_from_wire
    "\<lambda>_. True"
  by (rule payload_implI [where variant = PFileWriteChunkResponse and to_wire = file_write_chunk_response_to_wire
        and of_wire = file_write_chunk_response_of_wire])
    (simp_all add: file_write_chunk_response_into_wire_def file_write_chunk_response_from_wire_def
      PAYLOAD_KIND_FILE_WRITE_CHUNK_RESPONSE_def codec_simps
      split: wire_payload.splits)

definition PAYLOAD_KIND_FILE_WRITE_COMMIT_REQUEST :: string where
  "PAYLOAD_KIND_FILE_WRITE_COMMIT_REQUEST = ''file_write_commit_request''"

primrec file_write_commit_request_to_wire :: "file_write_commit_request \<Rightarrow> wire_file_write_commit_request" where
  "file_write_commit_request_to_wire (FileWriteCommitRequest upload_id) =
     WireFileWriteCommitRequest upload_id"

primrec file_write_commit_request_of_wire :: "wire_file_write_commit_request \<Rightarrow> (file_write_commit_request, proto_error) result" where
  "file_write_commit_request_of_wire (WireFileWriteCommitRequest upload_id) =
     Ok (FileWriteCommitRequest upload_id)"

definition file_write_commit_request_into_wire :: "file_write_commit_request \<Rightarrow> wire_payload" where
  "file_write_commit_request_into_wire v = PFileWriteCommitRequest (file_write_commit_request_to_wire v)"

definition file_write_commit_request_from_wire :: "wire_payload \<Rightarrow> (file_write_commit_request, proto_error) result" where
  "file_write_commit_request_from_wire p =
     (case p of PFileWriteCommitRequest v \<Rightarrow> file_write_commit_request_of_wire v
      | other \<Rightarrow>
          Err (MalformedPayload (UnexpectedPayloadNamed PAYLOAD_KIND_FILE_WRITE_COMMIT_REQUEST (payload_name other))))"

lemma file_write_commit_request_of_to_wire [codec_simps]:
  "file_write_commit_request_of_wire (file_write_commit_request_to_wire v) = Ok v"
  by (cases v) (simp add: codec_simps)

interpretation file_write_commit_request: payload PAYLOAD_KIND_FILE_WRITE_COMMIT_REQUEST file_write_commit_request_into_wire file_write_commit_request_from_wire
    "\<lambda>_. True"
  by (rule payload_implI [where variant = PFileWriteCommitRequest and to_wire = file_write_commit_request_to_wire
        and of_wire = file_write_commit_request_of_wire])
    (simp_all add: file_write_commit_request_into_wire_def file_write_commit_request_from_wire_def
      PAYLOAD_KIND_FILE_WRITE_COMMIT_REQUEST_def codec_simps
      split: wire_payload.splits)

definition PAYLOAD_KIND_FILE_WRITE_COMMIT_RESPONSE :: string where
  "PAYLOAD_KIND_FILE_WRITE_COMMIT_RESPONSE = ''file_write_commit_response''"

primrec file_write_commit_response_to_wire :: "file_write_commit_response \<Rightarrow> wire_file_write_commit_response" where
  "file_write_commit_response_to_wire (FileWriteCommitResponse bytes_written err) =
     WireFileWriteCommitResponse bytes_written (opt_file_error_to_i32 err)"

primrec file_write_commit_response_of_wire :: "wire_file_write_commit_response \<Rightarrow> (file_write_commit_response, proto_error) result" where
  "file_write_commit_response_of_wire (WireFileWriteCommitResponse bytes_written err) =
     and_then (opt_file_error_from_i32 err) (\<lambda>err.
       Ok (FileWriteCommitResponse bytes_written err))"

definition file_write_commit_response_into_wire :: "file_write_commit_response \<Rightarrow> wire_payload" where
  "file_write_commit_response_into_wire v = PFileWriteCommitResponse (file_write_commit_response_to_wire v)"

definition file_write_commit_response_from_wire :: "wire_payload \<Rightarrow> (file_write_commit_response, proto_error) result" where
  "file_write_commit_response_from_wire p =
     (case p of PFileWriteCommitResponse v \<Rightarrow> file_write_commit_response_of_wire v
      | other \<Rightarrow>
          Err (MalformedPayload (UnexpectedPayloadNamed PAYLOAD_KIND_FILE_WRITE_COMMIT_RESPONSE (payload_name other))))"

lemma file_write_commit_response_of_to_wire [codec_simps]:
  "file_write_commit_response_of_wire (file_write_commit_response_to_wire v) = Ok v"
  by (cases v) (simp add: codec_simps)

interpretation file_write_commit_response: payload PAYLOAD_KIND_FILE_WRITE_COMMIT_RESPONSE file_write_commit_response_into_wire file_write_commit_response_from_wire
    "\<lambda>_. True"
  by (rule payload_implI [where variant = PFileWriteCommitResponse and to_wire = file_write_commit_response_to_wire
        and of_wire = file_write_commit_response_of_wire])
    (simp_all add: file_write_commit_response_into_wire_def file_write_commit_response_from_wire_def
      PAYLOAD_KIND_FILE_WRITE_COMMIT_RESPONSE_def codec_simps
      split: wire_payload.splits)

end
