(* ===== verification/Cpu_Allocator.thy ===== *)
theory Cpu_Allocator
  imports Proto_Types
begin

text \<open>
  The CPU ranges that pin warm-pool slots (\<open>m80-firecracker/src/warm_pool/cpu_allocator.rs\<close>): the
  range builder with its checked 32-bit arithmetic, and the proof that the ranges it hands out are
  disjoint, inside the host's CPUs and never computed by a wrapped addition.
\<close>

subsection \<open>Errors (error.rs)\<close>

text \<open>The variants of \<open>FcError\<close> the modelled parts raise. \<open>FcOther\<close> stands for an error that comes out
  of a call the model takes as a parameter, with its rendered text.\<close>
datatype fc_error =
  InvalidValue string string
| PoolEmpty nat
| OneShotConsumed
| WarmPoolFillFailed string
| WarmOwnerDrainTimeout nat
| WarmReadyProbeRejected exec_status "i32 option"
| FcOther string

subsection \<open>Building the ranges\<close>

record warm_pool_cpu_allocator =
  first_cpu :: u32
  cpus_per_slot :: u32

definition u32_to_string :: "u32 \<Rightarrow> string" where
  "u32_to_string w = nat_to_string (unat w)"

definition slot_range :: "warm_pool_cpu_allocator \<Rightarrow> u32 \<Rightarrow> u32 \<times> u32" where
  "slot_range allocator slot =
     (let start = first_cpu allocator + slot * cpus_per_slot allocator;
          stop = start + cpus_per_slot allocator - 1
      in (start, stop))"

fun range_to_string :: "u32 \<times> u32 \<Rightarrow> string" where
  "range_to_string (start, stop) =
     (if start = stop then u32_to_string start
      else u32_to_string start @ ''-'' @ u32_to_string stop)"

definition build_warm_pool_cpu_ranges_for_available ::
    "nat \<Rightarrow> warm_pool_cpu_allocator option \<Rightarrow> u32 \<Rightarrow> (string list, fc_error) result" where
  "build_warm_pool_cpu_ranges_for_available target_ready allocator available_cpu_count =
     (case allocator of
        None \<Rightarrow> Ok []
      | Some allocator \<Rightarrow>
          if cpus_per_slot allocator = 0 then
            Err (InvalidValue ''warm_pool.cpu_allocator.cpus_per_slot'' ''must be > 0'')
          else if target_ready \<ge> 2 ^ 32 then
            Err (InvalidValue ''warm_pool.target_ready'' ''does not fit in u32'')
          else
            (case checked_mul (word_of_nat target_ready) (cpus_per_slot allocator) of
               None \<Rightarrow> Err (InvalidValue ''warm_pool.cpu_allocator''
                         ''target_ready * cpus_per_slot overflowed'')
             | Some required \<Rightarrow>
                 (case checked_add (first_cpu allocator) required of
                    None \<Rightarrow> Err (InvalidValue ''warm_pool.cpu_allocator''
                              ''first_cpu + requested CPUs overflowed'')
                  | Some end_exclusive \<Rightarrow>
                      if end_exclusive > available_cpu_count then
                        Err (InvalidValue ''warm_pool.cpu_allocator''
                          (''requires CPUs '' @ u32_to_string (first_cpu allocator) @ ''..'' @
                           u32_to_string end_exclusive @ '' but host exposes '' @
                           u32_to_string available_cpu_count @ '' CPUs''))
                      else
                        Ok (map (\<lambda>slot. range_to_string (slot_range allocator (word_of_nat slot)))
                              [0..<target_ready]))))"

text \<open>\<open>available_parallelism()\<close> is the host's; it falls back to one CPU, and its count is cast to
  \<open>u32\<close>.\<close>
definition build_warm_pool_cpu_ranges ::
    "nat option \<Rightarrow> nat \<Rightarrow> warm_pool_cpu_allocator option \<Rightarrow> (string list, fc_error) result" where
  "build_warm_pool_cpu_ranges available_parallelism target_ready allocator =
     build_warm_pool_cpu_ranges_for_available target_ready allocator
       (case available_parallelism of Some count \<Rightarrow> word_of_nat count | None \<Rightarrow> 1)"

subsection \<open>Reading a range back\<close>

text \<open>The CPUs a \<open>cpuset.cpus\<close> entry names, as the kernel reads it: a number or an inclusive
  interval.\<close>

fun digits_value :: "nat \<Rightarrow> string \<Rightarrow> nat" where
  "digits_value acc [] = acc"
| "digits_value acc (c # cs) = digits_value (10 * acc + (of_char c - 48)) cs"

definition cpus_of_range :: "string \<Rightarrow> nat set" where
  "cpus_of_range s =
     (case split_on (CHR ''-'') s of
        [a] \<Rightarrow> {digits_value 0 a}
      | [a, b] \<Rightarrow> {digits_value 0 a .. digits_value 0 b}
      | _ \<Rightarrow> {})"

lemma of_char_digit_char: "d < 10 \<Longrightarrow> of_char (digit_char d) = 48 + d"
  by (simp add: digit_char_def)

lemma digits_value_append: "digits_value acc (xs @ [c]) = 10 * digits_value acc xs + (of_char c - 48)"
  by (induction xs arbitrary: acc) simp_all

lemma digits_value_nat_to_string: "digits_value 0 (nat_to_string n) = n"
proof (induction n rule: nat_to_string.induct)
  case (1 n)
  then show ?case
    by (subst nat_to_string.simps) (simp add: of_char_digit_char digits_value_append)
qed

lemma digit_char_no_dash: "d < 10 \<Longrightarrow> digit_char d \<noteq> CHR ''-''"
  using of_char_digit_char [of d] by auto

lemma nat_to_string_no_dash: "CHR ''-'' \<notin> set (nat_to_string n)"
proof (induction n rule: nat_to_string.induct)
  case (1 n)
  then show ?case
    by (subst nat_to_string.simps) (simp add: digit_char_no_dash [THEN not_sym])
qed

lemma cpus_of_range_to_string:
  "cpus_of_range (range_to_string (start, stop)) = {unat start .. unat stop}"
  by (auto simp: cpus_of_range_def u32_to_string_def nat_to_string_no_dash split_on_append
    split_on_none digits_value_nat_to_string)

subsection \<open>The ranges\<close>

lemma slot_range_unat:
  assumes "unat (first_cpu a) + target * unat (cpus_per_slot a) < 2 ^ 32"
    and "slot < target" and "cpus_per_slot a \<noteq> 0"
  shows "slot_range a (word_of_nat slot) =
    (word_of_nat (unat (first_cpu a) + slot * unat (cpus_per_slot a)),
     word_of_nat (unat (first_cpu a) + slot * unat (cpus_per_slot a) + unat (cpus_per_slot a) - 1))"
proof -
  have "unat (cpus_per_slot a) > 0" using assms(3) by (simp add: unat_gt_0)
  then show ?thesis
    by (simp add: slot_range_def Let_def of_nat_diff algebra_simps)
qed

lemma slot_range_cpus:
  assumes fits: "unat (first_cpu a) + target * unat (cpus_per_slot a) < 2 ^ 32"
    and slot: "slot < target" and pos: "cpus_per_slot a \<noteq> 0"
  shows "cpus_of_range (range_to_string (slot_range a (word_of_nat slot))) =
    {unat (first_cpu a) + slot * unat (cpus_per_slot a) ..<
     unat (first_cpu a) + Suc slot * unat (cpus_per_slot a)}"
proof -
  let ?f = "unat (first_cpu a)" and ?c = "unat (cpus_per_slot a)"
  have c: "?c > 0" using pos by (simp add: unat_gt_0)
  have "Suc slot * ?c \<le> target * ?c" using slot by (intro mult_right_mono) simp_all
  with fits have top: "?f + slot * ?c + ?c < 2 ^ 32" by simp
  have start: "unat (word_of_nat (?f + slot * ?c) :: u32) = ?f + slot * ?c"
    and stop: "unat (word_of_nat (?f + slot * ?c + ?c - 1) :: u32) = ?f + slot * ?c + ?c - 1"
    using top by (intro unat_word_of_nat; simp)+
  show ?thesis
    using c unfolding slot_range_unat [OF assms] cpus_of_range_to_string start stop by auto
qed

lemma build_ranges_Ok:
  assumes "build_warm_pool_cpu_ranges_for_available target (Some a) available = Ok ranges"
  shows "cpus_per_slot a \<noteq> 0" and "target < 2 ^ 32"
    and "unat (first_cpu a) + target * unat (cpus_per_slot a) \<le> unat available"
    and "ranges = map (\<lambda>slot. range_to_string (slot_range a (word_of_nat slot))) [0..<target]"
proof -
  from assms show pos: "cpus_per_slot a \<noteq> 0" and t: "target < 2 ^ 32"
    and "ranges = map (\<lambda>slot. range_to_string (slot_range a (word_of_nat slot))) [0..<target]"
    by (auto simp: build_warm_pool_cpu_ranges_for_available_def split: if_splits option.splits)
  from assms obtain required end_exclusive where
      "checked_mul (word_of_nat target) (cpus_per_slot a) = Some required"
      "checked_add (first_cpu a) required = Some end_exclusive" "end_exclusive \<le> available"
    by (auto simp: build_warm_pool_cpu_ranges_for_available_def not_less split: if_splits option.splits)
  with t show "unat (first_cpu a) + target * unat (cpus_per_slot a) \<le> unat available"
    by (auto dest!: checked_mul_SomeD checked_add_SomeD simp: word_le_nat_alt unat_word_of_nat)
qed

lemma build_ranges_cpus:
  assumes "build_warm_pool_cpu_ranges_for_available target (Some a) available = Ok ranges"
    and "i < target"
  shows "cpus_of_range (ranges ! i) =
      {unat (first_cpu a) + i * unat (cpus_per_slot a) ..<
       unat (first_cpu a) + Suc i * unat (cpus_per_slot a)}"
    and "unat (first_cpu a) + Suc i * unat (cpus_per_slot a) \<le> unat available"
proof -
  note ok = build_ranges_Ok [OF assms(1)]
  let ?c = "unat (cpus_per_slot a)" and ?f = "unat (first_cpu a)"
  have "unat available < 2 ^ 32" using unsigned_less [where w = available] by simp
  with ok(3) have fits: "?f + target * ?c < 2 ^ 32" by linarith
  show "cpus_of_range (ranges ! i) = {?f + i * ?c ..< ?f + Suc i * ?c}"
    using slot_range_cpus [OF fits assms(2) ok(1)] assms(2) by (simp add: ok(4))
  have "Suc i * ?c \<le> target * ?c" using assms(2) by (intro mult_right_mono) simp_all
  with ok(3) show "?f + Suc i * ?c \<le> unat available" by linarith
qed

lemma build_ranges_disjoint:
  assumes "build_warm_pool_cpu_ranges_for_available target (Some a) available = Ok ranges"
    and "i < target" and "j < target" and "i \<noteq> j"
  shows "cpus_of_range (ranges ! i) \<inter> cpus_of_range (ranges ! j) = {}"
proof -
  have le: "Suc k * unat (cpus_per_slot a) \<le> l * unat (cpus_per_slot a)" if "k < l" for k l
    using that by (intro mult_right_mono) simp_all
  from assms(4) consider "i < j" | "j < i" by linarith
  then show ?thesis
    using build_ranges_cpus(1) [OF assms(1,2)] build_ranges_cpus(1) [OF assms(1,3)]
      le [of i j] le [of j i] by cases auto
qed

lemma build_ranges_distinct:
  assumes "build_warm_pool_cpu_ranges_for_available target (Some a) available = Ok ranges"
  shows "distinct ranges"
proof -
  have "length ranges = target" by (simp add: build_ranges_Ok(4) [OF assms])
  moreover have "cpus_of_range (ranges ! i) \<noteq> {}" if "i < target" for i
    using build_ranges_cpus(1) [OF assms that] build_ranges_Ok(1) [OF assms] by (simp add: unat_gt_0)
  ultimately show ?thesis
    unfolding distinct_conv_nth using build_ranges_disjoint [OF assms] by (metis inf.idem)
qed

text \<open>When the allocator is accepted, slot \<open>i\<close> is pinned to exactly its own block of \<open>cpus_per_slot\<close>
  CPUs, every block lies inside the host's CPUs and blocks of different slots are disjoint; the
  unchecked \<open>u32\<close> additions of the loop never wrap.\<close>
theorem cpu_ranges_partition:
  assumes "build_warm_pool_cpu_ranges_for_available target (Some a) available = Ok ranges"
  shows "length ranges = target \<and>
    (\<forall>i < target. cpus_of_range (ranges ! i) =
      {unat (first_cpu a) + i * unat (cpus_per_slot a) ..<
       unat (first_cpu a) + Suc i * unat (cpus_per_slot a)} \<and>
      cpus_of_range (ranges ! i) \<subseteq> {..<unat available} \<and>
      card (cpus_of_range (ranges ! i)) = unat (cpus_per_slot a)) \<and>
    (\<forall>i < target. \<forall>j < target. i \<noteq> j \<longrightarrow>
      cpus_of_range (ranges ! i) \<inter> cpus_of_range (ranges ! j) = {})"
  using build_ranges_cpus [OF assms] build_ranges_disjoint [OF assms] build_ranges_Ok(4) [OF assms]
  by (auto intro: less_le_trans)

theorem cpu_ranges_partition_witness:
  "build_warm_pool_cpu_ranges_for_available 2 (Some \<lparr>first_cpu = 1, cpus_per_slot = 2\<rparr>) 8 =
     Ok [''1-2'', ''3-4''] \<and>
   cpus_of_range ''1-2'' = {1..<3} \<and> cpus_of_range ''1-2'' \<inter> cpus_of_range ''3-4'' = {}"
proof -
  have ok: "build_warm_pool_cpu_ranges_for_available 2 (Some \<lparr>first_cpu = 1, cpus_per_slot = 2\<rparr>) 8 =
     Ok [''1-2'', ''3-4'']"
    by (simp add: build_warm_pool_cpu_ranges_for_available_def checked_mul_def checked_add_def
      slot_range_def u32_to_string_def nat_to_string.simps upt_rec)
  have "cpus_of_range ''1-2'' = {1..<3}"
    using cpu_ranges_partition [OF ok, THEN conjunct2, THEN conjunct1, rule_format, of 0] by (simp add: numeral_3_eq_3)
  moreover have "cpus_of_range ''1-2'' \<inter> cpus_of_range ''3-4'' = {}"
    using cpu_ranges_partition [OF ok, THEN conjunct2, THEN conjunct2, rule_format, of 0 1] by simp
  ultimately show ?thesis using ok by simp
qed

end
