(* ===== verification/Warm_Pool.thy ===== *)
theory Warm_Pool
  imports Cpu_Allocator
begin

text \<open>
  The warm pool of pre-restored VMs (\<open>m80-firecracker/src/warm_pool.rs\<close> and \<open>warm_pool/inner.rs\<close>,
  \<open>fill_worker.rs\<close>, \<open>lease.rs\<close>): its state, and one function per critical section, that is per stretch
  of code that runs under the state mutex. \<open>Warm_Pool_Steps\<close> interleaves them. What runs outside the
  mutex (restoring a VM, killing one, sleeping) is a parameter or an outcome of the interleaving.

  Counters that saturate in the source are \<open>u64\<close> words; \<open>filling\<close> and \<open>leased\<close> count threads and
  leases that exist, so they are naturals.
\<close>

subsection \<open>Constants\<close>

definition MAX_FILL_THREADS :: nat where
  "MAX_FILL_THREADS = 4"

text \<open>Delays in milliseconds.\<close>
definition FILL_BACKOFF :: "nat list" where
  "FILL_BACKOFF = [50, 200, 1000, 10000]"

definition MAX_FILL_DURATION_SAMPLES :: nat where
  "MAX_FILL_DURATION_SAMPLES = 1024"

subsection \<open>State\<close>

text \<open>A running sandbox, reduced to what the pool reads of it: its VM id, whether it serves one exec
  only, and the process id \<open>is_live\<close> asks the kernel about.\<close>
record running_sandbox =
  vm_id :: string
  one_shot :: bool
  firecracker_pid :: u32

record warm_slot =
  sandbox :: running_sandbox
  cpuset_cpus :: "string option"

record warm_pool_state =
  ready :: "warm_slot list"
  filling :: nat
  leased :: nat
  discarded :: u64
  free_cpuset_cpus :: "string list"
  last_fill_error :: "string option"
  consecutive_fill_errors :: u32
  fill_attempts_total :: u64
  fill_failures_total :: u64
  lease_acquired_total :: u64
  lease_returned_total :: u64
  fill_duration_samples_us :: "u64 list"

record warm_pool_config =
  cfg_target_ready :: nat
  has_workspace :: bool
  vm_id_prefix :: string
  cpu_allocator :: "warm_pool_cpu_allocator option"

record warm_pool_inner =
  max_concurrent_vms :: u32
  config :: warm_pool_config
  target_ready :: nat
  cpu_allocator_capacity :: "nat option"
  state :: warm_pool_state
  shutdown :: bool
  next_slot :: u64

definition map_state :: "(warm_pool_state \<Rightarrow> warm_pool_state) \<Rightarrow> warm_pool_inner \<Rightarrow> warm_pool_inner" where
  "map_state f inner = inner\<lparr>state := f (state inner)\<rparr>"

lemma map_state_simps [simp]:
  "state (map_state f i) = f (state i)" "shutdown (map_state f i) = shutdown i"
  "target_ready (map_state f i) = target_ready i" "config (map_state f i) = config i"
  "next_slot (map_state f i) = next_slot i"
  "cpu_allocator_capacity (map_state f i) = cpu_allocator_capacity i"
  "max_concurrent_vms (map_state f i) = max_concurrent_vms i"
  by (simp_all add: map_state_def)

subsection \<open>State operations (inner.rs)\<close>

definition reserve_cpuset_cpus :: "warm_pool_state \<Rightarrow> string option \<times> warm_pool_state" where
  "reserve_cpuset_cpus st =
     (case free_cpuset_cpus st of
        [] \<Rightarrow> (None, st)
      | c # cs \<Rightarrow> (Some c, st\<lparr>free_cpuset_cpus := cs\<rparr>))"

definition release_cpuset_cpus :: "string option \<Rightarrow> warm_pool_state \<Rightarrow> warm_pool_state" where
  "release_cpuset_cpus cpus st =
     (case cpus of
        None \<Rightarrow> st
      | Some c \<Rightarrow> st\<lparr>free_cpuset_cpus := free_cpuset_cpus st @ [c]\<rparr>)"

definition record_fill_attempt :: "warm_pool_state \<Rightarrow> warm_pool_state" where
  "record_fill_attempt st =
     st\<lparr>fill_attempts_total := saturating_add (fill_attempts_total st) 1\<rparr>"

definition record_fill_success :: "u64 \<Rightarrow> warm_pool_state \<Rightarrow> warm_pool_state" where
  "record_fill_success duration_us st =
     (let samples = fill_duration_samples_us st;
          samples = (if length samples = MAX_FILL_DURATION_SAMPLES then tl samples else samples)
      in st\<lparr>last_fill_error := None, consecutive_fill_errors := 0,
            fill_duration_samples_us := samples @ [duration_us]\<rparr>)"

definition record_fill_failure :: "string \<Rightarrow> warm_pool_state \<Rightarrow> warm_pool_state" where
  "record_fill_failure detail st =
     st\<lparr>fill_failures_total := saturating_add (fill_failures_total st) 1,
        discarded := saturating_add (discarded st) 1,
        consecutive_fill_errors := saturating_add (consecutive_fill_errors st) 1,
        last_fill_error := Some detail\<rparr>"

definition take_fill_duration_samples_us :: "warm_pool_state \<Rightarrow> u64 list \<times> warm_pool_state" where
  "take_fill_duration_samples_us st =
     (fill_duration_samples_us st, st\<lparr>fill_duration_samples_us := []\<rparr>)"

text \<open>The loop of \<open>start_background_fill\<close>: one reservation and one more filling slot per round, until
  the CPU sets run out.\<close>
fun reserve_fills :: "bool \<Rightarrow> nat \<Rightarrow> warm_pool_state \<Rightarrow> string option list \<times> warm_pool_state" where
  "reserve_fills pinned 0 st = ([], st)"
| "reserve_fills pinned (Suc n) st =
     (let (cpus, st') = reserve_cpuset_cpus st
      in if pinned \<and> cpus = None then ([], st')
         else
           (let (fills, st'') = reserve_fills pinned n (st'\<lparr>filling := filling st' + 1\<rparr>)
            in (cpus # fills, st'')))"

text \<open>The CPU sets of the workers to spawn, and the state left. The natural subtractions are the
  source's \<open>saturating_sub\<close>.\<close>
definition start_background_fill :: "warm_pool_inner \<Rightarrow> string option list \<times> warm_pool_inner" where
  "start_background_fill inner =
     (if shutdown inner then ([], inner)
      else
        (let st = state inner;
             deficit = target_ready inner - (length (ready st) + filling st);
             available_workers = MAX_FILL_THREADS - filling st;
             fill_count = min deficit available_workers
         in if fill_count = 0 then ([], inner)
            else
              (let (fills, st') = reserve_fills (cpu_allocator (config inner) \<noteq> None) fill_count st
               in (fills, inner\<lparr>state := st'\<rparr>))))"

definition lease_finished :: "string option \<Rightarrow> warm_pool_inner \<Rightarrow> warm_pool_inner" where
  "lease_finished cpus =
     map_state (\<lambda>st. release_cpuset_cpus cpus
       (st\<lparr>leased := leased st - 1, discarded := discarded st + 1,
           lease_returned_total := saturating_add (lease_returned_total st) 1\<rparr>))"

text \<open>The critical section of \<open>discard_unleased_slot\<close>, after the sandbox has been killed.\<close>
definition discard_unleased_slot :: "warm_slot \<Rightarrow> warm_pool_inner \<Rightarrow> warm_pool_inner" where
  "discard_unleased_slot slot =
     map_state (\<lambda>st. release_cpuset_cpus (cpuset_cpus slot)
       (st\<lparr>discarded := saturating_add (discarded st) 1\<rparr>))"

record warm_pool_snapshot =
  snap_target_ready :: nat
  snap_ready :: nat
  snap_filling :: nat
  snap_leased :: nat
  snap_discarded :: u64
  snap_consecutive_fill_errors :: u32
  snap_fill_attempts_total :: u64
  snap_fill_failures_total :: u64
  snap_lease_acquired_total :: u64
  snap_lease_returned_total :: u64

definition snapshot :: "warm_pool_inner \<Rightarrow> warm_pool_snapshot" where
  "snapshot inner =
     (let st = state inner
      in \<lparr>snap_target_ready = target_ready inner, snap_ready = length (ready st),
          snap_filling = filling st, snap_leased = leased st, snap_discarded = discarded st,
          snap_consecutive_fill_errors = consecutive_fill_errors st,
          snap_fill_attempts_total = fill_attempts_total st,
          snap_fill_failures_total = fill_failures_total st,
          snap_lease_acquired_total = lease_acquired_total st,
          snap_lease_returned_total = lease_returned_total st\<rparr>)"

subsection \<open>Launching a slot (inner.rs)\<close>

text \<open>The ready probe is retried on transport errors only, five times at most. \<open>exec_ready_probe\<close> is the
  call into the guest; \<open>last_error\<close> is what \<open>expect\<close> unwraps after the loop.\<close>
fun run_ready_probe_loop ::
    "('w, exec_status \<times> i32 option, fc_error) eff \<Rightarrow> nat \<Rightarrow> fc_error \<Rightarrow> ('w, unit, fc_error) eff" where
  "run_ready_probe_loop exec_ready_probe 0 last_error w = (Err last_error, w)"
| "run_ready_probe_loop exec_ready_probe (Suc n) last_error w =
     (case exec_ready_probe w of
        (Ok (status, exit_code), w') \<Rightarrow>
          if status = ExecCompleted \<and> exit_code = Some 0 then (Ok (), w')
          else (Err (WarmReadyProbeRejected status exit_code), w')
      | (Err e, w') \<Rightarrow> run_ready_probe_loop exec_ready_probe n e w')"

definition run_ready_probe ::
    "('w, exec_status \<times> i32 option, fc_error) eff \<Rightarrow> ('w, unit, fc_error) eff" where
  "run_ready_probe exec_ready_probe =
     run_ready_probe_loop exec_ready_probe 5 (FcOther ''unreachable'')"

text \<open>\<open>restore\<close> stands for the strategy's restore (verification, admission and launch from a snapshot or
  a template), given the VM id and CPU set of the new slot; \<open>exec_ready_probe\<close> runs the probe in the
  sandbox it returns.\<close>
definition launch_slot ::
    "(string \<Rightarrow> string option \<Rightarrow> ('w, running_sandbox, fc_error) eff)
     \<Rightarrow> (running_sandbox \<Rightarrow> ('w, exec_status \<times> i32 option, fc_error) eff)
     \<Rightarrow> string option \<Rightarrow> warm_pool_inner \<Rightarrow> 'w \<Rightarrow> (warm_slot, fc_error) result \<times> warm_pool_inner \<times> 'w" where
  "launch_slot restore exec_ready_probe cpus inner w =
     (let slot_id = next_slot inner;
          inner' = inner\<lparr>next_slot := slot_id + 1\<rparr>;
          id = vm_id_prefix (config inner) @ ''-'' @ nat_to_string (unat slot_id)
      in (case restore id cpus w of
            (Err e, w1) \<Rightarrow> (Err e, inner', w1)
          | (Ok running, w1) \<Rightarrow>
              (case run_ready_probe (exec_ready_probe running) w1 of
                 (Err e, w2) \<Rightarrow> (Err e, inner', w2)
               | (Ok (), w2) \<Rightarrow> (Ok \<lparr>sandbox = running, cpuset_cpus = cpus\<rparr>, inner', w2))))"

subsection \<open>Pool operations (warm_pool.rs)\<close>

definition validate_target_ready_against_backend :: "u32 \<Rightarrow> nat \<Rightarrow> (unit, fc_error) result" where
  "validate_target_ready_against_backend max_vms target =
     (let mx = unat max_vms
      in if target \<le> mx then Ok ()
         else Err (InvalidValue ''warm_pool.target_ready''
           (''must be <= backend.max_concurrent_vms ('' @ nat_to_string mx @ '')'')))"

definition warm_pool_new ::
    "nat option \<Rightarrow> u32 \<Rightarrow> warm_pool_config \<Rightarrow> (warm_pool_inner, fc_error) result" where
  "warm_pool_new available_parallelism max_vms cfg =
     (if cfg_target_ready cfg = 0 then Err (InvalidValue ''warm_pool.target_ready'' ''must be > 0'')
      else and_then (validate_target_ready_against_backend max_vms (cfg_target_ready cfg)) (\<lambda>_.
        if has_workspace cfg then
          Err (InvalidValue ''warm_pool.sandbox.workspace''
            ''warm pool slots must be stateless: SandboxConfig::workspace must be None'')
        else and_then (build_warm_pool_cpu_ranges available_parallelism (cfg_target_ready cfg)
                         (cpu_allocator cfg)) (\<lambda>ranges.
          Ok \<lparr>max_concurrent_vms = max_vms, config = cfg, target_ready = cfg_target_ready cfg,
              cpu_allocator_capacity = map_option (\<lambda>_. cfg_target_ready cfg) (cpu_allocator cfg),
              state = \<lparr>ready = [], filling = 0, leased = 0, discarded = 0,
                       free_cpuset_cpus = ranges, last_fill_error = None,
                       consecutive_fill_errors = 0, fill_attempts_total = 0,
                       fill_failures_total = 0, lease_acquired_total = 0,
                       lease_returned_total = 0, fill_duration_samples_us = []\<rparr>,
              shutdown = False, next_slot = 0\<rparr>)))"

text \<open>\<open>fill_to_target_blocking\<close>: the check at the head of the loop with the reservation, and the two ends
  of a round.\<close>
datatype fill_check = FillDone | FillWith "string option"

definition blocking_fill_check :: "warm_pool_inner \<Rightarrow> bool" where
  "blocking_fill_check inner \<longleftrightarrow>
     shutdown inner \<or> length (ready (state inner)) \<ge> target_ready inner"

definition blocking_fill_reserve :: "warm_pool_inner \<Rightarrow> fill_check \<times> warm_pool_inner" where
  "blocking_fill_reserve inner =
     (let (cpus, st) = reserve_cpuset_cpus (state inner); inner' = inner\<lparr>state := st\<rparr>
      in if cpu_allocator (config inner) \<noteq> None \<and> cpus = None then (FillDone, inner')
         else (FillWith cpus, inner'))"

definition blocking_fill_failed :: "string option \<Rightarrow> string \<Rightarrow> warm_pool_inner \<Rightarrow> warm_pool_inner" where
  "blocking_fill_failed cpus detail =
     map_state (\<lambda>st. record_fill_failure detail (release_cpuset_cpus cpus st))"

definition blocking_fill_succeeded :: "warm_slot \<Rightarrow> u64 \<Rightarrow> warm_pool_inner \<Rightarrow> warm_pool_inner" where
  "blocking_fill_succeeded slot duration_us =
     map_state (\<lambda>st. record_fill_success duration_us (st\<lparr>ready := ready st @ [slot]\<rparr>))"

text \<open>\<open>try_lease\<close>: the pop, and the bookkeeping once the slot is known to be alive.\<close>
definition lease_pop :: "warm_pool_inner \<Rightarrow> warm_slot option \<times> warm_pool_inner" where
  "lease_pop inner =
     (case ready (state inner) of
        [] \<Rightarrow> (None, inner)
      | slot # rest \<Rightarrow> (Some slot, map_state (\<lambda>st. st\<lparr>ready := rest\<rparr>) inner))"

definition lease_acquired :: "warm_pool_inner \<Rightarrow> warm_pool_inner" where
  "lease_acquired =
     map_state (\<lambda>st. st\<lparr>leased := leased st + 1,
       lease_acquired_total := saturating_add (lease_acquired_total st) 1\<rparr>)"

text \<open>\<open>set_target_ready\<close>: validation, then under one lock the new target and the surplus popped from
  the back.\<close>
definition validate_resize :: "nat \<Rightarrow> warm_pool_inner \<Rightarrow> (unit, fc_error) result" where
  "validate_resize target inner =
     and_then (validate_target_ready_against_backend (max_concurrent_vms inner) target) (\<lambda>_.
       (case cpu_allocator_capacity inner of
          Some capacity \<Rightarrow>
            if target > capacity then
              Err (InvalidValue ''warm_pool.target_ready''
                (''must be <= initial cpuset allocator capacity ('' @ nat_to_string capacity @ '')''))
            else Ok ()
        | None \<Rightarrow> Ok ()))"

function resize_loop ::
    "nat \<Rightarrow> warm_pool_state \<Rightarrow> warm_slot list \<Rightarrow> warm_slot list \<times> warm_pool_state" where
  "resize_loop target st discard =
     (if length (ready st) > target then
        resize_loop target
          (st\<lparr>ready := butlast (ready st), discarded := saturating_add (discarded st) 1\<rparr>)
          (discard @ [last (ready st)])
      else (discard, st))"
  by pat_completeness auto
termination
  by (relation "measure (\<lambda>(target, st, discard). length (ready st))") auto

declare resize_loop.simps [simp del]

definition resize :: "nat \<Rightarrow> warm_pool_inner \<Rightarrow> warm_slot list \<times> warm_pool_inner" where
  "resize target inner =
     (let (discard, st) = resize_loop target (state inner) []
      in (discard, inner\<lparr>target_ready := target, state := st\<rparr>))"

definition resize_discarded :: "warm_slot \<Rightarrow> warm_pool_inner \<Rightarrow> warm_pool_inner" where
  "resize_discarded slot = map_state (release_cpuset_cpus (cpuset_cpus slot))"

text \<open>One turn of the two wait loops under the lock; \<open>None\<close> waits on the condition variable and tries
  again.\<close>
definition wait_for_ready_turn ::
    "nat \<Rightarrow> bool \<Rightarrow> warm_pool_inner \<Rightarrow> (unit, fc_error) result option" where
  "wait_for_ready_turn min_ready expired inner =
     (if length (ready (state inner)) \<ge> min_ready then Some (Ok ())
      else if expired then
        (case last_fill_error (state inner) of
           Some err \<Rightarrow> Some (Err (WarmPoolFillFailed err))
         | None \<Rightarrow> Some (Err (PoolEmpty (target_ready inner))))
      else None)"

definition wait_for_idle_turn :: "nat \<Rightarrow> bool \<Rightarrow> warm_pool_inner \<Rightarrow> (unit, fc_error) result option" where
  "wait_for_idle_turn timeout expired inner =
     (if filling (state inner) = 0 then Some (Ok ())
      else if expired then Some (Err (WarmOwnerDrainTimeout timeout))
      else None)"

text \<open>\<open>Drop for WarmPool\<close>: the flag, the exit test, and the drain of the ready queue (taken when the
  queue is not empty or nothing fills any more).\<close>
definition begin_shutdown :: "warm_pool_inner \<Rightarrow> warm_pool_inner" where
  "begin_shutdown inner = inner\<lparr>shutdown := True\<rparr>"

definition drop_finished :: "warm_pool_inner \<Rightarrow> bool" where
  "drop_finished inner \<longleftrightarrow> ready (state inner) = [] \<and> filling (state inner) = 0"

definition drop_drain :: "warm_pool_inner \<Rightarrow> warm_slot list \<times> warm_pool_inner" where
  "drop_drain inner =
     (let st = state inner
      in (ready st,
          inner\<lparr>state := st\<lparr>ready := [],
            discarded := saturating_add (discarded st) (word_of_nat (length (ready st)))\<rparr>\<rparr>))"

subsection \<open>The fill worker (fill_worker.rs)\<close>

text \<open>The critical sections a worker can end with, each under the lock.\<close>

definition worker_retain :: "warm_slot \<Rightarrow> u64 \<Rightarrow> warm_pool_inner \<Rightarrow> warm_pool_inner" where
  "worker_retain slot duration_us =
     map_state (\<lambda>st. record_fill_success duration_us
       (st\<lparr>filling := filling st - 1, ready := ready st @ [slot]\<rparr>))"

definition worker_shutdown_discard :: "warm_slot \<Rightarrow> u64 \<Rightarrow> warm_pool_inner \<Rightarrow> warm_pool_inner" where
  "worker_shutdown_discard slot duration_us =
     map_state (\<lambda>st. record_fill_success duration_us
       (let st' = release_cpuset_cpus (cpuset_cpus slot) (st\<lparr>filling := filling st - 1\<rparr>)
        in st'\<lparr>discarded := saturating_add (discarded st') 1\<rparr>))"

text \<open>\<open>consecutive_fill_errors as usize - 1\<close> is only evaluated after a failure was recorded.\<close>
definition backoff_delay :: "u32 \<Rightarrow> nat" where
  "backoff_delay errors = FILL_BACKOFF ! min (unat errors - 1) (length FILL_BACKOFF - 1)"

definition worker_failed :: "string option \<Rightarrow> string \<Rightarrow> warm_pool_inner \<Rightarrow> nat \<times> warm_pool_inner" where
  "worker_failed cpus detail inner =
     (let inner' = map_state (\<lambda>st. record_fill_failure detail
            (release_cpuset_cpus cpus (st\<lparr>filling := filling st - 1\<rparr>))) inner
      in (backoff_delay (consecutive_fill_errors (state inner')), inner'))"

text \<open>The drop of an armed \<open>FillGuard\<close>.\<close>
definition fill_guard_drop :: "string option \<Rightarrow> warm_pool_inner \<Rightarrow> warm_pool_inner" where
  "fill_guard_drop cpus =
     map_state (\<lambda>st. record_fill_failure ''fill worker panicked before completing slot launch''
       (release_cpuset_cpus cpus (st\<lparr>filling := filling st - 1\<rparr>)))"

subsection \<open>Leases (lease.rs)\<close>

record warm_lease =
  slot :: "warm_slot option"
  released :: bool

definition warm_lease_new :: "warm_slot \<Rightarrow> warm_lease" where
  "warm_lease_new s = \<lparr>slot = Some s, released = False\<rparr>"

definition is_one_shot :: "warm_lease \<Rightarrow> bool" where
  "is_one_shot lease = (case slot lease of None \<Rightarrow> False | Some s \<Rightarrow> one_shot (sandbox s))"

text \<open>The workers \<open>start_background_fill\<close> spawns are part of the result.\<close>
definition release_and_refill ::
    "string option \<Rightarrow> warm_lease \<times> warm_pool_inner \<Rightarrow> string option list \<times> warm_lease \<times> warm_pool_inner" where
  "release_and_refill cpus lp =
     (let (lease, inner) = lp
      in if released lease then ([], lease, inner)
         else
           (let (fills, inner') = start_background_fill (lease_finished cpus inner)
            in (fills, lease\<lparr>released := True\<rparr>, inner')))"

text \<open>\<open>f\<close> is the exec call on the sandbox and \<open>discard_sandbox\<close> the kill and delete that follow; both may
  fail. A failure of the discard is only logged.\<close>
definition exec_and_discard ::
    "(running_sandbox \<Rightarrow> ('w, 'a, fc_error) eff) \<Rightarrow> (running_sandbox \<Rightarrow> ('w, unit, fc_error) eff)
     \<Rightarrow> warm_lease \<times> warm_pool_inner \<Rightarrow> 'w
     \<Rightarrow> ('a, fc_error) result \<times> string option list \<times> (warm_lease \<times> warm_pool_inner) \<times> 'w" where
  "exec_and_discard f discard_sandbox lp w =
     (let (lease, inner) = lp
      in (case slot lease of
            None \<Rightarrow> (Err OneShotConsumed, [], lp, w)
          | Some s \<Rightarrow>
              (let (result, w1) = f (sandbox s) w;
                   (_, w2) = discard_sandbox (sandbox s) w1;
                   (fills, lp') = release_and_refill (cpuset_cpus s) (lease\<lparr>slot := None\<rparr>, inner)
               in (result, fills, lp', w2))))"

definition lease_exec ::
    "(running_sandbox \<Rightarrow> ('w, 'a, fc_error) eff) \<Rightarrow> (running_sandbox \<Rightarrow> ('w, unit, fc_error) eff)
     \<Rightarrow> warm_lease \<times> warm_pool_inner \<Rightarrow> 'w
     \<Rightarrow> ('a, fc_error) result \<times> string option list \<times> (warm_lease \<times> warm_pool_inner) \<times> 'w" where
  "lease_exec exec discard_sandbox lp w =
     (if is_one_shot (fst lp) then exec_and_discard exec discard_sandbox lp w
      else
        (case slot (fst lp) of
           None \<Rightarrow> (Err OneShotConsumed, [], lp, w)
         | Some s \<Rightarrow> (let (result, w1) = exec (sandbox s) w in (result, [], lp, w1))))"

text \<open>\<open>attach_drive_verified\<close> and \<open>detach_drive\<close>: the call consumes the sandbox and gives it back only
  on success; on failure it has discarded the VM itself and the lease is released.\<close>
definition lease_hotplug ::
    "(running_sandbox \<Rightarrow> ('w, running_sandbox, fc_error) eff)
     \<Rightarrow> warm_lease \<times> warm_pool_inner \<Rightarrow> 'w
     \<Rightarrow> (unit, fc_error) result \<times> string option list \<times> (warm_lease \<times> warm_pool_inner) \<times> 'w" where
  "lease_hotplug hotplug lp w =
     (let (lease, inner) = lp
      in (case slot lease of
            None \<Rightarrow> (Err OneShotConsumed, [], lp, w)
          | Some s \<Rightarrow>
              (case hotplug (sandbox s) w of
                 (Ok sb, w1) \<Rightarrow>
                   (Ok (), [], (lease\<lparr>slot := Some (s\<lparr>sandbox := sb\<rparr>)\<rparr>, inner), w1)
               | (Err err, w1) \<Rightarrow>
                   (let (fills, lp') =
                          release_and_refill (cpuset_cpus s) (lease\<lparr>slot := None\<rparr>, inner)
                    in (Err err, fills, lp', w1)))))"

text \<open>\<open>sandbox_mut\<close> gives every file operation of the lease its sandbox.\<close>
definition sandbox_mut :: "warm_lease \<Rightarrow> (running_sandbox, fc_error) result" where
  "sandbox_mut lease = ok_or (map_option sandbox (slot lease)) OneShotConsumed"

text \<open>\<open>WarmLease::discard\<close>, and the drop of a lease, which does nothing once the slot is gone.\<close>
definition lease_discard ::
    "(running_sandbox \<Rightarrow> ('w, unit, fc_error) eff) \<Rightarrow> warm_lease \<times> warm_pool_inner \<Rightarrow> 'w
     \<Rightarrow> (unit, fc_error) result \<times> string option list \<times> (warm_lease \<times> warm_pool_inner) \<times> 'w" where
  "lease_discard discard_sandbox lp w =
     (let (lease, inner) = lp;
          (result, cpus, w1) =
            (case slot lease of
               Some s \<Rightarrow> (case discard_sandbox (sandbox s) w of (r, w1) \<Rightarrow> (r, cpuset_cpus s, w1))
             | None \<Rightarrow> (Ok (), None, w));
          (fills, lp') = release_and_refill cpus (lease\<lparr>slot := None\<rparr>, inner)
      in (result, fills, lp', w1))"

definition lease_drop ::
    "(running_sandbox \<Rightarrow> ('w, unit, fc_error) eff) \<Rightarrow> warm_lease \<times> warm_pool_inner \<Rightarrow> 'w
     \<Rightarrow> string option list \<times> (warm_lease \<times> warm_pool_inner) \<times> 'w" where
  "lease_drop discard_sandbox lp w =
     (let (lease, inner) = lp
      in (case slot lease of
            None \<Rightarrow> ([], lp, w)
          | Some s \<Rightarrow>
              (let (_, w1) = discard_sandbox (sandbox s) w;
                   (fills, lp') = release_and_refill (cpuset_cpus s) (lease\<lparr>slot := None\<rparr>, inner)
               in (fills, lp', w1))))"

end
