(* ===== verification/Warm_Pool_Steps.thy ===== *)
theory Warm_Pool_Steps
  imports Warm_Pool "HOL-Library.Multiset"
begin

text \<open>
  The warm pool as a concurrent system. A configuration is the pool and the multiset of activities
  under way: fill workers, a blocking fill, callers in the middle of \<open>try_lease\<close> or
  \<open>set_target_ready\<close>, leases in the hands of callers, and the drop of the pool. A step runs one
  critical section of one activity, or lets what happens outside the lock (a restore, a kill, a
  panic) come out one way or the other; any interleaving the lock allows is a sequence of steps.
\<close>

subsection \<open>Activities\<close>

text \<open>Constructors follow the control points of the source between two critical sections. A lease whose
  caller unwinds from a panic inside a one-shot exec, and slots killed by the pool's drop, stay
  behind as \<open>LeaseUnwound\<close> and \<open>PoolDropped\<close>, so that what they hold remains accounted for.\<close>

datatype activity =
  WorkerStart "string option"
| WorkerLaunching "string option"
| WorkerLaunched warm_slot u64
| WorkerRetain warm_slot u64
| WorkerDiscard warm_slot u64
| WorkerFailed "string option" string
| WorkerSleep nat
| Refill
| FillerLoop
| FillerReserve
| FillerLaunch "string option"
| FillerLaunching "string option"
| FillerLaunched warm_slot u64
| FillerFailed "string option" string
| LesseePopped warm_slot
| LesseeDead warm_slot
| LesseeRetry
| Lease warm_slot
| LeaseTaken "string option"
| LeaseUnwound "string option"
| ResizeDiscard "warm_slot list"
| PoolDropped "warm_slot list"

text \<open>Activities inside a call on \<open>&WarmPool\<close>: they borrow the pool, so it cannot be dropped while one
  of them runs.\<close>
fun borrows_pool :: "activity \<Rightarrow> bool" where
  "borrows_pool FillerLoop = True"
| "borrows_pool FillerReserve = True"
| "borrows_pool (FillerLaunch _) = True"
| "borrows_pool (FillerLaunching _) = True"
| "borrows_pool (FillerLaunched _ _) = True"
| "borrows_pool (FillerFailed _ _) = True"
| "borrows_pool (LesseePopped _) = True"
| "borrows_pool (LesseeDead _) = True"
| "borrows_pool LesseeRetry = True"
| "borrows_pool (ResizeDiscard _) = True"
| "borrows_pool _ = False"

definition workers :: "string option list \<Rightarrow> activity multiset" where
  "workers fills = mset (map WorkerStart fills)"

subsection \<open>Steps\<close>

text \<open>One step of one activity: the pool before, the activity, the pool after, and the activities it
  leaves.\<close>
inductive act_step :: "warm_pool_inner \<Rightarrow> activity \<Rightarrow> warm_pool_inner \<Rightarrow> activity multiset \<Rightarrow> bool" where
  worker_start: "act_step i (WorkerStart c) (map_state record_fill_attempt i) {#WorkerLaunching c#}"
| worker_spawn_panic: "act_step i (WorkerStart c) (fill_guard_drop c i) {#}"
| worker_launch_ok:
    "cpuset_cpus s = c \<Longrightarrow>
     act_step i (WorkerLaunching c) (i\<lparr>next_slot := next_slot i + 1\<rparr>) {#WorkerLaunched s d#}"
| worker_launch_err:
    "act_step i (WorkerLaunching c) (i\<lparr>next_slot := next_slot i + 1\<rparr>) {#WorkerFailed c detail#}"
| worker_sees_shutdown: "shutdown i \<Longrightarrow> act_step i (WorkerLaunched s d) i {#WorkerDiscard s d#}"
| worker_sees_running: "\<not> shutdown i \<Longrightarrow> act_step i (WorkerLaunched s d) i {#WorkerRetain s d#}"
| worker_discards: "act_step i (WorkerDiscard s d) (worker_shutdown_discard s d i) {#}"
| worker_discard_panic: "act_step i (WorkerDiscard s d) (fill_guard_drop (cpuset_cpus s) i) {#}"
| worker_retains: "act_step i (WorkerRetain s d) (worker_retain s d i) {#}"
| worker_fails:
    "worker_failed c detail i = (delay, i') \<Longrightarrow>
     act_step i (WorkerFailed c detail) i' {#WorkerSleep delay#}"
| worker_wakes:
    "start_background_fill i = (fills, i') \<Longrightarrow> act_step i (WorkerSleep delay) i' (workers fills)"
| refills: "start_background_fill i = (fills, i') \<Longrightarrow> act_step i Refill i' (workers fills)"
| filler_done: "blocking_fill_check i \<Longrightarrow> act_step i FillerLoop i {#}"
| filler_continues: "\<not> blocking_fill_check i \<Longrightarrow> act_step i FillerLoop i {#FillerReserve#}"
| filler_reserves:
    "blocking_fill_reserve i = (FillWith c, i') \<Longrightarrow> act_step i FillerReserve i' {#FillerLaunch c#}"
| filler_exhausted: "blocking_fill_reserve i = (FillDone, i') \<Longrightarrow> act_step i FillerReserve i' {#}"
| filler_attempt:
    "act_step i (FillerLaunch c) (map_state record_fill_attempt i) {#FillerLaunching c#}"
| filler_launch_ok:
    "cpuset_cpus s = c \<Longrightarrow>
     act_step i (FillerLaunching c) (i\<lparr>next_slot := next_slot i + 1\<rparr>) {#FillerLaunched s d#}"
| filler_launch_err:
    "act_step i (FillerLaunching c) (i\<lparr>next_slot := next_slot i + 1\<rparr>) {#FillerFailed c detail#}"
| filler_fails: "act_step i (FillerFailed c detail) (blocking_fill_failed c detail i) {#}"
| filler_succeeds:
    "act_step i (FillerLaunched s d) (blocking_fill_succeeded s d i) {#FillerLoop#}"
| lessee_finds_live: "act_step i (LesseePopped s) (lease_acquired i) {#Refill, Lease s#}"
| lessee_finds_dead: "act_step i (LesseePopped s) i {#LesseeDead s#}"
| lessee_discards: "act_step i (LesseeDead s) (discard_unleased_slot s i) {#LesseeRetry#}"
| lessee_pops_again:
    "lease_pop i = (Some s, i') \<Longrightarrow> act_step i LesseeRetry i' {#LesseePopped s#}"
| lessee_gives_up: "lease_pop i = (None, i') \<Longrightarrow> act_step i LesseeRetry i' {#Refill#}"
| lease_takes_slot: "act_step i (Lease s) i {#LeaseTaken (cpuset_cpus s)#}"
| lease_keeps_slot: "act_step i (Lease s) i {#Lease (s\<lparr>sandbox := sb\<rparr>)#}"
| lease_finishes: "act_step i (LeaseTaken c) (lease_finished c i) {#Refill#}"
| lease_unwinds: "act_step i (LeaseTaken c) i {#LeaseUnwound c#}"
| resize_discards:
    "act_step i (ResizeDiscard (s # ss)) (resize_discarded s i) {#ResizeDiscard ss#}"
| resize_refills: "act_step i (ResizeDiscard []) i {#Refill#}"

text \<open>A configuration steps when one of its activities does, when a caller starts a call, or when the
  owner drops the pool.\<close>
type_synonym pool_config = "warm_pool_inner \<times> activity multiset"

inductive pool_step :: "pool_config \<Rightarrow> pool_config \<Rightarrow> bool" where
  activity: "act_step i a i' B \<Longrightarrow> pool_step (i, add_mset a A) (i', B + A)"
| call_background_fill:
    "\<not> shutdown i \<Longrightarrow> start_background_fill i = (fills, i') \<Longrightarrow> pool_step (i, A) (i', workers fills + A)"
| call_blocking_fill: "\<not> shutdown i \<Longrightarrow> pool_step (i, A) (i, add_mset FillerLoop A)"
| call_try_lease:
    "\<not> shutdown i \<Longrightarrow> lease_pop i = (Some s, i') \<Longrightarrow> pool_step (i, A) (i', add_mset (LesseePopped s) A)"
| call_resize:
    "\<not> shutdown i \<Longrightarrow> 0 < target \<Longrightarrow> validate_resize target i = Ok () \<Longrightarrow> resize target i = (ss, i') \<Longrightarrow>
     pool_step (i, A) (i', add_mset (ResizeDiscard ss) A)"
| call_take_samples:
    "\<not> shutdown i \<Longrightarrow> take_fill_duration_samples_us (state i) = (samples, st) \<Longrightarrow>
     pool_step (i, A) (i\<lparr>state := st\<rparr>, A)"
| pool_drop: "\<not> shutdown i \<Longrightarrow> (\<forall>a \<in># A. \<not> borrows_pool a) \<Longrightarrow> pool_step (i, A) (begin_shutdown i, A)"
| drop_drains:
    "shutdown i \<Longrightarrow> ready (state i) \<noteq> [] \<Longrightarrow> drop_drain i = (ss, i') \<Longrightarrow>
     pool_step (i, A) (i', add_mset (PoolDropped ss) A)"

subsection \<open>What each activity holds\<close>

fun act_opts :: "activity \<Rightarrow> string option list" where
  "act_opts (WorkerStart c) = [c]"
| "act_opts (WorkerLaunching c) = [c]"
| "act_opts (WorkerLaunched s _) = [cpuset_cpus s]"
| "act_opts (WorkerRetain s _) = [cpuset_cpus s]"
| "act_opts (WorkerDiscard s _) = [cpuset_cpus s]"
| "act_opts (WorkerFailed c _) = [c]"
| "act_opts (FillerLaunch c) = [c]"
| "act_opts (FillerLaunching c) = [c]"
| "act_opts (FillerLaunched s _) = [cpuset_cpus s]"
| "act_opts (FillerFailed c _) = [c]"
| "act_opts (LesseePopped s) = [cpuset_cpus s]"
| "act_opts (LesseeDead s) = [cpuset_cpus s]"
| "act_opts (Lease s) = [cpuset_cpus s]"
| "act_opts (LeaseTaken c) = [c]"
| "act_opts (LeaseUnwound c) = [c]"
| "act_opts (ResizeDiscard ss) = map cpuset_cpus ss"
| "act_opts (PoolDropped ss) = map cpuset_cpus ss"
| "act_opts _ = []"

fun act_filling :: "activity \<Rightarrow> nat" where
  "act_filling (WorkerStart _) = 1"
| "act_filling (WorkerLaunching _) = 1"
| "act_filling (WorkerLaunched _ _) = 1"
| "act_filling (WorkerRetain _ _) = 1"
| "act_filling (WorkerDiscard _ _) = 1"
| "act_filling (WorkerFailed _ _) = 1"
| "act_filling _ = 0"

fun act_leased :: "activity \<Rightarrow> nat" where
  "act_leased (Lease _) = 1"
| "act_leased (LeaseTaken _) = 1"
| "act_leased (LeaseUnwound _) = 1"
| "act_leased _ = 0"

definition some_cpus :: "string option list \<Rightarrow> string multiset" where
  "some_cpus cs = mset (concat (map (\<lambda>c. case c of None \<Rightarrow> [] | Some x \<Rightarrow> [x]) cs))"

definition state_cpus :: "warm_pool_state \<Rightarrow> string multiset" where
  "state_cpus st = mset (free_cpuset_cpus st) + some_cpus (map cpuset_cpus (ready st))"

abbreviation acts_cpus :: "activity multiset \<Rightarrow> string multiset" where
  "acts_cpus A \<equiv> (\<Sum>a \<in># A. some_cpus (act_opts a))"

abbreviation acts_filling :: "activity multiset \<Rightarrow> nat" where
  "acts_filling A \<equiv> (\<Sum>a \<in># A. act_filling a)"

abbreviation acts_leased :: "activity multiset \<Rightarrow> nat" where
  "acts_leased A \<equiv> (\<Sum>a \<in># A. act_leased a)"

lemma some_cpus_simps [simp]:
  "some_cpus [] = {#}" "some_cpus (None # cs) = some_cpus cs"
  "some_cpus (Some c # cs) = add_mset c (some_cpus cs)"
  "some_cpus (cs @ ds) = some_cpus cs + some_cpus ds"
  by (simp_all add: some_cpus_def)

lemma some_cpus_Cons: "some_cpus (c # cs) = some_cpus [c] + some_cpus cs"
  by (cases c) simp_all

named_theorems pool_ops \<open>the critical sections of the pool, unfolded\<close>

lemmas pool_op_defs [pool_ops] =
  record_fill_attempt_def record_fill_success_def record_fill_failure_def lease_finished_def
  discard_unleased_slot_def blocking_fill_failed_def blocking_fill_succeeded_def lease_acquired_def
  resize_discarded_def worker_retain_def worker_shutdown_discard_def worker_failed_def
  fill_guard_drop_def release_cpuset_cpus_def begin_shutdown_def drop_drain_def
  take_fill_duration_samples_us_def Let_def

lemma state_cpus_release [simp]:
  "state_cpus (release_cpuset_cpus c st) = state_cpus st + some_cpus [c]"
  by (cases c) (simp_all add: state_cpus_def release_cpuset_cpus_def)

lemma release_simps [simp]:
  "ready (release_cpuset_cpus c st) = ready st" "filling (release_cpuset_cpus c st) = filling st"
  "leased (release_cpuset_cpus c st) = leased st"
  by (simp_all add: release_cpuset_cpus_def split: option.splits)

lemma reserve_cpuset_cpus_effect:
  assumes "reserve_cpuset_cpus st = (c, st')"
  shows "state_cpus st = state_cpus st' + some_cpus [c]" "ready st' = ready st"
    "filling st' = filling st" "leased st' = leased st"
  using assms by (auto simp: reserve_cpuset_cpus_def state_cpus_def split: list.splits)

lemma state_cpus_filling [simp]: "state_cpus (st\<lparr>filling := n\<rparr>) = state_cpus st"
  by (simp add: state_cpus_def)

lemma reserve_fills_effect:
  assumes "reserve_fills pinned n st = (fills, st')"
  shows "state_cpus st = state_cpus st' + some_cpus fills \<and> ready st' = ready st \<and>
    filling st' = filling st + length fills \<and> leased st' = leased st \<and> length fills \<le> n \<and>
    (pinned \<longrightarrow> None \<notin> set fills)"
  using assms
proof (induction n arbitrary: st fills)
  case (Suc n)
  obtain c st1 where r: "reserve_cpuset_cpus st = (c, st1)" by fastforce
  obtain fs st2 where rest: "reserve_fills pinned n (st1\<lparr>filling := filling st1 + 1\<rparr>) = (fs, st2)"
    by fastforce
  show ?case
  proof (cases "pinned \<and> c = None")
    case True
    then show ?thesis
      using Suc.prems r reserve_cpuset_cpus_effect [OF r] by auto
  next
    case False
    with Suc.prems r rest have "fills = c # fs" "st' = st2" by auto
    with Suc.IH [of "st1\<lparr>filling := filling st1 + 1\<rparr>" fs] rest False
      reserve_cpuset_cpus_effect [OF r] some_cpus_Cons [of c fs]
    show ?thesis by (auto simp: ac_simps)
  qed
qed auto

lemma start_background_fill_effect:
  assumes "start_background_fill i = (fills, i')"
  shows "state_cpus (state i) = state_cpus (state i') + some_cpus fills"
    and "ready (state i') = ready (state i)" and "leased (state i') = leased (state i)"
    and "filling (state i') = filling (state i) + length fills"
    and "length fills \<le> min (target_ready i - (length (ready (state i)) + filling (state i)))
      (MAX_FILL_THREADS - filling (state i))"
    and "cpu_allocator (config i) \<noteq> None \<Longrightarrow> None \<notin> set fills"
    and "config i' = config i" and "shutdown i' = shutdown i" and "target_ready i' = target_ready i"
    and "next_slot i' = next_slot i" and "shutdown i \<Longrightarrow> fills = []"
    and "max_concurrent_vms i' = max_concurrent_vms i"
    and "cpu_allocator_capacity i' = cpu_allocator_capacity i"
  using assms
  by (auto simp: start_background_fill_def Let_def split: if_splits prod.splits
    dest!: reserve_fills_effect)

lemma workers_effect [simp]:
  "acts_cpus (workers fills) = some_cpus fills" "acts_filling (workers fills) = length fills"
  "acts_leased (workers fills) = 0"
proof -
  show "acts_cpus (workers fills) = some_cpus fills"
  proof (induction fills)
    case (Cons c fills)
    then show ?case by (cases c) (simp_all add: workers_def)
  qed (simp add: workers_def)
qed (induction fills; simp add: workers_def)+

lemma workers_member [simp]: "a \<in># workers fills \<longleftrightarrow> (\<exists>c \<in> set fills. a = WorkerStart c)"
  by (auto simp: workers_def)

lemma resize_loop_effect:
  "resize_loop target st discard =
    (discard @ rev (drop target (ready st)), snd (resize_loop target st discard)) \<and>
   ready (snd (resize_loop target st discard)) = take target (ready st) \<and>
   free_cpuset_cpus (snd (resize_loop target st discard)) = free_cpuset_cpus st \<and>
   filling (snd (resize_loop target st discard)) = filling st \<and>
   leased (snd (resize_loop target st discard)) = leased st \<and>
   fill_duration_samples_us (snd (resize_loop target st discard)) = fill_duration_samples_us st"
proof (induction target st discard rule: resize_loop.induct)
  case (1 target st discard)
  show ?case
  proof (cases "target < length (ready st)")
    case True
    then have "ready st \<noteq> []" by auto
    then obtain xs x where r: "ready st = xs @ [x]" by (cases "ready st" rule: rev_cases) auto
    show ?thesis
      using 1 [OF True] True r by (subst (1 2 3 4 5 6 7) resize_loop.simps) (auto simp: butlast_append)
  next
    case False
    then show ?thesis by (subst (1 2 3 4 5 6 7) resize_loop.simps) auto
  qed
qed

lemma resize_effect:
  assumes "resize target i = (ss, i')"
  shows "ss = rev (drop target (ready (state i)))" and "ready (state i') = take target (ready (state i))"
    and "free_cpuset_cpus (state i') = free_cpuset_cpus (state i)"
    and "filling (state i') = filling (state i)" and "leased (state i') = leased (state i)"
    and "fill_duration_samples_us (state i') = fill_duration_samples_us (state i)"
    and "target_ready i' = target" and "config i' = config i" and "shutdown i' = shutdown i"
    and "max_concurrent_vms i' = max_concurrent_vms i"
    and "cpu_allocator_capacity i' = cpu_allocator_capacity i"
  using assms resize_loop_effect [of target "state i" "[]"]
  by (auto simp: resize_def split: prod.splits)

subsection \<open>Effects of a step\<close>

lemma state_cpus_other [simp]:
  "state_cpus (st\<lparr>leased := n\<rparr>) = state_cpus st"
  "state_cpus (st\<lparr>discarded := w\<rparr>) = state_cpus st"
  "state_cpus (st\<lparr>last_fill_error := e\<rparr>) = state_cpus st"
  "state_cpus (st\<lparr>consecutive_fill_errors := n'\<rparr>) = state_cpus st"
  "state_cpus (st\<lparr>fill_attempts_total := w\<rparr>) = state_cpus st"
  "state_cpus (st\<lparr>fill_failures_total := w\<rparr>) = state_cpus st"
  "state_cpus (st\<lparr>lease_acquired_total := w\<rparr>) = state_cpus st"
  "state_cpus (st\<lparr>lease_returned_total := w\<rparr>) = state_cpus st"
  "state_cpus (st\<lparr>fill_duration_samples_us := ws\<rparr>) = state_cpus st"
  "state_cpus (st\<lparr>ready := ready st @ [sl]\<rparr>) = state_cpus st + some_cpus [cpuset_cpus sl]"
  by (simp_all add: state_cpus_def)

lemma lease_pop_effect:
  assumes "lease_pop i = (r, i')"
  shows "state_cpus (state i) = state_cpus (state i') + (case r of None \<Rightarrow> {#} | Some s \<Rightarrow> some_cpus [cpuset_cpus s])"
    and "filling (state i') = filling (state i)" and "leased (state i') = leased (state i)"
    and "config i' = config i" and "shutdown i' = shutdown i"
    and "set (ready (state i')) \<union> set_option r = set (ready (state i))"
    and "ready (state i) = [] \<longleftrightarrow> r = None"
    and "r = None \<Longrightarrow> i' = i"
    and "free_cpuset_cpus (state i') = free_cpuset_cpus (state i)"
  using assms
  by (auto simp: lease_pop_def state_cpus_def some_cpus_Cons [of "cpuset_cpus _" "map _ _"]
    split: list.splits)

lemma blocking_fill_reserve_effect:
  assumes "blocking_fill_reserve i = (r, i')"
  shows "state_cpus (state i) =
      state_cpus (state i') + (case r of FillDone \<Rightarrow> {#} | FillWith c \<Rightarrow> some_cpus [c])"
    and "filling (state i') = filling (state i)" and "leased (state i') = leased (state i)"
    and "ready (state i') = ready (state i)" and "config i' = config i" and "shutdown i' = shutdown i"
  using assms
  by (auto simp: blocking_fill_reserve_def Let_def split: prod.splits if_splits
    dest: reserve_cpuset_cpus_effect)

text \<open>No step creates or loses a CPU set: what the pool and the activity held before is what the pool
  and its successors hold after.\<close>
lemma act_step_cpus:
  "act_step i a i' B \<Longrightarrow> state_cpus (state i) + some_cpus (act_opts a) = state_cpus (state i') + acts_cpus B"
proof (induction rule: act_step.induct)
  case (resize_discards i s ss)
  then show ?case by (simp add: resize_discarded_def some_cpus_Cons [of _ "map _ _"])
next
  case (worker_retains i s d)
  then show ?case by (simp add: worker_retain_def record_fill_success_def state_cpus_def Let_def)
next
  case (worker_wakes i fills i' delay)
  then show ?case by (simp add: start_background_fill_effect(1))
next
  case (refills i fills i')
  then show ?case by (simp add: start_background_fill_effect(1))
next
  case (filler_reserves i c i')
  then show ?case by (simp add: blocking_fill_reserve_effect(1))
next
  case (filler_exhausted i i')
  then show ?case by (simp add: blocking_fill_reserve_effect(1))
next
  case (lessee_pops_again i s i')
  then show ?case by (simp add: lease_pop_effect(1))
next
  case (lessee_gives_up i i')
  then show ?case by (simp add: lease_pop_effect(1))
qed (auto simp: record_fill_attempt_def record_fill_success_def record_fill_failure_def lease_finished_def
  discard_unleased_slot_def blocking_fill_failed_def blocking_fill_succeeded_def lease_acquired_def
  worker_shutdown_discard_def worker_failed_def fill_guard_drop_def Let_def)

lemmas spawn_effect = start_background_fill_effect(2-4)

lemma act_step_filling:
  "act_step i a i' B \<Longrightarrow> act_filling a \<le> filling (state i) \<Longrightarrow>
     filling (state i) + acts_filling B = filling (state i') + act_filling a"
  by (induction rule: act_step.induct)
    (auto simp: pool_ops spawn_effect blocking_fill_reserve_effect lease_pop_effect split: option.splits)

lemma act_step_leased:
  "act_step i a i' B \<Longrightarrow> act_leased a \<le> leased (state i) \<Longrightarrow>
     leased (state i) + acts_leased B = leased (state i') + act_leased a"
  by (induction rule: act_step.induct)
    (auto simp: pool_ops spawn_effect blocking_fill_reserve_effect lease_pop_effect split: option.splits)

lemma act_step_constant:
  "act_step i a i' B \<Longrightarrow> config i' = config i \<and> shutdown i' = shutdown i \<and> target_ready i' = target_ready i \<and>
     max_concurrent_vms i' = max_concurrent_vms i \<and> cpu_allocator_capacity i' = cpu_allocator_capacity i"
  by (induction rule: act_step.induct)
    (auto simp: pool_ops lease_pop_def blocking_fill_reserve_def start_background_fill_effect
      split: list.splits prod.splits if_splits)

text \<open>A pinned pool never holds or hands out a slot without a CPU set.\<close>
definition pool_opts :: "warm_pool_state \<Rightarrow> string option set" where
  "pool_opts st = set (map cpuset_cpus (ready st))"

lemma act_step_opts:
  "act_step i a i' B \<Longrightarrow> cpu_allocator (config i) \<noteq> None \<Longrightarrow> None \<notin> pool_opts (state i) \<Longrightarrow>
     None \<notin> set (act_opts a) \<Longrightarrow>
     None \<notin> pool_opts (state i') \<and> (\<forall>b \<in># B. None \<notin> set (act_opts b))"
proof (induction rule: act_step.induct)
  case (worker_wakes i fills i' delay)
  from start_background_fill_effect(2,6) [OF worker_wakes(1)] worker_wakes show ?case
    by (auto simp: pool_opts_def)
next
  case (refills i fills i')
  from start_background_fill_effect(2,6) [OF refills(1)] refills show ?case
    by (auto simp: pool_opts_def)
next
  case (filler_reserves i c i')
  then show ?case
    by (auto simp: pool_opts_def blocking_fill_reserve_def Let_def split: prod.splits if_splits
      dest: reserve_cpuset_cpus_effect)
next
  case (filler_exhausted i i')
  then show ?case by (simp add: pool_opts_def blocking_fill_reserve_effect)
next
  case (lessee_pops_again i s i')
  from lease_pop_effect(6) [OF lessee_pops_again(1)] lessee_pops_again show ?case
    by (auto simp: pool_opts_def)
next
  case (lessee_gives_up i i')
  with lease_pop_effect(8) [OF lessee_gives_up(1)] show ?case by simp
qed (auto simp: pool_opts_def pool_ops split: option.splits)

lemma act_step_fill_limit:
  "act_step i a i' B \<Longrightarrow> filling (state i) \<le> MAX_FILL_THREADS \<Longrightarrow> filling (state i') \<le> MAX_FILL_THREADS"
proof (induction rule: act_step.induct)
  case (worker_wakes i fills i' delay)
  then show ?case using start_background_fill_effect(4,5) [of i fills i'] by (simp add: le_diff_conv2)
next
  case (refills i fills i')
  then show ?case using start_background_fill_effect(4,5) [of i fills i'] by (simp add: le_diff_conv2)
qed (auto simp: pool_ops blocking_fill_reserve_effect lease_pop_effect split: option.splits)

lemma act_step_borrows:
  "act_step i a i' B \<Longrightarrow> \<not> borrows_pool a \<Longrightarrow> b \<in># B \<Longrightarrow> \<not> borrows_pool b"
  by (induction rule: act_step.induct) auto

subsection \<open>The invariant\<close>

definition pool_inv :: "string list \<Rightarrow> warm_pool_config \<Rightarrow> pool_config \<Rightarrow> bool" where
  "pool_inv ranges cfg c \<longleftrightarrow>
     (case c of (i, A) \<Rightarrow>
        config i = cfg \<and>
        state_cpus (state i) + acts_cpus A = mset ranges \<and>
        filling (state i) = acts_filling A \<and> filling (state i) \<le> MAX_FILL_THREADS \<and>
        leased (state i) = acts_leased A \<and>
        (cpu_allocator cfg \<noteq> None \<longrightarrow>
           None \<notin> pool_opts (state i) \<and> (\<forall>a \<in># A. None \<notin> set (act_opts a))) \<and>
        (shutdown i \<longrightarrow> (\<forall>a \<in># A. \<not> borrows_pool a)) \<and>
        0 < target_ready i \<and> target_ready i \<le> unat (max_concurrent_vms i) \<and>
        (\<forall>cap. cpu_allocator_capacity i = Some cap \<longrightarrow> target_ready i \<le> cap))"

lemma pool_inv_activity:
  assumes step: "act_step i a i' B" and inv: "pool_inv ranges cfg (i, add_mset a A)"
  shows "pool_inv ranges cfg (i', B + A)"
proof -
  note const = act_step_constant [OF step]
  have fill: "act_filling a \<le> filling (state i)" and lease: "act_leased a \<le> leased (state i)"
    using inv by (auto simp: pool_inv_def)
  have "state_cpus (state i') + acts_cpus (B + A) =
      (state_cpus (state i) + some_cpus (act_opts a)) + acts_cpus A"
    unfolding act_step_cpus [OF step] by (simp add: ac_simps)
  also have "\<dots> = mset ranges" using inv by (simp add: pool_inv_def ac_simps)
  finally have "state_cpus (state i') + acts_cpus (B + A) = mset ranges" .
  moreover have "filling (state i') = acts_filling (B + A)"
    using inv act_step_filling [OF step fill] by (simp add: pool_inv_def)
  moreover have "leased (state i') = acts_leased (B + A)"
    using inv act_step_leased [OF step lease] by (simp add: pool_inv_def)
  moreover have "None \<notin> pool_opts (state i') \<and> (\<forall>b \<in># B + A. None \<notin> set (act_opts b))"
    if "cpu_allocator cfg \<noteq> None"
    using that inv act_step_opts [OF step] by (auto simp: pool_inv_def)
  moreover have "\<forall>b \<in># B + A. \<not> borrows_pool b" if "shutdown i'"
    using that inv const act_step_borrows [OF step] by (auto simp: pool_inv_def)
  ultimately show ?thesis
    using inv const act_step_fill_limit [OF step] by (simp add: pool_inv_def)
qed

lemma validate_resize_Ok:
  assumes "validate_resize target i = Ok ()"
  shows "target \<le> unat (max_concurrent_vms i)"
    and "cpu_allocator_capacity i = Some cap \<Longrightarrow> target \<le> cap"
  using assms
  by (auto simp: validate_resize_def validate_target_ready_against_backend_def Let_def result_simps
    split: if_splits option.splits)

lemma some_cpus_rev [simp]: "some_cpus (rev cs) = some_cpus cs"
  by (induction cs) (simp_all add: some_cpus_Cons [of _ "_ # _"] some_cpus_def)

lemma state_cpus_split:
  "state_cpus st = mset (free_cpuset_cpus st) +
     (some_cpus (map cpuset_cpus (take n (ready st))) + some_cpus (map cpuset_cpus (drop n (ready st))))"
  by (metis append_take_drop_id map_append some_cpus_simps(4) state_cpus_def)

lemma pool_inv_step:
  assumes "pool_step c c'" and "pool_inv ranges cfg c"
  shows "pool_inv ranges cfg c'"
  using assms
proof (induction rule: pool_step.induct)
  case (activity i a i' B A)
  then show ?case by (rule pool_inv_activity)
next
  case (call_background_fill i fills i' A)
  then have "pool_inv ranges cfg (i, add_mset Refill A)" by (simp add: pool_inv_def)
  from pool_inv_activity [OF refills [OF call_background_fill(2)] this] show ?case .
next
  case (call_blocking_fill i A)
  then show ?case by (simp add: pool_inv_def)
next
  case (call_try_lease i s i' A)
  then have "pool_inv ranges cfg (i, add_mset LesseeRetry A)" by (simp add: pool_inv_def)
  from pool_inv_activity [OF lessee_pops_again [OF call_try_lease(2)] this] show ?case by simp
next
  case (call_resize i target ss i' A)
  note eff = resize_effect [OF call_resize(4)]
  have "state_cpus (state i) = state_cpus (state i') + some_cpus (map cpuset_cpus ss)"
    using eff state_cpus_split [of "state i" target] by (simp add: state_cpus_def ac_simps flip: rev_map)
  moreover have "pool_opts (state i') \<union> cpuset_cpus ` set ss = pool_opts (state i)"
    unfolding pool_opts_def eff
    by (metis append_take_drop_id image_Un set_append set_map set_rev)
  ultimately show ?case
    using call_resize eff validate_resize_Ok [OF call_resize(3)]
    by (auto simp: pool_inv_def ac_simps)
next
  case (call_take_samples i samples st A)
  then show ?case by (auto simp: pool_inv_def take_fill_duration_samples_us_def pool_opts_def)
next
  case (pool_drop i A)
  then show ?case by (simp add: pool_inv_def begin_shutdown_def)
next
  case (drop_drains i ss i' A)
  then show ?case
    by (auto simp: pool_inv_def drop_drain_def Let_def state_cpus_def pool_opts_def ac_simps)
qed

end
