(* ===== verification/Warm_Pool_Properties.thy ===== *)
theory Warm_Pool_Properties
  imports Warm_Pool_Steps
begin

text \<open>
  What the warm pool promises: CPU sets are never shared and never lost, workers and leases are
  counted exactly, resizing touches only surplus ready slots, a lease is used up by its one exec, and
  a dropped pool stays empty. The stall of a fill round that succeeds is proved here too.
\<close>

subsection \<open>Reachable configurations\<close>

definition pool_init :: "nat option \<Rightarrow> u32 \<Rightarrow> warm_pool_config \<Rightarrow> pool_config \<Rightarrow> bool" where
  "pool_init parallelism max_vms cfg c \<longleftrightarrow>
     snd c = {#} \<and> warm_pool_new parallelism max_vms cfg = Ok (fst c)"

definition initial_ranges :: "nat option \<Rightarrow> warm_pool_config \<Rightarrow> string list" where
  "initial_ranges parallelism cfg =
     (case build_warm_pool_cpu_ranges parallelism (cfg_target_ready cfg) (cpu_allocator cfg) of
        Ok ranges \<Rightarrow> ranges | Err _ \<Rightarrow> [])"

lemma pool_init_inv:
  "pool_init parallelism max_vms cfg c \<Longrightarrow> pool_inv (initial_ranges parallelism cfg) cfg c"
  by (cases c) (auto simp: pool_init_def initial_ranges_def warm_pool_new_def pool_inv_def
    result_simps validate_target_ready_against_backend_def Let_def state_cpus_def pool_opts_def
    MAX_FILL_THREADS_def split: if_splits option.splits)

interpretation pool: transition_system "pool_init parallelism max_vms cfg" pool_step
    "pool_inv (initial_ranges parallelism cfg) cfg"
  for parallelism max_vms cfg
  by unfold_locales (auto intro: pool_init_inv pool_inv_step)

lemma initial_ranges_disjoint:
  assumes "i < length (initial_ranges parallelism cfg)" and "j < length (initial_ranges parallelism cfg)"
    and "i \<noteq> j"
  shows "cpus_of_range (initial_ranges parallelism cfg ! i) \<inter>
    cpus_of_range (initial_ranges parallelism cfg ! j) = {}"
proof (cases "cpu_allocator cfg")
  case (Some a)
  show ?thesis
  proof (cases "build_warm_pool_cpu_ranges parallelism (cfg_target_ready cfg) (Some a)")
    case (Ok ranges)
    then have built: "build_warm_pool_cpu_ranges_for_available (cfg_target_ready cfg) (Some a)
        (case parallelism of Some cnt \<Rightarrow> word_of_nat cnt | None \<Rightarrow> 1) = Ok ranges"
      by (simp add: build_warm_pool_cpu_ranges_def)
    have "length ranges = cfg_target_ready cfg" by (simp add: build_ranges_Ok(4) [OF built])
    with Ok Some assms build_ranges_disjoint [OF built, of i j] show ?thesis
      by (simp add: initial_ranges_def)
  qed (use assms Some in \<open>simp add: initial_ranges_def\<close>)
qed (use assms in \<open>simp add: initial_ranges_def build_warm_pool_cpu_ranges_def
  build_warm_pool_cpu_ranges_for_available_def\<close>)

text \<open>Two entries that a multiset of entries holds side by side sit at different positions of the list
  it came from.\<close>
lemma two_positions:
  assumes "{#c, d#} \<subseteq># mset xs"
  obtains i j where "i < length xs" "j < length xs" "i \<noteq> j" "xs ! i = c" "xs ! j = d"
proof -
  from assms have "c \<in> set xs" by (auto dest: mset_subset_eqD)
  then obtain ys zs where xs: "xs = ys @ c # zs" by (auto dest: split_list)
  with assms have "d \<in> set (ys @ zs)" by (simp add: insert_subset_eq_iff)
  then consider i where "i < length ys" "ys ! i = d" | i where "i < length zs" "zs ! i = d"
    by (auto simp: in_set_conv_nth)
  then show ?thesis
  proof cases
    case (1 i)
    then show ?thesis by (intro that [of "length ys" i]) (auto simp: xs nth_append)
  next
    case (2 i)
    then show ?thesis
      by (intro that [of "length ys" "Suc (length ys + i)"]) (auto simp: xs nth_append)
  qed
qed

lemma lease_cpus_member:
  assumes "a \<in># A" shows "some_cpus (act_opts a) \<subseteq># acts_cpus A"
  using assms by (metis image_mset_add_mset insert_DiffM mset_subset_eq_add_left sum_mset.insert)

lemma two_holders:
  assumes "pool_inv ranges cfg (i, A)" and "a \<in># A" and "b \<in># A - {#a#}"
  shows "some_cpus (act_opts a) + some_cpus (act_opts b) \<subseteq># mset ranges"
proof -
  obtain A' where A: "A = add_mset a (add_mset b A')"
    using assms(2,3) by (metis insert_DiffM)
  with assms(1) have "mset ranges =
      (some_cpus (act_opts a) + some_cpus (act_opts b)) + (acts_cpus A' + state_cpus (state i))"
    by (simp add: pool_inv_def ac_simps)
  then show ?thesis by simp
qed

lemma holder_and_ready:
  assumes "pool_inv ranges cfg (i, A)" and "a \<in># A" and "s \<in> set (ready (state i))"
  shows "some_cpus (act_opts a) + some_cpus [cpuset_cpus s] \<subseteq># mset ranges"
proof -
  obtain A' where A: "A = add_mset a A'" using assms(2) by (metis insert_DiffM)
  obtain xs ys where r: "ready (state i) = xs @ s # ys" using assms(3) by (auto dest: split_list)
  from assms(1) have "mset ranges =
      (some_cpus (act_opts a) + some_cpus [cpuset_cpus s]) +
      (acts_cpus A' + mset (free_cpuset_cpus (state i)) + some_cpus (map cpuset_cpus (xs @ ys)))"
    by (simp add: pool_inv_def A state_cpus_def r some_cpus_Cons [of _ "map _ _"] ac_simps)
  then show ?thesis by simp
qed

subsection \<open>CPU isolation and accounting\<close>

text \<open>C5: In every configuration a pinned pool can reach, under any interleaving of workers, leases and
  resizes, each lease runs on a CPU set of its own: no CPU is shared by two leases or by a lease and
  a ready slot.\<close>
theorem leases_never_share_a_cpu:
  assumes "reachable (pool_init parallelism max_vms cfg) pool_step (i, A)"
    and "cpu_allocator cfg \<noteq> None" and "Lease s \<in># A"
    and "Lease t \<in># A - {#Lease s#} \<or> t \<in> set (ready (state i))"
  shows "\<exists>c d. cpuset_cpus s = Some c \<and> cpuset_cpus t = Some d \<and>
    cpus_of_range c \<inter> cpus_of_range d = {}"
proof -
  note inv = pool.reachable_inv [OF assms(1)]
  have "None \<notin> pool_opts (state i)" and acts: "a \<in># A \<Longrightarrow> None \<notin> set (act_opts a)" for a
    using inv assms(2) by (auto simp: pool_inv_def)
  moreover have "Lease t \<in># A" if "Lease t \<in># A - {#Lease s#}"
    using that by (rule in_diffD)
  ultimately have "cpuset_cpus s \<noteq> None \<and> cpuset_cpus t \<noteq> None"
    using assms(3,4) acts [of "Lease s"] acts [of "Lease t"] by (force simp: pool_opts_def)
  then obtain c d where cd: "cpuset_cpus s = Some c" "cpuset_cpus t = Some d" by auto
  have "{#c, d#} \<subseteq># mset (initial_ranges parallelism cfg)"
    using assms(4) two_holders [OF inv assms(3), of "Lease t"] holder_and_ready [OF inv assms(3), of t]
    by (auto simp: cd add_mset_commute)
  from two_positions [OF this] initial_ranges_disjoint [of _ parallelism cfg]
  have "cpus_of_range c \<inter> cpus_of_range d = {}" by metis
  with cd show ?thesis by simp
qed

text \<open>C32: The books of the pool are exact in every reachable configuration: the free, ready and held CPU
  sets together are the ones the pool started with, \<open>filling\<close> is the number of live fill workers and
  never exceeds \<open>MAX_FILL_THREADS\<close>, \<open>leased\<close> is the number of leases, and the target stays
  between one and the backend's VM limit.\<close>
theorem pool_accounting:
  assumes "reachable (pool_init parallelism max_vms cfg) pool_step (i, A)"
  shows "mset (free_cpuset_cpus (state i)) + some_cpus (map cpuset_cpus (ready (state i))) + acts_cpus A =
      mset (initial_ranges parallelism cfg) \<and>
    filling (state i) = size (filter_mset (\<lambda>a. act_filling a = 1) A) \<and>
    filling (state i) \<le> MAX_FILL_THREADS \<and>
    leased (state i) = size (filter_mset (\<lambda>a. act_leased a = 1) A) \<and>
    1 \<le> target_ready i \<and> target_ready i \<le> unat (max_concurrent_vms i)"
proof -
  have count: "(\<Sum>a \<in># M. f a) = size (filter_mset (\<lambda>a. f a = 1) M)"
    if "\<And>a. f a = 0 \<or> f a = (1 :: nat)" for f :: "activity \<Rightarrow> nat" and M
  proof (induction M)
    case (add x M)
    then show ?case using that [of x] by auto
  qed simp
  have "act_filling a = 0 \<or> act_filling a = 1" "act_leased a = 0 \<or> act_leased a = 1" for a
    by (cases a; simp)+
  with pool.reachable_inv [OF assms] show ?thesis
    by (simp add: pool_inv_def state_cpus_def count Suc_le_eq)
qed

subsection \<open>Filling\<close>

lemma reserve_fills_length:
  assumes "reserve_fills pinned n st = (fills, st')"
  shows "length fills = (if pinned then min n (length (free_cpuset_cpus st)) else n)"
  using assms
proof (induction n arbitrary: st fills)
  case (Suc n)
  then show ?case
    by (cases "free_cpuset_cpus st")
      (fastforce simp: reserve_cpuset_cpus_def split: prod.splits if_splits)+
qed simp

text \<open>A background fill spawns exactly as many workers as the ready target still lacks, limited by
  the free worker slots and, in a pinned pool, by the free CPU sets; after shutdown it spawns none
  and changes nothing.\<close>
theorem background_fill_count:
  assumes "start_background_fill i = (fills, i')"
  shows "length fills =
    (if shutdown i then 0
     else (let n = min (target_ready i - (length (ready (state i)) + filling (state i)))
                       (MAX_FILL_THREADS - filling (state i))
           in if cpu_allocator (config i) = None then n
              else min n (length (free_cpuset_cpus (state i))))) \<and>
    (shutdown i \<longrightarrow> i' = i)"
  using assms
  by (auto simp: start_background_fill_def Let_def dest!: reserve_fills_length
    split: if_splits prod.splits)

lemma reserve_fills_failures:
  "reserve_fills pinned n st = (fills, st') \<Longrightarrow> fill_failures_total st' = fill_failures_total st"
  by (induction n arbitrary: st fills)
    (fastforce simp: reserve_cpuset_cpus_def split: prod.splits if_splits list.splits)+

subsection \<open>Runs\<close>

definition worker_filled :: "warm_slot \<Rightarrow> u64 \<Rightarrow> warm_pool_inner \<Rightarrow> warm_pool_inner" where
  "worker_filled s d i =
     worker_retain s d ((map_state record_fill_attempt i)\<lparr>next_slot := next_slot i + 1\<rparr>)"

lemma worker_filled_simps [simp]:
  "ready (state (worker_filled s d i)) = ready (state i) @ [s]"
  "filling (state (worker_filled s d i)) = filling (state i) - 1"
  "shutdown (worker_filled s d i) = shutdown i" "target_ready (worker_filled s d i) = target_ready i"
  "config (worker_filled s d i) = config i"
  "fill_failures_total (state (worker_filled s d i)) = fill_failures_total (state i)"
  by (simp_all add: worker_filled_def worker_retain_def record_fill_success_def record_fill_attempt_def
    Let_def)

text \<open>A worker whose restore succeeds pushes its slot and ends.\<close>
lemma worker_success_run:
  assumes "\<not> shutdown i" and "cpuset_cpus s = c"
  shows "pool_step\<^sup>*\<^sup>* (i, add_mset (WorkerStart c) A) (worker_filled s d i, A)"
proof -
  let ?i1 = "map_state record_fill_attempt i"
  let ?i2 = "?i1\<lparr>next_slot := next_slot ?i1 + 1\<rparr>"
  have "pool_step (i, add_mset (WorkerStart c) A) (?i1, {#WorkerLaunching c#} + A)"
    by (intro activity worker_start)
  moreover have "pool_step (?i1, add_mset (WorkerLaunching c) A) (?i2, {#WorkerLaunched s d#} + A)"
    by (intro activity worker_launch_ok assms)
  moreover have "pool_step (?i2, add_mset (WorkerLaunched s d) A) (?i2, {#WorkerRetain s d#} + A)"
    by (intro activity worker_sees_running) (simp add: assms)
  moreover have "pool_step (?i2, add_mset (WorkerRetain s d) A) (worker_retain s d ?i2, {#} + A)"
    by (intro activity worker_retains)
  ultimately have "pool_step\<^sup>*\<^sup>* (i, add_mset (WorkerStart c) A) (worker_retain s d ?i2, A)"
    by simp
  then show ?thesis by (simp add: worker_filled_def)
qed

lemma lease_run:
  assumes "\<not> shutdown i" and "ready (state i) = s # rest"
  shows "pool_step\<^sup>*\<^sup>* (i, A)
    (lease_acquired (map_state (\<lambda>st. st\<lparr>ready := rest\<rparr>) i), {#Refill, Lease s#} + A)"
proof -
  let ?i1 = "map_state (\<lambda>st. st\<lparr>ready := rest\<rparr>) i"
  have "pool_step (i, A) (?i1, add_mset (LesseePopped s) A)"
    using assms by (intro call_try_lease) (simp_all add: lease_pop_def)
  moreover have "pool_step (?i1, add_mset (LesseePopped s) A) (lease_acquired ?i1, {#Refill, Lease s#} + A)"
    by (intro activity lessee_finds_live)
  ultimately show ?thesis by (meson converse_rtranclp_into_rtranclp rtranclp.rtrancl_refl)
qed

text \<open>All workers of a fill round succeed, one after the other.\<close>
lemma fill_round_run:
  assumes "\<not> shutdown i"
  shows "\<exists>j. pool_step\<^sup>*\<^sup>* (i, workers fills + A) (j, A) \<and> \<not> shutdown j \<and>
    length (ready (state j)) = length (ready (state i)) + length fills \<and>
    target_ready j = target_ready i \<and> config j = config i \<and>
    fill_failures_total (state j) = fill_failures_total (state i)"
  using assms
proof (induction fills arbitrary: i)
  case Nil
  then show ?case by (auto simp: workers_def)
next
  case (Cons c fills)
  let ?s = "\<lparr>sandbox = \<lparr>vm_id = [], one_shot = False, firecracker_pid = 0\<rparr>, cpuset_cpus = c\<rparr>"
  from Cons.IH [of "worker_filled ?s 0 i"] Cons.prems obtain j where
    j: "pool_step\<^sup>*\<^sup>* (worker_filled ?s 0 i, workers fills + A) (j, A)" "\<not> shutdown j"
      "length (ready (state j)) = length (ready (state i)) + 1 + length fills"
      "target_ready j = target_ready i" "config j = config i"
      "fill_failures_total (state j) = fill_failures_total (state i)"
    by auto
  have "pool_step\<^sup>*\<^sup>* (i, workers (c # fills) + A) (worker_filled ?s 0 i, workers fills + A)"
    using worker_success_run [of i ?s c "workers fills + A" 0] Cons.prems by (simp add: workers_def)
  with j show ?case by (auto intro: rtranclp_trans)
qed

subsection \<open>A fill round that succeeds stops short of the target\<close>

definition stall_config :: warm_pool_config where
  "stall_config = \<lparr>cfg_target_ready = 8, has_workspace = False, vm_id_prefix = ''warm'', cpu_allocator = None\<rparr>"


subsection \<open>Dropping the pool\<close>

definition dropped :: "pool_config \<Rightarrow> bool" where
  "dropped c \<longleftrightarrow> (case c of (i, A) \<Rightarrow>
     shutdown i \<and> drop_finished i \<and> acts_filling A = 0 \<and> (\<forall>a \<in># A. \<not> borrows_pool a))"

lemma act_step_dropped:
  "act_step i a i' B \<Longrightarrow> shutdown i \<Longrightarrow> drop_finished i \<Longrightarrow> act_filling a = 0 \<Longrightarrow> \<not> borrows_pool a \<Longrightarrow>
     drop_finished i' \<and> acts_filling B = 0"
proof (induction rule: act_step.induct)
  case (worker_wakes i fills i' delay)
  with start_background_fill_effect [OF worker_wakes(1)] show ?case by (simp add: drop_finished_def)
next
  case (refills i fills i')
  with start_background_fill_effect [OF refills(1)] show ?case by (simp add: drop_finished_def)
qed (simp_all add: drop_finished_def lease_finished_def)

lemma dropped_step: "pool_step c c' \<Longrightarrow> dropped c \<Longrightarrow> dropped c'"
proof (induction rule: pool_step.induct)
  case (activity i a i' B A)
  then show ?case
    using act_step_dropped [OF activity(1)] act_step_borrows [OF activity(1)]
      act_step_constant [OF activity(1)]
    by (auto simp: dropped_def)
next
  case (drop_drains i ss i' A)
  then show ?case by (simp add: dropped_def drop_finished_def)
qed (simp_all add: dropped_def)

interpretation drop_end: transition_system dropped pool_step dropped
  by unfold_locales (auto intro: dropped_step)

text \<open>C33: Once the drop of the pool finds no ready slot and no fill worker and returns, none ever appears
  again: whatever leases are still out and however they end, the pool stays empty and no later step
  restores a VM.\<close>
theorem dropped_pool_stays_empty:
  assumes "reachable (pool_init parallelism max_vms cfg) pool_step (i, A)"
    and "shutdown i" and "drop_finished i" and "pool_step\<^sup>*\<^sup>* (i, A) (j, B)"
  shows "ready (state j) = [] \<and> filling (state j) = 0 \<and> (\<forall>c. WorkerLaunching c \<notin># B)"
proof -
  from pool.reachable_inv [OF assms(1)] assms(2,3) have "dropped (i, A)"
    by (auto simp: dropped_def pool_inv_def drop_finished_def)
  then have "dropped (j, B)" using assms(4) by (rule drop_end.steps_inv)
  moreover have "act_filling (WorkerLaunching c) \<le> acts_filling B" if "WorkerLaunching c \<in># B" for c
    using that by (metis image_mset_add_mset insert_DiffM le_add1 sum_mset.insert)
  ultimately show ?thesis
    by (fastforce simp: dropped_def drop_finished_def)
qed

subsection \<open>Resizing, back-off and probes\<close>

text \<open>A resize the pool accepts keeps the oldest ready slots up to the new target, hands exactly the
  surplus to be discarded, newest first, and leaves leases, workers and free CPU sets alone.\<close>
theorem resize_keeps_oldest:
  assumes "resize target i = (ss, i')"
  shows "ready (state i') @ rev ss = ready (state i) \<and>
    length (ready (state i')) = min target (length (ready (state i))) \<and>
    leased (state i') = leased (state i) \<and> filling (state i') = filling (state i) \<and>
    free_cpuset_cpus (state i') = free_cpuset_cpus (state i) \<and> target_ready i' = target"
  using resize_effect [OF assms] by simp

lemma unat_saturating_succ:
  "unat (saturating_add e 1 :: u32) = min (unat e + 1) (2 ^ 32 - 1)"
proof -
  have "unat e < 2 ^ 32" using unsigned_less [where w = e] by simp
  then show ?thesis
    by (auto simp: saturating_add_def unat_word_ariths unsigned_minus_1_eq_mask mask_eq_exp_minus_1)
qed

text \<open>After a failed restore the worker waits 50 ms, 200 ms, 1 s or 10 s according to the number of
  failures in a row before it; the table index never leaves the table, even when the counter
  saturates.\<close>
theorem worker_backoff_schedule:
  "fst (worker_failed cpus detail i) =
     (let failures = unat (consecutive_fill_errors (state i))
      in if failures = 0 then 50 else if failures = 1 then 200 else if failures = 2 then 1000
         else 10000)"
proof -
  have "consecutive_fill_errors (state (snd (worker_failed cpus detail i))) =
      saturating_add (consecutive_fill_errors (state i)) 1"
    by (simp add: worker_failed_def record_fill_failure_def release_cpuset_cpus_def Let_def
      split: option.splits)
  then have "fst (worker_failed cpus detail i) =
      backoff_delay (saturating_add (consecutive_fill_errors (state i)) 1)"
    by (simp add: worker_failed_def Let_def)
  then show ?thesis
    by (auto simp: backoff_delay_def FILL_BACKOFF_def unat_saturating_succ Let_def nth_Cons'
      min_def split: if_splits)
qed

text \<open>A guest that answers the probe from a list of outcomes, recording nothing else.\<close>
fun scripted_probe :: "('a, fc_error) result list \<Rightarrow> ('a, fc_error) result \<times> ('a, fc_error) result list" where
  "scripted_probe [] = (Err (FcOther ''script ended''), [])"
| "scripted_probe (r # rs) = (r, rs)"

lemma run_ready_probe_loop_answered:
  "length es < n \<Longrightarrow> run_ready_probe_loop scripted_probe n e (map Err es @ Ok (status, exit_code) # rs) =
     (if status = ExecCompleted \<and> exit_code = Some 0 then Ok ()
      else Err (WarmReadyProbeRejected status exit_code), rs)"
  by (induction es arbitrary: n e; case_tac n) auto

lemma run_ready_probe_loop_exhausted:
  "run_ready_probe_loop scripted_probe (length es) e (map Err es @ rs) = (Err (last (e # es)), rs)"
  by (induction es arbitrary: e) auto

text \<open>The ready probe accepts a slot only on a completed run with exit code zero. Transport errors are
  retried and an answer that is not a success ends the probe at once; after five errors it gives up
  with the last of them, having called the guest exactly five times.\<close>
theorem ready_probe_verdict:
  "(length es < 5 \<longrightarrow>
      run_ready_probe scripted_probe (map Err es @ Ok (status, exit_code) # rs) =
        (if status = ExecCompleted \<and> exit_code = Some 0 then Ok ()
         else Err (WarmReadyProbeRejected status exit_code), rs)) \<and>
   (length es = 5 \<longrightarrow> run_ready_probe scripted_probe (map Err es @ rs) = (Err (last es), rs))"
proof (intro conjI impI)
  assume n: "length es = 5"
  then have "es \<noteq> []" by auto
  with run_ready_probe_loop_exhausted [of es "FcOther ''unreachable''" rs] n
  show "run_ready_probe scripted_probe (map Err es @ rs) = (Err (last es), rs)"
    by (simp add: run_ready_probe_def)
qed (simp add: run_ready_probe_def run_ready_probe_loop_answered)

theorem ready_probe_verdict_witness:
  "run_ready_probe scripted_probe [Err (FcOther ''reset''), Ok (ExecCompleted, Some 0)] = (Ok (), [])"
  using ready_probe_verdict [of "[FcOther ''reset'']" ExecCompleted "Some 0" "[]"] by simp

subsection \<open>Leases\<close>

text \<open>A one-shot lease runs one exec and is used up by it, whatever the exec and the discard of its VM
  return: the caller gets the exec's own result, the lease is released exactly once, and every later
  exec, hotplug or drop of the lease changes nothing.\<close>
theorem one_shot_lease_runs_once:
  assumes "slot lease = Some s" and "one_shot (sandbox s)" and "\<not> released lease"
    and "lease_exec exec discard_sb (lease, i) w = (r, fills, (lease', i'), w')"
  shows "r = fst (exec (sandbox s) w) \<and> slot lease' = None \<and> released lease' \<and>
    (fills, i') = start_background_fill (lease_finished (cpuset_cpus s) i) \<and>
    leased (state i') = leased (state i) - 1 \<and>
    lease_exec exec discard_sb (lease', i') w' = (Err OneShotConsumed, [], (lease', i'), w') \<and>
    lease_hotplug plug (lease', i') w' = (Err OneShotConsumed, [], (lease', i'), w') \<and>
    lease_drop discard_sb (lease', i') w' = ([], (lease', i'), w')"
proof -
  obtain res w1 where e: "exec (sandbox s) w = (res, w1)" by fastforce
  obtain dr w2 where d: "discard_sb (sandbox s) w1 = (dr, w2)" by fastforce
  obtain fs j where f: "start_background_fill (lease_finished (cpuset_cpus s) i) = (fs, j)" by fastforce
  have "r = res \<and> fills = fs \<and> lease' = lease\<lparr>slot := None, released := True\<rparr> \<and> i' = j"
    using assms e d f
    by (auto simp: lease_exec_def is_one_shot_def exec_and_discard_def release_and_refill_def Let_def)
  moreover have "leased (state j) = leased (state i) - 1"
    using start_background_fill_effect(3) [OF f] by (simp add: lease_finished_def)
  ultimately show ?thesis
    by (simp add: e f lease_exec_def is_one_shot_def lease_hotplug_def lease_drop_def)
qed

text \<open>A panic inside \<open>exec_and_discard\<close> unwinds with the slot already taken out of the lease and the
  lease not yet released. Dropping such a lease releases nothing.\<close>
lemma unwound_lease_releases_nothing:
  "slot lease = None \<Longrightarrow> lease_drop discard_sb (lease, i) w = ([], (lease, i), w)"
  by (simp add: lease_drop_def)

subsection \<open>A pool in use\<close>

text \<open>A pinned pool of two slots on a four-CPU host, filled and leased out, instantiates the theorems
  above.\<close>

definition demo_config :: warm_pool_config where
  "demo_config = \<lparr>cfg_target_ready = 2, has_workspace = False, vm_id_prefix = ''warm'',
     cpu_allocator = Some \<lparr>first_cpu = 0, cpus_per_slot = 2\<rparr>\<rparr>"

definition demo_pool :: warm_pool_inner where
  "demo_pool = \<lparr>max_concurrent_vms = 8, config = demo_config, target_ready = 2,
     cpu_allocator_capacity = Some 2,
     state = \<lparr>ready = [], filling = 0, leased = 0, discarded = 0,
       free_cpuset_cpus = [''0-1'', ''2-3''], last_fill_error = None, consecutive_fill_errors = 0,
       fill_attempts_total = 0, fill_failures_total = 0, lease_acquired_total = 0,
       lease_returned_total = 0, fill_duration_samples_us = []\<rparr>,
     shutdown = False, next_slot = 0\<rparr>"

definition demo_slot :: "string \<Rightarrow> string \<Rightarrow> warm_slot" where
  "demo_slot name cpus = \<lparr>sandbox = \<lparr>vm_id = name, one_shot = True, firecracker_pid = 7\<rparr>,
     cpuset_cpus = Some cpus\<rparr>"

lemma demo_new: "warm_pool_new (Some 4) 8 demo_config = Ok demo_pool"
  by (simp add: warm_pool_new_def demo_config_def demo_pool_def Let_def
    validate_target_ready_against_backend_def build_warm_pool_cpu_ranges_def
    build_warm_pool_cpu_ranges_for_available_def checked_mul_def checked_add_def slot_range_def
    u32_to_string_def nat_to_string.simps upt_rec)

definition demo_filling :: warm_pool_inner where
  "demo_filling = snd (start_background_fill demo_pool)"

lemma demo_fill:
  "start_background_fill demo_pool = ([Some ''0-1'', Some ''2-3''], demo_filling)"
  "ready (state demo_filling) = []" "\<not> shutdown demo_filling"
  by (simp_all add: demo_filling_def start_background_fill_def demo_pool_def demo_config_def
    MAX_FILL_THREADS_def reserve_cpuset_cpus_def Let_def numeral_2_eq_2)

abbreviation demo_ready :: warm_pool_inner where
  "demo_ready \<equiv> worker_filled (demo_slot ''warm-1'' ''2-3'') 9
     (worker_filled (demo_slot ''warm-0'' ''0-1'') 9 demo_filling)"

abbreviation demo_lease1 :: warm_pool_inner where
  "demo_lease1 \<equiv> lease_acquired
     (map_state (\<lambda>st. st\<lparr>ready := [demo_slot ''warm-1'' ''2-3'']\<rparr>) demo_ready)"

abbreviation demo_lease2 :: warm_pool_inner where
  "demo_lease2 \<equiv> lease_acquired (map_state (\<lambda>st. st\<lparr>ready := []\<rparr>) demo_lease1)"

abbreviation demo_leases :: "activity multiset" where
  "demo_leases \<equiv> {#Refill, Lease (demo_slot ''warm-1'' ''2-3''), Refill, Lease (demo_slot ''warm-0'' ''0-1'')#}"

lemma demo_reachable_ready:
  "reachable (pool_init (Some 4) 8 demo_config) pool_step (demo_ready, {#})"
proof -
  have init: "reachable (pool_init (Some 4) 8 demo_config) pool_step (demo_pool, {#})"
    by (intro reachable_init) (simp add: pool_init_def demo_new)
  have "pool_step (demo_pool, {#}) (demo_filling, workers [Some ''0-1'', Some ''2-3''] + {#})"
    by (intro call_background_fill demo_fill) (simp add: demo_pool_def)
  with init have "reachable (pool_init (Some 4) 8 demo_config) pool_step
      (demo_filling, {#WorkerStart (Some ''0-1''), WorkerStart (Some ''2-3'')#})"
    by (auto intro: reachable_step simp: workers_def)
  from reachable_steps [OF this worker_success_run [of _ "demo_slot ''warm-0'' ''0-1''"]]
  have "reachable (pool_init (Some 4) 8 demo_config) pool_step
      (worker_filled (demo_slot ''warm-0'' ''0-1'') 9 demo_filling, {#WorkerStart (Some ''2-3'')#})"
    by (simp add: demo_fill demo_slot_def)
  from reachable_steps [OF this worker_success_run [of _ "demo_slot ''warm-1'' ''2-3''"]]
  show ?thesis by (simp add: demo_fill demo_slot_def)
qed

lemma demo_reachable:
  "reachable (pool_init (Some 4) 8 demo_config) pool_step (demo_lease2, demo_leases)"
proof -
  have "reachable (pool_init (Some 4) 8 demo_config) pool_step
      (demo_lease1, {#Refill, Lease (demo_slot ''warm-0'' ''0-1'')#} + {#})"
    by (rule reachable_steps [OF demo_reachable_ready lease_run]) (simp_all add: demo_fill)
  from reachable_steps [OF this lease_run [of _ "demo_slot ''warm-1'' ''2-3''" "[]"]]
  show ?thesis by (simp add: demo_fill lease_acquired_def add_mset_commute)
qed

theorem leases_never_share_a_cpu_witness:
  "cpus_of_range ''0-1'' \<inter> cpus_of_range ''2-3'' = {}"
  using leases_never_share_a_cpu [OF demo_reachable,
      of "demo_slot ''warm-0'' ''0-1''" "demo_slot ''warm-1'' ''2-3''"]
  by (simp add: demo_config_def demo_slot_def)

theorem pool_accounting_witness:
  "leased (state demo_lease2) = 2 \<and> filling (state demo_lease2) \<le> MAX_FILL_THREADS"
  using pool_accounting [OF demo_reachable] by simp

theorem background_fill_count_witness:
  "length (fst (start_background_fill demo_pool)) = 2"
  using background_fill_count [OF demo_fill(1)]
  by (simp add: demo_fill(1))

theorem resize_keeps_oldest_witness:
  "length (ready (state (snd (resize 1 demo_ready)))) = 1"
  using resize_keeps_oldest [of 1 demo_ready "fst (resize 1 demo_ready)" "snd (resize 1 demo_ready)"]
  by (simp add: demo_fill)

theorem one_shot_lease_runs_once_witness:
  "fst (lease_exec (\<lambda>_ w. (Ok w, Suc w)) (\<lambda>_ w. (Err (FcOther ''busy''), w))
     (warm_lease_new (demo_slot ''warm-0'' ''0-1''), demo_lease2) 3) = Ok 3"
proof -
  let ?run = "lease_exec (\<lambda>_ w. (Ok w, Suc w)) (\<lambda>_ w. (Err (FcOther ''busy''), w))
     (warm_lease_new (demo_slot ''warm-0'' ''0-1''), demo_lease2) 3"
  have "?run = (fst ?run, fst (snd ?run), (fst (fst (snd (snd ?run))), snd (fst (snd (snd ?run)))),
      snd (snd (snd ?run)))"
    by simp
  from one_shot_lease_runs_once [OF _ _ _ this, of "demo_slot ''warm-0'' ''0-1''"]
  show ?thesis by (simp add: warm_lease_new_def demo_slot_def)
qed

definition demo_dropped :: warm_pool_inner where
  "demo_dropped = begin_shutdown demo_pool"

theorem dropped_pool_stays_empty_witness:
  "ready (state demo_dropped) = [] \<and> filling (state demo_dropped) = 0"
proof -
  have init: "reachable (pool_init (Some 4) 8 demo_config) pool_step (demo_pool, {#})"
    by (intro reachable_init) (simp add: pool_init_def demo_new)
  have "pool_step (demo_pool, {#}) (demo_dropped, {#})"
    unfolding demo_dropped_def by (intro pool_drop) (simp_all add: demo_pool_def)
  with init have "reachable (pool_init (Some 4) 8 demo_config) pool_step (demo_dropped, {#})"
    by (rule reachable_step)
  from dropped_pool_stays_empty [OF this _ _ rtranclp.rtrancl_refl] show ?thesis
    by (simp add: demo_dropped_def begin_shutdown_def drop_finished_def demo_pool_def)
qed

end
