(* ===== verification/Net_Addressing.thy ===== *)
theory Net_Addressing
  imports Prelude
begin

text \<open>
  Addresses of the outbound network: network modes (\<open>m80-net-mode/src/lib.rs\<close>), the names, MAC and
  IPv4 addresses derived from a VM's identity and the host-route check
  (\<open>m80-net-outbound/src/lib.rs\<close>, \<open>state.rs\<close>), and DNS resolver discovery (\<open>dns.rs\<close>).

  SHA-256, hexadecimal encoding and the \<open>ipnet\<close> crate are parameters; \<open>Ipv4Addr\<close> is a 32-bit word
  with its first octet on top, as \<open>u32::from(Ipv4Addr)\<close> has it. Paths are byte strings.
\<close>

subsection \<open>IPv4 addresses and networks\<close>

type_synonym ipv4 = u32

definition ipv4_new :: "u8 \<Rightarrow> u8 \<Rightarrow> u8 \<Rightarrow> u8 \<Rightarrow> ipv4" where
  "ipv4_new a b c d =
     push_bit 24 (ucast a) OR push_bit 16 (ucast b) OR push_bit 8 (ucast c) OR ucast d"

definition octets :: "ipv4 \<Rightarrow> u8 \<times> u8 \<times> u8 \<times> u8" where
  "octets ip = (ucast (drop_bit 24 ip), ucast (drop_bit 16 ip), ucast (drop_bit 8 ip), ucast ip)"

definition ipv4_to_string :: "ipv4 \<Rightarrow> string" where
  "ipv4_to_string ip =
     (case octets ip of (a, b, c, d) \<Rightarrow>
        join ''.'' (map (\<lambda>x. nat_to_string (unat x)) [a, b, c, d]))"

text \<open>A network as \<open>Ipv4Net\<close> stores it: an address, not necessarily the lowest, and a prefix length.\<close>
record ipv4net =
  net_addr :: ipv4
  prefix_len :: nat

definition ipv4net_to_string :: "ipv4net \<Rightarrow> string" where
  "ipv4net_to_string n = ipv4_to_string (net_addr n) @ ''/'' @ nat_to_string (prefix_len n)"

text \<open>The addresses of a network, as routing defines them.\<close>
definition in_net :: "ipv4 \<Rightarrow> ipv4net \<Rightarrow> bool" where
  "in_net ip n \<longleftrightarrow> drop_bit (32 - prefix_len n) ip = drop_bit (32 - prefix_len n) (net_addr n)"

lemma octets_new [simp]: "octets (ipv4_new a b c d) = (a, b, c, d)"
proof -
  have "ucast (drop_bit 24 (ipv4_new a b c d)) = a" "ucast (drop_bit 16 (ipv4_new a b c d)) = b"
    "ucast (drop_bit 8 (ipv4_new a b c d)) = c" "ucast (ipv4_new a b c d) = d"
    by (rule bit_word_eqI; auto simp: ipv4_new_def bit_simps dest: bit_imp_le_length)+
  then show ?thesis by (simp add: octets_def)
qed

subsection \<open>Network modes (m80-net-mode)\<close>

datatype mac_addr = MacAddr string

record netns_spec =
  netns_path :: string
  spec_tap_name :: string
  spec_guest_mac :: mac_addr
  spec_guest_ipv4 :: ipv4net
  spec_gateway_ipv4 :: ipv4
  spec_dns_resolvers :: "ipv4 list"

datatype network_policy = NoEgress | AllowOutbound "ipv4net list" | JoinNetns netns_spec

datatype outbound_intent = OutboundIntent "ipv4net list"

datatype vm_network_mode = ModeNoEgress | OutboundNat outbound_intent | ModeJoinNetns netns_spec

datatype mac_addr_parse_error = InvalidFormat string

definition is_valid_mac_addr :: "string \<Rightarrow> bool" where
  "is_valid_mac_addr value \<longleftrightarrow>
     length value = 17 \<and>
     list_all (\<lambda>(index, byte). if index mod 3 = 2 then byte = CHR '':'' else is_ascii_hexdigit byte)
       (enumerate 0 value)"

definition mac_addr_parse :: "string \<Rightarrow> (mac_addr, mac_addr_parse_error) result" where
  "mac_addr_parse value = (if is_valid_mac_addr value then Ok (MacAddr value) else Err (InvalidFormat value))"

primrec resolve :: "network_policy \<Rightarrow> vm_network_mode" where
  "resolve NoEgress = ModeNoEgress"
| "resolve (AllowOutbound exceptions) = OutboundNat (OutboundIntent exceptions)"
| "resolve (JoinNetns spec) = ModeJoinNetns spec"

subsection \<open>Errors\<close>

text \<open>The variants of \<open>NetError\<close> that the modelled code raises; I/O and netlink failures of the host
  come out of parameters as \<open>NetIo\<close>.\<close>
datatype net_error =
  GuestIpv4Collision string
| HostRouteCollision string
| InvalidNetworkState string string
| BridgeOwnershipMismatch
| NetworkCommandFailed string string
| NoUsableDnsResolvers
| NetlinkOperationFailed string string
| TapOperationFailed string string
| InvalidTapMtu u32 u32 u32
| LinkNotFound string string
| ForeignChainRule string
| NetworkAllocationConflict string string
| NetPathIo string string
| NetIo string

subsection \<open>State records (state.rs)\<close>

datatype setup_phase = Planned | Ready

record bridge_state =
  br_schema_version :: u32
  br_setup_phase :: setup_phase
  br_run_root :: string
  br_run_root_digest :: string
  bridge_name :: string
  br_cidr :: ipv4net
  gateway_ipv4 :: ipv4

record vm_network_state =
  vm_schema_version :: u32
  vm_setup_phase :: setup_phase
  net_vm_id :: string
  vm_run_dir :: string
  bridge :: bridge_state
  tap_name :: string
  vmm_netns_name :: string
  vmm_netns_path :: string
  host_veth_name :: string
  vmm_veth_name :: string
  vmm_bridge_name :: string
  guest_mac :: string
  guest_ipv4 :: ipv4
  private_ipv4_exceptions :: "ipv4net list"
  dns_resolvers :: "ipv4 list"
  runtime_rootfs_configured :: bool

definition bridge_with_phase :: "bridge_state \<Rightarrow> setup_phase \<Rightarrow> bridge_state" where
  "bridge_with_phase s p = s\<lparr>br_setup_phase := p\<rparr>"

definition vm_with_phase :: "vm_network_state \<Rightarrow> setup_phase \<Rightarrow> vm_network_state" where
  "vm_with_phase s p = s\<lparr>vm_setup_phase := p\<rparr>"

definition NETWORK_STATE_SCHEMA_VERSION :: u32 where
  "NETWORK_STATE_SCHEMA_VERSION = 1"

definition bridge_state_matches_identity :: "bridge_state \<Rightarrow> bridge_state \<Rightarrow> bool" where
  "bridge_state_matches_identity existing planned \<longleftrightarrow>
     br_schema_version existing = br_schema_version planned \<and>
     br_run_root existing = br_run_root planned \<and>
     br_run_root_digest existing = br_run_root_digest planned \<and>
     bridge_name existing = bridge_name planned \<and>
     br_cidr existing = br_cidr planned \<and>
     gateway_ipv4 existing = gateway_ipv4 planned"

subsection \<open>Derived identity (lib.rs)\<close>

text \<open>The crates the derivations call: \<open>sha2\<close>, \<open>hex\<close> and \<open>ipnet\<close>.\<close>
record net_crates =
  sha256 :: "u8 list \<Rightarrow> u8 list"
  hex :: "u8 list \<Rightarrow> string"
  net_first_host :: "ipv4net \<Rightarrow> ipv4 option"
  net_contains :: "ipv4net \<Rightarrow> ipv4 \<Rightarrow> bool"
  net_network :: "ipv4net \<Rightarrow> ipv4"

definition run_root_digest :: "net_crates \<Rightarrow> string \<Rightarrow> u8 list" where
  "run_root_digest cr run_root = sha256 cr (str_bytes run_root)"

definition run_root_digest_hex :: "net_crates \<Rightarrow> string \<Rightarrow> string" where
  "run_root_digest_hex cr run_root = hex cr (run_root_digest cr run_root)"

definition vm_digest :: "net_crates \<Rightarrow> string \<Rightarrow> string \<Rightarrow> u8 list" where
  "vm_digest cr run_root vm = sha256 cr (str_bytes run_root @ str_bytes vm)"

definition derive_bridge_name :: "net_crates \<Rightarrow> string \<Rightarrow> string" where
  "derive_bridge_name cr run_root = ''brfc'' @ take 11 (hex cr (run_root_digest cr run_root))"

definition derive_tap_name :: "net_crates \<Rightarrow> string \<Rightarrow> string \<Rightarrow> string" where
  "derive_tap_name cr run_root vm = ''tfc'' @ take 12 (hex cr (vm_digest cr run_root vm))"

definition derive_vmm_netns_name :: "net_crates \<Rightarrow> string \<Rightarrow> string \<Rightarrow> string" where
  "derive_vmm_netns_name cr run_root vm = ''m80n'' @ take 12 (hex cr (vm_digest cr run_root vm))"

definition derive_host_veth_name :: "net_crates \<Rightarrow> string \<Rightarrow> string \<Rightarrow> string" where
  "derive_host_veth_name cr run_root vm = ''vh'' @ take 13 (hex cr (vm_digest cr run_root vm))"

definition derive_vmm_veth_name :: "net_crates \<Rightarrow> string \<Rightarrow> string \<Rightarrow> string" where
  "derive_vmm_veth_name cr run_root vm = ''vv'' @ take 13 (hex cr (vm_digest cr run_root vm))"

definition derive_vmm_bridge_name :: "net_crates \<Rightarrow> string \<Rightarrow> string \<Rightarrow> string" where
  "derive_vmm_bridge_name cr run_root vm = ''bfc'' @ take 12 (hex cr (vm_digest cr run_root vm))"

definition planned_vmm_netns_path :: "net_crates \<Rightarrow> string \<Rightarrow> string \<Rightarrow> string" where
  "planned_vmm_netns_path cr run_root vm = ''/run/netns/'' @ derive_vmm_netns_name cr run_root vm"

definition derive_bridge_cidr :: "net_crates \<Rightarrow> string \<Rightarrow> ipv4net" where
  "derive_bridge_cidr cr run_root =
     (let digest = run_root_digest cr run_root;
          o2 = digest ! 0 mod 16 + 16;
          o3 = digest ! 1
      in \<lparr>net_addr = ipv4_new 172 o2 o3 0, prefix_len = 24\<rparr>)"

text \<open>The \<open>as u8\<close> cast is the \<open>ucast\<close>; the sum with 2 is a \<open>u8\<close> addition.\<close>
definition derive_guest_addressing :: "net_crates \<Rightarrow> string \<Rightarrow> string \<Rightarrow> ipv4 \<times> string" where
  "derive_guest_addressing cr run_root vm =
     (let digest = vm_digest cr run_root vm;
          host = 2 + (ucast ((push_bit 8 (ucast (digest ! 5)) OR ucast (digest ! 6) :: u16) mod 253) :: u8)
      in (case octets (net_network cr (derive_bridge_cidr cr run_root)) of
            (a, b, c, _) \<Rightarrow>
              (ipv4_new a b c host,
               join '':'' (''02'' # map hex_byte [digest ! 0, digest ! 1, digest ! 2, digest ! 3, digest ! 4]))))"

definition derive_vmm_bridge_mac_bytes :: "net_crates \<Rightarrow> string \<Rightarrow> string \<Rightarrow> u8 list" where
  "derive_vmm_bridge_mac_bytes cr run_root vm =
     (let digest = vm_digest cr run_root vm
      in [0x02, digest ! 0 XOR 0x80, digest ! 1, digest ! 2, digest ! 3, digest ! 4])"

definition derive_tap_link_mac_bytes :: "net_crates \<Rightarrow> string \<Rightarrow> string \<Rightarrow> u8 list" where
  "derive_tap_link_mac_bytes cr run_root vm =
     (let digest = vm_digest cr run_root vm
      in [0x02, digest ! 0 XOR 0x40, digest ! 1, digest ! 2, digest ! 3, digest ! 4])"

definition planned_bridge_state :: "net_crates \<Rightarrow> string \<Rightarrow> (bridge_state, net_error) result" where
  "planned_bridge_state cr run_root =
     (let cidr = derive_bridge_cidr cr run_root
      in and_then (ok_or (net_first_host cr cidr)
             (InvalidNetworkState run_root (ipv4net_to_string cidr @ '' has no usable gateway host'')))
           (\<lambda>gateway.
             Ok \<lparr>br_schema_version = NETWORK_STATE_SCHEMA_VERSION, br_setup_phase = Planned,
                 br_run_root = run_root, br_run_root_digest = run_root_digest_hex cr run_root,
                 bridge_name = derive_bridge_name cr run_root, br_cidr = cidr,
                 gateway_ipv4 = gateway\<rparr>))"

definition planned_vm_network_state ::
    "net_crates \<Rightarrow> outbound_intent \<Rightarrow> string \<Rightarrow> string \<Rightarrow> string \<Rightarrow> bridge_state \<Rightarrow> vm_network_state" where
  "planned_vm_network_state cr intent vm run_root run_dir br =
     (case derive_guest_addressing cr run_root vm of (ip, mac) \<Rightarrow>
        \<lparr>vm_schema_version = NETWORK_STATE_SCHEMA_VERSION, vm_setup_phase = Planned,
         net_vm_id = vm, vm_run_dir = run_dir, bridge = br,
         tap_name = derive_tap_name cr run_root vm,
         vmm_netns_name = derive_vmm_netns_name cr run_root vm,
         vmm_netns_path = planned_vmm_netns_path cr run_root vm,
         host_veth_name = derive_host_veth_name cr run_root vm,
         vmm_veth_name = derive_vmm_veth_name cr run_root vm,
         vmm_bridge_name = derive_vmm_bridge_name cr run_root vm,
         guest_mac = mac, guest_ipv4 = ip,
         private_ipv4_exceptions = (case intent of OutboundIntent es \<Rightarrow> es),
         dns_resolvers = [], runtime_rootfs_configured = False\<rparr>)"

subsection \<open>Host routes (state.rs, lib.rs)\<close>

definition hex_value :: "char \<Rightarrow> nat option" where
  "hex_value c =
     (let n = of_char c
      in if 48 \<le> n \<and> n \<le> 57 then Some (n - 48)
         else if 97 \<le> n \<and> n \<le> 102 then Some (n - 87)
         else if 65 \<le> n \<and> n \<le> 70 then Some (n - 55)
         else None)"

text \<open>\<open>u32::from_str_radix(s, 16)\<close>: an optional plus sign, at least one digit, no overflow.\<close>
fun hex_digits_u32 :: "nat \<Rightarrow> string \<Rightarrow> u32 option" where
  "hex_digits_u32 acc [] = Some (word_of_nat acc)"
| "hex_digits_u32 acc (c # cs) =
     (case hex_value c of
        None \<Rightarrow> None
      | Some d \<Rightarrow> if 16 * acc + d < 2 ^ 32 then hex_digits_u32 (16 * acc + d) cs else None)"

definition u32_from_str_radix_16 :: "string \<Rightarrow> u32 option" where
  "u32_from_str_radix_16 s =
     (let digits = (case s of c # cs \<Rightarrow> if c = CHR ''+'' then cs else s | [] \<Rightarrow> [])
      in if digits = [] then None else hex_digits_u32 0 digits)"

definition parse_proc_route_ipv4 :: "string \<Rightarrow> string \<Rightarrow> (ipv4, net_error) result" where
  "parse_proc_route_ipv4 hx path =
     and_then (ok_or (u32_from_str_radix_16 hx)
         (InvalidNetworkState path (''invalid procfs IPv4 hex value '' @ [CHR 0x22] @ hx @ [CHR 0x22])))
       (\<lambda>raw. Ok (ipv4_new (ucast (raw AND 0xFF)) (ucast (drop_bit 8 raw AND 0xFF))
         (ucast (drop_bit 16 raw AND 0xFF)) (ucast (drop_bit 24 raw AND 0xFF))))"

definition count_ones :: "u32 \<Rightarrow> nat" where
  "count_ones w = length (filter (bit w) [0..<32])"

definition ipv4_mask_prefix_len :: "ipv4 \<Rightarrow> nat option" where
  "ipv4_mask_prefix_len m =
     (let n = count_ones m;
          expected = (if n = 0 then 0 else push_bit (32 - n) (- 1))
      in if m = expected then Some n else None)"

record host_route =
  interface :: string
  route_cidr :: ipv4net

fun parse_host_routes_from ::
    "nat \<Rightarrow> string list \<Rightarrow> string \<Rightarrow> (host_route list, net_error) result" where
  "parse_host_routes_from line_number [] path = Ok []"
| "parse_host_routes_from line_number (line # lines) path =
     (if line_number = 0 \<or> trim line = [] then parse_host_routes_from (line_number + 1) lines path
      else
        (let columns = split_whitespace line
         in if length columns < 8 then
              Err (InvalidNetworkState path
                (''route line '' @ nat_to_string (line_number + 1) @ '' has too few columns''))
            else
              and_then (parse_proc_route_ipv4 (columns ! 1) path) (\<lambda>destination.
              and_then (parse_proc_route_ipv4 (columns ! 7) path) (\<lambda>m.
              and_then (ok_or (ipv4_mask_prefix_len m)
                  (InvalidNetworkState path
                    (''route line '' @ nat_to_string (line_number + 1) @ '' has non-contiguous mask '' @
                     ipv4_to_string m))) (\<lambda>n.
              and_then (parse_host_routes_from (line_number + 1) lines path) (\<lambda>routes.
                Ok (\<lparr>interface = columns ! 0,
                     route_cidr = \<lparr>net_addr = destination, prefix_len = n\<rparr>\<rparr> # routes)))))))"

text \<open>\<open>Ipv4Net::new\<close> accepts every prefix length up to 32, which \<open>ipv4_mask_prefix_len\<close> never
  exceeds.\<close>
definition parse_host_routes :: "string \<Rightarrow> string \<Rightarrow> (host_route list, net_error) result" where
  "parse_host_routes txt path = parse_host_routes_from 0 (str_lines txt) path"

definition ipv4_net_overlaps :: "net_crates \<Rightarrow> ipv4net \<Rightarrow> ipv4net \<Rightarrow> bool" where
  "ipv4_net_overlaps cr a b \<longleftrightarrow>
     net_contains cr a (net_network cr b) \<or> net_contains cr b (net_network cr a)"

fun reject_routes :: "net_crates \<Rightarrow> ipv4net \<Rightarrow> string option \<Rightarrow> host_route list \<Rightarrow> (unit, net_error) result" where
  "reject_routes cr planned allowed [] = Ok ()"
| "reject_routes cr planned allowed (route # routes) =
     (if prefix_len (route_cidr route) = 0 then reject_routes cr planned allowed routes
      else if (case allowed of None \<Rightarrow> False
               | Some i \<Rightarrow> interface route = i \<and> route_cidr route = planned)
        then reject_routes cr planned allowed routes
      else if ipv4_net_overlaps cr planned (route_cidr route) then
        Err (HostRouteCollision
          (interface route @ '' '' @ ipv4net_to_string (route_cidr route)))
      else reject_routes cr planned allowed routes)"

definition reject_host_route_collision_from_proc_net_route ::
    "net_crates \<Rightarrow> ipv4net \<Rightarrow> string option \<Rightarrow> string \<Rightarrow> (unit, net_error) result" where
  "reject_host_route_collision_from_proc_net_route cr planned allowed route_text =
     and_then (parse_host_routes route_text ''/proc/net/route'')
       (\<lambda>routes. reject_routes cr planned allowed routes)"

subsection \<open>DNS resolvers (dns.rs)\<close>

definition is_admitted_dns_resolver :: "ipv4 \<Rightarrow> bool" where
  "is_admitted_dns_resolver ip =
     (case octets ip of (o0, o1, o2, o3) \<Rightarrow>
        if ip = 0 \<or>
           o0 = 127 \<or>
           (o0 = 169 \<and> o1 = 254) \<or>
           (224 \<le> o0 \<and> o0 \<le> 239) \<or>
           ip = - 1 \<or>
           (o0 = 192 \<and> o1 = 0 \<and> o2 = 2 \<or> o0 = 198 \<and> o1 = 51 \<and> o2 = 100 \<or>
            o0 = 203 \<and> o1 = 0 \<and> o2 = 113)
        then False
        else if o0 = 100 \<and> 64 \<le> o1 \<and> o1 \<le> 127 then False
        else if o0 = 198 \<and> (o1 = 18 \<or> o1 = 19) then False
        else if o0 = 0 \<or> o0 \<ge> 224 then False
        else True)"

text \<open>\<open>Ipv4Addr::from_str\<close>: four decimal octets of one to three digits without a leading zero.\<close>
definition parse_octet :: "string \<Rightarrow> u8 option" where
  "parse_octet s =
     (if s \<noteq> [] \<and> length s \<le> 3 \<and> list_all is_ascii_digit s \<and> (hd s = CHR ''0'' \<longrightarrow> length s = 1)
      then
        (let n = foldl (\<lambda>acc c. 10 * acc + (of_char c - 48)) 0 s
         in if n < 256 then Some (word_of_nat n) else None)
      else None)"

definition parse_ipv4 :: "string \<Rightarrow> ipv4 option" where
  "parse_ipv4 s =
     (case map parse_octet (split_on (CHR ''.'') s) of
        [Some a, Some b, Some c, Some d] \<Rightarrow> Some (ipv4_new a b c d)
      | _ \<Rightarrow> None)"

definition push_admitted_resolver :: "ipv4 list \<Rightarrow> string \<Rightarrow> ipv4 list" where
  "push_admitted_resolver resolvers candidate =
     (case parse_ipv4 candidate of
        None \<Rightarrow> resolvers
      | Some address \<Rightarrow>
          if is_admitted_dns_resolver address \<and> address \<notin> set resolvers
          then resolvers @ [address] else resolvers)"

definition parse_resolv_conf :: "string \<Rightarrow> ipv4 list" where
  "parse_resolv_conf txt =
     foldl (\<lambda>resolvers line.
        (case split_whitespace (trim (hd (split_on (CHR ''#'') line))) of
           keyword # candidate # _ \<Rightarrow>
             if keyword = ''nameserver'' then push_admitted_resolver resolvers candidate else resolvers
         | _ \<Rightarrow> resolvers)) [] (str_lines txt)"

definition parse_resolver_tokens :: "string \<Rightarrow> ipv4 list" where
  "parse_resolver_tokens txt =
     foldl (\<lambda>resolvers token.
        push_admitted_resolver resolvers (trim_matches (\<lambda>c. c \<in> set '',;[]()'') token))
       [] (split_whitespace txt)"

record command_output =
  status_success :: bool
  stdout :: string
  stderr :: string

record 'w dns_discovery_ops =
  dns_command_output :: "string \<Rightarrow> string list \<Rightarrow> ('w, command_output, net_error) eff"
  dns_read_to_string :: "string \<Rightarrow> ('w, string, net_error) eff"

definition resolv_conf_resolvers :: "'w dns_discovery_ops \<Rightarrow> ('w, ipv4 list, net_error) eff" where
  "resolv_conf_resolvers ops =
     bind_eff (dns_read_to_string ops ''/etc/resolv.conf'') (\<lambda>txt.
       (let resolvers = parse_resolv_conf txt
        in if resolvers = [] then fail NoUsableDnsResolvers else ret resolvers))"

text \<open>A failing or empty \<open>resolvectl\<close> falls through to \<open>resolv.conf\<close>.\<close>
definition discover_dns_resolvers_with_ops :: "'w dns_discovery_ops \<Rightarrow> ('w, ipv4 list, net_error) eff" where
  "discover_dns_resolvers_with_ops ops w =
     (case dns_command_output ops ''resolvectl'' [''dns''] w of
        (Ok out, w') \<Rightarrow>
          if status_success out \<and> parse_resolver_tokens (stdout out) \<noteq> []
          then (Ok (parse_resolver_tokens (stdout out)), w')
          else resolv_conf_resolvers ops w'
      | (Err _, w') \<Rightarrow> resolv_conf_resolvers ops w')"

subsection \<open>What the code relies on of \<open>ipnet\<close>\<close>

text \<open>\<open>contains\<close> tests membership, \<open>network\<close> clears the host bits, and the first host of a network with
  room for hosts is the address after it.\<close>
definition net_base :: "ipv4net \<Rightarrow> ipv4" where
  "net_base n = push_bit (32 - prefix_len n) (drop_bit (32 - prefix_len n) (net_addr n))"

definition ipnet_laws :: "net_crates \<Rightarrow> bool" where
  "ipnet_laws cr \<longleftrightarrow>
     (\<forall>n ip. net_contains cr n ip = in_net ip n) \<and>
     (\<forall>n. net_network cr n = net_base n) \<and>
     (\<forall>n. prefix_len n \<le> 30 \<longrightarrow> net_first_host cr n = Some (net_base n + 1))"

lemma drop_push_drop: "drop_bit k (push_bit k (drop_bit k (w :: u32))) = drop_bit k w"
  by (rule bit_word_eqI) (auto simp: bit_simps dest: bit_imp_le_length)

lemma net_base_in_net [simp]: "in_net (net_base n) n"
  by (simp add: in_net_def net_base_def drop_push_drop)

lemma in_net_antimono:
  assumes "in_net ip a" and "in_net ip b" and "prefix_len a \<le> prefix_len b" and "in_net jp b"
  shows "in_net jp a"
proof -
  let ?k = "32 - prefix_len b" and ?l = "32 - prefix_len a"
  have "?k \<le> ?l" using assms(3) by simp
  then obtain d where l: "?l = d + ?k" by (metis le_Suc_ex add.commute)
  from assms(2,4) have "drop_bit ?k ip = drop_bit ?k jp" by (simp add: in_net_def)
  then have "drop_bit d (drop_bit ?k ip) = drop_bit d (drop_bit ?k jp)" by simp
  then have "drop_bit ?l ip = drop_bit ?l jp" by (simp only: l drop_bit_drop_bit)
  with assms(1) show ?thesis by (simp add: in_net_def)
qed

lemma overlaps_iff:
  assumes "ipnet_laws cr"
  shows "ipv4_net_overlaps cr a b \<longleftrightarrow> (\<exists>ip. in_net ip a \<and> in_net ip b)"
proof
  assume "\<exists>ip. in_net ip a \<and> in_net ip b"
  then show "ipv4_net_overlaps cr a b"
    using assms in_net_antimono [of _ a b "net_base b"] in_net_antimono [of _ b a "net_base a"]
    by (cases "prefix_len a \<le> prefix_len b") (auto simp: ipv4_net_overlaps_def ipnet_laws_def)
next
  assume "ipv4_net_overlaps cr a b"
  then show "\<exists>ip. in_net ip a \<and> in_net ip b"
    using assms net_base_in_net [of a] net_base_in_net [of b]
    by (metis ipnet_laws_def ipv4_net_overlaps_def)
qed

lemma reject_routes_Ok:
  assumes "ipnet_laws cr" and "reject_routes cr planned allowed routes = Ok ()" and "route \<in> set routes"
    and "prefix_len (route_cidr route) \<noteq> 0"
    and "\<not> (allowed = Some (interface route) \<and> route_cidr route = planned)"
  shows "\<not> (in_net ip planned \<and> in_net ip (route_cidr route))"
  using assms(2-) overlaps_iff [OF assms(1)]
  by (induction routes) (auto split: if_splits option.splits)

text \<open>When the route check passes, the planned bridge network shares no address with any route the
  kernel reported, the default route and the bridge's own route apart.\<close>
theorem planned_network_is_free:
  assumes "ipnet_laws cr"
    and "reject_host_route_collision_from_proc_net_route cr planned allowed txt = Ok ()"
    and "parse_host_routes txt ''/proc/net/route'' = Ok routes" and "route \<in> set routes"
    and "prefix_len (route_cidr route) \<noteq> 0"
    and "\<not> (allowed = Some (interface route) \<and> route_cidr route = planned)"
  shows "\<not> (in_net ip planned \<and> in_net ip (route_cidr route))"
proof (rule reject_routes_Ok [OF assms(1) _ assms(4-6)])
  show "reject_routes cr planned allowed routes = Ok ()"
    using assms(2,3) by (simp add: reject_host_route_collision_from_proc_net_route_def)
qed

subsection \<open>Masks\<close>

lemma count_ones_top: "n \<le> 32 \<Longrightarrow> count_ones (push_bit (32 - n) (- 1)) = n"
proof -
  assume n: "n \<le> 32"
  have "filter (bit (push_bit (32 - n) (- 1) :: u32)) [0..<32] = [32 - n..<32]"
  proof -
    have "filter (bit (push_bit (32 - n) (- 1) :: u32)) [0..<32] = filter (\<lambda>i. 32 - n \<le> i) [0..<32]"
      by (rule filter_cong) (auto simp: bit_simps)
    also have "\<dots> = [32 - n..<32]"
      using upt_add_eq_append [of 0 "32 - n" n] n by (simp add: filter_empty_conv [THEN iffD2])
    finally show ?thesis .
  qed
  then show ?thesis using n by (simp add: count_ones_def)
qed

text \<open>A netmask is accepted exactly when its one bits are the top ones, and the prefix length is their
  number.\<close>
lemma mask_prefix_len_iff:
  "ipv4_mask_prefix_len m = Some n \<longleftrightarrow> n \<le> 32 \<and> m = push_bit (32 - n) (- 1)"
proof -
  have "count_ones m \<le> 32"
    unfolding count_ones_def using length_filter_le [of "bit m" "[0..<32]"] by simp
  moreover have "push_bit 32 (- 1) = (0 :: u32)" by (rule bit_word_eqI) (simp add: bit_simps)
  ultimately show ?thesis
    using count_ones_top [of n]
    by (auto simp: ipv4_mask_prefix_len_def Let_def split: if_splits)
qed


subsection \<open>Octets as numbers\<close>

lemma unat_u8_less: "unat (w :: u8) < 256"
  using unsigned_less [where w = w] by simp

lemma unat_u32_less: "unat (w :: u32) < 2 ^ 32"
  using unsigned_less [where w = w] by simp

lemma unat_ipv4_new:
  "unat (ipv4_new a b c d) = unat a * 2 ^ 24 + unat b * 2 ^ 16 + unat c * 2 ^ 8 + unat d"
proof -
  let ?n = "unat a * 2 ^ 24 + unat b * 2 ^ 16 + unat c * 2 ^ 8 + unat d"
  have "ipv4_new a b c d = word_of_nat ?n"
  proof -
    have "word_of_nat (unat x) = (ucast x :: u32)" for x :: u8
      by (rule unat_eqI) (simp add: unsigned_of_nat unsigned_ucast_eq)
    then have "word_of_nat ?n = push_bit 24 (ucast a) + push_bit 16 (ucast b) + push_bit 8 (ucast c) + (ucast d :: u32)"
      by (simp add: push_bit_eq_mult)
    also have "\<dots> = ipv4_new a b c d"
      unfolding ipv4_new_def
      by (subst disjunctive_add_eq_or, (rule bit_word_eqI, auto simp: bit_simps dest: bit_imp_le_length)[1])+ (simp add: or.assoc)
    finally show ?thesis by simp
  qed
  moreover have "?n < 2 ^ LENGTH(32)"
    using unat_u8_less [of a] unat_u8_less [of b] unat_u8_less [of c] unat_u8_less [of d] by simp
  ultimately show ?thesis by (simp only: unat_word_of_nat)
qed

lemma last_octet_unat: "unat (ipv4_new a b c d) mod 256 = unat d"
proof -
  have "unat (ipv4_new a b c d) = (unat a * 65536 + unat b * 256 + unat c) * 256 + unat d"
    by (simp add: unat_ipv4_new)
  then show ?thesis using unat_u8_less [of d] by (metis mod_less mod_mult_self3)
qed

lemma in_net_unat:
  "in_net ip n \<longleftrightarrow> unat ip div 2 ^ (32 - prefix_len n) = unat (net_addr n) div 2 ^ (32 - prefix_len n)"
proof -
  have "in_net ip n \<longleftrightarrow> unat (drop_bit (32 - prefix_len n) ip) = unat (drop_bit (32 - prefix_len n) (net_addr n))"
    unfolding in_net_def by (auto intro: unat_eqI)
  then show ?thesis by (simp only: unat_drop_bit_eq drop_bit_eq_div [where 'a = nat])
qed


lemma octets_unat:
  assumes "octets ip = (a, b, c, d)"
  shows "unat a = unat ip div 2 ^ 24" and "unat b = unat ip div 2 ^ 16 mod 256"
    and "unat c = unat ip div 2 ^ 8 mod 256" and "unat d = unat ip mod 256"
proof -
  have "unat (ucast (w :: u32) :: u8) = unat w mod 256" for w
    by (simp add: unsigned_ucast_eq take_bit_eq_mod)
  then have "unat (ucast (drop_bit k ip) :: u8) = unat ip div 2 ^ k mod 256" for k
    by (simp add: unat_drop_bit_eq drop_bit_eq_div [where 'a = nat])
  from this [of 24] this [of 16] this [of 8] this [of 0] assms unat_u32_less [of ip]
  show "unat a = unat ip div 2 ^ 24" and "unat b = unat ip div 2 ^ 16 mod 256"
    and "unat c = unat ip div 2 ^ 8 mod 256" and "unat d = unat ip mod 256"
    by (auto simp: octets_def)
qed

subsection \<open>Guest addresses\<close>

lemma host_octet_bounds:
  fixes x :: u16
  defines "h \<equiv> 2 + (ucast (x mod 253) :: u8)"
  shows "2 \<le> unat h" and "unat h \<le> 254"
proof -
  have "unat (x mod 253) = unat x mod 253" by (simp add: unat_mod)
  then have m: "unat (x mod 253) < 253" by simp
  then have "unat (ucast (x mod 253) :: u8) = unat (x mod 253)"
    by (simp add: unsigned_ucast_eq take_bit_nat_eq_self)
  with m have "unat h = 2 + unat (x mod 253)"
    unfolding h_def by (subst unat_word_ariths) simp
  with m show "2 \<le> unat h" and "unat h \<le> 254" by simp_all
qed

lemma second_octet_bounds:
  fixes x :: u8
  shows "16 \<le> unat (x mod 16 + 16)" and "unat (x mod 16 + 16) < 32"
proof -
  have "unat (x mod 16) = unat x mod 16" by (simp add: unat_mod)
  then have "unat (x mod 16 + 16) = unat x mod 16 + 16"
    by (subst unat_word_ariths) simp
  then show "16 \<le> unat (x mod 16 + 16)" and "unat (x mod 16 + 16) < 32" by simp_all
qed

lemma net_base_24: "net_base \<lparr>net_addr = ipv4_new a b c 0, prefix_len = 24\<rparr> = ipv4_new a b c 0"
  by (rule bit_word_eqI) (auto simp: net_base_def ipv4_new_def bit_simps)

lemma hex_digit_hex: "d < 16 \<Longrightarrow> is_ascii_hexdigit (hex_digit d)"
  by (auto simp: hex_digit_def is_ascii_hexdigit_def is_ascii_digit_def)

lemma mac_of_bytes_valid:
  "is_valid_mac_addr (join '':'' (''02'' # map hex_byte [b1, b2, b3, b4, b5]))"
proof -
  have "is_ascii_hexdigit (hex_digit (unat b div 16))" "is_ascii_hexdigit (hex_digit (unat b mod 16))"
    for b :: u8
    using unat_u8_less [of b] by (auto intro!: hex_digit_hex)
  then show ?thesis
    by (simp add: is_valid_mac_addr_def hex_byte_def is_ascii_hexdigit_def is_ascii_digit_def)
qed

text \<open>Every VM gets a usable address on its run root's bridge: the bridge network is a /24 inside
  172.16.0.0/12, the guest is in it with a host number from 2 to 254, so it is neither the network
  nor the broadcast address nor the gateway, and its MAC is one the MAC parser accepts.\<close>
theorem guest_addressing_usable:
  assumes "ipnet_laws cr" and "derive_guest_addressing cr run_root vm = (ip, mac)"
  shows "in_net ip (derive_bridge_cidr cr run_root) \<and>
    in_net ip \<lparr>net_addr = ipv4_new 172 16 0 0, prefix_len = 12\<rparr> \<and>
    2 \<le> unat ip mod 256 \<and> unat ip mod 256 \<le> 254 \<and>
    (\<forall>b. planned_bridge_state cr run_root = Ok b \<longrightarrow> gateway_ipv4 b \<noteq> ip) \<and>
    mac_addr_parse mac = Ok (MacAddr mac)"
proof -
  let ?o2 = "run_root_digest cr run_root ! 0 mod 16 + 16" and ?o3 = "run_root_digest cr run_root ! 1"
  obtain x :: u16 where ip: "ip = ipv4_new 172 ?o2 ?o3 (2 + ucast (x mod 253))"
    using assms by (auto simp: derive_guest_addressing_def derive_bridge_cidr_def ipnet_laws_def
      net_base_24 Let_def)
  let ?h = "2 + (ucast (x mod 253) :: u8)"
  note h = host_octet_bounds [of x] and o2 = second_octet_bounds [of "run_root_digest cr run_root ! 0"]
  have u: "unat ip = 172 * 2 ^ 24 + unat ?o2 * 2 ^ 16 + unat ?o3 * 2 ^ 8 + unat ?h"
    unfolding ip unat_ipv4_new by simp
  have "in_net ip (derive_bridge_cidr cr run_root)"
    using h unat_u8_less [of ?h] by (simp add: in_net_unat u unat_ipv4_new derive_bridge_cidr_def Let_def)
  moreover have "in_net ip \<lparr>net_addr = ipv4_new 172 16 0 0, prefix_len = 12\<rparr>"
    using o2 unat_u8_less [of ?o3] unat_u8_less [of ?h] by (simp add: in_net_unat u unat_ipv4_new)
  moreover have low: "unat ip mod 256 = unat ?h"
    unfolding ip by (rule last_octet_unat)
  moreover have "gateway_ipv4 b \<noteq> ip" if "planned_bridge_state cr run_root = Ok b" for b
  proof -
    have "gateway_ipv4 b = ipv4_new 172 ?o2 ?o3 0 + 1"
      using that assms(1)
      by (auto simp: planned_bridge_state_def ipnet_laws_def derive_bridge_cidr_def net_base_24 Let_def)
    moreover have "(unat (ipv4_new 172 ?o2 ?o3 0) + 1) mod 2 ^ 32 mod 256 = 1"
    proof -
      have "(unat (ipv4_new 172 ?o2 ?o3 0) + 1) mod 2 ^ 32 mod 256 = (unat (ipv4_new 172 ?o2 ?o3 0) + 1) mod 256"
        by (rule mod_mod_cancel) simp
      also have "\<dots> = 1" using last_octet_unat [of 172 ?o2 ?o3 0] by (simp add: mod_Suc)
      finally show ?thesis .
    qed
    ultimately have "unat (gateway_ipv4 b) mod 256 = 1"
      by (simp add: unat_word_ariths)
    with low h show ?thesis by auto
  qed
  moreover have "is_valid_mac_addr mac"
    using assms(2) mac_of_bytes_valid
    by (auto simp: derive_guest_addressing_def Let_def split: prod.splits)
  ultimately show ?thesis using h by (simp add: mac_addr_parse_def)
qed


text \<open>Every derived interface name fits the kernel's limit of 15 bytes, and tap, veth and bridge names
  of one VM are pairwise different.\<close>
theorem interface_names_fit:
  "length (derive_bridge_name cr run_root) \<le> 15 \<and> length (derive_tap_name cr run_root vm) \<le> 15 \<and>
   length (derive_host_veth_name cr run_root vm) \<le> 15 \<and>
   length (derive_vmm_veth_name cr run_root vm) \<le> 15 \<and>
   length (derive_vmm_bridge_name cr run_root vm) \<le> 15 \<and>
   distinct [derive_bridge_name cr run_root, derive_tap_name cr run_root vm,
     derive_host_veth_name cr run_root vm, derive_vmm_veth_name cr run_root vm,
     derive_vmm_bridge_name cr run_root vm]"
  by (simp add: derive_bridge_name_def derive_tap_name_def derive_host_veth_name_def
    derive_vmm_veth_name_def derive_vmm_bridge_name_def)

subsection \<open>Admitted resolvers\<close>

definition special_use_nets :: "ipv4net list" where
  "special_use_nets =
     [\<lparr>net_addr = ipv4_new 0 0 0 0, prefix_len = 8\<rparr>,
      \<lparr>net_addr = ipv4_new 100 64 0 0, prefix_len = 10\<rparr>,
      \<lparr>net_addr = ipv4_new 127 0 0 0, prefix_len = 8\<rparr>,
      \<lparr>net_addr = ipv4_new 169 254 0 0, prefix_len = 16\<rparr>,
      \<lparr>net_addr = ipv4_new 192 0 2 0, prefix_len = 24\<rparr>,
      \<lparr>net_addr = ipv4_new 198 18 0 0, prefix_len = 15\<rparr>,
      \<lparr>net_addr = ipv4_new 198 51 100 0, prefix_len = 24\<rparr>,
      \<lparr>net_addr = ipv4_new 203 0 113 0, prefix_len = 24\<rparr>,
      \<lparr>net_addr = ipv4_new 224 0 0 0, prefix_len = 4\<rparr>,
      \<lparr>net_addr = ipv4_new 240 0 0 0, prefix_len = 4\<rparr>]"

lemma octets_newD: "octets ip = (a, b, c, d) \<Longrightarrow> ip = ipv4_new a b c d"
proof (rule bit_word_eqI)
  fix n :: nat
  assume o: "octets ip = (a, b, c, d)" and "n < LENGTH(32)"
  then consider "n < 8" | "8 \<le> n" "n < 16" | "16 \<le> n" "n < 24" | "24 \<le> n" "n < 32"
    by fastforce
  then show "bit ip n = bit (ipv4_new a b c d) n"
    using o by cases (auto simp: octets_def ipv4_new_def bit_simps less_diff_conv2)
qed

lemma ipv4_new_div:
  "unat (ipv4_new a b c d) div 16777216 = unat a"
  "unat (ipv4_new a b c d) div 65536 = unat a * 256 + unat b"
  "unat (ipv4_new a b c d) div 256 = unat a * 65536 + unat b * 256 + unat c"
  "unat (ipv4_new a b c d) div 4194304 = unat a * 4 + unat b div 64"
  "unat (ipv4_new a b c d) div 131072 = unat a * 128 + unat b div 2"
  "unat (ipv4_new a b c d) div 268435456 = unat a div 16"
proof -
  let ?n = "unat (ipv4_new a b c d)"
  have n: "?n = ((unat a * 256 + unat b) * 256 + unat c) * 256 + unat d" by (simp add: unat_ipv4_new)
  note lt = unat_u8_less [of a] unat_u8_less [of b] unat_u8_less [of c] unat_u8_less [of d]
  show d3: "?n div 256 = unat a * 65536 + unat b * 256 + unat c"
    using lt by (simp add: n)
  have "?n div 65536 = ?n div 256 div 256" by (simp add: div_mult2_eq [of _ 256 256, simplified])
  then show d2: "?n div 65536 = unat a * 256 + unat b" using lt by (simp add: d3)
  have "?n div 16777216 = ?n div 65536 div 256" by (simp add: div_mult2_eq [of _ 65536 256, simplified])
  then show d1: "?n div 16777216 = unat a" using lt by (simp add: d2)
  have "?n div 4194304 = ?n div 65536 div 64" by (simp add: div_mult2_eq [of _ 65536 64, simplified])
  also have "\<dots> = (unat b + unat a * 4 * 64) div 64" by (simp add: d2)
  finally show "?n div 4194304 = unat a * 4 + unat b div 64" by simp
  have "?n div 131072 = ?n div 65536 div 2" by (simp add: div_mult2_eq [of _ 65536 2, simplified])
  also have "\<dots> = (unat b + unat a * 128 * 2) div 2" by (simp add: d2)
  finally show "?n div 131072 = unat a * 128 + unat b div 2" by simp
  have "?n div 268435456 = ?n div 16777216 div 16" by (simp add: div_mult2_eq [of _ 16777216 16, simplified])
  then show "?n div 268435456 = unat a div 16" by (simp add: d1)
qed

lemma nat_div_eq_iff: "0 < k \<Longrightarrow> x div k = q \<longleftrightarrow> k * q \<le> x \<and> x < k * Suc q" for x k q :: nat
  by (metis div_nat_eqI dividend_less_times_div mult_Suc_right times_div_less_eq_dividend add.commute)

lemma in_net_octets:
  assumes "octets ip = (a, b, c, d)"
  shows "in_net ip \<lparr>net_addr = ipv4_new p 0 0 0, prefix_len = 8\<rparr> \<longleftrightarrow> a = p"
    and "in_net ip \<lparr>net_addr = ipv4_new p q 0 0, prefix_len = 16\<rparr> \<longleftrightarrow> a = p \<and> b = q"
    and "in_net ip \<lparr>net_addr = ipv4_new p q r 0, prefix_len = 24\<rparr> \<longleftrightarrow> a = p \<and> b = q \<and> c = r"
    and "in_net ip \<lparr>net_addr = ipv4_new p q 0 0, prefix_len = 10\<rparr> \<longleftrightarrow> a = p \<and> unat b div 64 = unat q div 64"
    and "in_net ip \<lparr>net_addr = ipv4_new p q 0 0, prefix_len = 15\<rparr> \<longleftrightarrow> a = p \<and> unat b div 2 = unat q div 2"
    and "in_net ip \<lparr>net_addr = ipv4_new p 0 0 0, prefix_len = 4\<rparr> \<longleftrightarrow> unat a div 16 = unat p div 16"
proof -
  note ip = octets_newD [OF assms]
  have split: "x * k + y = x' * k + y' \<longleftrightarrow> x = x' \<and> y = y'" if "y < k" "y' < k" for x y x' y' k :: nat
    using that by (metis div_mult_self3 div_less add.right_neutral mod_mult_self3 mod_less less_nat_zero_code)
  note lt = unat_u8_less [of a] unat_u8_less [of b] unat_u8_less [of c] unat_u8_less [of d]
    unat_u8_less [of p] unat_u8_less [of q] unat_u8_less [of r]
  have eq: "x = y \<longleftrightarrow> unat x = unat y" for x y :: u8 by (auto intro: unat_eqI)
  show "in_net ip \<lparr>net_addr = ipv4_new p 0 0 0, prefix_len = 8\<rparr> \<longleftrightarrow> a = p"
    by (simp add: in_net_unat ip ipv4_new_div eq)
  show "in_net ip \<lparr>net_addr = ipv4_new p q 0 0, prefix_len = 16\<rparr> \<longleftrightarrow> a = p \<and> b = q"
    using lt by (simp add: in_net_unat ip ipv4_new_div eq split)
  show "in_net ip \<lparr>net_addr = ipv4_new p q r 0, prefix_len = 24\<rparr> \<longleftrightarrow> a = p \<and> b = q \<and> c = r"
    using lt split [of "unat c" 256 "unat r" "unat a * 256 + unat b" "unat p * 256 + unat q"]
      split [of "unat b" 256 "unat q" "unat a" "unat p"]
    by (simp add: in_net_unat ip ipv4_new_div eq algebra_simps)
  show "in_net ip \<lparr>net_addr = ipv4_new p q 0 0, prefix_len = 10\<rparr> \<longleftrightarrow> a = p \<and> unat b div 64 = unat q div 64"
    using lt by (simp add: in_net_unat ip ipv4_new_div eq split)
  show "in_net ip \<lparr>net_addr = ipv4_new p q 0 0, prefix_len = 15\<rparr> \<longleftrightarrow> a = p \<and> unat b div 2 = unat q div 2"
    using lt by (simp add: in_net_unat ip ipv4_new_div eq split)
  show "in_net ip \<lparr>net_addr = ipv4_new p 0 0 0, prefix_len = 4\<rparr> \<longleftrightarrow> unat a div 16 = unat p div 16"
    by (simp add: in_net_unat ip ipv4_new_div)
qed


text \<open>A resolver is admitted exactly when it lies in none of the special-use networks (this network,
  shared, loopback, link-local, documentation, benchmarking, multicast and reserved space).\<close>
theorem admitted_resolver_iff:
  "is_admitted_dns_resolver ip \<longleftrightarrow> list_all (\<lambda>n. \<not> in_net ip n) special_use_nets"
proof -
  obtain a b c d where o: "octets ip = (a, b, c, d)" by (cases "octets ip")
  note net = in_net_octets [OF o]
  have ends: "ip = 0 \<Longrightarrow> a = 0" "ip = - 1 \<Longrightarrow> unat a = 255"
    using o octets_unat(1) [OF o]
    by (simp add: octets_def, simp add: unsigned_minus_1_eq_mask mask_eq_exp_minus_1)
  have "unat b div 64 = 1 \<longleftrightarrow> 64 \<le> unat b \<and> unat b \<le> 127"
    "unat b div 2 = 9 \<longleftrightarrow> unat b = 18 \<or> unat b = 19"
    "unat a div 16 = 14 \<longleftrightarrow> 224 \<le> unat a \<and> unat a \<le> 239"
    "unat a div 16 = 15 \<longleftrightarrow> 240 \<le> unat a"
    using unat_u8_less [of a] by (auto simp: nat_div_eq_iff)
  moreover have "x = y \<longleftrightarrow> unat x = unat y" for x y :: u8 by (auto intro: unat_eqI)
  ultimately show ?thesis
    using ends by (auto simp: is_admitted_dns_resolver_def o special_use_nets_def net word_le_nat_alt)
qed

definition resolvers_ok :: "ipv4 list \<Rightarrow> bool" where
  "resolvers_ok rs \<longleftrightarrow> distinct rs \<and> list_all is_admitted_dns_resolver rs"

lemma push_admitted_ok: "resolvers_ok rs \<Longrightarrow> resolvers_ok (push_admitted_resolver rs c)"
  by (auto simp: resolvers_ok_def push_admitted_resolver_def list_all_iff split: option.splits)

lemma foldl_invariant: "P s \<Longrightarrow> (\<And>s x. P s \<Longrightarrow> P (f s x)) \<Longrightarrow> P (foldl f s xs)"
  by (induction xs arbitrary: s) auto

lemma parsed_resolvers_ok:
  "resolvers_ok (parse_resolver_tokens txt)" "resolvers_ok (parse_resolv_conf txt)"
  unfolding parse_resolver_tokens_def parse_resolv_conf_def
  by (rule foldl_invariant [where P = resolvers_ok];
      auto simp: resolvers_ok_def [of "[]"] split: list.splits intro: push_admitted_ok)+

text \<open>Whatever the host's tools and files say, discovery either fails or returns a non-empty list of
  distinct, admitted resolvers.\<close>
theorem discovered_resolvers_admitted:
  assumes "discover_dns_resolvers_with_ops ops w = (Ok rs, w')"
  shows "rs \<noteq> [] \<and> distinct rs \<and> list_all is_admitted_dns_resolver rs"
  unfolding resolvers_ok_def [symmetric]
  using assms parsed_resolvers_ok
  by (auto simp: discover_dns_resolvers_with_ops_def resolv_conf_resolvers_def Let_def result_simps
    split: prod.splits result.splits if_splits)

subsection \<open>A concrete host\<close>

definition sample_crates :: net_crates where
  "sample_crates =
     \<lparr>sha256 = (\<lambda>bs. map (\<lambda>i. word_of_nat (7 * i + length bs)) [0..<32]), hex = hex_encode,
      net_first_host = (\<lambda>n. Some (net_base n + 1)), net_contains = (\<lambda>n ip. in_net ip n),
      net_network = net_base\<rparr>"

lemma sample_crates_laws: "ipnet_laws sample_crates"
  by (simp add: ipnet_laws_def sample_crates_def)

definition sample_routes :: string where
  "sample_routes = ''Iface Destination Gateway Flags RefCnt Use Metric Mask MTU'' @ [CHR 0x0A] @
     ''eth0 0000A8C0 00000000 0001 0 0 0 00FFFFFF 0'' @ [CHR 0x0A]"

theorem guest_addressing_usable_witness:
  "in_net (fst (derive_guest_addressing sample_crates ''/run/m80'' ''vm-1''))
     (derive_bridge_cidr sample_crates ''/run/m80'')"
  using guest_addressing_usable [OF sample_crates_laws prod.collapse [symmetric]] by blast

theorem discovered_resolvers_admitted_witness:
  "discover_dns_resolvers_with_ops
     \<lparr>dns_command_output = (\<lambda>_ _. fail (NetIo ''not found'')),
      dns_read_to_string = (\<lambda>_. ret ''nameserver 9.9.9.9'')\<rparr> () = (Ok [ipv4_new 9 9 9 9], ()) \<and>
   list_all is_admitted_dns_resolver [ipv4_new 9 9 9 9]"
proof -
  have run: "discover_dns_resolvers_with_ops
     \<lparr>dns_command_output = (\<lambda>_ _. fail (NetIo ''not found'')),
      dns_read_to_string = (\<lambda>_. ret ''nameserver 9.9.9.9'')\<rparr> () = (Ok [ipv4_new 9 9 9 9], ())"
    by code_simp
  from discovered_resolvers_admitted [OF run] run show ?thesis by blast
qed

lemma sample_route_lines:
  "str_lines sample_routes = [''Iface Destination Gateway Flags RefCnt Use Metric Mask MTU'',
     ''eth0 0000A8C0 00000000 0001 0 0 0 00FFFFFF 0'']"
  by code_simp

lemma sample_route_columns:
  "split_whitespace ''eth0 0000A8C0 00000000 0001 0 0 0 00FFFFFF 0'' =
     [''eth0'', ''0000A8C0'', ''00000000'', ''0001'', ''0'', ''0'', ''0'', ''00FFFFFF'', ''0'']"
  "trim ''eth0 0000A8C0 00000000 0001 0 0 0 00FFFFFF 0'' \<noteq> []"
  by code_simp+

lemma sample_hex:
  "u32_from_str_radix_16 ''0000A8C0'' = Some 0xA8C0" "u32_from_str_radix_16 ''00FFFFFF'' = Some 0xFFFFFF"
  by (simp_all add: u32_from_str_radix_16_def hex_value_def Let_def)

lemma sample_addresses:
  "parse_proc_route_ipv4 ''0000A8C0'' path = Ok (ipv4_new 192 168 0 0)"
  "parse_proc_route_ipv4 ''00FFFFFF'' path = Ok (ipv4_new 255 255 255 0)"
  by (simp_all add: parse_proc_route_ipv4_def sample_hex)

lemma sample_mask: "ipv4_mask_prefix_len (ipv4_new 255 255 255 0) = Some 24"
proof -
  have "ipv4_new 255 255 255 0 = push_bit (32 - 24) (- 1)"
    by (rule unat_eqI) (simp add: unat_ipv4_new push_bit_eq_mult)
  then show ?thesis using count_ones_top [of 24] by (simp add: ipv4_mask_prefix_len_def Let_def)
qed

lemma sample_routes_parsed:
  "parse_host_routes sample_routes ''/proc/net/route'' =
     Ok [\<lparr>interface = ''eth0'', route_cidr = \<lparr>net_addr = ipv4_new 192 168 0 0, prefix_len = 24\<rparr>\<rparr>]"
  by (simp add: parse_host_routes_def sample_route_lines sample_route_columns sample_addresses sample_mask
    del: split_whitespace.simps)

theorem planned_network_is_free_witness:
  "\<not> (in_net (ipv4_new 192 168 0 9) \<lparr>net_addr = ipv4_new 172 16 5 0, prefix_len = 24\<rparr> \<and>
      in_net (ipv4_new 192 168 0 9) \<lparr>net_addr = ipv4_new 192 168 0 0, prefix_len = 24\<rparr>)"
proof -
  let ?net = "\<lparr>net_addr = ipv4_new 172 16 5 0, prefix_len = 24\<rparr>"
  have "\<not> ipv4_net_overlaps sample_crates ?net \<lparr>net_addr = ipv4_new 192 168 0 0, prefix_len = 24\<rparr>"
    by (simp add: ipv4_net_overlaps_def sample_crates_def in_net_octets net_base_24)
  then have ok: "reject_host_route_collision_from_proc_net_route sample_crates ?net None sample_routes = Ok ()"
    by (simp add: reject_host_route_collision_from_proc_net_route_def sample_routes_parsed)
  from planned_network_is_free [OF sample_crates_laws ok sample_routes_parsed]
  show ?thesis by simp
qed

end
