(* ===== verification/Net_Policy.thy ===== *)
theory Net_Policy
  imports Net_Addressing
begin

text \<open>
  The default-deny firewall of an outbound VM (\<open>m80-net-outbound/src/iptables.rs\<close>): the planned rules
  token by token, their installation through the \<open>PolicyOps\<close> seam, and what the rules decide, under
  the first-match reading of the option tokens that \<open>iptables(8)\<close> documents.
\<close>

subsection \<open>Planned rules\<close>

definition RULE_COMMENT_PREFIX :: string where
  "RULE_COMMENT_PREFIX = ''m80''"

definition TCP_SYN_CONN_LIMIT_PER_VM :: nat where
  "TCP_SYN_CONN_LIMIT_PER_VM = 256"

record planned_rule =
  rule_table :: string
  rule_chain :: string
  rule_spec :: "string list"
  rule_insert :: bool

definition planned_append :: "string \<Rightarrow> string \<Rightarrow> string list \<Rightarrow> planned_rule" where
  "planned_append table chain spec =
     \<lparr>rule_table = table, rule_chain = chain, rule_spec = spec, rule_insert = False\<rparr>"

definition planned_insert :: "string \<Rightarrow> string \<Rightarrow> string list \<Rightarrow> planned_rule" where
  "planned_insert table chain spec =
     \<lparr>rule_table = table, rule_chain = chain, rule_spec = spec, rule_insert = True\<rparr>"

definition restore_line :: "planned_rule \<Rightarrow> string" where
  "restore_line r =
     (let operation = (if rule_insert r then ''-I'' else ''-A'');
          parts = [operation, rule_chain r] @ (if rule_insert r then [''1''] else []) @ rule_spec r
      in join '' '' parts)"

definition iptables_args :: "string \<Rightarrow> string \<Rightarrow> string \<Rightarrow> string list \<Rightarrow> string list" where
  "iptables_args table operation chain rest = [''-w'', ''-t'', table, operation, chain] @ rest"

definition digest_path :: "net_crates \<Rightarrow> string \<Rightarrow> string" where
  "digest_path cr path = hex cr (sha256 cr (str_bytes path))"

definition outbound_nat_filter_chain :: "net_crates \<Rightarrow> vm_network_state \<Rightarrow> string" where
  "outbound_nat_filter_chain cr st = ''tfw'' @ take 12 (digest_path cr (vm_run_dir st))"

definition outbound_nat_rule_comment :: "net_crates \<Rightarrow> vm_network_state \<Rightarrow> string" where
  "outbound_nat_rule_comment cr st =
     RULE_COMMENT_PREFIX @ '':'' @ take 12 (digest_path cr (br_run_root (bridge st))) @ '':'' @ tap_name st"

definition permanent_deny_cidrs :: "ipv4net \<Rightarrow> ipv4net list" where
  "permanent_deny_cidrs bridge_cidr =
     map (\<lambda>(a, b, c, p). \<lparr>net_addr = ipv4_new a b c 0, prefix_len = p\<rparr>)
       [(0, 0, 0, 8), (10, 0, 0, 8), (100, 64, 0, 10), (127, 0, 0, 8), (169, 254, 0, 16),
        (172, 16, 0, 12), (192, 168, 0, 16), (192, 0, 2, 24), (198, 18, 0, 15), (198, 51, 100, 24),
        (203, 0, 113, 24), (224, 0, 0, 4), (240, 0, 0, 4)] @ [bridge_cidr]"

definition comment_tokens :: "string \<Rightarrow> string \<Rightarrow> string list" where
  "comment_tokens comment target = [''-m'', ''comment'', ''--comment'', comment, ''-j'', target]"

definition dns_accept_rules :: "string \<Rightarrow> string \<Rightarrow> ipv4 \<Rightarrow> planned_rule list" where
  "dns_accept_rules chain comment resolver =
     map (\<lambda>protocol. planned_append ''filter'' chain
       ([''-p'', protocol, ''-d'', ipv4_to_string resolver, ''--dport'', ''53''] @
        comment_tokens comment ''ACCEPT'')) [''udp'', ''tcp'']"

definition ensure_filter_chain_rules :: "vm_network_state \<Rightarrow> string \<Rightarrow> string \<Rightarrow> planned_rule list" where
  "ensure_filter_chain_rules st chain comment =
     concat (map (dns_accept_rules chain comment) (dns_resolvers st)) @
     map (\<lambda>protocol. planned_append ''filter'' chain
       ([''-p'', protocol, ''--dport'', ''53''] @ comment_tokens comment ''REJECT'')) [''udp'', ''tcp''] @
     map (\<lambda>exception. planned_append ''filter'' chain
       ([''-d'', ipv4net_to_string exception] @ comment_tokens comment ''ACCEPT''))
       (private_ipv4_exceptions st) @
     map (\<lambda>cidr. planned_append ''filter'' chain
       ([''-d'', ipv4net_to_string cidr] @ comment_tokens comment ''REJECT''))
       (permanent_deny_cidrs (br_cidr (bridge st))) @
     [planned_append ''filter'' chain ([''-p'', ''icmp''] @ comment_tokens comment ''REJECT''),
      planned_append ''filter'' chain (comment_tokens comment ''ACCEPT'')]"

definition guest_host_cidr :: "vm_network_state \<Rightarrow> string" where
  "guest_host_cidr st = ipv4_to_string (guest_ipv4 st) @ ''/32''"

definition ensure_forwarding_entry_rules :: "vm_network_state \<Rightarrow> string \<Rightarrow> string \<Rightarrow> planned_rule list" where
  "ensure_forwarding_entry_rules st chain comment =
     (let guest = guest_host_cidr st; br = bridge_name (bridge st)
      in [planned_insert ''filter'' ''FORWARD''
            ([''-i'', br, ''-s'', guest, ''-m'', ''physdev'', ''--physdev-in'', host_veth_name st] @
             comment_tokens comment chain),
          planned_insert ''filter'' ''FORWARD''
            ([''-o'', br, ''-d'', guest] @ comment_tokens comment ''REJECT''),
          planned_insert ''filter'' ''FORWARD''
            ([''-o'', br, ''-d'', guest, ''-m'', ''conntrack'', ''--ctstate'', ''RELATED,ESTABLISHED''] @
             comment_tokens comment ''ACCEPT''),
          planned_insert ''filter'' ''FORWARD''
            ([''-i'', br, ''-s'', guest, ''-p'', ''tcp'', ''--syn'', ''-m'', ''physdev'', ''--physdev-in'',
              host_veth_name st, ''-m'', ''connlimit'', ''--connlimit-above'',
              nat_to_string TCP_SYN_CONN_LIMIT_PER_VM, ''--connlimit-mask'', ''32''] @
             comment_tokens comment ''REJECT'')])"

definition ensure_nat_masquerade_rule :: "vm_network_state \<Rightarrow> string \<Rightarrow> planned_rule" where
  "ensure_nat_masquerade_rule st comment =
     planned_append ''nat'' ''POSTROUTING'' ([''-s'', guest_host_cidr st] @ comment_tokens comment ''MASQUERADE'')"

definition expected_policy_rules :: "vm_network_state \<Rightarrow> string \<Rightarrow> string \<Rightarrow> planned_rule list" where
  "expected_policy_rules st chain comment =
     ensure_filter_chain_rules st chain comment @ ensure_forwarding_entry_rules st chain comment @
     [ensure_nat_masquerade_rule st comment]"

subsection \<open>Installing the policy\<close>

text \<open>The \<open>PolicyOps\<close> trait: a command that reports its output, and one that is fed standard input.\<close>
record 'w policy_ops =
  policy_command_output :: "string \<Rightarrow> string list \<Rightarrow> ('w, command_output, net_error) eff"
  policy_run_command_input :: "string \<Rightarrow> string list \<Rightarrow> string \<Rightarrow> ('w, unit, net_error) eff"

definition run_command :: "'w policy_ops \<Rightarrow> string \<Rightarrow> string list \<Rightarrow> ('w, unit, net_error) eff" where
  "run_command ops program args =
     bind_eff (policy_command_output ops program args) (\<lambda>out.
       if status_success out then ret () else fail (NetworkCommandFailed program (stderr out)))"

definition iptables_state_path :: "string \<Rightarrow> string \<Rightarrow> string" where
  "iptables_state_path table chain = ''iptables:'' @ table @ '':'' @ chain"

definition validate_ready_state :: "vm_network_state \<Rightarrow> (unit, net_error) result" where
  "validate_ready_state st =
     (if vm_setup_phase st \<noteq> Ready then
        Err (InvalidNetworkState (vm_run_dir st) ''VM network state must be ready before policy installation'')
      else if br_setup_phase (bridge st) \<noteq> Ready then
        Err (InvalidNetworkState (vm_run_dir st) ''bridge state must be ready before policy installation'')
      else if \<not> runtime_rootfs_configured st \<or> dns_resolvers st = [] then
        Err (InvalidNetworkState (vm_run_dir st)
          ''OutboundNat policy requires runtime rootfs DNS configuration first'')
      else Ok ())"

definition ensure_ipv4_forwarding :: "'w policy_ops \<Rightarrow> ('w, unit, net_error) eff" where
  "ensure_ipv4_forwarding ops = run_command ops ''sysctl'' [''-w'', ''net.ipv4.ip_forward=1'']"

definition disable_ipv6_on_link :: "'w policy_ops \<Rightarrow> string \<Rightarrow> ('w, unit, net_error) eff" where
  "disable_ipv6_on_link ops link_name =
     run_command ops ''sysctl'' [''-w'', ''net.ipv6.conf.'' @ link_name @ ''.disable_ipv6=1'']"

definition ensure_host_network_sysctls :: "'w policy_ops \<Rightarrow> vm_network_state \<Rightarrow> ('w, unit, net_error) eff" where
  "ensure_host_network_sysctls ops st =
     bind_eff (ensure_ipv4_forwarding ops) (\<lambda>_.
     bind_eff (disable_ipv6_on_link ops (bridge_name (bridge st))) (\<lambda>_.
       disable_ipv6_on_link ops (host_veth_name st)))"

definition ensure_iptables_chain :: "'w policy_ops \<Rightarrow> string \<Rightarrow> string \<Rightarrow> ('w, unit, net_error) eff" where
  "ensure_iptables_chain ops table chain =
     bind_eff (policy_command_output ops ''iptables'' (iptables_args table ''-S'' chain [])) (\<lambda>out.
       if status_success out then ret ()
       else run_command ops ''iptables'' (iptables_args table ''-N'' chain []))"

fun reject_foreign_lines :: "string \<Rightarrow> string \<Rightarrow> string list \<Rightarrow> (unit, net_error) result" where
  "reject_foreign_lines chain comment [] = Ok ()"
| "reject_foreign_lines chain comment (l # ls) =
     (let line = trim l
      in if line = [] \<or> line = ''-N '' @ chain then reject_foreign_lines chain comment ls
         else if \<not> str_contains line comment then Err (ForeignChainRule line)
         else reject_foreign_lines chain comment ls)"

definition reject_foreign_iptables_chain_rules ::
    "'w policy_ops \<Rightarrow> string \<Rightarrow> string \<Rightarrow> string \<Rightarrow> ('w, unit, net_error) eff" where
  "reject_foreign_iptables_chain_rules ops table chain comment =
     bind_eff (policy_command_output ops ''iptables'' (iptables_args table ''-S'' chain [])) (\<lambda>out.
       if \<not> status_success out then
         fail (InvalidNetworkState (iptables_state_path table chain)
           ''owned policy chain disappeared after creation'')
       else lift_result (reject_foreign_lines chain comment (str_lines (stdout out))))"

definition split_iptables_rule_spec :: "string \<Rightarrow> string list" where
  "split_iptables_rule_spec rule = map (trim_matches (\<lambda>c. c = CHR 0x22)) (split_whitespace rule)"

text \<open>\<open>{:?}\<close> on a string of printable characters and the blanks of the C locale.\<close>
definition debug_char :: "char \<Rightarrow> string" where
  "debug_char c =
     (if c = CHR 0x22 \<or> c = CHR 0x5C then [CHR 0x5C, c]
      else if c = CHR 0x09 then [CHR 0x5C, CHR ''t'']
      else if c = CHR 0x0A then [CHR 0x5C, CHR ''n'']
      else if c = CHR 0x0D then [CHR 0x5C, CHR ''r'']
      else [c])"

definition debug_str :: "string \<Rightarrow> string" where
  "debug_str s = [CHR 0x22] @ concat (map debug_char s) @ [CHR 0x22]"

fun parse_rule_lines :: "string \<Rightarrow> string \<Rightarrow> string list \<Rightarrow> (string list, net_error) result" where
  "parse_rule_lines table chain [] = Ok []"
| "parse_rule_lines table chain (l # ls) =
     (let line = trim l
      in if line = [] \<or> line = ''-N '' @ chain \<or> starts_with line (''-P '' @ chain @ '' '')
         then parse_rule_lines table chain ls
         else
           (case strip_prefix line (''-A '' @ chain @ '' '') of
              None \<Rightarrow> Err (NetworkAllocationConflict (iptables_state_path table chain)
                        (''unexpected iptables-save rule shape '' @ debug_str line))
            | Some rest \<Rightarrow> and_then (parse_rule_lines table chain ls) (\<lambda>rules. Ok (rest # rules))))"

definition list_iptables_rule_specs ::
    "'w policy_ops \<Rightarrow> string \<Rightarrow> string \<Rightarrow> ('w, string list list option, net_error) eff" where
  "list_iptables_rule_specs ops table chain =
     bind_eff (policy_command_output ops ''iptables'' (iptables_args table ''-S'' chain [])) (\<lambda>out.
       if \<not> status_success out then ret None
       else lift_result (and_then (parse_rule_lines table chain (str_lines (stdout out)))
              (\<lambda>rules. Ok (Some (map split_iptables_rule_spec rules)))))"

definition rule_exists_in_specs :: "string list list option \<Rightarrow> planned_rule \<Rightarrow> bool" where
  "rule_exists_in_specs installed rule =
     (case installed of None \<Rightarrow> False | Some specs \<Rightarrow> rule_spec rule \<in> set specs)"

text \<open>The loop that lists each chain once (\<open>installed_by_chain\<close>) and collects the missing rules.\<close>
fun missing_policy_rules ::
    "'w policy_ops \<Rightarrow> (string \<times> string \<Rightarrow> string list list option option) \<Rightarrow> planned_rule list
     \<Rightarrow> ('w, planned_rule list, net_error) eff" where
  "missing_policy_rules ops cache [] = ret []"
| "missing_policy_rules ops cache (rule # rules) =
     (let key = (rule_table rule, rule_chain rule)
      in bind_eff (case cache key of
             Some installed \<Rightarrow> ret installed
           | None \<Rightarrow> list_iptables_rule_specs ops (rule_table rule) (rule_chain rule)) (\<lambda>installed.
         bind_eff (missing_policy_rules ops (cache(key := Some installed)) rules) (\<lambda>missing.
           ret (if rule_exists_in_specs installed rule then missing else rule # missing))))"

definition build_iptables_restore_input :: "planned_rule list \<Rightarrow> string" where
  "build_iptables_restore_input rules =
     concat (map (\<lambda>table.
       (let table_rules = filter (\<lambda>rule. rule_table rule = table) rules
        in if table_rules = [] then []
           else ''*'' @ table @ [CHR 0x0A] @
                concat (map (\<lambda>rule. restore_line rule @ [CHR 0x0A]) table_rules) @
                ''COMMIT'' @ [CHR 0x0A])) [''filter'', ''nat''])"

definition restore_missing_policy_rules :: "'w policy_ops \<Rightarrow> planned_rule list \<Rightarrow> ('w, unit, net_error) eff" where
  "restore_missing_policy_rules ops expected =
     bind_eff (missing_policy_rules ops (\<lambda>_. None) expected) (\<lambda>missing.
       if missing = [] then ret ()
       else policy_run_command_input ops ''iptables-restore'' [''-w'', ''--noflush'']
              (build_iptables_restore_input missing))"

definition apply_outbound_nat_policy_with_ops ::
    "net_crates \<Rightarrow> 'w policy_ops \<Rightarrow> vm_network_state \<Rightarrow> ('w, unit, net_error) eff" where
  "apply_outbound_nat_policy_with_ops cr ops st =
     bind_eff (lift_result (validate_ready_state st)) (\<lambda>_.
     (let chain = outbound_nat_filter_chain cr st; comment = outbound_nat_rule_comment cr st
      in bind_eff (ensure_iptables_chain ops ''filter'' chain) (\<lambda>_.
         bind_eff (reject_foreign_iptables_chain_rules ops ''filter'' chain comment) (\<lambda>_.
         bind_eff (ensure_host_network_sysctls ops st) (\<lambda>_.
           restore_missing_policy_rules ops (expected_policy_rules st chain comment))))))"

end
