(* ===== verification/Tokens.thy ===== *)
theory Tokens
  imports Prelude
begin

text \<open>
  Words of a line: what \<open>split_whitespace\<close> makes of concatenated, joined and trimmed texts. The firewall rules, the
  kernel command line and the tables of the host are all read this way.
\<close>

definition is_token :: "string \<Rightarrow> bool" where
  "is_token s \<longleftrightarrow> s \<noteq> [] \<and> list_all (\<lambda>c. \<not> is_ws c) s"

lemma split_whitespace_token: "is_token w \<Longrightarrow> split_whitespace w = [w]"
proof (induction w)
  case (Cons c w)
  then show ?case by (cases w) (simp_all add: is_token_def)
qed (simp add: is_token_def)

lemma split_whitespace_token_blank:
  "is_token w \<Longrightarrow> split_whitespace (w @ CHR '' '' # s) = w # split_whitespace s"
proof (induction w)
  case (Cons c w)
  then show ?case by (cases w) (simp_all add: is_token_def is_ws_def [of "CHR '' ''"])
qed (simp add: is_token_def)

lemma split_whitespace_join: "list_all is_token ws \<Longrightarrow> split_whitespace (join '' '' ws) = ws"
  by (induction "'' ''" ws rule: join.induct) (auto simp: split_whitespace_token split_whitespace_token_blank)

lemma split_whitespace_blank: "is_ws b \<Longrightarrow> split_whitespace (s @ b # t) = split_whitespace s @ split_whitespace t"
proof (induction s rule: split_whitespace.induct)
  case (2 c cs)
  show ?case
  proof (cases cs)
    case Nil
    with 2(4) show ?thesis by simp
  next
    case (Cons d ds)
    have "split_whitespace (d # ds) \<noteq> []" if "\<not> is_ws d" using that by (auto split: list.splits)
    with 2 Cons show ?thesis by (auto split: list.splits)
  qed
qed simp

lemma split_whitespace_all_blank: "list_all is_ws s \<Longrightarrow> split_whitespace s = []"
  by (induction s) auto

lemma split_whitespace_trim_start: "split_whitespace (dropWhile is_ws s) = split_whitespace s"
  by (induction s) auto

lemma split_whitespace_snoc_blank: "is_ws b \<Longrightarrow> split_whitespace (s @ [b]) = split_whitespace s"
  using split_whitespace_blank [of b s "[]"] by simp

lemma split_whitespace_trim_end: "split_whitespace (trim_end s) = split_whitespace s"
proof (induction s rule: rev_induct)
  case (snoc c s)
  then show ?case by (cases "is_ws c") (simp_all add: trim_end_def split_whitespace_snoc_blank)
qed (simp add: trim_end_def)

lemma split_whitespace_trim [simp]: "split_whitespace (trim s) = split_whitespace s"
  by (simp add: trim_def split_whitespace_trim_end trim_start_def split_whitespace_trim_start)

lemma split_whitespace_tokens: "list_all is_token (split_whitespace s)"
  by (induction s rule: split_whitespace.induct) (auto simp: is_token_def split: list.splits)

end
