(* ===== verification/Packet_Filter.thy ===== *)
theory Packet_Filter
  imports Net_Policy Tokens
begin

text \<open>
  What the planned rules of \<open>Net_Policy\<close> decide. A rule is read as \<open>iptables(8)\<close> documents its options:
  every match option of its token list has to hold, and the first rule of a chain that matches gives
  the target. \<open>iptables-restore --noflush\<close> is read line by line from the text that the program feeds it.
  Under this reading the generated text installs, for every packet of a VM, the decision the
  module's documentation states.
\<close>

subsection \<open>Printing and parsing addresses\<close>

lemma parse_octet_print: "parse_octet (nat_to_string (unat x)) = Some x"
proof -
  have "unat x < 256" by (rule unat_u8_less)
  then have "length (nat_to_string (unat x)) \<le> 3"
    using length_nat_to_string [of "unat x" 2] by (simp add: numeral_3_eq_3)
  moreover have "hd (nat_to_string (unat x)) = CHR ''0'' \<longrightarrow> length (nat_to_string (unat x)) = 1"
    using hd_nat_to_string [of "unat x"] by (cases "unat x = 0") (auto simp: nat_to_string.simps)
  ultimately show ?thesis
    using \<open>unat x < 256\<close>
    by (simp add: parse_octet_def nat_to_string_digits nat_to_string_value)
qed

lemma parse_ipv4_print: "parse_ipv4 (ipv4_to_string ip) = Some ip"
proof -
  obtain a b c d where o: "octets ip = (a, b, c, d)" by (cases "octets ip")
  have "split_on (CHR ''.'') (ipv4_to_string ip) = map (\<lambda>x. nat_to_string (unat x)) [a, b, c, d]"
    unfolding ipv4_to_string_def o prod.case
    by (rule split_on_join) (auto simp: digit_not_in is_ascii_digit_def)
  then show ?thesis
    by (simp add: parse_ipv4_def parse_octet_print octets_newD [OF o])
qed

subsection \<open>What a rule matches\<close>

text \<open>A packet as the rules see it; \<open>connections\<close> is the count \<open>connlimit\<close> has for its source.\<close>
record packet =
  pkt_in :: string
  pkt_out :: string
  pkt_physdev_in :: string
  pkt_src :: ipv4
  pkt_dst :: ipv4
  pkt_proto :: string
  pkt_dport :: nat
  pkt_syn :: bool
  pkt_established :: bool
  connections :: nat

definition parse_cidr :: "string \<Rightarrow> ipv4net option" where
  "parse_cidr s =
     (case split_on (CHR ''/'') s of
        [a] \<Rightarrow> map_option (\<lambda>ip. \<lparr>net_addr = ip, prefix_len = 32\<rparr>) (parse_ipv4 a)
      | [a, p] \<Rightarrow> map_option (\<lambda>ip. \<lparr>net_addr = ip,
            prefix_len = foldl (\<lambda>acc c. 10 * acc + (of_char c - 48)) 0 p\<rparr>) (parse_ipv4 a)
      | _ \<Rightarrow> None)"

definition addr_matches :: "string \<Rightarrow> ipv4 \<Rightarrow> bool" where
  "addr_matches s ip = (case parse_cidr s of None \<Rightarrow> False | Some n \<Rightarrow> in_net ip n)"

definition option_matches :: "string \<Rightarrow> string \<Rightarrow> packet \<Rightarrow> bool" where
  "option_matches opt arg p =
     (if opt = ''-p'' then pkt_proto p = arg
      else if opt = ''-d'' then addr_matches arg (pkt_dst p)
      else if opt = ''-s'' then addr_matches arg (pkt_src p)
      else if opt = ''-i'' then pkt_in p = arg
      else if opt = ''-o'' then pkt_out p = arg
      else if opt = ''--dport'' then nat_to_string (pkt_dport p) = arg
      else if opt = ''--physdev-in'' then pkt_physdev_in p = arg
      else if opt = ''--ctstate'' then pkt_established p
      else if opt = ''--connlimit-above'' then
        connections p > foldl (\<lambda>acc c. 10 * acc + (of_char c - 48)) 0 arg
      else opt \<in> {''-m'', ''--comment'', ''--connlimit-mask'', ''-j''})"

fun spec_matches :: "string list \<Rightarrow> packet \<Rightarrow> bool" where
  "spec_matches [] p = True"
| "spec_matches [opt] p = (opt = ''--syn'' \<and> pkt_syn p)"
| "spec_matches (opt # arg # rest) p =
     (if opt = ''--syn'' then pkt_syn p \<and> spec_matches (arg # rest) p
      else option_matches opt arg p \<and> spec_matches rest p)"

fun spec_target :: "string list \<Rightarrow> string" where
  "spec_target [] = []"
| "spec_target [opt] = []"
| "spec_target (opt # arg # rest) =
     (if opt = ''-j'' then arg else if opt = ''--syn'' then spec_target (arg # rest) else spec_target rest)"

text \<open>The target of the first rule that matches.\<close>
fun chain_verdict :: "string list list \<Rightarrow> packet \<Rightarrow> string option" where
  "chain_verdict [] p = None"
| "chain_verdict (spec # specs) p =
     (if spec_matches spec p then Some (spec_target spec) else chain_verdict specs p)"

lemma chain_verdict_append:
  "chain_verdict (xs @ ys) p = (case chain_verdict xs p of None \<Rightarrow> chain_verdict ys p | Some t \<Rightarrow> Some t)"
  by (induction xs) auto

lemma chain_verdict_map_same:
  assumes "\<And>x. x \<in> set xs \<Longrightarrow> spec_target (f x) = t"
  shows "chain_verdict (map f xs) p = (if \<exists>x \<in> set xs. spec_matches (f x) p then Some t else None)"
  using assms by (induction xs) auto

lemma no_slash_in_ipv4: "CHR ''/'' \<notin> set (ipv4_to_string x)"
proof -
  have "set (join ''.'' ps) \<subseteq> {CHR ''.''} \<union> \<Union> (set ` set ps)" for ps
    by (induction "''.''" ps rule: join.induct) auto
  then show ?thesis
    by (cases "octets x") (auto simp: ipv4_to_string_def digit_not_in is_ascii_digit_def)
qed

lemma addr_matches_net: "addr_matches (ipv4net_to_string n) ip \<longleftrightarrow> in_net ip n"
proof -
  have "split_on (CHR ''/'') (ipv4net_to_string n) = [ipv4_to_string (net_addr n), nat_to_string (prefix_len n)]"
    by (simp add: ipv4net_to_string_def split_on_append no_slash_in_ipv4 split_on_none digit_not_in is_ascii_digit_def)
  then show ?thesis
    by (simp add: addr_matches_def parse_cidr_def parse_ipv4_print nat_to_string_value in_net_def)
qed

lemma nat_to_string_53: "nat_to_string n = ''53'' \<longleftrightarrow> n = 53"
proof -
  have "nat_to_string 53 = ''53''" by (simp add: nat_to_string.simps)
  then show ?thesis by (metis nat_to_string_inj)
qed

lemma addr_matches_host [simp]: "addr_matches (ipv4_to_string r) ip \<longleftrightarrow> ip = r"
  by (simp add: addr_matches_def parse_cidr_def split_on_none no_slash_in_ipv4 parse_ipv4_print in_net_def)

lemma addr_matches_guest [simp]: "addr_matches (ipv4_to_string r @ ''/32'') ip \<longleftrightarrow> ip = r"
  by (simp add: addr_matches_def parse_cidr_def split_on_append split_on_none no_slash_in_ipv4
    parse_ipv4_print in_net_def)

text \<open>Each option the planned rules use, read once.\<close>

lemma option_readings [simp]:
  "option_matches ''-p'' arg p \<longleftrightarrow> pkt_proto p = arg"
  "option_matches ''-d'' arg p \<longleftrightarrow> addr_matches arg (pkt_dst p)"
  "option_matches ''-s'' arg p \<longleftrightarrow> addr_matches arg (pkt_src p)"
  "option_matches ''-i'' arg p \<longleftrightarrow> pkt_in p = arg"
  "option_matches ''-o'' arg p \<longleftrightarrow> pkt_out p = arg"
  "option_matches ''--dport'' ''53'' p \<longleftrightarrow> pkt_dport p = 53"
  "option_matches ''--physdev-in'' arg p \<longleftrightarrow> pkt_physdev_in p = arg"
  "option_matches ''--ctstate'' arg p \<longleftrightarrow> pkt_established p"
  "option_matches ''--connlimit-above'' (nat_to_string n) p \<longleftrightarrow> n < connections p"
  "option_matches ''--connlimit-mask'' arg p"
  "option_matches ''-m'' arg p"
  "option_matches ''-j'' arg p"
  "option_matches ''--comment'' arg p"
  by (simp_all add: option_matches_def nat_to_string_53 nat_to_string_value)

lemma comment_tail [simp]:
  "spec_matches (comment_tokens comment target) p"
  "spec_target (comment_tokens comment target) = target"
  by (simp_all add: comment_tokens_def)

lemma planned_simps [simp]:
  "rule_spec (planned_append t c s) = s" "rule_spec (planned_insert t c s) = s"
  "rule_table (planned_append t c s) = t" "rule_table (planned_insert t c s) = t"
  "rule_chain (planned_append t c s) = c" "rule_chain (planned_insert t c s) = c"
  "rule_insert (planned_insert t c s)" "\<not> rule_insert (planned_append t c s)"
  by (simp_all add: planned_append_def planned_insert_def)

text \<open>The decision the policy is meant to make for a packet of the guest.\<close>
definition egress_decision :: "vm_network_state \<Rightarrow> packet \<Rightarrow> string" where
  "egress_decision st p =
     (if pkt_proto p \<in> {''udp'', ''tcp''} \<and> pkt_dport p = 53
      then (if pkt_dst p \<in> set (dns_resolvers st) then ''ACCEPT'' else ''REJECT'')
      else if \<exists>n \<in> set (private_ipv4_exceptions st). in_net (pkt_dst p) n then ''ACCEPT''
      else if \<exists>n \<in> set (permanent_deny_cidrs (br_cidr (bridge st))). in_net (pkt_dst p) n then ''REJECT''
      else if pkt_proto p = ''icmp'' then ''REJECT''
      else ''ACCEPT'')"

lemma chain_verdict_dns:
  "chain_verdict (map rule_spec (concat (map (dns_accept_rules chain comment) rs))) p =
     (if pkt_proto p \<in> {''udp'', ''tcp''} \<and> pkt_dport p = 53 \<and> pkt_dst p \<in> set rs
      then Some ''ACCEPT'' else None)"
proof (induction rs)
  case (Cons r rs)
  have "chain_verdict (map rule_spec (dns_accept_rules chain comment r)) p =
      (if pkt_proto p \<in> {''udp'', ''tcp''} \<and> pkt_dport p = 53 \<and> pkt_dst p = r then Some ''ACCEPT'' else None)"
    by (simp add: dns_accept_rules_def addr_matches_net)
  with Cons show ?case by (simp add: chain_verdict_append)
qed simp

lemma chain_verdict_cidrs:
  "chain_verdict (map rule_spec (map (\<lambda>n. planned_append t chain
       ([''-d'', ipv4net_to_string n] @ comment_tokens comment target)) ns)) p =
     (if \<exists>n \<in> set ns. in_net (pkt_dst p) n then Some target else None)"
  by (induction ns) (simp_all add: addr_matches_net)

lemma filter_chain_decides:
  "chain_verdict (map rule_spec (ensure_filter_chain_rules st chain comment)) p =
     Some (egress_decision st p)"
  unfolding ensure_filter_chain_rules_def map_append chain_verdict_append chain_verdict_dns
    chain_verdict_cidrs egress_decision_def
  by auto

subsection \<open>Feeding the rules to \<open>iptables-restore\<close>\<close>

type_synonym tables = "string \<times> string \<Rightarrow> string list list"

definition install_rule :: "planned_rule \<Rightarrow> tables \<Rightarrow> tables" where
  "install_rule r T =
     (let key = (rule_table r, rule_chain r)
      in T(key := (if rule_insert r then rule_spec r # T key else T key @ [rule_spec r])))"

text \<open>One line of the input: \<open>*table\<close>, an append, an insertion at the head, or \<open>COMMIT\<close>.\<close>
definition restore_step :: "string \<Rightarrow> string \<times> tables \<Rightarrow> string \<times> tables" where
  "restore_step line s =
     (case split_whitespace line of
        op # chain # spec \<Rightarrow>
          (if op = ''-A'' then (fst s, install_rule (planned_append (fst s) chain spec) (snd s))
           else if op = ''-I'' \<and> spec \<noteq> [] \<and> hd spec = ''1'' then
             (fst s, install_rule (planned_insert (fst s) chain (tl spec)) (snd s))
           else s)
      | [w] \<Rightarrow> (if hd w = CHR ''*'' then (tl w, snd s) else s)
      | [] \<Rightarrow> s)"

definition restore_text :: "string \<Rightarrow> tables \<Rightarrow> tables" where
  "restore_text txt T = snd (fold restore_step (str_lines txt) ([], T))"

lemma str_lines_concat:
  assumes "list_all (\<lambda>l. CHR 0x0A \<notin> set l \<and> CHR 0x0D \<notin> set l) ls"
  shows "str_lines (concat (map (\<lambda>l. l @ [CHR 0x0A]) ls)) = ls"
proof -
  have "split_on (CHR 0x0A) (concat (map (\<lambda>l. l @ [CHR 0x0A]) ls)) = ls @ [[]]"
    using assms by (induction ls) (auto simp: split_on_append)
  moreover have "map strip_cr ls = ls"
    using assms by (induction ls) (auto simp: strip_cr_def dest: last_in_set)
  ultimately show ?thesis by (simp add: str_lines_def)
qed

definition rule_tokens :: "planned_rule \<Rightarrow> bool" where
  "rule_tokens r \<longleftrightarrow> is_token (rule_chain r) \<and> list_all is_token (rule_spec r)"

lemma restore_step_rule:
  assumes "rule_tokens r"
  shows "restore_step (restore_line r) (rule_table r, T) = (rule_table r, install_rule r T)"
proof -
  have "split_whitespace (restore_line r) =
      [if rule_insert r then ''-I'' else ''-A'', rule_chain r] @ (if rule_insert r then [''1''] else []) @ rule_spec r"
    unfolding restore_line_def Let_def using assms
    by (intro split_whitespace_join) (auto simp: rule_tokens_def is_token_def is_ws_def)
  then show ?thesis
    by (auto simp: restore_step_def install_rule_def Let_def)
qed

lemma restore_steps_rules:
  assumes "list_all rule_tokens rs" and "list_all (\<lambda>r. rule_table r = t) rs"
  shows "fold restore_step (map restore_line rs) (t, T) = (t, fold install_rule rs T)"
  using assms
proof (induction rs arbitrary: T)
  case (Cons r rs)
  then show ?case using restore_step_rule [of r T] by simp
qed simp

lemma set_join: "set (join sep ws) \<subseteq> set sep \<union> \<Union> (set ` set ws)"
  by (induction sep ws rule: join.induct) auto

lemma token_no_ws: "is_token w \<Longrightarrow> is_ws c \<Longrightarrow> c \<notin> set w"
  by (auto simp: is_token_def list_all_iff)

lemma literal_tokens: "is_token ''-I''" "is_token ''-A''" "is_token ''1''" "is_token ''filter''"
    "is_token ''nat''" "is_token ''COMMIT''"
  by (simp_all add: is_token_def is_ws_def)

lemma restore_line_tokens:
  assumes "rule_tokens r"
  obtains ws where "restore_line r = join '' '' ws" "list_all is_token ws"
proof
  show "restore_line r = join '' '' ([if rule_insert r then ''-I'' else ''-A'', rule_chain r] @
      (if rule_insert r then [''1''] else []) @ rule_spec r)"
    by (simp add: restore_line_def)
  show "list_all is_token ([if rule_insert r then ''-I'' else ''-A'', rule_chain r] @
      (if rule_insert r then [''1''] else []) @ rule_spec r)"
    using assms literal_tokens by (simp add: rule_tokens_def)
qed

lemma restore_line_one_line:
  assumes "rule_tokens r" and "is_ws c" and "c \<noteq> CHR '' ''"
  shows "c \<notin> set (restore_line r)"
proof -
  obtain ws where ws: "restore_line r = join '' '' ws" "list_all is_token ws"
    using assms(1) by (rule restore_line_tokens)
  have "c \<notin> \<Union> (set ` set ws)"
    using ws(2) token_no_ws assms(2) by (auto simp: list_all_iff)
  then show ?thesis using set_join [of "'' ''" ws] assms(3) ws(1) by auto
qed

definition restore_lines_of :: "string \<Rightarrow> planned_rule list \<Rightarrow> string list" where
  "restore_lines_of t rs =
     (if rs = [] then [] else (''*'' @ t) # map restore_line rs @ [''COMMIT''])"

lemma restore_block:
  assumes "list_all rule_tokens rs" and "list_all (\<lambda>r. rule_table r = t) rs" and "is_token t"
  shows "snd (fold restore_step (restore_lines_of t rs) s) = fold install_rule rs (snd s)"
proof -
  have "restore_step (''*'' @ t) s = (t, snd s)"
    using assms(3) split_whitespace_token [of "''*'' @ t"]
    by (simp add: restore_step_def is_token_def is_ws_def [of "CHR ''*''"])
  moreover have "split_whitespace ''COMMIT'' = [''COMMIT'']"
    by (rule split_whitespace_token) (rule literal_tokens)
  then have "restore_step ''COMMIT'' s' = s'" for s'
    by (simp add: restore_step_def)
  ultimately show ?thesis
    using restore_steps_rules [OF assms(1,2)] by (simp add: restore_lines_of_def)
qed

lemma restore_input_lines:
  assumes "list_all rule_tokens rs"
  shows "str_lines (build_iptables_restore_input rs) =
     restore_lines_of ''filter'' (filter (\<lambda>r. rule_table r = ''filter'') rs) @
     restore_lines_of ''nat'' (filter (\<lambda>r. rule_table r = ''nat'') rs)"
    (is "_ = ?ls")
proof -
  have "build_iptables_restore_input rs = concat (map (\<lambda>l. l @ [CHR 0x0A]) ?ls)"
    by (simp add: build_iptables_restore_input_def restore_lines_of_def Let_def map_concat comp_def)
  moreover have "list_all (\<lambda>l. CHR 0x0A \<notin> set l \<and> CHR 0x0D \<notin> set l) ?ls"
  proof -
    have "is_ws (CHR 0x0A)" "is_ws (CHR 0x0D)" by (simp_all add: is_ws_def)
    then have "list_all (\<lambda>r. CHR 0x0A \<notin> set (restore_line r) \<and> CHR 0x0D \<notin> set (restore_line r)) rs"
      using assms restore_line_one_line by (auto simp: list_all_iff)
    then show ?thesis by (auto simp: restore_lines_of_def list_all_iff)
  qed
  ultimately show ?thesis by (simp only: str_lines_concat)
qed

lemma restore_input_installs:
  assumes "list_all rule_tokens rs"
  shows "restore_text (build_iptables_restore_input rs) T =
     fold install_rule (filter (\<lambda>r. rule_table r = ''filter'') rs @
                        filter (\<lambda>r. rule_table r = ''nat'') rs) T"
proof -
  have f: "list_all rule_tokens (filter P rs)" for P
    using assms by (auto simp: list_all_iff)
  have t: "list_all (\<lambda>r. rule_table r = t) (filter (\<lambda>r. rule_table r = t) rs)" for t
    by (simp add: list_all_iff)
  show ?thesis
    by (simp add: literal_tokens restore_text_def restore_input_lines [OF assms] restore_block [OF f t])
qed

lemma fold_install_appends:
  assumes "list_all (\<lambda>r. \<not> rule_insert r \<and> (rule_table r, rule_chain r) = key) rs"
  shows "fold install_rule rs T = T(key := T key @ map rule_spec rs)"
  using assms by (induction rs arbitrary: T) (simp_all add: install_rule_def)

lemma fold_install_inserts:
  assumes "list_all (\<lambda>r. rule_insert r \<and> (rule_table r, rule_chain r) = key) rs"
  shows "fold install_rule rs T = T(key := rev (map rule_spec rs) @ T key)"
  using assms by (induction rs arbitrary: T) (simp_all add: install_rule_def)


subsection \<open>The forwarding chain\<close>

text \<open>A jump whose chain decides nothing returns to the rules after it.\<close>
fun forward_verdict :: "tables \<Rightarrow> string list list \<Rightarrow> packet \<Rightarrow> string option" where
  "forward_verdict T [] p = None"
| "forward_verdict T (spec # specs) p =
     (if spec_matches spec p then
        (if spec_target spec = ''ACCEPT'' \<or> spec_target spec = ''REJECT'' then Some (spec_target spec)
         else (case chain_verdict (T (''filter'', spec_target spec)) p of
                 Some v \<Rightarrow> Some v
               | None \<Rightarrow> forward_verdict T specs p))
      else forward_verdict T specs p)"

definition from_guest :: "vm_network_state \<Rightarrow> packet \<Rightarrow> bool" where
  "from_guest st p \<longleftrightarrow>
     pkt_in p = bridge_name (bridge st) \<and> pkt_src p = guest_ipv4 st \<and> pkt_physdev_in p = host_veth_name st"

definition to_guest :: "vm_network_state \<Rightarrow> packet \<Rightarrow> bool" where
  "to_guest st p \<longleftrightarrow> pkt_out p = bridge_name (bridge st) \<and> pkt_dst p = guest_ipv4 st"

definition forward_decision :: "vm_network_state \<Rightarrow> packet \<Rightarrow> string option" where
  "forward_decision st p =
     (if from_guest st p \<and> pkt_proto p = ''tcp'' \<and> pkt_syn p \<and> 256 < connections p then Some ''REJECT''
      else if to_guest st p then Some (if pkt_established p then ''ACCEPT'' else ''REJECT'')
      else if from_guest st p then Some (egress_decision st p)
      else None)"

lemma entry_rules_decide:
  assumes "T (''filter'', chain) = map rule_spec (ensure_filter_chain_rules st chain comment)"
    and "chain \<noteq> ''ACCEPT''" and "chain \<noteq> ''REJECT''"
  shows "forward_verdict T (rev (map rule_spec (ensure_forwarding_entry_rules st chain comment)) @ rest) p =
     (case forward_decision st p of Some v \<Rightarrow> Some v | None \<Rightarrow> forward_verdict T rest p)"
proof -
  have "option_matches ''--connlimit-above'' (nat_to_string TCP_SYN_CONN_LIMIT_PER_VM) p \<longleftrightarrow> 256 < connections p"
    by (simp add: TCP_SYN_CONN_LIMIT_PER_VM_def)
  then show ?thesis
    using assms filter_chain_decides [of st chain comment p]
    by (auto simp add: ensure_forwarding_entry_rules_def Let_def guest_host_cidr_def forward_decision_def
      from_guest_def to_guest_def)
qed


lemma is_token_append: "is_token a \<Longrightarrow> list_all (\<lambda>c. \<not> is_ws c) b \<Longrightarrow> is_token (a @ b)"
  by (simp add: is_token_def)

lemma is_token_nat [simp]: "is_token (nat_to_string n)"
  using nat_to_string_digits [of n]
  by (auto simp: is_token_def list_all_iff is_ascii_digit_def is_ws_def)

lemma is_token_ipv4 [simp]: "is_token (ipv4_to_string ip)"
proof -
  have "list_all (\<lambda>c. \<not> is_ws c) (nat_to_string n)" for n
    using is_token_nat [of n] by (simp add: is_token_def)
  then show ?thesis
    by (cases "octets ip") (simp add: ipv4_to_string_def is_token_def is_ws_def [of "CHR ''.''"])
qed

lemma is_token_net [simp]: "is_token (ipv4net_to_string n)"
  using is_token_ipv4 [of "net_addr n"] is_token_nat [of "prefix_len n"]
  by (simp add: ipv4net_to_string_def is_token_def is_ws_def [of "CHR ''/''"])

lemma is_token_guest [simp]: "is_token (guest_host_cidr st)"
  using is_token_ipv4 [of "guest_ipv4 st"]
  by (simp add: guest_host_cidr_def is_token_def is_ws_def [of "CHR ''/''"] is_ws_def [of "CHR ''3''"]
    is_ws_def [of "CHR ''2''"])

definition policy_names_ok :: "vm_network_state \<Rightarrow> string \<Rightarrow> string \<Rightarrow> bool" where
  "policy_names_ok st chain comment \<longleftrightarrow>
     is_token chain \<and> is_token comment \<and> is_token (bridge_name (bridge st)) \<and> is_token (host_veth_name st)"

lemma option_tokens [simp]:
  "is_token ''-p''" "is_token ''-d''" "is_token ''-s''" "is_token ''-i''" "is_token ''-o''" "is_token ''-m''"
  "is_token ''-j''" "is_token ''--dport''" "is_token ''53''" "is_token ''udp''" "is_token ''tcp''"
  "is_token ''icmp''" "is_token ''comment''" "is_token ''--comment''" "is_token ''ACCEPT''"
  "is_token ''REJECT''" "is_token ''MASQUERADE''" "is_token ''physdev''" "is_token ''--physdev-in''"
  "is_token ''conntrack''" "is_token ''--ctstate''" "is_token ''RELATED,ESTABLISHED''" "is_token ''--syn''"
  "is_token ''connlimit''" "is_token ''--connlimit-above''" "is_token ''--connlimit-mask''" "is_token ''32''"
  "is_token ''FORWARD''" "is_token ''POSTROUTING''"
  by (simp_all add: is_token_def is_ws_def)

lemma expected_rules_tokens:
  "policy_names_ok st chain comment \<Longrightarrow> list_all rule_tokens (expected_policy_rules st chain comment)"
  by (auto simp: policy_names_ok_def expected_policy_rules_def ensure_filter_chain_rules_def
    ensure_forwarding_entry_rules_def ensure_nat_masquerade_rule_def dns_accept_rules_def
    rule_tokens_def comment_tokens_def Let_def list_all_iff)

lemma filter_chain_rules_shape:
  "r \<in> set (ensure_filter_chain_rules st chain comment) \<Longrightarrow>
     \<not> rule_insert r \<and> rule_table r = ''filter'' \<and> rule_chain r = chain"
  by (auto simp: ensure_filter_chain_rules_def dns_accept_rules_def)

lemma entry_rules_shape:
  "r \<in> set (ensure_forwarding_entry_rules st chain comment) \<Longrightarrow>
     rule_insert r \<and> rule_table r = ''filter'' \<and> rule_chain r = ''FORWARD''"
  by (auto simp: ensure_forwarding_entry_rules_def Let_def)

text \<open>What the text of a whole policy leaves in the tables.\<close>
lemma policy_text_installs:
  assumes "policy_names_ok st chain comment" and "chain \<noteq> ''FORWARD''"
  shows "restore_text (build_iptables_restore_input (expected_policy_rules st chain comment)) T =
     T((''filter'', chain) := T (''filter'', chain) @ map rule_spec (ensure_filter_chain_rules st chain comment),
       (''filter'', ''FORWARD'') :=
         rev (map rule_spec (ensure_forwarding_entry_rules st chain comment)) @ T (''filter'', ''FORWARD''),
       (''nat'', ''POSTROUTING'') :=
         T (''nat'', ''POSTROUTING'') @ [rule_spec (ensure_nat_masquerade_rule st comment)])"
proof -
  let ?f = "ensure_filter_chain_rules st chain comment" and ?e = "ensure_forwarding_entry_rules st chain comment"
  let ?n = "ensure_nat_masquerade_rule st comment"
  have "filter (\<lambda>r. rule_table r = ''filter'') (expected_policy_rules st chain comment) = ?f @ ?e"
    using filter_chain_rules_shape entry_rules_shape
    by (auto simp: expected_policy_rules_def ensure_nat_masquerade_rule_def filter_id_conv)
  moreover have "filter (\<lambda>r. rule_table r = ''nat'') (expected_policy_rules st chain comment) = [?n]"
    using filter_chain_rules_shape entry_rules_shape
    by (force simp: expected_policy_rules_def ensure_nat_masquerade_rule_def filter_empty_conv)
  moreover have "fold install_rule ?f U = U((''filter'', chain) := U (''filter'', chain) @ map rule_spec ?f)" for U
    by (rule fold_install_appends) (auto simp: list_all_iff dest: filter_chain_rules_shape)
  moreover have "fold install_rule ?e U =
      U((''filter'', ''FORWARD'') := rev (map rule_spec ?e) @ U (''filter'', ''FORWARD''))" for U
    by (rule fold_install_inserts) (auto simp: list_all_iff dest: entry_rules_shape)
  moreover have "fold install_rule [?n] U =
      U((''nat'', ''POSTROUTING'') := U (''nat'', ''POSTROUTING'') @ [rule_spec ?n])" for U
    by (simp add: install_rule_def ensure_nat_masquerade_rule_def Let_def)
  ultimately show ?thesis
    using assms(2) by (simp only: restore_input_installs [OF expected_rules_tokens [OF assms(1)]] fold_append comp_apply)
      simp
qed


lemma filter_chain_name:
  "outbound_nat_filter_chain cr st \<noteq> ''FORWARD''" "outbound_nat_filter_chain cr st \<noteq> ''ACCEPT''"
  "outbound_nat_filter_chain cr st \<noteq> ''REJECT''"
  by (simp_all add: outbound_nat_filter_chain_def)

subsection \<open>Properties\<close>

text \<open>C6: end to end, from the text fed to \<open>iptables-restore\<close> for a VM whose chain is fresh to the fate
  of a packet: a guest over its SYN limit is rejected, the guest is reached only by replies, port 53
  goes to the configured resolvers and nowhere else, private exceptions pass, every other private or
  reserved range (and the bridge itself) is rejected, as is ICMP, and the rest of the Internet
  passes; a packet that is neither to nor from the guest is left to the rules that were there.\<close>
theorem installed_policy_decides:
  assumes "policy_names_ok st (outbound_nat_filter_chain cr st) (outbound_nat_rule_comment cr st)"
    and "T (''filter'', outbound_nat_filter_chain cr st) = []"
    and "T' = restore_text (build_iptables_restore_input
           (expected_policy_rules st (outbound_nat_filter_chain cr st) (outbound_nat_rule_comment cr st))) T"
  shows "forward_verdict T' (T' (''filter'', ''FORWARD'')) p =
     (case forward_decision st p of
        Some v \<Rightarrow> Some v
      | None \<Rightarrow> forward_verdict T' (T (''filter'', ''FORWARD'')) p)"
proof -
  let ?chain = "outbound_nat_filter_chain cr st" and ?comment = "outbound_nat_rule_comment cr st"
  have "T' (''filter'', ?chain) = map rule_spec (ensure_filter_chain_rules st ?chain ?comment)"
    and fwd: "T' (''filter'', ''FORWARD'') =
      rev (map rule_spec (ensure_forwarding_entry_rules st ?chain ?comment)) @ T (''filter'', ''FORWARD'')"
    unfolding assms(3) policy_text_installs [OF assms(1) filter_chain_name(1)]
    using assms(2) by (simp_all add: filter_chain_name)
  from entry_rules_decide [of T' ?chain st ?comment, OF this(1) filter_chain_name(2,3)] show ?thesis unfolding fwd .
qed

text \<open>Every listing the cache holds is one that \<open>iptables -S\<close> gave for that chain.\<close>
definition listed :: "'w policy_ops \<Rightarrow> (string \<times> string) \<Rightarrow> string list list option \<Rightarrow> bool" where
  "listed ops key x \<longleftrightarrow> (\<exists>u u'. list_iptables_rule_specs ops (fst key) (snd key) u = (Ok x, u'))"

lemma missing_policy_rules_spec:
  assumes "missing_policy_rules ops cache rules w = (Ok missing, w')"
    and "\<forall>k x. cache k = Some x \<longrightarrow> listed ops k x"
  shows "\<exists>installed. (\<forall>k x. cache k = Some x \<longrightarrow> installed k = x) \<and>
     (\<forall>r \<in> set rules. listed ops (rule_table r, rule_chain r) (installed (rule_table r, rule_chain r))) \<and>
     missing = filter (\<lambda>r. \<not> rule_exists_in_specs (installed (rule_table r, rule_chain r)) r) rules"
  using assms
proof (induction rules arbitrary: cache missing w)
  case Nil
  then have "missing = []" by (simp add: ret_def)
  then show ?case by (intro exI [of _ "\<lambda>k. case cache k of Some x \<Rightarrow> x | None \<Rightarrow> None"]) simp
next
  case (Cons r rules)
  let ?key = "(rule_table r, rule_chain r)"
  obtain x w1 m where run: "missing_policy_rules ops (cache(?key := Some x)) rules w1 = (Ok m, w')"
    and m: "missing = (if rule_exists_in_specs x r then m else r # m)"
    and x: "\<forall>y. cache ?key = Some y \<longrightarrow> y = x" and l: "listed ops ?key x"
    using Cons.prems by (auto simp: result_simps ret_def Let_def listed_def split: option.splits; blast)
  have "\<forall>k y. (cache(?key := Some x)) k = Some y \<longrightarrow> listed ops k y"
    using Cons.prems(2) l by simp
  from Cons.IH [OF run this] obtain installed where
    i: "\<forall>k y. (cache(?key := Some x)) k = Some y \<longrightarrow> installed k = y"
    and ls: "\<forall>r \<in> set rules. listed ops (rule_table r, rule_chain r) (installed (rule_table r, rule_chain r))"
    and f: "m = filter (\<lambda>r. \<not> rule_exists_in_specs (installed (rule_table r, rule_chain r)) r) rules"
    by blast
  have key: "installed ?key = x" using i by simp
  have "\<forall>k y. cache k = Some y \<longrightarrow> installed k = y"
    using i x key by (metis fun_upd_other)
  with key f m l ls show ?case by (intro exI [of _ installed]) simp
qed

text \<open>a successful installation feeds \<open>iptables-restore\<close>, as its last command, exactly the planned rules
  that the listing of their own chain does not show, in plan order, or runs nothing when none is missing.\<close>
theorem apply_restores_exactly_missing:
  assumes "apply_outbound_nat_policy_with_ops cr ops st w = (Ok (), w')"
    and "rules = expected_policy_rules st (outbound_nat_filter_chain cr st) (outbound_nat_rule_comment cr st)"
  shows "\<exists>installed missing w0.
     (\<forall>r \<in> set rules. listed ops (rule_table r, rule_chain r) (installed (rule_table r, rule_chain r))) \<and>
     missing = filter (\<lambda>r. \<not> rule_exists_in_specs (installed (rule_table r, rule_chain r)) r) rules \<and>
     (if missing = [] then w' = w0
      else policy_run_command_input ops ''iptables-restore'' [''-w'', ''--noflush'']
             (build_iptables_restore_input missing) w0 = (Ok (), w'))"
proof -
  obtain w1 missing w0 where run: "missing_policy_rules ops (\<lambda>_. None) rules w1 = (Ok missing, w0)"
    and last: "(if missing = [] then ret ()
       else policy_run_command_input ops ''iptables-restore'' [''-w'', ''--noflush'']
              (build_iptables_restore_input missing)) w0 = (Ok (), w')"
    using assms
    by (auto simp: apply_outbound_nat_policy_with_ops_def restore_missing_policy_rules_def Let_def result_simps)
  from missing_policy_rules_spec [OF run] obtain installed where
    "\<forall>r \<in> set rules. listed ops (rule_table r, rule_chain r) (installed (rule_table r, rule_chain r))"
    "missing = filter (\<lambda>r. \<not> rule_exists_in_specs (installed (rule_table r, rule_chain r)) r) rules"
    by auto
  with last show ?thesis
    by (intro exI [of _ installed] exI [of _ missing] exI [of _ w0]) (auto simp: ret_def split: if_splits)
qed

text \<open>nothing is installed on top of rules that are not the VM's own, nor for a VM that is not ready:
  a state that is not ready runs no command at all, and a foreign rule in the chain ends the
  installation with that rule after the listings alone.\<close>
theorem apply_refuses_foreign_chain:
  assumes "policy_command_output ops ''iptables''
      (iptables_args ''filter'' ''-S'' (outbound_nat_filter_chain cr st) []) w = (Ok out1, w1)"
    and "status_success out1"
    and "policy_command_output ops ''iptables''
      (iptables_args ''filter'' ''-S'' (outbound_nat_filter_chain cr st) []) w1 = (Ok out2, w2)"
    and "status_success out2" and "line \<in> set (str_lines (stdout out2))" and "trim line \<noteq> []"
    and "trim line \<noteq> ''-N '' @ outbound_nat_filter_chain cr st"
    and "\<not> str_contains (trim line) (outbound_nat_rule_comment cr st)"
  shows "case validate_ready_state st of
       Err e \<Rightarrow> apply_outbound_nat_policy_with_ops cr ops st w = (Err e, w)
     | Ok _ \<Rightarrow> (\<exists>rule. apply_outbound_nat_policy_with_ops cr ops st w = (Err (ForeignChainRule rule), w2) \<and>
                 rule \<in> set (map trim (str_lines (stdout out2))) \<and>
                 \<not> str_contains rule (outbound_nat_rule_comment cr st))"
proof -
  have foreign: "\<exists>rule. reject_foreign_lines chain comment ls = Err (ForeignChainRule rule) \<and>
      rule \<in> set (map trim ls) \<and> \<not> str_contains rule comment"
    if "l \<in> set ls" "trim l \<noteq> []" "trim l \<noteq> ''-N '' @ chain" "\<not> str_contains (trim l) comment"
    for chain comment l ls
    using that by (induction ls) (auto simp: Let_def)
  obtain rule where "reject_foreign_lines (outbound_nat_filter_chain cr st) (outbound_nat_rule_comment cr st)
      (str_lines (stdout out2)) = Err (ForeignChainRule rule)"
    "rule \<in> set (map trim (str_lines (stdout out2)))" "\<not> str_contains rule (outbound_nat_rule_comment cr st)"
    using foreign [OF assms(5-8)] by blast
  with assms(1-4) show ?thesis
    by (auto simp: apply_outbound_nat_policy_with_ops_def ensure_iptables_chain_def
      reject_foreign_iptables_chain_rules_def bind_eff_def ret_def fail_def lift_result_def Let_def
      split: result.splits)
qed



subsection \<open>Witnesses\<close>

definition sample_vm :: vm_network_state where
  "sample_vm =
     \<lparr>vm_schema_version = 1, vm_setup_phase = Ready, net_vm_id = ''vm-1'', vm_run_dir = ''/run/m80/vm-1'',
      bridge = \<lparr>br_schema_version = 1, br_setup_phase = Ready, br_run_root = ''/run/m80'', br_run_root_digest = ''00'', bridge_name = ''tfb0'',
                br_cidr = \<lparr>net_addr = ipv4_new 172 30 7 0, prefix_len = 24\<rparr>,
                gateway_ipv4 = ipv4_new 172 30 7 1\<rparr>,
      tap_name = ''tft0'', vmm_netns_name = ''tfn0'', vmm_netns_path = ''/run/netns/tfn0'',
      host_veth_name = ''tfh0'', vmm_veth_name = ''tfv0'', vmm_bridge_name = ''tfx0'',
      guest_mac = ''06:00:00:00:00:01'', guest_ipv4 = ipv4_new 172 30 7 2, private_ipv4_exceptions = [],
      dns_resolvers = [ipv4_new 9 9 9 9], runtime_rootfs_configured = True\<rparr>"

lemma sample_vm_names:
  "policy_names_ok sample_vm (outbound_nat_filter_chain sample_crates sample_vm)
     (outbound_nat_rule_comment sample_crates sample_vm)"
  by code_simp

definition sample_packet :: packet where
  "sample_packet =
     \<lparr>pkt_in = ''tfb0'', pkt_out = ''eth0'', pkt_physdev_in = ''tfh0'', pkt_src = ipv4_new 172 30 7 2,
      pkt_dst = ipv4_new 10 0 0 1, pkt_proto = ''tcp'', pkt_dport = 443, pkt_syn = True,
      pkt_established = False, connections = 1\<rparr>"

theorem installed_policy_decides_witness:
  "let T' = restore_text (build_iptables_restore_input
           (expected_policy_rules sample_vm (outbound_nat_filter_chain sample_crates sample_vm)
             (outbound_nat_rule_comment sample_crates sample_vm))) (\<lambda>_. [])
   in forward_verdict T' (T' (''filter'', ''FORWARD'')) sample_packet = Some ''REJECT''"
proof -
  have "forward_decision sample_vm sample_packet = Some ''REJECT''" by code_simp
  then show ?thesis
    using installed_policy_decides [OF sample_vm_names, of "\<lambda>_. []" _ sample_packet, OF _ refl]
    by (simp add: Let_def)
qed


definition sample_ops :: "string \<Rightarrow> unit policy_ops" where
  "sample_ops listing =
     \<lparr>policy_command_output = (\<lambda>_ _. ret \<lparr>status_success = True, stdout = listing, stderr = []\<rparr>),
      policy_run_command_input = (\<lambda>_ _ _. ret ())\<rparr>"

theorem apply_restores_exactly_missing_witness:
  "\<exists>installed missing w0.
     (\<forall>r \<in> set (expected_policy_rules sample_vm (outbound_nat_filter_chain sample_crates sample_vm)
          (outbound_nat_rule_comment sample_crates sample_vm)).
        listed (sample_ops []) (rule_table r, rule_chain r) (installed (rule_table r, rule_chain r))) \<and>
     missing = filter (\<lambda>r. \<not> rule_exists_in_specs (installed (rule_table r, rule_chain r)) r)
       (expected_policy_rules sample_vm (outbound_nat_filter_chain sample_crates sample_vm)
          (outbound_nat_rule_comment sample_crates sample_vm)) \<and>
     (if missing = [] then () = w0
      else policy_run_command_input (sample_ops []) ''iptables-restore'' [''-w'', ''--noflush'']
             (build_iptables_restore_input missing) w0 = (Ok (), ()))"
proof -
  have "apply_outbound_nat_policy_with_ops sample_crates (sample_ops []) sample_vm () = (Ok (), ())"
    by code_simp
  from apply_restores_exactly_missing [OF this refl] show ?thesis .
qed

theorem apply_refuses_foreign_chain_witness:
  "\<exists>rule. apply_outbound_nat_policy_with_ops sample_crates (sample_ops ''-A tfw0 -j ACCEPT'') sample_vm () =
       (Err (ForeignChainRule rule), ()) \<and> rule \<in> set (map trim (str_lines ''-A tfw0 -j ACCEPT'')) \<and>
     \<not> str_contains rule (outbound_nat_rule_comment sample_crates sample_vm)"
proof -
  let ?out = "\<lparr>status_success = True, stdout = ''-A tfw0 -j ACCEPT'', stderr = []\<rparr>"
  have run: "policy_command_output (sample_ops ''-A tfw0 -j ACCEPT'') c a w = (Ok ?out, w)" for c a w
    by (simp add: sample_ops_def ret_def)
  have lines: "''-A tfw0 -j ACCEPT'' \<in> set (str_lines (stdout ?out))"
    "trim ''-A tfw0 -j ACCEPT'' \<noteq> []" by code_simp+
  have chain: "trim ''-A tfw0 -j ACCEPT'' \<noteq> ''-N '' @ outbound_nat_filter_chain sample_crates sample_vm"
    "\<not> str_contains (trim ''-A tfw0 -j ACCEPT'') (outbound_nat_rule_comment sample_crates sample_vm)"
    "validate_ready_state sample_vm = Ok ()" by code_simp+
  show ?thesis
    using apply_refuses_foreign_chain [OF run _ run _ lines chain(1,2)] chain(3) by simp
qed

end
