(* ===== verification/Host_Fs.thy ===== *)
theory Host_Fs
  imports Prelude
begin

text \<open>
  The part of \<open>std::fs\<close>, \<open>std::path\<close> and \<open>std::time\<close> the host components use: a tree of files and
  directories addressed by the components of an absolute path, with the errors POSIX gives each call.
  Any call may also fail for a reason of its own (a full disk, a signal, a permission): the world
  carries a script of faults, and a failed call may leave part of its work behind. A theorem over all
  worlds therefore covers every pattern of I/O errors.
\<close>

subsection \<open>The world\<close>

type_synonym fpath = "string list"

datatype node = FileNode "u8 list" | DirNode

datatype io_error = NotFound | AlreadyExists | NotADirectory | IsADirectory | DirectoryNotEmpty | OtherIo

text \<open>\<open>Fails n ps\<close>: the next call fails; a write leaves the first \<open>n\<close> bytes, a recursive removal has
  already removed the listed paths below its target.\<close>
datatype fault = Works | Fails nat "fpath list"

record fs =
  nodes :: "fpath \<Rightarrow> node option"
  faults :: "fault list"
  clock :: "int list"

definition under :: "fpath \<Rightarrow> fpath \<Rightarrow> bool" where
  "under p q \<longleftrightarrow> take (length p) q = p"

definition take_fault :: "'z fs_scheme \<Rightarrow> fault \<times> 'z fs_scheme" where
  "take_fault w = (case faults w of [] \<Rightarrow> (Works, w) | f # fs \<Rightarrow> (f, w\<lparr>faults := fs\<rparr>))"

subsection \<open>Queries\<close>

text \<open>\<open>Path::exists\<close>, \<open>is_dir\<close> and \<open>is_file\<close> answer \<open>false\<close> when the kernel cannot tell. The root of the file
  system is always a directory.\<close>
definition fs_query :: "(node option \<Rightarrow> bool) \<Rightarrow> fpath \<Rightarrow> ('z fs_scheme, bool, 'e) eff" where
  "fs_query f p w = (case take_fault w of (Works, w') \<Rightarrow> (Ok (f (if p = [] then Some DirNode else nodes w' p)), w') | (_, w') \<Rightarrow> (Ok False, w'))"

definition path_exists :: "fpath \<Rightarrow> ('z fs_scheme, bool, 'e) eff" where
  "path_exists = fs_query (\<lambda>n. n \<noteq> None)"

definition path_is_dir :: "fpath \<Rightarrow> ('z fs_scheme, bool, 'e) eff" where
  "path_is_dir = fs_query (\<lambda>n. n = Some DirNode)"

definition path_is_file :: "fpath \<Rightarrow> ('z fs_scheme, bool, 'e) eff" where
  "path_is_file = fs_query (\<lambda>n. case n of Some (FileNode _) \<Rightarrow> True | _ \<Rightarrow> False)"

definition fs_read :: "fpath \<Rightarrow> ('z fs_scheme, u8 list, io_error) eff" where
  "fs_read p w =
     (case take_fault w of
        (Fails _ _, w') \<Rightarrow> (Err OtherIo, w')
      | (Works, w') \<Rightarrow>
          (case nodes w' p of
             None \<Rightarrow> (Err NotFound, w')
           | Some DirNode \<Rightarrow> (Err IsADirectory, w')
           | Some (FileNode bs) \<Rightarrow> (Ok bs, w')))"

text \<open>\<open>metadata(p)?.len()\<close>; the length of a directory is the kernel's business and no caller asks.\<close>
definition fs_len :: "fpath \<Rightarrow> ('z fs_scheme, u64, io_error) eff" where
  "fs_len p w =
     (case take_fault w of
        (Fails _ _, w') \<Rightarrow> (Err OtherIo, w')
      | (Works, w') \<Rightarrow>
          (case nodes w' p of
             None \<Rightarrow> (Err NotFound, w')
           | Some DirNode \<Rightarrow> (Ok 0, w')
           | Some (FileNode bs) \<Rightarrow> (Ok (word_of_nat (length bs)), w')))"

text \<open>\<open>SystemTime::now()\<close> in milliseconds since the epoch.\<close>
definition fs_now :: "('z fs_scheme, int, 'e) eff" where
  "fs_now w = (case clock w of [] \<Rightarrow> (Ok 0, w) | t # ts \<Rightarrow> (Ok t, w\<lparr>clock := ts\<rparr>))"

subsection \<open>Updates\<close>

definition parent_is_dir :: "(fpath \<Rightarrow> node option) \<Rightarrow> fpath \<Rightarrow> bool" where
  "parent_is_dir ns p \<longleftrightarrow> p \<noteq> [] \<and> (butlast p = [] \<or> ns (butlast p) = Some DirNode)"

definition fs_write :: "fpath \<Rightarrow> u8 list \<Rightarrow> ('z fs_scheme, unit, io_error) eff" where
  "fs_write p bs w =
     (case take_fault w of (f, w') \<Rightarrow>
        if nodes w' p = Some DirNode then (Err IsADirectory, w')
        else if \<not> parent_is_dir (nodes w') p then (Err NotFound, w')
        else
          (case f of
             Works \<Rightarrow> (Ok (), w'\<lparr>nodes := (nodes w')(p \<mapsto> FileNode bs)\<rparr>)
           | Fails n _ \<Rightarrow> (Err OtherIo, w'\<lparr>nodes := (nodes w')(p \<mapsto> FileNode (take n bs))\<rparr>)))"

text \<open>\<open>set_permissions\<close> changes no content and no name.\<close>
definition fs_set_permissions :: "fpath \<Rightarrow> ('z fs_scheme, unit, io_error) eff" where
  "fs_set_permissions p w =
     (case take_fault w of
        (Fails _ _, w') \<Rightarrow> (Err OtherIo, w')
      | (Works, w') \<Rightarrow> (if nodes w' p = None then Err NotFound else Ok (), w'))"

definition fs_create_dir :: "fpath \<Rightarrow> ('z fs_scheme, unit, io_error) eff" where
  "fs_create_dir p w =
     (case take_fault w of
        (Fails _ _, w') \<Rightarrow> (Err OtherIo, w')
      | (Works, w') \<Rightarrow>
          if nodes w' p \<noteq> None then (Err AlreadyExists, w')
          else if \<not> parent_is_dir (nodes w') p then (Err NotFound, w')
          else (Ok (), w'\<lparr>nodes := (nodes w')(p \<mapsto> DirNode)\<rparr>))"

definition moved :: "fpath \<Rightarrow> fpath \<Rightarrow> (fpath \<Rightarrow> node option) \<Rightarrow> fpath \<Rightarrow> node option" where
  "moved a b ns q =
     (if under b q then ns (a @ drop (length b) q)
      else if under a q then None
      else ns q)"

text \<open>\<open>rename\<close>: atomic; a file replaces only a file and nothing is moved below itself. A directory that
  is already at the target is not replaced: POSIX does so when it is empty, but no caller renames onto
  an empty directory.\<close>
definition fs_rename :: "fpath \<Rightarrow> fpath \<Rightarrow> ('z fs_scheme, unit, io_error) eff" where
  "fs_rename a b w =
     (case take_fault w of
        (Fails _ _, w') \<Rightarrow> (Err OtherIo, w')
      | (Works, w') \<Rightarrow>
          (case nodes w' a of
             None \<Rightarrow> (Err NotFound, w')
           | Some src \<Rightarrow>
               if a = b then (Ok (), w')
               else if under a b then (Err OtherIo, w')
               else if \<not> parent_is_dir (nodes w') b then (Err NotFound, w')
               else if nodes w' b = Some DirNode \<and> src \<noteq> DirNode then (Err IsADirectory, w')
               else if nodes w' b \<noteq> None \<and> nodes w' b \<noteq> Some DirNode \<and> src = DirNode
                 then (Err NotADirectory, w')
               else if nodes w' b = Some DirNode then (Err DirectoryNotEmpty, w')
               else (Ok (), w'\<lparr>nodes := moved a b (nodes w')\<rparr>)))"

definition fs_remove_file :: "fpath \<Rightarrow> ('z fs_scheme, unit, io_error) eff" where
  "fs_remove_file p w =
     (case take_fault w of
        (Fails _ _, w') \<Rightarrow> (Err OtherIo, w')
      | (Works, w') \<Rightarrow>
          (case nodes w' p of
             None \<Rightarrow> (Err NotFound, w')
           | Some DirNode \<Rightarrow> (Err IsADirectory, w')
           | Some (FileNode _) \<Rightarrow> (Ok (), w'\<lparr>nodes := (nodes w')(p := None)\<rparr>)))"

definition fs_remove_dir_all :: "fpath \<Rightarrow> ('z fs_scheme, unit, io_error) eff" where
  "fs_remove_dir_all p w =
     (case take_fault w of (f, w') \<Rightarrow>
        (case nodes w' p of
           None \<Rightarrow> (Err NotFound, w')
         | Some (FileNode _) \<Rightarrow> (Err NotADirectory, w')
         | Some DirNode \<Rightarrow>
             (case f of
                Works \<Rightarrow> (Ok (), w'\<lparr>nodes := (\<lambda>q. if under p q then None else nodes w' q)\<rparr>)
              | Fails _ ps \<Rightarrow>
                  (Err OtherIo,
                   w'\<lparr>nodes := (\<lambda>q. if under p q \<and> q \<in> set ps then None else nodes w' q)\<rparr>))))"

text \<open>\<open>map_err\<close>\<close>
definition map_err :: "('e \<Rightarrow> 'f) \<Rightarrow> ('w, 'a, 'e) eff \<Rightarrow> ('w, 'a, 'f) eff" where
  "map_err g m w = (case m w of (Ok a, w') \<Rightarrow> (Ok a, w') | (Err e, w') \<Rightarrow> (Err (g e), w'))"

subsection \<open>Paths as text\<close>

text \<open>\<open>Path::components\<close>: repeated separators and \<open>.\<close> are normalised away, except a \<open>.\<close> that begins a
  relative path.\<close>
datatype component = RootDir | CurDir | ParentDir | Normal string

definition is_absolute :: "string \<Rightarrow> bool" where
  "is_absolute s \<longleftrightarrow> starts_with s ''/''"

definition path_components :: "string \<Rightarrow> component list" where
  "path_components s =
     (if is_absolute s then [RootDir] else if hd (split_on (CHR ''/'') s) = ''.'' then [CurDir] else []) @
     map (\<lambda>p. if p = ''..'' then ParentDir else Normal p)
       (filter (\<lambda>p. p \<noteq> [] \<and> p \<noteq> ''.'') (split_on (CHR ''/'') s))"

text \<open>\<open>Path\<close> equality and \<open>Path::starts_with\<close> go by components.\<close>
definition path_eq :: "string \<Rightarrow> string \<Rightarrow> bool" where
  "path_eq a b \<longleftrightarrow> path_components a = path_components b"

definition path_starts_with :: "string \<Rightarrow> string \<Rightarrow> bool" where
  "path_starts_with a b \<longleftrightarrow> take (length (path_components b)) (path_components a) = path_components b"

subsection \<open>What a call leaves alone\<close>

lemma under_refl [simp]: "under p p"
  by (simp add: under_def)

lemma under_append [simp]: "under p (p @ q)"
  by (simp add: under_def)

lemma under_iff: "under p q \<longleftrightarrow> (\<exists>r. q = p @ r)"
  unfolding under_def by (metis append_eq_conv_conj append_take_drop_id)

lemma under_trans: "under p q \<Longrightarrow> under q r \<Longrightarrow> under p r"
  by (auto simp: under_iff)

lemma take_fault_nodes: "take_fault w = (f, w') \<Longrightarrow> nodes w' = nodes w \<and> fs.more w' = fs.more w \<and> clock w' = clock w"
  by (cases "faults w") (auto simp: take_fault_def)

lemma take_fault_simps [simp]:
  "nodes (snd (take_fault w)) = nodes w" "fs.more (snd (take_fault w)) = fs.more w"
  "clock (snd (take_fault w)) = clock w"
  by (cases "faults w"; simp add: take_fault_def)+

lemma map_err_eq_Ok [result_simps]: "map_err g m w = (Ok a, w') \<longleftrightarrow> m w = (Ok a, w')"
  by (auto simp: map_err_def split: prod.splits result.splits)

lemma keeps_map_err [intro]: "keeps P m \<Longrightarrow> keeps P (map_err g m)"
  by (auto simp: keeps_def map_err_def split: prod.splits result.splits)

named_theorems fs_frame \<open>what each file-system call keeps\<close>

text \<open>\<open>fs_only S m\<close>: whatever happens, \<open>m\<close> changes no node outside \<open>S\<close> and nothing of the world but its
  nodes, faults and clock.\<close>
definition fs_only :: "(fpath \<Rightarrow> bool) \<Rightarrow> ('z fs_scheme, 'a, 'e) eff \<Rightarrow> bool" where
  "fs_only S m \<longleftrightarrow> (\<forall>w. (\<forall>q. \<not> S q \<longrightarrow> nodes (snd (m w)) q = nodes w q) \<and> fs.more (snd (m w)) = fs.more w)"

lemma fs_onlyD:
  assumes "fs_only S m" and "m w = (r, w')"
  shows "\<not> S q \<Longrightarrow> nodes w' q = nodes w q" and "fs.more w' = fs.more w"
  using assms by (metis fs_only_def snd_conv)+

lemma fs_only_bind [intro]:
  assumes "fs_only S m" and "\<And>a. fs_only S (f a)"
  shows "fs_only S (bind_eff m f)"
  unfolding fs_only_def
proof
  fix w
  obtain r w' where m: "m w = (r, w')" by fastforce
  have "fs.more w' = fs.more w" "\<forall>q. \<not> S q \<longrightarrow> nodes w' q = nodes w q"
    using fs_onlyD [OF assms(1) m] by auto
  moreover have "\<forall>q. \<not> S q \<longrightarrow> nodes (snd (f a w')) q = nodes w' q" "fs.more (snd (f a w')) = fs.more w'" for a
    using assms(2) by (auto simp: fs_only_def)
  ultimately show "(\<forall>q. \<not> S q \<longrightarrow> nodes (snd (bind_eff m f w)) q = nodes w q) \<and>
      fs.more (snd (bind_eff m f w)) = fs.more w"
    by (cases r) (simp_all add: m bind_eff_def)
qed

lemma fs_only_weaken: "fs_only S m \<Longrightarrow> (\<And>q. S q \<Longrightarrow> T q) \<Longrightarrow> fs_only T m"
  by (auto simp: fs_only_def)

lemma fs_only_map_err [intro]: "fs_only S m \<Longrightarrow> fs_only S (map_err g m)"
  by (auto simp: fs_only_def map_err_def split: prod.splits result.splits) (metis snd_conv)+

lemma fs_only_pure [fs_frame, simp]:
  "fs_only S (ret a)" "fs_only S (fail e)" "fs_only S (lift_result r)"
  by (simp_all add: fs_only_def)

lemma fs_only_reads [fs_frame, simp]:
  "fs_only S (fs_query f p)" "fs_only S (path_exists p)" "fs_only S (path_is_dir p)" "fs_only S (path_is_file p)"
  "fs_only S (fs_read p)" "fs_only S (fs_len p)" "fs_only S fs_now" "fs_only S (fs_set_permissions p)"
  by (auto simp: fs_only_def fs_query_def path_exists_def path_is_dir_def path_is_file_def fs_read_def
    fs_len_def fs_now_def fs_set_permissions_def split: prod.splits fault.splits option.splits node.splits
    list.splits dest!: take_fault_nodes)

lemma fs_only_writes [fs_frame]:
  "fs_only (\<lambda>q. q = p) (fs_write p bs)" "fs_only (\<lambda>q. q = p) (fs_create_dir p)"
  "fs_only (\<lambda>q. q = p) (fs_remove_file p)" "fs_only (under p) (fs_remove_dir_all p)"
  by (auto simp: fs_only_def fs_write_def fs_create_dir_def fs_remove_file_def fs_remove_dir_all_def
    split: prod.splits fault.splits option.splits node.splits dest!: take_fault_nodes)

lemma fs_only_rename [fs_frame]: "fs_only (\<lambda>q. under a q \<or> under b q) (fs_rename a b)"
  by (auto simp: fs_only_def fs_rename_def moved_def
    split: prod.splits fault.splits option.splits node.splits dest!: take_fault_nodes)

end
