(* ===== verification/Snapshot.thy ===== *)
theory Snapshot
  imports Host_Fs "HOL-Library.Countable"
begin

text \<open>
  Snapshot pairs (\<open>m80-snapshot/src/lib.rs\<close>): the manifest written beside \<open>vm.snap\<close> and \<open>mem.snap\<close>, its
  verification, and the capture and restore sequences against the Firecracker API. SHA-256, the hex
  encoding and \<open>serde_json\<close> are a record of parameters; the API client is another, whose calls act on
  the same world as the file system because Firecracker writes the snapshot files. Host paths are
  lists of components.
\<close>

subsection \<open>Schema\<close>

definition SNAPSHOT_SCHEMA_VERSION :: u32 where
  "SNAPSHOT_SCHEMA_VERSION = 1"

definition SNAPSHOT_MANIFEST_FILE :: string where
  "SNAPSHOT_MANIFEST_FILE = ''snapshot-manifest.json''"

datatype artifact_kind = Memory | VmStateFile

record artifact =
  art_kind :: artifact_kind
  art_path :: fpath
  art_sha256 :: string
  art_size :: u64

record snapshot_manifest =
  artifact_set_sha256_hex :: string
  artifacts :: "artifact list"
  created_at_unix_ms :: u64
  sm_expected_firecracker_version :: string
  sm_schema_version :: u32

record snapshot_paths =
  sp_vm_state :: fpath
  sp_mem :: fpath

datatype snapshot_kind = FullSnapshot | DiffSnapshot

datatype schema_error = UnsupportedSnapshotSchema u32 | SchemaIo fpath io_error | SchemaJson

text \<open>\<open>ClientError\<close> is the client crate's; here a text.\<close>
datatype snapshot_error =
  SnapshotClient string
| SnapshotSchema schema_error
| ArtifactIo fpath io_error
| ArtifactMismatch artifact_kind fpath string string
| ArtifactSetMismatch string string
| ManifestMissingArtifact artifact_kind
| ManifestArtifactSetInvalid string
| FirecrackerVersionMismatch string string
| LiveVersionMismatch string string
| DiffSnapshotsDisabled
| InvalidSnapshotPaths string
| SnapshotClock string
| VsockUdsUnlink fpath io_error
| InvalidPersistenceId string string

record snapshot_crates =
  sn_sha256 :: "u8 list \<Rightarrow> u8 list"
  sn_hex :: "u8 list \<Rightarrow> string"
  artifact_json :: "artifact \<Rightarrow> u8 list"
  manifest_json :: "snapshot_manifest \<Rightarrow> u8 list"
  manifest_of_json :: "u8 list \<Rightarrow> snapshot_manifest option"
  schema_of_json :: "u8 list \<Rightarrow> u32 option"

text \<open>\<open>serde_json\<close> reads back what it wrote, with the trailing newline the writer adds.\<close>
definition snapshot_json_faithful :: "snapshot_crates \<Rightarrow> bool" where
  "snapshot_json_faithful cr \<longleftrightarrow>
     (\<forall>m. manifest_of_json cr (manifest_json cr m @ [10]) = Some m \<and>
          schema_of_json cr (manifest_json cr m @ [10]) = Some (sm_schema_version m))"

subsection \<open>Manifests\<close>

definition parse_manifest_with_probe :: "snapshot_crates \<Rightarrow> u8 list \<Rightarrow> (snapshot_manifest, schema_error) result" where
  "parse_manifest_with_probe cr raw =
     and_then (ok_or (schema_of_json cr raw) SchemaJson) (\<lambda>version.
       if version \<noteq> SNAPSHOT_SCHEMA_VERSION then Err (UnsupportedSnapshotSchema version)
       else ok_or (manifest_of_json cr raw) SchemaJson)"

definition snapshot_manifest_write ::
    "snapshot_crates \<Rightarrow> snapshot_manifest \<Rightarrow> fpath \<Rightarrow> ('z fs_scheme, unit, schema_error) eff" where
  "snapshot_manifest_write cr m path =
     bind_eff (map_err (SchemaIo path) (fs_write path (manifest_json cr m @ [10]))) (\<lambda>_.
       map_err (SchemaIo path) (fs_set_permissions path))"

definition snapshot_manifest_read ::
    "snapshot_crates \<Rightarrow> fpath \<Rightarrow> ('z fs_scheme, snapshot_manifest, schema_error) eff" where
  "snapshot_manifest_read cr path =
     bind_eff (map_err (SchemaIo path) (fs_read path)) (\<lambda>raw. lift_result (parse_manifest_with_probe cr raw))"

definition artifact_set_sha256 :: "snapshot_crates \<Rightarrow> artifact list \<Rightarrow> u8 list" where
  "artifact_set_sha256 cr as = sn_sha256 cr (concat (map (artifact_json cr) as))"

definition path_parent :: "fpath \<Rightarrow> fpath option" where
  "path_parent p = (if p = [] then None else Some (butlast p))"

definition ensure_same_snapshot_parent :: "snapshot_paths \<Rightarrow> (fpath, snapshot_error) result" where
  "ensure_same_snapshot_parent paths =
     and_then (ok_or (path_parent (sp_vm_state paths))
         (InvalidSnapshotPaths ''vm_state path must have a parent directory'')) (\<lambda>vm_parent.
     and_then (ok_or (path_parent (sp_mem paths))
         (InvalidSnapshotPaths ''mem path must have a parent directory'')) (\<lambda>mem_parent.
       if vm_parent \<noteq> mem_parent then
         Err (InvalidSnapshotPaths ''vm_state and mem paths must live in the same directory'')
       else Ok vm_parent))"

definition manifest_path :: "snapshot_paths \<Rightarrow> (fpath, snapshot_error) result" where
  "manifest_path paths =
     and_then (ensure_same_snapshot_parent paths) (\<lambda>parent. Ok (parent @ [SNAPSHOT_MANIFEST_FILE]))"

definition artifact_of_bytes :: "snapshot_crates \<Rightarrow> artifact_kind \<Rightarrow> fpath \<Rightarrow> u8 list \<Rightarrow> artifact" where
  "artifact_of_bytes cr kind path bytes =
     \<lparr>art_kind = kind, art_path = path, art_sha256 = sn_hex cr (sn_sha256 cr bytes),
      art_size = word_of_nat (length bytes)\<rparr>"

definition artifact_for_path ::
    "snapshot_crates \<Rightarrow> artifact_kind \<Rightarrow> fpath \<Rightarrow> ('z fs_scheme, artifact, snapshot_error) eff" where
  "artifact_for_path cr kind path =
     bind_eff (map_err (ArtifactIo path) (fs_read path)) (\<lambda>bytes. ret (artifact_of_bytes cr kind path bytes))"

definition snapshot_artifacts ::
    "snapshot_crates \<Rightarrow> snapshot_paths \<Rightarrow> ('z fs_scheme, artifact list, snapshot_error) eff" where
  "snapshot_artifacts cr paths =
     bind_eff (lift_result (ensure_same_snapshot_parent paths)) (\<lambda>_.
     bind_eff (artifact_for_path cr Memory (sp_mem paths)) (\<lambda>mem.
     bind_eff (artifact_for_path cr VmStateFile (sp_vm_state paths)) (\<lambda>vm.
       ret [mem, vm])))"

text \<open>\<open>elapsed.as_millis() as u64\<close> truncates; a clock before the epoch is an error.\<close>
definition snapshot_unix_time_ms :: "('z fs_scheme, u64, snapshot_error) eff" where
  "snapshot_unix_time_ms =
     bind_eff fs_now (\<lambda>t. if t < 0 then fail (SnapshotClock ''second time provided was later than self'')
       else ret (word_of_int t))"

definition build_manifest ::
    "snapshot_crates \<Rightarrow> snapshot_paths \<Rightarrow> string \<Rightarrow> ('z fs_scheme, snapshot_manifest, snapshot_error) eff" where
  "build_manifest cr paths version =
     bind_eff (snapshot_artifacts cr paths) (\<lambda>as.
     bind_eff snapshot_unix_time_ms (\<lambda>now.
       ret \<lparr>artifact_set_sha256_hex = sn_hex cr (artifact_set_sha256 cr as), artifacts = as,
            created_at_unix_ms = now, sm_expected_firecracker_version = version,
            sm_schema_version = SNAPSHOT_SCHEMA_VERSION\<rparr>))"

definition write_snapshot_manifest ::
    "snapshot_crates \<Rightarrow> snapshot_paths \<Rightarrow> string \<Rightarrow> ('z fs_scheme, unit, snapshot_error) eff" where
  "write_snapshot_manifest cr paths version =
     bind_eff (build_manifest cr paths version) (\<lambda>manifest.
     bind_eff (lift_result (manifest_path paths)) (\<lambda>path.
       map_err SnapshotSchema (snapshot_manifest_write cr manifest path)))"

text \<open>The loop over the expected artifacts in \<open>verify_snapshot_manifest\<close>.\<close>
fun check_artifacts :: "artifact list \<Rightarrow> artifact list \<Rightarrow> (unit, snapshot_error) result" where
  "check_artifacts recorded [] = Ok ()"
| "check_artifacts recorded (e # es) =
     (case find (\<lambda>a. art_kind a = art_kind e) recorded of
        None \<Rightarrow> Err (ManifestMissingArtifact (art_kind e))
      | Some r \<Rightarrow>
          if art_path r \<noteq> art_path e \<or> art_size r \<noteq> art_size e \<or> art_sha256 r \<noteq> art_sha256 e
          then Err (ArtifactMismatch (art_kind e) (art_path e) (art_sha256 r) (art_sha256 e))
          else check_artifacts recorded es)"

definition check_manifest ::
    "snapshot_crates \<Rightarrow> snapshot_manifest \<Rightarrow> artifact list \<Rightarrow> (snapshot_manifest, snapshot_error) result" where
  "check_manifest cr manifest expected =
     (if length (artifacts manifest) \<noteq> length expected then
        Err (ManifestArtifactSetInvalid
          (''expected '' @ nat_to_string (length expected) @ '' artifacts, got '' @
           nat_to_string (length (artifacts manifest))))
      else and_then (check_artifacts (artifacts manifest) expected) (\<lambda>_.
        (let actual = sn_hex cr (artifact_set_sha256 cr expected)
         in if artifact_set_sha256_hex manifest \<noteq> actual
            then Err (ArtifactSetMismatch (artifact_set_sha256_hex manifest) actual)
            else Ok manifest)))"

definition verify_snapshot_manifest ::
    "snapshot_crates \<Rightarrow> snapshot_paths \<Rightarrow> string \<Rightarrow> ('z fs_scheme, snapshot_manifest, snapshot_error) eff" where
  "verify_snapshot_manifest cr paths version =
     bind_eff (lift_result (manifest_path paths)) (\<lambda>path.
     bind_eff (map_err SnapshotSchema (snapshot_manifest_read cr path)) (\<lambda>manifest.
       if sm_expected_firecracker_version manifest \<noteq> version then
         fail (FirecrackerVersionMismatch version (sm_expected_firecracker_version manifest))
       else bind_eff (snapshot_artifacts cr paths) (\<lambda>expected.
         lift_result (check_manifest cr manifest expected))))"

subsection \<open>Capture and restore\<close>

datatype fc_vm_state = Paused | Resumed

record load_snapshot_config =
  ls_snapshot_path :: fpath
  ls_mem_backend_path :: fpath
  ls_enable_diff_snapshots :: "bool option"

text \<open>The Firecracker API client; \<open>connect\<close> is \<open>Client::new\<close>.\<close>
record 'w fc_client =
  connect :: "fpath \<Rightarrow> ('w, unit, string) eff"
  patch_vm_state :: "fc_vm_state \<Rightarrow> ('w, unit, string) eff"
  put_snapshot_create :: "fpath \<Rightarrow> fpath \<Rightarrow> snapshot_kind \<Rightarrow> ('w, unit, string) eff"
  get_version :: "('w, string, string) eff"
  put_snapshot_load :: "load_snapshot_config \<Rightarrow> ('w, unit, string) eff"

record capture_request =
  cap_api_socket :: fpath
  cap_paths :: snapshot_paths
  cap_host_paths :: snapshot_paths
  cap_expected_version :: string
  cap_kind :: snapshot_kind
  cap_enable_diff :: bool

record restore_request =
  res_api_socket :: fpath
  res_paths :: snapshot_paths
  res_host_paths :: snapshot_paths
  res_expected_version :: string
  res_vsock_uds :: fpath
  res_enable_diff :: bool
  res_resume :: bool

definition capture ::
    "snapshot_crates \<Rightarrow> 'z fs_scheme fc_client \<Rightarrow> capture_request \<Rightarrow> ('z fs_scheme, unit, snapshot_error) eff" where
  "capture cr client req =
     (if cap_kind req = DiffSnapshot \<and> \<not> cap_enable_diff req then fail DiffSnapshotsDisabled
      else bind_eff (map_err SnapshotClient (connect client (cap_api_socket req))) (\<lambda>_.
           bind_eff (map_err SnapshotClient (patch_vm_state client Paused)) (\<lambda>_.
           bind_eff (map_err SnapshotClient
             (put_snapshot_create client (sp_vm_state (cap_paths req)) (sp_mem (cap_paths req)) (cap_kind req))) (\<lambda>_.
             write_snapshot_manifest cr (cap_host_paths req) (cap_expected_version req)))))"

definition live_firecracker_version_pin :: "string \<Rightarrow> string" where
  "live_firecracker_version_pin api_version = ''v'' @ api_version"

datatype restore_verification = VerifyManifest | Preverified

definition unlink_vsock_uds :: "fpath \<Rightarrow> ('z fs_scheme, unit, snapshot_error) eff" where
  "unlink_vsock_uds path w =
     (case fs_remove_file path w of
        (Ok (), w') \<Rightarrow> (Ok (), w')
      | (Err e, w') \<Rightarrow> if e = NotFound then (Ok (), w') else (Err (VsockUdsUnlink path e), w'))"

definition restore_inner ::
    "snapshot_crates \<Rightarrow> 'z fs_scheme fc_client \<Rightarrow> restore_request \<Rightarrow> restore_verification
     \<Rightarrow> ('z fs_scheme, unit, snapshot_error) eff" where
  "restore_inner cr client req verification =
     bind_eff (if verification = VerifyManifest
               then bind_eff (verify_snapshot_manifest cr (res_host_paths req) (res_expected_version req)) (\<lambda>_. ret ())
               else ret ()) (\<lambda>_.
     bind_eff (map_err SnapshotClient (connect client (res_api_socket req))) (\<lambda>_.
     bind_eff (map_err SnapshotClient (get_version client)) (\<lambda>live.
     (let pin = live_firecracker_version_pin live
      in if pin \<noteq> res_expected_version req then fail (LiveVersionMismatch (res_expected_version req) pin)
         else bind_eff (unlink_vsock_uds (res_vsock_uds req)) (\<lambda>_.
              bind_eff (map_err SnapshotClient (put_snapshot_load client
                \<lparr>ls_snapshot_path = sp_vm_state (res_paths req), ls_mem_backend_path = sp_mem (res_paths req),
                 ls_enable_diff_snapshots = (if res_enable_diff req then Some True else None)\<rparr>)) (\<lambda>_.
                if res_resume req then map_err SnapshotClient (patch_vm_state client Resumed) else ret ()))))))"

definition restore ::
    "snapshot_crates \<Rightarrow> 'z fs_scheme fc_client \<Rightarrow> restore_request \<Rightarrow> ('z fs_scheme, unit, snapshot_error) eff" where
  "restore cr client req = restore_inner cr client req VerifyManifest"

definition restore_preverified ::
    "snapshot_crates \<Rightarrow> 'z fs_scheme fc_client \<Rightarrow> restore_request \<Rightarrow> ('z fs_scheme, unit, snapshot_error) eff" where
  "restore_preverified cr client req = restore_inner cr client req Preverified"

subsection \<open>Persistence paths\<close>

definition validate_persistence_id :: "string \<Rightarrow> string \<Rightarrow> (unit, snapshot_error) result" where
  "validate_persistence_id field v =
     (if v = [] \<or> starts_with v ''.'' \<or> CHR ''/'' \<in> set v \<or> CHR 0x5C \<in> set v \<or> CHR 0x00 \<in> set v \<or>
         str_contains v ''..''
      then Err (InvalidPersistenceId field v) else Ok ())"

text \<open>\<open>Path::join\<close>: an absolute argument replaces the path, and separators split it into components.\<close>
definition path_join :: "fpath \<Rightarrow> string \<Rightarrow> fpath" where
  "path_join p s =
     (if is_absolute s then [] else p) @ filter (\<lambda>c. c \<noteq> [] \<and> c \<noteq> ''.'') (split_on (CHR ''/'') s)"

definition persistence_path ::
    "fpath \<Rightarrow> string \<Rightarrow> string \<Rightarrow> u64 \<Rightarrow> string \<Rightarrow> (fpath, snapshot_error) result" where
  "persistence_path store_root workspace_id run_id created_at set_sha256 =
     and_then (validate_persistence_id ''workspace_id'' workspace_id) (\<lambda>_.
     and_then (validate_persistence_id ''run_id'' run_id) (\<lambda>_.
       Ok (path_join (path_join (path_join store_root workspace_id) run_id)
             (nat_to_string (unat created_at) @ ''-'' @ set_sha256))))"

subsection \<open>Worlds without faults\<close>

lemma no_faults [simp]: "faults w = [] \<Longrightarrow> take_fault w = (Works, w)"
  by (simp add: take_fault_def)

lemma fs_read_ok: "faults w = [] \<Longrightarrow> nodes w p = Some (FileNode bs) \<Longrightarrow> fs_read p w = (Ok bs, w)"
  by (simp add: fs_read_def)

lemma fs_read_Ok_iff:
  "fs_read p w = (Ok bs, w') \<Longrightarrow> nodes w p = Some (FileNode bs) \<and> nodes w' = nodes w"
  by (auto simp: fs_read_def split: prod.splits fault.splits option.splits node.splits
    dest!: take_fault_nodes)

subsection \<open>Properties\<close>

lemma snapshot_artifacts_Ok:
  assumes "snapshot_artifacts cr paths w = (Ok as, w')"
  shows "\<exists>mb vb. nodes w (sp_mem paths) = Some (FileNode mb) \<and> nodes w (sp_vm_state paths) = Some (FileNode vb) \<and>
     as = [artifact_of_bytes cr Memory (sp_mem paths) mb, artifact_of_bytes cr VmStateFile (sp_vm_state paths) vb]"
  using assms
  by (auto simp: snapshot_artifacts_def artifact_for_path_def result_simps dest!: fs_read_Ok_iff)

lemma snapshot_artifacts_nodes:
  assumes "snapshot_artifacts cr paths w = (r, w')" shows "nodes w' = nodes w"
proof -
  have "fs_only (\<lambda>_. False) (snapshot_artifacts cr paths)"
    by (auto simp: snapshot_artifacts_def artifact_for_path_def intro!: fs_only_bind fs_only_map_err)
  then show ?thesis using assms by (auto dest: fs_onlyD(1))
qed

lemma check_artifacts_Ok:
  "check_artifacts recorded es = Ok () \<Longrightarrow> e \<in> set es \<Longrightarrow>
     \<exists>r \<in> set recorded. r = e"
proof (induction es)
  case (Cons x es)
  then show ?case
    by (auto split: option.splits if_splits simp: find_Some_iff intro!: artifact.equality)
      (metis artifact.equality nth_mem unit.exhaust)+
qed simp

text \<open>C8: a manifest that passes verification describes the files that are there: the version is the
  expected one, and it holds exactly two artifacts, the memory image and the VM state, each with the
  path, the size and the digest of the bytes on disk, under the digest of the set.\<close>
theorem verified_manifest_matches_files:
  assumes "verify_snapshot_manifest cr paths version w = (Ok m, w')"
  shows "\<exists>mb vb mem vm.
     nodes w (sp_mem paths) = Some (FileNode mb) \<and> nodes w (sp_vm_state paths) = Some (FileNode vb) \<and>
     mem = artifact_of_bytes cr Memory (sp_mem paths) mb \<and>
     vm = artifact_of_bytes cr VmStateFile (sp_vm_state paths) vb \<and>
     set (artifacts m) = {mem, vm} \<and> length (artifacts m) = 2 \<and>
     artifact_set_sha256_hex m = sn_hex cr (artifact_set_sha256 cr [mem, vm]) \<and>
     sm_expected_firecracker_version m = version"
proof -
  obtain m0 w1 expected where v: "sm_expected_firecracker_version m0 = version"
    and run: "snapshot_artifacts cr paths w1 = (Ok expected, w')" and n: "nodes w1 = nodes w"
    and chk: "check_manifest cr m0 expected = Ok m"
    using assms
    by (auto simp: verify_snapshot_manifest_def snapshot_manifest_read_def result_simps
      split: if_splits dest!: fs_read_Ok_iff)
  obtain mb vb where f: "nodes w (sp_mem paths) = Some (FileNode mb)" "nodes w (sp_vm_state paths) = Some (FileNode vb)"
    and e: "expected = [artifact_of_bytes cr Memory (sp_mem paths) mb,
                        artifact_of_bytes cr VmStateFile (sp_vm_state paths) vb]"
    using snapshot_artifacts_Ok [OF run] n by auto
  have m: "m0 = m" "length (artifacts m) = length expected"
    "check_artifacts (artifacts m) expected = Ok ()"
    "artifact_set_sha256_hex m = sn_hex cr (artifact_set_sha256 cr expected)"
    using chk by (auto simp: check_manifest_def Let_def result_simps split: if_splits)
  have sub: "set expected \<subseteq> set (artifacts m)"
    using check_artifacts_Ok [OF m(3)] by auto
  moreover have "card (set (artifacts m)) \<le> card (set expected)"
    using m(2) card_length [of "artifacts m"] by (simp add: e artifact_of_bytes_def)
  ultimately have "set (artifacts m) = set expected"
    by (intro card_seteq [symmetric]) auto
  with m f v e show ?thesis by auto
qed

lemma no_fault_calls:
  assumes "faults w = []"
  shows "fs_read p w = (r, w') \<Longrightarrow> w' = w"
    and "fs_write p bs w = (Ok (), w') \<Longrightarrow> w' = w\<lparr>nodes := (nodes w)(p \<mapsto> FileNode bs)\<rparr>"
    and "fs_set_permissions p w = (r2, w') \<Longrightarrow> w' = w"
  using assms
  by (auto simp: fs_read_def fs_write_def fs_set_permissions_def split: option.splits node.splits if_splits)

lemma snapshot_artifacts_quiet:
  assumes "faults w = []" and "snapshot_artifacts cr paths w = (r, w')"
  shows "w' = w"
  using assms
  by (auto simp: snapshot_artifacts_def artifact_for_path_def bind_eff_def map_err_def
    dest: no_fault_calls(1) split: prod.splits result.splits)

lemma snapshot_artifacts_ok:
  assumes "faults w = []" and "ensure_same_snapshot_parent paths = Ok d"
    and "nodes w (sp_mem paths) = Some (FileNode mb)" and "nodes w (sp_vm_state paths) = Some (FileNode vb)"
  shows "snapshot_artifacts cr paths w =
    (Ok [artifact_of_bytes cr Memory (sp_mem paths) mb, artifact_of_bytes cr VmStateFile (sp_vm_state paths) vb], w)"
  using assms
  by (simp add: snapshot_artifacts_def artifact_for_path_def fs_read_ok bind_eff_def map_err_def)

lemma check_artifacts_self: "distinct (map art_kind es) \<Longrightarrow> set fs \<subseteq> set es \<Longrightarrow> check_artifacts es fs = Ok ()"
proof (induction fs)
  case (Cons f fs)
  have "find (\<lambda>a. art_kind a = art_kind f) es = Some f"
  proof -
    obtain i where i: "i < length es" "es ! i = f" using Cons.prems(2) by (auto simp: in_set_conv_nth)
    have "art_kind (es ! j) \<noteq> art_kind f" if "j < i" for j
      using that i Cons.prems(1) nth_eq_iff_index_eq [of "map art_kind es" j i] by auto
    with i show ?thesis by (auto simp: find_Some_iff)
  qed
  with Cons show ?case by simp
qed simp

text \<open>a manifest just written for a snapshot pair verifies against that pair under the same
  Firecracker version, whatever the bytes are.\<close>
theorem written_manifest_verifies:
  assumes "snapshot_json_faithful cr" and "faults w = []"
    and "write_snapshot_manifest cr paths version w = (Ok (), w')"
    and "last (sp_mem paths) \<noteq> SNAPSHOT_MANIFEST_FILE" and "last (sp_vm_state paths) \<noteq> SNAPSHOT_MANIFEST_FILE"
  shows "\<exists>m. verify_snapshot_manifest cr paths version w' = (Ok m, w')"
proof -
  obtain as w1 now w2 path m where as: "snapshot_artifacts cr paths w = (Ok as, w1)"
    and now: "snapshot_unix_time_ms w1 = (Ok now, w2)" and path: "manifest_path paths = Ok path"
    and m: "m = \<lparr>artifact_set_sha256_hex = sn_hex cr (artifact_set_sha256 cr as), artifacts = as,
            created_at_unix_ms = now, sm_expected_firecracker_version = version,
            sm_schema_version = SNAPSHOT_SCHEMA_VERSION\<rparr>"
    and wr: "snapshot_manifest_write cr m path w2 = (Ok (), w')"
    using assms(3) by (auto simp: write_snapshot_manifest_def build_manifest_def result_simps)
  have w1: "w1 = w" using snapshot_artifacts_quiet [OF assms(2) as] .
  have w2: "nodes w2 = nodes w" "faults w2 = []"
    using now assms(2) w1
    by (auto simp: snapshot_unix_time_ms_def fs_now_def bind_eff_def split: list.splits if_splits)
  have w': "w' = w2\<lparr>nodes := (nodes w2)(path \<mapsto> FileNode (manifest_json cr m @ [10]))\<rparr>"
  proof -
    obtain w3 where "fs_write path (manifest_json cr m @ [10]) w2 = (Ok (), w3)"
      and perm: "fs_set_permissions path w3 = (Ok (), w')"
      using wr by (auto simp: snapshot_manifest_write_def result_simps)
    from no_fault_calls(2) [OF w2(2) this(1)] show ?thesis
      using no_fault_calls(3) [OF _ perm] w2(2) by simp
  qed
  obtain d where d: "ensure_same_snapshot_parent paths = Ok d" "path = d @ [SNAPSHOT_MANIFEST_FILE]"
    using path by (auto simp: manifest_path_def result_simps)
  obtain mb vb where f: "nodes w (sp_mem paths) = Some (FileNode mb)" "nodes w (sp_vm_state paths) = Some (FileNode vb)"
    and e: "as = [artifact_of_bytes cr Memory (sp_mem paths) mb, artifact_of_bytes cr VmStateFile (sp_vm_state paths) vb]"
    using snapshot_artifacts_Ok [OF as] by auto
  have "sp_mem paths \<noteq> path" "sp_vm_state paths \<noteq> path" using assms(4,5) d(2) by auto
  then have again: "snapshot_artifacts cr paths w' = (Ok as, w')"
    unfolding e using w2 f by (intro snapshot_artifacts_ok [OF _ d(1)]) (auto simp: w')
  have "snapshot_manifest_read cr path w' = (Ok m, w')"
    using assms(1) w2(2)
    by (simp add: w' snapshot_manifest_read_def fs_read_def bind_eff_def map_err_def
      parse_manifest_with_probe_def snapshot_json_faithful_def m)
  moreover have "check_manifest cr m as = Ok m"
    using check_artifacts_self [of as as] by (simp add: check_manifest_def m e artifact_of_bytes_def Let_def)
  ultimately show ?thesis
    using again by (simp add: verify_snapshot_manifest_def path bind_eff_def map_err_def m)
qed

definition restore_load_config :: "restore_request \<Rightarrow> load_snapshot_config" where
  "restore_load_config req =
     \<lparr>ls_snapshot_path = sp_vm_state (res_paths req), ls_mem_backend_path = sp_mem (res_paths req),
      ls_enable_diff_snapshots = (if res_enable_diff req then Some True else None)\<rparr>"

lemma restore_after_verify:
  assumes "verify_snapshot_manifest cr (res_host_paths req) (res_expected_version req) w = (Ok m, w1)"
    and "connect client (res_api_socket req) w1 = (Ok (), w2)" and "get_version client w2 = (Ok live, w3)"
  shows "restore cr client req w =
     (if ''v'' @ live \<noteq> res_expected_version req
      then (Err (LiveVersionMismatch (res_expected_version req) (''v'' @ live)), w3)
      else bind_eff (unlink_vsock_uds (res_vsock_uds req)) (\<lambda>_.
           bind_eff (map_err SnapshotClient (put_snapshot_load client (restore_load_config req))) (\<lambda>_.
             if res_resume req then map_err SnapshotClient (patch_vm_state client Resumed) else ret ())) w3)"
  using assms
  by (simp add: restore_def restore_inner_def live_firecracker_version_pin_def restore_load_config_def
    bind_eff_def [of _ _ w] bind_eff_def [of _ _ w1] bind_eff_def [of _ _ w2] map_err_def [of _ _ w1]
    map_err_def [of _ _ w2] Let_def)

text \<open>a restore touches nothing before it is safe to: if the snapshot does not verify, the client is
  not even connected; if the running Firecracker is another version than the snapshot's, the vsock
  socket is left alone and nothing is loaded; and \<open>PUT /snapshot/load\<close> is issued exactly when all
  checks and the unlink have passed.\<close>
theorem restore_stops_before_load:
  "(verify_snapshot_manifest cr (res_host_paths req) (res_expected_version req) w = (Err e, w1) \<longrightarrow>
      restore cr client req w = (Err e, w1)) \<and>
   (verify_snapshot_manifest cr (res_host_paths req) (res_expected_version req) w = (Ok m, w1) \<and>
    connect client (res_api_socket req) w1 = (Ok (), w2) \<and> get_version client w2 = (Ok live, w3) \<longrightarrow>
      (''v'' @ live \<noteq> res_expected_version req \<longrightarrow>
         restore cr client req w = (Err (LiveVersionMismatch (res_expected_version req) (''v'' @ live)), w3)) \<and>
      (''v'' @ live = res_expected_version req \<and> unlink_vsock_uds (res_vsock_uds req) w3 = (Err u, w4) \<longrightarrow>
         restore cr client req w = (Err u, w4)) \<and>
      (''v'' @ live = res_expected_version req \<and> unlink_vsock_uds (res_vsock_uds req) w3 = (Ok (), w4) \<and>
       put_snapshot_load client (restore_load_config req) w4 = (Ok (), w5) \<longrightarrow>
         restore cr client req w =
           (if res_resume req then map_err SnapshotClient (patch_vm_state client Resumed) w5 else (Ok (), w5))))"
proof (intro conjI impI)
  assume "verify_snapshot_manifest cr (res_host_paths req) (res_expected_version req) w = (Err e, w1)"
  then show "restore cr client req w = (Err e, w1)"
    by (simp add: restore_def restore_inner_def bind_eff_def)
qed (auto simp: restore_after_verify bind_eff_def map_err_def)

lemma persistence_id_component:
  assumes "validate_persistence_id field v = Ok ()"
  shows "path_join p v = p @ [v]"
proof -
  have v: "v \<noteq> []" "\<not> starts_with v ''.''" "CHR ''/'' \<notin> set v"
    using assms by (auto simp: validate_persistence_id_def split: if_splits)
  then have "\<not> is_absolute v" "v \<noteq> ''.''"
    by (cases v; auto simp: is_absolute_def starts_with_def)+
  with v show ?thesis by (simp add: path_join_def split_on_none)
qed

text \<open>an accepted workspace id and run id are one directory each below the store root, so that no
  choice of ids leaves the store or reaches the directory of another pair of ids.\<close>
theorem persistence_path_contained:
  assumes "persistence_path root ws run t set_sha = Ok p" and "CHR ''/'' \<notin> set set_sha"
  shows "p = root @ [ws, run, nat_to_string (unat t) @ ''-'' @ set_sha] \<and>
     ''..'' \<notin> {ws, run} \<and> CHR ''/'' \<notin> set ws \<union> set run"
proof -
  have ids: "validate_persistence_id ''workspace_id'' ws = Ok ()" "validate_persistence_id ''run_id'' run = Ok ()"
    and p: "p = path_join (path_join (path_join root ws) run) (nat_to_string (unat t) @ ''-'' @ set_sha)"
    using assms(1) by (auto simp: persistence_path_def result_simps)
  have slash: "CHR ''/'' \<notin> set (nat_to_string n)" for n
    by (rule digit_not_in) (simp add: is_ascii_digit_def)
  have first: "hd (nat_to_string n) \<noteq> CHR ''/''" for n
    using nat_to_string_digits [of n] by (cases "nat_to_string n") (auto simp: is_ascii_digit_def)
  have leaf: "path_join q (nat_to_string n @ ''-'' @ set_sha) = q @ [nat_to_string n @ ''-'' @ set_sha]" for q n
  proof -
    have "\<not> is_absolute (nat_to_string n @ ''-'' @ set_sha)"
      using first [of n] nat_to_string_nonempty [of n]
      by (cases "nat_to_string n") (auto simp: is_absolute_def starts_with_def)
    moreover have "nat_to_string n @ ''-'' @ set_sha \<noteq> ''.''"
      by (cases "nat_to_string n") auto
    moreover have "CHR ''/'' \<notin> set (nat_to_string n @ ''-'' @ set_sha)"
      using slash [of n] assms(2) by simp
    ultimately show ?thesis by (simp add: path_join_def split_on_none)
  qed
  moreover have "''..'' \<notin> {ws, run} \<and> CHR ''/'' \<notin> set ws \<union> set run"
    using ids by (auto simp: validate_persistence_id_def starts_with_def split: if_splits)
  ultimately show ?thesis
    using p leaf persistence_id_component [OF ids(1)] persistence_id_component [OF ids(2)] by simp
qed

subsection \<open>Witnesses\<close>

text \<open>A codec that keeps everything: a manifest as a unary number.\<close>

definition artifact_tuple :: "artifact \<Rightarrow> bool \<times> string list \<times> string \<times> nat" where
  "artifact_tuple a = (art_kind a = Memory, art_path a, art_sha256 a, unat (art_size a))"

definition tuple_artifact :: "bool \<times> string list \<times> string \<times> nat \<Rightarrow> artifact" where
  "tuple_artifact t = (case t of (k, p, s, n) \<Rightarrow>
     \<lparr>art_kind = (if k then Memory else VmStateFile), art_path = p, art_sha256 = s, art_size = word_of_nat n\<rparr>)"

lemma tuple_artifact_inverse [simp]: "tuple_artifact (artifact_tuple a) = a"
  by (cases a; cases "art_kind a") (auto simp: artifact_tuple_def tuple_artifact_def)

definition sample_manifest_json :: "snapshot_manifest \<Rightarrow> u8 list" where
  "sample_manifest_json m =
     replicate (to_nat (artifact_set_sha256_hex m, map artifact_tuple (artifacts m), unat (created_at_unix_ms m),
       sm_expected_firecracker_version m, unat (sm_schema_version m))) 0"

definition sample_manifest_of_json :: "u8 list \<Rightarrow> snapshot_manifest option" where
  "sample_manifest_of_json raw =
     (case from_nat (length raw - 1) :: string \<times> (bool \<times> string list \<times> string \<times> nat) list \<times> nat \<times> string \<times> nat of
        (h, as, t, v, n) \<Rightarrow>
          Some \<lparr>artifact_set_sha256_hex = h, artifacts = map tuple_artifact as, created_at_unix_ms = word_of_nat t,
            sm_expected_firecracker_version = v, sm_schema_version = word_of_nat n\<rparr>)"

definition sample_snapshot_crates :: snapshot_crates where
  "sample_snapshot_crates =
     \<lparr>sn_sha256 = (\<lambda>bs. take 32 (bs @ replicate 32 0)), sn_hex = hex_encode,
      artifact_json = (\<lambda>a. str_bytes (art_sha256 a)), manifest_json = sample_manifest_json,
      manifest_of_json = sample_manifest_of_json,
      schema_of_json = (\<lambda>raw. map_option sm_schema_version (sample_manifest_of_json raw))\<rparr>"

lemma sample_snapshot_crates_faithful: "snapshot_json_faithful sample_snapshot_crates"
  by (simp add: snapshot_json_faithful_def sample_snapshot_crates_def sample_manifest_json_def
    sample_manifest_of_json_def comp_def)

definition sample_fs :: fs where
  "sample_fs = \<lparr>nodes = [[''s''] \<mapsto> DirNode, [''s'', ''mem.snap''] \<mapsto> FileNode [1, 2], [''s'', ''vm.snap''] \<mapsto> FileNode [3]],
     faults = [], clock = [5]\<rparr>"

definition sample_pair :: snapshot_paths where
  "sample_pair = \<lparr>sp_vm_state = [''s'', ''vm.snap''], sp_mem = [''s'', ''mem.snap'']\<rparr>"

lemma sample_manifest_written:
  "\<exists>w'. write_snapshot_manifest sample_snapshot_crates sample_pair ''v1.15.1'' sample_fs = (Ok (), w')"
  by (simp add: write_snapshot_manifest_def build_manifest_def snapshot_artifacts_def artifact_for_path_def
    fs_read_def sample_fs_def sample_pair_def ensure_same_snapshot_parent_def path_parent_def manifest_path_def
    snapshot_unix_time_ms_def fs_now_def snapshot_manifest_write_def fs_write_def parent_is_dir_def
    fs_set_permissions_def SNAPSHOT_MANIFEST_FILE_def bind_eff_def map_err_def take_fault_def)

theorem written_manifest_verifies_witness:
  "\<exists>w' m. write_snapshot_manifest sample_snapshot_crates sample_pair ''v1.15.1'' sample_fs = (Ok (), w') \<and>
     verify_snapshot_manifest sample_snapshot_crates sample_pair ''v1.15.1'' w' = (Ok m, w')"
proof -
  obtain w' where w: "write_snapshot_manifest sample_snapshot_crates sample_pair ''v1.15.1'' sample_fs = (Ok (), w')"
    using sample_manifest_written by blast
  have "\<exists>m. verify_snapshot_manifest sample_snapshot_crates sample_pair ''v1.15.1'' w' = (Ok m, w')"
    by (rule written_manifest_verifies [OF sample_snapshot_crates_faithful _ w])
      (simp_all add: sample_fs_def sample_pair_def SNAPSHOT_MANIFEST_FILE_def)
  with w show ?thesis by blast
qed

text \<open>The same pair with its manifest in place.\<close>
definition sample_manifest :: snapshot_manifest where
  "sample_manifest =
     (let as = [artifact_of_bytes sample_snapshot_crates Memory (sp_mem sample_pair) [1, 2],
                artifact_of_bytes sample_snapshot_crates VmStateFile (sp_vm_state sample_pair) [3]]
      in \<lparr>artifact_set_sha256_hex = hex_encode (artifact_set_sha256 sample_snapshot_crates as), artifacts = as,
          created_at_unix_ms = 5, sm_expected_firecracker_version = ''v1.15.1'',
          sm_schema_version = SNAPSHOT_SCHEMA_VERSION\<rparr>)"

definition sample_snapshot_fs :: fs where
  "sample_snapshot_fs = sample_fs\<lparr>nodes := (nodes sample_fs)([''s'', SNAPSHOT_MANIFEST_FILE] \<mapsto>
     FileNode (manifest_json sample_snapshot_crates sample_manifest @ [10]))\<rparr>"

lemma sample_snapshot_verifies:
  "verify_snapshot_manifest sample_snapshot_crates sample_pair ''v1.15.1'' sample_snapshot_fs =
     (Ok sample_manifest, sample_snapshot_fs)"
proof -
  have parent: "ensure_same_snapshot_parent sample_pair = Ok [''s'']"
    by (simp add: ensure_same_snapshot_parent_def sample_pair_def path_parent_def)
  have arts: "snapshot_artifacts sample_snapshot_crates sample_pair sample_snapshot_fs =
      (Ok (artifacts sample_manifest), sample_snapshot_fs)"
    by (subst snapshot_artifacts_ok [OF _ parent, where mb = "[1, 2]" and vb = "[3]"])
      (simp_all add: sample_snapshot_fs_def sample_fs_def sample_pair_def SNAPSHOT_MANIFEST_FILE_def
        sample_manifest_def Let_def)
  have "check_manifest sample_snapshot_crates sample_manifest (artifacts sample_manifest) = Ok sample_manifest"
    using check_artifacts_self [of "artifacts sample_manifest" "artifacts sample_manifest"]
    by (simp add: check_manifest_def sample_manifest_def Let_def artifact_of_bytes_def)
      (simp add: sample_snapshot_crates_def)
  moreover have "snapshot_manifest_read sample_snapshot_crates [''s'', SNAPSHOT_MANIFEST_FILE] sample_snapshot_fs =
      (Ok sample_manifest, sample_snapshot_fs)"
    using sample_snapshot_crates_faithful
    by (simp add: snapshot_manifest_read_def fs_read_def sample_snapshot_fs_def sample_fs_def bind_eff_def
      map_err_def parse_manifest_with_probe_def snapshot_json_faithful_def take_fault_def)
      (simp add: sample_manifest_def Let_def)
  moreover have "sm_expected_firecracker_version sample_manifest = ''v1.15.1''"
    by (simp add: sample_manifest_def Let_def)
  ultimately show ?thesis
    by (simp add: verify_snapshot_manifest_def manifest_path_def parent bind_eff_def map_err_def arts)
qed

theorem verified_manifest_matches_files_witness:
  "\<exists>mb vb mem vm.
     nodes sample_snapshot_fs (sp_mem sample_pair) = Some (FileNode mb) \<and>
     nodes sample_snapshot_fs (sp_vm_state sample_pair) = Some (FileNode vb) \<and>
     mem = artifact_of_bytes sample_snapshot_crates Memory (sp_mem sample_pair) mb \<and>
     vm = artifact_of_bytes sample_snapshot_crates VmStateFile (sp_vm_state sample_pair) vb \<and>
     set (artifacts sample_manifest) = {mem, vm} \<and> length (artifacts sample_manifest) = 2 \<and>
     artifact_set_sha256_hex sample_manifest = sn_hex sample_snapshot_crates (artifact_set_sha256 sample_snapshot_crates [mem, vm]) \<and>
     sm_expected_firecracker_version sample_manifest = ''v1.15.1''"
  by (rule verified_manifest_matches_files [OF sample_snapshot_verifies])

definition sample_client :: "string \<Rightarrow> fs fc_client" where
  "sample_client version =
     \<lparr>connect = (\<lambda>_. ret ()), patch_vm_state = (\<lambda>_. ret ()), put_snapshot_create = (\<lambda>_ _ _. ret ()),
      get_version = ret version, put_snapshot_load = (\<lambda>_. ret ())\<rparr>"

definition sample_restore :: restore_request where
  "sample_restore = \<lparr>res_api_socket = [''api''], res_paths = sample_pair, res_host_paths = sample_pair,
     res_expected_version = ''v1.15.1'', res_vsock_uds = [''v.sock''], res_enable_diff = False, res_resume = True\<rparr>"

theorem restore_stops_before_load_witness:
  "restore sample_snapshot_crates (sample_client ''1.14.0'') sample_restore sample_snapshot_fs =
     (Err (LiveVersionMismatch ''v1.15.1'' ''v1.14.0''), sample_snapshot_fs)"
  using restore_stops_before_load [of sample_snapshot_crates sample_restore sample_snapshot_fs _ sample_snapshot_fs
      "sample_client ''1.14.0''" sample_manifest sample_snapshot_fs "''1.14.0''" sample_snapshot_fs]
    sample_snapshot_verifies
  by (simp add: sample_restore_def sample_client_def)

theorem persistence_path_contained_witness:
  "persistence_path [''store''] ''ws'' ''run'' 7 ''ab'' = Ok [''store'', ''ws'', ''run'', ''7-ab'']"
proof -
  have ok: "persistence_path [''store''] ''ws'' ''run'' 7 ''ab'' =
      Ok (path_join (path_join (path_join [''store''] ''ws'') ''run'') ''7-ab'')"
    by (simp add: persistence_path_def validate_persistence_id_def starts_with_def nat_to_string.simps)
  from persistence_path_contained [OF ok] ok show ?thesis by (simp add: nat_to_string.simps)
qed

end
