(* ===== verification/Template_Identity.thy ===== *)
theory Template_Identity
  imports Snapshot "HOL-Library.Char_ord" "HOL-Library.List_Lexorder" "HOL-Library.Product_Lexorder"
    "HOL-Library.Multiset"
begin

text \<open>
  Identity of snapshot templates (\<open>m80-snapshot-template/src/identity.rs\<close>, \<open>hooks.rs\<close>, \<open>paths.rs\<close>,
  \<open>manifest.rs\<close>): validated digests, paths and host names, the hook set, and the bytes the template
  fingerprint hashes. SHA-256 and the hex codec are parameters.
\<close>

subsection \<open>Errors and validated values\<close>

datatype template_fingerprint = TemplateFingerprint "u8 list"

datatype template_store_error =
  CapacityZero
| InvalidStoreRoot fpath string
| TemplateInvalidValue string string
| TemplateMissing template_fingerprint
| TemplateExists template_fingerprint
| TemplatePinned template_fingerprint
| FingerprintMismatch template_fingerprint template_fingerprint
| MissingBody fpath
| AllCandidatesPinned
| TemplateIo fpath io_error
| UnsupportedTemplateSchema u32 u32
| TemplateJson fpath

datatype template_digest = TemplateDigest string
datatype image_digest = ImageDigest string
datatype guest_mount_path = GuestMountPath string
datatype jail_backing_path = JailBackingPath string
datatype hostname_spec = HostnameSpec string

fun digest_str :: "template_digest \<Rightarrow> string" where "digest_str (TemplateDigest s) = s"
fun image_digest_str :: "image_digest \<Rightarrow> string" where "image_digest_str (ImageDigest s) = s"
fun mount_str :: "guest_mount_path \<Rightarrow> string" where "mount_str (GuestMountPath s) = s"
fun jail_str :: "jail_backing_path \<Rightarrow> string" where "jail_str (JailBackingPath s) = s"
fun hostname_str :: "hostname_spec \<Rightarrow> string" where "hostname_str (HostnameSpec s) = s"

definition is_lower_hex :: "char \<Rightarrow> bool" where
  "is_lower_hex c \<longleftrightarrow> is_ascii_digit c \<or> (97 \<le> (of_char c :: nat) \<and> (of_char c :: nat) \<le> 102)"

definition parse_digest :: "string \<Rightarrow> string \<Rightarrow> (string, template_store_error) result" where
  "parse_digest field v =
     (if length v \<noteq> 64 then
        Err (TemplateInvalidValue field ''sha256 digest must be 64 lowercase hex characters'')
      else if \<not> list_all is_lower_hex v then
        Err (TemplateInvalidValue field ''sha256 digest must be lowercase hex'')
      else Ok v)"

definition template_digest_parse :: "string \<Rightarrow> (template_digest, template_store_error) result" where
  "template_digest_parse v = and_then (parse_digest ''template.digest'' v) (\<lambda>s. Ok (TemplateDigest s))"

definition image_digest_parse :: "string \<Rightarrow> (image_digest, template_store_error) result" where
  "image_digest_parse v = and_then (parse_digest ''template.image_digest'' v) (\<lambda>s. Ok (ImageDigest s))"

subsection \<open>Paths (paths.rs)\<close>

definition shadows_reserved_mount :: "string \<Rightarrow> bool" where
  "shadows_reserved_mount path \<longleftrightarrow>
     path_eq path ''/'' \<or>
     list_ex (\<lambda>reserved. path_eq path reserved \<or> path_starts_with path reserved)
       [''/proc'', ''/sys'', ''/dev'', ''/etc'', ''/lower'', ''/upper'', ''/merged'', ''/workspace'', ''/snapshot'']"

definition layer_name_char :: "char \<Rightarrow> bool" where
  "layer_name_char c \<longleftrightarrow> is_ascii_alphanumeric c \<or> c \<in> {CHR ''.'', CHR ''_'', CHR ''-''}"

definition guest_mount_path_parse :: "string \<Rightarrow> (guest_mount_path, template_store_error) result" where
  "guest_mount_path_parse v =
     (let invalid = (\<lambda>reason. Err (TemplateInvalidValue ''template.mount_at'' reason));
          raw = split_on (CHR ''/'') v
      in if v = [] then invalid ''path must not be empty''
         else if \<not> is_absolute v then invalid ''path must be absolute''
         else if shadows_reserved_mount v then invalid ''path shadows a reserved mount''
         else if length raw \<noteq> 4 \<or> raw ! 0 \<noteq> [] \<or> raw ! 1 \<noteq> ''opt'' \<or> raw ! 2 \<noteq> ''m80-layers''
           then invalid ''path must match /opt/m80-layers/<name>''
         else
           (let name = raw ! 3
            in if name = ''.'' \<or> name = ''..'' then invalid ''path must not contain . or .. components''
               else if name = [] \<or> length name > 64 then invalid ''layer name must be 1..=64 characters''
               else if \<not> list_all layer_name_char name
                 then invalid ''layer name must contain only [A-Za-z0-9._-]''
               else Ok (GuestMountPath v)))"

definition jail_backing_path_parse :: "string \<Rightarrow> (jail_backing_path, template_store_error) result" where
  "jail_backing_path_parse v =
     (if \<not> is_absolute v then
        Err (TemplateInvalidValue ''template.jail_backing_path'' ''path must be absolute'')
      else if list_ex (\<lambda>c. c = CurDir \<or> c = ParentDir) (path_components v) then
        Err (TemplateInvalidValue ''template.jail_backing_path'' ''path must not contain . or .. components'')
      else Ok (JailBackingPath v))"

subsection \<open>Hooks (hooks.rs)\<close>

datatype hook_spec = ReseedSystemdRandomSeed | RegenMachineId | SpecSetHostname hostname_spec

fun hostname_labels :: "string list \<Rightarrow> (unit, template_store_error) result" where
  "hostname_labels [] = Ok ()"
| "hostname_labels (label # labels) =
     (let invalid = (\<lambda>reason. Err (TemplateInvalidValue ''hook.hostname'' reason))
      in if label = [] then invalid ''hostname labels must not be empty''
         else if length label > 63 then invalid ''hostname labels must be <=63 bytes''
         else if hd label = CHR ''-'' then invalid ''hostname labels must not start with hyphen''
         else if last label = CHR ''-'' then invalid ''hostname labels must not end with hyphen''
         else if \<not> list_all (\<lambda>c. is_ascii_alphanumeric c \<or> c = CHR ''-'') label
           then invalid ''hostname labels must contain only ASCII letters, digits, and hyphen''
         else hostname_labels labels)"

definition hostname_spec_new :: "string \<Rightarrow> (hostname_spec, template_store_error) result" where
  "hostname_spec_new v =
     (if v = [] then Err (TemplateInvalidValue ''hook.hostname'' ''hostname must not be empty'')
      else if length v > 253 then Err (TemplateInvalidValue ''hook.hostname'' ''hostname must be <=253 bytes'')
      else and_then (hostname_labels (split_on (CHR ''.'') v)) (\<lambda>_. Ok (HostnameSpec v)))"

record digest_crates =
  dg_sha256 :: "u8 list \<Rightarrow> u8 list"
  dg_hex :: "u8 list \<Rightarrow> string"
  dg_unhex :: "string \<Rightarrow> u8 list option"

text \<open>\<open>(n as u64).to_be_bytes()\<close>\<close>
definition u64_be_bytes :: "nat \<Rightarrow> u8 list" where
  "u64_be_bytes n = map (\<lambda>i. word_of_nat (n div 256 ^ i)) [7, 6, 5, 4, 3, 2, 1, 0]"

definition hash_field :: "string \<Rightarrow> u8 list \<Rightarrow> u8 list" where
  "hash_field label v = str_bytes label @ [0] @ u64_be_bytes (length v) @ v"

definition hash_usize :: "string \<Rightarrow> nat \<Rightarrow> u8 list" where
  "hash_usize label n = hash_field label (u64_be_bytes n)"

fun hook_bytes :: "hook_spec \<Rightarrow> u8 list" where
  "hook_bytes ReseedSystemdRandomSeed = hash_field ''hook'' (str_bytes ''reseed_systemd_random_seed'')"
| "hook_bytes RegenMachineId = hash_field ''hook'' (str_bytes ''regen_machine_id'')"
| "hook_bytes (SpecSetHostname h) =
     hash_field ''hook'' (str_bytes ''set_hostname'') @ hash_field ''hostname'' (str_bytes (hostname_str h))"

definition digest_hooks :: "digest_crates \<Rightarrow> hook_spec list \<Rightarrow> template_digest" where
  "digest_hooks cr hooks =
     TemplateDigest (dg_hex cr (dg_sha256 cr
       (hash_field ''version'' (str_bytes ''HookSpecSetV1'') @ hash_usize ''hook_len'' (length hooks) @
        concat (map hook_bytes hooks))))"

record hook_spec_set =
  set_hooks :: "hook_spec list"
  set_digest :: template_digest

definition hook_spec_set_new :: "digest_crates \<Rightarrow> hook_spec list \<Rightarrow> hook_spec_set" where
  "hook_spec_set_new cr hooks = \<lparr>set_hooks = hooks, set_digest = digest_hooks cr hooks\<rparr>"

text \<open>\<open>Deserialize for HookSpecSet\<close>, from the fields of the wire form.\<close>
definition hook_spec_set_from_wire :: "digest_crates \<Rightarrow> hook_spec list \<Rightarrow> template_digest \<Rightarrow> hook_spec_set option" where
  "hook_spec_set_from_wire cr hooks digest =
     (let computed = hook_spec_set_new cr hooks in if set_digest computed \<noteq> digest then None else Some computed)"

subsection \<open>Inputs and fingerprints (identity.rs)\<close>

datatype pmem_template_sharing = PerVm | SharedBacking

fun sharing_str :: "pmem_template_sharing \<Rightarrow> string" where
  "sharing_str PerVm = ''per_vm''"
| "sharing_str SharedBacking = ''shared''"

record pmem_template_entry =
  mount_at :: guest_mount_path
  pmem_image_digest :: image_digest
  sharing :: pmem_template_sharing
  jail_path :: jail_backing_path

record template_inputs =
  host_kernel_version :: string
  firecracker_version :: string
  guest_kernel_digest :: template_digest
  pmem_image_digest_set :: "pmem_template_entry list"
  post_init_state_digest :: template_digest
  hook_set :: hook_spec_set

definition is_ascii_control :: "char \<Rightarrow> bool" where
  "is_ascii_control c \<longleftrightarrow> (of_char c :: nat) < 32 \<or> (of_char c :: nat) = 127"

definition checked_identity_value :: "string \<Rightarrow> string \<Rightarrow> (string, template_store_error) result" where
  "checked_identity_value field v =
     (if v = [] then Err (TemplateInvalidValue field ''must not be empty'')
      else if list_ex is_ascii_control v then Err (TemplateInvalidValue field ''must not contain control characters'')
      else Ok v)"

definition template_inputs_new ::
    "string \<Rightarrow> string \<Rightarrow> template_digest \<Rightarrow> pmem_template_entry list \<Rightarrow> template_digest \<Rightarrow> hook_spec_set
     \<Rightarrow> (template_inputs, template_store_error) result" where
  "template_inputs_new host_kernel fc guest pmem post hooks =
     and_then (checked_identity_value ''template.host_kernel_version'' host_kernel) (\<lambda>host_kernel.
     and_then (checked_identity_value ''template.firecracker_version'' fc) (\<lambda>fc.
       Ok \<lparr>host_kernel_version = host_kernel, firecracker_version = fc, guest_kernel_digest = guest,
           pmem_image_digest_set = pmem, post_init_state_digest = post, hook_set = hooks\<rparr>))"

text \<open>The order of \<open>Path::cmp\<close>: component by component, \<open>RootDir\<close> before \<open>CurDir\<close> before \<open>ParentDir\<close>
  before names, names bytewise.\<close>
fun component_key :: "component \<Rightarrow> nat \<times> string" where
  "component_key RootDir = (0, [])"
| "component_key CurDir = (1, [])"
| "component_key ParentDir = (2, [])"
| "component_key (Normal s) = (3, s)"

definition path_key :: "string \<Rightarrow> (nat \<times> string) list" where
  "path_key s = map component_key (path_components s)"

text \<open>\<open>canonical_cmp\<close> compares these keys.\<close>
definition canonical_key ::
    "pmem_template_entry \<Rightarrow> (nat \<times> string) list \<times> string \<times> string \<times> (nat \<times> string) list" where
  "canonical_key e =
     (path_key (mount_str (mount_at e)), image_digest_str (pmem_image_digest e), sharing_str (sharing e),
      path_key (jail_str (jail_path e)))"

definition layer_bytes :: "pmem_template_entry \<Rightarrow> u8 list" where
  "layer_bytes e =
     hash_field ''pmem_mount_at'' (str_bytes (mount_str (mount_at e))) @
     hash_field ''pmem_digest'' (str_bytes (image_digest_str (pmem_image_digest e))) @
     hash_field ''pmem_sharing'' (str_bytes (sharing_str (sharing e))) @
     hash_field ''pmem_jail_path'' (str_bytes (jail_str (jail_path e)))"

text \<open>What \<open>TemplateFingerprint::compute\<close> feeds the hasher. \<open>slice::sort_by\<close> is stable, as \<open>sort_key\<close> is.\<close>
definition fingerprint_bytes :: "template_inputs \<Rightarrow> u8 list" where
  "fingerprint_bytes i =
     (let layers = sort_key canonical_key (pmem_image_digest_set i)
      in hash_field ''version'' (str_bytes ''TemplateFingerprintV1'') @
         hash_field ''host_kernel_version'' (str_bytes (host_kernel_version i)) @
         hash_field ''firecracker_version'' (str_bytes (firecracker_version i)) @
         hash_field ''guest_kernel_digest'' (str_bytes (digest_str (guest_kernel_digest i))) @
         hash_field ''pmem_len'' (u64_be_bytes (length layers)) @
         concat (map layer_bytes layers) @
         hash_field ''post_init_state_digest'' (str_bytes (digest_str (post_init_state_digest i))) @
         hash_field ''hook_spec_set_digest'' (str_bytes (digest_str (set_digest (hook_set i)))))"

definition fingerprint_compute :: "digest_crates \<Rightarrow> template_inputs \<Rightarrow> template_fingerprint" where
  "fingerprint_compute cr i = TemplateFingerprint (dg_sha256 cr (fingerprint_bytes i))"

fun fingerprint_to_hex :: "digest_crates \<Rightarrow> template_fingerprint \<Rightarrow> string" where
  "fingerprint_to_hex cr (TemplateFingerprint bs) = dg_hex cr bs"

definition fingerprint_parse_hex :: "digest_crates \<Rightarrow> string \<Rightarrow> (template_fingerprint, template_store_error) result" where
  "fingerprint_parse_hex cr v =
     (if length v \<noteq> 64 then
        Err (TemplateInvalidValue ''template.fingerprint'' ''fingerprint must be 64 lowercase hex characters'')
      else if \<not> list_all is_lower_hex v then
        Err (TemplateInvalidValue ''template.fingerprint'' ''fingerprint must be lowercase hex'')
      else
        (case dg_unhex cr v of
           None \<Rightarrow> Err (TemplateInvalidValue ''template.fingerprint'' ''fingerprint must be valid hex'')
         | Some bs \<Rightarrow> Ok (TemplateFingerprint bs)))"

subsection \<open>The hashed bytes determine the inputs\<close>

lemma of_char_less: "(of_char c :: nat) < 256"
  using nat_of_char_less_256 [of c] by simp

lemma str_bytes_inj [simp]: "str_bytes a = str_bytes b \<longleftrightarrow> a = b"
proof -
  have "inj (\<lambda>c. word_of_nat (of_char c) :: u8)"
  proof (rule injI)
    fix c d assume "(word_of_nat (of_char c) :: u8) = word_of_nat (of_char d)"
    then have "unat (word_of_nat (of_char c) :: u8) = unat (word_of_nat (of_char d) :: u8)" by simp
    then have "(of_char c :: nat) = of_char d"
      using of_char_less [of c] of_char_less [of d] by (simp add: unat_of_nat take_bit_nat_eq_self)
    then show "c = d" by simp
  qed
  then show ?thesis unfolding str_bytes_def by (rule inj_map_eq_map)
qed

lemma length_u64_be_bytes [simp]: "length (u64_be_bytes n) = 8"
  by (simp add: u64_be_bytes_def)

lemma base256_value:
  "foldl (\<lambda>acc b. acc * 256 + unat (b :: u8)) a (map (\<lambda>i. word_of_nat (n div 256 ^ i)) (rev [0..<k])) =
     a * 256 ^ k + n mod 256 ^ k"
proof (induction k arbitrary: a)
  case (Suc k)
  have "unat (word_of_nat (n div 256 ^ k) :: u8) = n div 256 ^ k mod 256"
    by (simp add: unat_of_nat take_bit_eq_mod)
  moreover have "n mod 256 ^ Suc k = 256 ^ k * (n div 256 ^ k mod 256) + n mod 256 ^ k"
    by (simp only: power_Suc2 mod_mult2_eq)
  ultimately show ?case by (simp add: Suc.IH) (simp add: algebra_simps)
qed simp

text \<open>Lengths a machine can hold.\<close>
definition fits :: "'a list \<Rightarrow> bool" where
  "fits xs \<longleftrightarrow> length xs < 2 ^ 64"

lemma u64_be_bytes_inj:
  assumes "fits xs" and "fits ys" and "u64_be_bytes (length xs) = u64_be_bytes (length ys)"
  shows "length xs = length ys"
proof -
  have "rev [0..<8] = [7, 6, 5, 4, 3, 2, 1, 0 :: nat]" by code_simp
  then have "u64_be_bytes x = map (\<lambda>i. word_of_nat (x div 256 ^ i)) (rev [0..<8])" for x
    by (simp only: u64_be_bytes_def)
  then have "length xs mod 256 ^ 8 = length ys mod 256 ^ 8"
    using assms(3) base256_value [of 0 "length xs" 8] base256_value [of 0 "length ys" 8]
    by (simp only: mult_0 add_0)
  moreover have "(256 :: nat) ^ 8 = 2 ^ 64" by simp
  ultimately show ?thesis using assms(1,2) unfolding fits_def by (simp only: mod_less)
qed

lemma fits_str_bytes [simp]: "fits (str_bytes s) \<longleftrightarrow> fits s"
  by (simp add: fits_def str_bytes_def)

lemma fits_u64_be_bytes [simp]: "fits (u64_be_bytes n)"
  by (simp add: fits_def)

lemma hash_field_inj:
  assumes "fits a" and "fits b"
  shows "hash_field label a @ r = hash_field label b @ s \<longleftrightarrow> a = b \<and> r = s"
proof
  assume "hash_field label a @ r = hash_field label b @ s"
  then have "u64_be_bytes (length a) @ a @ r = u64_be_bytes (length b) @ b @ s"
    by (simp add: hash_field_def)
  then have "u64_be_bytes (length a) = u64_be_bytes (length b)" and eq: "a @ r = b @ s"
    by (simp_all add: append_eq_append_conv)
  then have "length a = length b" using u64_be_bytes_inj [OF assms] by simp
  with eq show "a = b \<and> r = s" by simp
qed simp

lemma hash_field_inj_last:
  "fits a \<Longrightarrow> fits b \<Longrightarrow> hash_field label a = hash_field label b \<longleftrightarrow> a = b"
  using hash_field_inj [of a b label "[]" "[]"] by simp

definition entry_fits :: "pmem_template_entry \<Rightarrow> bool" where
  "entry_fits e \<longleftrightarrow>
     fits (mount_str (mount_at e)) \<and> fits (image_digest_str (pmem_image_digest e)) \<and> fits (jail_str (jail_path e))"

lemma sharing_str_inj [simp]: "sharing_str a = sharing_str b \<longleftrightarrow> a = b"
  by (cases a; cases b) auto

lemma wrapper_inj [simp]:
  "mount_str a = mount_str b \<longleftrightarrow> a = b" "image_digest_str c = image_digest_str d \<longleftrightarrow> c = d"
  "jail_str e = jail_str f \<longleftrightarrow> e = f" "digest_str g = digest_str h \<longleftrightarrow> g = h"
  by (auto elim: mount_str.elims image_digest_str.elims jail_str.elims digest_str.elims)

lemma fits_sharing_str [simp]: "fits (sharing_str s)"
  by (cases s) (simp_all add: fits_def)

lemma layer_bytes_inj:
  assumes "entry_fits a" and "entry_fits b"
  shows "layer_bytes a @ r = layer_bytes b @ s \<longleftrightarrow> a = b \<and> r = s"
  using assms
  by (auto simp: layer_bytes_def entry_fits_def hash_field_inj intro!: pmem_template_entry.equality)

lemma layers_bytes_inj:
  assumes "length as = length bs" and "list_all entry_fits as" and "list_all entry_fits bs"
  shows "concat (map layer_bytes as) @ r = concat (map layer_bytes bs) @ s \<longleftrightarrow> as = bs \<and> r = s"
  using assms by (induction as bs rule: list_induct2) (auto simp: layer_bytes_inj)

definition inputs_fit :: "template_inputs \<Rightarrow> bool" where
  "inputs_fit i \<longleftrightarrow>
     fits (host_kernel_version i) \<and> fits (firecracker_version i) \<and> fits (digest_str (guest_kernel_digest i)) \<and>
     fits (digest_str (post_init_state_digest i)) \<and> fits (digest_str (set_digest (hook_set i))) \<and>
     fits (pmem_image_digest_set i) \<and> list_all entry_fits (pmem_image_digest_set i)"

lemma fingerprint_bytes_inj:
  assumes "inputs_fit a" and "inputs_fit b"
  shows "fingerprint_bytes a = fingerprint_bytes b \<longleftrightarrow>
     host_kernel_version a = host_kernel_version b \<and> firecracker_version a = firecracker_version b \<and>
     guest_kernel_digest a = guest_kernel_digest b \<and>
     post_init_state_digest a = post_init_state_digest b \<and>
     set_digest (hook_set a) = set_digest (hook_set b) \<and>
     sort_key canonical_key (pmem_image_digest_set a) = sort_key canonical_key (pmem_image_digest_set b)"
proof -
  let ?as = "sort_key canonical_key (pmem_image_digest_set a)" and ?bs = "sort_key canonical_key (pmem_image_digest_set b)"
  have fit: "list_all entry_fits ?as" "list_all entry_fits ?bs" and f: "fits ?as" "fits ?bs"
    using assms by (auto simp: inputs_fit_def list_all_iff fits_def)
  have len: "u64_be_bytes (length ?as) = u64_be_bytes (length ?bs) \<longleftrightarrow> length ?as = length ?bs"
    using u64_be_bytes_inj [OF f] by auto
  note split = fingerprint_bytes_def Let_def hash_field_inj hash_field_inj_last inputs_fit_def
  show ?thesis
  proof (cases "length ?as = length ?bs")
    case True
    then show ?thesis
      using assms layers_bytes_inj [OF True fit] by (auto simp add: split)
  next
    case False
    then have "?as \<noteq> ?bs" by metis
    moreover have "fingerprint_bytes a \<noteq> fingerprint_bytes b"
      using assms False len by (simp add: split)
    ultimately show ?thesis by simp
  qed
qed

subsection \<open>Canonical paths\<close>

text \<open>A path that \<open>Path::components\<close> does not change: its comparison key determines its text.\<close>
definition canonical_path :: "string \<Rightarrow> bool" where
  "canonical_path s \<longleftrightarrow> (\<exists>ps. ps \<noteq> [] \<and> s = concat (map (\<lambda>p. CHR ''/'' # p) ps) \<and>
     (\<forall>p \<in> set ps. p \<noteq> [] \<and> p \<noteq> ''.'' \<and> p \<noteq> ''..'' \<and> CHR ''/'' \<notin> set p))"

lemma split_on_canonical:
  assumes "ps \<noteq> []" and "\<forall>p \<in> set ps. CHR ''/'' \<notin> set p"
  shows "split_on (CHR ''/'') (concat (map (\<lambda>p. CHR ''/'' # p) ps)) = [] # ps"
proof -
  have "split_on (CHR ''/'') (concat (map (\<lambda>p. CHR ''/'' # p) ps)) = [] # ps" if "ps \<noteq> []"
    using that assms(2)
  proof (induction ps)
    case (Cons p ps)
    show ?case
    proof (cases ps)
      case Nil
      with Cons.prems show ?thesis by (simp add: split_on_none)
    next
      case (Cons q qs)
      with Cons.IH Cons.prems show ?thesis by (simp add: split_on_append)
    qed
  qed simp
  with assms(1) show ?thesis by blast
qed

lemma path_key_canonical:
  assumes "ps \<noteq> []" and "\<forall>p \<in> set ps. p \<noteq> [] \<and> p \<noteq> ''.'' \<and> p \<noteq> ''..'' \<and> CHR ''/'' \<notin> set p"
  shows "path_key (concat (map (\<lambda>p. CHR ''/'' # p) ps)) = (0, []) # map (Pair 3) ps"
proof -
  have "is_absolute (concat (map (\<lambda>p. CHR ''/'' # p) ps))"
    using assms(1) by (cases ps) (simp_all add: is_absolute_def starts_with_def)
  moreover have "filter (\<lambda>p. p \<noteq> [] \<and> p \<noteq> ''.'') ps = ps" using assms(2) by (simp add: filter_id_conv)
  moreover have "map (component_key \<circ> (\<lambda>p. if p = ''..'' then ParentDir else Normal p)) ps = map (Pair 3) ps"
    using assms(2) by auto
  ultimately show ?thesis
    using split_on_canonical [of ps] assms by (simp add: path_key_def path_components_def)
qed

lemma path_key_inj:
  assumes "canonical_path a" and "canonical_path b" and "path_key a = path_key b"
  shows "a = b"
proof -
  obtain ps qs where "a = concat (map (\<lambda>p. CHR ''/'' # p) ps)" "b = concat (map (\<lambda>p. CHR ''/'' # p) qs)"
    and "path_key a = (0, []) # map (Pair 3) ps" "path_key b = (0, []) # map (Pair 3) qs"
    using assms(1,2) path_key_canonical unfolding canonical_path_def by metis
  moreover from this assms(3) have "map (Pair (3 :: nat)) ps = map (Pair 3) qs" by simp
  then have "ps = qs" by (rule map_injective) (simp add: inj_on_def)
  ultimately show ?thesis by simp
qed

lemma guest_mount_path_iff:
  "guest_mount_path_parse v = Ok p \<longleftrightarrow>
     p = GuestMountPath v \<and>
     (\<exists>name. v = ''/opt/m80-layers/'' @ name \<and> name \<noteq> [] \<and> length name \<le> 64 \<and> name \<noteq> ''.'' \<and> name \<noteq> ''..'' \<and>
        list_all layer_name_char name)"
    (is "?L \<longleftrightarrow> _ \<and> (\<exists>name. ?R name)")
proof -
  have no_slash: "CHR ''/'' \<notin> set name" if "list_all layer_name_char name" for name
    using that by (auto simp: list_all_iff layer_name_char_def is_ascii_alphanumeric_def is_ascii_digit_def)
  have raw: "split_on (CHR ''/'') (''/opt/m80-layers/'' @ name) = [[], ''opt'', ''m80-layers'', name]"
    if "CHR ''/'' \<notin> set name" for name
    using that by (simp add: split_on_none)
  have comps: "path_components (''/opt/m80-layers/'' @ name) = [RootDir, Normal ''opt'', Normal ''m80-layers'', Normal name]"
    if "CHR ''/'' \<notin> set name" "name \<noteq> []" "name \<noteq> ''.''" "name \<noteq> ''..''" for name
    using raw [OF that(1)] that(2-4) by (simp add: path_components_def is_absolute_def starts_with_def)
  have reserved: "path_components ''/'' = [RootDir]" "path_components ''/proc'' = [RootDir, Normal ''proc'']"
    "path_components ''/sys'' = [RootDir, Normal ''sys'']" "path_components ''/dev'' = [RootDir, Normal ''dev'']"
    "path_components ''/etc'' = [RootDir, Normal ''etc'']" "path_components ''/lower'' = [RootDir, Normal ''lower'']"
    "path_components ''/upper'' = [RootDir, Normal ''upper'']" "path_components ''/merged'' = [RootDir, Normal ''merged'']"
    "path_components ''/workspace'' = [RootDir, Normal ''workspace'']"
    "path_components ''/snapshot'' = [RootDir, Normal ''snapshot'']"
    by code_simp+
  have accepts: "?L" if "p = GuestMountPath v" and "?R name" for name
  proof -
    note n = no_slash [of name]
    have "\<not> shadows_reserved_mount v"
      using that(2) comps [of name] n by (simp add: shadows_reserved_mount_def path_eq_def path_starts_with_def reserved)
    then show ?thesis
      using that raw [of name] n
      by (simp add: guest_mount_path_parse_def Let_def is_absolute_def starts_with_def)
  qed
  have forth: "\<exists>name. ?R name" "p = GuestMountPath v" if "?L"
  proof -
    let ?r = "split_on (CHR ''/'') v"
    have r: "length ?r = 4" "?r ! 0 = []" "?r ! 1 = ''opt''" "?r ! 2 = ''m80-layers''"
      and name: "?r ! 3 \<noteq> []" "length (?r ! 3) \<le> 64" "?r ! 3 \<noteq> ''.''" "?r ! 3 \<noteq> ''..''" "list_all layer_name_char (?r ! 3)"
      and "p = GuestMountPath v"
      using that by (auto simp: guest_mount_path_parse_def Let_def split: if_splits)
    then show "p = GuestMountPath v" by simp
    obtain x y z u where "?r = [x, y, z, u]"
      using r(1) by (auto simp: length_Suc_conv numeral_eq_Suc)
    with r have "?r = [[], ''opt'', ''m80-layers'', ?r ! 3]" by simp
    then have "v = join ''/'' [[], ''opt'', ''m80-layers'', ?r ! 3]" using join_split_on [of "CHR ''/''" v] by simp
    with name show "\<exists>name. ?R name" by (intro exI [of _ "?r ! 3"]) simp
  qed
  show ?thesis using accepts forth by blast
qed

lemma mount_path_canonical:
  assumes "guest_mount_path_parse v = Ok p" shows "canonical_path v"
proof -
  obtain name where n: "v = ''/opt/m80-layers/'' @ name" "name \<noteq> []" "name \<noteq> ''.''" "name \<noteq> ''..''"
    "list_all layer_name_char name"
    using assms unfolding guest_mount_path_iff by blast
  then have "CHR ''/'' \<notin> set name"
    by (auto simp: list_all_iff layer_name_char_def is_ascii_alphanumeric_def is_ascii_digit_def)
  with n show ?thesis
    unfolding canonical_path_def by (intro exI [of _ "[''opt'', ''m80-layers'', name]"]) simp
qed

definition entry_canonical :: "pmem_template_entry \<Rightarrow> bool" where
  "entry_canonical e \<longleftrightarrow>
     guest_mount_path_parse (mount_str (mount_at e)) = Ok (mount_at e) \<and> canonical_path (jail_str (jail_path e))"

lemma canonical_key_inj: "inj_on canonical_key {e. entry_canonical e}"
proof (rule inj_onI)
  fix x y assume "x \<in> {e. entry_canonical e}" "y \<in> {e. entry_canonical e}" "canonical_key x = canonical_key y"
  then have c: "canonical_path (mount_str (mount_at x))" "canonical_path (mount_str (mount_at y))"
      "canonical_path (jail_str (jail_path x))" "canonical_path (jail_str (jail_path y))"
    and k: "path_key (mount_str (mount_at x)) = path_key (mount_str (mount_at y))"
      "path_key (jail_str (jail_path x)) = path_key (jail_str (jail_path y))"
      "pmem_image_digest x = pmem_image_digest y" "sharing x = sharing y"
    by (auto simp: entry_canonical_def canonical_key_def intro: mount_path_canonical)
  show "x = y"
    using path_key_inj [OF c(1,2) k(1)] path_key_inj [OF c(3,4) k(2)] k(3,4)
    by (simp add: pmem_template_entry.equality)
qed

lemma sort_key_inj_iff:
  assumes "inj_on key (set xs \<union> set ys)"
  shows "sort_key key xs = sort_key key ys \<longleftrightarrow> mset xs = mset ys"
proof
  assume "sort_key key xs = sort_key key ys"
  then show "mset xs = mset ys" by (metis mset_sort)
next
  assume eq: "mset xs = mset ys"
  then have sets: "set xs = set ys" by (rule mset_eq_setD)
  have same: "filter (\<lambda>x. key k = key x) zs = replicate (count (mset zs) k) k"
    if "k \<in> set xs" "set zs \<subseteq> set xs" for k zs
    using that assms by (induction zs) (auto simp: inj_on_def sets)
  show "sort_key key xs = sort_key key ys"
  proof (rule properties_for_sort_key)
    show "mset (sort_key key ys) = mset xs" by (simp add: eq)
    show "\<And>k. k \<in> set (sort_key key ys) \<Longrightarrow>
      filter (\<lambda>x. key k = key x) (sort_key key ys) = filter (\<lambda>x. key k = key x) xs"
      using sets eq by (simp add: same)
  qed simp
qed

subsection \<open>Properties\<close>


text \<open>a guest mount path is accepted exactly when it is one well-formed layer name below
  \<open>/opt/m80-layers\<close>; a jail backing path exactly when it is absolute and has no \<open>..\<close> component.\<close>
theorem template_paths_iff:
  "(guest_mount_path_parse v = Ok p \<longleftrightarrow>
      p = GuestMountPath v \<and>
      (\<exists>name. v = ''/opt/m80-layers/'' @ name \<and> name \<noteq> [] \<and> length name \<le> 64 \<and> name \<noteq> ''.'' \<and> name \<noteq> ''..'' \<and>
         list_all layer_name_char name)) \<and>
   (jail_backing_path_parse v = Ok q \<longleftrightarrow>
      q = JailBackingPath v \<and> is_absolute v \<and> ''..'' \<notin> set (split_on (CHR ''/'') v))"
proof -
  have "list_ex (\<lambda>c. c = CurDir \<or> c = ParentDir) (path_components v) \<longleftrightarrow> ''..'' \<in> set (split_on (CHR ''/'') v)"
    if "is_absolute v"
    using that by (auto simp: path_components_def list_ex_iff image_iff)
  then show ?thesis
    unfolding guest_mount_path_iff jail_backing_path_parse_def by auto
qed

lemma dot_component_accepted:
  "jail_backing_path_parse ''/snapshot/./mem.snap'' = Ok (JailBackingPath ''/snapshot/./mem.snap'')"
  by code_simp

text \<open>Layers that \<open>canonical_cmp\<close> cannot tell apart keep the caller's order.\<close>
lemma fingerprint_order_dependent:
  defines "e \<equiv> \<lambda>jail. \<lparr>mount_at = GuestMountPath ''/opt/m80-layers/x'', pmem_image_digest = ImageDigest ''a'',
      sharing = PerVm, jail_path = JailBackingPath jail\<rparr>"
  defines "i \<equiv> \<lambda>layers. \<lparr>host_kernel_version = ''k'', firecracker_version = ''v'', guest_kernel_digest = TemplateDigest ''g'',
      pmem_image_digest_set = layers, post_init_state_digest = TemplateDigest ''p'',
      hook_set = \<lparr>set_hooks = [], set_digest = TemplateDigest ''h''\<rparr>\<rparr>"
  shows "fingerprint_bytes (i [e ''/a/b'', e ''/a//b'']) \<noteq> fingerprint_bytes (i [e ''/a//b'', e ''/a/b''])"
proof -
  have key: "canonical_key (e ''/a/b'') = canonical_key (e ''/a//b'')"
    by (simp add: e_def canonical_key_def path_key_def path_components_def is_absolute_def starts_with_def)
  have fit: "inputs_fit (i [e ''/a/b'', e ''/a//b''])" "inputs_fit (i [e ''/a//b'', e ''/a/b''])"
    by (simp_all add: i_def e_def inputs_fit_def entry_fits_def fits_def)
  have ne: "e ''/a/b'' \<noteq> e ''/a//b''" by (simp add: e_def)
  show ?thesis
    unfolding fingerprint_bytes_inj [OF fit] using key ne by (simp add: i_def)
qed

definition hex_laws :: "digest_crates \<Rightarrow> bool" where
  "hex_laws cr \<longleftrightarrow>
     (\<forall>bs. length (dg_hex cr bs) = 2 * length bs \<and> list_all is_lower_hex (dg_hex cr bs) \<and>
        dg_unhex cr (dg_hex cr bs) = Some bs) \<and>
     (\<forall>s bs. list_all is_lower_hex s \<and> dg_unhex cr s = Some bs \<longrightarrow> dg_hex cr bs = s)"

text \<open>printing and parsing a fingerprint are inverse: the text of a 32-byte fingerprint parses to it,
  and a text that parses is the text of its fingerprint.\<close>
theorem fingerprint_hex_round_trip:
  assumes "hex_laws cr" and "length bs = 32"
  shows "fingerprint_parse_hex cr (fingerprint_to_hex cr (TemplateFingerprint bs)) = Ok (TemplateFingerprint bs) \<and>
     (fingerprint_parse_hex cr v = Ok f \<longrightarrow> fingerprint_to_hex cr f = v)"
  using assms
  by (auto simp: hex_laws_def fingerprint_parse_hex_def split: if_splits option.splits)

subsection \<open>Witnesses\<close>

definition hex_digit_value :: "char \<Rightarrow> nat" where
  "hex_digit_value c = (if is_ascii_digit c then of_char c - 48 else of_char c - 87)"

fun sample_unhex :: "string \<Rightarrow> u8 list option" where
  "sample_unhex [] = Some []"
| "sample_unhex [c] = None"
| "sample_unhex (c # d # cs) =
     map_option (\<lambda>bs. word_of_nat (16 * hex_digit_value c + hex_digit_value d) # bs) (sample_unhex cs)"

definition sample_digest_crates :: digest_crates where
  "sample_digest_crates =
     \<lparr>dg_sha256 = (\<lambda>bs. take 32 (bs @ replicate 32 0)), dg_hex = hex_encode, dg_unhex = sample_unhex\<rparr>"

lemma hex_digit_lower: "n < 16 \<Longrightarrow> is_lower_hex (hex_digit n) \<and> hex_digit_value (hex_digit n) = n"
  by (auto simp: hex_digit_def is_lower_hex_def hex_digit_value_def is_ascii_digit_def)

lemma hex_digit_value_lower: "is_lower_hex c \<Longrightarrow> hex_digit_value c < 16 \<and> hex_digit (hex_digit_value c) = c"
  by (auto simp: hex_digit_def is_lower_hex_def hex_digit_value_def is_ascii_digit_def)

lemma unhex_encode: "sample_unhex (hex_encode bs) = Some bs \<and> list_all is_lower_hex (hex_encode bs)"
proof (induction bs)
  case (Cons b bs)
  have "unat b < 256" using unsigned_less [where w = b] by simp
  then have "unat b div 16 < 16" "unat b mod 16 < 16" by simp_all
  with Cons show ?case
    by (simp add: hex_encode_def hex_byte_def hex_digit_lower)
qed (simp add: hex_encode_def)

lemma encode_unhex: "list_all is_lower_hex s \<Longrightarrow> sample_unhex s = Some bs \<Longrightarrow> hex_encode bs = s"
proof (induction s arbitrary: bs rule: sample_unhex.induct)
  case (3 c d cs)
  have v: "hex_digit_value c < 16" "hex_digit (hex_digit_value c) = c"
    "hex_digit_value d < 16" "hex_digit (hex_digit_value d) = d"
    using 3(2) hex_digit_value_lower by auto
  have "unat (word_of_nat (16 * hex_digit_value c + hex_digit_value d) :: u8) = 16 * hex_digit_value c + hex_digit_value d"
    by (rule unat_word_of_nat) (use v in simp)
  with v have "hex_byte (word_of_nat (16 * hex_digit_value c + hex_digit_value d)) = [c, d]"
    unfolding hex_byte_def by simp
  with 3 show ?case by (auto simp: hex_encode_def simp del: of_nat_add of_nat_mult)
qed (simp_all add: hex_encode_def)

lemma sample_digest_crates_laws: "hex_laws sample_digest_crates"
  using unhex_encode encode_unhex by (simp add: hex_laws_def sample_digest_crates_def)

theorem fingerprint_hex_round_trip_witness:
  "fingerprint_parse_hex sample_digest_crates (fingerprint_to_hex sample_digest_crates
     (TemplateFingerprint (replicate 32 7))) = Ok (TemplateFingerprint (replicate 32 7))"
  using fingerprint_hex_round_trip [OF sample_digest_crates_laws, of "replicate 32 7"] by simp

definition sample_layer :: "string \<Rightarrow> pmem_template_entry" where
  "sample_layer name = \<lparr>mount_at = GuestMountPath (''/opt/m80-layers/'' @ name), pmem_image_digest = ImageDigest ''a'',
     sharing = PerVm, jail_path = JailBackingPath (''/pmem/'' @ name)\<rparr>"

definition sample_inputs :: "string list \<Rightarrow> template_inputs" where
  "sample_inputs names = \<lparr>host_kernel_version = ''6.8'', firecracker_version = ''v1.15.1'',
     guest_kernel_digest = TemplateDigest ''g'', pmem_image_digest_set = map sample_layer names,
     post_init_state_digest = TemplateDigest ''p'', hook_set = hook_spec_set_new sample_digest_crates []\<rparr>"

lemma sample_inputs_ok:
  "inputs_fit (sample_inputs [''x'', ''y''])" "inputs_fit (sample_inputs [''y'', ''x''])"
  "entry_canonical (sample_layer ''x'')" "entry_canonical (sample_layer ''y'')"
proof -
  have "canonical_path ''/pmem/x''" "canonical_path ''/pmem/y''"
    unfolding canonical_path_def by (rule exI [of _ "[''pmem'', ''x'']"], simp) (rule exI [of _ "[''pmem'', ''y'']"], simp)
  moreover have "guest_mount_path_parse ''/opt/m80-layers/x'' = Ok (GuestMountPath ''/opt/m80-layers/x'')"
    "guest_mount_path_parse ''/opt/m80-layers/y'' = Ok (GuestMountPath ''/opt/m80-layers/y'')" by code_simp+
  ultimately show "entry_canonical (sample_layer ''x'')" "entry_canonical (sample_layer ''y'')"
    by (simp_all add: entry_canonical_def sample_layer_def)
  have "fits (digest_str (set_digest (hook_spec_set_new sample_digest_crates [])))"
    by (simp add: fits_def hook_spec_set_new_def digest_hooks_def sample_digest_crates_def)
  then show "inputs_fit (sample_inputs [''x'', ''y''])" "inputs_fit (sample_inputs [''y'', ''x''])"
    by (simp_all add: inputs_fit_def sample_inputs_def sample_layer_def entry_fits_def)
      (simp_all add: fits_def)
qed


end
