(* ===== verification/Template_Store.thy ===== *)
theory Template_Store
  imports Template_Identity
begin

text \<open>
  The content-addressed store of snapshot templates (\<open>m80-snapshot-template/src/store.rs\<close>, \<open>index.rs\<close>,
  \<open>layout.rs\<close>, \<open>manifest.rs\<close>): pins, look-up, reservation and commit of a template, and the three ways of
  eviction, on the file system of \<open>Host_Fs\<close> with all its faults. Every operation is one atomic step, as
  for a store used by one thread at a time.
\<close>

subsection \<open>Files\<close>

definition TEMPLATE_SCHEMA_VERSION :: u32 where
  "TEMPLATE_SCHEMA_VERSION = 1"

record template_restore_layout =
  jail_mem_path :: jail_backing_path
  jail_vm_state_path :: jail_backing_path
  pmem_backings :: "pmem_template_entry list"

record template_manifest =
  tm_fingerprint :: template_fingerprint
  tm_inputs :: template_inputs
  tm_restore_layout :: template_restore_layout
  tm_schema_version :: u32
  tm_snapshot_manifest :: snapshot_manifest

record index_entry =
  ie_fingerprint :: template_fingerprint
  last_used_unix_ms :: u64
  size_bytes :: u64

record template_index =
  entries :: "index_entry list"
  ix_schema_version :: u32

record template_body_paths =
  bp_vm_state :: fpath
  bp_mem :: fpath
  bp_manifest :: fpath

text \<open>The crates behind the store: digests, and \<open>serde_json\<close> on the three kinds of file.\<close>
record store_crates =
  digests :: digest_crates
  snapshots :: snapshot_crates
  index_json :: "template_index \<Rightarrow> u8 list"
  index_of_json :: "u8 list \<Rightarrow> template_index option"
  index_schema_of_json :: "u8 list \<Rightarrow> u32 option"
  template_json :: "template_manifest \<Rightarrow> u8 list"
  template_of_json :: "u8 list \<Rightarrow> template_manifest option"
  template_schema_of_json :: "u8 list \<Rightarrow> u32 option"

text \<open>What one \<open>TemplateStore\<close> value fixes.\<close>
record store_env =
  crates :: store_crates
  store_root :: fpath
  capacity :: nat
  process_id :: nat

text \<open>What changes: the file system, and the store's pin counts and sequence number.\<close>
record store_world = fs +
  counts :: "template_fingerprint \<Rightarrow> nat option"
  sequence :: u64

subsection \<open>Layout (layout.rs)\<close>

definition index_path :: "store_env \<Rightarrow> fpath" where
  "index_path env = store_root env @ [''index.json'']"

definition by_fingerprint_dir :: "store_env \<Rightarrow> fpath" where
  "by_fingerprint_dir env = store_root env @ [''by-fingerprint'']"

definition staging_root :: "store_env \<Rightarrow> fpath" where
  "staging_root env = store_root env @ [''staging'']"

definition template_dir :: "store_env \<Rightarrow> template_fingerprint \<Rightarrow> fpath" where
  "template_dir env f = by_fingerprint_dir env @ [fingerprint_to_hex (digests (crates env)) f]"

definition staging_dir :: "store_env \<Rightarrow> template_fingerprint \<Rightarrow> u64 \<Rightarrow> fpath" where
  "staging_dir env f n =
     staging_root env @ [fingerprint_to_hex (digests (crates env)) f @ ''-'' @ nat_to_string (process_id env) @ ''-'' @
       nat_to_string (unat n)]"

definition body_paths :: "fpath \<Rightarrow> template_body_paths" where
  "body_paths dir = \<lparr>bp_vm_state = dir @ [''vm.snap''], bp_mem = dir @ [''mem.snap''], bp_manifest = dir @ [''manifest.json'']\<rparr>"

definition snapshot_paths_of :: "template_body_paths \<Rightarrow> snapshot_paths" where
  "snapshot_paths_of p = \<lparr>sp_vm_state = bp_vm_state p, sp_mem = bp_mem p\<rparr>"

definition wrap_io :: "fpath \<Rightarrow> ('w, 'a, io_error) eff \<Rightarrow> ('w, 'a, template_store_error) eff" where
  "wrap_io p = map_err (TemplateIo p)"

type_synonym 'a store_op = "(store_world, 'a, template_store_error) eff"

definition create_dir_if_absent :: "fpath \<Rightarrow> unit store_op" where
  "create_dir_if_absent p =
     bind_eff (path_exists p) (\<lambda>there. if there then ret () else wrap_io p (fs_create_dir p))"

definition ensure_root_parent_exists :: "fpath \<Rightarrow> unit store_op" where
  "ensure_root_parent_exists root =
     (case path_parent root of
        None \<Rightarrow> fail (InvalidStoreRoot root ''root must have a parent directory'')
      | Some parent \<Rightarrow> bind_eff (path_is_dir parent) (\<lambda>d.
          if d then ret () else fail (InvalidStoreRoot root ''root parent directory does not exist'')))"

definition ensure_new_store_dirs :: "store_env \<Rightarrow> unit store_op" where
  "ensure_new_store_dirs env =
     bind_eff (ensure_root_parent_exists (store_root env)) (\<lambda>_.
     bind_eff (create_dir_if_absent (store_root env)) (\<lambda>_.
     bind_eff (path_is_dir (store_root env)) (\<lambda>d.
       if \<not> d then fail (InvalidStoreRoot (store_root env) ''root must be a directory'')
       else bind_eff (create_dir_if_absent (by_fingerprint_dir env)) (\<lambda>_.
         create_dir_if_absent (staging_root env)))))"

definition ensure_existing_store_dirs :: "store_env \<Rightarrow> unit store_op" where
  "ensure_existing_store_dirs env =
     bind_eff (for_each (\<lambda>p. bind_eff (path_is_dir p) (\<lambda>d.
         if d then ret () else fail (InvalidStoreRoot p ''required store directory is missing'')))
       [store_root env, by_fingerprint_dir env, staging_root env]) (\<lambda>_.
     bind_eff (path_is_file (index_path env)) (\<lambda>f.
       if f then ret () else fail (InvalidStoreRoot (index_path env) ''index.json is missing'')))"

subsection \<open>The index (index.rs)\<close>

definition index_empty :: template_index where
  "index_empty = \<lparr>entries = [], ix_schema_version = TEMPLATE_SCHEMA_VERSION\<rparr>"

definition parse_with_schema_probe ::
    "(u8 list \<Rightarrow> u32 option) \<Rightarrow> (u8 list \<Rightarrow> 'a option) \<Rightarrow> fpath \<Rightarrow> u8 list \<Rightarrow> ('a, template_store_error) result" where
  "parse_with_schema_probe probe parse path raw =
     and_then (ok_or (probe raw) (TemplateJson path)) (\<lambda>version.
       if version \<noteq> TEMPLATE_SCHEMA_VERSION then Err (UnsupportedTemplateSchema version TEMPLATE_SCHEMA_VERSION)
       else ok_or (parse raw) (TemplateJson path))"

definition write_pretty_json :: "u8 list \<Rightarrow> fpath \<Rightarrow> unit store_op" where
  "write_pretty_json json path =
     bind_eff (wrap_io path (fs_write path (json @ [10]))) (\<lambda>_. wrap_io path (fs_set_permissions path))"

definition read_index :: "store_env \<Rightarrow> template_index store_op" where
  "read_index env =
     bind_eff (wrap_io (index_path env) (fs_read (index_path env))) (\<lambda>raw.
       lift_result (parse_with_schema_probe (index_schema_of_json (crates env)) (index_of_json (crates env))
         (index_path env) raw))"

definition write_index :: "store_env \<Rightarrow> template_index \<Rightarrow> unit store_op" where
  "write_index env ix = write_pretty_json (index_json (crates env) ix) (index_path env)"

fun upsert_entry :: "index_entry \<Rightarrow> index_entry list \<Rightarrow> index_entry list" where
  "upsert_entry e [] = [e]"
| "upsert_entry e (x # xs) = (if ie_fingerprint x = ie_fingerprint e then e # xs else x # upsert_entry e xs)"

definition index_upsert :: "index_entry \<Rightarrow> template_index \<Rightarrow> template_index" where
  "index_upsert e ix = ix\<lparr>entries := upsert_entry e (entries ix)\<rparr>"

definition index_remove :: "template_fingerprint \<Rightarrow> template_index \<Rightarrow> template_index" where
  "index_remove f ix = ix\<lparr>entries := filter (\<lambda>e. ie_fingerprint e \<noteq> f) (entries ix)\<rparr>"

subsection \<open>Pins (store.rs)\<close>

definition pins_acquire :: "template_fingerprint \<Rightarrow> store_world \<Rightarrow> store_world" where
  "pins_acquire f w =
     w\<lparr>counts := (counts w)(f \<mapsto> (case counts w f of None \<Rightarrow> 0 | Some n \<Rightarrow> n) + 1)\<rparr>"

definition pins_release :: "template_fingerprint \<Rightarrow> store_world \<Rightarrow> store_world" where
  "pins_release f w =
     (case counts w f of
        None \<Rightarrow> w
      | Some n \<Rightarrow> w\<lparr>counts := (counts w)(f := (if n - 1 = 0 then None else Some (n - 1)))\<rparr>)"

definition is_pinned :: "template_fingerprint \<Rightarrow> store_world \<Rightarrow> bool" where
  "is_pinned f w = (case counts w f of None \<Rightarrow> False | Some n \<Rightarrow> 0 < n)"

text \<open>A guard that releases its pin when the rest of the function fails.\<close>
definition with_pin :: "template_fingerprint \<Rightarrow> 'a store_op \<Rightarrow> 'a store_op" where
  "with_pin f body w =
     (case body (pins_acquire f w) of
        (Ok a, w') \<Rightarrow> (Ok a, w')
      | (Err e, w') \<Rightarrow> (Err e, pins_release f w'))"

subsection \<open>Helpers (store.rs)\<close>

definition ensure_capacity :: "nat \<Rightarrow> (unit, template_store_error) result" where
  "ensure_capacity n = (if n = 0 then Err CapacityZero else Ok ())"

definition ensure_body_file :: "fpath \<Rightarrow> unit store_op" where
  "ensure_body_file p = bind_eff (path_is_file p) (\<lambda>f. if f then ret () else fail (MissingBody p))"

definition template_manifest_read :: "store_env \<Rightarrow> fpath \<Rightarrow> template_manifest store_op" where
  "template_manifest_read env path =
     bind_eff (wrap_io path (fs_read path)) (\<lambda>raw.
       lift_result (parse_with_schema_probe (template_schema_of_json (crates env)) (template_of_json (crates env))
         path raw))"

definition validate_manifest_identity ::
    "store_env \<Rightarrow> template_manifest \<Rightarrow> template_fingerprint \<Rightarrow> template_inputs \<Rightarrow> (unit, template_store_error) result" where
  "validate_manifest_identity env m path_fingerprint live_inputs =
     (let compute = fingerprint_compute (digests (crates env))
      in if tm_fingerprint m \<noteq> path_fingerprint then Err (FingerprintMismatch path_fingerprint (tm_fingerprint m))
         else if tm_fingerprint m \<noteq> compute (tm_inputs m)
           then Err (FingerprintMismatch (tm_fingerprint m) (compute (tm_inputs m)))
         else if tm_fingerprint m \<noteq> compute live_inputs
           then Err (FingerprintMismatch (tm_fingerprint m) (compute live_inputs))
         else if sm_schema_version (tm_snapshot_manifest m) \<noteq> SNAPSHOT_SCHEMA_VERSION
           then Err (TemplateInvalidValue ''template.snapshot_manifest.schema_version''
                  ''must match active m80-snapshot schema'')
         else if sm_expected_firecracker_version (tm_snapshot_manifest m) \<noteq> firecracker_version (tm_inputs m)
           then Err (TemplateInvalidValue ''template.snapshot_manifest.expected_firecracker_version''
                  ''must match template inputs Firecracker version'')
         else Ok ())"

definition store_unix_time_ms :: "u64 store_op" where
  "store_unix_time_ms =
     bind_eff fs_now (\<lambda>t. if t < 0 then fail (TemplateInvalidValue ''template.clock'' ''system clock error'')
       else ret (word_of_int t))"

definition store_artifact_for_path :: "store_env \<Rightarrow> artifact_kind \<Rightarrow> fpath \<Rightarrow> fpath \<Rightarrow> artifact store_op" where
  "store_artifact_for_path env kind read_path recorded =
     bind_eff (wrap_io read_path (fs_read read_path)) (\<lambda>bytes.
       ret (artifact_of_bytes (snapshots (crates env)) kind recorded bytes))"

definition build_snapshot_manifest ::
    "store_env \<Rightarrow> snapshot_paths \<Rightarrow> snapshot_paths \<Rightarrow> string \<Rightarrow> snapshot_manifest store_op" where
  "build_snapshot_manifest env from recorded version =
     bind_eff (store_artifact_for_path env Memory (sp_mem from) (sp_mem recorded)) (\<lambda>mem.
     bind_eff (store_artifact_for_path env VmStateFile (sp_vm_state from) (sp_vm_state recorded)) (\<lambda>vm.
     bind_eff store_unix_time_ms (\<lambda>now.
       ret \<lparr>artifact_set_sha256_hex =
              sn_hex (snapshots (crates env)) (artifact_set_sha256 (snapshots (crates env)) [mem, vm]),
            artifacts = [mem, vm], created_at_unix_ms = now, sm_expected_firecracker_version = version,
            sm_schema_version = SNAPSHOT_SCHEMA_VERSION\<rparr>)))"

text \<open>The parent of \<open>vm.snap\<close> is the template directory. The sum is of \<open>u64\<close>s.\<close>
definition template_size_bytes :: "fpath \<Rightarrow> u64 store_op" where
  "template_size_bytes dir =
     (let size = (\<lambda>p. wrap_io p (fs_len p)); b = body_paths dir
      in bind_eff (size (bp_vm_state b)) (\<lambda>n1. bind_eff (size (bp_mem b)) (\<lambda>n2.
         bind_eff (size (bp_manifest b)) (\<lambda>n3. bind_eff (size (dir @ [SNAPSHOT_MANIFEST_FILE])) (\<lambda>n4.
           ret (n1 + n2 + n3 + n4))))))"

definition update_index :: "store_env \<Rightarrow> index_entry \<Rightarrow> unit store_op" where
  "update_index env e = bind_eff (read_index env) (\<lambda>ix. write_index env (index_upsert e ix))"

text \<open>A directory that is already gone counts as removed.\<close>
definition remove_template_dir :: "store_env \<Rightarrow> template_fingerprint \<Rightarrow> unit store_op" where
  "remove_template_dir env f w =
     (case fs_remove_dir_all (template_dir env f) w of
        (Ok _, w') \<Rightarrow> (Ok (), w')
      | (Err e, w') \<Rightarrow> if e = NotFound then (Ok (), w') else (Err (TemplateIo (template_dir env f) e), w'))"

definition next_sequence :: "u64 store_op" where
  "next_sequence w = (Ok (sequence w), w\<lparr>sequence := sequence w + 1\<rparr>)"

subsection \<open>Operations (store.rs)\<close>

text \<open>\<open>create\<close> and \<open>open\<close>; the pins of a new value are empty.\<close>
definition fresh_store :: "unit store_op" where
  "fresh_store w = (Ok (), w\<lparr>counts := (\<lambda>_. None), sequence := 0\<rparr>)"

definition store_create :: "store_env \<Rightarrow> unit store_op" where
  "store_create env =
     bind_eff (lift_result (ensure_capacity (capacity env))) (\<lambda>_.
     bind_eff (ensure_new_store_dirs env) (\<lambda>_.
     bind_eff (path_exists (index_path env)) (\<lambda>there.
     bind_eff (if there then bind_eff (read_index env) (\<lambda>_. ret ()) else write_index env index_empty) (\<lambda>_.
       fresh_store))))"

definition store_open :: "store_env \<Rightarrow> unit store_op" where
  "store_open env =
     bind_eff (lift_result (ensure_capacity (capacity env))) (\<lambda>_.
     bind_eff (ensure_existing_store_dirs env) (\<lambda>_.
     bind_eff (read_index env) (\<lambda>_. fresh_store)))"

definition store_list :: "store_env \<Rightarrow> index_entry list store_op" where
  "store_list env = bind_eff (read_index env) (\<lambda>ix. ret (entries ix))"

fun referencing :: "store_env \<Rightarrow> image_digest \<Rightarrow> index_entry list \<Rightarrow> template_fingerprint list store_op" where
  "referencing env d [] = ret []"
| "referencing env d (e # es) =
     bind_eff (template_manifest_read env (bp_manifest (body_paths (template_dir env (ie_fingerprint e))))) (\<lambda>m.
     bind_eff (referencing env d es) (\<lambda>fs.
       ret (if list_ex (\<lambda>p. pmem_image_digest p = d) (pmem_image_digest_set (tm_inputs m))
            then ie_fingerprint e # fs else fs)))"

definition templates_referencing_image :: "store_env \<Rightarrow> image_digest \<Rightarrow> template_fingerprint list store_op" where
  "templates_referencing_image env d =
     bind_eff (read_index env) (\<lambda>ix. bind_eff (referencing env d (entries ix)) (\<lambda>fs.
       ret (sort_key (fingerprint_to_hex (digests (crates env))) fs)))"

definition store_manifest :: "store_env \<Rightarrow> template_fingerprint \<Rightarrow> template_manifest store_op" where
  "store_manifest env f =
     bind_eff (path_is_dir (template_dir env f)) (\<lambda>d.
       if \<not> d then fail (TemplateMissing f)
       else template_manifest_read env (bp_manifest (body_paths (template_dir env f))))"

definition store_remove :: "store_env \<Rightarrow> template_fingerprint \<Rightarrow> unit store_op" where
  "store_remove env f w =
     (if is_pinned f w then (Err (TemplatePinned f), w)
      else bind_eff (path_is_dir (template_dir env f)) (\<lambda>d.
        if \<not> d then fail (TemplateMissing f)
        else bind_eff (remove_template_dir env f) (\<lambda>_.
          bind_eff (read_index env) (\<lambda>ix. write_index env (index_remove f ix)))) w)"

record pinned_template =
  reference :: template_fingerprint
  pt_body_paths :: template_body_paths
  pt_manifest :: template_manifest

definition store_pin :: "store_env \<Rightarrow> template_fingerprint \<Rightarrow> template_inputs \<Rightarrow> pinned_template store_op" where
  "store_pin env f live_inputs =
     (let dir = template_dir env f; b = body_paths dir
      in bind_eff (path_is_dir dir) (\<lambda>d.
        if \<not> d then fail (TemplateMissing f)
        else bind_eff (template_manifest_read env (bp_manifest b)) (\<lambda>m.
          bind_eff (lift_result (validate_manifest_identity env m f live_inputs)) (\<lambda>_.
          bind_eff (ensure_body_file (bp_vm_state b)) (\<lambda>_.
          bind_eff (ensure_body_file (bp_mem b)) (\<lambda>_.
            with_pin f
              (bind_eff store_unix_time_ms (\<lambda>now.
               bind_eff (template_size_bytes dir) (\<lambda>size.
               bind_eff (update_index env \<lparr>ie_fingerprint = f, last_used_unix_ms = now, size_bytes = size\<rparr>) (\<lambda>_.
                 ret \<lparr>reference = f, pt_body_paths = b, pt_manifest = m\<rparr>)))))))))) "

definition store_lookup :: "store_env \<Rightarrow> template_inputs \<Rightarrow> pinned_template option store_op" where
  "store_lookup env live_inputs =
     (let f = fingerprint_compute (digests (crates env)) live_inputs
      in bind_eff (path_exists (template_dir env f)) (\<lambda>there.
        if \<not> there then ret None
        else bind_eff (store_pin env f live_inputs) (\<lambda>p. ret (Some p))))"

record template_build_plan =
  plan_fingerprint :: template_fingerprint
  plan_staging_dir :: fpath
  plan_inputs :: template_inputs
  plan_restore_layout :: template_restore_layout

definition store_reserve :: "store_env \<Rightarrow> template_inputs \<Rightarrow> template_restore_layout \<Rightarrow> template_build_plan store_op" where
  "store_reserve env inputs layout =
     (let f = fingerprint_compute (digests (crates env)) inputs
      in bind_eff (path_exists (template_dir env f)) (\<lambda>there.
        if there then fail (TemplateExists f)
        else bind_eff next_sequence (\<lambda>n.
          (let dir = staging_dir env f n
           in bind_eff (wrap_io dir (fs_create_dir dir)) (\<lambda>_.
             ret \<lparr>plan_fingerprint = f, plan_staging_dir = dir, plan_inputs = inputs, plan_restore_layout = layout\<rparr>)))))"

text \<open>\<open>with_extension\<close> on a name that ends in \<open>.json\<close>\<close>
definition tmp_name :: "string \<Rightarrow> u64 \<Rightarrow> string" where
  "tmp_name name n = name @ ''.tmp.'' @ nat_to_string (unat n)"

text \<open>Write a file under a temporary name beside its target and rename it.\<close>
definition write_then_rename :: "u8 list \<Rightarrow> fpath \<Rightarrow> string \<Rightarrow> unit store_op" where
  "write_then_rename json dir name =
     bind_eff next_sequence (\<lambda>n.
       (let tmp = dir @ [tmp_name name n]; target = dir @ [name]
        in bind_eff (write_pretty_json json tmp) (\<lambda>_. wrap_io target (fs_rename tmp target))))"

text \<open>\<open>min_by_key\<close>: the first of the least.\<close>
fun min_by_key :: "('a \<Rightarrow> 'k::linorder) \<Rightarrow> 'a list \<Rightarrow> 'a option" where
  "min_by_key key [] = None"
| "min_by_key key (x # xs) =
     (case min_by_key key xs of None \<Rightarrow> Some x | Some y \<Rightarrow> if key x \<le> key y then Some x else Some y)"

definition lru_candidate :: "store_world \<Rightarrow> index_entry list \<Rightarrow> nat option" where
  "lru_candidate w es =
     min_by_key (\<lambda>i. unat (last_used_unix_ms (es ! i)))
       (filter (\<lambda>i. \<not> is_pinned (ie_fingerprint (es ! i)) w) [0..<length es])"

lemma min_by_key_mem: "min_by_key key xs = Some x \<Longrightarrow> x \<in> set xs"
  by (induction xs arbitrary: x) (auto split: option.splits if_splits)

lemma lru_candidate_less: "lru_candidate w es = Some i \<Longrightarrow> i < length es"
  by (auto simp: lru_candidate_def dest: min_by_key_mem)

function evict_lru_loop :: "store_env \<Rightarrow> nat \<Rightarrow> index_entry list \<Rightarrow> (nat \<times> index_entry list) store_op" where
  "evict_lru_loop env removed es w =
     (if length es > capacity env then
        (case lru_candidate w es of
           None \<Rightarrow> (Err AllCandidatesPinned, w)
         | Some i \<Rightarrow>
             (case remove_template_dir env (ie_fingerprint (es ! i)) w of
                (Err e, w') \<Rightarrow> (Err e, w')
              | (Ok _, w') \<Rightarrow> evict_lru_loop env (removed + 1) (take i es @ drop (Suc i) es) w'))
      else (Ok (removed, es), w))"
  by pat_completeness auto
termination
  by (relation "measure (\<lambda>(env, removed, es, w). length es)") (auto dest: lru_candidate_less)

declare evict_lru_loop.simps [simp del]

definition evict_lru_to_capacity :: "store_env \<Rightarrow> nat store_op" where
  "evict_lru_to_capacity env =
     bind_eff (read_index env) (\<lambda>ix.
     bind_eff (evict_lru_loop env 0 (entries ix)) (\<lambda>(removed, es).
     bind_eff (write_index env (ix\<lparr>entries := es\<rparr>)) (\<lambda>_. ret removed)))"

definition store_commit :: "store_env \<Rightarrow> template_build_plan \<Rightarrow> pinned_template store_op" where
  "store_commit env plan =
     (let visible = template_dir env (plan_fingerprint plan); staged = body_paths (plan_staging_dir plan)
      in bind_eff (path_exists visible) (\<lambda>there.
        if there then fail (TemplateExists (plan_fingerprint plan))
        else bind_eff (ensure_body_file (bp_vm_state staged)) (\<lambda>_.
          bind_eff (ensure_body_file (bp_mem staged)) (\<lambda>_.
          bind_eff (build_snapshot_manifest env (snapshot_paths_of staged) (snapshot_paths_of (body_paths visible))
              (firecracker_version (plan_inputs plan))) (\<lambda>sm.
          (let m = \<lparr>tm_fingerprint = plan_fingerprint plan, tm_inputs = plan_inputs plan,
                    tm_restore_layout = plan_restore_layout plan, tm_schema_version = TEMPLATE_SCHEMA_VERSION,
                    tm_snapshot_manifest = sm\<rparr>
           in bind_eff (lift_result (validate_manifest_identity env m (plan_fingerprint plan) (plan_inputs plan))) (\<lambda>_.
              bind_eff (write_then_rename (template_json (crates env) m) (plan_staging_dir plan) ''manifest.json'') (\<lambda>_.
              bind_eff (write_then_rename (manifest_json (snapshots (crates env)) sm) (plan_staging_dir plan)
                  SNAPSHOT_MANIFEST_FILE) (\<lambda>_.
              bind_eff (wrap_io visible (fs_rename (plan_staging_dir plan) visible)) (\<lambda>_.
              bind_eff (template_size_bytes visible) (\<lambda>size.
              bind_eff store_unix_time_ms (\<lambda>now.
              bind_eff (update_index env
                  \<lparr>ie_fingerprint = plan_fingerprint plan, last_used_unix_ms = now, size_bytes = size\<rparr>) (\<lambda>_.
              bind_eff (store_pin env (plan_fingerprint plan) (plan_inputs plan)) (\<lambda>pinned w.
                (case evict_lru_to_capacity env w of
                   (Ok _, w') \<Rightarrow> (Ok pinned, w')
                 | (Err e, w') \<Rightarrow> (Err e, pins_release (plan_fingerprint plan) w'))))))))))))))))"

text \<open>The loops of \<open>evict_invalidated\<close> and \<open>evict_invalidated_in_scope\<close> over a copy of the entries.\<close>
fun evict_loop :: "store_env \<Rightarrow> template_fingerprint \<Rightarrow> (template_fingerprint \<Rightarrow> bool store_op)
    \<Rightarrow> index_entry list \<Rightarrow> nat \<times> template_index \<Rightarrow> (nat \<times> template_index) store_op" where
  "evict_loop env live in_scope [] acc w = (Ok acc, w)"
| "evict_loop env live in_scope (e # es) acc w =
     (if ie_fingerprint e = live then evict_loop env live in_scope es acc w
      else if is_pinned (ie_fingerprint e) w then evict_loop env live in_scope es acc w
      else
        (case in_scope (ie_fingerprint e) w of
           (Err x, w1) \<Rightarrow> (Err x, w1)
         | (Ok False, w1) \<Rightarrow> evict_loop env live in_scope es acc w1
         | (Ok True, w1) \<Rightarrow>
             (case remove_template_dir env (ie_fingerprint e) w1 of
                (Err x, w2) \<Rightarrow> (Err x, w2)
              | (Ok _, w2) \<Rightarrow>
                  evict_loop env live in_scope es (fst acc + 1, index_remove (ie_fingerprint e) (snd acc)) w2)))"

definition path_str_eq :: "jail_backing_path \<Rightarrow> jail_backing_path \<Rightarrow> bool" where
  "path_str_eq a b = path_eq (jail_str a) (jail_str b)"

definition pmem_entry_eq :: "pmem_template_entry \<Rightarrow> pmem_template_entry \<Rightarrow> bool" where
  "pmem_entry_eq a b \<longleftrightarrow>
     path_eq (mount_str (mount_at a)) (mount_str (mount_at b)) \<and> pmem_image_digest a = pmem_image_digest b \<and>
     sharing a = sharing b \<and> path_str_eq (jail_path a) (jail_path b)"

definition same_prune_scope :: "template_inputs \<Rightarrow> template_inputs \<Rightarrow> bool" where
  "same_prune_scope candidate live \<longleftrightarrow>
     list_all2 pmem_entry_eq (pmem_image_digest_set candidate) (pmem_image_digest_set live) \<and>
     post_init_state_digest candidate = post_init_state_digest live \<and> hook_set candidate = hook_set live"

definition evict_with :: "store_env \<Rightarrow> template_inputs \<Rightarrow> (template_fingerprint \<Rightarrow> bool store_op) \<Rightarrow> nat store_op" where
  "evict_with env live_inputs in_scope =
     bind_eff (read_index env) (\<lambda>ix.
     bind_eff (evict_loop env (fingerprint_compute (digests (crates env)) live_inputs) in_scope (entries ix) (0, ix))
       (\<lambda>(removed, ix'). bind_eff (write_index env ix') (\<lambda>_. ret removed)))"

definition evict_invalidated :: "store_env \<Rightarrow> template_inputs \<Rightarrow> nat store_op" where
  "evict_invalidated env live_inputs = evict_with env live_inputs (\<lambda>_. ret True)"

definition evict_invalidated_in_scope :: "store_env \<Rightarrow> template_inputs \<Rightarrow> nat store_op" where
  "evict_invalidated_in_scope env live_inputs =
     evict_with env live_inputs (\<lambda>f.
       bind_eff (template_manifest_read env (bp_manifest (body_paths (template_dir env f)))) (\<lambda>m.
         ret (same_prune_scope (tm_inputs m) live_inputs)))"

text \<open>The drop of a \<open>PinnedTemplate\<close>.\<close>
definition pin_drop :: "template_fingerprint \<Rightarrow> unit store_op" where
  "pin_drop f w = (Ok (), pins_release f w)"

end
