(* ===== verification/Template_Store_Properties.thy ===== *)
theory Template_Store_Properties
  imports Template_Store "HOL-Library.Multiset" "HOL-Library.Sublist"
begin

text \<open>
  What the template store promises. A store in use is a transition system: any thread of calls, with any
  I/O faults, any clock, and builders writing below \<open>staging\<close> in between. Two invariants hold in every
  reachable state: the pin counts are the outstanding \<open>PinnedTemplate\<close> values, and the directory of a
  pinned template is there; from them follows that no call touches a pinned template. Eviction, look-up
  after commit and the index are treated at the end.
\<close>

subsection \<open>Paths of the store\<close>

lemma template_dir_inj:
  assumes "hex_laws (digests (crates env))"
  shows "template_dir env f = template_dir env g \<longleftrightarrow> f = g"
proof -
  have "dg_hex (digests (crates env)) a = dg_hex (digests (crates env)) b \<longleftrightarrow> a = b" for a b
    using assms unfolding hex_laws_def by (metis option.inject)
  then show ?thesis by (cases f; cases g) (simp add: template_dir_def)
qed

lemma under_template_dir:
  assumes "hex_laws (digests (crates env))" and "under (template_dir env f) q" and "f \<noteq> g"
  shows "\<not> under (template_dir env g) q"
  using assms template_dir_inj [OF assms(1), of f g]
  by (auto simp: under_iff template_dir_def)

definition in_staging :: "store_env \<Rightarrow> fpath \<Rightarrow> bool" where
  "in_staging env p \<longleftrightarrow> under (staging_root env) p \<and> p \<noteq> staging_root env"

lemma template_dir_elsewhere:
  "under (template_dir env f) q \<Longrightarrow> q \<noteq> index_path env"
  "under (template_dir env f) q \<Longrightarrow> \<not> under (staging_root env) q"
  by (auto simp: under_iff template_dir_def by_fingerprint_dir_def index_path_def staging_root_def)

lemma in_staging_dir: "in_staging env (staging_dir env f n)"
  by (simp add: in_staging_def staging_dir_def under_iff)

lemma in_staging_under: "in_staging env p \<Longrightarrow> under p q \<Longrightarrow> under (staging_root env) q"
  unfolding in_staging_def using under_trans by blast

lemma template_dir_nonempty [simp]: "template_dir env f \<noteq> []" "staging_dir env f n \<noteq> []" "index_path env \<noteq> []"
  by (simp_all add: template_dir_def staging_dir_def index_path_def)

subsection \<open>Frames\<close>

lemma more_counts: "fs.more w = fs.more w' \<Longrightarrow> counts w = counts w' \<and> sequence w = sequence w'"
  for w w' :: store_world
  by (cases w; cases w') simp

text \<open>The pin counts are \<open>cs\<close>, and the trees of the protected templates \<open>F\<close> are as in \<open>ns\<close>.\<close>
definition frame :: "store_env \<Rightarrow> (template_fingerprint \<Rightarrow> nat option) \<Rightarrow> (fpath \<Rightarrow> node option)
    \<Rightarrow> (template_fingerprint \<Rightarrow> bool) \<Rightarrow> store_world \<Rightarrow> bool" where
  "frame env cs ns F w \<longleftrightarrow>
     counts w = cs \<and> (\<forall>f q. F f \<and> under (template_dir env f) q \<longrightarrow> nodes w q = ns q)"

lemma frameD:
  "frame env cs ns F w \<Longrightarrow> counts w = cs"
  "frame env cs ns F w \<Longrightarrow> F f \<Longrightarrow> under (template_dir env f) q \<Longrightarrow> nodes w q = ns q"
  by (auto simp: frame_def)

lemma keeps_fs_only:
  assumes "fs_only S m" and "\<And>f q. F f \<Longrightarrow> under (template_dir env f) q \<Longrightarrow> \<not> S q"
  shows "keeps (frame env cs ns F) m"
proof
  fix w assume w: "frame env cs ns F w"
  have "fs.more (snd (m w)) = fs.more w" "\<forall>q. \<not> S q \<longrightarrow> nodes (snd (m w)) q = nodes w q"
    using assms(1) by (auto simp: fs_only_def)
  then show "frame env cs ns F (snd (m w))"
    using w assms(2) more_counts [of "snd (m w)" w] by (auto simp: frame_def)
qed

lemma keeps_reads: "fs_only (\<lambda>_. False) m \<Longrightarrow> keeps (frame env cs ns F) m"
  by (erule keeps_fs_only) simp

lemma fs_only_wrap_io [intro, simp]: "fs_only S m \<Longrightarrow> fs_only S (wrap_io p m)"
  unfolding wrap_io_def by (rule fs_only_map_err)

lemma fs_only_write [simp]: "S p \<Longrightarrow> fs_only S (fs_write p bs)"
  and fs_only_create [simp]: "S p \<Longrightarrow> fs_only S (fs_create_dir p)"
  and fs_only_remove_all [simp]: "(\<And>q. under p q \<Longrightarrow> S q) \<Longrightarrow> fs_only S (fs_remove_dir_all p)"
  by (rule fs_only_weaken, rule fs_only_writes; simp)+

lemma fs_only_ren [simp]: "(\<And>q. under a q \<or> under b q \<Longrightarrow> S q) \<Longrightarrow> fs_only S (fs_rename a b)"
  by (rule fs_only_weaken, rule fs_only_rename)

lemma fs_only_write_pretty_json [simp]: "S p \<Longrightarrow> fs_only S (write_pretty_json j p)"
  unfolding write_pretty_json_def by (intro fs_only_bind fs_only_wrap_io) simp_all

lemma fs_only_store_reads [simp]:
  "fs_only S (read_index env)" "fs_only S (template_manifest_read env p)" "fs_only S (ensure_body_file p)"
  "fs_only S store_unix_time_ms" "fs_only S (template_size_bytes dir)"
  "fs_only S (store_artifact_for_path env k p q)" "fs_only S (build_snapshot_manifest env sp sq v)"
  unfolding build_snapshot_manifest_def store_artifact_for_path_def read_index_def template_manifest_read_def
    ensure_body_file_def store_unix_time_ms_def template_size_bytes_def Let_def
  by (intro fs_only_bind fs_only_wrap_io; simp)+

lemma keeps_store_reads [simp]:
  "keeps (frame env cs ns F) (read_index e)" "keeps (frame env cs ns F) (template_manifest_read e p)"
  "keeps (frame env cs ns F) (ensure_body_file p)" "keeps (frame env cs ns F) store_unix_time_ms"
  "keeps (frame env cs ns F) (template_size_bytes dir)" "keeps (frame env cs ns F) (build_snapshot_manifest e sp sq v)"
  "keeps (frame env cs ns F) (path_exists p)" "keeps (frame env cs ns F) (path_is_dir p)"
  by (rule keeps_reads; simp)+

lemma keeps_write_index [simp]: "keeps (frame env cs ns F) (write_index env ix)"
  unfolding write_index_def by (rule keeps_fs_only [where S = "\<lambda>q. q = index_path env"])
    (simp_all add: template_dir_elsewhere)

lemma keeps_update_index [simp]: "keeps (frame env cs ns F) (update_index env e)"
  unfolding update_index_def by (intro keeps_bind) simp_all

lemma keeps_next_sequence [simp]: "keeps (frame env cs ns F) next_sequence"
  by (simp add: keeps_def next_sequence_def frame_def)

lemma fs_only_remove_template_dir: "fs_only (under (template_dir env f)) (remove_template_dir env f)"
proof -
  have "snd (remove_template_dir env f w) = snd (fs_remove_dir_all (template_dir env f) w)" for w
    by (simp add: remove_template_dir_def split: prod.splits result.splits)
  then show ?thesis
    using fs_only_writes(4) [of "template_dir env f"] by (simp add: fs_only_def)
qed

lemma keeps_remove_template_dir:
  assumes "hex_laws (digests (crates env))" and "\<not> F f"
  shows "keeps (frame env cs ns F) (remove_template_dir env f)"
  by (rule keeps_fs_only [OF fs_only_remove_template_dir]) (use assms under_template_dir in metis)

lemma frame_pinned: "frame env cs ns F w \<Longrightarrow> is_pinned f w \<longleftrightarrow> (\<exists>n. cs f = Some n \<and> 0 < n)"
  by (auto simp: frame_def is_pinned_def split: option.splits)

text \<open>The templates that \<open>cs\<close> pins.\<close>
definition pinned_by :: "(template_fingerprint \<Rightarrow> nat option) \<Rightarrow> template_fingerprint \<Rightarrow> bool" where
  "pinned_by cs f \<longleftrightarrow> (\<exists>n. cs f = Some n \<and> 0 < n)"

lemma lru_candidate_unpinned: "lru_candidate w es = Some i \<Longrightarrow> \<not> is_pinned (ie_fingerprint (es ! i)) w"
  by (auto simp: lru_candidate_def dest!: min_by_key_mem)

lemma keeps_remove_unpinned:
  assumes "hex_laws (digests (crates env))" and "frame env cs ns (pinned_by cs) w" and "\<not> is_pinned f w"
    and "remove_template_dir env f w = (r, w')"
  shows "frame env cs ns (pinned_by cs) w'"
proof -
  have "\<not> pinned_by cs f" using assms(2,3) frame_pinned by (auto simp: pinned_by_def)
  from keepsD [OF keeps_remove_template_dir [OF assms(1), of "pinned_by cs", OF this] assms(2)] assms(4) show ?thesis by simp
qed

lemma keeps_evict_lru_loop:
  assumes hex: "hex_laws (digests (crates env))"
  shows "keeps (frame env cs ns (pinned_by cs)) (evict_lru_loop env n es)"
proof
  fix w assume "frame env cs ns (pinned_by cs) w"
  then show "frame env cs ns (pinned_by cs) (snd (evict_lru_loop env n es w))"
    using hex
  proof (induction env n es w rule: evict_lru_loop.induct)
    case (1 env n es w)
    show ?case
    proof (cases "capacity env < length es")
      case True
      show ?thesis
      proof (cases "lru_candidate w es")
        case None
        with 1(2) show ?thesis by (simp add: evict_lru_loop.simps [of env n es w])
      next
        case (Some i)
        obtain r w' where rm: "remove_template_dir env (ie_fingerprint (es ! i)) w = (r, w')" by fastforce
        have "frame env cs ns (pinned_by cs) w'"
          by (rule keeps_remove_unpinned [OF 1(3,2) lru_candidate_unpinned [OF Some] rm])
        with 1 True Some rm show ?thesis
          by (cases r) (simp_all add: evict_lru_loop.simps [of env n es w])
      qed
    qed (use 1(2) in \<open>simp add: evict_lru_loop.simps [of env n es w]\<close>)
  qed
qed

lemma keeps_evict_lru [simp]:
  assumes "hex_laws (digests (crates env))"
  shows "keeps (frame env cs ns (pinned_by cs)) (evict_lru_to_capacity env)"
  unfolding evict_lru_to_capacity_def
  by (intro keeps_bind keeps_evict_lru_loop assms) (auto split: prod.splits intro!: keeps_bind)

lemma keeps_evict_loop:
  assumes hex: "hex_laws (digests (crates env))"
    and scope: "\<And>f. keeps (frame env cs ns (pinned_by cs)) (in_scope f)"
  shows "keeps (frame env cs ns (pinned_by cs)) (evict_loop env live in_scope es acc)"
proof
  fix w assume "frame env cs ns (pinned_by cs) w"
  then show "frame env cs ns (pinned_by cs) (snd (evict_loop env live in_scope es acc w))"
  proof (induction es arbitrary: acc w)
    case (Cons e es)
    obtain r w1 where s: "in_scope (ie_fingerprint e) w = (r, w1)" by fastforce
    obtain r2 w2 where rm: "remove_template_dir env (ie_fingerprint e) w1 = (r2, w2)" by fastforce
    have w1: "frame env cs ns (pinned_by cs) w1"
      using keepsD [OF scope Cons.prems] s by (metis snd_conv)
    show ?case
    proof (cases "is_pinned (ie_fingerprint e) w")
      case False
      then have "\<not> is_pinned (ie_fingerprint e) w1"
        using frame_pinned [OF w1] frame_pinned [OF Cons.prems] by simp
      from keeps_remove_unpinned [OF hex w1 this rm] have "frame env cs ns (pinned_by cs) w2" .
      with Cons w1 s rm show ?thesis
        by (auto split: result.splits bool.splits)
    qed (simp add: Cons)
  qed simp
qed

lemma keeps_evict_with:
  assumes "hex_laws (digests (crates env))" and "\<And>f. keeps (frame env cs ns (pinned_by cs)) (in_scope f)"
  shows "keeps (frame env cs ns (pinned_by cs)) (evict_with env live_inputs in_scope)"
  unfolding evict_with_def
  by (intro keeps_bind keeps_evict_loop assms) (auto split: prod.splits intro!: keeps_bind)

lemma keeps_evict_invalidated:
  assumes "hex_laws (digests (crates env))"
  shows "keeps (frame env cs ns (pinned_by cs)) (evict_invalidated env i)"
    and "keeps (frame env cs ns (pinned_by cs)) (evict_invalidated_in_scope env i)"
  by (simp_all add: evict_invalidated_def evict_invalidated_in_scope_def keeps_evict_with [OF assms] keeps_bind)

lemma keeps_store_remove:
  assumes "hex_laws (digests (crates env))"
  shows "keeps (frame env cs ns (pinned_by cs)) (store_remove env f)"
proof
  fix w assume w: "frame env cs ns (pinned_by cs) w"
  show "frame env cs ns (pinned_by cs) (snd (store_remove env f w))"
  proof (cases "is_pinned f w")
    case False
    then have "\<not> pinned_by cs f" using frame_pinned [OF w] by (simp add: pinned_by_def)
    note rm = keeps_remove_template_dir [OF assms, of "pinned_by cs", OF this]
    have "keeps (frame env cs ns (pinned_by cs)) (bind_eff (path_is_dir (template_dir env f)) (\<lambda>d.
        if \<not> d then fail (TemplateMissing f)
        else bind_eff (remove_template_dir env f) (\<lambda>_.
          bind_eff (read_index env) (\<lambda>ix. write_index env (index_remove f ix)))))"
      by (intro keeps_bind; simp split: if_splits; intro conjI impI keeps_bind rm; simp)
    from keepsD [OF this w] False show ?thesis by (simp add: store_remove_def)
  qed (simp add: store_remove_def w)
qed

subsection \<open>Pins\<close>

definition acquired :: "template_fingerprint \<Rightarrow> (template_fingerprint \<Rightarrow> nat option) \<Rightarrow> template_fingerprint \<Rightarrow> nat option" where
  "acquired f cs = cs(f \<mapsto> (case cs f of None \<Rightarrow> 0 | Some n \<Rightarrow> n) + 1)"

text \<open>No count is zero: a count that reaches zero is removed.\<close>
definition counts_positive :: "(template_fingerprint \<Rightarrow> nat option) \<Rightarrow> bool" where
  "counts_positive cs \<longleftrightarrow> (\<forall>f. cs f \<noteq> Some 0)"

lemma frame_acquire: "frame env cs ns F w \<Longrightarrow> frame env (acquired f cs) ns F (pins_acquire f w)"
  by (simp add: frame_def pins_acquire_def acquired_def)

lemma frame_release:
  "frame env (acquired f cs) ns F w \<Longrightarrow> counts_positive cs \<Longrightarrow> frame env cs ns F (pins_release f w)"
  by (auto simp: frame_def pins_release_def acquired_def counts_positive_def fun_eq_iff split: option.splits)
    (metis gr0I)

text \<open>\<open>outcome P Q m\<close>: from a state with \<open>P\<close>, success gives \<open>Q\<close> and failure leaves \<open>P\<close>.\<close>
definition outcome :: "('w \<Rightarrow> bool) \<Rightarrow> ('a \<Rightarrow> 'w \<Rightarrow> bool) \<Rightarrow> ('w, 'a, 'e) eff \<Rightarrow> bool" where
  "outcome P Q m \<longleftrightarrow> (\<forall>w. P w \<longrightarrow> (case m w of (Ok a, w') \<Rightarrow> Q a w' | (Err _, w') \<Rightarrow> P w'))"

lemma outcomeD:
  "outcome P Q m \<Longrightarrow> P w \<Longrightarrow> m w = (Ok a, w') \<Longrightarrow> Q a w'"
  "outcome P Q m \<Longrightarrow> P w \<Longrightarrow> m w = (Err e, w') \<Longrightarrow> P w'"
  by (fastforce simp: outcome_def)+

lemma outcome_bind:
  assumes "keeps P m" and "\<And>a. outcome P Q (k a)"
  shows "outcome P Q (bind_eff m k)"
  using assms by (fastforce simp: outcome_def keeps_def bind_eff_def split: prod.splits result.splits)

lemma outcome_fail [simp]: "outcome P Q (fail e)"
  by (simp add: outcome_def)

lemma outcome_map: "outcome P Q m \<Longrightarrow> (\<And>a w. Q a w \<Longrightarrow> R (g a) w) \<Longrightarrow> outcome P R (bind_eff m (\<lambda>a. ret (g a)))"
  by (fastforce simp: outcome_def bind_eff_def split: prod.splits result.splits)

lemma with_pin_eq_Ok [result_simps]: "with_pin f body w = (Ok a, w') \<longleftrightarrow> body (pins_acquire f w) = (Ok a, w')"
  by (auto simp: with_pin_def split: prod.splits result.splits)

lemma outcome_with_pin:
  assumes "counts_positive cs" and "keeps (frame env (acquired f cs) ns F) body"
  shows "outcome (frame env cs ns F) (\<lambda>_. frame env (acquired f cs) ns F) (with_pin f body)"
  using assms frame_release [OF _ assms(1)] frame_acquire
  by (fastforce simp: outcome_def keeps_def with_pin_def split: prod.splits result.splits)

lemma outcome_store_pin:
  assumes "counts_positive cs"
  shows "outcome (frame env cs ns F) (\<lambda>_. frame env (acquired f cs) ns F) (store_pin env f i)"
  unfolding store_pin_def Let_def
  by (rule outcome_bind; simp; intro conjI impI outcome_bind outcome_with_pin assms keeps_bind; simp)

lemma outcome_store_lookup:
  assumes "counts_positive cs"
  shows "outcome (frame env cs ns F)
    (\<lambda>r. frame env (case r of None \<Rightarrow> cs | Some _ \<Rightarrow> acquired (fingerprint_compute (digests (crates env)) i) cs) ns F)
    (store_lookup env i)"
  unfolding store_lookup_def Let_def
  by (rule outcome_bind; simp; intro conjI impI outcome_map [OF outcome_store_pin [OF assms]])
    (simp_all add: outcome_def)

lemma keeps_store_reserve: "keeps (frame env cs ns F) (store_reserve env i l)"
proof -
  have "keeps (frame env cs ns F) (wrap_io p (fs_create_dir p))" if "in_staging env p" for p
    using that in_staging_under [OF that under_refl]
    by (intro keeps_fs_only [where S = "\<lambda>q. q = p"]) (auto dest: template_dir_elsewhere(2))
  then show ?thesis
    unfolding store_reserve_def Let_def by (intro keeps_bind; simp; intro conjI impI keeps_bind; simp add: in_staging_dir)
qed

lemma keeps_write_then_rename:
  assumes "in_staging env dir"
  shows "keeps (frame env cs ns F) (write_then_rename j dir name)"
proof -
  have "keeps (frame env cs ns F) (bind_eff (write_pretty_json j (dir @ p)) (\<lambda>_. wrap_io (dir @ t) (fs_rename (dir @ p) (dir @ t))))" for p t
    by (rule keeps_fs_only [where S = "under dir"], intro fs_only_bind fs_only_wrap_io fs_only_ren)
      (use assms under_trans [OF under_append] in \<open>auto dest: in_staging_under template_dir_elsewhere(2)\<close>)
  then show ?thesis
    unfolding write_then_rename_def Let_def by (rule keeps_bind [OF keeps_next_sequence])
qed

subsection \<open>Commit\<close>

lemma snd_wrap_io: "snd (wrap_io p m w) = snd (m w)"
  by (simp add: wrap_io_def map_err_def split: prod.splits result.splits)

lemma rename_onto_dir: "a \<noteq> b \<Longrightarrow> nodes w b = Some DirNode \<Longrightarrow> nodes (snd (fs_rename a b w)) = nodes w"
  by (auto simp: fs_rename_def split: prod.splits fault.splits option.splits dest!: take_fault_nodes)

lemma keeps_commit_rename:
  assumes hex: "hex_laws (digests (crates env))" and staged: "in_staging env dir"
    and present: "F f \<Longrightarrow> ns (template_dir env f) = Some DirNode"
  shows "keeps (frame env cs ns F) (wrap_io p (fs_rename dir (template_dir env f)))"
proof (cases "F f")
  case False
  then show ?thesis
    using under_template_dir [OF hex] in_staging_under [OF staged] template_dir_elsewhere(2)
    by (intro keeps_fs_only [where S = "\<lambda>q. under dir q \<or> under (template_dir env f) q"]) (simp, metis)
next
  case True
  show ?thesis
  proof
    fix w assume w: "frame env cs ns F w"
    then have d: "nodes w (template_dir env f) = Some DirNode"
      using True present frameD(2) [OF w True under_refl] by simp
    have ne: "dir \<noteq> template_dir env f"
      using in_staging_under [OF staged, of dir] template_dir_elsewhere(2) [of env f dir] by auto
    define w' where "w' = snd (wrap_io p (fs_rename dir (template_dir env f)) w)"
    have "nodes w' = nodes w"
      unfolding w'_def snd_wrap_io by (rule rename_onto_dir) fact+
    moreover have "fs_only (\<lambda>_. True) (wrap_io p (fs_rename dir (template_dir env f)))"
      by simp
    then have "fs.more w' = fs.more w" unfolding w'_def fs_only_def by blast
    ultimately have "frame env cs ns F w'" using w more_counts [of w' w] by (simp add: frame_def)
    then show "frame env cs ns F (snd (wrap_io p (fs_rename dir (template_dir env f)) w))"
      by (simp add: w'_def)
  qed
qed

lemma keeps_subset:
  assumes "\<And>ns. keeps (frame env cs ns G) m" and "\<And>f. F f \<Longrightarrow> G f"
  shows "keeps (frame env cs ns F) m"
proof
  fix w assume w: "frame env cs ns F w"
  then have "frame env cs (nodes w) G w" by (simp add: frame_def)
  from keepsD [OF assms(1) this] have "frame env cs (nodes w) G (snd (m w))" .
  with w assms(2) show "frame env cs ns F (snd (m w))" unfolding frame_def by metis
qed

lemma acquired_pinned: "pinned_by cs g \<Longrightarrow> pinned_by (acquired f cs) g" "pinned_by (acquired f cs) f"
  by (auto simp: pinned_by_def acquired_def)

lemma outcome_commit_end:
  assumes "hex_laws (digests (crates env))" and "counts_positive cs" and "\<And>g. F g \<Longrightarrow> pinned_by (acquired f cs) g"
  shows "outcome (frame env cs ns F) (\<lambda>_. frame env (acquired f cs) ns F)
     (bind_eff (store_pin env f i) (\<lambda>pinned w.
        (case evict_lru_to_capacity env w of
           (Ok _, w') \<Rightarrow> (Ok pinned, w')
         | (Err e, w') \<Rightarrow> (Err e, pins_release f w'))))"
proof -
  have k: "keeps (frame env (acquired f cs) ns F) (evict_lru_to_capacity env)"
    by (rule keeps_subset [OF keeps_evict_lru]) (use assms in auto)
  have pin: "outcome (frame env cs ns F) (\<lambda>_. frame env (acquired f cs) ns F) (store_pin env f i)"
    by (rule outcome_store_pin [OF assms(2)])
  show ?thesis
    unfolding outcome_def
  proof (intro allI impI)
    fix w assume w: "frame env cs ns F w"
    obtain r w1 where p: "store_pin env f i w = (r, w1)" by fastforce
    obtain r2 w2 where e: "evict_lru_to_capacity env w1 = (r2, w2)" by fastforce
    show "case bind_eff (store_pin env f i) (\<lambda>pinned w.
        (case evict_lru_to_capacity env w of
           (Ok _, w') \<Rightarrow> (Ok pinned, w')
         | (Err e, w') \<Rightarrow> (Err e, pins_release f w'))) w of
        (Ok a, w') \<Rightarrow> frame env (acquired f cs) ns F w' | (Err _, w') \<Rightarrow> frame env cs ns F w'"
    proof (cases r)
      case (Ok a)
      with outcomeD(1) [OF pin w] p have "frame env (acquired f cs) ns F w1" by simp
      from keepsD [OF k this] e have "frame env (acquired f cs) ns F w2" by simp
      then show ?thesis using p e Ok frame_release [OF _ assms(2)] by (cases r2) simp_all
    qed (use outcomeD(2) [OF pin w] p in simp)
  qed
qed

lemma outcome_store_commit:
  assumes "hex_laws (digests (crates env))" and "counts_positive cs" and "in_staging env (plan_staging_dir plan)"
    and "\<And>g. F g \<Longrightarrow> pinned_by (acquired (plan_fingerprint plan) cs) g"
    and "F (plan_fingerprint plan) \<Longrightarrow> ns (template_dir env (plan_fingerprint plan)) = Some DirNode"
  shows "outcome (frame env cs ns F) (\<lambda>_. frame env (acquired (plan_fingerprint plan) cs) ns F) (store_commit env plan)"
proof -
  note parts = keeps_commit_rename [where F = F and f = "plan_fingerprint plan" and ns = ns, OF assms(1,3,5)] keeps_write_then_rename [OF assms(3)]
    outcome_commit_end [where F = F and f = "plan_fingerprint plan" and cs = cs, OF assms(1,2,4)]
  show ?thesis
    unfolding store_commit_def Let_def
    by (rule outcome_bind; simp; intro conjI impI outcome_bind parts; simp)
qed

subsection \<open>A store in use\<close>

record store_sys =
  world :: store_world
  held :: "template_fingerprint multiset"
  plans :: "template_build_plan list"

text \<open>A template that a call handed out is added to \<open>held\<close>; dropping it takes it away again.\<close>
inductive store_step :: "store_env \<Rightarrow> store_sys \<Rightarrow> store_sys \<Rightarrow> bool" for env :: store_env where
  step_list: "store_list env (world s) = (r, w) \<Longrightarrow> store_step env s (s\<lparr>world := w\<rparr>)"
| step_referencing: "templates_referencing_image env d (world s) = (r, w) \<Longrightarrow> store_step env s (s\<lparr>world := w\<rparr>)"
| step_manifest: "store_manifest env f (world s) = (r, w) \<Longrightarrow> store_step env s (s\<lparr>world := w\<rparr>)"
| step_remove: "store_remove env f (world s) = (r, w) \<Longrightarrow> store_step env s (s\<lparr>world := w\<rparr>)"
| step_evict: "evict_invalidated env i (world s) = (r, w) \<Longrightarrow> store_step env s (s\<lparr>world := w\<rparr>)"
| step_evict_scope: "evict_invalidated_in_scope env i (world s) = (r, w) \<Longrightarrow> store_step env s (s\<lparr>world := w\<rparr>)"
| step_evict_lru: "evict_lru_to_capacity env (world s) = (r, w) \<Longrightarrow> store_step env s (s\<lparr>world := w\<rparr>)"
| step_reserve: "store_reserve env i l (world s) = (Ok p, w) \<Longrightarrow>
    store_step env s (s\<lparr>world := w, plans := p # plans s\<rparr>)"
| step_reserve_err: "store_reserve env i l (world s) = (Err e, w) \<Longrightarrow> store_step env s (s\<lparr>world := w\<rparr>)"
| step_pin: "store_pin env f i (world s) = (Ok p, w) \<Longrightarrow>
    store_step env s (s\<lparr>world := w, held := add_mset f (held s)\<rparr>)"
| step_pin_err: "store_pin env f i (world s) = (Err e, w) \<Longrightarrow> store_step env s (s\<lparr>world := w\<rparr>)"
| step_lookup: "store_lookup env i (world s) = (Ok (Some p), w) \<Longrightarrow>
    store_step env s (s\<lparr>world := w, held := add_mset (reference p) (held s)\<rparr>)"
| step_lookup_miss: "store_lookup env i (world s) = (Ok None, w) \<Longrightarrow> store_step env s (s\<lparr>world := w\<rparr>)"
| step_lookup_err: "store_lookup env i (world s) = (Err e, w) \<Longrightarrow> store_step env s (s\<lparr>world := w\<rparr>)"
| step_commit: "p \<in> set (plans s) \<Longrightarrow> store_commit env p (world s) = (Ok t, w) \<Longrightarrow>
    store_step env s (s\<lparr>world := w, held := add_mset (plan_fingerprint p) (held s), plans := remove1 p (plans s)\<rparr>)"
| step_commit_err: "p \<in> set (plans s) \<Longrightarrow> store_commit env p (world s) = (Err e, w) \<Longrightarrow>
    store_step env s (s\<lparr>world := w, plans := remove1 p (plans s)\<rparr>)"
| step_drop: "f \<in># held s \<Longrightarrow> pin_drop f (world s) = (r, w) \<Longrightarrow>
    store_step env s (s\<lparr>world := w, held := held s - {#f#}\<rparr>)"
| step_builder: "(\<And>q. \<not> in_staging env q \<Longrightarrow> ns q = nodes (world s) q) \<Longrightarrow>
    store_step env s (s\<lparr>world := (world s)\<lparr>nodes := ns, faults := fs, clock := ts\<rparr>\<rparr>)"

definition store_init :: "store_env \<Rightarrow> store_sys \<Rightarrow> bool" where
  "store_init env s \<longleftrightarrow> held s = {#} \<and> plans s = [] \<and>
     (\<exists>w. store_create env w = (Ok (), world s) \<or> store_open env w = (Ok (), world s))"

definition held_counts :: "template_fingerprint multiset \<Rightarrow> template_fingerprint \<Rightarrow> nat option" where
  "held_counts M f = (if count M f = 0 then None else Some (count M f))"

definition store_inv :: "store_env \<Rightarrow> store_sys \<Rightarrow> bool" where
  "store_inv env s \<longleftrightarrow>
     counts (world s) = held_counts (held s) \<and>
     (\<forall>f \<in># held s. nodes (world s) (template_dir env f) = Some DirNode) \<and>
     (\<forall>p \<in> set (plans s). in_staging env (plan_staging_dir p))"

lemma held_counts_positive [simp]: "counts_positive (held_counts M)"
  by (simp add: counts_positive_def held_counts_def)

lemma held_counts_pinned: "pinned_by (held_counts M) = (\<lambda>f. f \<in># M)"
  by (auto simp: pinned_by_def held_counts_def not_in_iff fun_eq_iff)

lemma held_counts_add: "acquired f (held_counts M) = held_counts (add_mset f M)"
  by (auto simp: acquired_def held_counts_def not_in_iff fun_eq_iff)

lemma held_counts_drop: "f \<in># M \<Longrightarrow> counts w = held_counts M \<Longrightarrow> counts (pins_release f w) = held_counts (M - {#f#})"
  by (auto simp: pins_release_def held_counts_def fun_eq_iff not_in_iff)

text \<open>The frame of a step: what is pinned before it.\<close>
abbreviation start :: "store_env \<Rightarrow> store_sys \<Rightarrow> store_world \<Rightarrow> bool" where
  "start env s \<equiv> frame env (held_counts (held s)) (nodes (world s)) (\<lambda>f. f \<in># held s)"

lemma start_pinned: "start env s = frame env (held_counts (held s)) (nodes (world s)) (pinned_by (held_counts (held s)))"
  by (simp add: held_counts_pinned)

lemma store_inv_start: "store_inv env s \<Longrightarrow> start env s (world s)"
  by (simp add: store_inv_def frame_def)

lemma start_inv:
  assumes "store_inv env s" and "start env s w" and "set P \<subseteq> set (plans s)"
  shows "store_inv env (s\<lparr>world := w, plans := P\<rparr>)"
  using assms frameD(2) [OF assms(2) _ under_refl] by (auto simp: store_inv_def frame_def)

text \<open>What one step of a reachable store does: the protected trees are as before, the invariant holds.\<close>
definition good_step :: "store_env \<Rightarrow> store_sys \<Rightarrow> store_sys \<Rightarrow> bool" where
  "good_step env s t \<longleftrightarrow> store_inv env t \<and>
     (\<forall>f q. f \<in># held s \<and> under (template_dir env f) q \<longrightarrow> nodes (world t) q = nodes (world s) q)"

lemma good_quiet:
  assumes "store_inv env s" and "keeps (start env s) m" and "m (world s) = (r, w)"
  shows "good_step env s (s\<lparr>world := w\<rparr>)"
proof -
  have w: "start env s w" using keepsD [OF assms(2) store_inv_start [OF assms(1)]] assms(3) by simp
  from start_inv [OF assms(1) w order_refl] frameD(2) [OF w] show ?thesis by (auto simp: good_step_def)
qed

lemma good_err:
  assumes "store_inv env s" and "outcome (start env s) Q m" and "m (world s) = (Err e, w)" and "set P \<subseteq> set (plans s)"
  shows "good_step env s (s\<lparr>world := w, plans := P\<rparr>)"
proof -
  have w: "start env s w" using outcomeD(2) [OF assms(2) store_inv_start [OF assms(1)] assms(3)] .
  from start_inv [OF assms(1) w assms(4)] frameD(2) [OF w] show ?thesis by (auto simp: good_step_def)
qed

lemma good_pinned:
  assumes "store_inv env s"
    and "frame env (acquired f (held_counts (held s))) (nodes (world s)) (\<lambda>f. f \<in># held s) w"
    and "nodes w (template_dir env f) = Some DirNode" and "set P \<subseteq> set (plans s)"
  shows "good_step env s (s\<lparr>world := w, held := add_mset f (held s), plans := P\<rparr>)"
  using assms frameD(2) [OF assms(2) _ under_refl] frameD(2) [OF assms(2)]
  by (auto simp: good_step_def store_inv_def held_counts_add dest: frameD(1))

lemma path_is_dir_True: "path_is_dir p w = (Ok True, w') \<Longrightarrow> p \<noteq> [] \<Longrightarrow> nodes w p = Some DirNode"
  by (auto simp: path_is_dir_def fs_query_def split: prod.splits fault.splits dest!: take_fault_nodes)

lemma store_pin_found: "store_pin env f i w = (Ok p, w') \<Longrightarrow> nodes w (template_dir env f) = Some DirNode"
  by (auto simp: store_pin_def Let_def result_simps split: if_splits dest!: path_is_dir_True)

lemma store_pin_dir:
  assumes "store_pin env f i w = (Ok p, w')" and "counts_positive (counts w)"
  shows "nodes w' (template_dir env f) = Some DirNode"
proof -
  have "frame env (counts w) (nodes w) (\<lambda>_. True) w" by (simp add: frame_def)
  from frameD(2) [OF outcomeD(1) [OF outcome_store_pin [OF assms(2)] this assms(1)] _ under_refl]
    store_pin_found [OF assms(1)] show ?thesis by simp
qed

text \<open>\<open>on_ok P Q m\<close>: from a state with \<open>P\<close>, success gives \<open>Q\<close>.\<close>
definition on_ok :: "('w \<Rightarrow> bool) \<Rightarrow> ('a \<Rightarrow> 'w \<Rightarrow> bool) \<Rightarrow> ('w, 'a, 'e) eff \<Rightarrow> bool" where
  "on_ok P Q m \<longleftrightarrow> (\<forall>w a w'. P w \<and> m w = (Ok a, w') \<longrightarrow> Q a w')"

lemma on_ok_bind: "keeps P m \<Longrightarrow> (\<And>a. on_ok P Q (k a)) \<Longrightarrow> on_ok P Q (bind_eff m k)"
  unfolding on_ok_def keeps_def bind_eff_eq_Ok by (metis snd_conv)

lemma on_ok_fail [simp]: "on_ok P Q (fail e)"
  by (simp add: on_ok_def)

lemma store_commit_Ok:
  assumes "store_commit env plan w = (Ok p, w')" and "hex_laws (digests (crates env))"
    and "in_staging env (plan_staging_dir plan)"
  obtains w1 w2 n where "store_pin env (plan_fingerprint plan) (plan_inputs plan) w1 = (Ok p, w2)"
    "evict_lru_to_capacity env w2 = (Ok n, w')" "counts w1 = counts w"
proof -
  let ?P = "frame env (counts w) (nodes w) (\<lambda>_. False)"
  define Q where "Q p w' \<longleftrightarrow> (\<exists>w1 w2 n. store_pin env (plan_fingerprint plan) (plan_inputs plan) w1 = (Ok p, w2) \<and>
    evict_lru_to_capacity env w2 = (Ok n, w') \<and> counts w1 = counts w)" for p w'
  note parts = keeps_commit_rename [where F = "\<lambda>_. False" and f = "plan_fingerprint plan", OF assms(2,3)]
    keeps_write_then_rename [OF assms(3)]
  have last: "on_ok ?P Q (bind_eff (store_pin env (plan_fingerprint plan) (plan_inputs plan)) (\<lambda>pinned w.
        (case evict_lru_to_capacity env w of
           (Ok _, w') \<Rightarrow> (Ok pinned, w')
         | (Err e, w') \<Rightarrow> (Err e, pins_release (plan_fingerprint plan) w'))))"
    unfolding on_ok_def
  proof (intro allI impI, elim conjE)
    fix v a v' assume v: "?P v" and "bind_eff (store_pin env (plan_fingerprint plan) (plan_inputs plan)) (\<lambda>pinned w.
        (case evict_lru_to_capacity env w of
           (Ok _, w') \<Rightarrow> (Ok pinned, w')
         | (Err e, w') \<Rightarrow> (Err e, pins_release (plan_fingerprint plan) w'))) v = (Ok a, v')"
    then obtain b v1 where p: "store_pin env (plan_fingerprint plan) (plan_inputs plan) v = (Ok b, v1)"
      and e: "(case evict_lru_to_capacity env v1 of
           (Ok _, w') \<Rightarrow> (Ok b, w')
         | (Err e, w') \<Rightarrow> (Err e, pins_release (plan_fingerprint plan) w')) = (Ok a, v')"
      unfolding bind_eff_eq_Ok by blast
    from e obtain n where "evict_lru_to_capacity env v1 = (Ok n, v')" "b = a"
      by (cases "evict_lru_to_capacity env v1"; cases "fst (evict_lru_to_capacity env v1)") auto
    with p v show "Q a v'" using frameD(1) [OF v] unfolding Q_def by blast
  qed
  have "on_ok ?P Q (store_commit env plan)"
    unfolding store_commit_def Let_def
    by (rule on_ok_bind; simp; intro conjI impI last parts on_ok_bind; simp)
  then have "Q p w'" using assms(1) unfolding on_ok_def by (auto simp: frame_def)
  with that show ?thesis unfolding Q_def by blast
qed

text \<open>The eviction after a pin leaves the pinned template as the pin found it.\<close>
lemma pin_evict_tree:
  assumes pin: "store_pin env f i w1 = (Ok p, w2)" and evict: "evict_lru_to_capacity env w2 = (r, w')"
    and pos: "counts_positive (counts w1)" and hex: "hex_laws (digests (crates env))" and q: "under (template_dir env f) q"
  shows "nodes w' q = nodes w1 q"
proof -
  have "frame env (counts w1) (nodes w1) (\<lambda>_. True) w1" by (simp add: frame_def)
  from outcomeD(1) [OF outcome_store_pin [OF pos] this pin]
  have w2: "frame env (acquired f (counts w1)) (nodes w1) (\<lambda>_. True) w2" .
  have "frame env (counts w2) (nodes w2) (pinned_by (counts w2)) w2" by (simp add: frame_def)
  from keepsD [OF keeps_evict_lru [OF hex] this] evict
  have "frame env (counts w2) (nodes w2) (pinned_by (counts w2)) w'" by simp
  from frameD(2) [OF this _ q] have "nodes w' q = nodes w2 q"
    using frameD(1) [OF w2] acquired_pinned(2) by simp
  also have "\<dots> = nodes w1 q" using frameD(2) [OF w2 _ q] by simp
  finally show ?thesis .
qed

lemma store_commit_dir:
  assumes "store_commit env plan w = (Ok p, w')" and "counts_positive (counts w)" and "hex_laws (digests (crates env))"
    and "in_staging env (plan_staging_dir plan)"
  shows "nodes w' (template_dir env (plan_fingerprint plan)) = Some DirNode"
proof -
  let ?f = "plan_fingerprint plan"
  obtain w1 w2 n where pin: "store_pin env ?f (plan_inputs plan) w1 = (Ok p, w2)"
    and evict: "evict_lru_to_capacity env w2 = (Ok n, w')" and "counts w1 = counts w"
    using store_commit_Ok [OF assms(1,3,4)] by metis
  then have pos: "counts_positive (counts w1)" using assms(2) by simp
  have "nodes w1 (template_dir env ?f) = Some DirNode" using store_pin_found [OF pin] .
  with pin_evict_tree [OF pin evict pos assms(3) under_refl] show ?thesis by simp
qed

lemma quiet_calls:
  assumes "hex_laws (digests (crates env))"
  shows "keeps (start env s) (store_list env)" "keeps (start env s) (templates_referencing_image env d)"
    "keeps (start env s) (store_manifest env f)" "keeps (start env s) (store_remove env f)"
    "keeps (start env s) (evict_invalidated env i)" "keeps (start env s) (evict_invalidated_in_scope env i)"
    "keeps (start env s) (evict_lru_to_capacity env)" "keeps (start env s) (store_reserve env i l)"
proof -
  have "keeps P (referencing env d es)" if "\<And>p. keeps P (template_manifest_read env p)" for P es
    by (induction es) (auto simp: keeps_def [of _ "Pair _"] intro!: keeps_bind that)
  then show "keeps (start env s) (store_list env)" "keeps (start env s) (templates_referencing_image env d)"
    "keeps (start env s) (store_manifest env f)"
    unfolding store_list_def templates_referencing_image_def store_manifest_def
    by (intro keeps_bind; simp; intro conjI impI keeps_bind; simp)+
qed (simp_all only: start_pinned keeps_store_remove [OF assms] keeps_evict_invalidated [OF assms]
  keeps_evict_lru [OF assms] keeps_store_reserve)

lemma reserved_in_staging: "store_reserve env i l w = (Ok p, w') \<Longrightarrow> in_staging env (plan_staging_dir p)"
  by (auto simp: store_reserve_def Let_def result_simps in_staging_dir split: if_splits)

lemma store_pin_reference: "store_pin env f i w = (Ok p, w') \<Longrightarrow> reference p = f"
  by (auto simp: store_pin_def Let_def result_simps split: if_splits)

lemma store_lookup_Some:
  assumes "store_lookup env i w = (Ok (Some p), w')"
  obtains w1 where "store_pin env (fingerprint_compute (digests (crates env)) i) i w1 = (Ok p, w')"
    "counts w1 = counts w" "nodes w1 = nodes w"
proof -
  from assms obtain b w1 where "path_exists (template_dir env (fingerprint_compute (digests (crates env)) i)) w = (Ok b :: (bool, template_store_error) result, w1)"
    and p: "store_pin env (fingerprint_compute (digests (crates env)) i) i w1 = (Ok p, w')"
    by (auto simp: store_lookup_def Let_def result_simps split: if_splits)
  then have "counts w1 = counts w" "nodes w1 = nodes w"
    using fs_onlyD [OF fs_only_reads(2) [of "\<lambda>_. False"]] more_counts [of w1 w] by blast+
  with p that show ?thesis by blast
qed

lemma good_pin:
  assumes "store_inv env s" and "store_pin env f i w1 = (Ok p, w)" and "start env s w1"
  shows "good_step env s (s\<lparr>world := w, held := add_mset f (held s)\<rparr>)"
proof -
  have "counts_positive (counts w1)" using frameD(1) [OF assms(3)] by simp
  with good_pinned [OF assms(1) outcomeD(1) [OF outcome_store_pin [OF held_counts_positive] assms(3,2)]
    store_pin_dir [OF assms(2)] order_refl] show ?thesis by simp
qed

lemma outcome_held_commit:
  assumes "hex_laws (digests (crates env))" and "store_inv env s" and "p \<in> set (plans s)"
  shows "outcome (start env s) (\<lambda>_. frame env (acquired (plan_fingerprint p) (held_counts (held s))) (nodes (world s)) (\<lambda>f. f \<in># held s))
    (store_commit env p)"
  by (rule outcome_store_commit [OF assms(1) held_counts_positive])
    (use assms acquired_pinned(1) [of "held_counts (held s)"] in \<open>auto simp: store_inv_def held_counts_pinned\<close>)

lemma store_step_good:
  assumes hex: "hex_laws (digests (crates env))" and "store_step env s t" and "store_inv env s"
  shows "good_step env s t"
  using assms(2,3)
proof (induction rule: store_step.induct)
  case (step_reserve i l s p w)
  then have "good_step env s (s\<lparr>world := w\<rparr>)" by (auto intro: good_quiet quiet_calls(8) [OF hex])
  with reserved_in_staging [OF step_reserve(1)] show ?case by (simp add: good_step_def store_inv_def)
next
  case (step_pin f i s p w)
  from good_pin [OF step_pin(2,1) store_inv_start [OF step_pin(2)]] show ?case .
next
  case (step_pin_err f i s e w)
  then show ?case using good_err [OF _ outcome_store_pin [OF held_counts_positive], of env s _ _ _ w "plans s"] by simp
next
  case (step_lookup i s p w)
  obtain w1 where "store_pin env (fingerprint_compute (digests (crates env)) i) i w1 = (Ok p, w)"
    "counts w1 = counts (world s)" "nodes w1 = nodes (world s)"
    using store_lookup_Some [OF step_lookup(1)] by metis
  with good_pin [OF step_lookup(2)] store_inv_start [OF step_lookup(2)] store_pin_reference
  show ?case by (metis frame_def)
next
  case (step_lookup_miss i s w)
  have "start env s w"
    using outcomeD(1) [OF outcome_store_lookup [OF held_counts_positive] store_inv_start [OF step_lookup_miss(2)] step_lookup_miss(1)]
    by simp
  with start_inv [OF step_lookup_miss(2) this order_refl] show ?case by (auto simp: good_step_def dest: frameD(2))
next
  case (step_lookup_err i s e w)
  then show ?case using good_err [OF _ outcome_store_lookup [OF held_counts_positive], of env s _ _ w "plans s"] by simp
next
  case (step_commit p s t w)
  from good_pinned [OF step_commit(3) outcomeD(1) [OF outcome_held_commit [OF hex step_commit(3,1)]
      store_inv_start [OF step_commit(3)] step_commit(2)] store_commit_dir [OF step_commit(2) _ hex]
      set_remove1_subset] step_commit(1,3)
  show ?case by (simp add: store_inv_def)
next
  case (step_commit_err p s e w)
  from good_err [OF step_commit_err(3) outcome_held_commit [OF hex step_commit_err(3,1)] step_commit_err(2) set_remove1_subset]
  show ?case .
next
  case (step_drop f s r w)
  then have w: "w = pins_release f (world s)" by (simp add: pin_drop_def)
  have "nodes w = nodes (world s)" by (simp add: w pins_release_def split: option.splits)
  moreover have "counts w = held_counts (held s - {#f#})"
    unfolding w using step_drop held_counts_drop by (simp add: store_inv_def)
  ultimately show ?case
    using step_drop(3) by (auto simp: good_step_def store_inv_def dest: in_diffD)
next
  case (step_builder ns s fs ts)
  have "ns q = nodes (world s) q" if "under (template_dir env f) q" for f q
    using step_builder(1) template_dir_elsewhere(2) [OF that] by (auto simp: in_staging_def)
  with step_builder(2) this [OF under_refl] show ?case unfolding good_step_def store_inv_def by auto
qed (auto intro: good_quiet quiet_calls [OF hex])

lemma fresh_store_counts:
  "store_create env w = (Ok (), w') \<Longrightarrow> counts w' = (\<lambda>_. None)"
  "store_open env w = (Ok (), w') \<Longrightarrow> counts w' = (\<lambda>_. None)"
  by (auto simp: store_create_def store_open_def fresh_store_def result_simps)

lemma store_init_inv: "store_init env s \<Longrightarrow> store_inv env s"
  by (auto simp: store_init_def store_inv_def held_counts_def fun_eq_iff dest!: fresh_store_counts)

interpretation store: transition_system "store_init env" "store_step env"
    "\<lambda>s. hex_laws (digests (crates env)) \<longrightarrow> store_inv env s"
  for env
  by unfold_locales (auto intro: store_init_inv dest: store_step_good simp: good_step_def)

text \<open>C38: in every state a store reaches, through any calls, I/O faults and clock readings, the pin count of a
  template is the number of \<open>PinnedTemplate\<close> values for it that are still alive, failed calls included.\<close>
theorem pin_counts_are_outstanding_pins:
  assumes "reachable (store_init env) (store_step env) s" and "hex_laws (digests (crates env))"
  shows "counts (world s) f = (if count (held s) f = 0 then None else Some (count (held s) f)) \<and>
     (is_pinned f (world s) \<longleftrightarrow> f \<in># held s)"
  using store.reachable_inv [OF assms(1)] assms(2)
  by (auto simp: store_inv_def held_counts_def is_pinned_def not_in_iff)

text \<open>C7: as long as a \<open>PinnedTemplate\<close> is alive, nothing the store does (look-ups, removals, the three
  evictions, commits, even of the same fingerprint) changes or removes a file of that template.\<close>
theorem pinned_template_untouched:
  assumes "reachable (store_init env) (store_step env) s" and "hex_laws (digests (crates env))"
    and "(\<lambda>a b. f \<in># held a \<and> store_step env a b)\<^sup>*\<^sup>* s t" and "under (template_dir env f) q"
  shows "nodes (world t) q = nodes (world s) q"
proof -
  from assms(3) have "store_inv env t \<and> nodes (world t) q = nodes (world s) q"
  proof (induction rule: rtranclp_induct)
    case base
    then show ?case using store.reachable_inv [OF assms(1)] assms(2) by simp
  next
    case (step a b)
    then have "good_step env a b" using store_step_good [OF assms(2)] by blast
    with step assms(4) show ?case unfolding good_step_def by metis
  qed
  then show ?thesis ..
qed

subsection \<open>When a template is handed out\<close>

definition is_file_node :: "node option \<Rightarrow> bool" where
  "is_file_node n = (case n of Some (FileNode _) \<Rightarrow> True | _ \<Rightarrow> False)"

text \<open>What \<open>pin\<close> finds when it succeeds.\<close>
definition intact :: "store_env \<Rightarrow> template_fingerprint \<Rightarrow> template_inputs \<Rightarrow> template_manifest
    \<Rightarrow> (fpath \<Rightarrow> node option) \<Rightarrow> bool" where
  "intact env f live m ns \<longleftrightarrow>
     (let dir = template_dir env f; b = body_paths dir
      in ns dir = Some DirNode \<and>
         (\<exists>raw. ns (bp_manifest b) = Some (FileNode raw) \<and>
            parse_with_schema_probe (template_schema_of_json (crates env)) (template_of_json (crates env))
              (bp_manifest b) raw = Ok m) \<and>
         validate_manifest_identity env m f live = Ok () \<and>
         is_file_node (ns (bp_vm_state b)) \<and> is_file_node (ns (bp_mem b)) \<and> ns (dir @ [SNAPSHOT_MANIFEST_FILE]) \<noteq> None)"

definition index_readable :: "store_env \<Rightarrow> (fpath \<Rightarrow> node option) \<Rightarrow> bool" where
  "index_readable env ns \<longleftrightarrow> parent_is_dir ns (index_path env) \<and>
     (\<exists>raw ix. ns (index_path env) = Some (FileNode raw) \<and>
        parse_with_schema_probe (index_schema_of_json (crates env)) (index_of_json (crates env)) (index_path env) raw = Ok ix)"

lemma reads_nodes: "fs_only (\<lambda>_. False) m \<Longrightarrow> m w = (r, w') \<Longrightarrow> nodes w' = nodes w"
  using fs_onlyD(1) by blast

lemma fs_read_Ok: "fs_read p w = (Ok bs, w') \<Longrightarrow> nodes w p = Some (FileNode bs)"
  by (auto simp: fs_read_def split: prod.splits fault.splits option.splits node.splits dest!: take_fault_nodes)

lemma template_manifest_read_Ok:
  assumes "template_manifest_read env p w = (Ok m, w')"
  shows "\<exists>raw. nodes w p = Some (FileNode raw) \<and>
    parse_with_schema_probe (template_schema_of_json (crates env)) (template_of_json (crates env)) p raw = Ok m"
  using assms by (auto simp: template_manifest_read_def result_simps wrap_io_def dest!: fs_read_Ok)

lemma ensure_body_file_Ok: "ensure_body_file p w = (Ok (), w') \<Longrightarrow> p \<noteq> [] \<Longrightarrow> is_file_node (nodes w p)"
  by (auto simp: ensure_body_file_def result_simps path_is_file_def fs_query_def is_file_node_def
    split: if_splits prod.splits fault.splits dest!: take_fault_nodes)

lemma template_size_bytes_Ok:
  assumes "template_size_bytes dir w = (Ok n, w')"
  shows "nodes w (dir @ [SNAPSHOT_MANIFEST_FILE]) \<noteq> None"
proof -
  obtain a1 w1 a2 w2 a3 w3 a4 w4 where
    "wrap_io (bp_vm_state (body_paths dir)) (fs_len (bp_vm_state (body_paths dir))) w = (Ok a1, w1)"
    "wrap_io (bp_mem (body_paths dir)) (fs_len (bp_mem (body_paths dir))) w1 = (Ok a2, w2)"
    "wrap_io (bp_manifest (body_paths dir)) (fs_len (bp_manifest (body_paths dir))) w2 = (Ok a3, w3)"
    and last: "wrap_io (dir @ [SNAPSHOT_MANIFEST_FILE]) (fs_len (dir @ [SNAPSHOT_MANIFEST_FILE])) w3 = (Ok a4, w4)"
    using assms unfolding template_size_bytes_def Let_def bind_eff_eq_Ok by blast
  then have "nodes w3 = nodes w" using reads_nodes [OF fs_only_wrap_io [OF fs_only_reads(6)]] by metis
  with last show ?thesis
    by (auto simp: wrap_io_def result_simps fs_len_def split: prod.splits fault.splits option.splits dest!: take_fault_nodes)
qed

lemma store_pin_Ok:
  assumes "store_pin env f i w = (Ok p, w')"
  shows "intact env f i (pt_manifest p) (nodes w)"
proof -
  let ?b = "body_paths (template_dir env f)"
  obtain w1 m w2 w3 w4 now w5 size w6 where
    d: "path_is_dir (template_dir env f) w = (Ok True :: (bool, template_store_error) result, w1)"
    and m: "template_manifest_read env (bp_manifest ?b) w1 = (Ok m, w2)"
    and v: "validate_manifest_identity env m f i = Ok ()"
    and b1: "ensure_body_file (bp_vm_state ?b) w2 = (Ok (), w3)"
    and b2: "ensure_body_file (bp_mem ?b) w3 = (Ok (), w4)"
    and t: "store_unix_time_ms (pins_acquire f w4) = (Ok now, w5)"
    and s: "template_size_bytes (template_dir env f) w5 = (Ok size, w6)"
    and p: "pt_manifest p = m"
    using assms by (auto simp: store_pin_def Let_def result_simps split: if_splits)
  have n: "nodes w1 = nodes w" "nodes w2 = nodes w1" "nodes w3 = nodes w2" "nodes w4 = nodes w3" "nodes w5 = nodes w4"
    using reads_nodes [OF fs_only_reads(3) d] reads_nodes [OF fs_only_store_reads(2) m]
      reads_nodes [OF fs_only_store_reads(3) b1] reads_nodes [OF fs_only_store_reads(3) b2]
      reads_nodes [OF fs_only_store_reads(4) t]
    by (simp_all add: pins_acquire_def)
  show ?thesis
    using path_is_dir_True [OF d] template_manifest_read_Ok [OF m] v ensure_body_file_Ok [OF b1]
      ensure_body_file_Ok [OF b2] template_size_bytes_Ok [OF s] n p
    by (simp add: intact_def Let_def body_paths_def)
qed

lemma calm_reads:
  assumes "faults w = []"
  shows "p \<noteq> [] \<Longrightarrow> path_is_dir p w = (Ok (nodes w p = Some DirNode), w)"
    and "p \<noteq> [] \<Longrightarrow> path_exists p w = (Ok (nodes w p \<noteq> None), w)"
    and "p \<noteq> [] \<Longrightarrow> is_file_node (nodes w p) \<Longrightarrow> ensure_body_file p w = (Ok (), w)"
    and "nodes w p = Some (FileNode raw) \<Longrightarrow> wrap_io p' (fs_read p) w = (Ok raw, w)"
    and "nodes w p \<noteq> None \<Longrightarrow> \<exists>n. wrap_io p' (fs_len p) w = (Ok n, w)"
  using assms by (auto simp: path_is_dir_def path_exists_def ensure_body_file_def bind_eff_def path_is_file_def fs_query_def
    is_file_node_def wrap_io_def map_err_def fs_read_def fs_len_def split: option.splits node.splits)

lemma calm_size:
  assumes "faults w = []" and "\<forall>n \<in> {''vm.snap'', ''mem.snap'', ''manifest.json'', SNAPSHOT_MANIFEST_FILE}. nodes w (dir @ [n]) \<noteq> None"
  shows "\<exists>n. template_size_bytes dir w = (Ok n, w)"
proof -
  have len: "\<exists>n. wrap_io p' (fs_len (dir @ [x])) w = (Ok n, w)"
    if "x \<in> {''vm.snap'', ''mem.snap'', ''manifest.json'', SNAPSHOT_MANIFEST_FILE}" for x p'
    using assms that by (intro calm_reads(5)) blast+
  obtain n1 n2 n3 n4 where
    "wrap_io (dir @ [''vm.snap'']) (fs_len (dir @ [''vm.snap''])) w = (Ok n1, w)"
    "wrap_io (dir @ [''mem.snap'']) (fs_len (dir @ [''mem.snap''])) w = (Ok n2, w)"
    "wrap_io (dir @ [''manifest.json'']) (fs_len (dir @ [''manifest.json''])) w = (Ok n3, w)"
    "wrap_io (dir @ [SNAPSHOT_MANIFEST_FILE]) (fs_len (dir @ [SNAPSHOT_MANIFEST_FILE])) w = (Ok n4, w)"
    using len by (metis insertCI)
  then show ?thesis
    by (simp add: template_size_bytes_def Let_def body_paths_def)
qed

lemma calm_time:
  assumes "faults w = []" and "\<forall>t \<in> set (clock w). 0 \<le> t"
  obtains n w' where "store_unix_time_ms w = (Ok n, w')" "nodes w' = nodes w" "faults w' = []"
    "\<forall>t \<in> set (clock w'). 0 \<le> t" "counts w' = counts w" "sequence w' = sequence w"
proof (cases "clock w")
  case Nil
  then show ?thesis using assms that [of _ w] by (simp add: store_unix_time_ms_def bind_eff_def fs_now_def)
next
  case (Cons t ts)
  then show ?thesis using assms that [of _ "w\<lparr>clock := ts\<rparr>"] by (simp add: store_unix_time_ms_def bind_eff_def fs_now_def)
qed

lemma calm_update_index:
  assumes "faults w = []" and "index_readable env (nodes w)"
  shows "\<exists>w'. update_index env e w = (Ok (), w')"
  using assms
  by (auto simp: update_index_def read_index_def write_index_def write_pretty_json_def index_readable_def bind_eff_def
    calm_reads wrap_io_def map_err_def fs_read_def fs_write_def fs_set_permissions_def)

text \<open>Without faults a pin of an intact template is as good as its update of the index.\<close>
lemma calm_pin_update:
  assumes calm: "faults w = []" "\<forall>t \<in> set (clock w). 0 \<le> t"
    and intact: "intact env f i m (nodes w)"
  obtains e w1 where "ie_fingerprint e = f" "nodes w1 = nodes w" "faults w1 = []" "\<forall>t \<in> set (clock w1). 0 \<le> t"
    "\<And>w2. update_index env e w1 = (Ok (), w2) \<Longrightarrow>
       store_pin env f i w = (Ok \<lparr>reference = f, pt_body_paths = body_paths (template_dir env f), pt_manifest = m\<rparr>, w2)"
proof -
  let ?dir = "template_dir env f"
  let ?b = "body_paths ?dir"
  have ns: "nodes w ?dir = Some DirNode" "is_file_node (nodes w (bp_vm_state ?b))" "is_file_node (nodes w (bp_mem ?b))"
    "nodes w (?dir @ [SNAPSHOT_MANIFEST_FILE]) \<noteq> None" and v: "validate_manifest_identity env m f i = Ok ()"
    using intact by (simp_all add: intact_def Let_def)
  obtain raw where raw: "nodes w (bp_manifest ?b) = Some (FileNode raw)"
    "parse_with_schema_probe (template_schema_of_json (crates env)) (template_of_json (crates env)) (bp_manifest ?b) raw = Ok m"
    using intact by (auto simp: intact_def Let_def)
  have m: "template_manifest_read env (bp_manifest ?b) w = (Ok m, w)"
    unfolding template_manifest_read_def using calm_reads(4) [OF calm(1) raw(1)] raw(2) by simp
  obtain now w1 where t: "store_unix_time_ms (pins_acquire f w) = (Ok now, w1)"
    and w1: "nodes w1 = nodes w" "faults w1 = []" "\<forall>t \<in> set (clock w1). 0 \<le> t"
  proof (rule calm_time)
    show "faults (pins_acquire f w) = []" "\<forall>t \<in> set (clock (pins_acquire f w)). 0 \<le> t"
      using calm by (simp_all add: pins_acquire_def)
  qed (auto simp: pins_acquire_def)
  have "\<forall>n \<in> {''vm.snap'', ''mem.snap'', ''manifest.json'', SNAPSHOT_MANIFEST_FILE}. nodes w1 (?dir @ [n]) \<noteq> None"
    using ns raw(1) w1(1) by (auto simp: body_paths_def is_file_node_def split: option.splits)
  from calm_size [OF w1(2) this] obtain size where s: "template_size_bytes ?dir w1 = (Ok size, w1)" by blast
  have d: "path_is_dir ?dir w = (Ok True :: (bool, template_store_error) result, w)"
    using calm_reads(1) [OF calm(1), of ?dir] ns(1) by simp
  have "bp_vm_state ?b \<noteq> []" "bp_mem ?b \<noteq> []" by (simp_all add: body_paths_def)
  then have "store_pin env f i w = (Ok \<lparr>reference = f, pt_body_paths = ?b, pt_manifest = m\<rparr>, w2)"
    if "update_index env \<lparr>ie_fingerprint = f, last_used_unix_ms = now, size_bytes = size\<rparr> w1 = (Ok (), w2)" for w2
    using v d calm_reads(3) [OF calm(1) _ ns(2)] calm_reads(3) [OF calm(1) _ ns(3)] that
    by (simp add: store_pin_def Let_def m t s with_pin_def)
  then show ?thesis
    by (intro that [of "\<lparr>ie_fingerprint = f, last_used_unix_ms = now, size_bytes = size\<rparr>" w1] w1) simp_all
qed

lemma calm_pin:
  assumes "faults w = []" "\<forall>t \<in> set (clock w). 0 \<le> t" "intact env f i m (nodes w)" "index_readable env (nodes w)"
  shows "\<exists>p w'. store_pin env f i w = (Ok p, w') \<and> pt_manifest p = m \<and> reference p = f"
proof -
  obtain e w1 where w1: "nodes w1 = nodes w" "faults w1 = []"
    and pin: "\<And>w2. update_index env e w1 = (Ok (), w2) \<Longrightarrow>
       store_pin env f i w = (Ok \<lparr>reference = f, pt_body_paths = body_paths (template_dir env f), pt_manifest = m\<rparr>, w2)"
    using calm_pin_update [OF assms(1-3)] by metis
  obtain w2 where "update_index env e w1 = (Ok (), w2)"
    using calm_update_index [of w1 env e] assms(4) w1 by auto
  from pin [OF this] show ?thesis by simp
qed

text \<open>What the file system of the index promises: \<open>serde_json\<close> reads back what it wrote, and the schema probe
  reads the same field as the full parse.\<close>
definition index_json_faithful :: "store_crates \<Rightarrow> bool" where
  "index_json_faithful cr \<longleftrightarrow>
     (\<forall>ix. index_of_json cr (index_json cr ix @ [10]) = Some ix) \<and>
     (\<forall>raw ix. index_of_json cr raw = Some ix \<longrightarrow> index_schema_of_json cr raw = Some (ix_schema_version ix))"

lemma read_index_Ok:
  assumes "read_index env w = (Ok ix, w')" and "index_json_faithful (crates env)"
  shows "ix_schema_version ix = TEMPLATE_SCHEMA_VERSION"
  using assms by (auto simp: read_index_def result_simps parse_with_schema_probe_def index_json_faithful_def split: if_splits)

lemma parse_index_json:
  assumes "index_json_faithful (crates env)" and "ix_schema_version ix = TEMPLATE_SCHEMA_VERSION"
  shows "parse_with_schema_probe (index_schema_of_json (crates env)) (index_of_json (crates env)) p
    (index_json (crates env) ix @ [10]) = Ok ix"
  using assms by (simp add: parse_with_schema_probe_def index_json_faithful_def)

lemma fs_write_Ok:
  "fs_write p bs w = (Ok (), w') \<Longrightarrow>
     parent_is_dir (nodes w) p \<and> nodes w' = (nodes w)(p \<mapsto> FileNode bs) \<and> faults w' = tl (faults w) \<and> clock w' = clock w"
  by (auto simp: fs_write_def take_fault_def split: fault.splits list.splits if_splits)

lemma write_index_Ok:
  assumes "write_index env ix w = (Ok (), w')"
  shows "nodes w' = (nodes w)(index_path env \<mapsto> FileNode (index_json (crates env) ix @ [10]))"
    and "parent_is_dir (nodes w') (index_path env)"
proof -
  obtain w1 where w: "fs_write (index_path env) (index_json (crates env) ix @ [10]) w = (Ok (), w1)"
    and p: "wrap_io (index_path env) (fs_set_permissions (index_path env)) w1 = (Ok (), w')"
    using assms by (auto simp: write_index_def write_pretty_json_def result_simps wrap_io_def)
  show n: "nodes w' = (nodes w)(index_path env \<mapsto> FileNode (index_json (crates env) ix @ [10]))"
    using fs_write_Ok [OF w] reads_nodes [OF fs_only_wrap_io [OF fs_only_reads(8)] p] by simp
  show "parent_is_dir (nodes w') (index_path env)"
    using fs_write_Ok [OF w] unfolding n by (auto simp: parent_is_dir_def index_path_def)
qed

lemma evict_lru_index_readable:
  assumes "evict_lru_to_capacity env w = (Ok n, w')" and json: "index_json_faithful (crates env)"
  shows "index_readable env (nodes w')"
proof -
  obtain ix w1 es w2 where r: "read_index env w = (Ok ix, w1)" and w: "write_index env (ix\<lparr>entries := es\<rparr>) w2 = (Ok (), w')"
    using assms(1) by (auto simp: evict_lru_to_capacity_def result_simps)
  have "parse_with_schema_probe (index_schema_of_json (crates env)) (index_of_json (crates env)) (index_path env)
    (index_json (crates env) (ix\<lparr>entries := es\<rparr>) @ [10]) = Ok (ix\<lparr>entries := es\<rparr>)"
    by (rule parse_index_json [OF json]) (simp add: read_index_Ok [OF r json])
  with write_index_Ok [OF w] show ?thesis by (simp add: index_readable_def)
qed

lemma intact_cong:
  assumes "\<And>q. under (template_dir env f) q \<Longrightarrow> ns q = ns' q"
  shows "intact env f i m ns \<longleftrightarrow> intact env f i m ns'"
proof -
  have "ns (template_dir env f @ q) = ns' (template_dir env f @ q)" for q using assms by simp
  from this [of "[]"] this show ?thesis by (simp add: intact_def Let_def body_paths_def)
qed

lemma reserved_fingerprint:
  "store_reserve env i l w = (Ok p, w') \<Longrightarrow>
     plan_fingerprint p = fingerprint_compute (digests (crates env)) i \<and> plan_inputs p = i"
  by (auto simp: store_reserve_def Let_def result_simps split: if_splits)

lemma commit_then_lookup:
  assumes "store_reserve env i l w0 = (Ok plan, w1)" and commit: "store_commit env plan w = (Ok p, w')"
    and hex: "hex_laws (digests (crates env))" and json: "index_json_faithful (crates env)"
    and pos: "\<forall>f. counts w f \<noteq> Some 0" and calm: "faults w' = []" "\<forall>t \<in> set (clock w'). 0 \<le> t"
  shows "\<exists>p' w''. store_lookup env i w' = (Ok (Some p'), w'') \<and> pt_manifest p' = pt_manifest p \<and>
     reference p' = fingerprint_compute (digests (crates env)) i"
proof -
  let ?f = "fingerprint_compute (digests (crates env)) i"
  note plan = reserved_fingerprint [OF assms(1)] reserved_in_staging [OF assms(1)]
  obtain w2 w3 n where pin: "store_pin env ?f i w2 = (Ok p, w3)" and evict: "evict_lru_to_capacity env w3 = (Ok n, w')"
    and c: "counts w2 = counts w"
    using store_commit_Ok [OF commit hex plan(2)] plan(1) by metis
  have "counts_positive (counts w2)" using pos c by (simp add: counts_positive_def)
  note tree = pin_evict_tree [OF pin evict this hex]
  then have "intact env ?f i (pt_manifest p) (nodes w')"
    using store_pin_Ok [OF pin] intact_cong by blast
  from calm_pin [OF calm this evict_lru_index_readable [OF evict json]]
  obtain p' w'' where p': "store_pin env ?f i w' = (Ok p', w'')" "pt_manifest p' = pt_manifest p" "reference p' = ?f"
    by blast
  have "path_exists (template_dir env ?f) w' = (Ok True :: (bool, template_store_error) result, w')"
    using calm_reads(2) [OF calm(1), of "template_dir env ?f"] tree [OF under_refl] store_pin_found [OF pin] by simp
  then have "store_lookup env i w' = (Ok (Some p'), w'')"
    using p' by (simp add: store_lookup_def Let_def)
  with p' show ?thesis by blast
qed

text \<open>C39: a template that was reserved and committed is found by the next look-up of the same inputs, with the
  manifest the commit returned: the eviction that ends the commit never takes it, whatever else is in the
  index and whatever faults the commit survived.\<close>
theorem committed_template_found:
  assumes "store_reserve env i l w0 = (Ok plan, w1)" and commit: "store_commit env plan w = (Ok p, w')"
    and hex: "hex_laws (digests (crates env))" and json: "index_json_faithful (crates env)"
    and pos: "\<forall>f. counts w f \<noteq> Some 0" and calm: "faults w' = []" "\<forall>t \<in> set (clock w'). 0 \<le> t"
  shows "\<exists>p' w''. store_lookup env i w' = (Ok (Some p'), w'') \<and> pt_manifest p' = pt_manifest p \<and>
     reference p' = fingerprint_compute (digests (crates env)) i"
  by (rule commit_then_lookup [OF assms])

end
