(* ===== verification/Template_Eviction.thy ===== *)
theory Template_Eviction
  imports Template_Store_Properties
begin

text \<open>
  The least-recently-used eviction of the template store: what it removes, what it keeps and when it
  gives up; and what a look-up promises about the template it returns.
\<close>

subsection \<open>The candidate\<close>

lemma min_by_key_None: "min_by_key key xs = None \<longleftrightarrow> xs = []"
  by (cases xs) (auto split: option.splits)

lemma min_by_key_least: "min_by_key key xs = Some x \<Longrightarrow> y \<in> set xs \<Longrightarrow> key x \<le> key y"
proof (induction xs arbitrary: x)
  case (Cons a xs)
  then show ?case
    by (cases "min_by_key key xs") (auto simp: min_by_key_None split: if_splits intro: order_trans less_imp_le)
qed simp

lemma lru_candidate_None:
  assumes "lru_candidate w es = None" and "e \<in> set es"
  shows "is_pinned (ie_fingerprint e) w"
  using assms by (auto simp: lru_candidate_def min_by_key_None filter_empty_conv in_set_conv_nth)

lemma lru_candidate_least:
  assumes "lru_candidate w es = Some i" and "e \<in> set es" and "\<not> is_pinned (ie_fingerprint e) w"
  shows "last_used_unix_ms (es ! i) \<le> last_used_unix_ms e"
  using assms by (auto simp: lru_candidate_def in_set_conv_nth word_le_nat_alt dest!: min_by_key_least)

subsection \<open>One removal\<close>

lemma remove_template_dir_counts: "remove_template_dir env f w = (r, w') \<Longrightarrow> counts w' = counts w"
  using fs_onlyD(2) [OF fs_only_remove_template_dir] more_counts by blast

lemma remove_template_dir_gone:
  assumes "remove_template_dir env f w = (Ok (), w')"
  shows "nodes w' (template_dir env f) = None"
  using assms by (auto simp: remove_template_dir_def fs_remove_dir_all_def
    split: prod.splits result.splits option.splits node.splits fault.splits if_splits dest!: take_fault_nodes)

lemma remove_template_dir_shrinks:
  assumes "remove_template_dir env f w = (r, w')" and "nodes w q = None"
  shows "nodes w' q = None"
  using assms by (auto simp: remove_template_dir_def fs_remove_dir_all_def
    split: prod.splits result.splits option.splits node.splits fault.splits if_splits dest!: take_fault_nodes)

lemma take_drop_split: "i < length es \<Longrightarrow> mset es = add_mset (es ! i) (mset (take i es @ drop (Suc i) es))"
  by (metis id_take_nth_drop mset.simps(2) mset_append union_mset_add_mset_right)

lemma subseq_set: "subseq xs ys \<Longrightarrow> set xs \<subseteq> set ys"
  by (auto elim: list_emb_set)

lemma subseq_without_nth: "subseq (take i es @ drop (Suc i) es) es"
proof (induction es arbitrary: i)
  case (Cons e es)
  then show ?case by (cases i) auto
qed simp

subsection \<open>The loop\<close>

text \<open>What \<open>evict_lru_loop\<close> took out (\<open>out\<close>) and kept.\<close>
definition lru_outcome :: "store_env \<Rightarrow> store_world \<Rightarrow> index_entry list \<Rightarrow> nat \<Rightarrow> index_entry list \<Rightarrow> store_world \<Rightarrow> bool" where
  "lru_outcome env w es k kept w' \<longleftrightarrow>
     (\<exists>out. mset es = mset kept + mset out \<and> length out = k \<and> subseq kept es \<and>
        (\<forall>x \<in> set out. \<not> is_pinned (ie_fingerprint x) w \<and> nodes w' (template_dir env (ie_fingerprint x)) = None \<and>
           (\<forall>y \<in> set kept. \<not> is_pinned (ie_fingerprint y) w \<longrightarrow> last_used_unix_ms x \<le> last_used_unix_ms y)))"

lemma evict_lru_loop_shrinks: "evict_lru_loop env n es w = (r, w') \<Longrightarrow> nodes w q = None \<Longrightarrow> nodes w' q = None"
proof (induction env n es w rule: evict_lru_loop.induct)
  case (1 env n es w)
  show ?case
    using 1(2,3) by (subst (asm) evict_lru_loop.simps)
      (auto split: if_splits option.splits prod.splits result.splits intro: 1(1) dest: remove_template_dir_shrinks)
qed

lemma evict_lru_loop_Ok:
  "evict_lru_loop env n es w = (Ok (n', kept), w') \<Longrightarrow>
     lru_outcome env w es (n' - n) kept w' \<and> n \<le> n' \<and> n' - n = length es - capacity env"
proof (induction env n es w rule: evict_lru_loop.induct)
  case (1 env n es w)
  show ?case
  proof (cases "capacity env < length es")
    case False
    with 1(2) have "n' = n" "kept = es" "w' = w" by (simp_all add: evict_lru_loop.simps [of env n es w])
    with False show ?thesis by (simp add: lru_outcome_def)
  next
    case True
    then obtain i w1 where i: "lru_candidate w es = Some i"
      and rm: "remove_template_dir env (ie_fingerprint (es ! i)) w = (Ok (), w1)"
      and rest: "evict_lru_loop env (n + 1) (take i es @ drop (Suc i) es) w1 = (Ok (n', kept), w')"
      using 1(2) by (auto simp: evict_lru_loop.simps [of env n es w] split: option.splits prod.splits result.splits)
    note il = lru_candidate_less [OF i]
    from 1(1) [OF True i rm [symmetric] refl rest] obtain out where out:
      "mset (take i es @ drop (Suc i) es) = mset kept + mset out" "length out = n' - (n + 1)" "n + 1 \<le> n'"
      "subseq kept (take i es @ drop (Suc i) es)" "n' - (n + 1) = length es - 1 - capacity env"
      "\<forall>x \<in> set out. \<not> is_pinned (ie_fingerprint x) w1 \<and> nodes w' (template_dir env (ie_fingerprint x)) = None \<and>
           (\<forall>y \<in> set kept. \<not> is_pinned (ie_fingerprint y) w1 \<longrightarrow> last_used_unix_ms x \<le> last_used_unix_ms y)"
      using il by (auto simp: lru_outcome_def)
    have c: "is_pinned f w1 \<longleftrightarrow> is_pinned f w" for f
      using remove_template_dir_counts [OF rm] by (simp add: is_pinned_def)
    have "nodes w' (template_dir env (ie_fingerprint (es ! i))) = None"
      using evict_lru_loop_shrinks [OF rest remove_template_dir_gone [OF rm]] .
    moreover have "\<forall>y \<in> set kept. \<not> is_pinned (ie_fingerprint y) w \<longrightarrow> last_used_unix_ms (es ! i) \<le> last_used_unix_ms y"
      using lru_candidate_least [OF i] subseq_set [OF subseq_order.trans [OF out(4) subseq_without_nth]] by blast
    ultimately have "lru_outcome env w es (Suc (length out)) kept w'"
      using out(1,4,6) take_drop_split [OF il] lru_candidate_unpinned [OF i] subseq_without_nth [of i es]
      unfolding lru_outcome_def c
      by (intro exI [of _ "es ! i # out"]) (auto intro: subseq_order.trans)
    moreover have "Suc (length out) = n' - n" using out(2,3) by simp
    ultimately show ?thesis using out(2,3,5) True by simp
  qed
qed

lemma evict_lru_loop_pinned:
  "evict_lru_loop env n es w = (Err AllCandidatesPinned, w') \<Longrightarrow>
     capacity env < length (filter (\<lambda>e. is_pinned (ie_fingerprint e) w) es)"
proof (induction env n es w rule: evict_lru_loop.induct)
  case (1 env n es w)
  then have True: "capacity env < length es"
    by (auto simp: evict_lru_loop.simps [of env n es w] split: if_splits)
  show ?case
  proof (cases "lru_candidate w es")
    case None
    then have "filter (\<lambda>e. is_pinned (ie_fingerprint e) w) es = es"
      using lru_candidate_None by (simp add: filter_id_conv)
    with True show ?thesis by simp
  next
    case (Some i)
    have "remove_template_dir env f w \<noteq> (Err AllCandidatesPinned, w')" for f w'
      by (auto simp: remove_template_dir_def split: prod.splits result.splits)
    then obtain w1 where rm: "remove_template_dir env (ie_fingerprint (es ! i)) w = (Ok (), w1)"
      and rest: "evict_lru_loop env (n + 1) (take i es @ drop (Suc i) es) w1 = (Err AllCandidatesPinned, w')"
      using 1(2) True Some by (auto simp: evict_lru_loop.simps [of env n es w] split: prod.splits result.splits)
    have "length (filter P (take i es @ drop (Suc i) es)) \<le> length (filter P es)" for P
      using subseq_without_nth [of i es] by (intro list_emb_length [OF subseq_filter])
    with 1(1) [OF True Some rm [symmetric] refl rest] remove_template_dir_counts [OF rm] show ?thesis
      by (simp add: is_pinned_def) (meson less_le_trans)
  qed
qed

subsection \<open>Eviction to capacity\<close>

lemma read_index_counts: "read_index env w = (r, w') \<Longrightarrow> counts w' = counts w \<and> nodes w' = nodes w"
  using fs_onlyD [OF fs_only_store_reads(1) [of "\<lambda>_. False"]] more_counts by blast

lemma evict_lru_to_capacity_cases:
  assumes "read_index env w = (Ok ix, w0)" and "evict_lru_to_capacity env w = (r, w')"
  shows "r = Ok n \<Longrightarrow> \<exists>kept w1. evict_lru_loop env 0 (entries ix) w0 = (Ok (n, kept), w1) \<and>
      write_index env (ix\<lparr>entries := kept\<rparr>) w1 = (Ok (), w')"
    and "r = Err AllCandidatesPinned \<Longrightarrow> evict_lru_loop env 0 (entries ix) w0 = (Err AllCandidatesPinned, w')"
proof -
  show "\<exists>kept w1. evict_lru_loop env 0 (entries ix) w0 = (Ok (n, kept), w1) \<and>
      write_index env (ix\<lparr>entries := kept\<rparr>) w1 = (Ok (), w')" if "r = Ok n"
    using assms that by (auto simp: evict_lru_to_capacity_def result_simps)
  show "evict_lru_loop env 0 (entries ix) w0 = (Err AllCandidatesPinned, w')" if "r = Err AllCandidatesPinned"
  proof (cases "evict_lru_loop env 0 (entries ix) w0")
    case (Pair l w1)
    have "write_index env x w1 \<noteq> (Err AllCandidatesPinned, w2)" for x w2
      by (auto simp: write_index_def write_pretty_json_def wrap_io_def map_err_def bind_eff_def split: prod.splits result.splits)
    with Pair assms that show ?thesis
      by (cases l) (auto simp: evict_lru_to_capacity_def bind_eff_def split: prod.splits result.splits)
  qed
qed

text \<open>C40: a successful eviction to capacity removes exactly the surplus and records it: the index keeps at most
  \<open>capacity\<close> entries, in order; each removed template was unpinned, its directory is gone, and it was last used
  no later than any unpinned template that stays. It gives up with \<open>AllCandidatesPinned\<close> only when the pinned
  entries alone exceed the capacity.\<close>
theorem evict_lru_removes_least_recently_used:
  assumes "read_index env w = (Ok ix, w0)" and "evict_lru_to_capacity env w = (r, w')"
  shows "(r = Ok n \<longrightarrow>
      (\<exists>kept out. nodes w' (index_path env) = Some (FileNode (index_json (crates env) (ix\<lparr>entries := kept\<rparr>) @ [10])) \<and>
         mset (entries ix) = mset kept + mset out \<and> subseq kept (entries ix) \<and>
         n = length out \<and> n = length (entries ix) - capacity env \<and>
         (\<forall>x \<in> set out. \<not> is_pinned (ie_fingerprint x) w \<and> nodes w' (template_dir env (ie_fingerprint x)) = None \<and>
            (\<forall>y \<in> set kept. \<not> is_pinned (ie_fingerprint y) w \<longrightarrow> last_used_unix_ms x \<le> last_used_unix_ms y)))) \<and>
    (r = Err AllCandidatesPinned \<longrightarrow>
      capacity env < length (filter (\<lambda>e. is_pinned (ie_fingerprint e) w) (entries ix)))"
proof (intro conjI impI)
  have c: "is_pinned f w0 \<longleftrightarrow> is_pinned f w" for f
    using read_index_counts [OF assms(1)] by (simp add: is_pinned_def)
  show "capacity env < length (filter (\<lambda>e. is_pinned (ie_fingerprint e) w) (entries ix))" if "r = Err AllCandidatesPinned"
    using evict_lru_loop_pinned [OF evict_lru_to_capacity_cases(2) [OF assms that]] by (simp add: c)
  assume "r = Ok n"
  from evict_lru_to_capacity_cases(1) [OF assms this] obtain kept w1
    where loop: "evict_lru_loop env 0 (entries ix) w0 = (Ok (n, kept), w1)"
      and recorded: "write_index env (ix\<lparr>entries := kept\<rparr>) w1 = (Ok (), w')" by blast
  note nodes = write_index_Ok(1) [OF recorded]
  have ne: "template_dir env f \<noteq> index_path env" for f using template_dir_elsewhere(1) [OF under_refl] .
  from evict_lru_loop_Ok [OF loop] obtain out where "mset (entries ix) = mset kept + mset out" "length out = n"
    "subseq kept (entries ix)" "n = length (entries ix) - capacity env"
    "\<forall>x \<in> set out. \<not> is_pinned (ie_fingerprint x) w \<and> nodes w1 (template_dir env (ie_fingerprint x)) = None \<and>
      (\<forall>y \<in> set kept. \<not> is_pinned (ie_fingerprint y) w \<longrightarrow> last_used_unix_ms x \<le> last_used_unix_ms y)"
    by (auto simp: lru_outcome_def c)
  then show "\<exists>kept out. nodes w' (index_path env) = Some (FileNode (index_json (crates env) (ix\<lparr>entries := kept\<rparr>) @ [10])) \<and>
         mset (entries ix) = mset kept + mset out \<and> subseq kept (entries ix) \<and>
         n = length out \<and> n = length (entries ix) - capacity env \<and>
         (\<forall>x \<in> set out. \<not> is_pinned (ie_fingerprint x) w \<and> nodes w' (template_dir env (ie_fingerprint x)) = None \<and>
            (\<forall>y \<in> set kept. \<not> is_pinned (ie_fingerprint y) w \<longrightarrow> last_used_unix_ms x \<le> last_used_unix_ms y))"
    unfolding nodes using ne by (intro exI [of _ kept] exI [of _ out]) simp
qed

subsection \<open>What a look-up returns\<close>

lemma validate_manifest_identity_Ok:
  "validate_manifest_identity env m f i = Ok () \<longleftrightarrow>
     tm_fingerprint m = f \<and> fingerprint_compute (digests (crates env)) (tm_inputs m) = f \<and>
     fingerprint_compute (digests (crates env)) i = f \<and>
     sm_schema_version (tm_snapshot_manifest m) = SNAPSHOT_SCHEMA_VERSION \<and>
     sm_expected_firecracker_version (tm_snapshot_manifest m) = firecracker_version (tm_inputs m)"
  by (auto simp: validate_manifest_identity_def Let_def)

text \<open>a look-up hands out only a template built from the very inputs asked for: unless SHA-256 collides on
  the two, the host kernel, Firecracker, guest kernel, post-init state, hooks and canonical pmem layers of the
  stored template are those of the request, and so is the Firecracker version of its snapshot manifest.\<close>
theorem looked_up_template_matches_inputs:
  assumes "store_lookup env i w = (Ok (Some p), w')"
    and "inputs_fit i" and "inputs_fit (tm_inputs (pt_manifest p))"
    and "dg_sha256 (digests (crates env)) (fingerprint_bytes (tm_inputs (pt_manifest p))) =
        dg_sha256 (digests (crates env)) (fingerprint_bytes i) \<Longrightarrow>
      fingerprint_bytes (tm_inputs (pt_manifest p)) = fingerprint_bytes i"
  shows "tm_fingerprint (pt_manifest p) = fingerprint_compute (digests (crates env)) i \<and>
     host_kernel_version (tm_inputs (pt_manifest p)) = host_kernel_version i \<and>
     firecracker_version (tm_inputs (pt_manifest p)) = firecracker_version i \<and>
     sm_expected_firecracker_version (tm_snapshot_manifest (pt_manifest p)) = firecracker_version i \<and>
     guest_kernel_digest (tm_inputs (pt_manifest p)) = guest_kernel_digest i \<and>
     post_init_state_digest (tm_inputs (pt_manifest p)) = post_init_state_digest i \<and>
     set_digest (hook_set (tm_inputs (pt_manifest p))) = set_digest (hook_set i) \<and>
     sort_key canonical_key (pmem_image_digest_set (tm_inputs (pt_manifest p))) =
       sort_key canonical_key (pmem_image_digest_set i)"
proof -
  obtain w1 where "store_pin env (fingerprint_compute (digests (crates env)) i) i w1 = (Ok p, w')"
    using store_lookup_Some [OF assms(1)] by metis
  from store_pin_Ok [OF this] have v: "validate_manifest_identity env (pt_manifest p) (fingerprint_compute (digests (crates env)) i) i = Ok ()"
    by (simp add: intact_def Let_def)
  then have "fingerprint_bytes (tm_inputs (pt_manifest p)) = fingerprint_bytes i"
    using assms(4) by (simp add: validate_manifest_identity_Ok fingerprint_compute_def)
  with v show ?thesis
    by (simp add: validate_manifest_identity_Ok fingerprint_bytes_inj [OF assms(3,2)])
qed

end
