(* ===== verification/Template_Commit.thy ===== *)
theory Template_Commit
  imports Template_Eviction "HOL-Library.Countable"
begin

text \<open>
  A commit without I/O faults: it succeeds and leaves a template that a look-up finds. The theory ends with
  a concrete store, on which the properties of the store are exercised.
\<close>

subsection \<open>Calls without faults\<close>

lemma moved_other [simp]: "\<not> under a q \<Longrightarrow> \<not> under b q \<Longrightarrow> moved a b ns q = ns q"
  by (simp add: moved_def)

lemma moved_to [simp]: "moved a b ns (b @ r) = ns (a @ r)"
  by (simp add: moved_def)

lemma moved_to0 [simp]: "moved a b ns b = ns a"
  using moved_to [of a b ns "[]"] by simp

lemma under_sibling [simp]: "under (dir @ [x]) (dir @ y # q) \<longleftrightarrow> x = y"
  by (auto simp: under_iff)

lemma under_longer [simp]: "\<not> under (dir @ [x]) dir"
  by (auto simp: under_iff)

lemma calm_write_then_rename:
  assumes "faults w = []" and "nodes w dir = Some DirNode" and "dir \<noteq> []"
    and "nodes w (dir @ [name]) = None" and "nodes w (dir @ [tmp_name name (sequence w)]) = None"
  shows "\<exists>w'. write_then_rename j dir name w = (Ok (), w') \<and> faults w' = [] \<and> clock w' = clock w \<and>
     counts w' = counts w \<and> sequence w' = sequence w + 1 \<and> nodes w' (dir @ [name]) = Some (FileNode (j @ [10])) \<and>
     (\<forall>q. \<not> under (dir @ [name]) q \<and> \<not> under (dir @ [tmp_name name (sequence w)]) q \<longrightarrow> nodes w' q = nodes w q)"
proof -
  have [simp]: "name \<noteq> tmp_name name n" "tmp_name name n \<noteq> name" for n by (simp_all add: tmp_name_def)
  let ?tmp = "dir @ [tmp_name name (sequence w)]" and ?target = "dir @ [name]"
  let ?ns = "(nodes w)(?tmp \<mapsto> FileNode (j @ [10]))"
  have "parent_is_dir (nodes w) ?tmp" "parent_is_dir ?ns ?target"
    using assms(2,3) by (simp_all add: parent_is_dir_def)
  then have "write_then_rename j dir name w = (Ok (), w\<lparr>sequence := sequence w + 1, nodes := moved ?tmp ?target ?ns\<rparr>)"
    using assms
    by (simp add: write_then_rename_def write_pretty_json_def Let_def next_sequence_def bind_eff_def wrap_io_def map_err_def
      fs_write_def fs_set_permissions_def fs_rename_def)
  moreover have "moved ?tmp ?target ?ns q = nodes w q" if "\<not> under ?target q" "\<not> under ?tmp q" for q
    using that by auto
  ultimately show ?thesis using assms(1) by simp
qed

lemma bind_eff_False: "m w = (Ok False, w') \<Longrightarrow> bind_eff m f w = f False w'"
  by simp

lemma calm_build_snapshot_manifest:
  assumes "faults w = []" "\<forall>t \<in> set (clock w). 0 \<le> t" "is_file_node (nodes w (sp_mem from))" "is_file_node (nodes w (sp_vm_state from))"
  obtains sm w' where "build_snapshot_manifest env from recorded v w = (Ok sm, w')" "nodes w' = nodes w" "faults w' = []"
    "\<forall>t \<in> set (clock w'). 0 \<le> t" "counts w' = counts w" "sequence w' = sequence w"
    "sm_schema_version sm = SNAPSHOT_SCHEMA_VERSION" "sm_expected_firecracker_version sm = v"
proof -
  have "\<exists>a. store_artifact_for_path env k p r w = (Ok a, w)" if "is_file_node (nodes w p)" for k p r
    using that calm_reads(4) [OF assms(1)]
    by (auto simp: is_file_node_def store_artifact_for_path_def split: option.splits node.splits)
  then obtain a b where "store_artifact_for_path env Memory (sp_mem from) (sp_mem recorded) w = (Ok a, w)"
    "store_artifact_for_path env VmStateFile (sp_vm_state from) (sp_vm_state recorded) w = (Ok b, w)"
    using assms(3,4) by metis
  moreover obtain n w' where "store_unix_time_ms w = (Ok n, w')" "nodes w' = nodes w" "faults w' = []"
    "\<forall>t \<in> set (clock w'). 0 \<le> t" "counts w' = counts w" "sequence w' = sequence w"
    using calm_time [OF assms(1,2)] by metis
  ultimately show ?thesis
    by (intro that [of "\<lparr>artifact_set_sha256_hex = sn_hex (snapshots (crates env)) (artifact_set_sha256 (snapshots (crates env)) [a, b]),
      artifacts = [a, b], created_at_unix_ms = n, sm_expected_firecracker_version = v,
      sm_schema_version = SNAPSHOT_SCHEMA_VERSION\<rparr>" w']) (simp_all add: build_snapshot_manifest_def)
qed

lemma calm_commit_rename:
  assumes "faults w = []" and "nodes w a = Some DirNode" and "nodes w b = None" and "parent_is_dir (nodes w) b" and "\<not> under a b"
  shows "\<exists>w'. wrap_io p (fs_rename a b) w = (Ok (), w') \<and> w' = w\<lparr>nodes := moved a b (nodes w)\<rparr>"
  using assms by (auto simp: wrap_io_def map_err_def fs_rename_def)

definition index_is :: "store_env \<Rightarrow> (fpath \<Rightarrow> node option) \<Rightarrow> template_index \<Rightarrow> bool" where
  "index_is env ns ix \<longleftrightarrow> parent_is_dir ns (index_path env) \<and>
     (\<exists>raw. ns (index_path env) = Some (FileNode raw) \<and>
        parse_with_schema_probe (index_schema_of_json (crates env)) (index_of_json (crates env)) (index_path env) raw = Ok ix)"

lemma calm_read_index: "faults w = [] \<Longrightarrow> index_is env (nodes w) ix \<Longrightarrow> read_index env w = (Ok ix, w)"
  unfolding read_index_def index_is_def using calm_reads(4) by fastforce

lemma index_is_schema: "index_is env ns ix \<Longrightarrow> index_json_faithful (crates env) \<Longrightarrow> ix_schema_version ix = TEMPLATE_SCHEMA_VERSION"
  by (auto simp: index_is_def result_simps parse_with_schema_probe_def index_json_faithful_def split: if_splits)

lemma calm_write_index:
  assumes "faults w = []" and "index_is env (nodes w) ix" and "index_json_faithful (crates env)"
    and "ix_schema_version ix' = TEMPLATE_SCHEMA_VERSION"
  defines "ns \<equiv> (nodes w)(index_path env \<mapsto> FileNode (index_json (crates env) ix' @ [10]))"
  shows "write_index env ix' w = (Ok (), w\<lparr>nodes := ns\<rparr>)" and "index_is env ns ix'"
proof -
  have p: "parent_is_dir (nodes w) (index_path env)" "nodes w (index_path env) \<noteq> Some DirNode"
    using assms(2) by (auto simp: index_is_def)
  then show "write_index env ix' w = (Ok (), w\<lparr>nodes := ns\<rparr>)"
    using assms(1) by (simp add: write_index_def write_pretty_json_def bind_eff_def wrap_io_def map_err_def fs_write_def
      fs_set_permissions_def ns_def)
  have "parent_is_dir ns (index_path env)"
    using p(1) by (auto simp: ns_def parent_is_dir_def index_path_def)
  with parse_index_json [OF assms(3,4)] show "index_is env ns ix'"
    by (simp add: index_is_def ns_def)
qed

lemma calm_update:
  assumes "faults w = []" and "index_is env (nodes w) ix" and "index_json_faithful (crates env)"
  obtains w' where "update_index env e w = (Ok (), w')" "index_is env (nodes w') (index_upsert e ix)"
    "\<forall>q. q \<noteq> index_path env \<longrightarrow> nodes w' q = nodes w q" "faults w' = []" "clock w' = clock w"
proof -
  have "ix_schema_version (index_upsert e ix) = TEMPLATE_SCHEMA_VERSION"
    using index_is_schema [OF assms(2,3)] by (simp add: index_upsert_def)
  from calm_write_index [OF assms this] calm_read_index [OF assms(1,2)] assms(1) show ?thesis
    by (intro that [of "w\<lparr>nodes := (nodes w)(index_path env \<mapsto>
      FileNode (index_json (crates env) (index_upsert e ix) @ [10]))\<rparr>"]) (simp_all add: update_index_def)
qed

lemma calm_pin_index:
  assumes calm: "faults w = []" "\<forall>t \<in> set (clock w). 0 \<le> t"
    and intact: "intact env f i m (nodes w)" and index: "index_is env (nodes w) ix" and json: "index_json_faithful (crates env)"
  obtains p w' e where "store_pin env f i w = (Ok p, w')" "pt_manifest p = m" "reference p = f"
    "index_is env (nodes w') (index_upsert e ix)" "ie_fingerprint e = f" "faults w' = []" "\<forall>t \<in> set (clock w'). 0 \<le> t"
    "\<forall>q. q \<noteq> index_path env \<longrightarrow> nodes w' q = nodes w q"
proof -
  obtain e w1 where e: "ie_fingerprint e = f" and w1: "nodes w1 = nodes w" "faults w1 = []" "\<forall>t \<in> set (clock w1). 0 \<le> t"
    and pin: "\<And>w2. update_index env e w1 = (Ok (), w2) \<Longrightarrow>
       store_pin env f i w = (Ok \<lparr>reference = f, pt_body_paths = body_paths (template_dir env f), pt_manifest = m\<rparr>, w2)"
    using calm_pin_update [OF calm intact] by metis
  from index w1 have "index_is env (nodes w1) ix" by simp
  from calm_update [OF w1(2) this json, of e] show ?thesis
    by (metis that [OF pin] e w1 pinned_template.select_convs)
qed

lemma length_upsert:
  "length (upsert_entry e es) = (if ie_fingerprint e \<in> ie_fingerprint ` set es then length es else Suc (length es))"
  "ie_fingerprint ` set (upsert_entry e es) = insert (ie_fingerprint e) (ie_fingerprint ` set es)"
  by (induction es) auto

lemma calm_evict_nothing:
  assumes "faults w = []" and "index_is env (nodes w) ix" and "index_json_faithful (crates env)" and "length (entries ix) \<le> capacity env"
  obtains w' where "evict_lru_to_capacity env w = (Ok 0, w')" "faults w' = []" "clock w' = clock w"
    "\<forall>q. q \<noteq> index_path env \<longrightarrow> nodes w' q = nodes w q"
  using calm_read_index [OF assms(1,2)] calm_write_index [OF assms(1-3), of ix] index_is_schema [OF assms(2,3)] assms(1,4)
  by (intro that [of "w\<lparr>nodes := (nodes w)(index_path env \<mapsto> FileNode (index_json (crates env) ix @ [10]))\<rparr>"])
    (simp_all add: evict_lru_to_capacity_def evict_lru_loop.simps)

subsection \<open>Two users of one index\<close>

text \<open>The read and the write of \<open>update_index\<close> hold no lock: when two threads read before either writes, the
  entry of the first is gone from the index, although both calls succeeded and its template is committed.\<close>
lemma interleaved_update_loses_entry:
  assumes calm: "faults w = []" and index: "index_is env (nodes w) ix" and json: "index_json_faithful (crates env)"
    and new: "ie_fingerprint a \<notin> ie_fingerprint ` set (entries ix)" and "ie_fingerprint a \<noteq> ie_fingerprint b"
  shows "\<exists>w1 w2 ix'. read_index env w = (Ok ix, w) \<and> write_index env (index_upsert a ix) w = (Ok (), w1) \<and>
     write_index env (index_upsert b ix) w1 = (Ok (), w2) \<and> read_index env w2 = (Ok ix', w2) \<and>
     ie_fingerprint a \<notin> ie_fingerprint ` set (entries ix')"
proof -
  have v: "ix_schema_version (index_upsert e ix) = TEMPLATE_SCHEMA_VERSION" for e
    using index_is_schema [OF index json] by (simp add: index_upsert_def)
  let ?w1 = "w\<lparr>nodes := (nodes w)(index_path env \<mapsto> FileNode (index_json (crates env) (index_upsert a ix) @ [10]))\<rparr>"
  note first = calm_write_index [OF calm index json v [of a]]
  have f1: "faults ?w1 = []" "index_is env (nodes ?w1) (index_upsert a ix)" using calm first(2) by simp_all
  note second = calm_write_index [OF f1 json v [of b]]
  let ?w2 = "?w1\<lparr>nodes := (nodes ?w1)(index_path env \<mapsto> FileNode (index_json (crates env) (index_upsert b ix) @ [10]))\<rparr>"
  have "read_index env ?w2 = (Ok (index_upsert b ix), ?w2)"
    by (rule calm_read_index) (use calm second(2) in simp_all)
  moreover have "ie_fingerprint a \<notin> ie_fingerprint ` set (entries (index_upsert b ix))"
    using new assms(5) by (simp add: index_upsert_def length_upsert)
  ultimately show ?thesis
    using calm_read_index [OF calm index] first(1) second(1) by blast
qed

subsection \<open>Commit\<close>

text \<open>\<open>serde_json\<close> reads back the manifest a plan gives.\<close>
definition template_json_faithful :: "store_crates \<Rightarrow> template_build_plan \<Rightarrow> bool" where
  "template_json_faithful cr plan \<longleftrightarrow>
     (\<forall>m. tm_fingerprint m = plan_fingerprint plan \<and> tm_inputs m = plan_inputs plan \<and>
          tm_restore_layout m = plan_restore_layout plan \<and> tm_schema_version m = TEMPLATE_SCHEMA_VERSION \<longrightarrow>
        template_of_json cr (template_json cr m @ [10]) = Some m \<and>
        template_schema_of_json cr (template_json cr m @ [10]) = Some TEMPLATE_SCHEMA_VERSION)"

text \<open>A reservation whose builder has written the two bodies and nothing else.\<close>
definition staged :: "store_env \<Rightarrow> template_build_plan \<Rightarrow> (fpath \<Rightarrow> node option) \<Rightarrow> bool" where
  "staged env plan ns \<longleftrightarrow>
     plan_fingerprint plan = fingerprint_compute (digests (crates env)) (plan_inputs plan) \<and>
     in_staging env (plan_staging_dir plan) \<and> ns (plan_staging_dir plan) = Some DirNode \<and>
     is_file_node (ns (plan_staging_dir plan @ [''vm.snap''])) \<and> is_file_node (ns (plan_staging_dir plan @ [''mem.snap''])) \<and>
     (\<forall>n. n \<noteq> ''vm.snap'' \<and> n \<noteq> ''mem.snap'' \<longrightarrow> ns (plan_staging_dir plan @ [n]) = None) \<and>
     ns (template_dir env (plan_fingerprint plan)) = None \<and> ns (by_fingerprint_dir env) = Some DirNode"

lemma tmp_name_neq [simp]:
  "tmp_name n k \<noteq> ''vm.snap''" "tmp_name n k \<noteq> ''mem.snap''" "tmp_name ''manifest.json'' k \<noteq> tmp_name ''snapshot-manifest.json'' l"
  "tmp_name ''manifest.json'' k \<noteq> ''snapshot-manifest.json''" "tmp_name ''snapshot-manifest.json'' k \<noteq> ''manifest.json''"
proof -
  have "is_ascii_digit (last (nat_to_string (unat k)))"
    using nat_to_string_digits [of "unat k"] last_in_set [OF nat_to_string_nonempty] by (auto simp: list_all_iff)
  moreover have "\<not> is_ascii_digit (CHR ''p'')" by (simp add: is_ascii_digit_def)
  ultimately have "last (tmp_name n k) \<noteq> CHR ''p''" by (auto simp: tmp_name_def)
  then show "tmp_name n k \<noteq> ''vm.snap''" "tmp_name n k \<noteq> ''mem.snap''" by auto
qed (simp_all add: tmp_name_def)

lemma calm_stage_manifests:
  assumes "faults w = []" and "staged env plan (nodes w)" and "dir = plan_staging_dir plan"
  obtains w1 w2 where "write_then_rename j dir ''manifest.json'' w = (Ok (), w1)"
    "write_then_rename k dir SNAPSHOT_MANIFEST_FILE w1 = (Ok (), w2)"
    "faults w2 = []" "clock w2 = clock w" "nodes w2 dir = Some DirNode"
    "nodes w2 (dir @ [''vm.snap'']) = nodes w (dir @ [''vm.snap''])" "nodes w2 (dir @ [''mem.snap'']) = nodes w (dir @ [''mem.snap''])"
    "nodes w2 (dir @ [''manifest.json'']) = Some (FileNode (j @ [10]))" "nodes w2 (dir @ [SNAPSHOT_MANIFEST_FILE]) \<noteq> None"
    "\<forall>q. \<not> under dir q \<longrightarrow> nodes w2 q = nodes w q"
proof -
  have "in_staging env dir" using assms(2,3) by (simp add: staged_def)
  then have ne: "dir \<noteq> []" by (auto simp: in_staging_def staging_root_def under_def)
  have outside: "\<not> under (dir @ [x]) q" if "\<not> under dir q" for x q
    using that by (auto simp: under_iff)
  note st = assms(2) [unfolded staged_def, folded assms(3)]
  have free: "nodes w (dir @ [''manifest.json'']) = None" "nodes w (dir @ [SNAPSHOT_MANIFEST_FILE]) = None"
    "nodes w (dir @ [tmp_name n k]) = None" for n k
    using st by (simp_all add: SNAPSHOT_MANIFEST_FILE_def)
  have "nodes w dir = Some DirNode" using st by simp
  from calm_write_then_rename [OF assms(1) this ne free(1) free(3), of j]
  obtain w1 where w1: "write_then_rename j dir ''manifest.json'' w = (Ok (), w1)" "faults w1 = []" "clock w1 = clock w"
    "nodes w1 (dir @ [''manifest.json'']) = Some (FileNode (j @ [10]))"
    and f1: "\<And>q. \<not> under (dir @ [''manifest.json'']) q \<Longrightarrow> \<not> under (dir @ [tmp_name ''manifest.json'' (sequence w)]) q \<Longrightarrow> nodes w1 q = nodes w q"
    by blast
  have "nodes w1 dir = Some DirNode" "nodes w1 (dir @ [SNAPSHOT_MANIFEST_FILE]) = None"
    "nodes w1 (dir @ [tmp_name SNAPSHOT_MANIFEST_FILE (sequence w1)]) = None"
    using st free by (simp_all add: f1 SNAPSHOT_MANIFEST_FILE_def tmp_name_neq(5) [symmetric])
  from calm_write_then_rename [OF w1(2) this(1) ne this(2,3), of k]
  obtain w2 where w2: "write_then_rename k dir SNAPSHOT_MANIFEST_FILE w1 = (Ok (), w2)" "faults w2 = []" "clock w2 = clock w1"
    "nodes w2 (dir @ [SNAPSHOT_MANIFEST_FILE]) = Some (FileNode (k @ [10]))"
    and f2: "\<And>q. \<not> under (dir @ [SNAPSHOT_MANIFEST_FILE]) q \<Longrightarrow>
       \<not> under (dir @ [tmp_name SNAPSHOT_MANIFEST_FILE (sequence w1)]) q \<Longrightarrow> nodes w2 q = nodes w1 q"
    by blast
  show ?thesis
    by (rule that [OF w1(1) w2(1,2)])
      (use st w1 w2 outside in \<open>simp_all add: f1 f2 SNAPSHOT_MANIFEST_FILE_def\<close>)
qed

lemma index_path_apart:
  "\<not> under (template_dir env f) (index_path env)" "\<not> under (template_dir env f) (store_root env)"
  "butlast (index_path env) = store_root env"
  by (auto simp: under_iff template_dir_def by_fingerprint_dir_def index_path_def)

lemma staged_rename:
  assumes "staged env plan ns"
  shows "\<not> under (plan_staging_dir plan) (template_dir env (plan_fingerprint plan))"
    and "parent_is_dir ns (template_dir env (plan_fingerprint plan))"
    and "\<not> under (plan_staging_dir plan) (index_path env)" "\<not> under (plan_staging_dir plan) (by_fingerprint_dir env)"
    and "\<not> under (plan_staging_dir plan) (store_root env)"
proof -
  have st: "in_staging env (plan_staging_dir plan)" "ns (by_fingerprint_dir env) = Some DirNode"
    using assms by (simp_all add: staged_def)
  show "\<not> under (plan_staging_dir plan) (template_dir env (plan_fingerprint plan))"
    using in_staging_under [OF st(1)] template_dir_elsewhere(2) [OF under_refl] by blast
  show "parent_is_dir ns (template_dir env (plan_fingerprint plan))"
    using st(2) by (simp add: parent_is_dir_def template_dir_def)
  have "\<not> under (staging_root env) (index_path env)" "\<not> under (staging_root env) (by_fingerprint_dir env)"
    "\<not> under (staging_root env) (store_root env)"
    by (auto simp: under_iff staging_root_def index_path_def by_fingerprint_dir_def)
  then show "\<not> under (plan_staging_dir plan) (index_path env)" "\<not> under (plan_staging_dir plan) (by_fingerprint_dir env)"
    "\<not> under (plan_staging_dir plan) (store_root env)"
    using in_staging_under [OF st(1)] by blast+
qed

text \<open>The part of a commit after the manifests are written: publish, index, pin, evict.\<close>
lemma calm_publish:
  assumes calm: "faults w = []" "\<forall>t \<in> set (clock w). 0 \<le> t"
    and json: "index_json_faithful (crates env)" and index: "index_is env (nodes w) ix" and room: "length (entries ix) < capacity env"
    and paths: "\<not> under s v" "\<not> under s (index_path env)" "\<not> under s (store_root env)"
    and v: "v = template_dir env f" and parent: "parent_is_dir (nodes w) v" and free: "nodes w v = None" and dir: "nodes w s = Some DirNode"
    and parse: "parse_with_schema_probe (template_schema_of_json (crates env)) (template_of_json (crates env)) (v @ [''manifest.json'']) raw = Ok m"
    and files: "nodes w (s @ [''manifest.json'']) = Some (FileNode raw)" "is_file_node (nodes w (s @ [''vm.snap'']))"
      "is_file_node (nodes w (s @ [''mem.snap'']))" "nodes w (s @ [SNAPSHOT_MANIFEST_FILE]) \<noteq> None"
    and valid: "validate_manifest_identity env m f i = Ok ()"
  obtains w1 size now w2 w3 p w4 w5 where "wrap_io v (fs_rename s v) w = (Ok (), w1)" "template_size_bytes v w1 = (Ok size, w1)"
    "store_unix_time_ms w1 = (Ok now, w2)"
    "update_index env \<lparr>ie_fingerprint = f, last_used_unix_ms = now, size_bytes = size\<rparr> w2 = (Ok (), w3)"
    "store_pin env f i w3 = (Ok p, w4)" "pt_manifest p = m" "reference p = f"
    "evict_lru_to_capacity env w4 = (Ok 0, w5)" "faults w5 = []" "\<forall>t \<in> set (clock w5). 0 \<le> t"
proof -
  obtain w1 where ren: "wrap_io v (fs_rename s v) w = (Ok (), w1)" and w1: "w1 = w\<lparr>nodes := moved s v (nodes w)\<rparr>"
    using calm_commit_rename [OF calm(1) dir free parent paths(1)] by blast
  have at: "nodes w1 (v @ q) = nodes w (s @ q)" "nodes w1 v = nodes w s" for q by (simp_all add: w1)
  have keep: "nodes w1 (index_path env) = nodes w (index_path env)" "nodes w1 (store_root env) = nodes w (store_root env)"
    using paths(2,3) v by (simp_all add: w1 index_path_apart)
  have ix1: "index_is env (nodes w1) ix"
    using index keep by (simp add: index_is_def parent_is_dir_def index_path_apart(3))
  have intact: "intact env f i m (nodes w1)"
    using files at(1) at(2) dir parse valid by (simp add: intact_def Let_def body_paths_def flip: v)
  have c1: "faults w1 = []" "\<forall>t \<in> set (clock w1). 0 \<le> t" using calm by (simp_all add: w1)
  obtain size where size: "template_size_bytes v w1 = (Ok size, w1)"
    using calm_size [OF c1(1), of v] files at(1) by (auto simp: is_file_node_def split: option.splits)
  obtain now w2 where now: "store_unix_time_ms w1 = (Ok now, w2)" "nodes w2 = nodes w1" "faults w2 = []" "\<forall>t \<in> set (clock w2). 0 \<le> t"
    using calm_time [OF c1] by metis
  let ?e = "\<lparr>ie_fingerprint = f, last_used_unix_ms = now, size_bytes = size\<rparr>"
  obtain w3 where w3: "update_index env ?e w2 = (Ok (), w3)" "index_is env (nodes w3) (index_upsert ?e ix)"
    "\<forall>q. q \<noteq> index_path env \<longrightarrow> nodes w3 q = nodes w2 q" "faults w3 = []" "clock w3 = clock w2"
    using calm_update [OF now(3) _ json, of ix ?e] ix1 now(2) by metis
  have "intact env f i m (nodes w3)"
    using intact w3(3) now(2) template_dir_elsewhere(1) by (subst intact_cong [of env f _ "nodes w1"]) auto
  then obtain p w4 e where w4: "store_pin env f i w3 = (Ok p, w4)" "pt_manifest p = m" "reference p = f"
    "index_is env (nodes w4) (index_upsert e (index_upsert ?e ix))" "ie_fingerprint e = f" "faults w4 = []" "\<forall>t \<in> set (clock w4). 0 \<le> t"
    using calm_pin_index [OF w3(4) _ _ w3(2) json] now(4) w3(5) by metis
  have "length (entries (index_upsert e (index_upsert ?e ix))) \<le> capacity env"
    using room w4(5) by (simp add: index_upsert_def length_upsert)
  then obtain w5 where "evict_lru_to_capacity env w4 = (Ok 0, w5)" "faults w5 = []" "clock w5 = clock w4"
    using calm_evict_nothing [OF w4(6,4) json] by metis
  with that [OF ren size now(1) w3(1) w4(1-3)] w4(7) show ?thesis by metis
qed

text \<open>Without faults a commit of a staged plan into a store with room succeeds.\<close>
lemma calm_commit:
  assumes calm: "faults w = []" "\<forall>t \<in> set (clock w). 0 \<le> t"
    and json: "index_json_faithful (crates env)" "template_json_faithful (crates env) plan"
    and staged: "staged env plan (nodes w)" and index: "index_is env (nodes w) ix" and room: "length (entries ix) < capacity env"
  obtains p w' where "store_commit env plan w = (Ok p, w')" "reference p = plan_fingerprint plan"
    "tm_inputs (pt_manifest p) = plan_inputs plan" "tm_restore_layout (pt_manifest p) = plan_restore_layout plan"
    "faults w' = []" "\<forall>t \<in> set (clock w'). 0 \<le> t"
proof -
  let ?f = "plan_fingerprint plan" and ?i = "plan_inputs plan" and ?s = "plan_staging_dir plan"
  let ?v = "template_dir env ?f"
  have visible: "path_exists ?v w = (Ok False :: (bool, template_store_error) result, w)"
  proof -
    have "nodes w ?v = None" using staged unfolding staged_def by blast
    with calm_reads(2) [OF calm(1), of ?v] show ?thesis by simp
  qed
  have files: "is_file_node (nodes w (?s @ [''vm.snap'']))" "is_file_node (nodes w (?s @ [''mem.snap'']))"
    using staged by (simp_all add: staged_def)
  have bodies: "ensure_body_file (bp_vm_state (body_paths ?s)) w = (Ok (), w)" "ensure_body_file (bp_mem (body_paths ?s)) w = (Ok (), w)"
    using calm_reads(3) [OF calm(1) _ files(1)] calm_reads(3) [OF calm(1) _ files(2)] by (simp_all add: body_paths_def)
  obtain sm w1 where sm: "build_snapshot_manifest env (snapshot_paths_of (body_paths ?s)) (snapshot_paths_of (body_paths ?v))
      (firecracker_version ?i) w = (Ok sm, w1)" "nodes w1 = nodes w" "faults w1 = []" "\<forall>t \<in> set (clock w1). 0 \<le> t"
    "sm_schema_version sm = SNAPSHOT_SCHEMA_VERSION" "sm_expected_firecracker_version sm = firecracker_version ?i"
    by (rule calm_build_snapshot_manifest [OF calm, of "snapshot_paths_of (body_paths ?s)"])
      (use files in \<open>auto simp: snapshot_paths_of_def body_paths_def\<close>)
  define m where "m = \<lparr>tm_fingerprint = ?f, tm_inputs = ?i, tm_restore_layout = plan_restore_layout plan,
    tm_schema_version = TEMPLATE_SCHEMA_VERSION, tm_snapshot_manifest = sm\<rparr>"
  have valid: "validate_manifest_identity env m ?f ?i = Ok ()"
    using staged sm(5,6) by (simp add: validate_manifest_identity_Ok m_def staged_def)
  have "staged env plan (nodes w1)" using staged sm(2) by simp
  from calm_stage_manifests [OF sm(3) this refl, of "template_json (crates env) m" "manifest_json (snapshots (crates env)) sm"]
  obtain w2 w3 where w3: "write_then_rename (template_json (crates env) m) ?s ''manifest.json'' w1 = (Ok (), w2)"
    "write_then_rename (manifest_json (snapshots (crates env)) sm) ?s SNAPSHOT_MANIFEST_FILE w2 = (Ok (), w3)"
    "faults w3 = []" "clock w3 = clock w1" "nodes w3 ?s = Some DirNode"
    "nodes w3 (?s @ [''vm.snap'']) = nodes w1 (?s @ [''vm.snap''])" "nodes w3 (?s @ [''mem.snap'']) = nodes w1 (?s @ [''mem.snap''])"
    "nodes w3 (?s @ [''manifest.json'']) = Some (FileNode (template_json (crates env) m @ [10]))"
    "nodes w3 (?s @ [SNAPSHOT_MANIFEST_FILE]) \<noteq> None" "\<forall>q. \<not> under ?s q \<longrightarrow> nodes w3 q = nodes w1 q"
    by metis
  have n3: "nodes w3 q = nodes w q" if "\<not> under ?s q" for q using w3(10) sm(2) that by simp
  note ren = staged_rename [OF staged]
  have visible3: "nodes w3 ?v = None" "parent_is_dir (nodes w3) ?v"
  proof -
    have "nodes w ?v = None" "nodes w (by_fingerprint_dir env) = Some DirNode" using staged unfolding staged_def by blast+
    with n3 [OF ren(1)] n3 [OF ren(4)] show "nodes w3 ?v = None" "parent_is_dir (nodes w3) ?v"
      by (simp_all add: parent_is_dir_def template_dir_def)
  qed
  have index3: "index_is env (nodes w3) ix"
    using index n3 [OF ren(3)] n3 [OF ren(5)] by (simp add: index_is_def parent_is_dir_def index_path_apart(3))
  have parse: "parse_with_schema_probe (template_schema_of_json (crates env)) (template_of_json (crates env)) (?v @ [''manifest.json''])
      (template_json (crates env) m @ [10]) = Ok m"
    using json(2) by (simp add: parse_with_schema_probe_def template_json_faithful_def m_def)
  obtain w4 size now w5 w6 p w7 w8 where pub: "wrap_io ?v (fs_rename ?s ?v) w3 = (Ok (), w4)" "template_size_bytes ?v w4 = (Ok size, w4)"
    "store_unix_time_ms w4 = (Ok now, w5)"
    "update_index env \<lparr>ie_fingerprint = ?f, last_used_unix_ms = now, size_bytes = size\<rparr> w5 = (Ok (), w6)"
    "store_pin env ?f ?i w6 = (Ok p, w7)" "pt_manifest p = m" "reference p = ?f"
    "evict_lru_to_capacity env w7 = (Ok 0, w8)" "faults w8 = []" "\<forall>t \<in> set (clock w8). 0 \<le> t"
    by (rule calm_publish [OF w3(3) _ json(1) index3 room ren(1,3,5) refl visible3(2,1) w3(5) parse w3(8) _ _ w3(9) valid])
      (use sm(2,4) w3(4,6,7) files in auto)
  have "store_commit env plan w = (Ok p, w8)"
    unfolding store_commit_def Let_def
    by (simp add: bind_eff_False [of "path_exists ?v", OF visible] bodies sm(1) valid [unfolded m_def] w3(1,2) [unfolded m_def] pub)
  then show ?thesis by (rule that) (simp_all add: pub m_def)
qed

subsection \<open>A concrete store\<close>

definition index_tuple :: "index_entry \<Rightarrow> nat list \<times> nat \<times> nat" where
  "index_tuple e = (case ie_fingerprint e of TemplateFingerprint bs \<Rightarrow> (map unat bs, unat (last_used_unix_ms e), unat (size_bytes e)))"

definition tuple_index :: "nat list \<times> nat \<times> nat \<Rightarrow> index_entry" where
  "tuple_index t = (case t of (bs, l, n) \<Rightarrow>
     \<lparr>ie_fingerprint = TemplateFingerprint (map word_of_nat bs), last_used_unix_ms = word_of_nat l, size_bytes = word_of_nat n\<rparr>)"

lemma tuple_index_inverse [simp]: "tuple_index (index_tuple e) = e"
  by (cases e; cases "ie_fingerprint e") (auto simp: tuple_index_def index_tuple_def comp_def)

definition sample_index_json :: "template_index \<Rightarrow> u8 list" where
  "sample_index_json ix = replicate (to_nat (map index_tuple (entries ix), unat (ix_schema_version ix))) 0"

definition sample_index_of_json :: "u8 list \<Rightarrow> template_index option" where
  "sample_index_of_json raw =
     (case from_nat (length raw - 1) :: (nat list \<times> nat \<times> nat) list \<times> nat of (es, v) \<Rightarrow>
        Some \<lparr>entries = map tuple_index es, ix_schema_version = word_of_nat v\<rparr>)"

definition sample_layout :: template_restore_layout where
  "sample_layout = \<lparr>jail_mem_path = JailBackingPath ''/snapshot/mem.snap'', jail_vm_state_path = JailBackingPath ''/snapshot/vm.snap'',
     pmem_backings = []\<rparr>"

definition sample_fp :: template_fingerprint where
  "sample_fp = fingerprint_compute sample_digest_crates (sample_inputs [])"

definition sample_store_crates :: store_crates where
  "sample_store_crates =
     \<lparr>digests = sample_digest_crates, snapshots = sample_snapshot_crates,
      index_json = sample_index_json, index_of_json = sample_index_of_json,
      index_schema_of_json = (\<lambda>raw. map_option ix_schema_version (sample_index_of_json raw)),
      template_json = (\<lambda>m. sample_manifest_json (tm_snapshot_manifest m)),
      template_of_json = (\<lambda>raw. map_option (\<lambda>sm. \<lparr>tm_fingerprint = sample_fp, tm_inputs = sample_inputs [],
        tm_restore_layout = sample_layout, tm_schema_version = TEMPLATE_SCHEMA_VERSION, tm_snapshot_manifest = sm\<rparr>)
        (sample_manifest_of_json raw)),
      template_schema_of_json = (\<lambda>_. Some TEMPLATE_SCHEMA_VERSION)\<rparr>"

definition sample_env :: store_env where
  "sample_env = \<lparr>crates = sample_store_crates, store_root = [''store''], capacity = 1, process_id = 7\<rparr>"

definition sample_store :: "template_index \<Rightarrow> store_world" where
  "sample_store ix =
     \<lparr>nodes = [[''store''] \<mapsto> DirNode, [''store'', ''by-fingerprint''] \<mapsto> DirNode, [''store'', ''staging''] \<mapsto> DirNode,
        [''store'', ''index.json''] \<mapsto> FileNode (sample_index_json ix @ [10])],
      faults = [], clock = [], counts = (\<lambda>_. None), sequence = 0\<rparr>"

lemma sample_env_laws: "hex_laws (digests (crates sample_env))" "index_json_faithful (crates sample_env)"
  "crates sample_env = sample_store_crates" "store_root sample_env = [''store'']" "capacity sample_env = 1"
  using sample_digest_crates_laws
  by (auto simp: sample_env_def sample_store_crates_def index_json_faithful_def sample_index_json_def sample_index_of_json_def comp_def)

lemma sample_paths: "index_path sample_env = [''store'', ''index.json'']" "by_fingerprint_dir sample_env = [''store'', ''by-fingerprint'']"
  "staging_root sample_env = [''store'', ''staging'']"
  by (simp_all add: index_path_def by_fingerprint_dir_def staging_root_def sample_env_laws)

lemma sample_index_is: "ix_schema_version ix = TEMPLATE_SCHEMA_VERSION \<Longrightarrow> index_is sample_env (nodes (sample_store ix)) ix"
  using parse_index_json [OF sample_env_laws(2)]
  by (simp add: index_is_def sample_store_def sample_paths parent_is_dir_def sample_env_laws) (simp add: sample_store_crates_def)

lemma sample_open: "store_open sample_env (sample_store index_empty) = (Ok (), sample_store index_empty)"
proof -
  have "read_index sample_env (sample_store index_empty) = (Ok index_empty, sample_store index_empty)"
    by (rule calm_read_index [OF _ sample_index_is]) (simp_all add: sample_store_def index_empty_def)
  moreover have "ensure_existing_store_dirs sample_env (sample_store index_empty) = (Ok (), sample_store index_empty)"
    by (simp add: ensure_existing_store_dirs_def sample_paths sample_env_laws path_is_dir_def path_is_file_def fs_query_def sample_store_def bind_eff_def)
  ultimately show ?thesis
    by (simp add: store_open_def ensure_capacity_def sample_env_laws fresh_store_def) (simp add: sample_store_def)
qed

definition sample_plan :: template_build_plan where
  "sample_plan = \<lparr>plan_fingerprint = sample_fp, plan_staging_dir = staging_dir sample_env sample_fp 0,
     plan_inputs = sample_inputs [], plan_restore_layout = sample_layout\<rparr>"

definition sample_reserved :: store_world where
  "sample_reserved = (sample_store index_empty)\<lparr>sequence := 1,
     nodes := (nodes (sample_store index_empty))(staging_dir sample_env sample_fp 0 \<mapsto> DirNode)\<rparr>"

definition sample_built :: store_world where
  "sample_built = sample_reserved\<lparr>nodes := (nodes sample_reserved)
     (staging_dir sample_env sample_fp 0 @ [''vm.snap''] \<mapsto> FileNode [1], staging_dir sample_env sample_fp 0 @ [''mem.snap''] \<mapsto> FileNode [2])\<rparr>"

lemma sample_fp_compute: "fingerprint_compute (digests (crates sample_env)) (sample_inputs []) = sample_fp"
  by (simp add: sample_fp_def sample_env_laws sample_store_crates_def)

lemma sample_dirs:
  "staging_dir sample_env f n = [''store'', ''staging'', last (staging_dir sample_env f n)]"
  "template_dir sample_env f = [''store'', ''by-fingerprint'', last (template_dir sample_env f)]"
  by (simp_all add: staging_dir_def template_dir_def sample_paths)

lemma sample_reserve:
  "store_reserve sample_env (sample_inputs []) sample_layout (sample_store index_empty) = (Ok sample_plan, sample_reserved)"
proof -
  have f: "faults (sample_store index_empty) = []" by (simp add: sample_store_def)
  have n: "nodes (sample_store index_empty) (template_dir sample_env sample_fp) = None"
    "nodes (sample_store index_empty) (staging_dir sample_env sample_fp 0) = None"
    "parent_is_dir (nodes (sample_store index_empty)) (staging_dir sample_env sample_fp 0)"
    by (subst sample_dirs, simp add: sample_store_def parent_is_dir_def)+
  have x: "path_exists (template_dir sample_env sample_fp) (sample_store index_empty) =
      (Ok False :: (bool, template_store_error) result, sample_store index_empty)"
    using calm_reads(2) [OF f, of "template_dir sample_env sample_fp"] n(1) by simp
  have q: "sequence (sample_store index_empty) = 0" by (simp add: sample_store_def)
  show ?thesis
    using n f by (simp add: store_reserve_def Let_def sample_fp_compute x next_sequence_def
      bind_eff_def wrap_io_def map_err_def fs_create_dir_def sample_plan_def sample_reserved_def q)
qed

lemma sample_staged: "staged sample_env sample_plan (nodes sample_built)" "index_is sample_env (nodes sample_built) index_empty"
proof -
  define d where "d = staging_dir sample_env sample_fp 0"
  obtain x where d: "d = [''store'', ''staging'', x]" using sample_dirs(1) by (simp add: d_def) blast
  have ns: "nodes sample_built = (nodes (sample_store index_empty))(d \<mapsto> DirNode, d @ [''vm.snap''] \<mapsto> FileNode [1], d @ [''mem.snap''] \<mapsto> FileNode [2])"
    by (simp add: sample_built_def sample_reserved_def d_def)
  have "nodes sample_built (template_dir sample_env sample_fp) = None"
    unfolding ns by (subst sample_dirs(2)) (simp add: d sample_store_def)
  moreover have "in_staging sample_env d" by (simp add: d_def in_staging_dir)
  moreover have "nodes sample_built (d @ [n]) = None" if "n \<noteq> ''vm.snap'' \<and> n \<noteq> ''mem.snap''" for n
    unfolding ns using that by (simp add: d sample_store_def)
  moreover have "nodes sample_built d = Some DirNode" "nodes sample_built (by_fingerprint_dir sample_env) = Some DirNode"
    "is_file_node (nodes sample_built (d @ [''vm.snap'']))" "is_file_node (nodes sample_built (d @ [''mem.snap'']))"
    unfolding ns by (simp_all add: d sample_store_def sample_paths is_file_node_def)
  ultimately show "staged sample_env sample_plan (nodes sample_built)"
    unfolding staged_def by (simp add: sample_plan_def sample_fp_compute flip: d_def)
  show "index_is sample_env (nodes sample_built) index_empty"
    using sample_index_is [of index_empty] unfolding ns
    by (simp add: index_is_def parent_is_dir_def sample_paths d index_empty_def)
qed

lemma sample_calm: "faults sample_built = []" "clock sample_built = []" "\<forall>f. counts sample_built f \<noteq> Some 0"
  "sample_built = sample_reserved\<lparr>nodes := nodes sample_built, faults := [], clock := []\<rparr>"
  "length (entries index_empty) < capacity sample_env"
  by (simp_all add: sample_built_def sample_reserved_def sample_store_def sample_env_laws index_empty_def)

lemma sample_commit:
  obtains p w where "store_commit sample_env sample_plan sample_built = (Ok p, w)" "tm_inputs (pt_manifest p) = sample_inputs []"
    "faults w = []" "\<forall>t \<in> set (clock w). 0 \<le> t"
proof -
  have "template_json_faithful (crates sample_env) sample_plan"
    by (auto simp: template_json_faithful_def sample_env_laws sample_store_crates_def sample_plan_def
      sample_manifest_json_def sample_manifest_of_json_def comp_def intro: template_manifest.equality)
  from calm_commit [OF sample_calm(1) _ sample_env_laws(2) this sample_staged sample_calm(5)] that show ?thesis
    by (metis sample_calm(2) empty_iff list.set(1) sample_plan_def template_build_plan.select_convs(3))
qed

theorem committed_template_found_witness:
  "\<exists>p w p' w'. store_commit sample_env sample_plan sample_built = (Ok p, w) \<and>
     store_lookup sample_env (sample_inputs []) w = (Ok (Some p'), w') \<and> pt_manifest p' = pt_manifest p"
proof -
  obtain p w where "store_commit sample_env sample_plan sample_built = (Ok p, w)" "faults w = []" "\<forall>t \<in> set (clock w). 0 \<le> t"
    using sample_commit by metis
  with committed_template_found [OF sample_reserve _ sample_env_laws(1,2) sample_calm(3), of p w] show ?thesis
    by blast
qed

lemma sample_lookup:
  obtains w p w' where "store_lookup sample_env (sample_inputs []) w = (Ok (Some p), w')" "tm_inputs (pt_manifest p) = sample_inputs []"
proof -
  obtain p w where c: "store_commit sample_env sample_plan sample_built = (Ok p, w)" "tm_inputs (pt_manifest p) = sample_inputs []"
    "faults w = []" "\<forall>t \<in> set (clock w). 0 \<le> t"
    using sample_commit by metis
  from commit_then_lookup [OF sample_reserve c(1) sample_env_laws(1,2) sample_calm(3) c(3,4)] c(2) that show ?thesis
    by metis
qed

lemma sample_inputs_fit: "inputs_fit (sample_inputs [])"
proof -
  have "fits (digest_str (set_digest (hook_spec_set_new sample_digest_crates [])))"
    by (simp add: fits_def hook_spec_set_new_def digest_hooks_def sample_digest_crates_def)
  then show ?thesis by (simp add: inputs_fit_def sample_inputs_def) (simp add: fits_def)
qed

theorem looked_up_template_matches_inputs_witness:
  "\<exists>w p w'. store_lookup sample_env (sample_inputs []) w = (Ok (Some p), w') \<and>
     sm_expected_firecracker_version (tm_snapshot_manifest (pt_manifest p)) = ''v1.15.1''"
proof -
  obtain w p w' where l: "store_lookup sample_env (sample_inputs []) w = (Ok (Some p), w')" "tm_inputs (pt_manifest p) = sample_inputs []"
    using sample_lookup by metis
  from looked_up_template_matches_inputs [OF l(1) sample_inputs_fit] l sample_inputs_fit show ?thesis
    by (auto simp: sample_inputs_def)
qed

lemma sample_built_staging: "\<not> in_staging sample_env q \<Longrightarrow> nodes sample_built q = nodes sample_reserved q"
  using in_staging_dir [of sample_env sample_fp 0] under_trans [OF _ under_append, of "staging_root sample_env"]
  by (auto simp: sample_built_def in_staging_def)

text \<open>The store opened, reserved, built and committed: a reachable state with one pin.\<close>
lemma sample_reachable:
  obtains s where "reachable (store_init sample_env) (store_step sample_env) s" "held s = {#sample_fp#}"
proof -
  obtain p w where c: "store_commit sample_env sample_plan sample_built = (Ok p, w)" using sample_commit by metis
  let ?s = "\<lambda>w M ps. \<lparr>world = w, held = M, plans = ps\<rparr>"
  have "reachable (store_init sample_env) (store_step sample_env) (?s (sample_store index_empty) {#} [])"
    by (rule reachable_init) (auto simp: store_init_def intro: sample_open)
  moreover have "store_step sample_env (?s (sample_store index_empty) {#} []) (?s sample_reserved {#} [sample_plan])"
    using step_reserve [of sample_env "sample_inputs []" sample_layout "?s (sample_store index_empty) {#} []"] sample_reserve by simp
  moreover have "store_step sample_env (?s sample_reserved {#} [sample_plan]) (?s sample_built {#} [sample_plan])"
    using step_builder [of sample_env "nodes sample_built" "?s sample_reserved {#} [sample_plan]" "[]" "[]"] sample_built_staging sample_calm(4)
    by simp
  moreover have "store_step sample_env (?s sample_built {#} [sample_plan]) (?s w {#sample_fp#} [])"
    using step_commit [of sample_plan "?s sample_built {#} [sample_plan]" sample_env p w] c by (simp add: sample_plan_def)
  ultimately have "reachable (store_init sample_env) (store_step sample_env) (?s w {#sample_fp#} [])"
    by (meson reachable_step)
  then show ?thesis by (rule that) simp
qed

theorem pin_counts_are_outstanding_pins_witness:
  "\<exists>s. reachable (store_init sample_env) (store_step sample_env) s \<and> counts (world s) sample_fp = Some 1 \<and> is_pinned sample_fp (world s)"
proof -
  obtain s where s: "reachable (store_init sample_env) (store_step sample_env) s" "held s = {#sample_fp#}"
    using sample_reachable by metis
  from pin_counts_are_outstanding_pins [OF s(1) sample_env_laws(1), of sample_fp] s show ?thesis by auto
qed

theorem pinned_template_untouched_witness:
  "\<exists>s t. reachable (store_init sample_env) (store_step sample_env) s \<and> store_step sample_env s t \<and> sample_fp \<in># held s \<and>
     nodes (world t) (template_dir sample_env sample_fp) = nodes (world s) (template_dir sample_env sample_fp)"
proof -
  obtain s where s: "reachable (store_init sample_env) (store_step sample_env) s" "held s = {#sample_fp#}"
    using sample_reachable by metis
  obtain r w where e: "evict_invalidated sample_env (sample_inputs [''x'']) (world s) = (r, w)" by fastforce
  from step_evict [OF e] have t: "store_step sample_env s (s\<lparr>world := w\<rparr>)" .
  have "(\<lambda>a b. sample_fp \<in># held a \<and> store_step sample_env a b)\<^sup>*\<^sup>* s (s\<lparr>world := w\<rparr>)"
    by (rule r_into_rtranclp) (use s(2) t in simp)
  from pinned_template_untouched [OF s(1) sample_env_laws(1) this under_refl] s t show ?thesis by fastforce
qed

definition sample_full :: template_index where
  "sample_full = \<lparr>entries = [\<lparr>ie_fingerprint = TemplateFingerprint [1], last_used_unix_ms = 5, size_bytes = 9\<rparr>,
     \<lparr>ie_fingerprint = TemplateFingerprint [2], last_used_unix_ms = 3, size_bytes = 9\<rparr>], ix_schema_version = TEMPLATE_SCHEMA_VERSION\<rparr>"

theorem evict_lru_removes_least_recently_used_witness:
  "\<exists>w'. evict_lru_to_capacity sample_env (sample_store sample_full) = (Ok 1, w') \<and>
     (\<exists>kept out. mset (entries sample_full) = mset kept + mset out \<and> length out = 1 \<and>
        (\<forall>x \<in> set out. \<forall>y \<in> set kept. last_used_unix_ms x \<le> last_used_unix_ms y))"
proof -
  define w where "w = sample_store sample_full"
  have ix: "index_is sample_env (nodes w) sample_full" unfolding w_def by (rule sample_index_is) (simp add: sample_full_def)
  have r: "read_index sample_env w = (Ok sample_full, w)"
    by (rule calm_read_index [OF _ ix]) (simp add: w_def sample_store_def)
  have p: "is_pinned f w = False" for f by (simp add: w_def is_pinned_def sample_store_def)
  have "nodes w (template_dir sample_env f) = None" for f
    by (subst sample_dirs(2)) (simp add: w_def sample_store_def)
  then have rm: "remove_template_dir sample_env f w = (Ok (), w)" for f
    by (simp add: remove_template_dir_def fs_remove_dir_all_def) (simp add: w_def sample_store_def)
  have "evict_lru_loop sample_env 0 (entries sample_full) w =
      (Ok (1, [\<lparr>ie_fingerprint = TemplateFingerprint [1], last_used_unix_ms = 5, size_bytes = 9\<rparr>]), w)"
    by (simp add: evict_lru_loop.simps sample_env_laws sample_full_def lru_candidate_def p rm upt_rec)
  then obtain w' where e: "evict_lru_to_capacity sample_env w = (Ok 1, w')"
    using calm_write_index(1) [OF _ ix sample_env_laws(2), of "sample_full\<lparr>entries := [\<lparr>ie_fingerprint = TemplateFingerprint [1],
      last_used_unix_ms = 5, size_bytes = 9\<rparr>]\<rparr>"] r
    by (simp add: evict_lru_to_capacity_def w_def) (simp add: sample_full_def sample_store_def)
  from evict_lru_removes_least_recently_used [OF r e, of 1] obtain kept out where
    "mset (entries sample_full) = mset kept + mset out" "length out = 1"
    "\<forall>x \<in> set out. \<forall>y \<in> set kept. last_used_unix_ms x \<le> last_used_unix_ms y"
    using p by auto
  with e show ?thesis unfolding w_def [symmetric] by blast
qed

end
