(* ===== verification/Jail_Plan.thy ===== *)
theory Jail_Plan
  imports Host_Fs
begin

text \<open>
  The plan of a jail (\<open>m80-jailer/src/types.rs\<close>, \<open>plan.rs\<close>, \<open>error.rs\<close>): the caller's configuration, the
  checks on the bind destinations, and the ordered steps that build the chroot of one VM. A \<open>PathBuf\<close> is
  the list of its components, which is what \<open>Path\<close> compares, so equal values here are paths Rust calls
  equal. The theorems say which configurations are accepted, that no step leaves the jail root, and that
  every step finds its parent directory made by an earlier one.
\<close>

subsection \<open>Paths\<close>

type_synonym path_buf = "component list"

text \<open>\<open>Path::file_name\<close>, \<open>Path::parent\<close> and \<open>Path::join\<close>; pushing an absolute path replaces the old one and
  a leading \<open>.\<close> disappears behind a non-empty one.\<close>
definition file_name :: "path_buf \<Rightarrow> string option" where
  "file_name p = (if p = [] then None else (case last p of Normal n \<Rightarrow> Some n | _ \<Rightarrow> None))"

definition path_buf_parent :: "path_buf \<Rightarrow> path_buf option" where
  "path_buf_parent p = (if p = [] \<or> last p = RootDir then None else Some (butlast p))"

definition path_push :: "path_buf \<Rightarrow> path_buf \<Rightarrow> path_buf" where
  "path_push base p =
     (case p of
        RootDir # _ \<Rightarrow> p
      | CurDir # q \<Rightarrow> if base = [] then p else base @ q
      | _ \<Rightarrow> base @ p)"

definition path_has_prefix :: "path_buf \<Rightarrow> path_buf \<Rightarrow> bool" where
  "path_has_prefix p q \<longleftrightarrow> take (length q) p = q"

subsection \<open>Configuration\<close>

definition JAILER_PLAN_FILE :: string where "JAILER_PLAN_FILE = ''jailer-plan.json''"
definition JAILER_STATE_FILE :: string where "JAILER_STATE_FILE = ''jailer-state.json''"
definition JAILER_SYSTEMD_UNIT_FILE :: string where "JAILER_SYSTEMD_UNIT_FILE = ''jailer-systemd-unit''"
definition DEFAULT_STORE_ROOT :: path_buf where
  "DEFAULT_STORE_ROOT = path_components ''/var/lib/m80-images''"

datatype cgroup_version = V1 | V2

datatype bind_mode = Ro | RoImageStore | Rw | CreateInsideJail

datatype jailer_socket = FirecrackerSock | VsockSock

record jail_binding =
  bind_source :: path_buf
  bind_dest :: path_buf
  bind_how :: bind_mode

record resource_limits =
  no_file :: u64
  fsize :: "u64 option"
  nproc :: "u64 option"
  memlock :: "u64 option"
  address_space :: "u64 option"
  core_limit :: "u64 option"
  stack_limit :: "u64 option"

definition resource_limits_default :: resource_limits where
  "resource_limits_default =
     \<lparr>no_file = 2048, fsize = None, nproc = None, memlock = None, address_space = None,
      core_limit = Some 0, stack_limit = Some (8 * 1024 * 1024)\<rparr>"

record jailer_config =
  jailer_bin :: path_buf
  jailer_harden_bin :: "path_buf option"
  firecracker_bin :: path_buf
  run_dir :: path_buf
  jail_uid :: u32
  jail_gid :: u32
  bindings :: "jail_binding list"
  sockets :: "jailer_socket list"
  limits :: resource_limits
  new_pid_ns :: bool
  new_net_ns :: bool
  daemonize :: bool
  new_cgroup_ns :: bool
  cgroup_version :: "cgroup_version option"
  netns_path :: "path_buf option"
  seccomp_filter_path :: "path_buf option"
  stdio_log :: "path_buf option"

datatype jailer_error =
    BindDestRejected path_buf path_buf
  | BindSourceRejected path_buf path_buf
  | BindFailed path_buf path_buf io_error
  | MountPropagationFailed io_error
  | FirecrackerPidTimeout path_buf
  | UidGidInvalid u32 u32
  | JailerIo path_buf io_error
  | InvalidNetns path_buf string
  | NoBasename path_buf

fun jail_path :: "jailer_socket \<Rightarrow> string" where
  "jail_path FirecrackerSock = ''firecracker.sock''"
| "jail_path VsockSock = ''vsock.sock''"

datatype plan_step =
    CreateDir path_buf u32
  | Bind path_buf path_buf bind_mode
  | Socket path_buf

record jail_plan =
  plan_schema_version :: u32
  plan_config :: jailer_config
  plan_steps :: "plan_step list"

text \<open>The layout the official jailer imposes. \<open>None\<close> is the panic of \<open>expect\<close> on a path without a final
  component.\<close>
definition jail_root_path :: "path_buf \<Rightarrow> path_buf \<Rightarrow> path_buf option" where
  "jail_root_path run fc =
     (case file_name fc of
        None \<Rightarrow> None
      | Some exec_basename \<Rightarrow>
          (case file_name run of
             None \<Rightarrow> None
           | Some id_basename \<Rightarrow>
               Some (path_push (path_push (path_push run [Normal exec_basename]) [Normal id_basename])
                       [Normal ''root''])))"

definition check_plan_basenames :: "path_buf \<Rightarrow> path_buf \<Rightarrow> (unit, jailer_error) result" where
  "check_plan_basenames run fc =
     (if file_name fc = None then Err (NoBasename fc)
      else if file_name run = None then Err (NoBasename run)
      else Ok ())"

subsection \<open>The checks on bindings\<close>

fun is_normal :: "component \<Rightarrow> bool" where
  "is_normal (Normal _) = True"
| "is_normal _ = False"

definition invalid_dest :: "path_buf \<Rightarrow> bool" where
  "invalid_dest p \<longleftrightarrow> (\<exists>c \<in> set p. \<not> is_normal c) \<or> p = []"

definition is_hidden_kernel_dest :: "path_buf \<Rightarrow> bool" where
  "is_hidden_kernel_dest p =
     (case p of
        Normal n # _ \<Rightarrow> n = ''dev'' \<or> n = ''proc'' \<or> n = ''sys''
      | _ \<Rightarrow> False)"

definition is_bind_mount_mode :: "bind_mode \<Rightarrow> bool" where
  "is_bind_mount_mode m \<longleftrightarrow> m = Ro \<or> m = RoImageStore \<or> m = Rw"

definition is_read_only_bind_mode :: "bind_mode \<Rightarrow> bool" where
  "is_read_only_bind_mode m \<longleftrightarrow> m = Ro \<or> m = RoImageStore"

definition image_store_source_has_default_root :: "path_buf \<Rightarrow> bool" where
  "image_store_source_has_default_root s \<longleftrightarrow>
     (s \<noteq> [] \<and> hd s = RootDir) \<and> path_has_prefix s DEFAULT_STORE_ROOT"

text \<open>The validation loop; the first argument is the set of bind destinations seen so far.\<close>
fun check_bindings :: "path_buf set \<Rightarrow> jail_binding list \<Rightarrow> (unit, jailer_error) result" where
  "check_bindings bind_dests [] = Ok ()"
| "check_bindings bind_dests (b # bs) =
     (if invalid_dest (bind_dest b) \<or> is_hidden_kernel_dest (bind_dest b)
      then Err (BindDestRejected (bind_source b) (bind_dest b))
      else if is_bind_mount_mode (bind_how b) \<and> bind_dest b \<in> bind_dests
      then Err (BindDestRejected (bind_source b) (bind_dest b))
      else if bind_how b = RoImageStore \<and> \<not> image_store_source_has_default_root (bind_source b)
      then Err (BindSourceRejected (bind_source b) DEFAULT_STORE_ROOT)
      else check_bindings
             (if is_bind_mount_mode (bind_how b) then insert (bind_dest b) bind_dests else bind_dests) bs)"

subsection \<open>The steps\<close>

definition JAIL_ROOT_MODE :: u32 where "JAIL_ROOT_MODE = 0x1D8"
definition JAIL_INTERNAL_DIR_MODE :: u32 where "JAIL_INTERNAL_DIR_MODE = 0x1C0"

text \<open>The two accumulators of \<open>Plan::compute\<close>: the steps and the directories they create.\<close>
type_synonym plan_acc = "plan_step list \<times> path_buf set"

definition push_create_dir_with_mode :: "path_buf \<Rightarrow> u32 \<Rightarrow> plan_acc \<Rightarrow> plan_acc" where
  "push_create_dir_with_mode p m acc =
     (case acc of (steps, created) \<Rightarrow>
        if p \<in> created then (steps, created) else (steps @ [CreateDir p m], insert p created))"

definition push_create_dir :: "path_buf \<Rightarrow> plan_acc \<Rightarrow> plan_acc" where
  "push_create_dir p acc = push_create_dir_with_mode p JAIL_INTERNAL_DIR_MODE acc"

fun push_components :: "path_buf \<Rightarrow> component list \<Rightarrow> plan_acc \<Rightarrow> plan_acc" where
  "push_components path [] acc = acc"
| "push_components path (c # cs) acc =
     push_components (path_push path [c]) cs (push_create_dir (path_push path [c]) acc)"

definition push_parent_dirs :: "path_buf \<Rightarrow> path_buf \<Rightarrow> plan_acc \<Rightarrow> plan_acc" where
  "push_parent_dirs jail_root dst acc =
     (case path_buf_parent dst of None \<Rightarrow> acc | Some parent \<Rightarrow> push_components jail_root parent acc)"

definition push_binding_dirs :: "path_buf \<Rightarrow> jail_binding \<Rightarrow> plan_acc \<Rightarrow> plan_acc" where
  "push_binding_dirs jail_root b acc =
     (let acc = push_parent_dirs jail_root (bind_dest b) acc
      in if bind_how b = CreateInsideJail then push_create_dir (path_push jail_root (bind_dest b)) acc
         else acc)"

definition bind_steps :: "path_buf \<Rightarrow> jail_binding list \<Rightarrow> plan_step list" where
  "bind_steps jail_root bs =
     map (\<lambda>b. Bind (bind_source b) (path_push jail_root (bind_dest b)) (bind_how b))
       (filter (\<lambda>b. is_bind_mount_mode (bind_how b)) bs)"

definition socket_steps :: "path_buf \<Rightarrow> jailer_socket list \<Rightarrow> plan_step list" where
  "socket_steps jail_root ss = map (\<lambda>s. Socket (path_push jail_root (path_components (jail_path s)))) ss"

definition compute_steps :: "path_buf \<Rightarrow> jailer_config \<Rightarrow> plan_step list" where
  "compute_steps jail_root config =
     fst (fold (push_binding_dirs jail_root) (bindings config)
            (push_create_dir_with_mode jail_root JAIL_ROOT_MODE ([], {}))) @
     bind_steps jail_root (bindings config) @ socket_steps jail_root (sockets config)"

definition plan_compute :: "jailer_config \<Rightarrow> (jail_plan, jailer_error) result option" where
  "plan_compute config =
     (if jail_uid config = 0 \<or> jail_gid config = 0
      then Some (Err (UidGidInvalid (jail_uid config) (jail_gid config)))
      else
        (case check_plan_basenames (run_dir config) (firecracker_bin config) of
           Err e \<Rightarrow> Some (Err e)
         | Ok _ \<Rightarrow>
             (case check_bindings {} (bindings config) of
                Err e \<Rightarrow> Some (Err e)
              | Ok _ \<Rightarrow>
                  (case jail_root_path (run_dir config) (firecracker_bin config) of
                     None \<Rightarrow> None
                   | Some jail_root \<Rightarrow>
                       Some (Ok \<lparr>plan_schema_version = 1, plan_config = config,
                                 plan_steps = compute_steps jail_root config\<rparr>)))))"

subsection \<open>Which configurations are accepted\<close>

definition kernel_dirs :: "string set" where
  "kernel_dirs = {''dev'', ''proc'', ''sys''}"

text \<open>A destination below the jail root: a non-empty relative path of plain names that does not begin with
  a name the kernel's virtual file systems use.\<close>
definition inner_dest :: "path_buf \<Rightarrow> bool" where
  "inner_dest p \<longleftrightarrow> (\<exists>n ns. p = map Normal (n # ns) \<and> n \<notin> kernel_dirs)"

definition bind_dests :: "jail_binding list \<Rightarrow> path_buf list" where
  "bind_dests bs = map bind_dest (filter (\<lambda>b. is_bind_mount_mode (bind_how b)) bs)"

definition acceptable_bindings :: "jail_binding list \<Rightarrow> bool" where
  "acceptable_bindings bs \<longleftrightarrow>
     (\<forall>b \<in> set bs. inner_dest (bind_dest b)) \<and> distinct (bind_dests bs) \<and>
     (\<forall>b \<in> set bs. bind_how b = RoImageStore \<longrightarrow> path_has_prefix (bind_source b) DEFAULT_STORE_ROOT)"

definition acceptable_config :: "jailer_config \<Rightarrow> bool" where
  "acceptable_config c \<longleftrightarrow>
     jail_uid c \<noteq> 0 \<and> jail_gid c \<noteq> 0 \<and> file_name (firecracker_bin c) \<noteq> None \<and> file_name (run_dir c) \<noteq> None \<and>
     acceptable_bindings (bindings c)"

lemma normal_list: "(\<forall>c \<in> set p. is_normal c) \<longleftrightarrow> (\<exists>ns. p = map Normal ns)"
proof
  assume *: "\<forall>c \<in> set p. is_normal c"
  show "\<exists>ns. p = map Normal ns"
    using * by (induction p) (force elim!: is_normal.elims(2) intro: exI [where x = "_ # _"])+
qed auto

lemma inner_dest_iff: "inner_dest p \<longleftrightarrow> \<not> invalid_dest p \<and> \<not> is_hidden_kernel_dest p"
proof
  assume "inner_dest p"
  then show "\<not> invalid_dest p \<and> \<not> is_hidden_kernel_dest p"
    by (auto simp: inner_dest_def invalid_dest_def is_hidden_kernel_dest_def kernel_dirs_def)
next
  assume *: "\<not> invalid_dest p \<and> \<not> is_hidden_kernel_dest p"
  then obtain ns where ns: "p = map Normal ns" "ns \<noteq> []"
    using normal_list [of p] by (auto simp: invalid_dest_def)
  with * show "inner_dest p"
    by (cases ns) (auto simp: inner_dest_def is_hidden_kernel_dest_def kernel_dirs_def)
qed

lemma store_root_absolute: "path_has_prefix s DEFAULT_STORE_ROOT \<Longrightarrow> s \<noteq> [] \<and> hd s = RootDir"
proof -
  have "DEFAULT_STORE_ROOT \<noteq> []" "hd DEFAULT_STORE_ROOT = RootDir"
    by (simp_all add: DEFAULT_STORE_ROOT_def path_components_def is_absolute_def starts_with_def)
  then show "path_has_prefix s DEFAULT_STORE_ROOT \<Longrightarrow> s \<noteq> [] \<and> hd s = RootDir"
    unfolding path_has_prefix_def by (metis hd_take length_greater_0_conv take_eq_Nil)
qed

lemma image_store_source_iff:
  "image_store_source_has_default_root s \<longleftrightarrow> path_has_prefix s DEFAULT_STORE_ROOT"
  using store_root_absolute by (auto simp: image_store_source_has_default_root_def)

lemma check_bindings_iff:
  "check_bindings S bs = Ok () \<longleftrightarrow> acceptable_bindings bs \<and> S \<inter> set (bind_dests bs) = {}"
proof (induction bs arbitrary: S)
  case (Cons b bs)
  show ?case
    by (auto simp: Cons.IH acceptable_bindings_def bind_dests_def inner_dest_iff image_store_source_iff
      is_bind_mount_mode_def)
qed (simp add: acceptable_bindings_def bind_dests_def)

lemma jail_root_path_iff:
  "jail_root_path run fc = Some root \<longleftrightarrow>
     (\<exists>e i. file_name fc = Some e \<and> file_name run = Some i \<and> root = run @ [Normal e, Normal i, Normal ''root''])"
  by (auto simp: jail_root_path_def path_push_def split: option.splits)

lemma plan_compute_cases:
  obtains (rejected) e where "plan_compute c = Some (Err e)" and "\<not> acceptable_config c"
  | (accepted) root where "jail_root_path (run_dir c) (firecracker_bin c) = Some root" and "acceptable_config c"
      and "plan_compute c =
        Some (Ok \<lparr>plan_schema_version = 1, plan_config = c, plan_steps = compute_steps root c\<rparr>)"
proof (cases "acceptable_config c")
  case True
  then obtain root where "jail_root_path (run_dir c) (firecracker_bin c) = Some root"
    by (auto simp: acceptable_config_def jail_root_path_def)
  with True accepted show thesis
    by (simp add: acceptable_config_def plan_compute_def check_plan_basenames_def
      check_bindings_iff [of "{}", simplified, THEN iffD2])
next
  case False
  then have "\<exists>e. plan_compute c = Some (Err e)"
    using check_bindings_iff [of "{}" "bindings c"]
    by (auto simp: acceptable_config_def plan_compute_def check_plan_basenames_def split: result.splits)
  with False rejected show thesis by blast
qed

lemma plan_compute_OkD:
  assumes "plan_compute c = Some (Ok p)"
  obtains root where "jail_root_path (run_dir c) (firecracker_bin c) = Some root" and "acceptable_config c"
    and "p = \<lparr>plan_schema_version = 1, plan_config = c, plan_steps = compute_steps root c\<rparr>"
  using assms by (cases rule: plan_compute_cases [of c]) auto

subsection \<open>The steps stay inside the jail, parents first\<close>

fun step_target :: "plan_step \<Rightarrow> path_buf" where
  "step_target (CreateDir p _) = p"
| "step_target (Bind _ d _) = d"
| "step_target (Socket p) = p"

text \<open>The directories a plan creates and the destinations it binds, in order.\<close>
fun dirs_of :: "plan_step list \<Rightarrow> path_buf list" where
  "dirs_of [] = []"
| "dirs_of (CreateDir d _ # steps) = d # dirs_of steps"
| "dirs_of (_ # steps) = dirs_of steps"

fun binds_of :: "plan_step list \<Rightarrow> path_buf list" where
  "binds_of [] = []"
| "binds_of (Bind _ d _ # steps) = d # binds_of steps"
| "binds_of (_ # steps) = binds_of steps"

definition created_in :: "plan_step list \<Rightarrow> path_buf set" where
  "created_in steps = set (dirs_of steps)"

text \<open>Every step but the first acts on a name directly inside a directory an earlier step created.\<close>
definition parents_first :: "plan_step list \<Rightarrow> bool" where
  "parents_first steps \<longleftrightarrow>
     (\<forall>i. 0 < i \<and> i < length steps \<longrightarrow>
        (\<exists>d n. step_target (steps ! i) = d @ [Normal n] \<and> d \<in> created_in (take i steps)))"

lemma dirs_of_append [simp]: "dirs_of (xs @ ys) = dirs_of xs @ dirs_of ys"
  by (induction xs rule: dirs_of.induct) auto

lemma binds_of_append [simp]: "binds_of (xs @ ys) = binds_of xs @ binds_of ys"
  by (induction xs rule: binds_of.induct) auto

lemma created_in_simps [simp]:
  "created_in [] = {}"
  "created_in (xs @ ys) = created_in xs \<union> created_in ys"
  "created_in (CreateDir p m # xs) = insert p (created_in xs)"
  by (auto simp: created_in_def)

lemma parents_first_snoc:
  assumes "parents_first xs" and "step_target s = d @ [Normal n]" and "d \<in> created_in xs"
  shows "parents_first (xs @ [s])"
  using assms by (auto simp: parents_first_def nth_append less_Suc_eq)

lemma parents_first_append:
  assumes "parents_first xs"
    and "\<And>s. s \<in> set ys \<Longrightarrow> \<exists>d n. step_target s = d @ [Normal n] \<and> d \<in> created_in xs"
  shows "parents_first (xs @ ys)"
  using assms(2)
proof (induction ys rule: rev_induct)
  case (snoc s ys)
  obtain d n where "step_target s = d @ [Normal n]" "d \<in> created_in xs"
    using snoc.prems [of s] by auto
  with snoc show ?case using parents_first_snoc [of "xs @ ys" s d n] by simp
qed (simp add: assms(1))

text \<open>What the accumulators of \<open>Plan::compute\<close> satisfy from the first push on.\<close>
definition acc_ok :: "path_buf \<Rightarrow> plan_acc \<Rightarrow> bool" where
  "acc_ok root acc \<longleftrightarrow>
     (case acc of (steps, created) \<Rightarrow>
        created = created_in steps \<and> root \<in> created \<and> parents_first steps \<and>
        (\<exists>rest. steps = CreateDir root JAIL_ROOT_MODE # rest \<and>
          (\<forall>s \<in> set rest. \<exists>p. s = CreateDir (root @ p) JAIL_INTERNAL_DIR_MODE \<and> inner_dest p)) \<and>
        distinct (map step_target steps))"

lemma created_in_iff: "(\<forall>s \<in> set steps. \<exists>m. s = CreateDir (step_target s) m) \<Longrightarrow> created_in steps = step_target ` set steps"
  by (induction steps rule: dirs_of.induct) (auto simp: created_in_def)

lemma acc_ok_push:
  assumes ok: "acc_ok root acc" and p: "p = d @ [Normal n]" "d \<in> snd acc" "p = root @ q" "inner_dest q"
  shows "acc_ok root (push_create_dir p acc) \<and> p \<in> snd (push_create_dir p acc) \<and> snd acc \<subseteq> snd (push_create_dir p acc)"
proof -
  obtain steps created where acc: "acc = (steps, created)" by fastforce
  have "p \<notin> step_target ` set steps" if "p \<notin> created_in steps"
  proof -
    have "\<forall>s \<in> set steps. \<exists>m. s = CreateDir (step_target s) m"
      using ok by (fastforce simp: acc_ok_def acc)
    with that show ?thesis by (simp add: created_in_iff)
  qed
  then show ?thesis
    using ok p parents_first_snoc [of steps "CreateDir p JAIL_INTERNAL_DIR_MODE" d n]
    by (auto simp: acc_ok_def acc push_create_dir_def push_create_dir_with_mode_def) metis+
qed

lemma path_push_Normal [simp]: "path_push base (Normal n # p) = base @ Normal n # p"
  by (simp add: path_push_def)

lemma inner_dest_append: "inner_dest p \<Longrightarrow> inner_dest (p @ map Normal ns)"
  by (auto simp: inner_dest_def simp flip: map_append)

lemma acc_ok_push_components:
  assumes "acc_ok root acc" and "root @ q \<in> snd acc" and "inner_dest (q @ map Normal ns) \<or> ns = []"
  shows "acc_ok root (push_components (root @ q) (map Normal ns) acc) \<and>
         root @ q @ map Normal ns \<in> snd (push_components (root @ q) (map Normal ns) acc)"
  using assms
proof (induction ns arbitrary: q acc)
  case (Cons n ns)
  have inner: "inner_dest (q @ [Normal n])"
    using Cons.prems(3) by (cases q) (auto simp: inner_dest_def Cons_eq_map_conv append_eq_map_conv)
  note push = acc_ok_push [OF Cons.prems(1), of "root @ q @ [Normal n]" "root @ q" n "q @ [Normal n]"]
  show ?case
    using Cons.IH [of "push_create_dir (root @ q @ [Normal n]) acc" "q @ [Normal n]"] push Cons.prems inner
    by simp
qed simp

lemma push_components_mono: "snd a \<subseteq> snd (push_components r cs a)"
proof (induction cs arbitrary: r a)
  case (Cons c cs)
  have "snd a \<subseteq> snd (push_create_dir (path_push r [c]) a)"
    by (cases a) (auto simp: push_create_dir_def push_create_dir_with_mode_def)
  also have "\<dots> \<subseteq> snd (push_components r (c # cs) a)" using Cons.IH by simp
  finally show ?case .
qed simp

lemma inner_dest_join: "inner_dest p \<Longrightarrow> path_push root p = root @ p"
  by (auto simp: inner_dest_def)

lemma inner_dest_split:
  assumes "inner_dest p"
  shows "\<exists>ms n. p = map Normal ms @ [Normal n] \<and> (inner_dest (map Normal ms) \<or> ms = [])"
proof -
  obtain k ks where p: "p = map Normal (k # ks)" "k \<notin> kernel_dirs" using assms by (auto simp: inner_dest_def)
  have "k # ks = butlast (k # ks) @ [last (k # ks)]" by simp
  with p(1) have "p = map Normal (butlast (k # ks)) @ [Normal (last (k # ks))]"
    by (metis list.simps(8,9) map_append)
  moreover have "inner_dest (map Normal (butlast (k # ks))) \<or> butlast (k # ks) = []"
    using p(2) unfolding inner_dest_def by (cases "ks = []") auto
  ultimately show ?thesis by blast
qed

lemma acc_ok_push_binding_dirs:
  assumes ok: "acc_ok root acc" and dest: "inner_dest (bind_dest b)"
  shows "acc_ok root (push_binding_dirs root b acc) \<and>
         root @ butlast (bind_dest b) \<in> snd (push_binding_dirs root b acc) \<and>
         snd acc \<subseteq> snd (push_binding_dirs root b acc)"
proof -
  obtain ms n where d: "bind_dest b = map Normal ms @ [Normal n]" and ms: "inner_dest (map Normal ms) \<or> ms = []"
    using inner_dest_split [OF dest] by blast
  have root: "root \<in> snd acc" using ok by (auto simp: acc_ok_def)
  define acc' where "acc' = push_components root (map Normal ms) acc"
  have acc': "acc_ok root acc'" "root @ map Normal ms \<in> snd acc'" "snd acc \<subseteq> snd acc'"
    using acc_ok_push_components [OF ok, of "[]" ms] root ms push_components_mono by (auto simp: acc'_def)
  have eq: "push_parent_dirs root (bind_dest b) acc = acc'"
    by (simp add: push_parent_dirs_def path_buf_parent_def acc'_def d)
  have "root @ bind_dest b = (root @ map Normal ms) @ [Normal n]" by (simp add: d)
  note push = acc_ok_push [OF acc'(1) this acc'(2) refl dest]
  show ?thesis
  proof (cases "bind_how b = CreateInsideJail")
    case True
    then have "push_binding_dirs root b acc = push_create_dir (root @ bind_dest b) acc'"
      by (simp add: push_binding_dirs_def eq inner_dest_join [OF dest])
    then show ?thesis using push acc'(2,3) by (auto simp: d)
  next
    case False
    then have "push_binding_dirs root b acc = acc'" by (simp add: push_binding_dirs_def eq)
    then show ?thesis using acc' by (simp add: d)
  qed
qed

lemma acc_ok_fold:
  assumes "acc_ok root acc" and "\<forall>b \<in> set bs. inner_dest (bind_dest b)"
  shows "acc_ok root (fold (push_binding_dirs root) bs acc) \<and>
         snd acc \<subseteq> snd (fold (push_binding_dirs root) bs acc) \<and>
         (\<forall>b \<in> set bs. root @ butlast (bind_dest b) \<in> snd (fold (push_binding_dirs root) bs acc))"
  using assms
proof (induction bs arbitrary: acc)
  case (Cons b bs)
  have "acc_ok root (push_binding_dirs root b acc)" "snd acc \<subseteq> snd (push_binding_dirs root b acc)"
    "root @ butlast (bind_dest b) \<in> snd (push_binding_dirs root b acc)"
    using acc_ok_push_binding_dirs [OF Cons.prems(1)] Cons.prems(2) by auto
  with Cons.IH [of "push_binding_dirs root b acc"] Cons.prems(2) show ?case by auto
qed simp

lemma acc_ok_root: "acc_ok root (push_create_dir_with_mode root JAIL_ROOT_MODE ([], {}))"
  by (auto simp: acc_ok_def push_create_dir_with_mode_def parents_first_def)

text \<open>The shape of the steps of an accepted configuration.\<close>
lemma compute_steps_shape:
  assumes "acceptable_config c"
  obtains dirs where
    "compute_steps root c =
       CreateDir root JAIL_ROOT_MODE # dirs @ bind_steps root (bindings c) @ socket_steps root (sockets c)"
    and "\<forall>s \<in> set dirs. \<exists>p. s = CreateDir (root @ p) JAIL_INTERNAL_DIR_MODE \<and> inner_dest p"
    and "distinct (root # map step_target dirs)" and "parents_first (CreateDir root JAIL_ROOT_MODE # dirs)"
    and "\<forall>b \<in> set (bindings c). root @ butlast (bind_dest b) \<in> insert root (created_in dirs)"
proof -
  have inner: "\<forall>b \<in> set (bindings c). inner_dest (bind_dest b)"
    using assms by (simp add: acceptable_config_def acceptable_bindings_def)
  define acc where "acc = fold (push_binding_dirs root) (bindings c)
    (push_create_dir_with_mode root JAIL_ROOT_MODE ([], {}))"
  have "acc_ok root acc" and parents: "\<forall>b \<in> set (bindings c). root @ butlast (bind_dest b) \<in> snd acc"
    using acc_ok_fold [OF acc_ok_root inner] by (auto simp: acc_def)
  then obtain dirs where "fst acc = CreateDir root JAIL_ROOT_MODE # dirs" "snd acc = created_in (fst acc)"
    "\<forall>s \<in> set dirs. \<exists>p. s = CreateDir (root @ p) JAIL_INTERNAL_DIR_MODE \<and> inner_dest p"
    "distinct (root # map step_target dirs)" "parents_first (fst acc)"
    by (cases acc) (auto simp: acc_ok_def)
  with that parents show thesis by (simp add: compute_steps_def acc_def [symmetric])
qed

lemma socket_components: "path_components (jail_path s) = [Normal (jail_path s)] \<and> jail_path s \<notin> kernel_dirs"
  by (cases s) (simp_all add: path_components_def is_absolute_def starts_with_def kernel_dirs_def)

lemma socket_inner: "inner_dest [Normal (jail_path s)]"
  using socket_components [of s] by (auto simp: inner_dest_def)

lemma of_bind_steps [simp]:
  "dirs_of (bind_steps root bs) = []" "binds_of (bind_steps root bs) = map (path_push root) (bind_dests bs)"
  by (induction bs) (auto simp: bind_steps_def bind_dests_def)

lemma of_socket_steps [simp]: "dirs_of (socket_steps root ss) = []" "binds_of (socket_steps root ss) = []"
  by (induction ss) (auto simp: socket_steps_def)

lemma set_bind_steps:
  assumes "acceptable_bindings bs" and "s \<in> set (bind_steps root bs)"
  shows "\<exists>b \<in> set bs. is_bind_mount_mode (bind_how b) \<and> inner_dest (bind_dest b) \<and>
     s = Bind (bind_source b) (root @ bind_dest b) (bind_how b)"
  using assms by (auto simp: bind_steps_def acceptable_bindings_def inner_dest_join)

lemma set_socket_steps:
  "s \<in> set (socket_steps root ss) \<Longrightarrow> \<exists>k. s = Socket (root @ [Normal (jail_path k)])"
  by (auto simp: socket_steps_def socket_components)

lemma plan_compute_binds_distinct:
  assumes "plan_compute c = Some (Ok p)"
  shows "distinct (binds_of (plan_steps p))"
proof -
  obtain root where acc: "acceptable_config c" and p: "plan_steps p = compute_steps root c"
    using assms by (auto elim!: plan_compute_OkD)
  obtain dirs where steps: "plan_steps p =
      CreateDir root JAIL_ROOT_MODE # dirs @ bind_steps root (bindings c) @ socket_steps root (sockets c)"
    and dirs: "\<forall>s \<in> set dirs. \<exists>p. s = CreateDir (root @ p) JAIL_INTERNAL_DIR_MODE \<and> inner_dest p"
    using compute_steps_shape [OF acc] p by metis
  have "binds_of dirs = []" using dirs by (induction dirs rule: binds_of.induct) auto
  moreover have "distinct (map (path_push root) (bind_dests (bindings c)))"
    using acc by (auto simp: acceptable_config_def acceptable_bindings_def distinct_map inj_on_def bind_dests_def inner_dest_join)
  ultimately show ?thesis by (simp add: steps)
qed

text \<open>C34: \<open>Plan::compute\<close> never panics, and it accepts a configuration exactly when the uid and gid are not
  root's, both paths have a basename, every destination is a non-empty relative path of plain names outside
  \<open>dev\<close>, \<open>proc\<close> and \<open>sys\<close>, no two bind mounts share a destination and every image-store source lies below
  the default store root.\<close>
theorem plan_accepts_iff:
  "plan_compute c \<noteq> None \<and> ((\<exists>p. plan_compute c = Some (Ok p)) \<longleftrightarrow> acceptable_config c)"
  by (rule plan_compute_cases [of c]) auto

text \<open>Every step of a computed plan acts on the jail root or strictly below it, outside \<open>dev\<close>, \<open>proc\<close> and
  \<open>sys\<close>; only the root is created with the group-writable mode; bind destinations are pairwise different
  and an image-store bind reads from below the store root.\<close>
theorem plan_confined:
  assumes "plan_compute c = Some (Ok p)" and "jail_root_path (run_dir c) (firecracker_bin c) = Some root"
  shows "(\<forall>s \<in> set (tl (plan_steps p)). \<exists>q. step_target s = root @ q \<and> inner_dest q \<and>
            (\<forall>d m. s = CreateDir d m \<longrightarrow> m = JAIL_INTERNAL_DIR_MODE) \<and>
            (\<forall>src d. s = Bind src d RoImageStore \<longrightarrow> path_has_prefix src DEFAULT_STORE_ROOT)) \<and>
         plan_steps p \<noteq> [] \<and> hd (plan_steps p) = CreateDir root JAIL_ROOT_MODE \<and>
         distinct (binds_of (plan_steps p))"
proof -
  have acc: "acceptable_config c" and p: "plan_steps p = compute_steps root c"
    using assms by (auto elim!: plan_compute_OkD)
  then have binds: "acceptable_bindings (bindings c)" by (simp add: acceptable_config_def)
  obtain dirs where steps: "plan_steps p =
      CreateDir root JAIL_ROOT_MODE # dirs @ bind_steps root (bindings c) @ socket_steps root (sockets c)"
    and dirs: "\<forall>s \<in> set dirs. \<exists>p. s = CreateDir (root @ p) JAIL_INTERNAL_DIR_MODE \<and> inner_dest p"
    using compute_steps_shape [OF acc] p by metis
  have "\<exists>q. step_target s = root @ q \<and> inner_dest q \<and>
            (\<forall>d m. s = CreateDir d m \<longrightarrow> m = JAIL_INTERNAL_DIR_MODE) \<and>
            (\<forall>src d. s = Bind src d RoImageStore \<longrightarrow> path_has_prefix src DEFAULT_STORE_ROOT)"
    if s: "s \<in> set (tl (plan_steps p))" for s
  proof -
    consider "s \<in> set dirs" | "s \<in> set (bind_steps root (bindings c))" | "s \<in> set (socket_steps root (sockets c))"
      using s steps by auto
    then show ?thesis
    proof cases
      case 1
      with dirs show ?thesis by fastforce
    next
      case 2
      then obtain b where "b \<in> set (bindings c)" "inner_dest (bind_dest b)"
        "s = Bind (bind_source b) (root @ bind_dest b) (bind_how b)"
        using set_bind_steps [OF binds] by blast
      with binds show ?thesis by (auto simp: acceptable_bindings_def)
    next
      case 3
      with socket_inner show ?thesis by (fastforce dest!: set_socket_steps)
    qed
  qed
  then show ?thesis using steps plan_compute_binds_distinct [OF assms(1)] by simp
qed

text \<open>No directory of a plan is created twice, and every step but the first acts on a name directly inside a
  directory that an earlier step of the plan created.\<close>
theorem plan_parents_first:
  assumes "plan_compute c = Some (Ok p)"
  shows "parents_first (plan_steps p) \<and> distinct (dirs_of (plan_steps p))"
proof -
  obtain root where acc: "acceptable_config c" and p: "plan_steps p = compute_steps root c"
    using assms by (auto elim!: plan_compute_OkD)
  then have binds: "acceptable_bindings (bindings c)" by (simp add: acceptable_config_def)
  obtain dirs where steps: "plan_steps p =
      CreateDir root JAIL_ROOT_MODE # dirs @ bind_steps root (bindings c) @ socket_steps root (sockets c)"
    and dirs: "\<forall>s \<in> set dirs. \<exists>p. s = CreateDir (root @ p) JAIL_INTERNAL_DIR_MODE \<and> inner_dest p"
    and dist: "distinct (root # map step_target dirs)" and first: "parents_first (CreateDir root JAIL_ROOT_MODE # dirs)"
    and parents: "\<forall>b \<in> set (bindings c). root @ butlast (bind_dest b) \<in> insert root (created_in dirs)"
    using compute_steps_shape [OF acc] p by metis
  have "\<exists>d n. step_target s = d @ [Normal n] \<and> d \<in> created_in (CreateDir root JAIL_ROOT_MODE # dirs)"
    if s: "s \<in> set (bind_steps root (bindings c) @ socket_steps root (sockets c))" for s
  proof (cases "s \<in> set (bind_steps root (bindings c))")
    case True
    then obtain b where b: "b \<in> set (bindings c)" "inner_dest (bind_dest b)" "step_target s = root @ bind_dest b"
      using set_bind_steps [OF binds] by fastforce
    obtain n where "bind_dest b = butlast (bind_dest b) @ [Normal n]"
      using inner_dest_split [OF b(2)] by (metis butlast_snoc)
    with b(3) have "step_target s = (root @ butlast (bind_dest b)) @ [Normal n]" by (metis append.assoc)
    with b(1) parents show ?thesis by (metis created_in_simps(3))
  next
    case False
    with s show ?thesis by (auto dest!: set_socket_steps)
  qed
  then have "parents_first (plan_steps p)"
    unfolding steps append_Cons [symmetric] by (rule parents_first_append [OF first])
  moreover have "dirs_of dirs = map step_target dirs"
    using dirs by (induction dirs rule: dirs_of.induct) auto
  ultimately show ?thesis using dist by (simp add: steps)
qed

end
