(* ===== verification/Jail_Materialize.thy ===== *)
theory Jail_Materialize
  imports Jail_Plan
begin

text \<open>
  Building and tearing down a jail (\<open>Plan::materialize\<close> of \<open>m80-jailer/src/plan.rs\<close> and the \<open>Drop\<close> of
  \<open>MaterializedJail\<close> in \<open>materialized.rs\<close>) on a host with a mount table. Paths reach the tree of files in two
  stages: \<open>locate\<close>, a parameter, is how the kernel reads a path text (working directory, \<open>..\<close>, symbolic
  links), and \<open>resolve_mounts\<close> follows the mounts that are stacked on the located name. Every call but the lazy
  unmount, which the kernel refuses only for a name that is no mount point, may fail by the fault script of
  the world.
\<close>

subsection \<open>The mount table\<close>

datatype ms_flag = MS_BIND | MS_REMOUNT | MS_NODEV | MS_NOEXEC | MS_NOSUID | MS_RDONLY | MS_REC | MS_PRIVATE

record mount_entry =
  mnt_point :: fpath
  mnt_root :: fpath
  mnt_opts :: "ms_flag set"

record jail_world = fs +
  mounts :: "mount_entry list"
  mounts_private :: bool
  owners :: "fpath \<Rightarrow> u32 \<times> u32"
  perms :: "fpath \<Rightarrow> u32"
  umask_now :: u32

text \<open>The newest mount comes first. A name is served by the newest mount at or above it.\<close>
fun covering :: "mount_entry list \<Rightarrow> fpath \<Rightarrow> mount_entry option" where
  "covering [] p = None"
| "covering (m # ms) p = (if under (mnt_point m) p then Some m else covering ms p)"

definition resolve_mounts :: "mount_entry list \<Rightarrow> fpath \<Rightarrow> fpath" where
  "resolve_mounts ms p =
     (case covering ms p of None \<Rightarrow> p | Some m \<Rightarrow> mnt_root m @ drop (length (mnt_point m)) p)"

record jailer_state =
  state_schema_version :: u32
  state_jailer_pid :: "u32 option"
  state_firecracker_pid :: "u32 option"

text \<open>What the jailer crate takes from elsewhere: the kernel's reading of path texts and serde's encodings.\<close>
record jail_env =
  locate :: "path_buf \<Rightarrow> fpath"
  canon :: "path_buf \<Rightarrow> path_buf"
  plan_json :: "jail_plan \<Rightarrow> u8 list option"
  plan_of_json :: "u8 list \<Rightarrow> jail_plan option"
  state_json :: "jailer_state \<Rightarrow> u8 list option"
  state_of_json :: "u8 list \<Rightarrow> jailer_state option"

definition visible :: "jail_env \<Rightarrow> path_buf \<Rightarrow> jail_world \<Rightarrow> fpath" where
  "visible env p w = resolve_mounts (mounts w) (locate env p)"

definition node_at :: "jail_world \<Rightarrow> fpath \<Rightarrow> node option" where
  "node_at w q = (if q = [] then Some DirNode else nodes w q)"

subsection \<open>System calls\<close>

text \<open>Changing anything through a read-only mount fails with \<open>EROFS\<close>.\<close>
definition read_only_at :: "jail_env \<Rightarrow> path_buf \<Rightarrow> jail_world \<Rightarrow> bool" where
  "read_only_at env p w =
     (case covering (mounts w) (locate env p) of None \<Rightarrow> False | Some m \<Rightarrow> MS_RDONLY \<in> mnt_opts m)"

definition on_writable ::
    "jail_env \<Rightarrow> path_buf \<Rightarrow> (jail_world, 'a, io_error) eff \<Rightarrow> (jail_world, 'a, io_error) eff" where
  "on_writable env p m w = (if read_only_at env p w then (Err OtherIo, w) else m w)"

definition sys_mkdir :: "jail_env \<Rightarrow> path_buf \<Rightarrow> u32 \<Rightarrow> (jail_world, unit, io_error) eff" where
  "sys_mkdir env p m =
     on_writable env p (\<lambda>w.
       bind_eff (fs_create_dir (visible env p w))
         (\<lambda>_ w'. (Ok (), w'\<lparr>perms := (perms w')(visible env p w := m AND NOT (umask_now w')),
                            owners := (owners w')(visible env p w := (0, 0))\<rparr>)) w)"

definition sys_chown :: "jail_env \<Rightarrow> path_buf \<Rightarrow> u32 \<Rightarrow> u32 \<Rightarrow> (jail_world, unit, io_error) eff" where
  "sys_chown env p u g =
     on_writable env p (\<lambda>w.
       (case take_fault w of
          (Fails _ _, w') \<Rightarrow> (Err OtherIo, w')
        | (Works, w') \<Rightarrow>
            if node_at w' (visible env p w') = None then (Err NotFound, w')
            else (Ok (), w'\<lparr>owners := (owners w')(visible env p w' := (u, g))\<rparr>)))"

definition is_dir :: "jail_env \<Rightarrow> path_buf \<Rightarrow> (jail_world, bool, jailer_error) eff" where
  "is_dir env p w = path_is_dir (visible env p w) w"

text \<open>\<open>fs::metadata(p)?.is_dir()\<close>\<close>
definition metadata_is_dir :: "jail_env \<Rightarrow> path_buf \<Rightarrow> (jail_world, bool, io_error) eff" where
  "metadata_is_dir env p w =
     (case take_fault w of
        (Fails _ _, w') \<Rightarrow> (Err OtherIo, w')
      | (Works, w') \<Rightarrow>
          (case node_at w' (visible env p w') of
             None \<Rightarrow> (Err NotFound, w')
           | Some n \<Rightarrow> (Ok (n = DirNode), w')))"

definition fs_canonicalize :: "jail_env \<Rightarrow> path_buf \<Rightarrow> (jail_world, path_buf, io_error) eff" where
  "fs_canonicalize env p w =
     (case take_fault w of
        (Fails _ _, w') \<Rightarrow> (Err OtherIo, w')
      | (Works, w') \<Rightarrow>
          if node_at w' (visible env p w') = None then (Err NotFound, w') else (Ok (canon env p), w'))"

text \<open>Mounts that are visible strictly below a name, copied to another place by \<open>MS_REC\<close>.\<close>
definition submounts :: "mount_entry list \<Rightarrow> fpath \<Rightarrow> fpath \<Rightarrow> mount_entry list" where
  "submounts ms s d =
     map (\<lambda>m. m\<lparr>mnt_point := d @ drop (length s) (mnt_point m)\<rparr>)
       (filter (\<lambda>m. under s (mnt_point m) \<and> mnt_point m \<noteq> s)
         (takeWhile (\<lambda>m. \<not> under (mnt_point m) s) ms))"

definition bind_entries :: "mount_entry list \<Rightarrow> fpath \<Rightarrow> fpath \<Rightarrow> ms_flag set \<Rightarrow> mount_entry list" where
  "bind_entries ms s d flags =
     (if MS_REC \<in> flags then submounts ms s d else []) @
     [\<lparr>mnt_point = d, mnt_root = resolve_mounts ms s,
       mnt_opts = (case covering ms s of None \<Rightarrow> {} | Some m \<Rightarrow> mnt_opts m)\<rparr>]"

definition sys_mount_bind ::
    "jail_env \<Rightarrow> path_buf \<Rightarrow> path_buf \<Rightarrow> ms_flag set \<Rightarrow> (jail_world, unit, io_error) eff" where
  "sys_mount_bind env s d flags w =
     (case take_fault w of
        (Fails _ _, w') \<Rightarrow> (Err OtherIo, w')
      | (Works, w') \<Rightarrow>
          (case (node_at w' (visible env s w'), node_at w' (visible env d w')) of
             (Some a, Some b) \<Rightarrow>
               if (a = DirNode) \<noteq> (b = DirNode) then (Err NotADirectory, w')
               else (Ok (), w'\<lparr>mounts := bind_entries (mounts w') (locate env s) (locate env d) flags @ mounts w'\<rparr>)
           | _ \<Rightarrow> (Err NotFound, w')))"

fun remount :: "mount_entry list \<Rightarrow> fpath \<Rightarrow> ms_flag set \<Rightarrow> mount_entry list option" where
  "remount [] d opts = None"
| "remount (m # ms) d opts =
     (if mnt_point m = d then Some (m\<lparr>mnt_opts := opts\<rparr> # ms)
      else if under (mnt_point m) d then None
      else map_option (\<lambda>ms. m # ms) (remount ms d opts))"

definition sys_remount :: "jail_env \<Rightarrow> path_buf \<Rightarrow> ms_flag set \<Rightarrow> (jail_world, unit, io_error) eff" where
  "sys_remount env d flags w =
     (case take_fault w of
        (Fails _ _, w') \<Rightarrow> (Err OtherIo, w')
      | (Works, w') \<Rightarrow>
          (case remount (mounts w') (locate env d) (flags - {MS_BIND, MS_REMOUNT}) of
             None \<Rightarrow> (Err OtherIo, w')
           | Some ms \<Rightarrow> (Ok (), w'\<lparr>mounts := ms\<rparr>)))"

definition sys_mount_private :: "ms_flag set \<Rightarrow> (jail_world, unit, io_error) eff" where
  "sys_mount_private flags w =
     (case take_fault w of
        (Fails _ _, w') \<Rightarrow> (Err OtherIo, w')
      | (Works, w') \<Rightarrow> (Ok (), w'\<lparr>mounts_private := ({MS_PRIVATE, MS_REC} \<subseteq> flags \<or> mounts_private w')\<rparr>))"

text \<open>A lazy unmount takes the mount on top of the name away with everything that was mounted below it
  since.\<close>
definition detach :: "mount_entry list \<Rightarrow> fpath \<Rightarrow> mount_entry list option" where
  "detach ms p =
     (case dropWhile (\<lambda>m. \<not> under (mnt_point m) p) ms of
        [] \<Rightarrow> None
      | m # older \<Rightarrow>
          if mnt_point m = p
          then Some (filter (\<lambda>n. \<not> under p (mnt_point n)) (takeWhile (\<lambda>m. \<not> under (mnt_point m) p) ms) @ older)
          else None)"

definition sys_umount_detach :: "jail_env \<Rightarrow> path_buf \<Rightarrow> (jail_world, unit, io_error) eff" where
  "sys_umount_detach env p w =
     (case detach (mounts w) (locate env p) of
        None \<Rightarrow> (Err OtherIo, w)
      | Some ms \<Rightarrow> (Ok (), w\<lparr>mounts := ms\<rparr>))"

definition sys_remove_file :: "jail_env \<Rightarrow> path_buf \<Rightarrow> (jail_world, unit, io_error) eff" where
  "sys_remove_file env p = on_writable env p (\<lambda>w. fs_remove_file (visible env p w) w)"

definition dir_empty :: "(fpath \<Rightarrow> node option) \<Rightarrow> fpath \<Rightarrow> bool" where
  "dir_empty ns p \<longleftrightarrow> (\<forall>n. ns (p @ [n]) = None)"

definition sys_remove_dir :: "jail_env \<Rightarrow> path_buf \<Rightarrow> (jail_world, unit, io_error) eff" where
  "sys_remove_dir env p = on_writable env p (\<lambda>w.
     (case take_fault w of
        (Fails _ _, w') \<Rightarrow> (Err OtherIo, w')
      | (Works, w') \<Rightarrow>
          (case nodes w' (visible env p w') of
             None \<Rightarrow> (Err NotFound, w')
           | Some (FileNode _) \<Rightarrow> (Err NotADirectory, w')
           | Some DirNode \<Rightarrow>
               if locate env p \<in> mnt_point ` set (mounts w') then (Err OtherIo, w')
               else if \<not> dir_empty (nodes w') (visible env p w') then (Err DirectoryNotEmpty, w')
               else (Ok (), w'\<lparr>nodes := (nodes w')(visible env p w' := None)\<rparr>))))"

text \<open>\<open>std::fs::create_dir_all\<close>\<close>
function create_dir_all :: "jail_env \<Rightarrow> path_buf \<Rightarrow> (jail_world, unit, io_error) eff" where
  "create_dir_all env p w =
     (if p = [] then (Ok (), w)
      else
        (case sys_mkdir env p 0x1FF w of
           (Ok _, w1) \<Rightarrow> (Ok (), w1)
         | (Err e, w1) \<Rightarrow>
             if e = NotFound then
               (case path_buf_parent p of
                  None \<Rightarrow> (Err OtherIo, w1)
                | Some q \<Rightarrow>
                    (case create_dir_all env q w1 of
                       (Err e, w2) \<Rightarrow> (Err e, w2)
                     | (Ok _, w2) \<Rightarrow>
                         (case sys_mkdir env p 0x1FF w2 of
                            (Ok _, w3) \<Rightarrow> (Ok (), w3)
                          | (Err e, w3) \<Rightarrow>
                              (case is_dir env p w3 of
                                 (Ok True, w4) \<Rightarrow> (Ok (), w4)
                               | (_, w4) \<Rightarrow> (Err e, w4)))))
             else
               (case is_dir env p w1 of
                  (Ok True, w2) \<Rightarrow> (Ok (), w2)
                | (_, w2) \<Rightarrow> (Err e, w2))))"
  by pat_completeness auto

termination
  by (relation "measure (\<lambda>(_, p, _). length p)") (auto simp: path_buf_parent_def split: if_splits)

declare create_dir_all.simps [simp del]

subsection \<open>Mount flags and sources\<close>

definition bind_remount_flags :: "ms_flag set" where
  "bind_remount_flags = {MS_BIND, MS_REMOUNT, MS_NODEV, MS_NOEXEC, MS_NOSUID}"

definition bind_remount_flags_for_mode :: "bind_mode \<Rightarrow> ms_flag set" where
  "bind_remount_flags_for_mode m =
     (if is_read_only_bind_mode m then insert MS_RDONLY bind_remount_flags else bind_remount_flags)"

definition bind_mount_flags :: "bool \<Rightarrow> bool \<Rightarrow> ms_flag set" where
  "bind_mount_flags source_is_dir dest_is_dir = (if source_is_dir \<or> dest_is_dir then {MS_BIND, MS_REC} else {MS_BIND})"

definition private_mount_flags :: "ms_flag set" where
  "private_mount_flags = {MS_PRIVATE, MS_REC}"

definition is_proc_fd_path :: "path_buf \<Rightarrow> bool" where
  "is_proc_fd_path s =
     (case s of
        [RootDir, Normal proc, Normal _, Normal fd, _] \<Rightarrow> proc = ''proc'' \<and> fd = ''fd''
      | _ \<Rightarrow> False)"

definition bind_mount_source :: "jail_env \<Rightarrow> path_buf \<Rightarrow> (jail_world, path_buf, io_error) eff" where
  "bind_mount_source env s = (if is_proc_fd_path s then ret s else fs_canonicalize env s)"

definition bind_mount_source_for_mode ::
    "jail_env \<Rightarrow> path_buf \<Rightarrow> bind_mode \<Rightarrow> (jail_world, path_buf, jailer_error) eff" where
  "bind_mount_source_for_mode env s mode =
     bind_eff (map_err (JailerIo s) (bind_mount_source env s)) (\<lambda>mount_source.
       if mode = RoImageStore then
         bind_eff (map_err (JailerIo DEFAULT_STORE_ROOT) (fs_canonicalize env DEFAULT_STORE_ROOT)) (\<lambda>image_store_root.
           if \<not> path_has_prefix mount_source image_store_root
           then fail (BindSourceRejected s DEFAULT_STORE_ROOT)
           else ret mount_source)
       else ret mount_source)"

definition make_mounts_private :: "(jail_world, unit, jailer_error) eff" where
  "make_mounts_private = map_err MountPropagationFailed (sys_mount_private private_mount_flags)"

definition write_file_no_follow :: "jail_env \<Rightarrow> path_buf \<Rightarrow> u8 list \<Rightarrow> (jail_world, unit, jailer_error) eff" where
  "write_file_no_follow env p bs =
     map_err (JailerIo p) (on_writable env p (\<lambda>w. fs_write (visible env p w) bs w))"

subsection \<open>Materialization\<close>

record materialized_jail =
  mj_vm_id :: string
  mj_plan :: jail_plan
  mj_path :: path_buf
  bind_mounts :: "path_buf list"
  created_dirs :: "path_buf list"
  placeholder_files :: "path_buf list"

text \<open>The state of the loop in \<open>Plan::materialize\<close>: the guard under construction, the flag
  \<open>mount_propagation_private\<close> and the host.\<close>
record mat_state =
  guard :: materialized_jail
  made_private :: bool
  host :: jail_world

definition on_host :: "(jail_world, 'a, jailer_error) eff \<Rightarrow> (mat_state, 'a, jailer_error) eff" where
  "on_host m s = (case m (host s) of (r, w) \<Rightarrow> (r, s\<lparr>host := w\<rparr>))"

definition push_guard :: "(materialized_jail \<Rightarrow> materialized_jail) \<Rightarrow> (mat_state, unit, jailer_error) eff" where
  "push_guard f s = (Ok (), s\<lparr>guard := f (guard s)\<rparr>)"

definition create_dir_step :: "jail_env \<Rightarrow> path_buf \<Rightarrow> u32 \<Rightarrow> (mat_state, unit, jailer_error) eff" where
  "create_dir_step env p m s =
     bind_eff (on_host (map_err (JailerIo p) (sys_mkdir env p m))) (\<lambda>_.
     bind_eff (on_host (map_err (JailerIo p)
       (sys_chown env p (if p = mj_path (guard s) then 0 else jail_uid (plan_config (mj_plan (guard s))))
          (jail_gid (plan_config (mj_plan (guard s))))))) (\<lambda>_.
     push_guard (\<lambda>j. j\<lparr>created_dirs := created_dirs j @ [p]\<rparr>))) s"

definition ensure_private :: "(mat_state, unit, jailer_error) eff" where
  "ensure_private s =
     (if made_private s then (Ok (), s)
      else bind_eff (on_host make_mounts_private) (\<lambda>_ s. (Ok (), s\<lparr>made_private := True\<rparr>)) s)"

definition write_placeholder :: "jail_env \<Rightarrow> path_buf \<Rightarrow> (mat_state, unit, jailer_error) eff" where
  "write_placeholder env d =
     bind_eff (on_host (write_file_no_follow env d [])) (\<lambda>_.
     push_guard (\<lambda>j. j\<lparr>placeholder_files := placeholder_files j @ [d]\<rparr>))"

definition finish_bind ::
    "jail_env \<Rightarrow> path_buf \<Rightarrow> path_buf \<Rightarrow> path_buf \<Rightarrow> bind_mode \<Rightarrow> jailer_config \<Rightarrow> (mat_state, unit, jailer_error) eff" where
  "finish_bind env s mount_source d mode config =
     (if is_read_only_bind_mode mode
      then on_host (map_err (BindFailed s d) (sys_remount env d (bind_remount_flags_for_mode mode)))
      else
        bind_eff (on_host (map_err (BindFailed s d) (sys_chown env mount_source (jail_uid config) (jail_gid config)))) (\<lambda>_.
        on_host (map_err (BindFailed s d) (sys_remount env d bind_remount_flags))))"

definition bind_step :: "jail_env \<Rightarrow> path_buf \<Rightarrow> path_buf \<Rightarrow> bind_mode \<Rightarrow> (mat_state, unit, jailer_error) eff" where
  "bind_step env s d mode st =
     bind_eff ensure_private (\<lambda>_.
     bind_eff (on_host (bind_mount_source_for_mode env s mode)) (\<lambda>mount_source.
     bind_eff (on_host (map_err (JailerIo s) (metadata_is_dir env mount_source))) (\<lambda>source_is_dir.
     bind_eff (on_host (is_dir env d)) (\<lambda>dest_is_dir.
     bind_eff (if \<not> dest_is_dir \<and> \<not> source_is_dir then write_placeholder env d else ret ()) (\<lambda>_.
     bind_eff (on_host (map_err (BindFailed s d)
       (sys_mount_bind env mount_source d (bind_mount_flags source_is_dir dest_is_dir)))) (\<lambda>_.
     bind_eff (push_guard (\<lambda>j. j\<lparr>bind_mounts := bind_mounts j @ [d]\<rparr>)) (\<lambda>_.
     finish_bind env s mount_source d mode (plan_config (mj_plan (guard st)))))))))) st"

fun apply_step :: "jail_env \<Rightarrow> plan_step \<Rightarrow> (mat_state, unit, jailer_error) eff" where
  "apply_step env (CreateDir p m) = create_dir_step env p m"
| "apply_step env (Bind s d mode) = bind_step env s d mode"
| "apply_step env (Socket _) = ret ()"

text \<open>The two JSON files written at the end.\<close>
definition write_json :: "jail_env \<Rightarrow> path_buf \<Rightarrow> u8 list option \<Rightarrow> (jail_world, unit, jailer_error) eff" where
  "write_json env p json =
     (case json of None \<Rightarrow> fail (JailerIo p OtherIo) | Some bs \<Rightarrow> write_file_no_follow env p bs)"

definition persist_plan :: "jail_env \<Rightarrow> jail_plan \<Rightarrow> (jail_world, unit, jailer_error) eff" where
  "persist_plan env plan =
     bind_eff (write_json env (path_push (run_dir (plan_config plan)) [Normal JAILER_PLAN_FILE]) (plan_json env plan)) (\<lambda>_.
     write_json env (path_push (run_dir (plan_config plan)) [Normal JAILER_STATE_FILE])
       (state_json env \<lparr>state_schema_version = 1, state_jailer_pid = None, state_firecracker_pid = None\<rparr>))"

text \<open>\<open>Drop\<close>: every failure is logged and skipped.\<close>
fun attempt_all :: "('p \<Rightarrow> (jail_world, unit, io_error) eff) \<Rightarrow> 'p list \<Rightarrow> jail_world \<Rightarrow> jail_world" where
  "attempt_all f [] w = w"
| "attempt_all f (p # ps) w = attempt_all f ps (snd (f p w))"

definition drop_jail :: "jail_env \<Rightarrow> materialized_jail \<Rightarrow> jail_world \<Rightarrow> jail_world" where
  "drop_jail env j w =
     attempt_all (sys_remove_dir env) (rev (created_dirs j))
       (attempt_all (sys_remove_file env) (rev (placeholder_files j))
         (attempt_all (sys_umount_detach env) (rev (bind_mounts j)) w))"

definition fresh_jail :: "jail_plan \<Rightarrow> path_buf \<Rightarrow> string \<Rightarrow> materialized_jail" where
  "fresh_jail plan root vm =
     \<lparr>mj_vm_id = vm, mj_plan = plan, mj_path = root, bind_mounts = [], created_dirs = [], placeholder_files = []\<rparr>"

text \<open>The two directories above the jail root that the official jailer expects; nobody removes them.\<close>
definition create_jail_parent :: "jail_env \<Rightarrow> path_buf \<Rightarrow> (jail_world, unit, jailer_error) eff" where
  "create_jail_parent env root =
     (case path_buf_parent root of
        None \<Rightarrow> ret ()
      | Some parent \<Rightarrow> map_err (JailerIo parent) (create_dir_all env parent))"

definition run_plan :: "jail_env \<Rightarrow> jail_plan \<Rightarrow> (mat_state, unit, jailer_error) eff" where
  "run_plan env plan =
     bind_eff (for_each (apply_step env) (plan_steps plan)) (\<lambda>_. on_host (persist_plan env plan))"

text \<open>The guard is constructed before the loop, so an early return drops it.\<close>
definition guarded ::
    "jail_env \<Rightarrow> (mat_state, unit, jailer_error) eff \<Rightarrow> mat_state \<Rightarrow> (materialized_jail, jailer_error) result \<times> jail_world" where
  "guarded env m s =
     (case m s of
        (Ok _, s') \<Rightarrow> (Ok (guard s'), host s')
      | (Err e, s') \<Rightarrow> (Err e, drop_jail env (guard s') (host s')))"

definition materialize_inner ::
    "jail_env \<Rightarrow> jail_plan \<Rightarrow> path_buf \<Rightarrow> string \<Rightarrow> (jail_world, materialized_jail, jailer_error) eff" where
  "materialize_inner env plan root vm =
     bind_eff (create_jail_parent env root) (\<lambda>_ w.
       guarded env (run_plan env plan) \<lparr>guard = fresh_jail plan root vm, made_private = False, host = w\<rparr>)"

text \<open>\<open>UmaskGuard\<close> is declared first and dropped last. \<open>None\<close> is the panic on a path without a basename.\<close>
definition materialize ::
    "jail_env \<Rightarrow> jail_plan \<Rightarrow> jail_world \<Rightarrow> ((materialized_jail, jailer_error) result \<times> jail_world) option" where
  "materialize env plan w =
     (case (jail_root_path (run_dir (plan_config plan)) (firecracker_bin (plan_config plan)),
            file_name (run_dir (plan_config plan))) of
        (Some root, Some vm) \<Rightarrow>
          (case materialize_inner env plan root vm (w\<lparr>umask_now := 0\<rparr>) of
             (r, w') \<Rightarrow> Some (r, w'\<lparr>umask_now := umask_now w\<rparr>))
      | _ \<Rightarrow> None)"

end
