(* ===== verification/Jail_Mounts.thy ===== *)
theory Jail_Mounts
  imports Jail_Materialize
begin

text \<open>
  What \<open>Plan::materialize\<close> and the \<open>Drop\<close> of its guard do to the mount table of the host. The table is seen as
  a stack: on top of the mounts that were there before lies one block per completed bind, newest first, and a
  lazy unmount of the newest destination takes exactly the newest block away.
\<close>

subsection \<open>The stack of binds\<close>

text \<open>A block is the bind itself and, newer, the submounts \<open>MS_REC\<close> copied below its destination. \<open>ok k t older\<close>
  is what is claimed of the bind of \<open>k\<close> and the table it was mounted on.\<close>
fun stacked ::
    "('k \<Rightarrow> fpath) \<Rightarrow> ('k \<Rightarrow> mount_entry \<Rightarrow> mount_entry list \<Rightarrow> bool) \<Rightarrow> mount_entry list \<Rightarrow> 'k list \<Rightarrow>
     mount_entry list \<Rightarrow> bool" where
  "stacked pt ok base [] ms = (ms = base)"
| "stacked pt ok base (k # ks) ms =
     (\<exists>subs t older. ms = subs @ t # older \<and> mnt_point t = pt k \<and> ok k t older \<and>
        (\<forall>s \<in> set subs. under (pt k) (mnt_point s) \<and> mnt_point s \<noteq> pt k) \<and> stacked pt ok base ks older)"

lemma under_antisym: "under p q \<Longrightarrow> under q p \<Longrightarrow> p = q"
  by (auto simp: under_iff)

lemma takeWhile_subs:
  assumes "\<forall>s \<in> set subs. under p (mnt_point s) \<and> mnt_point s \<noteq> p" and "mnt_point t = p"
  shows "takeWhile (\<lambda>m. \<not> under (mnt_point m) p) (subs @ t # older) = subs"
    and "dropWhile (\<lambda>m. \<not> under (mnt_point m) p) (subs @ t # older) = t # older"
  using assms by (induction subs) (auto dest: under_antisym)

lemma detach_stacked:
  assumes "stacked pt ok base (k # ks) ms"
  obtains older where "detach ms (pt k) = Some older" and "stacked pt ok base ks older"
proof -
  from assms obtain subs t older where ms: "ms = subs @ t # older" and t: "mnt_point t = pt k"
    and subs: "\<forall>s \<in> set subs. under (pt k) (mnt_point s) \<and> mnt_point s \<noteq> pt k"
    and older: "stacked pt ok base ks older"
    by auto
  have "filter (\<lambda>n. \<not> under (pt k) (mnt_point n)) subs = []" using subs by (auto simp: filter_empty_conv)
  then have "detach ms (pt k) = Some older"
    unfolding detach_def ms takeWhile_subs [OF subs t] using t by simp
  with older that show thesis by blast
qed

lemma remount_block:
  assumes "\<forall>s \<in> set subs. under p (mnt_point s) \<and> mnt_point s \<noteq> p" and "mnt_point t = p"
  shows "remount (subs @ t # older) p opts = Some (subs @ t\<lparr>mnt_opts := opts\<rparr> # older)"
  using assms by (induction subs) (auto dest: under_antisym)

lemma remount_stacked:
  assumes "stacked pt ok base (k # ks) ms" and "remount ms (pt k) opts = Some ms'"
    and "\<And>t older. ok k t older \<Longrightarrow> ok' k (t\<lparr>mnt_opts := opts\<rparr>) older"
    and "\<And>ms. stacked pt ok base ks ms \<Longrightarrow> stacked pt ok' base ks ms"
  shows "stacked pt ok' base (k # ks) ms'"
proof -
  from assms(1) obtain subs t older where ms: "ms = subs @ t # older" and t: "mnt_point t = pt k"
    and ok: "ok k t older" and subs: "\<forall>s \<in> set subs. under (pt k) (mnt_point s) \<and> mnt_point s \<noteq> pt k"
    and older: "stacked pt ok base ks older"
    by auto
  have "remount ms (pt k) opts = Some (subs @ t\<lparr>mnt_opts := opts\<rparr> # older)"
    unfolding ms by (rule remount_block [OF subs t])
  with assms(2) have "ms' = subs @ t\<lparr>mnt_opts := opts\<rparr> # older" by simp
  with t ok subs older assms(3,4) show ?thesis by (auto intro!: exI [where x = subs])
qed

lemma bind_entries_subs:
  "\<forall>m \<in> set (if MS_REC \<in> flags then submounts ms s d else []). under d (mnt_point m) \<and> mnt_point m \<noteq> d"
  by (auto simp: submounts_def under_iff dest!: set_takeWhileD)

lemma bind_entries_stacked:
  assumes "stacked pt ok base ks ms"
    and "ok k \<lparr>mnt_point = pt k, mnt_root = resolve_mounts ms s,
              mnt_opts = (case covering ms s of None \<Rightarrow> {} | Some m \<Rightarrow> mnt_opts m)\<rparr> ms"
  shows "stacked pt ok base (k # ks) (bind_entries ms s (pt k) flags @ ms)"
  using assms bind_entries_subs [of flags ms s "pt k"]
  unfolding stacked.simps bind_entries_def
  by (intro exI [where x = "if MS_REC \<in> flags then submounts ms s (pt k) else []"]) auto

text \<open>A bind that is then remounted with the final options.\<close>
lemma bind_remount_stacked:
  assumes "stacked pt ok base ks ms" and "remount (bind_entries ms s (pt k) flags @ ms) (pt k) opts = Some ms'"
    and "ok k \<lparr>mnt_point = pt k, mnt_root = resolve_mounts ms s, mnt_opts = opts\<rparr> ms"
  shows "stacked pt ok base (k # ks) ms'"
proof -
  define subs where "subs = (if MS_REC \<in> flags then submounts ms s (pt k) else [])"
  have subs: "\<forall>m \<in> set subs. under (pt k) (mnt_point m) \<and> mnt_point m \<noteq> pt k"
    unfolding subs_def by (rule bind_entries_subs)
  have "ms' = subs @ \<lparr>mnt_point = pt k, mnt_root = resolve_mounts ms s, mnt_opts = opts\<rparr> # ms"
    using assms(2) remount_block [OF subs, of _ ms opts] by (simp add: bind_entries_def subs_def)
  with assms(1,3) subs show ?thesis unfolding stacked.simps by (intro exI [where x = subs]) auto
qed

text \<open>The mount a name is served by is not changed by binds that are not at or above the name.\<close>
lemma covering_append_skip: "\<forall>m \<in> set xs. \<not> under (mnt_point m) p \<Longrightarrow> covering (xs @ ms) p = covering ms p"
  by (induction xs) auto

lemma covering_stacked_skip:
  assumes "stacked pt ok base ks ms" and "\<forall>k \<in> set ks. \<not> under (pt k) p"
  shows "covering ms p = covering base p"
  using assms
proof (induction ks arbitrary: ms)
  case (Cons k ks)
  then obtain subs t older where ms: "ms = subs @ t # older" and t: "mnt_point t = pt k"
    and subs: "\<forall>s \<in> set subs. under (pt k) (mnt_point s)" and older: "stacked pt ok base ks older"
    by auto
  have "\<forall>m \<in> set (subs @ [t]). \<not> under (mnt_point m) p"
    using Cons.prems(2) subs t by (auto dest: under_trans)
  with covering_append_skip [of "subs @ [t]" p older] Cons.IH [OF older] Cons.prems(2) show ?case
    by (simp add: ms)
qed simp

lemma covering_stacked:
  assumes "stacked pt ok base (newer @ k # ks) ms" and "\<forall>j \<in> set newer. \<not> under (pt j) (pt k)"
  obtains t older where "covering ms (pt k) = Some t" and "mnt_point t = pt k" and "ok k t older"
    and "stacked pt ok base ks older"
proof -
  have "\<exists>t older. covering ms (pt k) = Some t \<and> mnt_point t = pt k \<and> ok k t older \<and> stacked pt ok base ks older"
    using assms
  proof (induction newer arbitrary: ms)
    case Nil
    then obtain subs t older where "ms = subs @ t # older" "mnt_point t = pt k" "ok k t older"
      "\<forall>s \<in> set subs. under (pt k) (mnt_point s) \<and> mnt_point s \<noteq> pt k" "stacked pt ok base ks older"
      by auto
    moreover from this have "covering ms (pt k) = Some t"
      using covering_append_skip [of subs "pt k" "t # older"] by (auto dest: under_antisym)
    ultimately show ?case by blast
  next
    case (Cons j newer)
    then obtain subs t older where ms: "ms = subs @ t # older" and t: "mnt_point t = pt j"
      and subs: "\<forall>s \<in> set subs. under (pt j) (mnt_point s)" and older: "stacked pt ok base (newer @ k # ks) older"
      by auto
    have "\<forall>m \<in> set (subs @ [t]). \<not> under (mnt_point m) (pt k)"
      using Cons.prems(2) subs t by (auto dest: under_trans)
    then have "covering ms (pt k) = covering older (pt k)"
      using covering_append_skip [of "subs @ [t]" "pt k" older] by (simp add: ms)
    with Cons.IH [OF older] Cons.prems(2) show ?case by auto
  qed
  with that show thesis by blast
qed

subsection \<open>Calls that leave the mount table alone\<close>

definition quiet :: "(jail_world, 'a, 'e) eff \<Rightarrow> bool" where
  "quiet m \<longleftrightarrow> (\<forall>w. mounts (snd (m w)) = mounts w \<and> (mounts_private w \<longrightarrow> mounts_private (snd (m w))))"

named_theorems quiet_calls \<open>calls that leave the mount table alone\<close>

lemma quietD: "quiet m \<Longrightarrow> m w = (r, w') \<Longrightarrow> mounts w' = mounts w \<and> (mounts_private w \<longrightarrow> mounts_private w')"
  by (metis quiet_def snd_conv)

lemma quiet_fs_only: "fs_only S m \<Longrightarrow> quiet m"
proof -
  assume *: "fs_only S m"
  have same: "mounts w' = mounts w \<and> mounts_private w' = mounts_private w" if "fs.more w' = fs.more w" for w w' :: jail_world
    using that by (cases w; cases w') simp
  have "fs.more (snd (m w)) = fs.more w" for w using * by (simp add: fs_only_def)
  then have "mounts (snd (m w)) = mounts w \<and> mounts_private (snd (m w)) = mounts_private w" for w by (rule same)
  then show ?thesis by (simp add: quiet_def)
qed

lemma quiet_bind [intro]:
  assumes "quiet m" and "\<And>a. quiet (f a)"
  shows "quiet (bind_eff m f)"
  unfolding quiet_def
proof
  fix w
  obtain r w' where m: "m w = (r, w')" by fastforce
  from quietD [OF assms(1) m] assms(2)
  show "mounts (snd (bind_eff m f w)) = mounts w \<and> (mounts_private w \<longrightarrow> mounts_private (snd (bind_eff m f w)))"
    by (cases r) (auto simp: m bind_eff_def quiet_def)
qed

lemma quiet_map_err [intro]: "quiet m \<Longrightarrow> quiet (map_err g m)"
  by (auto simp: quiet_def map_err_def split: prod.splits result.splits) (metis snd_conv)+

lemma quiet_pure [simp]: "quiet (ret a)" "quiet (fail e)"
  by (simp_all add: quiet_def)

lemma quiet_at: "(\<And>q. quiet (f q)) \<Longrightarrow> quiet (\<lambda>w. f (g w) w)"
  by (simp add: quiet_def)

lemma take_fault_mounts [simp]:
  "mounts (snd (take_fault w)) = mounts w" "mounts_private (snd (take_fault w)) = mounts_private w"
  "owners (snd (take_fault w)) = owners w"
  by (cases "faults w"; simp add: take_fault_def)+

lemma quiet_on_writable [intro]: "quiet m \<Longrightarrow> quiet (on_writable env p m)"
  by (auto simp: quiet_def on_writable_def)

lemma quiet_mkdir [quiet_calls]: "quiet (sys_mkdir env p m)"
  unfolding sys_mkdir_def
  using quietD [OF quiet_fs_only [OF fs_only_writes(2)]]
  by (intro quiet_on_writable) (auto simp: quiet_def bind_eff_def split: prod.splits result.splits)

lemma quiet_queries [quiet_calls]: "quiet (is_dir env p)" "quiet (metadata_is_dir env p)" "quiet (fs_canonicalize env p)"
proof -
  show "quiet (is_dir env p)"
    unfolding is_dir_def [abs_def]
    by (rule quiet_at [where f = path_is_dir and g = "visible env p"]) (rule quiet_fs_only [OF fs_only_reads(3)])
  show "quiet (metadata_is_dir env p)" "quiet (fs_canonicalize env p)"
    by (auto simp: quiet_def metadata_is_dir_def fs_canonicalize_def prod.case_eq_if split: fault.splits option.splits)
qed

lemma quiet_chown [quiet_calls]: "quiet (sys_chown env p u g)"
  by (auto simp: quiet_def sys_chown_def on_writable_def prod.case_eq_if split: fault.splits)

lemma quiet_private [quiet_calls]: "quiet (sys_mount_private flags)" "quiet make_mounts_private"
proof -
  show "quiet (sys_mount_private flags)"
    by (auto simp: quiet_def sys_mount_private_def prod.case_eq_if split: fault.splits)
  then show "quiet make_mounts_private"
    unfolding make_mounts_private_def
    by (auto simp: quiet_def map_err_def sys_mount_private_def prod.case_eq_if split: fault.splits result.splits)
qed

lemma quiet_write [quiet_calls]: "quiet (write_file_no_follow env p bs)"
  unfolding write_file_no_follow_def
  by (intro quiet_map_err quiet_on_writable quiet_at [where f = "\<lambda>q. fs_write q bs" and g = "visible env p"])
    (rule quiet_fs_only [OF fs_only_writes(1)])

lemma quiet_source [quiet_calls]: "quiet (bind_mount_source_for_mode env s mode)"
proof -
  have "quiet (if c then m else m')" if "quiet m" "quiet m'" for c and m m' :: "(jail_world, path_buf, 'e) eff"
    using that by simp
  then show ?thesis
    unfolding bind_mount_source_for_mode_def bind_mount_source_def
    by (intro quiet_bind quiet_map_err quiet_queries quiet_pure) (auto intro!: quiet_bind quiet_map_err quiet_queries)
qed

lemma quiet_persist [quiet_calls]: "quiet (write_json env p json)" "quiet (persist_plan env plan)"
proof -
  show json: "quiet (write_json env p json)" for p json
    by (cases json) (auto simp: write_json_def intro: quiet_calls)
  show "quiet (persist_plan env plan)" unfolding persist_plan_def by (auto intro: json)
qed

lemma quiet_removals [quiet_calls]: "quiet (sys_remove_file env p)" "quiet (sys_remove_dir env p)"
proof -
  show "quiet (sys_remove_file env p)"
    unfolding sys_remove_file_def
    by (intro quiet_on_writable quiet_at [where f = fs_remove_file and g = "visible env p"])
      (rule quiet_fs_only [OF fs_only_writes(3)])
  show "quiet (sys_remove_dir env p)"
    by (auto simp: quiet_def sys_remove_dir_def on_writable_def prod.case_eq_if split: fault.splits option.splits node.splits)
qed

text \<open>An invariant of the calls on every prefix of a path is an invariant of \<open>create_dir_all\<close>.\<close>
lemma create_dir_all_keeps:
  assumes "\<And>q r. p = q @ r \<Longrightarrow> keeps P (sys_mkdir env q 0x1FF) \<and> keeps P (is_dir env q)"
  shows "keeps P (create_dir_all env p)"
  using assms
proof (induction p rule: rev_induct)
  case Nil
  show ?case by (simp add: keeps_def create_dir_all.simps)
next
  case (snoc c p)
  have mkdir: "P w' \<Longrightarrow> sys_mkdir env (p @ [c]) 0x1FF w' = (r, w'') \<Longrightarrow> P w''"
    and isdir: "P w' \<Longrightarrow> is_dir env (p @ [c]) w' = (r', w'') \<Longrightarrow> P w''" for w' w'' r r'
    using snoc.prems [of "p @ [c]" "[]"] by (metis append_Nil2 keepsD snd_conv)+
  have "keeps P (create_dir_all env p)" using snoc.prems by (intro snoc.IH) simp
  then have rest: "P w' \<Longrightarrow> create_dir_all env p w' = (r, w'') \<Longrightarrow> P w''" for w' w'' r
    by (metis keepsD snd_conv)
  show ?case
  proof
    fix w
    assume w: "P w"
    obtain r1 w1 where 1: "sys_mkdir env (p @ [c]) 0x1FF w = (r1, w1)" by fastforce
    obtain r2 w2 where 2: "is_dir env (p @ [c]) w1 = (r2, w2)" by fastforce
    obtain r3 w3 where 3: "create_dir_all env p w1 = (r3, w3)" by fastforce
    obtain r4 w4 where 4: "sys_mkdir env (p @ [c]) 0x1FF w3 = (r4, w4)" by fastforce
    obtain r5 w5 where 5: "is_dir env (p @ [c]) w4 = (r5, w5)" by fastforce
    have inv: "P w1" "P w2" "P w3" "P w4" "P w5"
      using mkdir [OF w 1] isdir [OF _ 2] rest [OF _ 3] mkdir [OF _ 4] isdir [OF _ 5] by blast+
    have "snd (create_dir_all env (p @ [c]) w) \<in> {w1, w2, w3, w4, w5}"
    proof -
      have q: "path_buf_parent (p @ [c]) = None \<or> path_buf_parent (p @ [c]) = Some p" by (simp add: path_buf_parent_def)
      show ?thesis
        unfolding create_dir_all.simps [of env "p @ [c]" w] 1 using 2 3 4 5 q
        by (cases r1; cases r2; cases r3; cases r4; cases r5) (auto split: bool.splits)
    qed
    with inv show "P (snd (create_dir_all env (p @ [c]) w))" by auto
  qed
qed

lemma quiet_create_dir_all [quiet_calls]: "quiet (create_dir_all env p)"
  unfolding quiet_def
proof
  fix w :: jail_world
  have "keeps (\<lambda>w'. mounts w' = mounts w \<and> (mounts_private w \<longrightarrow> mounts_private w')) (create_dir_all env p)"
    using quiet_mkdir quiet_queries(1) by (intro create_dir_all_keeps) (auto simp: keeps_def quiet_def)
  then show "mounts (snd (create_dir_all env p w)) = mounts w \<and>
      (mounts_private w \<longrightarrow> mounts_private (snd (create_dir_all env p w)))"
    by (auto simp: keeps_def)
qed

lemma attempt_all_quiet: "(\<And>p. quiet (f p)) \<Longrightarrow> mounts (attempt_all f ps w) = mounts w"
  by (induction ps arbitrary: w) (auto simp: quiet_def)

subsection \<open>The stack while a plan is applied\<close>

text \<open>The invariant of the loop: the guard lists exactly the binds that are mounted, and none was made before the
  mount table was private.\<close>
definition in_step :: "jail_env \<Rightarrow> mount_entry list \<Rightarrow> mat_state \<Rightarrow> bool" where
  "in_step env base s \<longleftrightarrow>
     stacked (locate env) (\<lambda>_ _ _. True) base (rev (bind_mounts (guard s))) (mounts (host s)) \<and>
     (made_private s \<longrightarrow> mounts_private (host s)) \<and> (bind_mounts (guard s) \<noteq> [] \<longrightarrow> made_private s)"

definition newest :: "path_buf \<Rightarrow> mat_state \<Rightarrow> bool" where
  "newest d s \<longleftrightarrow> bind_mounts (guard s) \<noteq> [] \<and> last (bind_mounts (guard s)) = d"

lemma on_host_quiet [simp]:
  assumes "quiet m"
  shows "mounts (host (snd (on_host m s))) = mounts (host s)"
    "mounts_private (host s) \<Longrightarrow> mounts_private (host (snd (on_host m s)))"
  using assms by (auto simp: on_host_def quiet_def prod.case_eq_if)

lemma on_host_frame [simp]: "guard (snd (on_host m s)) = guard s" "made_private (snd (on_host m s)) = made_private s"
  by (simp_all add: on_host_def prod.case_eq_if)

lemma in_step_quiet: "quiet m \<Longrightarrow> keeps (\<lambda>s. in_step env base s \<and> Q (guard s)) (on_host m)"
  by (auto simp: keeps_def in_step_def)

lemma in_step_host: "quiet m \<Longrightarrow> keeps (in_step env base) (on_host m)"
  using in_step_quiet [where Q = "\<lambda>_. True"] by simp

lemma in_step_push:
  assumes "\<And>j. bind_mounts (f j) = bind_mounts j"
  shows "keeps (in_step env base) (push_guard f)"
  by (auto simp: keeps_def in_step_def push_guard_def assms)

lemma in_step_private: "keeps (in_step env base) ensure_private"
  unfolding keeps_def ensure_private_def make_mounts_private_def
  by (auto simp: in_step_def bind_eff_def on_host_def map_err_def sys_mount_private_def private_mount_flags_def
    prod.case_eq_if split: fault.splits result.splits prod.splits)

lemma bind_eff_assoc: "bind_eff m (\<lambda>a. bind_eff (f a) g) = bind_eff (bind_eff m f) g"
  by (rule ext) (auto simp: bind_eff_def split: prod.splits result.splits)

text \<open>A bind and its entry in the guard, seen as one step.\<close>
definition mount_and_push ::
    "jail_env \<Rightarrow> path_buf \<Rightarrow> path_buf \<Rightarrow> path_buf \<Rightarrow> ms_flag set \<Rightarrow> (mat_state, unit, jailer_error) eff" where
  "mount_and_push env s src d flags =
     bind_eff (on_host (map_err (BindFailed s d) (sys_mount_bind env src d flags)))
       (\<lambda>_. push_guard (\<lambda>j. j\<lparr>bind_mounts := bind_mounts j @ [d]\<rparr>))"

lemma mount_and_push_cases:
  obtains e h where "mount_and_push env s src d flags st = (Err e, st\<lparr>host := h\<rparr>)"
      "mounts h = mounts (host st)" "mounts_private h = mounts_private (host st)"
  | h where "mount_and_push env s src d flags st =
        (Ok (), st\<lparr>host := h, guard := (guard st)\<lparr>bind_mounts := bind_mounts (guard st) @ [d]\<rparr>\<rparr>)"
      "mounts h = bind_entries (mounts (host st)) (locate env src) (locate env d) flags @ mounts (host st)"
      "mounts_private h = mounts_private (host st)"
proof -
  obtain f w' where f: "take_fault (host st) = (f, w')" by fastforce
  then have w': "mounts w' = mounts (host st)" "mounts_private w' = mounts_private (host st)"
    by (metis snd_conv take_fault_mounts(1), metis snd_conv take_fault_mounts(2))
  show thesis
  proof (cases "sys_mount_bind env src d flags (host st)")
    case (Pair r h)
    show thesis
    proof (cases r)
      case (Ok u)
      with Pair f w' have "mounts h = bind_entries (mounts (host st)) (locate env src) (locate env d) flags @ mounts (host st)"
        "mounts_private h = mounts_private (host st)"
        by (auto simp: sys_mount_bind_def split: fault.splits option.splits if_splits)
      with that(2) [of h] Pair Ok show thesis
        by (simp add: mount_and_push_def bind_eff_def on_host_def map_err_def push_guard_def)
    next
      case (Err e)
      with Pair f w' have "mounts h = mounts (host st)" "mounts_private h = mounts_private (host st)"
        by (auto simp: sys_mount_bind_def split: fault.splits option.splits if_splits)
      with that(1) [of "BindFailed s d e" h] Pair Err show thesis
        by (simp add: mount_and_push_def bind_eff_def on_host_def map_err_def)
    qed
  qed
qed

lemma in_step_mount:
  assumes inv: "in_step env base st" and priv: "made_private st"
  shows "in_step env base (snd (mount_and_push env s src d flags st)) \<and>
    (\<forall>u st'. mount_and_push env s src d flags st = (Ok u, st') \<longrightarrow> newest d st')"
proof (cases rule: mount_and_push_cases [of env s src d flags st])
  case (1 e h)
  with inv show ?thesis by (simp add: in_step_def)
next
  case (2 h)
  have "stacked (locate env) (\<lambda>_ _ _. True) base (d # rev (bind_mounts (guard st))) (mounts h)"
    unfolding 2(2) using inv by (intro bind_entries_stacked) (simp_all add: in_step_def)
  with 2 inv priv show ?thesis by (simp add: in_step_def newest_def)
qed

lemma remount_call_cases:
  obtains e h where "on_host (map_err f (sys_remount env d flags)) st = (Err e, st\<lparr>host := h\<rparr>)"
      "mounts h = mounts (host st)" "mounts_private h = mounts_private (host st)"
  | h where "on_host (map_err f (sys_remount env d flags)) st = (Ok (), st\<lparr>host := h\<rparr>)"
      "remount (mounts (host st)) (locate env d) (flags - {MS_BIND, MS_REMOUNT}) = Some (mounts h)"
      "mounts_private h = mounts_private (host st)"
proof -
  obtain fl w' where fl: "take_fault (host st) = (fl, w')" by fastforce
  then have w': "mounts w' = mounts (host st)" "mounts_private w' = mounts_private (host st)"
    by (metis snd_conv take_fault_mounts(1), metis snd_conv take_fault_mounts(2))
  show thesis
  proof (cases "fl = Works \<and> remount (mounts w') (locate env d) (flags - {MS_BIND, MS_REMOUNT}) \<noteq> None")
    case True
    then obtain ms where "remount (mounts w') (locate env d) (flags - {MS_BIND, MS_REMOUNT}) = Some ms" by blast
    with that(2) [of "w'\<lparr>mounts := ms\<rparr>"] True fl w' show thesis
      by (simp add: on_host_def map_err_def sys_remount_def)
  next
    case False
    with that(1) [of "f OtherIo" w'] fl w' show thesis
      by (cases fl) (simp_all add: on_host_def map_err_def sys_remount_def)
  qed
qed

lemma in_step_remount:
  "keeps (\<lambda>s. in_step env base s \<and> newest d s) (on_host (map_err f (sys_remount env d flags)))"
proof
  fix s
  assume inv: "in_step env base s \<and> newest d s"
  then obtain ds where ds: "rev (bind_mounts (guard s)) = d # ds"
    by (cases "bind_mounts (guard s)" rule: rev_cases) (auto simp: newest_def)
  have st: "stacked (locate env) (\<lambda>_ _ _. True) base (d # ds) (mounts (host s))"
    using inv by (simp only: in_step_def ds)
  show "in_step env base (snd (on_host (map_err f (sys_remount env d flags)) s)) \<and>
      newest d (snd (on_host (map_err f (sys_remount env d flags)) s))"
  proof (cases rule: remount_call_cases [of f env d flags s])
    case (1 e h)
    with inv show ?thesis by (simp add: in_step_def newest_def)
  next
    case (2 h)
    have "stacked (locate env) (\<lambda>_ _ _. True) base (d # ds) (mounts h)"
      by (rule remount_stacked [OF st 2(2)]) simp_all
    with 2 inv show ?thesis by (simp add: in_step_def newest_def ds del: stacked.simps)
  qed
qed

lemma in_step_finish: "keeps (\<lambda>s. in_step env base s \<and> newest d s) (finish_bind env src src' d mode config)"
proof -
  have "keeps (\<lambda>s. in_step env base s \<and> newest d s)
      (on_host (map_err (BindFailed src d) (sys_chown env src' (jail_uid config) (jail_gid config))))"
    using in_step_quiet [OF quiet_map_err [OF quiet_chown], where Q = "\<lambda>j. bind_mounts j \<noteq> [] \<and> last (bind_mounts j) = d"]
    by (simp add: newest_def)
  then show ?thesis
    unfolding finish_bind_def using in_step_remount by (auto intro!: keeps_bind)
qed

lemma ensure_private_Ok: "ensure_private s = (Ok u, s') \<Longrightarrow> made_private s'"
  by (auto simp: ensure_private_def result_simps split: if_splits)

text \<open>From the bind on, a step keeps the invariant whatever fails.\<close>
lemma in_step_mount_finish:
  assumes "in_step env base s" and "made_private s"
  shows "in_step env base (snd (bind_eff (mount_and_push env src src' d flags) (\<lambda>_. finish_bind env src src' d mode config) s))"
proof -
  obtain r s' where m: "mount_and_push env src src' d flags s = (r, s')" by fastforce
  note inv = in_step_mount [OF assms, of src src' d flags, unfolded m]
  show ?thesis
  proof (cases r)
    case (Ok u)
    with inv have "in_step env base s' \<and> newest d s'" by simp
    with keepsD [OF in_step_finish] have "in_step env base (snd (finish_bind env src src' d mode config s'))" by fast
    with m Ok show ?thesis by simp
  qed (use inv m in simp)
qed

definition prepared :: "jail_env \<Rightarrow> mount_entry list \<Rightarrow> mat_state \<Rightarrow> bool" where
  "prepared env base s \<longleftrightarrow> in_step env base s \<and> made_private s"

lemma prepared_keeps:
  "keeps (in_step env base) m \<Longrightarrow> (\<And>s. made_private s \<Longrightarrow> made_private (snd (m s))) \<Longrightarrow> keeps (prepared env base) m"
  by (auto simp: keeps_def prepared_def)

lemma prepared_quiet: "quiet m \<Longrightarrow> keeps (prepared env base) (on_host m)"
  by (intro prepared_keeps in_step_host) simp_all

text \<open>The invariant of a loop body whose first part establishes \<open>Q\<close> and whose rest needs it.\<close>
lemma keeps_bind_establish:
  assumes "keeps P m" and "\<And>s a s'. P s \<Longrightarrow> m s = (Ok a, s') \<Longrightarrow> Q s'" and "\<And>a s. Q s \<Longrightarrow> P (snd (f a s))"
  shows "keeps P (bind_eff m f)"
proof (rule keepsI)
  fix s
  assume P: "P s"
  obtain r s' where m: "m s = (r, s')" by fastforce
  show "P (snd (bind_eff m f s))"
  proof (cases r)
    case (Ok a)
    with assms(2) [OF P] m assms(3) show ?thesis by simp
  next
    case (Err e)
    with keepsD [OF assms(1) P] m show ?thesis by simp
  qed
qed

lemma bind_leads:
  assumes "keeps P m" and "\<And>s. P s \<Longrightarrow> Q s" and "\<And>a s. P s \<Longrightarrow> Q (snd (f a s))" and "P s"
  shows "Q (snd (bind_eff m f s))"
  using keepsD [OF assms(1,4)] assms(2,3) by (auto simp: bind_eff_def split: prod.splits result.splits)

lemma in_step_placeholder: "keeps (prepared env base) (write_placeholder env d)"
proof -
  have "keeps (prepared env base) (push_guard (\<lambda>j. j\<lparr>placeholder_files := placeholder_files j @ [d]\<rparr>))"
    by (intro prepared_keeps in_step_push) (simp_all add: push_guard_def)
  then show ?thesis
    unfolding write_placeholder_def by (intro keeps_bind prepared_quiet quiet_write)
qed

lemma bind_step_assoc:
  "bind_step env s d mode st =
     bind_eff ensure_private (\<lambda>_.
     bind_eff (on_host (bind_mount_source_for_mode env s mode)) (\<lambda>src.
     bind_eff (on_host (map_err (JailerIo s) (metadata_is_dir env src))) (\<lambda>source_is_dir.
     bind_eff (on_host (is_dir env d)) (\<lambda>dest_is_dir.
     bind_eff (if \<not> dest_is_dir \<and> \<not> source_is_dir then write_placeholder env d else ret ()) (\<lambda>_.
     bind_eff (mount_and_push env s src d (bind_mount_flags source_is_dir dest_is_dir)) (\<lambda>_.
     finish_bind env s src d mode (plan_config (mj_plan (guard st))))))))) st"
  by (simp add: bind_step_def mount_and_push_def bind_eff_assoc)

lemma in_step_bind: "keeps (in_step env base) (bind_step env s d mode)"
proof -
  define rest where "rest c = (\<lambda>_ :: unit.
     bind_eff (on_host (bind_mount_source_for_mode env s mode)) (\<lambda>src.
     bind_eff (on_host (map_err (JailerIo s) (metadata_is_dir env src))) (\<lambda>source_is_dir.
     bind_eff (on_host (is_dir env d)) (\<lambda>dest_is_dir.
     bind_eff (if \<not> dest_is_dir \<and> \<not> source_is_dir then write_placeholder env d else ret ()) (\<lambda>_.
     bind_eff (mount_and_push env s src d (bind_mount_flags source_is_dir dest_is_dir)) (\<lambda>_.
     finish_bind env s src d mode c))))))" for c
  note leads = bind_leads [where P = "prepared env base" and Q = "in_step env base"]
  have fin: "in_step env base st" if "prepared env base st" for st using that by (simp add: prepared_def)
  have mount: "in_step env base (snd (bind_eff (mount_and_push env s src d flags) (\<lambda>_. finish_bind env s src d mode c) st))"
    if "prepared env base st" for src flags c st
    using that in_step_mount_finish by (simp add: prepared_def)
  have ph: "keeps (prepared env base) (if b then write_placeholder env d else ret ())" for b
    by (simp add: in_step_placeholder)
  have "in_step env base (snd (rest c u st))" if st: "prepared env base st" for c u st
    unfolding rest_def
    apply (rule leads [OF prepared_quiet [OF quiet_source] fin _ st], assumption)
    apply (rule leads [OF prepared_quiet [OF quiet_map_err [OF quiet_queries(2)]] fin], assumption)
     apply (rule leads [OF prepared_quiet [OF quiet_queries(1)] fin], assumption)
      apply (rule leads [OF ph fin], assumption)
       apply (rule mount, assumption+)
    done
  moreover have "prepared env base s'" if "in_step env base s" "ensure_private s = (Ok a, s')" for s a s'
    using keepsD [OF in_step_private that(1)] ensure_private_Ok [OF that(2)] that(2) by (simp add: prepared_def)
  ultimately have "keeps (in_step env base) (bind_eff ensure_private (rest c))" for c
    by (intro keeps_bind_establish [where Q = "prepared env base"] in_step_private)
  then show ?thesis by (simp add: keeps_def bind_step_assoc rest_def)
qed

lemma in_step_apply: "keeps (in_step env base) (apply_step env step)"
proof (cases step)
  case (CreateDir p m)
  have "keeps (in_step env base)
      (bind_eff (on_host (map_err (JailerIo p) (sys_mkdir env p m))) (\<lambda>_.
       bind_eff (on_host (map_err (JailerIo p) (sys_chown env p u g))) (\<lambda>_.
       push_guard (\<lambda>j. j\<lparr>created_dirs := created_dirs j @ [p]\<rparr>))))" for u g
    by (intro keeps_bind in_step_host quiet_map_err quiet_mkdir quiet_chown in_step_push) simp
  with CreateDir show ?thesis by (simp add: keeps_def create_dir_step_def)
qed (simp_all add: in_step_bind)

subsection \<open>Teardown gives the mount table back\<close>

lemma umounts_restore:
  "stacked (locate env) ok base ds (mounts w) \<Longrightarrow> mounts (attempt_all (sys_umount_detach env) ds w) = base"
proof (induction ds arbitrary: w)
  case (Cons d ds)
  from Cons.prems obtain older where "detach (mounts w) (locate env d) = Some older" "stacked (locate env) ok base ds older"
    by (rule detach_stacked)
  with Cons.IH [of "w\<lparr>mounts := older\<rparr>"] show ?case by (simp add: sys_umount_detach_def)
qed simp

lemma drop_restores:
  assumes "stacked (locate env) ok base (rev (bind_mounts j)) (mounts w)"
  shows "mounts (drop_jail env j w) = base"
  unfolding drop_jail_def using umounts_restore [OF assms] by (simp add: attempt_all_quiet quiet_removals)

lemma quiet_create_jail_parent [quiet_calls]: "quiet (create_jail_parent env root)"
  unfolding create_jail_parent_def by (cases "path_buf_parent root") (auto intro!: quiet_map_err quiet_create_dir_all)

lemma in_step_run_plan: "keeps (in_step env base) (run_plan env plan)"
  unfolding run_plan_def by (intro keeps_bind keeps_for_each in_step_apply in_step_host quiet_persist)

lemma guarded_cases:
  assumes "in_step env base s" and "keeps (in_step env base) m"
  obtains e w' where "guarded env m s = (Err e, w')" "mounts w' = base"
  | s' where "guarded env m s = (Ok (guard s'), host s')" "m s = (Ok (), s')" "in_step env base s'"
proof -
  obtain r s' where m: "m s = (r, s')" by fastforce
  with keepsD [OF assms(2,1)] have inv: "in_step env base s'" by simp
  then have "mounts (drop_jail env (guard s') (host s')) = base"
    unfolding in_step_def by (intro drop_restores [where ok = "\<lambda>_ _ _. True"]) simp
  with that inv m show thesis by (cases r) (auto simp: guarded_def)
qed

lemma materialize_inner_cases:
  obtains e w1 where "materialize_inner env plan root vm w = (Err e, w1)" "mounts w1 = mounts w"
  | w1 s where "materialize_inner env plan root vm w = (Ok (guard s), host s)" "in_step env (mounts w) s"
      "create_jail_parent env root w = (Ok (), w1)"
      "run_plan env plan \<lparr>guard = fresh_jail plan root vm, made_private = False, host = w1\<rparr> = (Ok (), s)"
proof -
  obtain r w1 where parent: "create_jail_parent env root w = (r, w1)" by fastforce
  with quietD [OF quiet_create_jail_parent] have w1: "mounts w1 = mounts w" by blast
  define s0 where "s0 = \<lparr>guard = fresh_jail plan root vm, made_private = False, host = w1\<rparr>"
  have inv: "in_step env (mounts w) s0" by (simp add: in_step_def s0_def fresh_jail_def w1)
  show thesis
  proof (cases r)
    case (Err e)
    with that(1) parent w1 show thesis by (simp add: materialize_inner_def)
  next
    case (Ok u)
    then have "materialize_inner env plan root vm w = guarded env (run_plan env plan) s0"
      using parent by (simp add: materialize_inner_def s0_def)
    with that Ok parent show thesis
      by (cases rule: guarded_cases [OF inv in_step_run_plan [of env "mounts w" plan]]) (auto simp: s0_def)
  qed
qed


subsection \<open>What a completed jail shows\<close>

text \<open>The path that is mounted: the canonical source, or a descriptor of \<open>/proc\<close> as it is.\<close>
definition bound_source :: "jail_env \<Rightarrow> path_buf \<Rightarrow> path_buf" where
  "bound_source env s = (if is_proc_fd_path s then s else canon env s)"

definition bound_opts :: "bind_mode \<Rightarrow> ms_flag set" where
  "bound_opts m = {MS_NODEV, MS_NOEXEC, MS_NOSUID} \<union> (if m = Rw then {} else {MS_RDONLY})"

fun bound_as_planned :: "jail_env \<Rightarrow> plan_step \<Rightarrow> mount_entry \<Rightarrow> mount_entry list \<Rightarrow> bool" where
  "bound_as_planned env (Bind s d m) t older \<longleftrightarrow>
     (is_bind_mount_mode m \<longrightarrow> mnt_opts t = bound_opts m) \<and> mnt_root t = resolve_mounts older (locate env (bound_source env s)) \<and>
     (m = RoImageStore \<longrightarrow> path_has_prefix (bound_source env s) (canon env DEFAULT_STORE_ROOT))"
| "bound_as_planned env _ t older \<longleftrightarrow> False"

fun is_bind :: "plan_step \<Rightarrow> bool" where
  "is_bind (Bind _ _ _) = True"
| "is_bind _ = False"

abbreviation step_point :: "jail_env \<Rightarrow> plan_step \<Rightarrow> fpath" where
  "step_point env step \<equiv> locate env (step_target step)"

lemma bind_mount_source_Ok:
  "bind_mount_source env s w = (Ok src, w') \<Longrightarrow> src = bound_source env s"
  by (auto simp: bind_mount_source_def bound_source_def fs_canonicalize_def prod.case_eq_if split: if_splits fault.splits)

lemma fs_canonicalize_Ok: "fs_canonicalize env s w = (Ok src, w') \<Longrightarrow> src = canon env s"
  by (auto simp: fs_canonicalize_def prod.case_eq_if split: if_splits fault.splits)

lemma bind_mount_source_for_mode_Ok:
  assumes "bind_mount_source_for_mode env s mode w = (Ok src, w')"
  shows "src = bound_source env s \<and> (mode = RoImageStore \<longrightarrow> path_has_prefix src (canon env DEFAULT_STORE_ROOT))"
  using assms
  by (auto simp: bind_mount_source_for_mode_def result_simps dest!: bind_mount_source_Ok fs_canonicalize_Ok split: if_splits)

lemma remount_flags_opts:
  "is_bind_mount_mode m \<Longrightarrow> bind_remount_flags_for_mode m - {MS_BIND, MS_REMOUNT} = bound_opts m"
  "bind_remount_flags - {MS_BIND, MS_REMOUNT} = bound_opts Rw"
  by (auto simp: bind_remount_flags_for_mode_def bind_remount_flags_def bound_opts_def is_bind_mount_mode_def
    is_read_only_bind_mode_def)

lemma stacked_mono:
  "stacked pt ok base ks ms \<Longrightarrow> (\<And>k t older. k \<in> set ks \<Longrightarrow> ok k t older \<Longrightarrow> ok' k t older) \<Longrightarrow> stacked pt ok' base ks ms"
  by (induction ks arbitrary: ms) fastforce+

lemma on_host_Ok_quiet: "on_host m s = (Ok a, s') \<Longrightarrow> quiet m \<Longrightarrow> mounts (host s') = mounts (host s)"
  using on_host_quiet(1) [of m s] by simp

lemma finish_bind_remount:
  assumes "finish_bind env s src d m config st = (Ok u, st')" and "is_bind_mount_mode m"
  shows "remount (mounts (host st)) (locate env d) (bound_opts m) = Some (mounts (host st'))"
proof -
  have remount: "remount (mounts (host s1)) (locate env d) (flags - {MS_BIND, MS_REMOUNT}) = Some (mounts (host s2))"
    if "on_host (map_err f (sys_remount env d flags)) s1 = (Ok u, s2)" for f flags s1 s2
    using that by (cases rule: remount_call_cases [of f env d flags s1]) auto
  show ?thesis
  proof (cases "is_read_only_bind_mode m")
    case True
    with assms remount remount_flags_opts(1) show ?thesis by (force simp: finish_bind_def)
  next
    case False
    then have "m = Rw" using assms(2) by (auto simp: is_read_only_bind_mode_def is_bind_mount_mode_def)
    with False assms(1) remount [where flags = bind_remount_flags] show ?thesis
      by (force simp: finish_bind_def result_simps remount_flags_opts(2)
        dest: on_host_Ok_quiet [OF _ quiet_map_err [OF quiet_chown]])
  qed
qed

lemma bind_step_Ok:
  assumes "bind_step env s d m st = (Ok u, st')" and "is_bind_mount_mode m"
    and stk: "stacked (step_point env) (bound_as_planned env) base ks (mounts (host st))"
  shows "stacked (step_point env) (bound_as_planned env) base (Bind s d m # ks) (mounts (host st'))"
proof -
  obtain s1 src s2 sd s3 dd s4 s5 s6 where
    1: "ensure_private st = (Ok (), s1)" and
    2: "on_host (bind_mount_source_for_mode env s m) s1 = (Ok src, s2)" and
    3: "on_host (map_err (JailerIo s) (metadata_is_dir env src)) s2 = (Ok sd, s3)" and
    4: "on_host (is_dir env d) s3 = (Ok dd, s4)" and
    5: "(if \<not> dd \<and> \<not> sd then write_placeholder env d else ret ()) s4 = (Ok (), s5)" and
    6: "mount_and_push env s src d (bind_mount_flags sd dd) s5 = (Ok (), s6)" and
    7: "finish_bind env s src d m (plan_config (mj_plan (guard st))) s6 = (Ok u, st')"
    using assms(1) unfolding bind_step_assoc bind_eff_eq_Ok by auto
  have "mounts (host s1) = mounts (host st)"
    using 1 by (auto simp: ensure_private_def result_simps split: if_splits dest: on_host_Ok_quiet [OF _ quiet_private(2)])
  moreover have "mounts (host s5) = mounts (host s4)"
    using 5 by (auto simp: write_placeholder_def result_simps push_guard_def split: if_splits
      dest: on_host_Ok_quiet [OF _ quiet_write])
  ultimately have s5: "mounts (host s5) = mounts (host st)"
    using on_host_Ok_quiet [OF 2 quiet_source] on_host_Ok_quiet [OF 3 quiet_map_err [OF quiet_queries(2)]]
      on_host_Ok_quiet [OF 4 quiet_queries(1)] by simp
  have src: "src = bound_source env s \<and> (m = RoImageStore \<longrightarrow> path_has_prefix src (canon env DEFAULT_STORE_ROOT))"
    using 2 by (auto simp: on_host_def split: prod.splits dest!: bind_mount_source_for_mode_Ok)
  have "mounts (host s6) = bind_entries (mounts (host st)) (locate env src) (locate env d) (bind_mount_flags sd dd) @ mounts (host st)"
    using 6 s5 by (cases rule: mount_and_push_cases [of env s src d "bind_mount_flags sd dd" s5]) auto
  with finish_bind_remount [OF 7 assms(2)] src
    bind_remount_stacked [OF stk, of "locate env src" "Bind s d m" "bind_mount_flags sd dd" "bound_opts m" "mounts (host st')"]
  show ?thesis by (auto simp del: stacked.simps)
qed

lemma create_dir_step_mounts: "create_dir_step env p m st = (Ok u, st') \<Longrightarrow> mounts (host st') = mounts (host st)"
  by (auto simp: create_dir_step_def result_simps push_guard_def dest!: on_host_Ok_quiet
    intro!: quiet_map_err quiet_calls)

lemma run_steps_Ok:
  assumes "for_each (apply_step env) steps st = (Ok u, st')"
    and "stacked (step_point env) (bound_as_planned env) base ks (mounts (host st))"
    and "\<forall>s d m. Bind s d m \<in> set steps \<longrightarrow> is_bind_mount_mode m"
  shows "stacked (step_point env) (bound_as_planned env) base (rev (filter is_bind steps) @ ks) (mounts (host st'))"
  using assms
proof (induction steps arbitrary: st ks)
  case (Cons step steps)
  from Cons.prems(1) obtain st1 where 1: "apply_step env step st = (Ok (), st1)"
    and 2: "for_each (apply_step env) steps st1 = (Ok u, st')"
    by (auto simp: result_simps)
  have modes: "\<forall>s d m. Bind s d m \<in> set steps \<longrightarrow> is_bind_mount_mode m" using Cons.prems(3) by simp
  show ?case
  proof (cases step)
    case (CreateDir p m)
    with 1 Cons.prems(2) have "stacked (step_point env) (bound_as_planned env) base ks (mounts (host st1))"
      using create_dir_step_mounts by simp
    from Cons.IH [OF 2 this modes] CreateDir show ?thesis by simp
  next
    case (Bind s d m)
    with 1 Cons.prems(2,3) have "stacked (step_point env) (bound_as_planned env) base (Bind s d m # ks) (mounts (host st1))"
      using bind_step_Ok [of env s d m st "()" st1 base ks] by (simp del: stacked.simps)
    from Cons.IH [OF 2 this modes] Bind show ?thesis by (simp del: stacked.simps)
  next
    case (Socket p)
    with 1 Cons.prems(2) Cons.IH [OF 2 _ modes] show ?thesis by simp
  qed
qed simp

lemma binds_of_targets: "binds_of steps = map step_target (filter is_bind steps)"
  by (induction steps rule: binds_of.induct) auto

lemma computed_bind_modes:
  assumes "plan_compute c = Some (Ok plan)" and "Bind s d m \<in> set (plan_steps plan)"
  shows "is_bind_mount_mode m"
proof -
  obtain root where acc: "acceptable_config c" and plan: "plan_steps plan = compute_steps root c"
    using assms(1) by (auto elim!: plan_compute_OkD)
  obtain dirs where "plan_steps plan =
      CreateDir root JAIL_ROOT_MODE # dirs @ bind_steps root (bindings c) @ socket_steps root (sockets c)"
    and dirs: "\<forall>s \<in> set dirs. \<exists>p. s = CreateDir (root @ p) JAIL_INTERNAL_DIR_MODE \<and> inner_dest p"
    using compute_steps_shape [OF acc] plan by metis
  with assms(2) show ?thesis by (auto simp: bind_steps_def socket_steps_def)
qed

lemma materialize_OkD:
  assumes "materialize env plan w = Some (Ok j, w')"
  obtains root vm w1 s u where "create_jail_parent env root (w\<lparr>umask_now := 0\<rparr>) = (Ok (), w1)" "mounts w1 = mounts w"
    "run_plan env plan \<lparr>guard = fresh_jail plan root vm, made_private = False, host = w1\<rparr> = (Ok (), s)"
    "w' = (host s)\<lparr>umask_now := u\<rparr>" "j = guard s"
    "jail_root_path (run_dir (plan_config plan)) (firecracker_bin (plan_config plan)) = Some root"
    "file_name (run_dir (plan_config plan)) = Some vm"
proof -
  obtain root vm w2 where inner: "materialize_inner env plan root vm (w\<lparr>umask_now := 0\<rparr>) = (Ok j, w2)"
    and names: "jail_root_path (run_dir (plan_config plan)) (firecracker_bin (plan_config plan)) = Some root"
      "file_name (run_dir (plan_config plan)) = Some vm"
    and w': "w' = w2\<lparr>umask_now := umask_now w\<rparr>"
    using assms by (auto simp: materialize_def split: option.splits prod.splits)
  obtain w1 s where "create_jail_parent env root (w\<lparr>umask_now := 0\<rparr>) = (Ok (), w1)"
    "run_plan env plan \<lparr>guard = fresh_jail plan root vm, made_private = False, host = w1\<rparr> = (Ok (), s)"
    "w2 = host s" "j = guard s"
    using inner by (cases rule: materialize_inner_cases [of env plan root vm "w\<lparr>umask_now := 0\<rparr>"]) auto
  moreover from this(1) quietD [OF quiet_create_jail_parent] have "mounts w1 = mounts w" by fastforce
  ultimately show thesis using that w' names by blast
qed


end
