(* ===== verification/Jail_Files.thy ===== *)
theory Jail_Files
  imports Jail_Mounts
begin

text \<open>
  Which files of the host \<open>Plan::materialize\<close> and the teardown of its guard can touch: with destinations that are
  not nested in each other, none outside the run directory, whatever fails. The plan does not check for nested
  destinations; the last section shows what happens then, and what \<open>MS_REC\<close> does to the mount options.
\<close>

subsection \<open>Calls inside the run directory\<close>

text \<open>Nothing outside \<open>run\<close> differs from the tree \<open>ns\<close>, and \<open>run\<close> itself is still a directory.\<close>
definition contained :: "fpath \<Rightarrow> (fpath \<Rightarrow> node option) \<Rightarrow> jail_world \<Rightarrow> bool" where
  "contained run ns w \<longleftrightarrow> nodes w run = Some DirNode \<and> (\<forall>q. \<not> under run q \<longrightarrow> nodes w q = ns q)"

definition inside :: "fpath \<Rightarrow> fpath \<Rightarrow> bool" where
  "inside run q \<longleftrightarrow> under run q \<and> q \<noteq> run"

lemma contained_cong: "nodes w' = nodes w \<Longrightarrow> contained run ns w' = contained run ns w"
  by (simp add: contained_def)

lemma contained_only:
  assumes "contained run ns w" and "fs_only (\<lambda>q. q = p) m" and "inside run p"
  shows "contained run ns (snd (m w))"
proof -
  have "nodes (snd (m w)) q = nodes w q" if "q \<noteq> p" for q using assms(2) that by (simp add: fs_only_def)
  with assms(1,3) show ?thesis by (auto simp: contained_def inside_def) metis
qed

lemma take_fault_contained [simp]: "contained run ns (snd (take_fault w)) = contained run ns w"
  by (rule contained_cong) simp

lemma contained_map_err: "contained run ns (snd (map_err g m w)) = contained run ns (snd (m w))"
  by (auto simp: map_err_def split: prod.splits result.splits)

lemma contained_mkdir:
  assumes "contained run ns w" and "inside run (visible env p w)"
  shows "contained run ns (snd (sys_mkdir env p m w))"
proof -
  obtain r w' where 1: "fs_create_dir (visible env p w) w = (r, w')" by fastforce
  with contained_only [OF assms(1) fs_only_writes(2) assms(2)] have "contained run ns w'" by simp
  with 1 assms(1) show ?thesis by (cases r) (auto simp: sys_mkdir_def on_writable_def contained_def)
qed

lemma contained_calls:
  assumes "contained run ns w"
  shows "contained run ns (snd (sys_chown env p u g w))" "contained run ns (snd (is_dir env p w))"
    "contained run ns (snd (metadata_is_dir env p w))" "contained run ns (snd (fs_canonicalize env p w))"
    "contained run ns (snd (make_mounts_private w))" "contained run ns (snd (bind_mount_source_for_mode env p mode w))"
    "contained run ns (snd (sys_mount_bind env p d flags w))" "contained run ns (snd (sys_remount env d flags w))"
proof -
  have w: "nodes (snd (take_fault w)) = nodes w" for w :: jail_world by simp
  have canon: "nodes (snd (fs_canonicalize env p w)) = nodes w" for p w
    by (auto simp: fs_canonicalize_def prod.case_eq_if split: fault.splits)
  have source: "nodes (snd (bind_mount_source env p w)) = nodes w" for p w
    by (simp add: bind_mount_source_def canon)
  have same: "contained run ns w'" if "nodes w' = nodes w" for w' using assms contained_cong [OF that] by simp
  show "contained run ns (snd (sys_chown env p u g w))" "contained run ns (snd (is_dir env p w))"
    "contained run ns (snd (metadata_is_dir env p w))" "contained run ns (snd (fs_canonicalize env p w))"
    "contained run ns (snd (make_mounts_private w))"
    "contained run ns (snd (sys_mount_bind env p d flags w))" "contained run ns (snd (sys_remount env d flags w))"
    by (intro same; auto simp: sys_chown_def on_writable_def is_dir_def path_is_dir_def fs_query_def metadata_is_dir_def canon
      make_mounts_private_def map_err_def sys_mount_private_def sys_mount_bind_def sys_remount_def prod.case_eq_if
      split: fault.splits option.splits)+
  have "nodes (snd (bind_mount_source_for_mode env p mode w)) = nodes w"
  proof -
    obtain r w1 where 1: "bind_mount_source env p w = (r, w1)" by fastforce
    obtain r2 w2 where 2: "fs_canonicalize env DEFAULT_STORE_ROOT w1 = (r2, w2)" by fastforce
    from 1 2 source [of p w] canon [of DEFAULT_STORE_ROOT w1] show ?thesis
      by (cases r; cases r2) (auto simp: bind_mount_source_for_mode_def bind_eff_def map_err_def)
  qed
  then show "contained run ns (snd (bind_mount_source_for_mode env p mode w))" by (rule same)
qed

lemma contained_write:
  assumes "contained run ns w" and "inside run (visible env p w)"
  shows "contained run ns (snd (write_file_no_follow env p bs w))"
  using assms(1) contained_only [OF assms(1) fs_only_writes(1) assms(2)]
  by (simp add: write_file_no_follow_def contained_map_err on_writable_def)

lemma contained_remove:
  assumes "contained run ns w" and "inside run (visible env p w)"
  shows "contained run ns (snd (sys_remove_file env p w))" "contained run ns (snd (sys_remove_dir env p w))"
proof -
  show "contained run ns (snd (sys_remove_file env p w))"
    using assms(1) contained_only [OF assms(1) fs_only_writes(3) assms(2)]
    by (simp add: sys_remove_file_def on_writable_def)
  have "visible env p (snd (take_fault w)) = visible env p w" by (simp add: visible_def)
  with assms show "contained run ns (snd (sys_remove_dir env p w))"
    by (auto simp: sys_remove_dir_def on_writable_def contained_def inside_def prod.case_eq_if split: fault.splits option.splits node.splits)
qed

subsection \<open>Names below the run directory\<close>

text \<open>Below the run directory names are read literally: no symbolic link is planted there.\<close>
definition literal_below :: "jail_env \<Rightarrow> path_buf \<Rightarrow> bool" where
  "literal_below env rd \<longleftrightarrow> (\<forall>ns. locate env (rd @ map Normal ns) = locate env rd @ ns)"

text \<open>No mount is at, above or below the run directory before the jail is built.\<close>
definition clear_of :: "fpath \<Rightarrow> mount_entry list \<Rightarrow> bool" where
  "clear_of run ms \<longleftrightarrow> (\<forall>m \<in> set ms. \<not> under run (mnt_point m) \<and> \<not> under (mnt_point m) run)"

lemma under_comparable: "under a p \<Longrightarrow> under b p \<Longrightarrow> under a b \<or> under b a"
  unfolding under_def by (metis min.absorb_iff1 min.absorb_iff2 nle_le take_take)

lemma covering_clear: "clear_of run ms \<Longrightarrow> under run p \<Longrightarrow> covering ms p = None"
  by (induction ms) (auto simp: clear_of_def dest: under_comparable)

lemma inside_literal: "literal_below env rd \<Longrightarrow> ns \<noteq> [] \<Longrightarrow> inside (locate env rd) (locate env (rd @ map Normal ns))"
  by (simp add: literal_below_def inside_def)

lemma literal1: "literal_below env rd \<Longrightarrow> locate env (rd @ [Normal n]) = locate env rd @ [n]"
  unfolding literal_below_def by (metis list.simps(8,9))

text \<open>While a plan is applied, a name that no completed bind covers is read as it is.\<close>
lemma visible_uncovered:
  assumes "in_step env base s" and "clear_of run base" and "under run (locate env p)"
    and "\<forall>a \<in> set (bind_mounts (guard s)). \<not> under (locate env a) (locate env p)"
  shows "visible env p (host s) = locate env p"
proof -
  have "covering (mounts (host s)) (locate env p) = covering base (locate env p)"
    using assms(1,4) by (intro covering_stacked_skip [where ok = "\<lambda>_ _ _. True" and ks = "rev (bind_mounts (guard s))"])
      (auto simp: in_step_def)
  with covering_clear [OF assms(2,3)] show ?thesis by (simp add: visible_def resolve_mounts_def)
qed

subsection \<open>Applying a plan\<close>

definition files_inv ::
    "jail_env \<Rightarrow> fpath \<Rightarrow> (fpath \<Rightarrow> node option) \<Rightarrow> path_buf set \<Rightarrow> mat_state \<Rightarrow> bool" where
  "files_inv env run ns D s \<longleftrightarrow>
     contained run ns (host s) \<and> set (bind_mounts (guard s)) \<subseteq> D \<and>
     (\<forall>p \<in> set (created_dirs (guard s)) \<union> set (placeholder_files (guard s)). inside run (locate env p))"

lemma keeps_conj: "keeps P m \<Longrightarrow> keeps Q m \<Longrightarrow> keeps (\<lambda>s. P s \<and> Q s) m"
  by (simp add: keeps_def)

lemma files_on_host:
  "(\<And>w. contained run ns w \<Longrightarrow> contained run ns (snd (m w))) \<Longrightarrow> keeps (files_inv env run ns D) (on_host m)"
  by (auto simp: keeps_def files_inv_def on_host_def split: prod.splits) (metis snd_conv)

lemma files_private: "keeps (files_inv env run ns D) ensure_private"
proof -
  have "keeps (files_inv env run ns D) (bind_eff (on_host make_mounts_private) (\<lambda>_ s. (Ok (), s\<lparr>made_private := True\<rparr>)))"
    by (intro keeps_bind files_on_host contained_calls) (simp_all add: keeps_def files_inv_def)
  then show ?thesis by (simp add: ensure_private_def keeps_def)
qed

lemma files_mount:
  assumes "files_inv env run ns D s"
  shows "files_inv env run ns (insert d D) (snd (mount_and_push env src src' d flags s))"
proof -
  obtain r w where 1: "sys_mount_bind env src' d flags (host s) = (r, w)" by fastforce
  moreover have "contained run ns w"
    using contained_calls(7) [of run ns "host s" env src' d flags] assms 1 by (simp add: files_inv_def)
  ultimately show ?thesis
    using assms by (cases r) (auto simp: mount_and_push_def files_inv_def bind_eff_def on_host_def map_err_def push_guard_def)
qed

lemma files_finish: "keeps (files_inv env run ns D) (finish_bind env src src' d mode config)"
proof -
  have "keeps (files_inv env run ns D) (on_host (map_err f (sys_remount env d flags)))"
    "keeps (files_inv env run ns D) (on_host (map_err f (sys_chown env p u g)))" for f flags p u g
    by (intro files_on_host; simp add: contained_map_err contained_calls)+
  then show ?thesis unfolding finish_bind_def by (auto intro!: keeps_bind)
qed

lemma files_mount_finish:
  assumes "files_inv env run ns D s"
  shows "files_inv env run ns (insert d D)
    (snd (bind_eff (mount_and_push env src src' d flags) (\<lambda>_. finish_bind env src src' d mode config) s))"
proof -
  obtain r s' where m: "mount_and_push env src src' d flags s = (r, s')" by fastforce
  with files_mount [OF assms, of d src src' flags] have "files_inv env run ns (insert d D) s'" by simp
  with m keepsD [OF files_finish] show ?thesis by (cases r) simp_all
qed

lemma files_placeholder:
  assumes "clear_of run base" and "inside run (locate env d)" and "\<forall>a \<in> D. \<not> under (locate env a) (locate env d)"
  shows "keeps (\<lambda>s. prepared env base s \<and> files_inv env run ns D s) (write_placeholder env d)"
proof (rule keepsI)
  fix s
  assume s: "prepared env base s \<and> files_inv env run ns D s"
  then have "visible env d (host s) = locate env d"
    using assms by (intro visible_uncovered) (auto simp: prepared_def files_inv_def inside_def)
  then have c: "contained run ns (snd (write_file_no_follow env d [] (host s)))"
    using s assms(2) by (intro contained_write) (auto simp: files_inv_def)
  obtain r w where 1: "write_file_no_follow env d [] (host s) = (r, w)" by fastforce
  with c s assms(2) have "files_inv env run ns D (snd (write_placeholder env d s))"
    by (cases r) (auto simp: write_placeholder_def bind_eff_def on_host_def push_guard_def files_inv_def)
  with keepsD [OF in_step_placeholder] s
  show "prepared env base (snd (write_placeholder env d s)) \<and> files_inv env run ns D (snd (write_placeholder env d s))"
    by blast
qed

lemma files_bind:
  assumes "clear_of run base" and "inside run (locate env d)" and "\<forall>a \<in> D. \<not> under (locate env a) (locate env d)"
    and "in_step env base s0" and "files_inv env run ns D s0"
  shows "files_inv env run ns (insert d D) (snd (bind_step env s d mode s0))"
proof -
  let ?P = "\<lambda>s. prepared env base s \<and> files_inv env run ns D s" and ?Q = "files_inv env run ns (insert d D)"
  have fin: "?Q s" if "?P s" for s using that by (auto simp: files_inv_def)
  have host: "keeps ?P (on_host m)" if "quiet m" "\<And>w. contained run ns w \<Longrightarrow> contained run ns (snd (m w))"
    for m :: "(jail_world, 'x, jailer_error) eff"
    by (intro keeps_conj prepared_quiet files_on_host that)
  have ph: "keeps ?P (if b then write_placeholder env d else ret ())" for b
    using files_placeholder [OF assms(1-3)] by simp
  have mount: "?Q (snd (bind_eff (mount_and_push env s src d flags) (\<lambda>_. finish_bind env s src d mode c) st))"
    if "?P st" for src flags c st
    using that files_mount_finish by blast
  note leads = bind_leads [where P = ?P and Q = ?Q]
  obtain r s1 where 1: "ensure_private s0 = (r, s1)" by fastforce
  with keepsD [OF in_step_private assms(4)] keepsD [OF files_private assms(5)] ensure_private_Ok [of s0 _ s1]
  have s1: "files_inv env run ns D s1" and P: "r = Ok u \<Longrightarrow> ?P s1" for u
    by (auto simp: prepared_def)
  show ?thesis
  proof (cases r)
    case (Err e)
    with 1 s1 show ?thesis by (auto simp: bind_step_assoc files_inv_def)
  next
    case (Ok u)
    have "?Q (snd (bind_eff (on_host (bind_mount_source_for_mode env s mode)) (\<lambda>src.
     bind_eff (on_host (map_err (JailerIo s) (metadata_is_dir env src))) (\<lambda>source_is_dir.
     bind_eff (on_host (is_dir env d)) (\<lambda>dest_is_dir.
     bind_eff (if \<not> dest_is_dir \<and> \<not> source_is_dir then write_placeholder env d else ret ()) (\<lambda>_.
     bind_eff (mount_and_push env s src d (bind_mount_flags source_is_dir dest_is_dir)) (\<lambda>_.
     finish_bind env s src d mode c))))) s1))" for c
      apply (rule leads [OF host [OF quiet_source contained_calls(6)] fin _ P [OF Ok]], assumption+)
      apply (rule leads [OF host [OF quiet_map_err [OF quiet_queries(2)]] fin], simp add: contained_map_err contained_calls(3), assumption)
       apply (rule leads [OF host [OF quiet_queries(1) contained_calls(2)] fin], assumption+)
        apply (rule leads [OF ph fin], assumption)
         apply (rule mount, assumption+)
      done
    with 1 Ok show ?thesis by (simp add: bind_step_assoc)
  qed
qed

lemma files_create_dir:
  assumes "clear_of run base" and "inside run (locate env p)" and "in_step env base s" and "bind_mounts (guard s) = []"
    and "files_inv env run ns D s"
  shows "files_inv env run ns D (snd (create_dir_step env p m s)) \<and>
    bind_mounts (guard (snd (create_dir_step env p m s))) = []"
proof -
  have "visible env p (host s) = locate env p"
    using assms by (intro visible_uncovered) (auto simp: inside_def)
  then have c1: "contained run ns (snd (sys_mkdir env p m (host s)))"
    using assms by (intro contained_mkdir) (auto simp: files_inv_def)
  obtain r1 w1 where 1: "sys_mkdir env p m (host s) = (r1, w1)" by fastforce
  obtain r2 w2 where 2: "sys_chown env p (if p = mj_path (guard s) then 0 else jail_uid (plan_config (mj_plan (guard s))))
    (jail_gid (plan_config (mj_plan (guard s)))) w1 = (r2, w2)" by fastforce
  have "contained run ns w1" using c1 1 by simp
  moreover from this 2 contained_calls(1) have "contained run ns w2" by (metis snd_conv)
  ultimately show ?thesis
    using 1 2 assms(2,4,5)
    by (cases r1; cases r2) (auto simp: create_dir_step_def bind_eff_def on_host_def map_err_def push_guard_def files_inv_def)
qed

lemma files_dirs:
  assumes "clear_of run base" and "\<forall>s \<in> set dirs. \<exists>p m. s = CreateDir p m \<and> inside run (locate env p)"
    and "in_step env base s" and "bind_mounts (guard s) = []" and "files_inv env run ns D s"
  shows "files_inv env run ns D (snd (for_each (apply_step env) dirs s)) \<and>
    bind_mounts (guard (snd (for_each (apply_step env) dirs s))) = []"
  using assms(2-5)
proof (induction dirs arbitrary: s)
  case (Cons d dirs)
  then obtain p m where d: "d = CreateDir p m" "inside run (locate env p)" by auto
  obtain r s1 where 1: "create_dir_step env p m s = (r, s1)" by fastforce
  with files_create_dir [OF assms(1) d(2) Cons.prems(2-4), of m] keepsD [OF in_step_apply Cons.prems(2), of "CreateDir p m"]
  have s1: "files_inv env run ns D s1" "bind_mounts (guard s1) = []" "in_step env base s1" by simp_all
  with Cons.IH [of s1] Cons.prems(1) 1 d show ?case by (cases r) (simp_all add: bind_eff_def)
qed simp

lemma files_binds:
  assumes "clear_of run base"
    and "\<forall>s \<in> set steps. (\<exists>a d m. s = Bind a d m \<and> inside run (locate env d)) \<or> (\<exists>p. s = Socket p)"
    and "distinct (binds_of steps)" and "set (binds_of steps) \<inter> D = {}"
    and "\<forall>a \<in> D \<union> set (binds_of steps). \<forall>b \<in> set (binds_of steps). a \<noteq> b \<longrightarrow> \<not> under (locate env a) (locate env b)"
    and "in_step env base s" and "files_inv env run ns D s"
  shows "files_inv env run ns (D \<union> set (binds_of steps)) (snd (for_each (apply_step env) steps s))"
  using assms(2-7)
proof (induction steps arbitrary: s D)
  case (Cons step steps)
  show ?case
  proof (cases step)
    case (Socket p)
    with Cons.IH [of D s] Cons.prems show ?thesis by (simp add: bind_eff_def)
  next
    case (Bind a d m)
    with Cons.prems have d: "inside run (locate env d)" "\<forall>x \<in> D. \<not> under (locate env x) (locate env d)" by auto
    obtain r s1 where 1: "bind_step env a d m s = (r, s1)" by fastforce
    with files_bind [OF assms(1) d Cons.prems(5,6), of a m] keepsD [OF in_step_bind Cons.prems(5), of a d m]
    have s1: "files_inv env run ns (insert d D) s1" "in_step env base s1" by simp_all
    show ?thesis
    proof (cases r)
      case (Err e)
      with 1 s1 Bind show ?thesis by (auto simp: bind_eff_def files_inv_def)
    next
      case (Ok u)
      have "files_inv env run ns (insert d D \<union> set (binds_of steps)) (snd (for_each (apply_step env) steps s1))"
        using Cons.prems Bind s1 by (intro Cons.IH) auto
      with 1 Ok Bind show ?thesis by (simp add: bind_eff_def)
    qed
  next
    case (CreateDir p m)
    with Cons.prems(1) show ?thesis by auto
  qed
qed (auto simp: bind_eff_def)

subsection \<open>Around the loop\<close>

lemma contained_one_dir:
  assumes "literal_below env rd" and "clear_of (locate env rd) (mounts w)" and "contained (locate env rd) ns w"
  shows "contained (locate env rd) ns (snd (create_dir_all env (rd @ [Normal e]) w))"
proof -
  let ?run = "locate env rd" and ?p = "rd @ [Normal e]"
  have vis: "visible env ?p w' = ?run @ [e]" if "mounts w' = mounts w" for w'
    using covering_clear [OF assms(2), of "?run @ [e]"] that
    by (simp add: visible_def literal1 [OF assms(1)] resolve_mounts_def)
  obtain r1 w1 where 1: "sys_mkdir env ?p 0x1FF w = (r1, w1)" by fastforce
  obtain r2 w2 where 2: "is_dir env ?p w1 = (r2, w2)" by fastforce
  have c1: "contained ?run ns w1"
    using contained_mkdir [OF assms(3), of env ?p "0x1FF"] 1 vis [of w] by (simp add: inside_def)
  have c2: "contained ?run ns w2" using contained_calls(2) [OF c1, of env ?p] 2 by simp
  have "r1 \<noteq> Err NotFound"
  proof -
    have "parent_is_dir (nodes w) (?run @ [e])" using assms(3) by (simp add: parent_is_dir_def contained_def)
    then show ?thesis
      using 1 vis [of w] take_fault_nodes [of w]
      by (auto simp: sys_mkdir_def on_writable_def bind_eff_def fs_create_dir_def split: prod.splits fault.splits result.splits if_splits)
  qed
  with 1 2 c1 c2 show ?thesis
    unfolding create_dir_all.simps [of env ?p w] by (cases r1; cases r2) (auto split: bool.splits)
qed

lemma contained_two_dirs:
  assumes "literal_below env rd" and "clear_of (locate env rd) (mounts w)" and "contained (locate env rd) ns w"
  shows "contained (locate env rd) ns (snd (create_dir_all env (rd @ [Normal e, Normal i]) w))"
proof -
  let ?run = "locate env rd" and ?p = "rd @ [Normal e, Normal i]"
  have loc: "locate env ?p = ?run @ [e, i]"
    using assms(1) unfolding literal_below_def by (metis list.simps(8,9))
  have in_run: "inside ?run (visible env ?p w')" if "mounts w' = mounts w" for w'
    using covering_clear [OF assms(2), of "?run @ [e, i]"] that by (simp add: visible_def loc resolve_mounts_def inside_def)
  obtain r1 w1 where 1: "sys_mkdir env ?p 0x1FF w = (r1, w1)" by fastforce
  obtain r2 w2 where 2: "is_dir env ?p w1 = (r2, w2)" by fastforce
  obtain r3 w3 where 3: "create_dir_all env (rd @ [Normal e]) w1 = (r3, w3)" by fastforce
  obtain r4 w4 where 4: "sys_mkdir env ?p 0x1FF w3 = (r4, w4)" by fastforce
  obtain r5 w5 where 5: "is_dir env ?p w4 = (r5, w5)" by fastforce
  have m: "mounts w1 = mounts w" "mounts w3 = mounts w1"
    using quietD [OF quiet_mkdir 1] quietD [OF quiet_create_dir_all 3] by simp_all
  have c1: "contained ?run ns w1" using contained_mkdir [OF assms(3) in_run] 1 by (metis snd_conv)
  have c2: "contained ?run ns w2" using contained_calls(2) [OF c1, of env ?p] 2 by simp
  have c3: "contained ?run ns w3" using contained_one_dir [OF assms(1) _ c1, of e] assms(2) m 3 by simp
  have c4: "contained ?run ns w4" using contained_mkdir [OF c3 in_run] m 4 by (metis snd_conv)
  have c5: "contained ?run ns w5" using contained_calls(2) [OF c4, of env ?p] 5 by simp
  have "path_buf_parent ?p = Some (rd @ [Normal e])" by (simp add: path_buf_parent_def butlast_append)
  with 1 2 3 4 5 c1 c2 c3 c4 c5 show ?thesis
    unfolding create_dir_all.simps [of env ?p w]
    by (cases r1; cases r2; cases r3; cases r4; cases r5) (auto split: bool.splits)
qed

lemma contained_drop:
  assumes "in_step env base s" and "files_inv env run ns D s" and "clear_of run base"
  shows "contained run ns (drop_jail env (guard s) (host s))"
proof -
  define w1 where "w1 = attempt_all (sys_umount_detach env) (rev (bind_mounts (guard s))) (host s)"
  have nodes: "nodes (attempt_all (sys_umount_detach env) ds w) = nodes w" for ds w
    by (induction ds arbitrary: w) (auto simp: sys_umount_detach_def split: option.splits)
  have w1: "contained run ns w1 \<and> mounts w1 = base"
    using assms(1,2) umounts_restore [where ok = "\<lambda>_ _ _. True"] contained_cong [OF nodes]
    by (auto simp: w1_def in_step_def files_inv_def)
  have vis: "visible env p w = locate env p" if "inside run (locate env p)" "mounts w = base" for p w
    using covering_clear [OF assms(3), of "locate env p"] that by (simp add: visible_def resolve_mounts_def inside_def)
  have all: "contained run ns (attempt_all f ps w) \<and> mounts (attempt_all f ps w) = base"
    if "\<forall>p \<in> set ps. inside run (locate env p)" "contained run ns w \<and> mounts w = base" "\<And>p. quiet (f p)"
      "\<And>p w. contained run ns w \<Longrightarrow> inside run (visible env p w) \<Longrightarrow> contained run ns (snd (f p w))" for f ps w
    using that(1,2)
  proof (induction ps arbitrary: w)
    case (Cons p ps)
    have "contained run ns (snd (f p w))" using that(4) vis Cons.prems by auto
    moreover have "mounts (snd (f p w)) = base" using that(3) Cons.prems(2) by (simp add: quiet_def)
    ultimately show ?case using Cons.IH Cons.prems(1) by simp
  qed simp
  show ?thesis
    unfolding drop_jail_def w1_def [symmetric]
    using assms(2) w1 by (intro all [THEN conjunct1] all quiet_removals contained_remove) (auto simp: files_inv_def)
qed

lemma for_each_append: "for_each f (xs @ ys) = bind_eff (for_each f xs) (\<lambda>_. for_each f ys)"
  by (induction xs) (auto simp: bind_eff_def fun_eq_iff split: prod.splits result.splits)

lemma files_persist:
  assumes "literal_below env rd" and "clear_of (locate env rd) base" and "rd = run_dir (plan_config plan)"
    and "\<forall>d \<in> D. \<exists>ns. d = rd @ map Normal ns \<and> 1 < length ns"
    and "in_step env base s" and "files_inv env (locate env rd) ns D s"
  shows "files_inv env (locate env rd) ns D (snd (on_host (persist_plan env plan) s))"
proof -
  let ?run = "locate env rd"
  have uncovered: "\<not> under (locate env d) (?run @ [f])" if D: "d \<in> D" for d f
  proof -
    obtain ks where d: "d = rd @ map Normal ks" and ks: "1 < length ks" using assms(4) D by blast
    have "locate env d = ?run @ ks" unfolding d using assms(1) unfolding literal_below_def by (rule spec)
    moreover have "?run @ [f] \<noteq> (?run @ ks) @ r" for r using ks by (cases ks) auto
    ultimately show ?thesis by (simp only: under_iff) metis
  qed
  have json: "keeps (\<lambda>w. contained ?run ns w \<and> mounts w = mounts (host s)) (write_json env (path_push rd [Normal f]) js)" for f js
  proof (rule keepsI)
    fix w
    assume w: "contained ?run ns w \<and> mounts w = mounts (host s)"
    have "visible env (rd @ [Normal f]) (host s) = locate env (rd @ [Normal f])"
      using uncovered assms(6)
      by (intro visible_uncovered [OF assms(5,2)]) (auto simp: literal1 [OF assms(1)] files_inv_def)
    then have vis: "visible env (rd @ [Normal f]) w = ?run @ [f]" using w by (simp add: visible_def literal1 [OF assms(1)])
    show "contained ?run ns (snd (write_json env (path_push rd [Normal f]) js w)) \<and>
        mounts (snd (write_json env (path_push rd [Normal f]) js w)) = mounts (host s)"
      using w contained_write [of ?run ns w env "rd @ [Normal f]"] vis quiet_persist(1) [of env "rd @ [Normal f]" js]
      by (cases js) (auto simp: write_json_def inside_def quiet_def)
  qed
  have "keeps (\<lambda>w. contained ?run ns w \<and> mounts w = mounts (host s)) (persist_plan env plan)"
    unfolding persist_plan_def assms(3) [symmetric] by (intro keeps_bind json)
  with assms(6) show ?thesis by (auto simp: keeps_def files_inv_def on_host_def split: prod.splits)
qed

lemma files_run_plan:
  assumes plan: "plan_compute c = Some (Ok plan)" and lit: "literal_below env (run_dir c)"
    and clear: "clear_of (locate env (run_dir c)) base"
    and flat: "\<forall>a \<in> set (binds_of (plan_steps plan)). \<forall>b \<in> set (binds_of (plan_steps plan)).
      a \<noteq> b \<longrightarrow> \<not> under (locate env a) (locate env b)"
    and s: "in_step env base s" "bind_mounts (guard s) = []" "files_inv env (locate env (run_dir c)) ns {} s"
  shows "files_inv env (locate env (run_dir c)) ns (set (binds_of (plan_steps plan))) (snd (run_plan env plan s))"
proof -
  let ?run = "locate env (run_dir c)" and ?D = "set (binds_of (plan_steps plan))"
  obtain root where root: "jail_root_path (run_dir c) (firecracker_bin c) = Some root" and acc: "acceptable_config c"
    and p: "plan_steps plan = compute_steps root c" "plan_config plan = c"
    using plan by (auto elim!: plan_compute_OkD)
  obtain e i where root_eq: "root = run_dir c @ map Normal [e, i, ''root'']"
    using root by (auto simp: jail_root_path_iff)
  obtain dirs where steps: "plan_steps plan =
      (CreateDir root JAIL_ROOT_MODE # dirs) @ (bind_steps root (bindings c) @ socket_steps root (sockets c))"
    and dirs: "\<forall>s \<in> set dirs. \<exists>p. s = CreateDir (root @ p) JAIL_INTERNAL_DIR_MODE \<and> inner_dest p"
    using compute_steps_shape [OF acc] p(1) by (metis append_Cons)
  define A B where "A = CreateDir root JAIL_ROOT_MODE # dirs" and "B = bind_steps root (bindings c) @ socket_steps root (sockets c)"
  have below: "\<exists>ns. root @ q = run_dir c @ map Normal ns \<and> 1 < length ns" if "q = [] \<or> inner_dest q" for q
  proof (cases "q = []")
    case True
    with root_eq show ?thesis by (intro exI [where x = "[e, i, ''root'']"]) simp
  next
    case False
    with that obtain n ks where "q = map Normal (n # ks)" by (auto simp: inner_dest_def)
    with root_eq show ?thesis by (intro exI [where x = "[e, i, ''root'', n] @ ks"]) simp
  qed
  have ins: "inside ?run (locate env (root @ q))" if q: "q = [] \<or> inner_dest q" for q
  proof -
    obtain ks where ks: "root @ q = run_dir c @ map Normal ks" "1 < length ks" using below [OF q] by blast
    then have "ks \<noteq> []" by auto
    with inside_literal [OF lit] show ?thesis unfolding ks(1) by blast
  qed
  have bs: "\<forall>s \<in> set B. (\<exists>a d m. s = Bind a d m \<and> inside ?run (locate env d)) \<or> (\<exists>p. s = Socket p)"
    using acc ins by (auto simp: B_def acceptable_config_def dest!: set_bind_steps set_socket_steps)
  have AB: "plan_steps plan = A @ B" using steps by (simp add: A_def B_def)
  have nobinds: "binds_of A = []" unfolding A_def using dirs by (induction dirs rule: binds_of.induct) auto
  have As: "\<forall>s \<in> set A. \<exists>p m. s = CreateDir p m \<and> inside ?run (locate env p)"
    using dirs ins ins [of "[]"] by (fastforce simp: A_def)
  have dist: "distinct (binds_of B)" and D: "?D = set (binds_of B)"
    using plan_compute_binds_distinct [OF plan] by (simp_all add: AB nobinds)
  have deep: "\<forall>d \<in> ?D. \<exists>ns. d = run_dir c @ map Normal ns \<and> 1 < length ns"
  proof
    fix d
    assume "d \<in> ?D"
    then obtain b where "b \<in> set (bindings c)" "d = root @ bind_dest b" "inner_dest (bind_dest b)"
      using acc by (auto simp: D B_def bind_dests_def acceptable_config_def acceptable_bindings_def inner_dest_join)
    with below show "\<exists>ns. d = run_dir c @ map Normal ns \<and> 1 < length ns" by blast
  qed
  have loop: "keeps (in_step env base) (for_each (apply_step env) xs)" for xs
    by (intro keeps_for_each in_step_apply)
  obtain r1 s1 where 1: "for_each (apply_step env) A s = (r1, s1)" by fastforce
  with files_dirs [OF clear As s] keepsD [OF loop s(1), of A]
  have s1: "files_inv env ?run ns {} s1" "in_step env base s1" by simp_all
  obtain r2 s2 where 2: "for_each (apply_step env) B s1 = (r2, s2)" by fastforce
  have s2: "files_inv env ?run ns ?D s2" "in_step env base s2"
    using files_binds [OF clear bs dist _ _ s1(2,1)] flat keepsD [OF loop s1(2), of B] 2
    by (simp_all add: D)
  have "files_inv env ?run ns ?D (snd (on_host (persist_plan env plan) s2))"
    by (rule files_persist [OF lit clear _ deep s2(2,1)]) (simp add: p(2))
  with 1 2 s1 s2 show ?thesis
    by (cases r1; cases r2) (auto simp: run_plan_def AB for_each_append bind_eff_def files_inv_def)
qed

lemma materialize_confined:
  assumes plan: "plan_compute c = Some (Ok plan)" and mat: "materialize env plan w = Some (r, w')"
    and lit: "literal_below env (run_dir c)" and clear: "clear_of (locate env (run_dir c)) (mounts w)"
    and dir: "nodes w (locate env (run_dir c)) = Some DirNode"
    and flat: "\<forall>a \<in> set (binds_of (plan_steps plan)). \<forall>b \<in> set (binds_of (plan_steps plan)).
      a \<noteq> b \<longrightarrow> \<not> under (locate env a) (locate env b)"
    and q: "\<not> under (locate env (run_dir c)) q"
  shows "nodes w' q = nodes w q \<and> (\<forall>j. r = Ok j \<longrightarrow> nodes (drop_jail env j w') q = nodes w q)"
proof -
  let ?run = "locate env (run_dir c)"
  have cfg: "plan_config plan = c" using plan by (auto elim!: plan_compute_OkD)
  obtain root vm w1 where inner: "materialize_inner env plan root vm (w\<lparr>umask_now := 0\<rparr>) = (r, w1)"
    and root: "jail_root_path (run_dir c) (firecracker_bin c) = Some root" and w': "w' = w1\<lparr>umask_now := umask_now w\<rparr>"
    using mat by (auto simp: materialize_def cfg split: option.splits prod.splits)
  obtain e i where root_eq: "root = run_dir c @ [Normal e, Normal i, Normal ''root'']"
    using root by (auto simp: jail_root_path_iff)
  have parent: "create_jail_parent env root = map_err (JailerIo (run_dir c @ [Normal e, Normal i])) (create_dir_all env (run_dir c @ [Normal e, Normal i]))"
    by (simp add: create_jail_parent_def root_eq path_buf_parent_def butlast_append)
  obtain r0 w0 where 0: "create_jail_parent env root (w\<lparr>umask_now := 0\<rparr>) = (r0, w0)" by fastforce
  have w0: "contained ?run (nodes w) w0"
  proof -
    have "contained ?run (nodes w) (snd (create_jail_parent env root (w\<lparr>umask_now := 0\<rparr>)))"
      unfolding parent contained_map_err
      by (rule contained_two_dirs [OF lit]) (simp_all add: clear dir contained_def)
    with 0 show ?thesis by simp
  qed
  define s0 where "s0 = \<lparr>guard = fresh_jail plan root vm, made_private = False, host = w0\<rparr>"
  have m0: "mounts w0 = mounts w" using quietD [OF quiet_create_jail_parent 0] by simp
  have s0: "in_step env (mounts w) s0" "bind_mounts (guard s0) = []" "files_inv env ?run (nodes w) {} s0"
    by (simp_all add: s0_def in_step_def fresh_jail_def m0 files_inv_def w0)
  obtain r1 s1 where 1: "run_plan env plan s0 = (r1, s1)" by fastforce
  have s1: "files_inv env ?run (nodes w) (set (binds_of (plan_steps plan))) s1" "in_step env (mounts w) s1"
    using files_run_plan [OF plan lit clear flat s0] keepsD [OF in_step_run_plan s0(1), of plan] 1 by simp_all
  have drop: "contained ?run (nodes w) (drop_jail env (guard s1) h)"
    if "nodes h = nodes (host s1)" "mounts h = mounts (host s1)" "mounts_private h = mounts_private (host s1)" for h
    using contained_drop [of env "mounts w" "s1\<lparr>host := h\<rparr>" ?run "nodes w" "set (binds_of (plan_steps plan))"] s1 clear that
    by (simp add: in_step_def files_inv_def contained_def)
  have out: "nodes h q = nodes w q" if "contained ?run (nodes w) h" for h using that q by (simp add: contained_def)
  show ?thesis
  proof (cases r0)
    case (Err x)
    with 0 inner w' out [OF w0] show ?thesis by (auto simp: materialize_inner_def)
  next
    case (Ok x)
    with 0 inner have g: "guarded env (run_plan env plan) s0 = (r, w1)" by (simp add: materialize_inner_def s0_def)
    show ?thesis
    proof (cases r1)
      case (Err x)
      with g 1 w' out [OF drop [of "host s1"]] show ?thesis by (auto simp: guarded_def)
    next
      case (Ok x)
      with g 1 have "r = Ok (guard s1)" "w1 = host s1" by (auto simp: guarded_def)
      with w' s1(1) out out [OF drop [of w']] show ?thesis by (auto simp: files_inv_def)
    qed
  qed
qed


end
