(* ===== verification/Jail_Samples.thy ===== *)
theory Jail_Samples
  imports Jail_Files
begin

text \<open>
  A concrete host, configuration and jail on which the theorems of the jailer are applied, and two configurations
  that show their hypotheses are needed: nested bind destinations and a source directory with a mount inside.
\<close>

subsection \<open>A jail\<close>

definition jail_sample_env :: jail_env where
  "jail_sample_env =
     \<lparr>locate = (\<lambda>p. concat (map (\<lambda>c. case c of Normal n \<Rightarrow> [n] | _ \<Rightarrow> []) p)), canon = (\<lambda>p. p),
      plan_json = (\<lambda>_. Some [1]), plan_of_json = (\<lambda>_. None), state_json = (\<lambda>_. Some [2]), state_of_json = (\<lambda>_. None)\<rparr>"

definition sample_binding :: "string \<Rightarrow> string \<Rightarrow> bind_mode \<Rightarrow> jail_binding" where
  "sample_binding s d m = \<lparr>bind_source = path_components s, bind_dest = path_components d, bind_how = m\<rparr>"

definition sample_jail :: "jail_binding list \<Rightarrow> jailer_config" where
  "sample_jail bs =
     \<lparr>jailer_bin = path_components ''/bin/jailer'', jailer_harden_bin = None,
      firecracker_bin = path_components ''/bin/fc'', run_dir = path_components ''/run/vm'', jail_uid = 3000, jail_gid = 3000,
      bindings = bs, sockets = [FirecrackerSock], limits = resource_limits_default, new_pid_ns = False, new_net_ns = False,
      daemonize = False, new_cgroup_ns = False, cgroup_version = None, netns_path = None, seccomp_filter_path = None,
      stdio_log = None\<rparr>"

definition sample_host :: "fault list \<Rightarrow> mount_entry list \<Rightarrow> jail_world" where
  "sample_host fl ms =
     \<lparr>nodes = map_of [([''run''], DirNode), ([''run'', ''vm''], DirNode), ([''data''], DirNode),
                       ([''data'', ''x''], FileNode [7]), ([''img''], FileNode [1, 2]), ([''disk''], DirNode),
                       ([''data'', ''sub''], DirNode)],
      faults = fl, clock = [], mounts = ms, mounts_private = False, owners = (\<lambda>_. (0, 0)), perms = (\<lambda>_. 0x1FF),
      umask_now = 0x12\<rparr>"

abbreviation sample_bindings :: "jail_binding list" where
  "sample_bindings \<equiv> [sample_binding ''/img'' ''a/img'' Ro, sample_binding ''/data'' ''d'' Rw,
                       sample_binding '''' ''d'' CreateInsideJail]"

definition plan_of :: "jailer_config \<Rightarrow> jail_plan" where
  "plan_of c = (case plan_compute c of Some (Ok p) \<Rightarrow> p | _ \<Rightarrow> \<lparr>plan_schema_version = 0, plan_config = c, plan_steps = []\<rparr>)"

declare dir_empty_def [code del]

definition completed :: "((materialized_jail, jailer_error) result \<times> jail_world) option \<Rightarrow> bool" where
  "completed r = (case r of Some (Ok _, _) \<Rightarrow> True | _ \<Rightarrow> False)"

definition failed :: "((materialized_jail, jailer_error) result \<times> jail_world) option \<Rightarrow> bool" where
  "failed r = (case r of Some (Err _, _) \<Rightarrow> True | _ \<Rightarrow> False)"

lemma completedE: "completed r \<Longrightarrow> \<exists>j w. r = Some (Ok j, w)"
  by (auto simp: completed_def split: option.splits result.splits)

lemma failedE: "failed r \<Longrightarrow> \<exists>e w. r = Some (Err e, w)"
  by (auto simp: failed_def split: option.splits result.splits)

lemma sample_plan: "plan_compute (sample_jail sample_bindings) = Some (Ok (plan_of (sample_jail sample_bindings)))"
  by code_simp

lemma sample_completes: "completed (materialize jail_sample_env (plan_of (sample_jail sample_bindings)) (sample_host [] []))"
  by code_simp

lemma sample_fails:
  "failed (materialize jail_sample_env (plan_of (sample_jail sample_bindings)) (sample_host (replicate 20 Works @ [Fails 0 []]) []))"
  by code_simp

lemma sample_root: "jail_root_path (run_dir (sample_jail sample_bindings)) (firecracker_bin (sample_jail sample_bindings)) =
    Some (path_components ''/run/vm/fc/vm/root'')"
  by code_simp

lemma sample_steps:
  "plan_steps (plan_of (sample_jail sample_bindings)) =
     [CreateDir (path_components ''/run/vm/fc/vm/root'') 0x1D8, CreateDir (path_components ''/run/vm/fc/vm/root/a'') 0x1C0,
      CreateDir (path_components ''/run/vm/fc/vm/root/d'') 0x1C0,
      Bind (path_components ''/img'') (path_components ''/run/vm/fc/vm/root/a/img'') Ro,
      Bind (path_components ''/data'') (path_components ''/run/vm/fc/vm/root/d'') Rw,
      Socket (path_components ''/run/vm/fc/vm/root/firecracker.sock'')]"
  by code_simp

lemma sample_flat:
  "\<forall>a \<in> set (binds_of (plan_steps (plan_of (sample_jail sample_bindings)))).
   \<forall>b \<in> set (binds_of (plan_steps (plan_of (sample_jail sample_bindings)))).
     a \<noteq> b \<longrightarrow> \<not> under (locate jail_sample_env a) (locate jail_sample_env b)"
  unfolding sample_steps by code_simp

lemma sample_literal: "literal_below jail_sample_env p"
  by (auto simp: literal_below_def jail_sample_env_def o_def)

lemma sample_run: "locate jail_sample_env (run_dir (sample_jail sample_bindings)) = [''run'', ''vm'']"
  by code_simp

text \<open>The theorems of the jailer, applied to the sample.\<close>

theorem plan_confined_witness:
  "plan_steps (plan_of (sample_jail sample_bindings)) \<noteq> [] \<and>
   hd (plan_steps (plan_of (sample_jail sample_bindings))) = CreateDir (path_components ''/run/vm/fc/vm/root'') JAIL_ROOT_MODE \<and>
   distinct (binds_of (plan_steps (plan_of (sample_jail sample_bindings))))"
  using plan_confined [OF sample_plan sample_root] by blast

theorem plan_parents_first_witness: "parents_first (plan_steps (plan_of (sample_jail sample_bindings)))"
  using plan_parents_first [OF sample_plan] by blast




subsection \<open>What the hypotheses rule out\<close>

abbreviation nested_bindings :: "jail_binding list" where
  "nested_bindings \<equiv> [sample_binding ''/data'' ''d'' Rw, sample_binding ''/img'' ''d/x'' Ro]"

text \<open>A file bound below a directory that was bound read-write before: the plan is accepted, and the placeholder for the
  second bind is written through the first one, which truncates the file of the host the first bind shows.\<close>
lemma nested_bind_truncates_host_file:
  "plan_compute (sample_jail nested_bindings) = Some (Ok (plan_of (sample_jail nested_bindings))) \<and>
   nodes (sample_host [] []) [''data'', ''x''] = Some (FileNode [7]) \<and>
   map_option (\<lambda>(r, w). nodes w [''data'', ''x'']) (materialize jail_sample_env (plan_of (sample_jail nested_bindings)) (sample_host [] [])) =
     Some (Some (FileNode []))"
  by code_simp

text \<open>A directory that has a mount inside is bound with \<open>MS_REC\<close>, but the remount that makes the bind read-only
  reaches the outer mount alone: below it the jail sees a writable mount that allows devices and set-uid files.\<close>
lemma submount_keeps_its_options:
  "map_option (\<lambda>(r, w). map_option mnt_opts (covering (mounts w) [''run'', ''vm'', ''fc'', ''vm'', ''root'', ''d'', ''sub'']))
     (materialize jail_sample_env (plan_of (sample_jail [sample_binding ''/data'' ''d'' Ro, sample_binding '''' ''d'' CreateInsideJail]))
       (sample_host [] [\<lparr>mnt_point = [''data'', ''sub''], mnt_root = [''disk''], mnt_opts = {}\<rparr>])) = Some (Some {})"
  by code_simp

end
