(* ===== verification/Jail_Recovery.thy ===== *)
theory Jail_Recovery
  imports Jail_Samples
begin

text \<open>
  The traces a jail leaves in its run directory (\<open>record_live_state\<close> and \<open>record_systemd_unit\<close> of
  \<open>m80-jailer/src/materialized.rs\<close>) and what a later process reads from them (\<open>recover.rs\<close>). The probe of
  systemd is an argument, as in \<open>inspect_run_dir_with_systemd_probe\<close>. Texts are ASCII, so that
  \<open>read_to_string\<close> fails exactly when the read does.
\<close>

subsection \<open>Writing\<close>

definition run_file :: "jailer_config \<Rightarrow> string \<Rightarrow> path_buf" where
  "run_file config f = path_push (run_dir config) [Normal f]"

definition record_live_state ::
    "jail_env \<Rightarrow> materialized_jail \<Rightarrow> u32 \<Rightarrow> u32 \<Rightarrow> (jail_world, unit, jailer_error) eff" where
  "record_live_state env j jailer_pid firecracker_pid =
     write_json env (run_file (plan_config (mj_plan j)) JAILER_STATE_FILE)
       (state_json env \<lparr>state_schema_version = 1, state_jailer_pid = Some jailer_pid,
                        state_firecracker_pid = Some firecracker_pid\<rparr>)"

definition record_systemd_unit ::
    "jail_env \<Rightarrow> materialized_jail \<Rightarrow> string \<Rightarrow> (jail_world, unit, jailer_error) eff" where
  "record_systemd_unit env j unit_name =
     write_file_no_follow env (run_file (plan_config (mj_plan j)) JAILER_SYSTEMD_UNIT_FILE)
       (str_bytes (unit_name @ [CHR 0x0A]))"

subsection \<open>Inspection\<close>

datatype inspection_decision =
    LiveJail u32 u32
  | LiveSystemdUnit string
  | OrphanJail "plan_step list"
  | NoJail

datatype systemd_state = UnitLive | UnitInactive

definition file_exists :: "jail_env \<Rightarrow> path_buf \<Rightarrow> (jail_world, bool, jailer_error) eff" where
  "file_exists env p w = path_exists (visible env p w) w"

definition file_read :: "jail_env \<Rightarrow> path_buf \<Rightarrow> (jail_world, u8 list, jailer_error) eff" where
  "file_read env p w = map_err (JailerIo p) (fs_read (visible env p w)) w"

definition bytes_str :: "u8 list \<Rightarrow> string" where
  "bytes_str bs = map (\<lambda>b. char_of (unat b)) bs"

definition is_m80_systemd_unit_name :: "string \<Rightarrow> bool" where
  "is_m80_systemd_unit_name n \<longleftrightarrow>
     starts_with n ''m80-vm-'' \<and> length n \<le> 128 \<and>
     list_all (\<lambda>c. is_ascii_alphanumeric c \<or> c = CHR ''-'' \<or> c = CHR ''.'' \<or> c = CHR ''_'') n"

definition read_systemd_unit_marker :: "jail_env \<Rightarrow> path_buf \<Rightarrow> (jail_world, string, jailer_error) eff" where
  "read_systemd_unit_marker env p =
     bind_eff (file_read env p) (\<lambda>raw.
       let unit_name = trim (bytes_str raw)
       in if is_m80_systemd_unit_name unit_name then ret unit_name else fail (JailerIo p OtherIo))"

definition live_systemd_unit ::
    "jail_env \<Rightarrow> (string \<Rightarrow> (systemd_state, jailer_error) result) \<Rightarrow> path_buf \<Rightarrow>
     (jail_world, inspection_decision option, jailer_error) eff" where
  "live_systemd_unit env probe rd =
     (let unit_path = path_push rd [Normal JAILER_SYSTEMD_UNIT_FILE] in
      bind_eff (file_exists env unit_path) (\<lambda>there.
        if \<not> there then ret None
        else bind_eff (read_systemd_unit_marker env unit_path) (\<lambda>unit_name.
               bind_eff (lift_result (probe unit_name)) (\<lambda>st.
                 case st of
                   UnitLive \<Rightarrow> ret (Some (LiveSystemdUnit unit_name))
                 | UnitInactive \<Rightarrow> ret None))))"

definition load_reap_plan :: "jail_env \<Rightarrow> path_buf \<Rightarrow> (jail_world, plan_step list, jailer_error) eff" where
  "load_reap_plan env rd =
     (let plan_path = path_push rd [Normal JAILER_PLAN_FILE] in
      bind_eff (file_exists env plan_path) (\<lambda>there.
        if \<not> there then ret []
        else bind_eff (file_read env plan_path) (\<lambda>raw.
               case plan_of_json env raw of
                 None \<Rightarrow> fail (JailerIo plan_path OtherIo)
               | Some plan \<Rightarrow> ret (rev (plan_steps plan)))))"

definition plan_backed_or_no_jail ::
    "jail_env \<Rightarrow> (string \<Rightarrow> (systemd_state, jailer_error) result) \<Rightarrow> path_buf \<Rightarrow>
     (jail_world, inspection_decision, jailer_error) eff" where
  "plan_backed_or_no_jail env probe rd =
     bind_eff (file_exists env (path_push rd [Normal JAILER_PLAN_FILE])) (\<lambda>there.
       if there then
         bind_eff (live_systemd_unit env probe rd) (\<lambda>d.
           case d of
             Some decision \<Rightarrow> ret decision
           | None \<Rightarrow> bind_eff (load_reap_plan env rd) (\<lambda>steps. ret (OrphanJail steps)))
       else ret NoJail)"

definition proc_path :: "u32 \<Rightarrow> path_buf" where
  "proc_path pid = path_components (''/proc/'' @ nat_to_string (unat pid))"

definition live_pids ::
    "jail_env \<Rightarrow> u32 \<Rightarrow> u32 \<Rightarrow> (jail_world, bool, jailer_error) eff" where
  "live_pids env jailer_pid firecracker_pid =
     bind_eff (if jailer_pid = 0 then ret True else file_exists env (proc_path jailer_pid)) (\<lambda>jailer_live.
     bind_eff (file_exists env (proc_path firecracker_pid)) (\<lambda>firecracker_live.
     ret (jailer_live \<and> firecracker_live)))"

definition inspect_run_dir_with_systemd_probe ::
    "jail_env \<Rightarrow> (string \<Rightarrow> (systemd_state, jailer_error) result) \<Rightarrow> path_buf \<Rightarrow>
     (jail_world, inspection_decision, jailer_error) eff" where
  "inspect_run_dir_with_systemd_probe env probe rd =
     (let state_path = path_push rd [Normal JAILER_STATE_FILE];
          orphan = bind_eff (load_reap_plan env rd) (\<lambda>steps. ret (OrphanJail steps)) in
      bind_eff (file_exists env state_path) (\<lambda>there.
        if \<not> there then plan_backed_or_no_jail env probe rd
        else bind_eff (file_read env state_path) (\<lambda>raw.
          case state_of_json env raw of
            None \<Rightarrow> plan_backed_or_no_jail env probe rd
          | Some state \<Rightarrow>
              (case (state_jailer_pid state, state_firecracker_pid state) of
                 (Some jailer_pid, Some firecracker_pid) \<Rightarrow>
                   bind_eff (live_pids env jailer_pid firecracker_pid) (\<lambda>live.
                     if live then ret (LiveJail jailer_pid firecracker_pid) else orphan)
               | _ \<Rightarrow> orphan))))"

text \<open>The real probe: \<open>systemctl show --property=ActiveState --value\<close>; \<open>systemctl\<close> answers an error of the spawn, or
  whether it succeeded and its standard output.\<close>
definition parse_systemd_active_state :: "string \<Rightarrow> (systemd_state, jailer_error) result" where
  "parse_systemd_active_state s =
     (if s \<in> {''active'', ''activating'', ''reloading'', ''deactivating''} then Ok UnitLive
      else if s \<in> {''inactive'', ''failed''} then Ok UnitInactive
      else Err (JailerIo [Normal ''systemctl''] OtherIo))"

definition systemd_unit_state ::
    "(string list \<Rightarrow> (bool \<times> string, io_error) result) \<Rightarrow> string \<Rightarrow> (systemd_state, jailer_error) result" where
  "systemd_unit_state systemctl unit_name =
     (case systemctl [''show'', ''--property=ActiveState'', ''--value'', unit_name] of
        Err e \<Rightarrow> Err (JailerIo [Normal ''systemctl''] e)
      | Ok (success, stdout) \<Rightarrow>
          if \<not> success then Err (JailerIo [Normal ''systemctl''] OtherIo)
          else parse_systemd_active_state (trim stdout))"

definition inspect_run_dir ::
    "jail_env \<Rightarrow> (string list \<Rightarrow> (bool \<times> string, io_error) result) \<Rightarrow> path_buf \<Rightarrow>
     (jail_world, inspection_decision, jailer_error) eff" where
  "inspect_run_dir env systemctl rd = inspect_run_dir_with_systemd_probe env (systemd_unit_state systemctl) rd"

subsection \<open>Reading a quiet file system\<close>

definition there :: "jail_env \<Rightarrow> path_buf \<Rightarrow> jail_world \<Rightarrow> bool" where
  "there env p w \<longleftrightarrow> node_at w (visible env p w) \<noteq> None"

lemma calm_file_exists: "faults w = [] \<Longrightarrow> file_exists env p w = (Ok (there env p w), w)"
  by (auto simp: file_exists_def path_exists_def fs_query_def take_fault_def there_def node_at_def)

lemma calm_file_read:
  "faults w = [] \<Longrightarrow> nodes w (visible env p w) = Some (FileNode bs) \<Longrightarrow> file_read env p w = (Ok bs, w)"
  by (simp add: file_read_def map_err_def fs_read_def take_fault_def)

lemma file_there: "nodes w (visible env p w) = Some (FileNode bs) \<Longrightarrow> there env p w"
  by (simp add: there_def node_at_def)

lemma calm_load_reap_plan:
  assumes "faults w = []" and "nodes w (visible env (rd @ [Normal JAILER_PLAN_FILE]) w) = Some (FileNode pb)"
    and "plan_of_json env pb = Some plan"
  shows "load_reap_plan env rd w = (Ok (rev (plan_steps plan)), w)"
  unfolding load_reap_plan_def Let_def
  using assms file_there [OF assms(2)]
  by (simp add: bind_eff_def calm_file_exists calm_file_read)

lemma calm_live_pids:
  "faults w = [] \<Longrightarrow>
   live_pids env a b w = (Ok ((a = 0 \<or> there env (proc_path a) w) \<and> there env (proc_path b) w), w)"
  by (simp add: live_pids_def bind_eff_def calm_file_exists)

text \<open>With a readable state file the unit marker is never looked at.\<close>
lemma calm_inspect:
  assumes "faults w = []" and "nodes w (visible env (rd @ [Normal JAILER_STATE_FILE]) w) = Some (FileNode sb)"
    and "state_of_json env sb = Some st"
    and "nodes w (visible env (rd @ [Normal JAILER_PLAN_FILE]) w) = Some (FileNode pb)"
    and "plan_of_json env pb = Some plan"
  shows "inspect_run_dir_with_systemd_probe env probe rd w =
    (Ok (case (state_jailer_pid st, state_firecracker_pid st) of
           (Some a, Some b) \<Rightarrow>
             if (a = 0 \<or> there env (proc_path a) w) \<and> there env (proc_path b) w then LiveJail a b
             else OrphanJail (rev (plan_steps plan))
         | _ \<Rightarrow> OrphanJail (rev (plan_steps plan))), w)"
proof -
  have orphan: "bind_eff (load_reap_plan env rd) (\<lambda>steps. ret (OrphanJail steps)) w = (Ok (OrphanJail (rev (plan_steps plan))), w)"
    by (simp add: bind_eff_def calm_load_reap_plan [OF assms(1,4,5)])
  have exists: "file_exists env (rd @ [Normal JAILER_STATE_FILE]) w = (Ok True, w)"
    using calm_file_exists [OF assms(1)] file_there [OF assms(2)] by simp
  note read = calm_file_read [OF assms(1,2)]
  show ?thesis
  proof (cases "state_jailer_pid st"; cases "state_firecracker_pid st")
    fix a b
    assume pids: "state_jailer_pid st = Some a" "state_firecracker_pid st = Some b"
    let ?live = "(a = 0 \<or> there env (proc_path a) w) \<and> there env (proc_path b) w"
    have live: "live_pids env a b w = (Ok ?live, w)" by (rule calm_live_pids [OF assms(1)])
    show ?thesis
      using pids orphan
      by (simp add: inspect_run_dir_with_systemd_probe_def Let_def bind_eff_def exists read assms(3) live)
  qed (use orphan in \<open>simp_all add: inspect_run_dir_with_systemd_probe_def Let_def bind_eff_def exists read assms(3)\<close>)
qed

subsection \<open>What a jail leaves in its run directory\<close>

definition json_faithful :: "jail_env \<Rightarrow> bool" where
  "json_faithful env \<longleftrightarrow>
     (\<forall>p b. plan_json env p = Some b \<longrightarrow> plan_of_json env b = Some p) \<and>
     (\<forall>s b. state_json env s = Some b \<longrightarrow> state_of_json env b = Some s)"

lemma write_json_Ok:
  assumes "write_json env p js w = (Ok u, w')"
  shows "\<exists>bs. js = Some bs \<and> nodes w' = (nodes w)(visible env p w \<mapsto> FileNode bs) \<and> mounts w' = mounts w"
proof -
  obtain bs where js: "js = Some bs" using assms by (cases js) (auto simp: write_json_def)
  with assms have 1: "write_file_no_follow env p bs w = (Ok u, w')" by (simp add: write_json_def)
  then have "nodes w' = (nodes w)(visible env p w \<mapsto> FileNode bs)"
    by (auto simp: write_file_no_follow_def map_err_def on_writable_def fs_write_def split: prod.splits result.splits
      fault.splits if_splits dest!: take_fault_nodes)
  with js quietD [OF quiet_write 1] show ?thesis by blast
qed

lemma computed_binds_deep:
  assumes plan: "plan_compute c = Some (Ok plan)" and d: "d \<in> set (binds_of (plan_steps plan))"
  shows "\<exists>ns. d = run_dir c @ map Normal ns \<and> 1 < length ns"
proof -
  obtain root where root: "jail_root_path (run_dir c) (firecracker_bin c) = Some root" and acc: "acceptable_config c"
    and p: "plan_steps plan = compute_steps root c"
    using plan by (auto elim!: plan_compute_OkD)
  obtain e i where root_eq: "root = run_dir c @ map Normal [e, i, ''root'']"
    using root by (auto simp: jail_root_path_iff)
  obtain dirs where steps: "plan_steps plan =
      CreateDir root JAIL_ROOT_MODE # dirs @ bind_steps root (bindings c) @ socket_steps root (sockets c)"
    and dirs: "\<forall>s \<in> set dirs. \<exists>p. s = CreateDir (root @ p) JAIL_INTERNAL_DIR_MODE \<and> inner_dest p"
    using compute_steps_shape [OF acc] p by metis
  have "binds_of dirs = []" using dirs by (induction dirs rule: binds_of.induct) auto
  with d steps obtain b where b: "b \<in> set (bindings c)" "d = path_push root (bind_dest b)"
    by (auto simp: bind_dests_def)
  with acc have "inner_dest (bind_dest b)" by (simp add: acceptable_config_def acceptable_bindings_def)
  moreover from this b have "d = root @ bind_dest b" by (simp add: inner_dest_join)
  moreover from calculation(1) obtain n ks where "bind_dest b = map Normal (n # ks)" by (auto simp: inner_dest_def)
  ultimately show ?thesis
    using root_eq by (intro exI [where x = "[e, i, ''root'', n] @ ks"]) simp
qed


text \<open>The guard keeps the plan, the jail root and the id it was made for.\<close>
definition jail_identity :: "materialized_jail \<Rightarrow> jail_plan \<times> path_buf \<times> string" where
  "jail_identity j = (mj_plan j, mj_path j, mj_vm_id j)"

lemma keeps_plan_host: "keeps (\<lambda>s. jail_identity (guard s) = p) (on_host m)"
  by (simp add: keeps_def)

lemma keeps_plan_push: "(\<And>j. jail_identity (f j) = jail_identity j) \<Longrightarrow> keeps (\<lambda>s. jail_identity (guard s) = p) (push_guard f)"
  by (simp add: keeps_def push_guard_def)

lemma keeps_plan_private: "keeps (\<lambda>s. jail_identity (guard s) = p) ensure_private"
proof -
  have "keeps (\<lambda>s. jail_identity (guard s) = p) (bind_eff (on_host make_mounts_private) (\<lambda>_ s. (Ok (), s\<lparr>made_private := True\<rparr>)))"
    by (intro keeps_bind keeps_plan_host) (simp add: keeps_def)
  then show ?thesis by (simp add: ensure_private_def keeps_def)
qed

lemma keeps_plan_step: "keeps (\<lambda>s. jail_identity (guard s) = p) (apply_step env step)"
proof (cases step)
  case (CreateDir q m)
  have "keeps (\<lambda>s. jail_identity (guard s) = p)
      (bind_eff (on_host (map_err (JailerIo q) (sys_mkdir env q m))) (\<lambda>_.
       bind_eff (on_host (map_err (JailerIo q) (sys_chown env q u g))) (\<lambda>_.
       push_guard (\<lambda>j. j\<lparr>created_dirs := created_dirs j @ [q]\<rparr>))))" for u g
    by (intro keeps_bind keeps_plan_host keeps_plan_push) (simp add: jail_identity_def)
  with CreateDir show ?thesis by (simp add: keeps_def create_dir_step_def)
next
  case (Bind s d m)
  have finish: "keeps (\<lambda>s. jail_identity (guard s) = p) (finish_bind env s src d m config)" for src config
    unfolding finish_bind_def by (auto intro!: keeps_bind keeps_plan_host)
  have ph: "keeps (\<lambda>s. jail_identity (guard s) = p) (if b then write_placeholder env d else ret ())" for b
  proof -
    have same: "jail_identity (j\<lparr>placeholder_files := ps\<rparr>) = jail_identity j" for j ps by (simp add: jail_identity_def)
    show ?thesis unfolding write_placeholder_def by (auto intro!: keeps_bind keeps_plan_host keeps_plan_push same)
  qed
  have "keeps (\<lambda>s. jail_identity (guard s) = p) (bind_eff ensure_private (\<lambda>_.
     bind_eff (on_host (bind_mount_source_for_mode env s m)) (\<lambda>src.
     bind_eff (on_host (map_err (JailerIo s) (metadata_is_dir env src))) (\<lambda>source_is_dir.
     bind_eff (on_host (is_dir env d)) (\<lambda>dest_is_dir.
     bind_eff (if \<not> dest_is_dir \<and> \<not> source_is_dir then write_placeholder env d else ret ()) (\<lambda>_.
     bind_eff (on_host (map_err (BindFailed s d)
       (sys_mount_bind env src d (bind_mount_flags source_is_dir dest_is_dir)))) (\<lambda>_.
     bind_eff (push_guard (\<lambda>j. j\<lparr>bind_mounts := bind_mounts j @ [d]\<rparr>)) (\<lambda>_.
     finish_bind env s src d m config))))))))" for config
    by (intro keeps_bind keeps_plan_private keeps_plan_host ph finish keeps_plan_push) (simp add: jail_identity_def)
  with Bind show ?thesis by (simp add: keeps_def bind_step_def)
qed simp

lemma materialized_identity:
  assumes plan: "plan_compute c = Some (Ok plan)" and mat: "materialize env plan w = Some (Ok j, w')"
  shows "plan_config (mj_plan j) = c \<and> jail_root_path (run_dir c) (firecracker_bin c) = Some (mj_path j) \<and>
    file_name (run_dir c) = Some (mj_vm_id j)"
proof -
  have cfg: "plan_config plan = c" using plan by (auto elim!: plan_compute_OkD)
  obtain root vm w1 st where run: "run_plan env plan \<lparr>guard = fresh_jail plan root vm, made_private = False, host = w1\<rparr> = (Ok (), st)"
    and j: "j = guard st" and names: "jail_root_path (run_dir c) (firecracker_bin c) = Some root" "file_name (run_dir c) = Some vm"
    using mat unfolding cfg [symmetric] by (rule materialize_OkD) blast
  have "keeps (\<lambda>s. jail_identity (guard s) = (plan, root, vm)) (run_plan env plan)"
    unfolding run_plan_def by (intro keeps_bind keeps_for_each keeps_plan_step keeps_plan_host)
  from keepsD [OF this, of "\<lparr>guard = fresh_jail plan root vm, made_private = False, host = w1\<rparr>"] run j
  have "jail_identity j = (plan, root, vm)" by (simp add: fresh_jail_def jail_identity_def)
  with cfg names show ?thesis by (auto simp: jail_identity_def)
qed

lemma materialized_config:
  "plan_compute c = Some (Ok plan) \<Longrightarrow> materialize env plan w = Some (Ok j, w') \<Longrightarrow> plan_config (mj_plan j) = c"
  by (drule (1) materialized_identity) simp

text \<open>The files of a completed jail can be read in its run directory.\<close>
lemma materialize_files:
  assumes plan: "plan_compute c = Some (Ok plan)" and mat: "materialize env plan w = Some (Ok j, w')"
    and lit: "literal_below env (run_dir c)" and clear: "clear_of (locate env (run_dir c)) (mounts w)"
  obtains pb sb where "plan_json env plan = Some pb"
    and "state_json env \<lparr>state_schema_version = 1, state_jailer_pid = None, state_firecracker_pid = None\<rparr> = Some sb"
    and "nodes w' (locate env (run_dir c) @ [JAILER_PLAN_FILE]) = Some (FileNode pb)"
    and "nodes w' (locate env (run_dir c) @ [JAILER_STATE_FILE]) = Some (FileNode sb)"
    and "\<And>f v. mounts v = mounts w' \<Longrightarrow> visible env (run_dir c @ [Normal f]) v = locate env (run_dir c) @ [f]"
proof -
  let ?run = "locate env (run_dir c)"
  have cfg: "plan_config plan = c" using plan by (auto elim!: plan_compute_OkD)
  obtain root vm w1 st u where run: "run_plan env plan \<lparr>guard = fresh_jail plan root vm, made_private = False, host = w1\<rparr> = (Ok (), st)"
    and w1: "mounts w1 = mounts w" and w': "w' = (host st)\<lparr>umask_now := u\<rparr>"
    using mat by (rule materialize_OkD) blast
  then obtain st1 where steps: "for_each (apply_step env) (plan_steps plan)
      \<lparr>guard = fresh_jail plan root vm, made_private = False, host = w1\<rparr> = (Ok (), st1)"
    and "on_host (persist_plan env plan) st1 = (Ok (), st)"
    by (auto simp: run_plan_def result_simps)
  then have persist: "persist_plan env plan (host st1) = (Ok (), host st)"
    by (auto simp: on_host_def split: prod.splits)
  have stk: "stacked (step_point env) (bound_as_planned env) (mounts w) (rev (filter is_bind (plan_steps plan))) (mounts (host st1))"
    using run_steps_Ok [OF steps, of "mounts w" "[]"] w1 computed_bind_modes [OF plan] by simp
  have vis: "visible env (run_dir c @ [Normal f]) v = ?run @ [f]" if "mounts v = mounts (host st1)" for f v
  proof -
    have "\<not> under (step_point env k) (?run @ [f])" if "k \<in> set (rev (filter is_bind (plan_steps plan)))" for k
    proof -
      from that obtain ns where ns: "step_target k = run_dir c @ map Normal ns" "1 < length ns"
        using computed_binds_deep [OF plan, of "step_target k"] by (auto simp: binds_of_targets)
      have "step_point env k = ?run @ ns" unfolding ns(1) using lit by (simp only: literal_below_def)
      moreover have "?run @ [f] \<noteq> (?run @ ns) @ r" for r using ns(2) by (cases ns) auto
      ultimately show ?thesis by (simp only: under_iff) metis
    qed
    then have "covering (mounts (host st1)) (?run @ [f]) = covering (mounts w) (?run @ [f])"
      by (intro covering_stacked_skip [OF stk]) blast
    with covering_clear [OF clear, of "?run @ [f]"] that show ?thesis
      by (simp add: visible_def resolve_mounts_def literal1 [OF lit])
  qed
  obtain w2 where 1: "write_json env (run_dir c @ [Normal JAILER_PLAN_FILE]) (plan_json env plan) (host st1) = (Ok (), w2)"
    and 2: "write_json env (run_dir c @ [Normal JAILER_STATE_FILE])
      (state_json env \<lparr>state_schema_version = 1, state_jailer_pid = None, state_firecracker_pid = None\<rparr>) w2 = (Ok (), host st)"
    using persist by (auto simp: persist_plan_def result_simps cfg)
  obtain pb where pb: "plan_json env plan = Some pb" "nodes w2 = (nodes (host st1))(?run @ [JAILER_PLAN_FILE] \<mapsto> FileNode pb)"
    "mounts w2 = mounts (host st1)"
    using write_json_Ok [OF 1] vis by auto
  obtain sb where sb: "state_json env \<lparr>state_schema_version = 1, state_jailer_pid = None, state_firecracker_pid = None\<rparr> = Some sb"
    "nodes (host st) = (nodes w2)(?run @ [JAILER_STATE_FILE] \<mapsto> FileNode sb)" "mounts (host st) = mounts w2"
    using write_json_Ok [OF 2] vis pb(3) by auto
  show thesis
    using that [OF pb(1) sb(1)] pb sb vis by (simp add: w' JAILER_PLAN_FILE_def JAILER_STATE_FILE_def)
qed

lemma proc_path_components: "proc_path pid = [RootDir, Normal ''proc'', Normal (nat_to_string (unat pid))]"
proof -
  have "CHR ''/'' \<notin> set (nat_to_string (unat pid))" by (rule digit_not_in) code_simp
  moreover have "\<not> is_ascii_digit (CHR ''.'')" by code_simp
  then have "CHR ''.'' \<notin> set (nat_to_string (unat pid))" by (rule digit_not_in)
  then have "nat_to_string (unat pid) \<noteq> ''.''" "nat_to_string (unat pid) \<noteq> ''..''" by auto
  ultimately show ?thesis
    by (simp add: proc_path_def path_components_def is_absolute_def starts_with_def split_on_none)
qed

text \<open>From the recorded pids to the decision, for any host on which the plan file is still the one of the jail.\<close>
lemma recorded_pids_inspected:
  assumes cfg: "plan_config (mj_plan j) = c" and json: "json_faithful env"
    and pb: "plan_json env plan = Some pb" "nodes w1 (locate env (run_dir c) @ [JAILER_PLAN_FILE]) = Some (FileNode pb)"
    and vis: "\<And>f v. mounts v = mounts w1 \<Longrightarrow> visible env (run_dir c @ [Normal f]) v = locate env (run_dir c) @ [f]"
    and rec: "record_live_state env j a b w1 = (Ok (), w2)" and calm: "faults w2 = []"
  shows "inspect_run_dir_with_systemd_probe env probe (run_dir c) w2 =
    (Ok (if (a = 0 \<or> there env (proc_path a) w2) \<and> there env (proc_path b) w2 then LiveJail a b
         else OrphanJail (rev (plan_steps plan))), w2)"
proof -
  let ?run = "locate env (run_dir c)"
  obtain lb where lb: "state_json env \<lparr>state_schema_version = 1, state_jailer_pid = Some a, state_firecracker_pid = Some b\<rparr> = Some lb"
    "nodes w2 = (nodes w1)(?run @ [JAILER_STATE_FILE] \<mapsto> FileNode lb)" "mounts w2 = mounts w1"
  proof -
    have "write_json env (run_dir c @ [Normal JAILER_STATE_FILE])
        (state_json env \<lparr>state_schema_version = 1, state_jailer_pid = Some a, state_firecracker_pid = Some b\<rparr>) w1 = (Ok (), w2)"
      using rec by (simp add: record_live_state_def run_file_def cfg)
    from write_json_Ok [OF this] that vis [OF refl] show thesis by auto
  qed
  have "nodes w2 (visible env (run_dir c @ [Normal JAILER_STATE_FILE]) w2) = Some (FileNode lb)"
    "nodes w2 (visible env (run_dir c @ [Normal JAILER_PLAN_FILE]) w2) = Some (FileNode pb)"
    using vis [OF lb(3)] lb(2) pb(2) by (simp_all add: JAILER_PLAN_FILE_def JAILER_STATE_FILE_def)
  moreover have "plan_of_json env pb = Some plan"
    "state_of_json env lb = Some \<lparr>state_schema_version = 1, state_jailer_pid = Some a, state_firecracker_pid = Some b\<rparr>"
    using json pb(1) lb(1) by (simp_all add: json_faithful_def)
  ultimately show ?thesis
    using calm_inspect [OF calm, of env "run_dir c" lb _ pb plan probe] by simp
qed

text \<open>After a jail was completed and its pids were recorded, the inspection of its run directory finds exactly
  these pids while both processes are in \<open>/proc\<close> (a jailer pid of zero counts as running), and otherwise asks
  for the planned steps in reverse, whatever systemd would answer.\<close>
theorem inspection_finds_recorded_pids:
  assumes plan: "plan_compute c = Some (Ok plan)" and mat: "materialize env plan w = Some (Ok j, w1)"
    and lit: "literal_below env (run_dir c)" and clear: "clear_of (locate env (run_dir c)) (mounts w)"
    and json: "json_faithful env"
    and rec: "record_live_state env j a b w1 = (Ok (), w2)" and calm: "faults w2 = []"
  shows "inspect_run_dir_with_systemd_probe env probe (run_dir c) w2 =
    (Ok (if (a = 0 \<or> there env (proc_path a) w2) \<and> there env (proc_path b) w2 then LiveJail a b
         else OrphanJail (rev (plan_steps plan))), w2)"
  using materialize_files [OF plan mat lit clear]
    recorded_pids_inspected [OF materialized_config [OF plan mat] json _ _ _ rec calm] by metis

text \<open>The name of a transient systemd unit that is recorded after the jail was completed is not consulted by the
  inspection: the state file without pids is there and readable, so the run directory counts as orphaned even
  while the unit is running.\<close>
theorem recorded_unit_not_consulted:
  assumes plan: "plan_compute c = Some (Ok plan)" and mat: "materialize env plan w = Some (Ok j, w1)"
    and lit: "literal_below env (run_dir c)" and clear: "clear_of (locate env (run_dir c)) (mounts w)"
    and json: "json_faithful env"
    and rec: "record_systemd_unit env j u w1 = (Ok (), w2)" and calm: "faults w2 = []"
  shows "inspect_run_dir_with_systemd_probe env probe (run_dir c) w2 = (Ok (OrphanJail (rev (plan_steps plan))), w2)"
proof -
  let ?run = "locate env (run_dir c)"
  obtain pb sb where pb: "plan_json env plan = Some pb" "nodes w1 (?run @ [JAILER_PLAN_FILE]) = Some (FileNode pb)"
    and sb: "state_json env \<lparr>state_schema_version = 1, state_jailer_pid = None, state_firecracker_pid = None\<rparr> = Some sb"
      "nodes w1 (?run @ [JAILER_STATE_FILE]) = Some (FileNode sb)"
    and vis: "\<And>f v. mounts v = mounts w1 \<Longrightarrow> visible env (run_dir c @ [Normal f]) v = ?run @ [f]"
    using materialize_files [OF plan mat lit clear] by metis
  have cfg: "plan_config (mj_plan j) = c" using materialized_config [OF plan mat] .
  have w2: "nodes w2 = (nodes w1)(?run @ [JAILER_SYSTEMD_UNIT_FILE] \<mapsto> FileNode (str_bytes (u @ [CHR 0x0A])))" "mounts w2 = mounts w1"
    using write_json_Ok [of env "run_dir c @ [Normal JAILER_SYSTEMD_UNIT_FILE]" "Some (str_bytes (u @ [CHR 0x0A]))" w1 "()" w2] rec vis
    by (auto simp: record_systemd_unit_def run_file_def cfg write_json_def)
  have "nodes w2 (visible env (run_dir c @ [Normal JAILER_STATE_FILE]) w2) = Some (FileNode sb)"
    "nodes w2 (visible env (run_dir c @ [Normal JAILER_PLAN_FILE]) w2) = Some (FileNode pb)"
    using vis [OF w2(2)] w2(1) pb(2) sb(2)
    by (simp_all add: JAILER_PLAN_FILE_def JAILER_STATE_FILE_def JAILER_SYSTEMD_UNIT_FILE_def)
  moreover have "plan_of_json env pb = Some plan"
    "state_of_json env sb = Some \<lparr>state_schema_version = 1, state_jailer_pid = None, state_firecracker_pid = None\<rparr>"
    using json pb(1) sb(1) by (simp_all add: json_faithful_def)
  ultimately show ?thesis
    using calm_inspect [OF calm, of env "run_dir c" sb _ pb plan probe] by simp
qed

text \<open>When no readable state file but a plan and a unit marker are in the run directory, the inspection reaches a
  decision only if the marker holds the name of an m80 unit and systemd answered for it: a running unit is
  reported, and only a unit that systemd calls inactive leaves the directory an orphan. Every other answer is
  an error.\<close>
theorem inspection_fails_closed:
  assumes calm: "faults w = []"
    and state: "\<not> there env (rd @ [Normal JAILER_STATE_FILE]) w \<or>
      (\<exists>sb. nodes w (visible env (rd @ [Normal JAILER_STATE_FILE]) w) = Some (FileNode sb) \<and> state_of_json env sb = None)"
    and plan: "there env (rd @ [Normal JAILER_PLAN_FILE]) w"
    and marker: "there env (rd @ [Normal JAILER_SYSTEMD_UNIT_FILE]) w"
    and ok: "inspect_run_dir_with_systemd_probe env probe rd w = (Ok d, w')"
  shows "\<exists>u. is_m80_systemd_unit_name u \<and>
    (probe u = Ok UnitLive \<and> d = LiveSystemdUnit u \<or> probe u = Ok UnitInactive \<and> (\<exists>steps. d = OrphanJail steps))"
proof -
  have "plan_backed_or_no_jail env probe rd w = (Ok d, w')"
    using ok state file_there calm_file_read [OF calm]
    by (auto simp: inspect_run_dir_with_systemd_probe_def Let_def bind_eff_def calm_file_exists [OF calm])
  then obtain o' w1 where unit: "live_systemd_unit env probe rd w = (Ok o', w1)"
    and rest: "(case o' of Some decision \<Rightarrow> ret decision
       | None \<Rightarrow> bind_eff (load_reap_plan env rd) (\<lambda>steps. ret (OrphanJail steps))) w1 = (Ok d, w')"
    using plan by (auto simp: plan_backed_or_no_jail_def bind_eff_eq_Ok calm_file_exists [OF calm])
  from unit marker obtain u where "is_m80_systemd_unit_name u"
    "probe u = Ok UnitLive \<and> o' = Some (LiveSystemdUnit u) \<or> probe u = Ok UnitInactive \<and> o' = None"
    by (auto simp: live_systemd_unit_def Let_def bind_eff_eq_Ok calm_file_exists [OF calm] read_systemd_unit_marker_def
      split: systemd_state.split_asm if_split_asm) (metis systemd_state.exhaust)
  with rest show ?thesis by (intro exI [where x = u]) (auto simp: bind_eff_eq_Ok)
qed

subsection \<open>A run directory that is inspected\<close>

definition recovery_plan :: jail_plan where
  "recovery_plan = plan_of (sample_jail [])"

definition recovery_state :: "u32 option \<Rightarrow> jailer_state" where
  "recovery_state pid = \<lparr>state_schema_version = 1, state_jailer_pid = pid, state_firecracker_pid = pid\<rparr>"

definition recovery_env :: jail_env where
  "recovery_env = jail_sample_env\<lparr>
     plan_json := (\<lambda>p. if p = recovery_plan then Some [1] else None),
     plan_of_json := (\<lambda>b. if b = [1] then Some recovery_plan else None),
     state_json := (\<lambda>s. if s = recovery_state None then Some [2] else if s = recovery_state (Some 7) then Some [3] else None),
     state_of_json := (\<lambda>b. if b = [2] then Some (recovery_state None) else if b = [3] then Some (recovery_state (Some 7)) else None)\<rparr>"

definition recovery_host :: jail_world where
  "recovery_host = (let w = sample_host [] [] in w\<lparr>nodes := (nodes w)([''proc'', ''7''] \<mapsto> DirNode)\<rparr>)"

lemma recovery_planned: "plan_compute (sample_jail []) = Some (Ok recovery_plan)"
  by code_simp

lemma recovery_faithful: "json_faithful recovery_env"
  by (auto simp: json_faithful_def recovery_env_def split: if_splits)

definition recorded_ok :: "(materialized_jail \<Rightarrow> (jail_world, unit, jailer_error) eff) \<Rightarrow> bool" where
  "recorded_ok f =
     (case materialize recovery_env recovery_plan recovery_host of
        Some (Ok j, w) \<Rightarrow> (case f j w of (Ok _, w') \<Rightarrow> faults w' = [] \<and> there recovery_env (proc_path 7) w' | _ \<Rightarrow> False)
      | _ \<Rightarrow> False)"

lemma recorded_okE:
  assumes "recorded_ok f"
  obtains j w1 w2 where "materialize recovery_env recovery_plan recovery_host = Some (Ok j, w1)" "f j w1 = (Ok (), w2)"
    "faults w2 = []" "there recovery_env (proc_path 7) w2"
proof -
  obtain j w1 where 1: "materialize recovery_env recovery_plan recovery_host = Some (Ok j, w1)"
    using assms by (auto simp: recorded_ok_def split: option.split_asm prod.split_asm result.split_asm)
  obtain r w2 where 2: "f j w1 = (r, w2)" by fastforce
  with 1 assms that show thesis by (cases r) (auto simp: recorded_ok_def)
qed

lemma recovery_literal: "literal_below recovery_env p"
  by (auto simp: literal_below_def recovery_env_def jail_sample_env_def o_def)

lemma recovery_clear: "clear_of (locate recovery_env (run_dir (sample_jail []))) (mounts recovery_host)"
  by (simp add: clear_of_def recovery_host_def sample_host_def)

lemma recovery_records:
  "recorded_ok (\<lambda>j. record_live_state recovery_env j 7 7)" "recorded_ok (\<lambda>j. record_systemd_unit recovery_env j ''m80-vm-a'')"
  by code_simp+

theorem inspection_finds_recorded_pids_witness:
  "\<exists>j w1 w2. materialize recovery_env recovery_plan recovery_host = Some (Ok j, w1) \<and>
     record_live_state recovery_env j 7 7 w1 = (Ok (), w2) \<and>
     inspect_run_dir_with_systemd_probe recovery_env (\<lambda>_. Ok UnitInactive) (run_dir (sample_jail [])) w2 = (Ok (LiveJail 7 7), w2)"
proof -
  obtain j w1 w2 where 1: "materialize recovery_env recovery_plan recovery_host = Some (Ok j, w1)"
    "record_live_state recovery_env j 7 7 w1 = (Ok (), w2)" "faults w2 = []" "there recovery_env (proc_path 7) w2"
    using recorded_okE [OF recovery_records(1)] by blast
  have "inspect_run_dir_with_systemd_probe recovery_env (\<lambda>_. Ok UnitInactive) (run_dir (sample_jail [])) w2 =
      (Ok (LiveJail 7 7), w2)"
    using inspection_finds_recorded_pids [OF recovery_planned 1(1) recovery_literal recovery_clear
      recovery_faithful 1(2,3), of "\<lambda>_. Ok UnitInactive"] 1(4) by simp
  with 1 show ?thesis by blast
qed

theorem recorded_unit_not_consulted_witness:
  "\<exists>j w1 w2. materialize recovery_env recovery_plan recovery_host = Some (Ok j, w1) \<and>
     record_systemd_unit recovery_env j ''m80-vm-a'' w1 = (Ok (), w2) \<and>
     inspect_run_dir_with_systemd_probe recovery_env (\<lambda>_. Ok UnitLive) (run_dir (sample_jail [])) w2 =
       (Ok (OrphanJail (rev (plan_steps recovery_plan))), w2)"
proof -
  obtain j w1 w2 where 1: "materialize recovery_env recovery_plan recovery_host = Some (Ok j, w1)"
    "record_systemd_unit recovery_env j ''m80-vm-a'' w1 = (Ok (), w2)" "faults w2 = []" "there recovery_env (proc_path 7) w2"
    using recorded_okE [OF recovery_records(2)] by blast
  from recorded_unit_not_consulted [OF recovery_planned 1(1) recovery_literal recovery_clear
      recovery_faithful 1(2,3), of "\<lambda>_. Ok UnitLive"] 1 show ?thesis by blast
qed

definition marked_host :: jail_world where
  "marked_host = (let w = sample_host [] [] in
     w\<lparr>nodes := (nodes w)([''run'', ''vm'', JAILER_PLAN_FILE] \<mapsto> FileNode [1],
       [''run'', ''vm'', JAILER_SYSTEMD_UNIT_FILE] \<mapsto> FileNode (str_bytes ''m80-vm-a''))\<rparr>)"

theorem inspection_fails_closed_witness:
  "\<exists>u. is_m80_systemd_unit_name u \<and> (Ok UnitLive = (Ok UnitLive :: (systemd_state, jailer_error) result) \<and>
      LiveSystemdUnit ''m80-vm-a'' = LiveSystemdUnit u \<or>
      Ok UnitLive = (Ok UnitInactive :: (systemd_state, jailer_error) result) \<and>
      (\<exists>steps. LiveSystemdUnit ''m80-vm-a'' = OrphanJail steps))"
proof -
  let ?rd = "run_dir (sample_jail [])"
  have 1: "fst (inspect_run_dir_with_systemd_probe recovery_env (\<lambda>_. Ok UnitLive) ?rd marked_host) = Ok (LiveSystemdUnit ''m80-vm-a'')"
    "faults marked_host = []" "\<not> there recovery_env (?rd @ [Normal JAILER_STATE_FILE]) marked_host"
    "there recovery_env (?rd @ [Normal JAILER_PLAN_FILE]) marked_host"
    "there recovery_env (?rd @ [Normal JAILER_SYSTEMD_UNIT_FILE]) marked_host"
    by code_simp+
  from 1(1) obtain w' where 2: "inspect_run_dir_with_systemd_probe recovery_env (\<lambda>_. Ok UnitLive) ?rd marked_host =
      (Ok (LiveSystemdUnit ''m80-vm-a''), w')"
    by (metis prod.collapse)
  show ?thesis by (rule inspection_fails_closed [OF 1(2) disjI1 [OF 1(3)] 1(4,5) 2])
qed

end
