(* ===== verification/Jail_Launch.thy ===== *)
theory Jail_Launch
  imports Jail_Recovery
begin

text \<open>
  Launching Firecracker in a materialized jail (\<open>MaterializedJail::launch\<close> of \<open>m80-jailer/src/materialized.rs\<close>):
  the command line of the hardening wrapper and of the official jailer, the bounded waits for the pid file and
  for the detached parent, and the size-limited copy of the console output. What the spawned processes, the
  clock and the pid file show to the launcher is a list of observations, one per poll; a list that ends
  before the code returns is the value \<open>None\<close>. Durations are milliseconds.
\<close>

subsection \<open>The command line\<close>

datatype launch_arg = Text string | PathArg path_buf

definition NSFS_MAGIC :: nat where "NSFS_MAGIC = 0x6e736673"

definition validate_netns_path :: "(path_buf \<Rightarrow> (nat, io_error) result) \<Rightarrow> path_buf \<Rightarrow> (unit, jailer_error) result" where
  "validate_netns_path fs_type p =
     (case fs_type p of
        Err e \<Rightarrow> Err (JailerIo p e)
      | Ok t \<Rightarrow> if t \<noteq> NSFS_MAGIC then Err (InvalidNetns p (''FsType('' @ nat_to_string t @ '')'')) else Ok ())"

definition u32_text :: "u32 \<Rightarrow> launch_arg" where
  "u32_text n = Text (nat_to_string (unat n))"

definition limit_text :: "string \<Rightarrow> u64 \<Rightarrow> launch_arg" where
  "limit_text name v = Text (name @ ''='' @ nat_to_string (unat v))"

definition push_extended_resource_limits :: "resource_limits \<Rightarrow> launch_arg list" where
  "push_extended_resource_limits l =
     concat (map (\<lambda>(name, v). case v of None \<Rightarrow> [] | Some v \<Rightarrow> [Text ''--rlimit'', limit_text name v])
       [(''no-file'', Some (no_file l)), (''fsize'', fsize l), (''nproc'', nproc l), (''memlock'', memlock l),
        (''as'', address_space l), (''core'', core_limit l), (''stack'', stack_limit l)])"

definition harden_args :: "jailer_config \<Rightarrow> launch_arg list" where
  "harden_args c =
     [Text ''--jailer-bin'', PathArg (jailer_bin c), Text ''--uid'', u32_text (jail_uid c), Text ''--gid'', u32_text (jail_gid c)] @
     push_extended_resource_limits (limits c) @
     (if new_cgroup_ns c then [Text ''--new-cgroup-ns''] else []) @
     (if new_net_ns c then [Text ''--new-net-ns''] else []) @
     [Text ''--'']"

definition jailer_args :: "jailer_config \<Rightarrow> string \<Rightarrow> launch_arg list" where
  "jailer_args c vm =
     [Text ''--id'', Text vm, Text ''--exec-file'', PathArg (firecracker_bin c),
      Text ''--uid'', u32_text (jail_uid c), Text ''--gid'', u32_text (jail_gid c),
      Text ''--chroot-base-dir'', PathArg (run_dir c),
      Text ''--resource-limit'', limit_text ''no-file'' (no_file (limits c))] @
     (if cgroup_version c = Some V2 then [Text ''--cgroup-version'', Text ''2''] else []) @
     (case fsize (limits c) of None \<Rightarrow> [] | Some v \<Rightarrow> [Text ''--resource-limit'', limit_text ''fsize'' v]) @
     (if new_pid_ns c then [Text ''--new-pid-ns''] else []) @
     (if daemonize c then [Text ''--daemonize''] else []) @
     (case netns_path c of None \<Rightarrow> [] | Some p \<Rightarrow> [Text ''--netns'', PathArg p])"

definition firecracker_args :: "jailer_config \<Rightarrow> string \<Rightarrow> launch_arg list" where
  "firecracker_args c api_socket_name =
     [Text ''--api-sock'', Text api_socket_name] @
     (case seccomp_filter_path c of None \<Rightarrow> [] | Some p \<Rightarrow> [Text ''--seccomp-filter'', PathArg p])"

text \<open>The program and its arguments; the network namespace is checked when its argument is reached.\<close>
definition launch_command ::
    "(path_buf \<Rightarrow> (nat, io_error) result) \<Rightarrow> materialized_jail \<Rightarrow> string \<Rightarrow>
     (path_buf \<times> launch_arg list, jailer_error) result" where
  "launch_command fs_type j api_socket_name =
     (let c = plan_config (mj_plan j);
          front = (case jailer_harden_bin c of None \<Rightarrow> (jailer_bin c, []) | Some h \<Rightarrow> (h, harden_args c)) in
      and_then (case netns_path c of None \<Rightarrow> Ok () | Some p \<Rightarrow> validate_netns_path fs_type p) (\<lambda>_.
        Ok (fst front, snd front @ jailer_args c (mj_vm_id j) @ [Text ''--''] @ firecracker_args c api_socket_name)))"

subsection \<open>The pid file\<close>

definition FIRECRACKER_PID_TIMEOUT :: nat where "FIRECRACKER_PID_TIMEOUT = 1000"
definition FIRECRACKER_PID_INITIAL_POLL :: nat where "FIRECRACKER_PID_INITIAL_POLL = 1"
definition FIRECRACKER_PID_MAX_POLL :: nat where "FIRECRACKER_PID_MAX_POLL = 25"

definition jailer_pid_file_path :: "path_buf \<Rightarrow> path_buf \<Rightarrow> path_buf option" where
  "jailer_pid_file_path root fc =
     map_option (\<lambda>exec_basename. path_push root [Normal (exec_basename @ ''.pid'')]) (file_name fc)"

definition read_firecracker_pid_file ::
    "path_buf \<Rightarrow> (string, io_error) result \<Rightarrow> (u32 option, jailer_error) result" where
  "read_firecracker_pid_file pid_file raw =
     (case raw of
        Err NotFound \<Rightarrow> Ok None
      | Err e \<Rightarrow> Err (JailerIo pid_file e)
      | Ok text \<Rightarrow>
          if trim text = [] then Ok None
          else (case parse_u32 (trim text) of
                  None \<Rightarrow> Err (JailerIo pid_file OtherIo)
                | Some pid \<Rightarrow> Ok (Some pid)))"

definition next_firecracker_pid_poll_delay :: "nat \<Rightarrow> nat" where
  "next_firecracker_pid_poll_delay current = min (current * 2) FIRECRACKER_PID_MAX_POLL"

text \<open>One poll: what the read of the file gives, and the clock after it. The result carries the sleeps.\<close>
fun wait_for_firecracker_pid_file_with_sleep ::
    "path_buf \<Rightarrow> nat \<Rightarrow> nat \<Rightarrow> ((string, io_error) result \<times> nat) list \<Rightarrow>
     ((u32 option, jailer_error) result \<times> nat list) option" where
  "wait_for_firecracker_pid_file_with_sleep pid_file deadline poll_delay [] = None"
| "wait_for_firecracker_pid_file_with_sleep pid_file deadline poll_delay ((raw, now) # polls) =
     (case read_firecracker_pid_file pid_file raw of
        Err e \<Rightarrow> Some (Err e, [])
      | Ok (Some pid) \<Rightarrow> Some (Ok (Some pid), [])
      | Ok None \<Rightarrow>
          if deadline \<le> now then Some (Ok None, [])
          else map_option (\<lambda>(r, sleeps). (r, min poll_delay (deadline - now) # sleeps))
                 (wait_for_firecracker_pid_file_with_sleep pid_file deadline
                   (next_firecracker_pid_poll_delay poll_delay) polls))"

definition wait_for_firecracker_pid_file ::
    "path_buf \<Rightarrow> nat \<Rightarrow> ((string, io_error) result \<times> nat) list \<Rightarrow>
     ((u32 option, jailer_error) result \<times> nat list) option" where
  "wait_for_firecracker_pid_file pid_file deadline polls =
     wait_for_firecracker_pid_file_with_sleep pid_file deadline FIRECRACKER_PID_INITIAL_POLL polls"

subsection \<open>Child processes\<close>

datatype spawn_outcome = Spawned u32 | TextBusy | SpawnFailed io_error

text \<open>Five attempts, a busy executable is retried after 10 ms.\<close>
fun spawn_attempts :: "path_buf \<Rightarrow> nat \<Rightarrow> spawn_outcome list \<Rightarrow> ((u32, jailer_error) result \<times> nat) option" where
  "spawn_attempts command_path attempt [] = None"
| "spawn_attempts command_path attempt (Spawned pid # os) = Some (Ok pid, attempt)"
| "spawn_attempts command_path attempt (TextBusy # os) =
     (if attempt < 4 then spawn_attempts command_path (attempt + 1) os
      else Some (Err (JailerIo command_path OtherIo), attempt))"
| "spawn_attempts command_path attempt (SpawnFailed e # os) = Some (Err (JailerIo command_path e), attempt)"

definition spawn_jailer_command :: "path_buf \<Rightarrow> spawn_outcome list \<Rightarrow> ((u32, jailer_error) result \<times> nat) option" where
  "spawn_jailer_command command_path os = spawn_attempts command_path 0 os"

datatype launch_event = Kill u32 | Reap u32

definition DETACHED_PARENT_TIMEOUT :: nat where "DETACHED_PARENT_TIMEOUT = 1000"

datatype child_status = Running | ExitedOk | ExitedBad | PollFailed io_error

fun wait_for_detached_parent ::
    "path_buf \<Rightarrow> u32 \<Rightarrow> nat \<Rightarrow> (child_status \<times> nat) list \<Rightarrow> ((unit, jailer_error) result \<times> launch_event list) option" where
  "wait_for_detached_parent label child deadline [] = None"
| "wait_for_detached_parent label child deadline ((st, now) # polls) =
     (case st of
        PollFailed e \<Rightarrow> Some (Err (JailerIo label e), [])
      | ExitedOk \<Rightarrow> Some (Ok (), [])
      | ExitedBad \<Rightarrow> Some (Err (JailerIo label OtherIo), [])
      | Running \<Rightarrow>
          if deadline \<le> now then Some (Err (JailerIo [Normal ''jailer process''] OtherIo), [Kill child, Reap child])
          else wait_for_detached_parent label child deadline polls)"

subsection \<open>The console log\<close>

definition STDIO_LOG_MAX_BYTES :: nat where "STDIO_LOG_MAX_BYTES = 2 * 1024 * 1024"

text \<open>The state two copiers share: the byte counter and the file they append to. One step is one chunk
  that a copier read and handled under the lock of the counter.\<close>
definition copy_chunk :: "nat \<Rightarrow> u8 list \<Rightarrow> nat \<times> u8 list \<Rightarrow> nat \<times> u8 list" where
  "copy_chunk limit chunk st =
     (case st of (written, log) \<Rightarrow>
        if written < limit
        then let to_write = min (length chunk) (limit - written) in (written + to_write, log @ take to_write chunk)
        else (written, log))"

definition copy_limited_stdio_to_log_with_counter :: "nat \<Rightarrow> u8 list list \<Rightarrow> nat \<times> u8 list \<Rightarrow> nat \<times> u8 list" where
  "copy_limited_stdio_to_log_with_counter limit chunks st = fold (copy_chunk limit) chunks st"

text \<open>\<open>open\<close> with \<open>create\<close> and \<open>append\<close>: an existing file keeps its content.\<close>
definition open_append :: "fpath \<Rightarrow> ('z fs_scheme, unit, io_error) eff" where
  "open_append q w =
     (case nodes w q of
        Some (FileNode bs) \<Rightarrow> (case take_fault w of (Fails _ _, w') \<Rightarrow> (Err OtherIo, w') | (Works, w') \<Rightarrow> (Ok (), w'))
      | _ \<Rightarrow> fs_write q [] w)"

definition open_stdio_log :: "jail_env \<Rightarrow> path_buf \<Rightarrow> (jail_world, nat, jailer_error) eff" where
  "open_stdio_log env p w =
     (let q = visible env p w in
      bind_eff (map_err (JailerIo p) (on_writable env p (open_append q))) (\<lambda>_.
      bind_eff (map_err (JailerIo p) (fs_set_permissions q)) (\<lambda>_.
      bind_eff (map_err (JailerIo p) (fs_len q)) (\<lambda>len. ret (min (unat len) STDIO_LOG_MAX_BYTES)))) w)"

subsection \<open>Launch\<close>

record launch_ops =
  netns_type :: "path_buf \<Rightarrow> (nat, io_error) result"
  spawns :: "spawn_outcome list"
  started_at :: nat
  parent_started_at :: nat
  pid_polls :: "((string, io_error) result \<times> nat) list"
  parent_polls :: "(child_status \<times> nat) list"

definition detached_label :: "jailer_config \<Rightarrow> path_buf option" where
  "detached_label c =
     (if daemonize c then Some [Normal ''daemonized jailer parent'']
      else if new_pid_ns c then Some [Normal ''new-pid-ns parent''] else None)"

definition recorded_jailer_pid ::
    "launch_ops \<Rightarrow> jailer_config \<Rightarrow> u32 \<Rightarrow> ((u32, jailer_error) result \<times> launch_event list) option" where
  "recorded_jailer_pid ops c child =
     (case detached_label c of
        None \<Rightarrow> Some (Ok child, [])
      | Some label \<Rightarrow>
          map_option (\<lambda>(r, es). (and_then r (\<lambda>_. Ok 0), es))
            (wait_for_detached_parent label child (parent_started_at ops + DETACHED_PARENT_TIMEOUT) (parent_polls ops)))"

definition open_launch_log :: "jail_env \<Rightarrow> jailer_config \<Rightarrow> (jail_world, nat option, jailer_error) eff" where
  "open_launch_log env c =
     (case stdio_log c of None \<Rightarrow> ret None | Some p \<Rightarrow> bind_eff (open_stdio_log env p) (\<lambda>n. ret (Some n)))"

text \<open>From the spawned child on: the pid file, the detached parent and the persisted pids.\<close>
definition launch_child ::
    "jail_env \<Rightarrow> launch_ops \<Rightarrow> materialized_jail \<Rightarrow> u32 \<Rightarrow> path_buf \<Rightarrow> jail_world \<Rightarrow>
     ((u32 \<times> u32, jailer_error) result \<times> launch_event list \<times> jail_world) option" where
  "launch_child env ops j child pid_file w =
     (case wait_for_firecracker_pid_file pid_file (started_at ops + FIRECRACKER_PID_TIMEOUT) (pid_polls ops) of
        None \<Rightarrow> None
      | Some (Err e, _) \<Rightarrow> Some (Err e, [], w)
      | Some (Ok None, _) \<Rightarrow> Some (Err (FirecrackerPidTimeout (mj_path j)), [Kill child, Reap child], w)
      | Some (Ok (Some fc_pid), _) \<Rightarrow>
          (case recorded_jailer_pid ops (plan_config (mj_plan j)) child of
             None \<Rightarrow> None
           | Some (Err e, es) \<Rightarrow> Some (Err e, es, w)
           | Some (Ok jailer_pid, es) \<Rightarrow>
               (case record_live_state env j jailer_pid fc_pid w of
                  (Err e, w') \<Rightarrow> Some (Err e, es, w')
                | (Ok _, w') \<Rightarrow> Some (Ok (jailer_pid, fc_pid), es, w'))))"

definition launch ::
    "jail_env \<Rightarrow> launch_ops \<Rightarrow> materialized_jail \<Rightarrow> path_buf \<Rightarrow> jail_world \<Rightarrow>
     ((u32 \<times> u32, jailer_error) result \<times> launch_event list \<times> jail_world) option" where
  "launch env ops j api_socket w =
     (case (file_name api_socket, jailer_pid_file_path (mj_path j) (firecracker_bin (plan_config (mj_plan j)))) of
        (Some api_socket_name, Some pid_file) \<Rightarrow>
          (case launch_command (netns_type ops) j api_socket_name of
             Err e \<Rightarrow> Some (Err e, [], w)
           | Ok (command_path, args) \<Rightarrow>
               (case open_launch_log env (plan_config (mj_plan j)) w of
                  (Err e, w1) \<Rightarrow> Some (Err e, [], w1)
                | (Ok _, w1) \<Rightarrow>
                    (case spawn_jailer_command command_path (spawns ops) of
                       None \<Rightarrow> None
                     | Some (Err e, _) \<Rightarrow> Some (Err e, [], w1)
                     | Some (Ok child, _) \<Rightarrow> launch_child env ops j child pid_file w1)))
      | _ \<Rightarrow> None)"

subsection \<open>The bounded waits\<close>

lemma poll_delay_bounds:
  "0 < d \<Longrightarrow> d \<le> FIRECRACKER_PID_MAX_POLL \<Longrightarrow>
   0 < next_firecracker_pid_poll_delay d \<and> next_firecracker_pid_poll_delay d \<le> FIRECRACKER_PID_MAX_POLL"
  by (simp add: next_firecracker_pid_poll_delay_def FIRECRACKER_PID_MAX_POLL_def)

lemma pid_wait_steps:
  assumes "wait_for_firecracker_pid_file_with_sleep f deadline d polls = Some (r, sleeps)" "0 < d" "d \<le> FIRECRACKER_PID_MAX_POLL"
  shows "length sleeps < length polls \<and>
    (\<forall>i < length sleeps. read_firecracker_pid_file f (fst (polls ! i)) = Ok None \<and> snd (polls ! i) < deadline \<and>
       0 < sleeps ! i \<and> sleeps ! i \<le> FIRECRACKER_PID_MAX_POLL \<and> snd (polls ! i) + sleeps ! i \<le> deadline) \<and>
    read_firecracker_pid_file f (fst (polls ! length sleeps)) = r \<and>
    (r = Ok None \<longrightarrow> deadline \<le> snd (polls ! length sleeps))"
  using assms
proof (induction f deadline d polls arbitrary: sleeps rule: wait_for_firecracker_pid_file_with_sleep.induct)
  case (2 f deadline d raw now polls)
  show ?case
  proof (cases "read_firecracker_pid_file f raw = Ok None \<and> now < deadline")
    case True
    with 2(2) obtain ss where ss: "sleeps = min d (deadline - now) # ss"
      and rec: "wait_for_firecracker_pid_file_with_sleep f deadline (next_firecracker_pid_poll_delay d) polls = Some (r, ss)"
      by auto
    have IH: "length ss < length polls \<and>
        (\<forall>i < length ss. read_firecracker_pid_file f (fst (polls ! i)) = Ok None \<and> snd (polls ! i) < deadline \<and>
           0 < ss ! i \<and> ss ! i \<le> FIRECRACKER_PID_MAX_POLL \<and> snd (polls ! i) + ss ! i \<le> deadline) \<and>
        read_firecracker_pid_file f (fst (polls ! length ss)) = r \<and> (r = Ok None \<longrightarrow> deadline \<le> snd (polls ! length ss))"
      using "2.IH" [of None ss] True rec poll_delay_bounds [OF 2(3,4)] by simp
    show ?thesis
      using IH True ss 2(3,4) by (auto simp: nth_Cons split: nat.split)
  next
    case False
    with 2(2) have "sleeps = []" "read_firecracker_pid_file f raw = r" "r = Ok None \<longrightarrow> deadline \<le> now"
      by (auto split: result.splits option.splits if_splits)
    then show ?thesis by simp
  qed
qed simp

lemma pid_wait_returns:
  assumes "\<exists>p \<in> set polls. deadline \<le> snd p"
  shows "\<exists>r sleeps. wait_for_firecracker_pid_file_with_sleep f deadline d polls = Some (r, sleeps)"
  using assms
proof (induction f deadline d polls rule: wait_for_firecracker_pid_file_with_sleep.induct)
  case (2 f deadline d raw now polls)
  show ?case
  proof (cases "read_firecracker_pid_file f raw = Ok None \<and> now < deadline")
    case True
    with 2(2) have "\<exists>p \<in> set polls. deadline \<le> snd p" by auto
    with True "2.IH" [of None] show ?thesis by fastforce
  next
    case False
    then show ?thesis by (auto split: result.splits option.splits)
  qed
qed simp



lemma spawn_attempts_bounded:
  "spawn_attempts p n os = Some (r, m) \<Longrightarrow> n \<le> 4 \<Longrightarrow> n \<le> m \<and> m \<le> 4 \<and> m - n < length os \<and>
   (\<forall>i < m - n. os ! i = TextBusy) \<and> (case os ! (m - n) of Spawned pid \<Rightarrow> r = Ok pid | _ \<Rightarrow> \<exists>e. r = Err e)"
proof (induction p n os rule: spawn_attempts.induct)
  case (3 p n os)
  show ?case
  proof (cases "n < 4")
    case True
    with 3 have IH: "n + 1 \<le> m \<and> m \<le> 4 \<and> m - (n + 1) < length os \<and> (\<forall>i < m - (n + 1). os ! i = TextBusy) \<and>
        (case os ! (m - (n + 1)) of Spawned pid \<Rightarrow> r = Ok pid | _ \<Rightarrow> \<exists>e. r = Err e)" by simp
    then obtain k where "m - n = Suc k" "m - (n + 1) = k" by (metis Suc_diff_le Suc_eq_plus1 add_diff_cancel_right' diff_Suc_Suc)
    with IH show ?thesis by (auto simp: nth_Cons split: nat.split)
  next
    case False
    with 3 show ?thesis by auto
  qed
qed auto

subsection \<open>The size of the log\<close>

lemma copy_chunk_counts:
  assumes "copy_chunk limit chunk (written, log) = (written', log')" and "written = min (length log) limit"
  shows "written' = min (length log') limit \<and> length log' = max (length log) (min limit (length log + length chunk)) \<and>
    take (length log) log' = log"
  using assms by (auto simp: copy_chunk_def Let_def split: if_splits)

lemma copied_log:
  assumes "written = min (length log) limit"
    and "copy_limited_stdio_to_log_with_counter limit chunks (written, log) = (written', log')"
  shows "written' = min (length log') limit \<and>
    length log' = max (length log) (min limit (length log + sum_list (map length chunks))) \<and> take (length log) log' = log"
  using assms unfolding copy_limited_stdio_to_log_with_counter_def
proof (induction chunks arbitrary: written log)
  case (Cons c cs)
  obtain w1 l1 where step: "copy_chunk limit c (written, log) = (w1, l1)" by fastforce
  note c = copy_chunk_counts [OF step Cons.prems(1)]
  have IH: "written' = min (length log') limit \<and>
      length log' = max (length l1) (min limit (length l1 + sum_list (map length cs))) \<and> take (length l1) log' = l1"
    using Cons.IH [of w1 l1] Cons.prems(2) step c by simp
  then have "take (length log) log' = take (length log) l1" using c by (metis max.cobounded1 min.absorb1 take_take)
  with IH c show ?case by (auto simp: max_def min_def)
qed auto

lemma take_fault_eq: "take_fault w = (f, w') \<Longrightarrow> nodes w' = nodes w \<and> (\<exists>fl. w' = w\<lparr>faults := fl\<rparr>)"
  by (auto simp: take_fault_def split: list.splits intro: exI [where x = "faults w"])

lemma open_append_Ok:
  assumes "open_append q (w :: jail_world) = (Ok u, w')"
  shows "\<exists>bs fl. w' = w\<lparr>faults := fl, nodes := (nodes w)(q \<mapsto> FileNode bs)\<rparr> \<and>
    (nodes w q = None \<and> bs = [] \<or> nodes w q = Some (FileNode bs))"
proof (cases "nodes w q")
  case None
  with assms have "fs_write q [] w = (Ok u, w')" by (simp add: open_append_def)
  with None show ?thesis
    by (auto simp: fs_write_def split: prod.splits fault.splits if_splits dest!: take_fault_eq)
next
  case (Some n)
  with assms show ?thesis
    by (cases n) (auto simp: open_append_def fs_write_def fun_upd_idem split: prod.splits fault.splits if_splits dest!: take_fault_eq)
qed

lemma open_stdio_log_Ok:
  assumes "open_stdio_log env p w = (Ok counter, w')"
  obtains log where "nodes w' = (nodes w)(visible env p w \<mapsto> FileNode log)" and "mounts w' = mounts w"
    and "nodes w (visible env p w) = None \<and> log = [] \<or> nodes w (visible env p w) = Some (FileNode log)"
    and "counter = min (unat (word_of_nat (length log) :: u64)) STDIO_LOG_MAX_BYTES"
proof -
  let ?q = "visible env p w"
  obtain w1 w2 where 1: "open_append ?q w = (Ok (), w1)" and 2: "fs_set_permissions ?q w1 = (Ok (), w2)"
    and 3: "map_err (JailerIo p) (bind_eff (fs_len ?q) (\<lambda>len. ret (min (unat len) STDIO_LOG_MAX_BYTES))) w2 = (Ok counter, w')"
    using assms by (fastforce simp: open_stdio_log_def Let_def bind_eff_def map_err_def on_writable_def
      split: prod.splits result.splits if_splits)
  obtain bs where bs: "nodes w1 = (nodes w)(?q \<mapsto> FileNode bs)" "mounts w1 = mounts w"
    "nodes w ?q = None \<and> bs = [] \<or> nodes w ?q = Some (FileNode bs)"
    using open_append_Ok [OF 1] by auto
  have w2: "nodes w2 = nodes w1" "mounts w2 = mounts w1"
    using 2 by (auto simp: fs_set_permissions_def split: prod.splits fault.splits if_splits dest!: take_fault_eq)
  with 3 bs have "nodes w' = nodes w2" "mounts w' = mounts w2"
    "counter = min (unat (word_of_nat (length bs) :: u64)) STDIO_LOG_MAX_BYTES"
    by (auto simp: fs_len_def bind_eff_def map_err_def split: prod.splits fault.splits dest!: take_fault_eq)
  with bs w2 that show thesis by metis
qed

text \<open>However the output of the two streams is interleaved, the copiers append to what the log already held and
  stop exactly at the limit of two mebibytes: the log is as long as before plus all output, cut at the limit, and
  a log that was already longer does not grow.\<close>
theorem stdio_log_bounded:
  assumes opened: "open_stdio_log env p w = (Ok counter, w1)" and held: "nodes w1 (visible env p w) = Some (FileNode log)"
    and small: "length log < 2 ^ 64"
    and copied: "copy_limited_stdio_to_log_with_counter STDIO_LOG_MAX_BYTES chunks (counter, log) = (written, log')"
  shows "(nodes w (visible env p w) = None \<and> log = [] \<or> nodes w (visible env p w) = Some (FileNode log)) \<and>
    take (length log) log' = log \<and>
    length log' = max (length log) (min STDIO_LOG_MAX_BYTES (length log + sum_list (map length chunks)))"
proof -
  have "unat (word_of_nat (length log) :: u64) = length log" using small by (subst unat_word_of_nat) auto
  with opened held have "counter = min (length log) STDIO_LOG_MAX_BYTES"
    and before: "nodes w (visible env p w) = None \<and> log = [] \<or> nodes w (visible env p w) = Some (FileNode log)"
    by (auto elim!: open_stdio_log_Ok)
  from copied_log [OF this(1) copied] before show ?thesis by blast
qed

subsection \<open>The outcome of a launch\<close>

lemma read_pid_Some:
  "read_firecracker_pid_file f raw = Ok (Some pid) \<longleftrightarrow> (\<exists>text. raw = Ok text \<and> trim text \<noteq> [] \<and> parse_u32 (trim text) = Some pid)"
  by (auto simp: read_firecracker_pid_file_def split: result.splits io_error.splits option.splits if_splits)

lemma pid_wait_Some:
  assumes "wait_for_firecracker_pid_file f deadline polls = Some (Ok (Some pid), sleeps)"
  shows "\<exists>p \<in> set polls. \<exists>text. fst p = Ok text \<and> parse_u32 (trim text) = Some pid"
proof -
  have "length sleeps < length polls \<and> read_firecracker_pid_file f (fst (polls ! length sleeps)) = Ok (Some pid)"
    using pid_wait_steps [of f deadline FIRECRACKER_PID_INITIAL_POLL polls] assms
    by (simp add: wait_for_firecracker_pid_file_def FIRECRACKER_PID_INITIAL_POLL_def FIRECRACKER_PID_MAX_POLL_def)
  then show ?thesis by (auto simp: read_pid_Some intro!: bexI [where x = "polls ! length sleeps"])
qed

lemma detached_parent_events:
  "wait_for_detached_parent l child d polls = Some (r, es) \<Longrightarrow>
   (r = Ok () \<longrightarrow> es = []) \<and> (es = [] \<or> es = [Kill child, Reap child])"
  by (induction l child d polls rule: wait_for_detached_parent.induct)
    (auto split: child_status.split_asm if_split_asm)

lemma spawned_child:
  assumes "spawn_jailer_command p os = Some (Ok child, n)"
  shows "Spawned child \<in> set os"
proof -
  have "n < length os \<and> (case os ! n of Spawned pid \<Rightarrow> (Ok child :: (u32, jailer_error) result) = Ok pid | _ \<Rightarrow> \<exists>e. (Ok child :: (u32, jailer_error) result) = Err e)"
    using spawn_attempts_bounded [of p 0 os "Ok child" n] assms by (simp add: spawn_jailer_command_def)
  then show ?thesis by (cases "os ! n") (auto dest: nth_mem)
qed

lemma launch_child_OkD:
  assumes "launch_child env ops j child f w = Some (Ok (jp, fp), es, w')"
  shows "record_live_state env j jp fp w = (Ok (), w') \<and> es = [] \<and>
    jp = (if detached_label (plan_config (mj_plan j)) = None then child else 0) \<and>
    (\<exists>p \<in> set (pid_polls ops). \<exists>text. fst p = Ok text \<and> parse_u32 (trim text) = Some fp)"
proof -
  obtain pid sleeps where wait: "wait_for_firecracker_pid_file f (started_at ops + FIRECRACKER_PID_TIMEOUT) (pid_polls ops) = Some (Ok (Some pid), sleeps)"
    using assms by (auto simp: launch_child_def split: option.split_asm result.split_asm)
  obtain jailer where parent: "recorded_jailer_pid ops (plan_config (mj_plan j)) child = Some (Ok jailer, es)"
    and "record_live_state env j jailer pid w = (Ok (), w')" "jp = jailer" "fp = pid"
    using assms by (auto simp: launch_child_def wait split: option.split_asm result.split_asm prod.split_asm)
  moreover from parent have "es = [] \<and> jailer = (if detached_label (plan_config (mj_plan j)) = None then child else 0)"
    by (auto simp: recorded_jailer_pid_def result_simps dest: detached_parent_events split: option.split_asm)
  ultimately show ?thesis using pid_wait_Some [OF wait] by simp
qed

subsection \<open>Errors of a launch\<close>

definition is_io :: "('a, jailer_error) result \<Rightarrow> bool" where
  "is_io r \<longleftrightarrow> (\<forall>p. r \<noteq> Err (FirecrackerPidTimeout p))"

lemma is_io_map_err: "is_io (fst (map_err (JailerIo p) m w))"
  by (auto simp: is_io_def map_err_def split: prod.splits result.splits)

lemma is_io_record: "is_io (fst (record_live_state env j a b w))"
  by (auto simp: record_live_state_def write_json_def write_file_no_follow_def is_io_map_err is_io_def [of "Err (JailerIo _ _)"] split: option.split)

lemma is_io_open: "is_io (fst (open_stdio_log env p w))"
  by (auto simp: is_io_def open_stdio_log_def Let_def bind_eff_def map_err_def split: prod.splits result.splits)

lemma is_io_command: "is_io (launch_command t j s)"
  by (auto simp: is_io_def launch_command_def Let_def validate_netns_path_def result_simps split: option.splits result.splits if_splits)

lemma is_io_read: "is_io (read_firecracker_pid_file f raw)"
  by (auto simp: is_io_def read_firecracker_pid_file_def split: result.splits io_error.splits option.splits)

lemma is_io_wait:
  assumes "wait_for_firecracker_pid_file f deadline polls = Some (r, sleeps)"
  shows "is_io r"
proof -
  have "r = read_firecracker_pid_file f (fst (polls ! length sleeps))"
    using pid_wait_steps [of f deadline FIRECRACKER_PID_INITIAL_POLL polls r sleeps] assms
    by (simp add: wait_for_firecracker_pid_file_def FIRECRACKER_PID_INITIAL_POLL_def FIRECRACKER_PID_MAX_POLL_def)
  then show ?thesis by (simp add: is_io_read)
qed

lemma is_io_parent:
  "wait_for_detached_parent l child d polls = Some (r, es) \<Longrightarrow>
   is_io r \<and> (es = [] \<or> es = [Kill child, Reap child] \<and> r = Err (JailerIo [Normal ''jailer process''] OtherIo))"
  by (induction l child d polls rule: wait_for_detached_parent.induct)
    (auto simp: is_io_def split: child_status.split_asm if_split_asm)

lemma is_io_spawn: "spawn_jailer_command p os = Some (r, m) \<Longrightarrow> is_io r"
proof -
  have "spawn_attempts p n os = Some (r, m) \<Longrightarrow> is_io r" for n
    by (induction p n os rule: spawn_attempts.induct) (auto simp: is_io_def split: if_splits)
  then show "spawn_jailer_command p os = Some (r, m) \<Longrightarrow> is_io r" by (simp add: spawn_jailer_command_def)
qed

lemma is_io_log: "is_io (fst (open_launch_log env c w))"
proof (cases "stdio_log c")
  case (Some p)
  obtain r w' where "open_stdio_log env p w = (r, w')" by fastforce
  with Some is_io_open [of env p w] show ?thesis by (cases r) (auto simp: is_io_def open_launch_log_def bind_eff_def)
qed (simp add: is_io_def open_launch_log_def)

lemma open_launch_log_Ok:
  assumes "open_launch_log env c w = (Ok n, w')"
  shows "mounts w' = mounts w \<and> (\<forall>q bs. nodes w q = Some (FileNode bs) \<longrightarrow> nodes w' q = Some (FileNode bs))"
  using assms by (auto simp: open_launch_log_def result_simps split: option.split_asm elim!: open_stdio_log_Ok)

text \<open>Before the child is spawned only the log file may have been created.\<close>
lemma launch_cases:
  assumes "launch env ops j sock w = Some (r, es, w')" and "(\<exists>pids. r = Ok pids) \<or> es \<noteq> [] \<or> \<not> is_io r"
  obtains w1 child f n where "launch_child env ops j child f w1 = Some (r, es, w')"
    and "spawn_jailer_command (case jailer_harden_bin (plan_config (mj_plan j)) of None \<Rightarrow> jailer_bin (plan_config (mj_plan j)) | Some h \<Rightarrow> h)
      (spawns ops) = Some (Ok child, n)"
    and "mounts w1 = mounts w" and "\<And>q bs. nodes w q = Some (FileNode bs) \<Longrightarrow> nodes w1 q = Some (FileNode bs)"
proof -
  let ?c = "plan_config (mj_plan j)"
  have final: "\<not> (r = Err e' \<and> es = [] \<and> is_io (Err e' :: (u32 \<times> u32, jailer_error) result))" for e' using assms(2) by auto
  obtain api f where names: "file_name sock = Some api" "jailer_pid_file_path (mj_path j) (firecracker_bin ?c) = Some f"
    using assms(1) by (auto simp: launch_def split: option.split_asm)
  obtain path args where cmd: "launch_command (netns_type ops) j api = Ok (path, args)"
    using assms(1) names final is_io_command [of "netns_type ops" j api]
    by (cases "launch_command (netns_type ops) j api") (auto simp: launch_def is_io_def)
  have path: "path = (case jailer_harden_bin ?c of None \<Rightarrow> jailer_bin ?c | Some h \<Rightarrow> h)"
    using cmd by (auto simp: launch_command_def Let_def result_simps split: option.splits)
  obtain l w1 where log: "open_launch_log env ?c w = (l, w1)" by fastforce
  obtain n0 where l: "l = Ok n0"
    using assms(1) names cmd final log is_io_log [of env ?c w] by (cases l) (auto simp: launch_def is_io_def)
  obtain q n where spawn: "spawn_jailer_command path (spawns ops) = Some (q, n)"
    using assms(1) names cmd log l by (auto simp: launch_def split: option.split_asm)
  obtain child where q: "q = Ok child"
    using assms(1) names cmd final log l spawn is_io_spawn [OF spawn] by (cases q) (auto simp: launch_def is_io_def)
  have "launch_child env ops j child f w1 = Some (r, es, w')"
    using assms(1) names cmd log l spawn q by (simp add: launch_def)
  with spawn q path open_launch_log_Ok [of env ?c w n0 w1] log l that show thesis by metis
qed

text \<open>C12: A successful launch has killed nothing, returns the pid the pid file held and, for a jailer that stays in the
  foreground, the pid of the spawned process (zero for one that detaches); and a later inspection of the run
  directory finds exactly these pids while the processes run, and the planned steps in reverse afterwards.\<close>
theorem launched_jail_is_recovered:
  assumes plan: "plan_compute c = Some (Ok plan)" and mat: "materialize env plan w = Some (Ok j, w1)"
    and lit: "literal_below env (run_dir c)" and clear: "clear_of (locate env (run_dir c)) (mounts w)"
    and json: "json_faithful env"
    and run: "launch env ops j sock w1 = Some (Ok (jp, fp), es, w2)" and calm: "faults w2 = []"
  shows "es = [] \<and>
    (if daemonize c \<or> new_pid_ns c then jp = 0 else Spawned jp \<in> set (spawns ops)) \<and>
    (\<exists>p \<in> set (pid_polls ops). \<exists>text. fst p = Ok text \<and> parse_u32 (trim text) = Some fp) \<and>
    inspect_run_dir_with_systemd_probe env probe (run_dir c) w2 =
      (Ok (if (jp = 0 \<or> there env (proc_path jp) w2) \<and> there env (proc_path fp) w2 then LiveJail jp fp
           else OrphanJail (rev (plan_steps plan))), w2)"
proof -
  have cfg: "plan_config (mj_plan j) = c" by (rule materialized_config [OF plan mat])
  obtain w' child f n where child: "launch_child env ops j child f w' = Some (Ok (jp, fp), es, w2)"
    and spawn: "Spawned child \<in> set (spawns ops)" and same: "mounts w' = mounts w1"
    and keep: "\<And>q bs. nodes w1 q = Some (FileNode bs) \<Longrightarrow> nodes w' q = Some (FileNode bs)"
    using launch_cases [OF run] spawned_child by metis
  note out = launch_child_OkD [OF child]
  obtain pb where pb: "plan_json env plan = Some pb" "nodes w1 (locate env (run_dir c) @ [JAILER_PLAN_FILE]) = Some (FileNode pb)"
    and vis: "\<And>f v. mounts v = mounts w1 \<Longrightarrow> visible env (run_dir c @ [Normal f]) v = locate env (run_dir c) @ [f]"
    using materialize_files [OF plan mat lit clear] by metis
  have "inspect_run_dir_with_systemd_probe env probe (run_dir c) w2 =
      (Ok (if (jp = 0 \<or> there env (proc_path jp) w2) \<and> there env (proc_path fp) w2 then LiveJail jp fp
           else OrphanJail (rev (plan_steps plan))), w2)"
    using out by (intro recorded_pids_inspected [OF cfg json pb(1) keep [OF pb(2)] vis [unfolded same [symmetric]] _ calm]) auto
  with out spawn show ?thesis by (auto simp: detached_label_def cfg)
qed

lemma is_io_recorded:
  assumes "recorded_jailer_pid ops c child = Some (r, es)"
  shows "is_io r \<and> (es = [] \<or> es = [Kill child, Reap child] \<and> r = Err (JailerIo [Normal ''jailer process''] OtherIo))"
proof (cases "detached_label c")
  case None
  with assms show ?thesis by (auto simp: is_io_def recorded_jailer_pid_def)
next
  case (Some l)
  with assms obtain q where "wait_for_detached_parent l child (parent_started_at ops + DETACHED_PARENT_TIMEOUT) (parent_polls ops) = Some (q, es)"
    "r = and_then q (\<lambda>_. Ok 0)" by (auto simp: recorded_jailer_pid_def)
  with is_io_parent [OF this(1)] show ?thesis by (cases q) (auto simp: is_io_def)
qed

lemma launch_child_ErrD:
  assumes "launch_child env ops j child f w = Some (Err e, es, w')"
  shows "e = FirecrackerPidTimeout (mj_path j) \<and> es = [Kill child, Reap child] \<or>
    (\<forall>p. e \<noteq> FirecrackerPidTimeout p) \<and>
    (es = [] \<or> es = [Kill child, Reap child] \<and> e = JailerIo [Normal ''jailer process''] OtherIo)"
proof -
  obtain r ss where wait: "wait_for_firecracker_pid_file f (started_at ops + FIRECRACKER_PID_TIMEOUT) (pid_polls ops) = Some (r, ss)"
    using assms by (auto simp: launch_child_def split: option.split_asm)
  have io: "is_io r" by (rule is_io_wait [OF wait])
  let ?parent = "recorded_jailer_pid ops (plan_config (mj_plan j)) child"
  show ?thesis
  proof (cases "\<exists>pid. r = Ok (Some pid)")
    case False
    with assms io show ?thesis
      by (auto simp: launch_child_def wait is_io_def split: result.split_asm option.split_asm)
  next
    case True
    then obtain pid where r: "r = Ok (Some pid)" by blast
    have "?parent \<noteq> None" using assms by (cases ?parent) (simp_all add: launch_child_def wait r)
    then obtain q es' where q: "?parent = Some (q, es')" by (metis option.exhaust prod.exhaust)
    note pq = is_io_recorded [OF q]
    show ?thesis
    proof (cases q)
      case (Err e')
      with assms q pq show ?thesis by (auto simp: launch_child_def wait r is_io_def)
    next
      case (Ok jp)
      have "is_io (fst (record_live_state env j jp pid w))" by (rule is_io_record)
      with assms q pq Ok show ?thesis
        by (auto simp: launch_child_def wait r is_io_def split: prod.split_asm result.split_asm)
    qed
  qed
qed

text \<open>A failed launch kills and reaps the spawned process when the pid file never appeared or a detached parent
  did not exit, and in no other case: after an unreadable pid file, a parent that exited badly or pids that could
  not be recorded, the spawned process is left running.\<close>
theorem failed_launch_kills_on_timeout:
  assumes run: "launch env ops j sock w = Some (Err e, es, w')"
    and spawn: "spawn_jailer_command (case jailer_harden_bin (plan_config (mj_plan j)) of None \<Rightarrow> jailer_bin (plan_config (mj_plan j)) | Some h \<Rightarrow> h)
      (spawns ops) = Some (Ok child, n)"
  shows "(e = FirecrackerPidTimeout (mj_path j) \<longrightarrow> es = [Kill child, Reap child]) \<and>
    (e \<noteq> FirecrackerPidTimeout (mj_path j) \<and> e \<noteq> JailerIo [Normal ''jailer process''] OtherIo \<longrightarrow> es = [])"
proof (cases "es = [] \<and> is_io (Err e :: (u32 \<times> u32, jailer_error) result)")
  case False
  then obtain w1 child' f m where "launch_child env ops j child' f w1 = Some (Err e, es, w')" "child' = child"
    using launch_cases [OF run] spawn by (metis Pair_inject option.inject result.inject(1))
  from launch_child_ErrD [OF this(1)] this(2) show ?thesis by blast
qed (auto simp: is_io_def)

subsection \<open>A launch\<close>

definition launch_sample_ops :: "((string, io_error) result \<times> nat) list \<Rightarrow> launch_ops" where
  "launch_sample_ops polls = \<lparr>netns_type = (\<lambda>_. Err NotFound), spawns = [TextBusy, Spawned 7], started_at = 0, parent_started_at = 0,
     pid_polls = polls, parent_polls = []\<rparr>"

definition api_sock :: path_buf where "api_sock = path_components ''/run/vm/firecracker.sock''"

lemma sample_names:
  "file_name api_sock = Some ''firecracker.sock''"
  "jailer_pid_file_path root (firecracker_bin (sample_jail [])) = Some (root @ [Normal ''fc.pid''])"
  by (code_simp, simp add: jailer_pid_file_path_def, code_simp)

lemma sample_pids: "trim (''7'' @ [CHR 0x0A]) = ''7''" "parse_u32 ''7'' = Some 7" "trim ''seven'' = ''seven''" "parse_u32 ''seven'' = None"
  by (code_simp, simp add: parse_u32_def is_ascii_digit_def, code_simp, simp add: parse_u32_def is_ascii_digit_def)

lemma launch_sample_ops_fields [simp]:
  "spawns (launch_sample_ops ps) = [TextBusy, Spawned 7]" "started_at (launch_sample_ops ps) = 0" "pid_polls (launch_sample_ops ps) = ps"
  by (simp_all add: launch_sample_ops_def)

lemma sample_jail_fields [simp]:
  "netns_path (sample_jail []) = None" "stdio_log (sample_jail []) = None" "jailer_harden_bin (sample_jail []) = None"
  "detached_label (sample_jail []) = None"
  by (simp_all add: sample_jail_def detached_label_def)

lemma sample_launch:
  assumes "plan_config (mj_plan j) = sample_jail []"
  shows "launch env (launch_sample_ops polls) j api_sock w =
    launch_child env (launch_sample_ops polls) j 7 (mj_path j @ [Normal ''fc.pid'']) w"
  using assms by (simp add: launch_def sample_names launch_command_def Let_def spawn_jailer_command_def open_launch_log_def)

theorem launched_jail_is_recovered_witness:
  "\<exists>j w1 w2. materialize recovery_env recovery_plan recovery_host = Some (Ok j, w1) \<and>
     launch recovery_env (launch_sample_ops [(Err NotFound, 0), (Ok (''7'' @ [CHR 0x0A]), 2)]) j api_sock w1 = Some (Ok (7, 7), [], w2) \<and>
     inspect_run_dir_with_systemd_probe recovery_env (\<lambda>_. Ok UnitInactive) (run_dir (sample_jail [])) w2 = (Ok (LiveJail 7 7), w2)"
proof -
  obtain j w1 w2 where 1: "materialize recovery_env recovery_plan recovery_host = Some (Ok j, w1)"
    "record_live_state recovery_env j 7 7 w1 = (Ok (), w2)" "faults w2 = []" "there recovery_env (proc_path 7) w2"
    using recorded_okE [OF recovery_records(1)] by blast
  note cfg = materialized_config [OF recovery_planned 1(1)]
  have 2: "launch recovery_env (launch_sample_ops [(Err NotFound, 0), (Ok (''7'' @ [CHR 0x0A]), 2)]) j api_sock w1 = Some (Ok (7, 7), [], w2)"
    using 1(2) sample_pids(1,2)
    by (simp add: sample_launch [OF cfg] launch_child_def wait_for_firecracker_pid_file_def read_firecracker_pid_file_def cfg
      recorded_jailer_pid_def FIRECRACKER_PID_TIMEOUT_def)
  from launched_jail_is_recovered [OF recovery_planned 1(1) recovery_literal recovery_clear recovery_faithful 2 1(3),
      of "\<lambda>_. Ok UnitInactive"] 1 2 show ?thesis by auto
qed

theorem failed_launch_kills_on_timeout_witness:
  "\<exists>j w1 e. materialize recovery_env recovery_plan recovery_host = Some (Ok j, w1) \<and>
     launch recovery_env (launch_sample_ops [(Err NotFound, 0), (Ok ''seven'', 2)]) j api_sock w1 = Some (Err e, [], w1)"
proof -
  obtain j w1 w2 where 1: "materialize recovery_env recovery_plan recovery_host = Some (Ok j, w1)"
    using recorded_okE [OF recovery_records(1)] by blast
  let ?e = "JailerIo (mj_path j @ [Normal ''fc.pid'']) OtherIo"
  note cfg = materialized_config [OF recovery_planned 1(1)]
  obtain es where 2: "launch recovery_env (launch_sample_ops [(Err NotFound, 0), (Ok ''seven'', 2)]) j api_sock w1 = Some (Err ?e, es, w1)"
    using sample_pids(3,4)
    by (simp add: sample_launch [OF cfg] launch_child_def wait_for_firecracker_pid_file_def read_firecracker_pid_file_def cfg
      FIRECRACKER_PID_TIMEOUT_def)
  have "mj_path j \<noteq> []" using materialized_identity [OF recovery_planned 1(1)] by (auto simp: jail_root_path_iff)
  moreover have "spawn_jailer_command p (spawns (launch_sample_ops ps)) = Some (Ok 7, 1)" for p ps
    by (simp add: spawn_jailer_command_def)
  ultimately have "es = []" using failed_launch_kills_on_timeout [OF 2] by simp
  with 1 2 show ?thesis by blast
qed

theorem stdio_log_bounded_witness:
  "\<exists>n log'. copy_limited_stdio_to_log_with_counter STDIO_LOG_MAX_BYTES [[1, 2], [3]] (1, [7]) = (n, log') \<and>
     take 1 log' = [7] \<and> length log' = 4"
proof -
  let ?p = "path_components ''/data/x''"
  have q: "visible jail_sample_env ?p (sample_host [] []) = [''data'', ''x'']" "read_only_at jail_sample_env ?p (sample_host [] []) = False"
    by code_simp+
  have data: "nodes (sample_host [] []) [''data'', ''x''] = Some (FileNode [7])" "faults (sample_host [] []) = []"
    by (simp_all add: sample_host_def)
  have opened: "open_stdio_log jail_sample_env ?p (sample_host [] []) = (Ok 1, sample_host [] [])"
    using data by (simp add: open_stdio_log_def Let_def q bind_eff_def map_err_def on_writable_def open_append_def
      fs_set_permissions_def fs_len_def take_fault_def STDIO_LOG_MAX_BYTES_def)
  have held: "nodes (sample_host [] []) (visible jail_sample_env ?p (sample_host [] [])) = Some (FileNode [7])"
    by (simp add: q data)
  obtain n log' where copied: "copy_limited_stdio_to_log_with_counter STDIO_LOG_MAX_BYTES [[1, 2], [3]] (1, [7]) = (n, log')"
    by fastforce
  from stdio_log_bounded [OF opened held _ copied] copied show ?thesis by (simp add: STDIO_LOG_MAX_BYTES_def)
qed

text \<open>The chroot that the official jailer derives from its arguments, base directory, executable name and id, is the
  jail root that was prepared.\<close>
theorem launch_command_names_jail:
  assumes plan: "plan_compute c = Some (Ok plan)" and mat: "materialize env plan w = Some (Ok j, w1)"
    and cmd: "launch_command fs_type j api = Ok (path, args)"
  shows "\<exists>front rest exe e i base. args = front @ [Text ''--id'', Text i, Text ''--exec-file'', PathArg exe,
      Text ''--uid'', u32_text (jail_uid c), Text ''--gid'', u32_text (jail_gid c), Text ''--chroot-base-dir'', PathArg base] @ rest \<and>
    file_name exe = Some e \<and> mj_path j = base @ [Normal e, Normal i, Normal ''root''] \<and>
    (path, front) = (case jailer_harden_bin c of None \<Rightarrow> (jailer_bin c, []) | Some h \<Rightarrow> (h, harden_args c))"
proof -
  have facts: "plan_config (mj_plan j) = c" "jail_root_path (run_dir c) (firecracker_bin c) = Some (mj_path j)"
    "file_name (run_dir c) = Some (mj_vm_id j)"
    using materialized_identity [OF plan mat] by blast+
  then obtain e where "file_name (firecracker_bin c) = Some e" "mj_path j = run_dir c @ [Normal e, Normal (mj_vm_id j), Normal ''root'']"
    by (auto simp: jail_root_path_iff)
  moreover have "path = fst (case jailer_harden_bin c of None \<Rightarrow> (jailer_bin c, []) | Some h \<Rightarrow> (h, harden_args c))"
    "args = snd (case jailer_harden_bin c of None \<Rightarrow> (jailer_bin c, []) | Some h \<Rightarrow> (h, harden_args c)) @
      jailer_args c (mj_vm_id j) @ [Text ''--''] @ firecracker_args c api"
    using cmd by (auto simp: launch_command_def Let_def facts(1) result_simps)
  ultimately show ?thesis
    unfolding jailer_args_def append_assoc append_Cons append_Nil by (metis append_Cons append_Nil prod.collapse)
qed

end
