(* ===== verification/Vsock.thy ===== *)
theory Vsock
  imports Framing Host_Fs
begin

text \<open>
  The host side of the connection to the guest agent (\<open>m80-vsock/src/lib.rs\<close>): the address of a VM, the handshake
  with Firecracker's bridge and the reads with and without a deadline. A connection is the buffer of the
  \<open>BufReader\<close> and the chunks the peer still sends, each with the time that passes before it arrives; time is
  in milliseconds and also passes, by the list \<open>jitter\<close>, before the clock is read. A peer that sends nothing
  more has closed the connection.
\<close>

subsection \<open>Addresses\<close>

definition cid_for_vm_id :: "(u8 list \<Rightarrow> u8 list) \<Rightarrow> string \<Rightarrow> u32" where
  "cid_for_vm_id sha256 vm_id =
     (let bytes = sha256 (str_bytes vm_id);
          raw = from_be_bytes [bytes ! 0, bytes ! 1, bytes ! 2, bytes ! 3]
      in 3 + (raw mod (-1 - 3)))"

subsection \<open>Connections\<close>

text \<open>A chunk is never empty.\<close>
datatype arrival = Data u8 "u8 list" | Fault string

record channel =
  chan_buf :: "u8 list"
  arrivals :: "(nat \<times> arrival) list"
  chan_time :: nat
  jitter :: "nat list"
  chan_timeout :: "nat option"
  opt_errors :: "string option list"
  written :: "u8 list"

definition chan_now :: "(channel, nat, string) eff" where
  "chan_now w =
     (case jitter w of
        [] \<Rightarrow> (Ok (chan_time w), w)
      | j # js \<Rightarrow> (Ok (chan_time w + j), w\<lparr>chan_time := chan_time w + j, jitter := js\<rparr>))"

text \<open>Calls on the socket other than reads take their outcome from \<open>opt_errors\<close>; a list that ended means success.\<close>
definition opt_outcome :: "(channel, unit, string) eff" where
  "opt_outcome w =
     (case opt_errors w of
        [] \<Rightarrow> (Ok (), w)
      | None # es \<Rightarrow> (Ok (), w\<lparr>opt_errors := es\<rparr>)
      | Some e # es \<Rightarrow> (Err e, w\<lparr>opt_errors := es\<rparr>))"

definition set_read_timeout :: "nat option \<Rightarrow> (channel, unit, string) eff" where
  "set_read_timeout t = bind_eff opt_outcome (\<lambda>_ w. (Ok (), w\<lparr>chan_timeout := t\<rparr>))"

definition times_out :: "channel \<Rightarrow> nat \<Rightarrow> bool" where
  "times_out w d \<longleftrightarrow> (case chan_timeout w of None \<Rightarrow> False | Some t \<Rightarrow> t \<le> d)"

text \<open>One \<open>read\<close> of at most \<open>cap\<close> bytes on the socket.\<close>
definition sock_read :: "nat \<Rightarrow> (channel, u8 list, string) eff" where
  "sock_read cap w =
     (case arrivals w of
        [] \<Rightarrow> (Ok [], w)
      | (d, a) # rest \<Rightarrow>
          if times_out w d then
            (let t = the (chan_timeout w) in
             (Err ''WouldBlock'', w\<lparr>chan_time := chan_time w + t, arrivals := (d - t, a) # rest\<rparr>))
          else
            (let w' = w\<lparr>chan_time := chan_time w + d, arrivals := rest\<rparr> in
             case a of
               Fault e \<Rightarrow> (Err e, w')
             | Data b bs \<Rightarrow>
                 (Ok (take cap (b # bs)),
                  case drop cap (b # bs) of [] \<Rightarrow> w' | c # cs \<Rightarrow> w'\<lparr>arrivals := (0, Data c cs) # rest\<rparr>)))"

text \<open>\<open>BufReader\<close>: \<open>fill_buf\<close> reads into an empty buffer; \<open>read\<close> bypasses an empty buffer when the caller asks for at
  least its capacity.\<close>
definition BUF_CAPACITY :: nat where "BUF_CAPACITY = 8192"

definition fill_buf :: "(channel, unit, string) eff" where
  "fill_buf w =
     (if chan_buf w \<noteq> [] then (Ok (), w)
      else bind_eff (sock_read BUF_CAPACITY) (\<lambda>bs w. (Ok (), w\<lparr>chan_buf := bs\<rparr>)) w)"

definition take_buf :: "nat \<Rightarrow> (channel, u8 list, string) eff" where
  "take_buf n w = (Ok (take n (chan_buf w)), w\<lparr>chan_buf := drop n (chan_buf w)\<rparr>)"

definition buf_read :: "nat \<Rightarrow> (channel, u8 list, string) eff" where
  "buf_read n w =
     (if chan_buf w = [] \<and> BUF_CAPACITY \<le> n then sock_read n w
      else bind_eff fill_buf (\<lambda>_. take_buf n) w)"

subsection \<open>Reads with a deadline\<close>

definition DEADLINE_READ_POLL_TIMEOUT :: nat where "DEADLINE_READ_POLL_TIMEOUT = 5000"

definition is_read_timeout :: "string \<Rightarrow> bool" where
  "is_read_timeout k \<longleftrightarrow> k = ''TimedOut'' \<or> k = ''WouldBlock''"

definition read_timeout_before :: "nat \<Rightarrow> (channel, nat option, string) eff" where
  "read_timeout_before deadline =
     bind_eff chan_now (\<lambda>now.
       ret (if deadline \<le> now then None else Some (min (deadline - now) DEADLINE_READ_POLL_TIMEOUT)))"

text \<open>\<open>DeadlineReader::read\<close>\<close>
definition deadline_read :: "nat \<Rightarrow> nat \<Rightarrow> (channel, u8 list, string) eff" where
  "deadline_read deadline n =
     bind_eff (read_timeout_before deadline) (\<lambda>timeout.
       case timeout of
         None \<Rightarrow> fail ''TimedOut''
       | Some t \<Rightarrow>
           bind_eff (set_read_timeout (Some t)) (\<lambda>_ w.
             case buf_read n w of
               (Ok bs, w') \<Rightarrow> (Ok bs, w')
             | (Err k, w') \<Rightarrow>
                 if is_read_timeout k then
                   bind_eff chan_now (\<lambda>now. fail (if deadline \<le> now then ''TimedOut'' else k)) w'
                 else (Err k, w')))"

text \<open>Who reads: the channel itself, or a \<open>DeadlineReader\<close> around it.\<close>
datatype reader = Direct | Until nat

fun reader_read :: "reader \<Rightarrow> nat \<Rightarrow> (channel, u8 list, string) eff" where
  "reader_read Direct n = buf_read n"
| "reader_read (Until deadline) n = deadline_read deadline n"

subsection \<open>Read loops\<close>

text \<open>Bytes that are still to come, and what a retried read has used up.\<close>
definition backlog :: "channel \<Rightarrow> nat" where
  "backlog w = length (arrivals w) + length (opt_errors w)"

lemma sock_read_backlog:
  "sock_read n w = (r, w') \<Longrightarrow> opt_errors w' = opt_errors w \<and>
   length (arrivals w') \<le> length (arrivals w) \<and> (r = Err ''Interrupted'' \<longrightarrow> length (arrivals w') < length (arrivals w))"
  by (auto simp: sock_read_def Let_def split: list.splits prod.splits arrival.splits if_splits)

lemma fill_buf_backlog:
  "fill_buf w = (r, w') \<Longrightarrow> backlog w' \<le> backlog w \<and> (r = Err ''Interrupted'' \<longrightarrow> backlog w' < backlog w)"
  by (auto simp: fill_buf_def bind_eff_def backlog_def split: prod.splits result.splits if_splits dest!: sock_read_backlog)

lemma buf_read_backlog:
  "buf_read n w = (r, w') \<Longrightarrow> backlog w' \<le> backlog w \<and> (r = Err ''Interrupted'' \<longrightarrow> backlog w' < backlog w)"
  by (auto simp: buf_read_def bind_eff_def take_buf_def backlog_def split: prod.splits result.splits if_splits
    dest!: sock_read_backlog fill_buf_backlog)

lemma chan_now_Ok:
  "chan_now w = (r, w') \<Longrightarrow> r = Ok (chan_time w') \<and> chan_time w \<le> chan_time w' \<and> w' = w\<lparr>chan_time := chan_time w', jitter := jitter w'\<rparr>"
  by (cases w) (auto simp: chan_now_def split: list.splits)

lemma chan_now_same:
  "chan_now w = (r, w') \<Longrightarrow> arrivals w' = arrivals w \<and> opt_errors w' = opt_errors w \<and> chan_buf w' = chan_buf w \<and>
   chan_timeout w' = chan_timeout w \<and> written w' = written w"
  by (auto simp: chan_now_def split: list.splits)

lemma chan_now_obtain:
  obtains w' where "chan_now w = (Ok (chan_time w'), w')" "chan_time w \<le> chan_time w'"
    "w' = w\<lparr>chan_time := chan_time w', jitter := jitter w'\<rparr>"
  by (metis chan_now_Ok surj_pair)

lemma set_read_timeout_cases:
  assumes "set_read_timeout t w = (r, w')"
  obtains (ok) es where "r = Ok ()" and "w' = w\<lparr>opt_errors := es, chan_timeout := t\<rparr>" and "length es \<le> length (opt_errors w)"
  | (err) e es where "r = Err e" and "w' = w\<lparr>opt_errors := es\<rparr>" and "length es < length (opt_errors w)"
proof (cases "opt_errors w")
  case Nil
  then have "w = w\<lparr>opt_errors := []\<rparr>" by simp
  with assms Nil ok show thesis by (auto simp: set_read_timeout_def opt_outcome_def bind_eff_def)
next
  case (Cons e es)
  with assms ok err show thesis
    by (cases e) (auto simp: set_read_timeout_def opt_outcome_def bind_eff_def)
qed

lemma deadline_read_cases:
  assumes "deadline_read deadline n w = (r, w')"
  obtains (expired) "chan_now w = (Ok (chan_time w'), w')" and "r = Err ''TimedOut''" and "deadline \<le> chan_time w'"
  | (option_error) e w1 es where "chan_now w = (Ok (chan_time w1), w1)" and "r = Err e" and "w' = w1\<lparr>opt_errors := es\<rparr>"
      and "length es < length (opt_errors w)"
  | (data) w1 es t bs where "chan_now w = (Ok (chan_time w1), w1)" and "chan_time w1 < deadline"
      and "t = min (deadline - chan_time w1) DEADLINE_READ_POLL_TIMEOUT" and "length es \<le> length (opt_errors w)"
      and "buf_read n (w1\<lparr>opt_errors := es, chan_timeout := Some t\<rparr>) = (Ok bs, w')" and "r = Ok bs"
  | (late) w1 es t k w2 where "chan_now w = (Ok (chan_time w1), w1)" and "chan_time w1 < deadline"
      and "t = min (deadline - chan_time w1) DEADLINE_READ_POLL_TIMEOUT" and "length es \<le> length (opt_errors w)"
      and "buf_read n (w1\<lparr>opt_errors := es, chan_timeout := Some t\<rparr>) = (Err k, w2)" and "is_read_timeout k"
      and "chan_now w2 = (Ok (chan_time w'), w')" and "r = Err (if deadline \<le> chan_time w' then ''TimedOut'' else k)"
  | (fault) w1 es t k where "chan_now w = (Ok (chan_time w1), w1)" and "chan_time w1 < deadline"
      and "t = min (deadline - chan_time w1) DEADLINE_READ_POLL_TIMEOUT" and "length es \<le> length (opt_errors w)"
      and "buf_read n (w1\<lparr>opt_errors := es, chan_timeout := Some t\<rparr>) = (Err k, w')" and "\<not> is_read_timeout k" and "r = Err k"
proof -
  obtain w1 where now: "chan_now w = (Ok (chan_time w1), w1)" and n1: "chan_time w \<le> chan_time w1"
    "w1 = w\<lparr>chan_time := chan_time w1, jitter := jitter w1\<rparr>"
    by (rule chan_now_obtain)
  note run = assms [unfolded deadline_read_def read_timeout_before_def bind_eff_def]
  show thesis
  proof (cases "deadline \<le> chan_time w1")
    case True
    with run now have "r = Err ''TimedOut''" "w' = w1" by simp_all
    with True now expired show thesis by blast
  next
    case False
    let ?t = "min (deadline - chan_time w1) DEADLINE_READ_POLL_TIMEOUT"
    obtain r2 w2 where opt: "set_read_timeout (Some ?t) w1 = (r2, w2)" by fastforce
    have errs: "opt_errors w1 = opt_errors w" by (subst n1(2)) simp
    show thesis
      using opt
    proof (cases rule: set_read_timeout_cases)
      case (err e es)
      with run now False opt have "r = Err e" "w' = w1\<lparr>opt_errors := es\<rparr>" by simp_all
      with option_error [OF now this] err errs show thesis by simp
    next
      case (ok es)
      obtain r3 w3 where br: "buf_read n w2 = (r3, w3)" by fastforce
      show thesis
      proof (cases r3)
        case (Ok bs)
        with run now False opt ok br have "r = Ok bs" "w' = w3" by simp_all
        with data [OF now _ refl _ _] False ok errs br Ok show thesis by simp
      next
        case (Err k)
        obtain w4 where now': "chan_now w3 = (Ok (chan_time w4), w4)" by (rule chan_now_obtain)
        show thesis
        proof (cases "is_read_timeout k")
          case True
          with run now False opt ok br Err now' have "r = Err (if deadline \<le> chan_time w4 then ''TimedOut'' else k) \<and> w' = w4"
            by (auto simp: bind_eff_def)
          with late [OF now _ refl _ _ True] False ok errs br Err now' show thesis by simp
        next
          case other: False
          with run now False opt ok br Err have "r = Err k" "w' = w3" by simp_all
          with fault [OF now _ refl _ _ other] False ok errs br Err show thesis by simp
        qed
      qed
    qed
  qed
qed

lemma deadline_read_backlog:
  assumes "deadline_read deadline n w = (Err ''Interrupted'', w')"
  shows "backlog w' < backlog w"
  using assms
proof (cases rule: deadline_read_cases)
  case (option_error e w1 es)
  with chan_now_same [OF option_error(1)] show ?thesis by (auto simp: backlog_def)
next
  case (late w1 es t k w2)
  then show ?thesis by (auto simp: is_read_timeout_def split: if_splits)
next
  case (fault w1 es t k)
  with chan_now_same [OF fault(1)] buf_read_backlog [OF fault(5)] show ?thesis by (auto simp: backlog_def)
qed simp_all

text \<open>\<open>Read::read_exact\<close>\<close>
function read_exact :: "reader \<Rightarrow> nat \<Rightarrow> u8 list \<Rightarrow> (channel, u8 list, string) eff" where
  "read_exact r n acc w =
     (if n = 0 then (Ok acc, w)
      else case reader_read r n w of
             (Ok bs, w') \<Rightarrow>
               if bs = [] then (Err ''UnexpectedEof'', w')
               else read_exact r (n - length bs) (acc @ bs) w'
           | (Err k, w') \<Rightarrow> if k = ''Interrupted'' then read_exact r n acc w' else (Err k, w'))"
  by pat_completeness auto
termination
proof (relation "measures [\<lambda>(r, n, acc, w). n, \<lambda>(r, n, acc, w). backlog w]", goal_cases)
  case (3 r n acc w x y k)
  then show ?case
    using deadline_read_backlog [of _ n w y] buf_read_backlog [of n w "Err ''Interrupted''" y] by (cases r) auto
qed auto

declare read_exact.simps [simp del]

text \<open>\<open>BufRead::read_until\<close> for a newline on a reader limited by \<open>take\<close>.\<close>
function read_line_until :: "nat \<Rightarrow> u8 list \<Rightarrow> (channel, u8 list, string) eff" where
  "read_line_until limit acc w =
     (if limit = 0 then (Ok acc, w)
      else case fill_buf w of
             (Err k, w') \<Rightarrow> if k = ''Interrupted'' then read_line_until limit acc w' else (Err k, w')
           | (Ok _, w') \<Rightarrow>
               let available = take limit (chan_buf w');
                   used = length (takeWhile (\<lambda>b. b \<noteq> 10) available)
               in if used < length available
                  then (Ok (acc @ take (Suc used) available), w'\<lparr>chan_buf := drop (Suc used) (chan_buf w')\<rparr>)
                  else if available = [] then (Ok acc, w')
                  else read_line_until (limit - length available) (acc @ available)
                         (w'\<lparr>chan_buf := drop (length available) (chan_buf w')\<rparr>))"
  by pat_completeness auto
termination
proof (relation "measures [\<lambda>(limit, acc, w). limit, \<lambda>(limit, acc, w). backlog w]", goal_cases)
  case (2 limit acc w x y k)
  then show ?case using fill_buf_backlog [of w "Err ''Interrupted''" y] by auto
qed (auto dest: fill_buf_backlog [OF sym])

declare read_line_until.simps [simp del]

subsection \<open>Channels\<close>

datatype vsock_error = HandshakeFailed | VsockIo string string | VsockProto proto_error

definition BRIDGE_HANDSHAKE_TIMEOUT :: nat where "BRIDGE_HANDSHAKE_TIMEOUT = 5000"
definition MAX_HANDSHAKE_LINE_BYTES :: nat where "MAX_HANDSHAKE_LINE_BYTES = 64"

text \<open>\<open>String::from_utf8\<close> accepts exactly these bytes.\<close>
definition utf8_cont :: "u8 \<Rightarrow> bool" where
  "utf8_cont b \<longleftrightarrow> 0x80 \<le> b \<and> b \<le> 0xBF"

fun utf8_valid :: "u8 list \<Rightarrow> bool" where
  "utf8_valid [] = True"
| "utf8_valid (a # r) =
     (if a < 0x80 then utf8_valid r
      else case r of
        [] \<Rightarrow> False
      | b # r1 \<Rightarrow>
          if 0xC2 \<le> a \<and> a \<le> 0xDF then utf8_cont b \<and> utf8_valid r1
          else (case r1 of
            [] \<Rightarrow> False
          | c # r2 \<Rightarrow>
              if 0xE0 \<le> a \<and> a \<le> 0xEF then
                utf8_cont b \<and> (a = 0xE0 \<longrightarrow> 0xA0 \<le> b) \<and> (a = 0xED \<longrightarrow> b \<le> 0x9F) \<and> utf8_cont c \<and> utf8_valid r2
              else (case r2 of
                [] \<Rightarrow> False
              | d # r3 \<Rightarrow>
                  0xF0 \<le> a \<and> a \<le> 0xF4 \<and> utf8_cont b \<and> (a = 0xF0 \<longrightarrow> 0x90 \<le> b) \<and> (a = 0xF4 \<longrightarrow> b \<le> 0x8F) \<and>
                  utf8_cont c \<and> utf8_cont d \<and> utf8_valid r3)))"

definition read_handshake_ack :: "string \<Rightarrow> (channel, u8 list, vsock_error) eff" where
  "read_handshake_ack host_uds =
     bind_eff (map_err (VsockIo host_uds) (read_line_until (MAX_HANDSHAKE_LINE_BYTES + 1) [])) (\<lambda>ack.
       if ack = [] \<or> MAX_HANDSHAKE_LINE_BYTES < length ack \<or> last ack \<noteq> 10 \<or> \<not> utf8_valid ack
       then fail HandshakeFailed else ret ack)"

text \<open>Bytes of writes that succeeded.\<close>
definition chan_write :: "u8 list \<Rightarrow> (channel, unit, string) eff" where
  "chan_write bs = bind_eff opt_outcome (\<lambda>_ w. (Ok (), w\<lparr>written := written w @ bs\<rparr>))"

text \<open>The connection attempt, the two timeouts, the clone of the handle and the write take their outcome from the
  socket; the \<open>Channel\<close> is the state that is left.\<close>
definition open_uds_only :: "string \<Rightarrow> u32 \<Rightarrow> (channel, unit, vsock_error) eff" where
  "open_uds_only host_uds guest_port =
     (let io = map_err (VsockIo host_uds) in
      bind_eff (io opt_outcome) (\<lambda>_.
      bind_eff (io (set_read_timeout (Some BRIDGE_HANDSHAKE_TIMEOUT))) (\<lambda>_.
      bind_eff (io opt_outcome) (\<lambda>_.
      bind_eff (io (chan_write (str_bytes (''CONNECT '' @ nat_to_string (unat guest_port) @ [CHR 0x0A])))) (\<lambda>_.
      bind_eff (io opt_outcome) (\<lambda>_.
      bind_eff (read_handshake_ack host_uds) (\<lambda>ack.
      if take 3 ack \<noteq> str_bytes ''OK '' then fail HandshakeFailed
      else
      bind_eff (io (set_read_timeout None)) (\<lambda>_.
      bind_eff (io opt_outcome) (\<lambda>_.
      io (set_read_timeout None))))))))))"

definition chan_read_exact :: "reader \<Rightarrow> nat \<Rightarrow> (channel, u8 list, proto_error) eff" where
  "chan_read_exact r n = map_err ProtoIo (read_exact r n [])"

definition send_envelope ::
    "(wire_envelope \<Rightarrow> u8 list) \<Rightarrow> ('p \<Rightarrow> wire_payload) \<Rightarrow> 'p envelope \<Rightarrow> (channel, unit, vsock_error) eff" where
  "send_envelope encode_to_vec into_wire e =
     map_err VsockProto (write_raw_frame (\<lambda>bs. map_err ProtoIo (chan_write bs)) encode_to_vec (raw_from_typed into_wire e))"

definition recv ::
    "string \<Rightarrow> (wire_payload \<Rightarrow> ('p, proto_error) result) \<Rightarrow> (u8 list \<Rightarrow> (wire_envelope, string) result) \<Rightarrow>
     (channel, 'p envelope, vsock_error) eff" where
  "recv KIND from_wire dec = map_err VsockProto (read_frame KIND from_wire (chan_read_exact Direct) dec)"

definition recv_raw :: "(u8 list \<Rightarrow> (wire_envelope, string) result) \<Rightarrow> (channel, raw_envelope, vsock_error) eff" where
  "recv_raw dec = map_err VsockProto (read_raw_frame (chan_read_exact Direct) dec)"

text \<open>The read timeout is cleared again only on success.\<close>
definition clear_timeout :: "string \<Rightarrow> 'a \<Rightarrow> (channel, 'a, vsock_error) eff" where
  "clear_timeout host_uds a = bind_eff (map_err (VsockIo host_uds) (set_read_timeout None)) (\<lambda>_. ret a)"

definition recv_raw_with_deadline ::
    "string \<Rightarrow> (u8 list \<Rightarrow> (wire_envelope, string) result) \<Rightarrow> nat \<Rightarrow> (channel, raw_envelope option, vsock_error) eff" where
  "recv_raw_with_deadline host_uds dec deadline w =
     (case read_raw_frame (chan_read_exact (Until deadline)) dec w of
        (Ok e, w1) \<Rightarrow> clear_timeout host_uds (Some e) w1
      | (Err (ProtoIo k), w1) \<Rightarrow>
          if is_read_timeout k then
            bind_eff (map_err (VsockIo host_uds) chan_now) (\<lambda>now.
              if deadline \<le> now then clear_timeout host_uds None else fail (VsockProto (ProtoIo k))) w1
          else (Err (VsockProto (ProtoIo k)), w1)
      | (Err e, w1) \<Rightarrow> (Err (VsockProto e), w1))"

subsection \<open>What is still to come\<close>

text \<open>The bytes the peer sends up to the first failure of the connection.\<close>
fun incoming :: "(nat \<times> arrival) list \<Rightarrow> u8 list" where
  "incoming [] = []"
| "incoming ((d, Data b bs) # r) = b # bs @ incoming r"
| "incoming ((d, Fault e) # r) = (if e = ''Interrupted'' then incoming r else [])"

definition pending :: "channel \<Rightarrow> u8 list" where
  "pending w = chan_buf w @ incoming (arrivals w)"

lemma incoming_delay: "incoming ((d, a) # r) = incoming ((e, a) # r)"
  by (cases a) auto

text \<open>A read hands out the next bytes in order; a read that is retried loses none.\<close>
definition delivers :: "nat \<Rightarrow> channel \<Rightarrow> (u8 list, string) result \<times> channel \<Rightarrow> bool" where
  "delivers n w rw \<longleftrightarrow>
     (case rw of
        (Ok bs, w') \<Rightarrow> pending w = bs @ pending w' \<and> length bs \<le> n \<and> (bs = [] \<longrightarrow> pending w = [])
      | (Err k, w') \<Rightarrow> k = ''Interrupted'' \<longrightarrow> pending w' = pending w)"

lemma sock_read_incoming:
  assumes "sock_read n w = (r, w')" "0 < n"
  shows "chan_buf w' = chan_buf w \<and> (case r of
      Ok bs \<Rightarrow> incoming (arrivals w) = bs @ incoming (arrivals w') \<and> length bs \<le> n \<and> (bs = [] \<longrightarrow> arrivals w = [])
    | Err k \<Rightarrow> k = ''Interrupted'' \<longrightarrow> incoming (arrivals w') = incoming (arrivals w))"
proof (cases "arrivals w")
  case (Cons da rest)
  obtain d a where da: "da = (d, a)" by fastforce
  show ?thesis
  proof (cases "times_out w d")
    case True
    with assms Cons da show ?thesis by (auto simp: sock_read_def Let_def)
  next
    case False
    show ?thesis
    proof (cases a)
      case (Data b bs)
      let ?w = "w\<lparr>chan_time := chan_time w + d, arrivals := rest\<rparr>"
      have r: "r = Ok (take n (b # bs))" and w': "w' = (case drop n (b # bs) of [] \<Rightarrow> ?w | c # cs \<Rightarrow> ?w\<lparr>arrivals := (0, Data c cs) # rest\<rparr>)"
        using assms(1) Cons da False Data by (auto simp: sock_read_def Let_def)
      have "incoming (arrivals w') = drop n (b # bs) @ incoming rest"
        unfolding w' by (cases "drop n (b # bs)") simp_all
      moreover have "take n (b # bs) @ drop n (b # bs) @ incoming rest = b # bs @ incoming rest"
        by (metis append_assoc append_take_drop_id append_Cons)
      moreover have "chan_buf w' = chan_buf w" unfolding w' by (simp split: list.split)
      moreover have "take n (b # bs) \<noteq> []" using assms(2) by simp
      ultimately show ?thesis using Cons da Data by (simp add: r del: take_Cons')
    next
      case (Fault e)
      with assms Cons da False show ?thesis by (auto simp: sock_read_def Let_def)
    qed
  qed
qed (use assms in \<open>auto simp: sock_read_def\<close>)

lemma buf_read_delivers:
  assumes "0 < n"
  shows "delivers n w (buf_read n w)"
proof (cases "chan_buf w = []")
  case False
  then show ?thesis using assms by (auto simp: delivers_def buf_read_def fill_buf_def bind_eff_def take_buf_def pending_def)
next
  case True
  obtain r w' where big: "sock_read n w = (r, w')" by fastforce
  obtain r2 w2 where small: "sock_read BUF_CAPACITY w = (r2, w2)" by fastforce
  have cap: "0 < BUF_CAPACITY" by (simp add: BUF_CAPACITY_def)
  show ?thesis
    using True assms sock_read_incoming [OF big assms] sock_read_incoming [OF small cap]
    by (cases r; cases r2)
      (auto simp: delivers_def buf_read_def fill_buf_def bind_eff_def take_buf_def pending_def big small split: if_splits)
qed

lemma pending_update [simp]:
  "pending (w\<lparr>chan_time := t\<rparr>) = pending w" "pending (w\<lparr>jitter := js\<rparr>) = pending w"
  "pending (w\<lparr>opt_errors := es\<rparr>) = pending w" "pending (w\<lparr>chan_timeout := ct\<rparr>) = pending w"
  "pending (w\<lparr>written := wr\<rparr>) = pending w"
  by (simp_all add: pending_def)

lemma chan_now_pending: "chan_now w = (r, w') \<Longrightarrow> pending w' = pending w"
  by (auto simp: pending_def dest: chan_now_same)

lemma deadline_read_delivers:
  assumes "0 < n"
  shows "delivers n w (deadline_read deadline n w)"
proof -
  obtain r w' where run: "deadline_read deadline n w = (r, w')" by fastforce
  from run show ?thesis
  proof (cases rule: deadline_read_cases)
    case expired
    with chan_now_pending [OF expired(1)] show ?thesis by (simp add: delivers_def run)
  next
    case (option_error e w1 es)
    with chan_now_pending [OF option_error(1)] show ?thesis by (simp add: delivers_def run)
  next
    case (data w1 es t bs)
    with chan_now_pending [OF data(1)] buf_read_delivers [OF assms, of "w1\<lparr>opt_errors := es, chan_timeout := Some t\<rparr>"]
    show ?thesis by (auto simp: delivers_def run)
  next
    case (late w1 es t k w2)
    then show ?thesis by (auto simp: delivers_def run is_read_timeout_def)
  next
    case (fault w1 es t k)
    with chan_now_pending [OF fault(1)] buf_read_delivers [OF assms, of "w1\<lparr>opt_errors := es, chan_timeout := Some t\<rparr>"]
    show ?thesis by (simp add: delivers_def run)
  qed
qed

lemma reader_delivers: "0 < n \<Longrightarrow> delivers n w (reader_read r n w)"
  by (cases r) (simp_all add: buf_read_delivers deadline_read_delivers)

lemma read_exact_pending:
  "read_exact r n acc w = (Ok bs, w') \<Longrightarrow> \<exists>c. bs = acc @ c \<and> length c = n \<and> pending w = c @ pending w'"
proof (induction r n acc w rule: read_exact.induct)
  case (1 r n acc w)
  show ?case
  proof (cases "n = 0")
    case True
    with "1.prems" show ?thesis by (simp add: read_exact.simps)
  next
    case False
    obtain q w1 where rd: "reader_read r n w = (q, w1)" by fastforce
    have del: "delivers n w (q, w1)" using reader_delivers [of n w r] False rd by simp
    show ?thesis
    proof (cases q)
      case (Ok cs)
      from "1.prems" False rd Ok have cs: "cs \<noteq> []" and rec: "read_exact r (n - length cs) (acc @ cs) w1 = (Ok bs, w')"
        by (auto simp: read_exact.simps [of r n] split: if_splits)
      obtain c where "bs = (acc @ cs) @ c" "length c = n - length cs" "pending w1 = c @ pending w'"
        using "1.IH"(1) [OF False rd [symmetric] Ok cs rec] by blast
      with del Ok show ?thesis by (intro exI [where x = "cs @ c"]) (auto simp: delivers_def)
    next
      case (Err k)
      from "1.prems" False rd Err have k: "k = ''Interrupted''" and rec: "read_exact r n acc w1 = (Ok bs, w')"
        by (auto simp: read_exact.simps [of r n acc w] split: if_splits)
      from "1.IH"(2) [OF False rd [symmetric] Err k rec] del Err k show ?thesis by (auto simp: delivers_def)
    qed
  qed
qed

text \<open>C28: Receiving refines reading from a byte slice: when a frame is received, with or without a deadline and however
  the bytes were split into chunks, the same envelope is read from the front of the bytes that were pending, and
  exactly the rest is pending afterwards.\<close>
theorem received_frame_refines_slice:
  assumes "read_raw_frame (chan_read_exact r) dec w = (Ok raw, w')"
  shows "read_raw_frame slice_read_exact dec (pending w) = (Ok raw, pending w')"
proof -
  have step: "slice_read_exact n (pending v) = (Ok bs, pending v')" if "chan_read_exact r n v = (Ok bs, v')" for n v bs v'
  proof -
    from that have "read_exact r n [] v = (Ok bs, v')"
      by (auto simp: chan_read_exact_def map_err_def split: prod.splits result.splits)
    from read_exact_pending [OF this] show ?thesis by (auto simp: slice_read_exact_def)
  qed
  show ?thesis
    using assms by (auto simp: read_raw_frame_def Let_def bind_eff_eq_Ok split: if_splits dest!: step)
qed

subsection \<open>The handshake\<close>

lemma fill_buf_pending:
  assumes "fill_buf w = (r, w')"
  shows "(r = Ok () \<longrightarrow> pending w' = pending w \<and> (chan_buf w' = [] \<longrightarrow> pending w = [])) \<and>
    (r = Err ''Interrupted'' \<longrightarrow> pending w' = pending w)"
proof (cases "chan_buf w = []")
  case True
  obtain q v where rd: "sock_read BUF_CAPACITY w = (q, v)" by fastforce
  have cap: "0 < BUF_CAPACITY" by (simp add: BUF_CAPACITY_def)
  show ?thesis
    using assms True sock_read_incoming [OF rd cap] by (cases q) (auto simp: fill_buf_def bind_eff_def rd pending_def)
qed (use assms in \<open>auto simp: fill_buf_def\<close>)

lemma takeWhile_prefix: "10 \<notin> set (takeWhile (\<lambda>b. b \<noteq> 10) (xs :: u8 list))"
  by (induction xs) auto

lemma butlast_take_line:
  "length (takeWhile (\<lambda>b. b \<noteq> 10) xs) < length xs \<Longrightarrow>
   butlast (take (Suc (length (takeWhile (\<lambda>b. b \<noteq> 10) xs))) xs) = takeWhile (\<lambda>b. b \<noteq> (10 :: u8)) xs"
  by (simp add: butlast_take takeWhile_eq_take [symmetric])

lemma read_line_pending:
  "read_line_until limit acc w = (Ok ack, w') \<Longrightarrow>
   \<exists>c. ack = acc @ c \<and> pending w = c @ pending w' \<and> 10 \<notin> set (butlast c)"
proof (induction limit acc w rule: read_line_until.induct)
  case (1 limit acc w)
  show ?case
  proof (cases "limit = 0")
    case True
    with "1.prems" show ?thesis by (simp add: read_line_until.simps)
  next
    case False
    obtain q v where fb: "fill_buf w = (q, v)" by fastforce
    note fill = fill_buf_pending [OF fb]
    show ?thesis
    proof (cases q)
      case (Err k)
      from "1.prems" False fb Err have k: "k = ''Interrupted''" and rec: "read_line_until limit acc v = (Ok ack, w')"
        by (auto simp: read_line_until.simps [of limit acc w] split: if_splits)
      from "1.IH"(2) [OF False fb [symmetric] Err k rec] fill Err k show ?thesis by auto
    next
      case (Ok u)
      define av where "av = take limit (chan_buf v)"
      define used where "used = length (takeWhile (\<lambda>b. b \<noteq> 10) av)"
      have buf: "pending w = av @ drop limit (chan_buf v) @ incoming (arrivals v)" and cut: "chan_buf v = av @ drop limit (chan_buf v)"
        using fill Ok by (simp_all add: av_def pending_def flip: append_assoc)
      have run: "(if used < length av then (Ok (acc @ take (Suc used) av), v\<lparr>chan_buf := drop (Suc used) (chan_buf v)\<rparr>)
          else if av = [] then (Ok acc, v)
          else read_line_until (limit - length av) (acc @ av) (v\<lparr>chan_buf := drop (length av) (chan_buf v)\<rparr>)) = (Ok ack, w')"
        using "1.prems" False Ok fb unfolding used_def av_def by (simp only: read_line_until.simps [of limit acc w] Let_def if_False prod.case result.case)
      show ?thesis
      proof (cases "used < length av")
        case True
        with run have "ack = acc @ take (Suc used) av" and w': "w' = v\<lparr>chan_buf := drop (Suc used) (chan_buf v)\<rparr>" by simp_all
        moreover have "drop (Suc used) (chan_buf v) = drop (Suc used) av @ drop limit (chan_buf v)"
          using True by (subst cut) simp
        then have "pending w' = drop (Suc used) av @ drop limit (chan_buf v) @ incoming (arrivals v)"
          by (simp add: w' pending_def)
        then have "pending w = take (Suc used) av @ pending w'" unfolding buf by (metis append_assoc append_take_drop_id)
        moreover have "butlast (take (Suc used) av) = takeWhile (\<lambda>b. b \<noteq> 10) av"
          using True unfolding used_def by (rule butlast_take_line)
        ultimately show ?thesis using takeWhile_prefix by metis
      next
        case more: False
        then have "takeWhile (\<lambda>b. b \<noteq> 10) av = av"
          unfolding used_def by (metis length_takeWhile_le le_antisym not_less take_all takeWhile_eq_take)
        then have clean: "10 \<notin> set av" using takeWhile_prefix by metis
        show ?thesis
        proof (cases "av = []")
          case True
          with run more have "ack = acc" "w' = v" by auto
          with fill Ok show ?thesis by auto
        next
          case ne: False
          have drop_eq: "drop (length av) (chan_buf v) = drop limit (chan_buf v)" by (subst cut) (simp add: av_def min_def)
          from run more ne have rec: "read_line_until (limit - length av) (acc @ av) (v\<lparr>chan_buf := drop (length av) (chan_buf v)\<rparr>) = (Ok ack, w')"
            by auto
          have "\<exists>c. ack = (acc @ av) @ c \<and> pending (v\<lparr>chan_buf := drop (length av) (chan_buf v)\<rparr>) = c @ pending w' \<and> 10 \<notin> set (butlast c)"
            using "1.IH"(1) [OF False fb [symmetric] Ok av_def used_def] more ne rec by blast
          then obtain c where c: "ack = acc @ av @ c" "drop limit (chan_buf v) @ incoming (arrivals v) = c @ pending w'" "10 \<notin> set (butlast c)"
            by (auto simp: pending_def drop_eq)
          then show ?thesis
            using buf clean by (intro exI [where x = "av @ c"]) (auto simp: butlast_append dest: in_set_butlastD)
        qed
      qed
    qed
  qed
qed

lemma opt_outcome_same:
  "opt_outcome w = (r, w') \<Longrightarrow> \<exists>es. w' = w\<lparr>opt_errors := es\<rparr>"
  by (cases "opt_errors w") (auto simp: opt_outcome_def split: option.splits intro: exI [where x = "opt_errors w"])

lemma set_read_timeout_Ok: "set_read_timeout t w = (Ok u, w') \<Longrightarrow> \<exists>es. w' = w\<lparr>opt_errors := es, chan_timeout := t\<rparr>"
  by (auto simp: set_read_timeout_def result_simps dest!: opt_outcome_same)

lemma snd_map_err [simp]: "snd (map_err f m w) = snd (m w)"
  by (simp add: map_err_def split: prod.split result.split)

lemma map_err_Ok: "map_err f m w = (Ok a, w') \<longleftrightarrow> m w = (Ok a, w')"
  by (auto simp: map_err_def split: prod.splits result.splits)

lemma sock_read_written: "sock_read n w = (r, w') \<Longrightarrow> written w' = written w"
  by (auto simp: sock_read_def Let_def split: list.splits prod.splits arrival.splits if_splits)

lemma fill_buf_written: "fill_buf w = (r, w') \<Longrightarrow> written w' = written w"
  by (auto simp: fill_buf_def bind_eff_def split: prod.splits result.splits if_splits dest!: sock_read_written)

lemma read_line_written: "read_line_until limit acc w = (r, w') \<Longrightarrow> written w' = written w"
proof (induction limit acc w rule: read_line_until.induct)
  case (1 limit acc w)
  obtain q v where fb: "fill_buf w = (q, v)" by fastforce
  note w = fill_buf_written [OF fb]
  show ?case
    using "1.prems" "1.IH"(2) [OF _ fb [symmetric]] "1.IH"(1) [OF _ fb [symmetric] _ refl refl] w
    by (subst (asm) read_line_until.simps) (auto simp: fb Let_def split: result.splits if_splits)
qed

text \<open>An opened channel is aligned: the peer's first line, at most 64 bytes up to its first newline and starting with
  \<open>OK \<close>, has been taken from the connection and nothing after it, so that the first frame is next; the host has
  sent the \<open>CONNECT\<close> line and no read timeout is left on the socket.\<close>
theorem opened_channel_aligned:
  assumes "open_uds_only host port w = (Ok (), w')"
  shows "\<exists>ack. pending w = ack @ pending w' \<and> take 3 ack = str_bytes ''OK '' \<and> length ack \<le> 64 \<and>
      last ack = 10 \<and> 10 \<notin> set (butlast ack) \<and> chan_timeout w' = None \<and>
      written w' = written w @ str_bytes (''CONNECT '' @ nat_to_string (unat port) @ [CHR 0x0A])"
proof -
  obtain w1 w2 w3 w4 w5 w6 w7 w8 ack where
    "opt_outcome w = (Ok (), w1)" "set_read_timeout (Some BRIDGE_HANDSHAKE_TIMEOUT) w1 = (Ok (), w2)" "opt_outcome w2 = (Ok (), w3)"
    and wr: "chan_write (str_bytes (''CONNECT '' @ nat_to_string (unat port) @ [CHR 0x0A])) w3 = (Ok (), w4)" and o5: "opt_outcome w4 = (Ok (), w5)"
    and line: "read_line_until (MAX_HANDSHAKE_LINE_BYTES + 1) [] w5 = (Ok ack, w6)"
    and ack: "ack \<noteq> []" "length ack \<le> MAX_HANDSHAKE_LINE_BYTES" "last ack = 10" "take 3 ack = str_bytes ''OK ''"
    and last: "set_read_timeout None w6 = (Ok (), w7)" "opt_outcome w7 = (Ok (), w8)" "set_read_timeout None w8 = (Ok (), w')"
    using assms
    by (auto simp: open_uds_only_def Let_def bind_eff_eq_Ok map_err_Ok read_handshake_ack_def split: if_splits)
  note same = opt_outcome_same [OF this(1)] set_read_timeout_Ok [OF this(2)] opt_outcome_same [OF this(3)] opt_outcome_same [OF o5]
    set_read_timeout_Ok [OF last(1)] opt_outcome_same [OF last(2)] set_read_timeout_Ok [OF last(3)]
  have wr': "\<exists>es. w4 = w3\<lparr>opt_errors := es, written := written w3 @ str_bytes (''CONNECT '' @ nat_to_string (unat port) @ [CHR 0x0A])\<rparr>"
    using wr by (auto simp: chan_write_def result_simps dest!: opt_outcome_same)
  have "pending w5 = pending w" "written w5 = written w @ str_bytes (''CONNECT '' @ nat_to_string (unat port) @ [CHR 0x0A])"
    using same(1-4) wr' by auto
  moreover have "pending w' = pending w6" "written w' = written w6" "chan_timeout w' = None" using same(5-7) by auto
  moreover have "pending w5 = ack @ pending w6 \<and> 10 \<notin> set (butlast ack)" using read_line_pending [OF line] by auto
  moreover have "written w6 = written w5" by (rule read_line_written [OF line])
  ultimately show ?thesis using ack by (intro exI [where x = ack]) (simp add: MAX_HANDSHAKE_LINE_BYTES_def)
qed

subsection \<open>Deadlines\<close>

text \<open>The address of a VM never is one of the reserved ones: it lies between 3 and the largest 32-bit number less
  one, whatever the digest is.\<close>
theorem cid_in_range:
  "3 \<le> unat (cid_for_vm_id sha256 vm_id) \<and> unat (cid_for_vm_id sha256 vm_id) \<le> 2 ^ 32 - 2"
proof -
  define raw where "raw = (let bytes = sha256 (str_bytes vm_id) in from_be_bytes [bytes ! 0, bytes ! 1, bytes ! 2, bytes ! 3])"
  have m: "unat (- 1 - 3 :: u32) = 2 ^ 32 - 4" by simp
  have lt: "unat (raw mod (- 1 - 3)) < 2 ^ 32 - 4" unfolding unat_mod_distrib m by simp
  have "unat (3 + raw mod (- 1 - 3)) = 3 + unat (raw mod (- 1 - 3))"
  proof -
    have "unat (3 :: u32) + unat (raw mod (- 1 - 3)) < 2 ^ LENGTH(32)" using lt by simp
    then show ?thesis by (subst unat_add_lem [THEN iffD1]) simp_all
  qed
  with lt show ?thesis by (simp add: cid_for_vm_id_def raw_def Let_def)
qed

text \<open>How far the clock can get: reading it only moves time out of \<open>jitter\<close>.\<close>
definition horizon :: "channel \<Rightarrow> nat" where
  "horizon w = chan_time w + sum_list (jitter w)"

definition on_time :: "nat \<Rightarrow> nat \<Rightarrow> channel \<Rightarrow> bool" where
  "on_time limit slack w \<longleftrightarrow> horizon w \<le> limit + slack \<and> sum_list (jitter w) \<le> slack"

lemma chan_now_horizon:
  "chan_now w = (r, w') \<Longrightarrow> horizon w' = horizon w \<and> sum_list (jitter w') \<le> sum_list (jitter w)"
  by (auto simp: chan_now_def horizon_def split: list.splits)

lemma sock_read_time:
  "sock_read n w = (r, w') \<Longrightarrow> chan_timeout w = Some t \<Longrightarrow>
   chan_time w' \<le> chan_time w + t \<and> jitter w' = jitter w \<and> chan_timeout w' = chan_timeout w"
  by (auto simp: sock_read_def Let_def times_out_def split: list.splits prod.splits arrival.splits if_splits)

lemma buf_read_time:
  "buf_read n w = (r, w') \<Longrightarrow> chan_timeout w = Some t \<Longrightarrow> chan_time w' \<le> chan_time w + t \<and> jitter w' = jitter w"
  by (auto simp: buf_read_def fill_buf_def bind_eff_def take_buf_def split: prod.splits result.splits if_splits dest!: sock_read_time)

lemma deadline_read_on_time:
  assumes "deadline_read deadline n w = (r, w')" "on_time limit slack w" "deadline \<le> limit"
  shows "on_time limit slack w'"
proof -
  have step: "on_time limit slack v" if "chan_now w = (Ok (chan_time w1), w1)" "chan_time w1 < deadline"
      "buf_read n (w1\<lparr>opt_errors := es, chan_timeout := Some (min (deadline - chan_time w1) DEADLINE_READ_POLL_TIMEOUT)\<rparr>) = (q, v)"
    for w1 es q v
    using chan_now_horizon [OF that(1)] buf_read_time [OF that(3)] that(2) assms(2,3)
    by (fastforce simp: on_time_def horizon_def)
  from assms(1) show ?thesis
  proof (cases rule: deadline_read_cases)
    case expired
    with chan_now_horizon [OF expired(1)] assms(2) show ?thesis by (auto simp: on_time_def)
  next
    case (option_error e w1 es)
    with chan_now_horizon [OF option_error(1)] assms(2) show ?thesis by (auto simp: on_time_def horizon_def)
  next
    case (data w1 es t bs)
    with step show ?thesis by blast
  next
    case (late w1 es t k w2)
    have "on_time limit slack w2" using step [OF late(1,2)] late(3,5) by blast
    with chan_now_horizon [OF late(7)] show ?thesis by (auto simp: on_time_def)
  next
    case (fault w1 es t k)
    with step show ?thesis by blast
  qed
qed

lemma read_exact_on_time:
  "read_exact (Until deadline) n acc w = (r, w') \<Longrightarrow> on_time limit slack w \<Longrightarrow> deadline \<le> limit \<Longrightarrow> on_time limit slack w'"
proof (induction "Until deadline" n acc w rule: read_exact.induct)
  case (1 n acc w)
  obtain q v where rd: "deadline_read deadline n w = (q, v)" by fastforce
  have v: "on_time limit slack v" by (rule deadline_read_on_time [OF rd "1.prems"(2,3)])
  note IH = "1.hyps"(1) [of q v] "1.hyps"(2) [of q v]
  show ?case
    using "1.prems"(1,3) IH v "1.prems"(2)
    by (subst (asm) read_exact.simps) (auto simp: rd split: result.splits if_splits)
qed

lemma clear_timeout_cases:
  assumes "clear_timeout host a w = (r, w')"
  shows "horizon w' = horizon w \<and> jitter w' = jitter w \<and> chan_time w' = chan_time w \<and> pending w' = pending w \<and>
    (r = Ok a \<and> chan_timeout w' = None \<or> (\<exists>e. r = Err e))"
proof -
  obtain q v where st: "set_read_timeout None w = (q, v)" by fastforce
  from st show ?thesis
    by (cases rule: set_read_timeout_cases) (use assms st in \<open>auto simp: clear_timeout_def bind_eff_def map_err_def horizon_def\<close>)
qed

text \<open>A receive with a deadline does not outlast it: when it returns, the clock is at most at the deadline (or where it
  was, if the deadline had passed), apart from the delays before the clock is read. That no frame came is
  reported only once the deadline has passed, and a frame that is reported was read from the front of the
  pending bytes and leaves a channel without a read timeout.\<close>
theorem receive_respects_deadline:
  assumes "recv_raw_with_deadline host dec deadline w = (r, w')"
  shows "chan_time w' \<le> max (chan_time w) deadline + sum_list (jitter w) \<and>
    (r = Ok None \<longrightarrow> deadline \<le> chan_time w') \<and>
    (\<forall>raw. r = Ok (Some raw) \<longrightarrow>
       read_raw_frame slice_read_exact dec (pending w) = (Ok raw, pending w') \<and> chan_timeout w' = None)"
proof -
  let ?limit = "max (chan_time w) deadline" and ?slack = "sum_list (jitter w)"
  obtain q v where rd: "read_raw_frame (chan_read_exact (Until deadline)) dec w = (q, v)" by fastforce
  have "keeps (on_time ?limit ?slack) (chan_read_exact (Until deadline) n)" for n
  proof (rule keepsI)
    fix u a assume "on_time ?limit ?slack u"
    then have "on_time ?limit ?slack (snd (read_exact (Until deadline) n [] u))"
      using read_exact_on_time [of deadline n "[]" u _ _ ?limit ?slack] by (metis max.cobounded2 prod.collapse)
    then show "on_time ?limit ?slack (snd (chan_read_exact (Until deadline) n u))"
      by (simp add: chan_read_exact_def)
  qed
  then have "keeps (on_time ?limit ?slack) (read_raw_frame (chan_read_exact (Until deadline)) dec)"
    by (intro keeps_read_raw_frame) blast
  moreover have "on_time ?limit ?slack w" by (simp add: on_time_def horizon_def)
  ultimately have v: "on_time ?limit ?slack v" using rd by (metis keepsD snd_conv)
  then have tv: "chan_time v \<le> ?limit + ?slack" by (simp add: on_time_def horizon_def)
  show ?thesis
  proof (cases q)
    case (Ok e)
    with assms rd have "clear_timeout host (Some e) v = (r, w')" by (simp add: recv_raw_with_deadline_def)
    with clear_timeout_cases [OF this] tv received_frame_refines_slice [OF rd [unfolded Ok]] show ?thesis by auto
  next
    case (Err e)
    show ?thesis
    proof (cases "\<exists>k. e = ProtoIo k \<and> is_read_timeout k")
      case True
      then obtain k where k: "e = ProtoIo k" "is_read_timeout k" by blast
      obtain v1 where now: "chan_now v = (Ok (chan_time v1), v1)" by (rule chan_now_obtain)
      have tv1: "chan_time v1 \<le> ?limit + ?slack"
        using chan_now_horizon [OF now] v by (auto simp: on_time_def horizon_def)
      show ?thesis
      proof (cases "deadline \<le> chan_time v1")
        case True
        with assms rd Err k now have "clear_timeout host None v1 = (r, w')"
          by (simp add: recv_raw_with_deadline_def bind_eff_def map_err_def)
        with clear_timeout_cases [OF this] tv1 True show ?thesis by auto
      next
        case False
        with assms rd Err k now tv1 show ?thesis by (auto simp: recv_raw_with_deadline_def bind_eff_def map_err_def)
      qed
    next
      case False
      with assms rd Err tv show ?thesis by (cases e) (auto simp: recv_raw_with_deadline_def)
    qed
  qed
qed

text \<open>C30: A receive gives up long before its deadline: when nothing arrives for five seconds, the poll timeout of a single
  read, the call fails with a timed-out read although the deadline is still ahead, and the channel keeps
  the poll timeout.\<close>
theorem silence_ends_receive_early:
  assumes "chan_buf w = []" "arrivals w = (d, a) # rest" "DEADLINE_READ_POLL_TIMEOUT \<le> d"
    and "jitter w = []" "opt_errors w = []" "chan_time w + DEADLINE_READ_POLL_TIMEOUT < deadline"
  shows "\<exists>w'. recv_raw_with_deadline host dec deadline w = (Err (VsockProto (ProtoIo ''WouldBlock'')), w') \<and>
    chan_time w' = chan_time w + DEADLINE_READ_POLL_TIMEOUT \<and> chan_time w' < deadline \<and>
    chan_timeout w' = Some DEADLINE_READ_POLL_TIMEOUT"
proof -
  let ?v = "w\<lparr>chan_timeout := Some DEADLINE_READ_POLL_TIMEOUT, chan_time := chan_time w + DEADLINE_READ_POLL_TIMEOUT,
    arrivals := (d - DEADLINE_READ_POLL_TIMEOUT, a) # rest\<rparr>"
  have t: "min (deadline - chan_time w) DEADLINE_READ_POLL_TIMEOUT = DEADLINE_READ_POLL_TIMEOUT" using assms(6) by simp
  have now: "chan_now w = (Ok (chan_time w), w)" using assms(4) by (simp add: chan_now_def)
  have set: "set_read_timeout (Some x) w = (Ok (), w\<lparr>chan_timeout := Some x\<rparr>)" for x
    using assms(5) by (simp add: set_read_timeout_def opt_outcome_def bind_eff_def)
  have buf: "buf_read 4 (w\<lparr>chan_timeout := Some DEADLINE_READ_POLL_TIMEOUT\<rparr>) = (Err ''WouldBlock'', ?v)"
    using assms(1-3) by (simp add: buf_read_def BUF_CAPACITY_def fill_buf_def bind_eff_def sock_read_def times_out_def Let_def)
  have now': "chan_now ?v = (Ok (chan_time ?v), ?v)" using assms(4) by (simp add: chan_now_def)
  have "deadline_read deadline 4 w = (Err ''WouldBlock'', ?v)"
    using assms(6) t now set buf now'
    by (simp add: deadline_read_def read_timeout_before_def bind_eff_def is_read_timeout_def)
  then have "read_exact (Until deadline) 4 [] w = (Err ''WouldBlock'', ?v)" by (simp add: read_exact.simps)
  then have "read_raw_frame (chan_read_exact (Until deadline)) dec w = (Err (ProtoIo ''WouldBlock''), ?v)"
    by (simp add: read_raw_frame_def bind_eff_def LENGTH_PREFIX_BYTES_def chan_read_exact_def map_err_def)
  then have "recv_raw_with_deadline host dec deadline w = (Err (VsockProto (ProtoIo ''WouldBlock'')), ?v)"
    using assms(6) now' by (simp add: recv_raw_with_deadline_def is_read_timeout_def bind_eff_def map_err_def)
  with assms(6) show ?thesis by simp
qed

text \<open>A peer that never pauses for as long as a poll, and has sent everything before the deadline.\<close>
definition prompt :: "nat \<Rightarrow> channel \<Rightarrow> bool" where
  "prompt deadline w \<longleftrightarrow>
     jitter w = [] \<and> opt_errors w = [] \<and>
     (\<forall>(d, a) \<in> set (arrivals w). d < DEADLINE_READ_POLL_TIMEOUT \<and> (\<exists>b bs. a = Data b bs)) \<and>
     chan_time w + sum_list (map fst (arrivals w)) < deadline"

lemma prompt_sock_read:
  assumes "prompt deadline w" "chan_timeout w = Some (min (deadline - chan_time w) DEADLINE_READ_POLL_TIMEOUT)" "arrivals w \<noteq> []" "0 < n"
  shows "\<exists>bs w'. sock_read n w = (Ok bs, w') \<and> bs \<noteq> [] \<and> prompt deadline w' \<and> chan_buf w' = chan_buf w"
proof -
  obtain d b bs rest where arr: "arrivals w = (d, Data b bs) # rest" and d: "d < DEADLINE_READ_POLL_TIMEOUT"
    using assms(1,3) by (cases "arrivals w") (auto simp: prompt_def)
  have late: "\<not> times_out w d"
    using assms(1,2) arr d by (auto simp: times_out_def prompt_def)
  let ?w = "w\<lparr>chan_time := chan_time w + d, arrivals := rest\<rparr>"
  let ?w' = "case drop n (b # bs) of [] \<Rightarrow> ?w | c # cs \<Rightarrow> ?w\<lparr>arrivals := (0, Data c cs) # rest\<rparr>"
  have "sock_read n w = (Ok (take n (b # bs)), ?w')" by (simp add: sock_read_def arr late Let_def)
  moreover have "prompt deadline ?w'"
    using assms(1) arr by (auto simp: prompt_def DEADLINE_READ_POLL_TIMEOUT_def split: list.split)
  moreover have "take n (b # bs) \<noteq> []" using assms(4) by simp
  moreover have "chan_buf ?w' = chan_buf w" by (simp split: list.split)
  ultimately show ?thesis by blast
qed

lemma prompt_buf_update [simp]: "prompt deadline (w\<lparr>chan_buf := b\<rparr>) = prompt deadline w"
  "prompt deadline (w\<lparr>chan_timeout := t\<rparr>) = prompt deadline w"
  by (simp_all add: prompt_def)

lemma prompt_read:
  assumes p: "prompt deadline w" and n: "0 < n" and more: "pending w \<noteq> []"
  shows "\<exists>bs w'. deadline_read deadline n w = (Ok bs, w') \<and> bs \<noteq> [] \<and> prompt deadline w'"
proof -
  let ?t = "min (deadline - chan_time w) DEADLINE_READ_POLL_TIMEOUT"
  let ?w = "w\<lparr>chan_timeout := Some ?t\<rparr>"
  have now: "chan_now w = (Ok (chan_time w), w)" and early: "chan_time w < deadline"
    using p by (simp_all add: chan_now_def prompt_def)
  have set: "set_read_timeout (Some x) w = (Ok (), w\<lparr>chan_timeout := Some x\<rparr>)" for x
    using p by (simp add: set_read_timeout_def opt_outcome_def bind_eff_def prompt_def)
  have pw: "prompt deadline ?w" using p by simp
  have "\<exists>bs w'. buf_read n ?w = (Ok bs, w') \<and> bs \<noteq> [] \<and> prompt deadline w'"
  proof (cases "chan_buf w = []")
    case False
    then show ?thesis using n pw by (simp add: buf_read_def fill_buf_def bind_eff_def take_buf_def)
  next
    case True
    with more have arr: "arrivals ?w \<noteq> []" by (auto simp: pending_def)
    have t: "chan_timeout ?w = Some (min (deadline - chan_time ?w) DEADLINE_READ_POLL_TIMEOUT)" by simp
    show ?thesis
    proof (cases "BUF_CAPACITY \<le> n")
      case big: True
      with True prompt_sock_read [OF pw t arr n] show ?thesis by (auto simp: buf_read_def)
    next
      case small: False
      have "0 < BUF_CAPACITY" by (simp add: BUF_CAPACITY_def)
      from prompt_sock_read [OF pw t arr this] obtain bs w' where "sock_read BUF_CAPACITY ?w = (Ok bs, w')" "bs \<noteq> []" "prompt deadline w'"
        by blast
      with True small n show ?thesis by (simp add: buf_read_def fill_buf_def bind_eff_def take_buf_def)
    qed
  qed
  then show ?thesis
    using early now set by (auto simp: deadline_read_def read_timeout_before_def bind_eff_def)
qed

lemma prompt_read_exact:
  "prompt deadline w \<Longrightarrow> n \<le> length (pending w) \<Longrightarrow>
   \<exists>bs w'. read_exact (Until deadline) n acc w = (Ok bs, w') \<and> prompt deadline w'"
proof (induction "Until deadline" n acc w rule: read_exact.induct)
  case (1 n acc w)
  show ?case
  proof (cases "n = 0")
    case False
    then obtain bs v where rd: "deadline_read deadline n w = (Ok bs, v)" and bs: "bs \<noteq> []" and pv: "prompt deadline v"
      using prompt_read [OF "1.prems"(1), of n] "1.prems"(2) by fastforce
    have "pending w = bs @ pending v" "length bs \<le> n"
      using deadline_read_delivers [of n w deadline] False rd by (simp_all add: delivers_def)
    with "1.prems"(2) have len: "n - length bs \<le> length (pending v)" by simp
    from "1.hyps"(1) [of "Ok bs" v bs] False rd bs pv len
    obtain q u where "read_exact (Until deadline) (n - length bs) (acc @ bs) v = (Ok q, u)" "prompt deadline u" by auto
    with False rd bs show ?thesis by (subst read_exact.simps) simp
  qed (simp add: read_exact.simps "1.prems")
qed

lemma prompt_read_raw_frame:
  assumes p: "prompt deadline w" and frame: "pending w = frame_of enc raw @ rest" and ok: "frame_ok enc dec raw"
  shows "\<exists>w'. read_raw_frame (chan_read_exact (Until deadline)) dec w = (Ok raw, w') \<and> pending w' = rest \<and> prompt deadline w'"
proof -
  have step: "\<exists>v'. chan_read_exact (Until deadline) n v = (Ok bs, v') \<and> pending v' = rem \<and> prompt deadline v'"
    if slice: "slice_read_exact n (pending v) = (Ok bs, rem)" and pv: "prompt deadline v" for n v bs rem
  proof -
    have n: "n \<le> length (pending v)" and cut: "bs = take n (pending v)" "rem = drop n (pending v)"
      using slice by (auto simp: slice_read_exact_def split: if_splits)
    obtain bs' v' where rd: "read_exact (Until deadline) n [] v = (Ok bs', v')" and pv': "prompt deadline v'"
      using prompt_read_exact [OF pv n] by blast
    from read_exact_pending [OF rd] cut rd pv' show ?thesis by (auto simp: chan_read_exact_def map_err_def)
  qed
  have slice: "read_raw_frame slice_read_exact dec (pending w) = (Ok raw, rest)"
    unfolding frame by (rule read_raw_frame_ok [OF ok])
  then obtain prefix r1 body where
    1: "slice_read_exact LENGTH_PREFIX_BYTES (pending w) = (Ok prefix, r1)"
    and 2: "check_size (unat (from_be_bytes prefix)) = Ok ()"
    and 3: "slice_read_exact (unat (from_be_bytes prefix)) r1 = (Ok body, rest)"
    and 4: "decode_raw_envelope dec body = Ok raw" "raw_version raw = PROTOCOL_VERSION"
    by (auto simp: read_raw_frame_def Let_def bind_eff_eq_Ok lift_result_def split: if_splits)
  obtain w1 where w1: "chan_read_exact (Until deadline) LENGTH_PREFIX_BYTES w = (Ok prefix, w1)" "pending w1 = r1" "prompt deadline w1"
    using step [OF 1 p] by blast
  obtain w2 where w2: "chan_read_exact (Until deadline) (unat (from_be_bytes prefix)) w1 = (Ok body, w2)" "pending w2 = rest" "prompt deadline w2"
    using step [OF _ w1(3)] 3 w1(2) by blast
  show ?thesis
    using w1 w2 2 4 by (simp add: read_raw_frame_def Let_def bind_eff_def lift_result_def)
qed

text \<open>C29: A frame that the peer sends before the deadline is received: when no pause reaches the five seconds of a poll,
  the receive returns exactly the envelope that was sent and leaves the bytes behind it pending.\<close>
theorem prompt_frame_received:
  assumes p: "prompt deadline w" and frame: "pending w = frame_of enc raw @ rest" and ok: "frame_ok enc dec raw"
  shows "\<exists>w'. recv_raw_with_deadline host dec deadline w = (Ok (Some raw), w') \<and> pending w' = rest"
proof -
  obtain w2 where "read_raw_frame (chan_read_exact (Until deadline)) dec w = (Ok raw, w2)" and w2: "pending w2 = rest" "prompt deadline w2"
    using prompt_read_raw_frame [OF assms] by blast
  moreover have "set_read_timeout None w2 = (Ok (), w2\<lparr>chan_timeout := None\<rparr>)"
    using w2(2) by (simp add: set_read_timeout_def opt_outcome_def bind_eff_def prompt_def)
  ultimately show ?thesis
    using w2(1) by (simp add: recv_raw_with_deadline_def clear_timeout_def bind_eff_def map_err_def)
qed

subsection \<open>A connection\<close>

definition sample_chan :: "(nat \<times> arrival) list \<Rightarrow> channel" where
  "sample_chan arr = \<lparr>chan_buf = [], arrivals = arr, chan_time = 0, jitter = [], chan_timeout = None, opt_errors = [], written = []\<rparr>"

definition chunk :: "nat \<Rightarrow> u8 list \<Rightarrow> nat \<times> arrival" where
  "chunk d bs = (d, Data (hd bs) (tl bs))"

definition ping_bytes :: "u8 list" where
  "ping_bytes = frame_of sample_encode (raw_from_typed ping_request_into_wire sample_ping)"

definition ping_chan :: channel where
  "ping_chan = sample_chan [chunk 100 (take 3 ping_bytes), chunk 4000 (drop 3 ping_bytes)]"

lemma incoming_chunk: "bs \<noteq> [] \<Longrightarrow> incoming (chunk d bs # r) = bs @ incoming r"
  by (simp add: chunk_def)

lemma ping_bytes_long: "3 < length ping_bytes"
  by (simp add: ping_bytes_def frame_of_def)

lemma ping_pending: "pending ping_chan = frame_of sample_encode (raw_from_typed ping_request_into_wire sample_ping) @ []"
proof -
  have "take 3 ping_bytes \<noteq> []" "drop 3 ping_bytes \<noteq> []" using ping_bytes_long by auto
  then show ?thesis by (simp add: pending_def ping_chan_def sample_chan_def incoming_chunk flip: ping_bytes_def)
qed

lemma ping_prompt: "prompt 60000 ping_chan"
  by (simp add: prompt_def ping_chan_def sample_chan_def chunk_def DEADLINE_READ_POLL_TIMEOUT_def)

theorem prompt_frame_received_witness:
  "\<exists>w'. recv_raw_with_deadline ''v'' sample_decode 60000 ping_chan =
      (Ok (Some (raw_from_typed ping_request_into_wire sample_ping)), w') \<and> pending w' = []"
  by (rule prompt_frame_received [OF ping_prompt ping_pending sample_ping_frame_ok])

theorem received_frame_refines_slice_witness:
  "\<exists>w'. read_raw_frame slice_read_exact sample_decode (pending ping_chan) =
      (Ok (raw_from_typed ping_request_into_wire sample_ping), pending w')"
  using prompt_read_raw_frame [OF ping_prompt ping_pending sample_ping_frame_ok] received_frame_refines_slice by blast

theorem receive_respects_deadline_witness:
  "\<exists>r w'. recv_raw_with_deadline ''v'' sample_decode 60000 ping_chan = (r, w') \<and> chan_time w' \<le> 60000"
proof -
  obtain r w' where 1: "recv_raw_with_deadline ''v'' sample_decode 60000 ping_chan = (r, w')" by fastforce
  from receive_respects_deadline [OF 1] 1 show ?thesis by (simp add: ping_chan_def sample_chan_def)
qed

theorem silence_ends_receive_early_witness:
  "\<exists>w'. recv_raw_with_deadline ''v'' sample_decode 60000 (sample_chan [(7000, Data 0 [])]) =
      (Err (VsockProto (ProtoIo ''WouldBlock'')), w') \<and> chan_time w' = 5000"
  using silence_ends_receive_early [of "sample_chan [(7000, Data 0 [])]" 7000 "Data 0 []" "[]" 60000 "''v''" sample_decode]
  by (auto simp: sample_chan_def DEADLINE_READ_POLL_TIMEOUT_def)

lemma bridge_answers:
  "fst (open_uds_only ''v'' 52 (sample_chan [chunk 3 (str_bytes (''OK 1073'' @ [CHR 0x0A, CHR ''x'']))])) = Ok ()"
  by (simp add: open_uds_only_def Let_def bind_eff_def map_err_def opt_outcome_def set_read_timeout_def sample_chan_def chunk_def
    chan_write_def read_handshake_ack_def read_line_until.simps fill_buf_def sock_read_def times_out_def BUF_CAPACITY_def
    BRIDGE_HANDSHAKE_TIMEOUT_def MAX_HANDSHAKE_LINE_BYTES_def str_bytes_def)

theorem opened_channel_aligned_witness:
  "\<exists>w' ack. open_uds_only ''v'' 52 (sample_chan [chunk 3 (str_bytes (''OK 1073'' @ [CHR 0x0A, CHR ''x'']))]) = (Ok (), w') \<and>
     last ack = 10 \<and> str_bytes (''OK 1073'' @ [CHR 0x0A, CHR ''x'']) = ack @ pending w'"
proof -
  obtain w' where 1: "open_uds_only ''v'' 52 (sample_chan [chunk 3 (str_bytes (''OK 1073'' @ [CHR 0x0A, CHR ''x'']))]) = (Ok (), w')"
    using bridge_answers by (metis prod.collapse)
  from opened_channel_aligned [OF 1] 1 show ?thesis
    by (auto simp: pending_def sample_chan_def chunk_def str_bytes_def)
qed

end
