(* ===== verification/Cgroup.thy ===== *)
theory Cgroup
  imports Host_Fs
begin

text \<open>
  The cgroup of a VM (\<open>m80-cgroup/src/lib.rs\<close>, \<open>probe.rs\<close>): creating the leaf with its limits, enrolling the processes,
  killing and removing it. The kernel answers every access from what happened before: the host is a set of
  functions of the trace of accesses. Time is in milliseconds; a sleep takes at least what was asked for, and
  the list \<open>cg_delays\<close> is the further time that passes before the clock is read.
\<close>

subsection \<open>The host\<close>

datatype cg_io = IoNotFound | IoBusy | IoNotEmpty | IoOther

datatype cg_event =
    MkdirAll fpath
  | Exists fpath
  | ReadText fpath
  | Wrote fpath string
  | WriteFailed fpath string
  | Rmdir fpath
  | Sleep nat

record cg_host =
  host_mkdir :: "cg_event list \<Rightarrow> fpath \<Rightarrow> (unit, cg_io) result"
  host_exists :: "cg_event list \<Rightarrow> fpath \<Rightarrow> bool"
  host_read :: "cg_event list \<Rightarrow> fpath \<Rightarrow> (string, cg_io) result"
  host_write :: "cg_event list \<Rightarrow> fpath \<Rightarrow> string \<Rightarrow> (unit, cg_io) result"
  host_rmdir :: "cg_event list \<Rightarrow> fpath \<Rightarrow> (unit, cg_io) result"

text \<open>The state of the process: the accesses so far, the clock, and the statics \<open>SUBTREE_CONTROL_PRIMED\<close> and
  \<open>PROBE_RESULT\<close>.\<close>
datatype cgroup_error =
    UnsupportedHostMode
  | ControllerNotEnabled string
  | SparseInheritedFile string
  | InvalidLimit string string
  | LivePids fpath string
  | CgroupIo fpath cg_io

record cg_state =
  cg_trace :: "cg_event list"
  cg_now :: nat
  cg_delays :: "nat list"
  primed :: bool
  probe_result :: "(unit, cgroup_error) result option"

type_synonym 'a cg = "(cg_state, 'a, cgroup_error) eff"

definition log_event :: "cg_event \<Rightarrow> cg_state \<Rightarrow> cg_state" where
  "log_event e s = s\<lparr>cg_trace := cg_trace s @ [e]\<rparr>"

definition create_dir_all_cg :: "cg_host \<Rightarrow> fpath \<Rightarrow> unit cg" where
  "create_dir_all_cg h p s =
     (case host_mkdir h (cg_trace s) p of
        Ok _ \<Rightarrow> (Ok (), log_event (MkdirAll p) s)
      | Err e \<Rightarrow> (Err (CgroupIo p e), log_event (MkdirAll p) s))"

definition exists_cg :: "cg_host \<Rightarrow> fpath \<Rightarrow> bool cg" where
  "exists_cg h p s = (Ok (host_exists h (cg_trace s) p), log_event (Exists p) s)"

definition read_cg :: "cg_host \<Rightarrow> fpath \<Rightarrow> string cg" where
  "read_cg h p s =
     (case host_read h (cg_trace s) p of
        Ok t \<Rightarrow> (Ok t, log_event (ReadText p) s)
      | Err e \<Rightarrow> (Err (CgroupIo p e), log_event (ReadText p) s))"

definition write_cgroup_file :: "cg_host \<Rightarrow> fpath \<Rightarrow> string \<Rightarrow> unit cg" where
  "write_cgroup_file h p v s =
     (case host_write h (cg_trace s) p v of
        Ok _ \<Rightarrow> (Ok (), log_event (Wrote p v) s)
      | Err e \<Rightarrow> (Err (CgroupIo p e), log_event (WriteFailed p v) s))"

definition read_clock :: "cg_state \<Rightarrow> nat \<times> cg_state" where
  "read_clock s =
     (case cg_delays s of
        [] \<Rightarrow> (cg_now s, s)
      | d # ds \<Rightarrow> (cg_now s + d, s\<lparr>cg_now := cg_now s + d, cg_delays := ds\<rparr>))"

definition sleep_cg :: "nat \<Rightarrow> cg_state \<Rightarrow> cg_state" where
  "sleep_cg d s = (log_event (Sleep d) s)\<lparr>cg_now := cg_now s + d\<rparr>"

subsection \<open>Limits\<close>

definition CGROUP_ROOT :: fpath where "CGROUP_ROOT = [''sys'', ''fs'', ''cgroup'', ''m80-firecracker'']"
definition CGROUP_V2_ROOT :: fpath where "CGROUP_V2_ROOT = [''sys'', ''fs'', ''cgroup'']"
definition BASE_CONTROLLERS :: "string list" where "BASE_CONTROLLERS = [''cpu'', ''memory'', ''pids'']"
definition CPUSET_CONTROLLER :: string where "CPUSET_CONTROLLER = ''cpuset''"
definition IO_CONTROLLER :: string where "IO_CONTROLLER = ''io''"

datatype cpu_max = Quota u64 u64 | MaxCpu

record io_max =
  io_major :: u32
  io_minor :: u32
  io_rbps :: "u64 option"
  io_wbps :: "u64 option"
  io_riops :: "u64 option"
  io_wiops :: "u64 option"

definition opt_field :: "string \<Rightarrow> u64 option \<Rightarrow> string" where
  "opt_field name v = (case v of None \<Rightarrow> [] | Some n \<Rightarrow> '' '' @ name @ ''='' @ nat_to_string (unat n))"

text \<open>\<open>Display for IoMax\<close>\<close>
definition io_max_to_string :: "io_max \<Rightarrow> string" where
  "io_max_to_string m =
     nat_to_string (unat (io_major m)) @ '':'' @ nat_to_string (unat (io_minor m)) @
     opt_field ''rbps'' (io_rbps m) @ opt_field ''wbps'' (io_wbps m) @
     opt_field ''riops'' (io_riops m) @ opt_field ''wiops'' (io_wiops m)"

record cg_limits =
  cpu_limit :: "cpu_max option"
  memory_max :: "u64 option"
  memory_swap_max :: "u64 option"
  pids_max :: "u32 option"
  cpuset_cpus :: "string option"
  io_max_rows :: "io_max list"
  io_weight :: "u16 option"
  oom_score_adj :: "i16 option"

definition preset :: cg_limits where
  "preset =
     \<lparr>cpu_limit = Some (Quota 100000 100000), memory_max = Some 1610612736, memory_swap_max = Some 0,
      pids_max = Some 128, cpuset_cpus = None, io_max_rows = [], io_weight = Some 100, oom_score_adj = Some 500\<rparr>"

definition required_controllers :: "cg_limits \<Rightarrow> string list" where
  "required_controllers l =
     BASE_CONTROLLERS @ (if cpuset_cpus l \<noteq> None then [CPUSET_CONTROLLER] else []) @
     (if io_weight l \<noteq> None \<or> io_max_rows l \<noteq> [] then [IO_CONTROLLER] else [])"

definition validate_io_weight :: "u16 \<Rightarrow> (unit, cgroup_error) result" where
  "validate_io_weight v =
     (if 1 \<le> unat v \<and> unat v \<le> 10000 then Ok () else Err (InvalidLimit ''io_weight'' (nat_to_string (unat v))))"

definition validate_cpuset_cpus :: "string \<Rightarrow> (unit, cgroup_error) result" where
  "validate_cpuset_cpus v =
     (if trim v = [] \<or> trim v \<noteq> v \<or> \<not> list_all (\<lambda>c. is_ascii_digit c \<or> c = CHR '','' \<or> c = CHR ''-'') (trim v)
      then Err (InvalidLimit ''cpuset_cpus'' v) else Ok ())"

definition int_to_string :: "int \<Rightarrow> string" where
  "int_to_string i = (if i < 0 then ''-'' @ nat_to_string (nat (- i)) else nat_to_string (nat i))"

definition set_oom_score_adj :: "cg_host \<Rightarrow> u32 \<Rightarrow> i16 \<Rightarrow> unit cg" where
  "set_oom_score_adj h pid v =
     (if sint v < - 1000 \<or> 1000 < sint v then fail (InvalidLimit ''oom_score_adj'' (int_to_string (sint v)))
      else write_cgroup_file h [''proc'', nat_to_string (unat pid), ''oom_score_adj''] (int_to_string (sint v) @ [CHR 0x0A]))"

definition cg_line :: "string \<Rightarrow> string" where
  "cg_line t = t @ [CHR 0x0A]"

definition cpu_max_text :: "cpu_max \<Rightarrow> string" where
  "cpu_max_text m =
     (case m of Quota q p \<Rightarrow> nat_to_string (unat q) @ '' '' @ nat_to_string (unat p) | MaxCpu \<Rightarrow> ''max'')"

definition opt_write :: "cg_host \<Rightarrow> fpath \<Rightarrow> string option \<Rightarrow> unit cg" where
  "opt_write h p v = (case v of None \<Rightarrow> ret () | Some t \<Rightarrow> write_cgroup_file h p (cg_line t))"

definition apply_limits :: "cg_host \<Rightarrow> fpath \<Rightarrow> cg_limits \<Rightarrow> unit cg" where
  "apply_limits h leaf l =
     bind_eff (opt_write h (leaf @ [''cpu.max'']) (map_option cpu_max_text (cpu_limit l))) (\<lambda>_.
     bind_eff (opt_write h (leaf @ [''memory.max'']) (map_option (\<lambda>n. nat_to_string (unat n)) (memory_max l))) (\<lambda>_.
     bind_eff (opt_write h (leaf @ [''memory.swap.max'']) (map_option (\<lambda>n. nat_to_string (unat n)) (memory_swap_max l))) (\<lambda>_.
     bind_eff (opt_write h (leaf @ [''pids.max'']) (map_option (\<lambda>n. nat_to_string (unat n)) (pids_max l))) (\<lambda>_.
     bind_eff (case cpuset_cpus l of None \<Rightarrow> ret ()
               | Some c \<Rightarrow> bind_eff (lift_result (validate_cpuset_cpus c)) (\<lambda>_. write_cgroup_file h (leaf @ [''cpuset.cpus'']) (cg_line c))) (\<lambda>_.
     bind_eff (case io_weight l of None \<Rightarrow> ret ()
               | Some v \<Rightarrow> bind_eff (lift_result (validate_io_weight v)) (\<lambda>_.
                   write_cgroup_file h (leaf @ [''io.weight'']) (cg_line (''default '' @ nat_to_string (unat v))))) (\<lambda>_.
     for_each (\<lambda>m. write_cgroup_file h (leaf @ [''io.max'']) (cg_line (io_max_to_string m))) (io_max_rows l)))))))"

subsection \<open>Controllers\<close>

definition write_subtree_control_unchecked :: "cg_host \<Rightarrow> fpath \<Rightarrow> string list \<Rightarrow> unit cg" where
  "write_subtree_control_unchecked h p cs =
     write_cgroup_file h (p @ [''cgroup.subtree_control'']) (cg_line (join '' '' (map (\<lambda>c. ''+'' @ c) cs)))"

definition check_controllers :: "string \<Rightarrow> string list \<Rightarrow> (unit list, cgroup_error) result" where
  "check_controllers available cs =
     collect_results (\<lambda>c. if c \<in> set (split_whitespace available) then Ok () else Err (ControllerNotEnabled c)) cs"

definition write_subtree_control_checked :: "cg_host \<Rightarrow> fpath \<Rightarrow> string list \<Rightarrow> unit cg" where
  "write_subtree_control_checked h p cs =
     bind_eff (read_cg h (p @ [''cgroup.controllers''])) (\<lambda>available.
     bind_eff (lift_result (check_controllers available cs)) (\<lambda>_.
     write_subtree_control_unchecked h p cs))"

text \<open>The directories from the base, exclusive, down to the parent.\<close>
definition chain_below :: "fpath \<Rightarrow> fpath \<Rightarrow> fpath list" where
  "chain_below base parent =
     (let rel = (if under base parent then drop (length base) parent else parent)
      in map (\<lambda>k. base @ take k rel) [1..<Suc (length rel)])"

definition enable_subtree_control_chain :: "cg_host \<Rightarrow> fpath \<Rightarrow> fpath \<Rightarrow> string list \<Rightarrow> unit cg" where
  "enable_subtree_control_chain h base parent cs =
     bind_eff (write_subtree_control_checked h base cs) (\<lambda>_.
     for_each (\<lambda>p. write_subtree_control_unchecked h p cs) (chain_below base parent))"

text \<open>The lock makes the two checks of the static one step.\<close>
definition enable_subtree_control_chain_once :: "unit cg \<Rightarrow> unit cg" where
  "enable_subtree_control_chain_once enable s =
     (if primed s then (Ok (), s) else bind_eff enable (\<lambda>_ s. (Ok (), s\<lparr>primed := True\<rparr>)) s)"

definition enable_subtree_control_for_create :: "cg_host \<Rightarrow> fpath \<Rightarrow> fpath \<Rightarrow> string list \<Rightarrow> unit cg" where
  "enable_subtree_control_for_create h base parent cs =
     (if base = CGROUP_V2_ROOT \<and> parent = CGROUP_ROOT
      then enable_subtree_control_chain_once (enable_subtree_control_chain h base parent cs)
      else enable_subtree_control_chain h base parent cs)"

subsection \<open>Killing and removing a leaf\<close>

definition CGROUP_KILL_DRAIN_TIMEOUT :: nat where "CGROUP_KILL_DRAIN_TIMEOUT = 5000"
definition CGROUP_KILL_DRAIN_POLL :: nat where "CGROUP_KILL_DRAIN_POLL = 20"
definition CGROUP_RMDIR_DRAIN_TIMEOUT :: nat where "CGROUP_RMDIR_DRAIN_TIMEOUT = 2000"
definition CGROUP_RMDIR_DRAIN_POLL :: nat where "CGROUP_RMDIR_DRAIN_POLL = 20"

definition cgroup_procs :: "cg_host \<Rightarrow> fpath \<Rightarrow> string cg" where
  "cgroup_procs h leaf s =
     (let p = leaf @ [''cgroup.procs''] in
      case host_read h (cg_trace s) p of
        Ok t \<Rightarrow> (Ok t, log_event (ReadText p) s)
      | Err IoNotFound \<Rightarrow> (Ok [], log_event (ReadText p) s)
      | Err e \<Rightarrow> (Err (CgroupIo p e), log_event (ReadText p) s))"

definition reject_existing_live_pids :: "cg_host \<Rightarrow> fpath \<Rightarrow> unit cg" where
  "reject_existing_live_pids h leaf =
     bind_eff (cgroup_procs h leaf) (\<lambda>procs. if trim procs = [] then ret () else fail (LivePids leaf (trim procs)))"

lemma read_clock_mono: "read_clock s = (t, s') \<Longrightarrow> t = cg_now s' \<and> cg_now s \<le> cg_now s'"
  by (auto simp: read_clock_def split: list.splits)

lemma cgroup_procs_now: "cgroup_procs h leaf s = (r, s') \<Longrightarrow> cg_now s' = cg_now s \<and> cg_delays s' = cg_delays s"
  by (auto simp: cgroup_procs_def Let_def log_event_def split: result.splits cg_io.splits)

function drain_loop :: "cg_host \<Rightarrow> fpath \<Rightarrow> nat \<Rightarrow> unit cg" where
  "drain_loop h leaf started s =
     (case cgroup_procs h leaf s of
        (Err e, s1) \<Rightarrow> (Err e, s1)
      | (Ok procs, s1) \<Rightarrow>
          if trim procs = [] then (Ok (), s1)
          else (case read_clock s1 of (now, s2) \<Rightarrow>
                  if CGROUP_KILL_DRAIN_TIMEOUT \<le> now - started then (Err (LivePids leaf (trim procs)), s2)
                  else drain_loop h leaf started (sleep_cg CGROUP_KILL_DRAIN_POLL s2)))"
  by pat_completeness auto
termination
proof (relation "measure (\<lambda>(h, leaf, started, s). started + CGROUP_KILL_DRAIN_TIMEOUT - cg_now s)", goal_cases)
  case (2 h leaf started s r s1 procs now s2)
  have 1: "cg_now s1 = cg_now s" using cgroup_procs_now [OF 2(1) [symmetric]] by simp
  have 3: "now = cg_now s2" "cg_now s1 \<le> cg_now s2" using read_clock_mono [OF 2(4) [symmetric]] by auto
  have "cg_now s2 < started + CGROUP_KILL_DRAIN_TIMEOUT" using 2(5) 3(1) by simp
  with 1 3 show ?case by (simp add: sleep_cg_def CGROUP_KILL_DRAIN_POLL_def)
qed simp

declare drain_loop.simps [simp del]

definition wait_for_empty_cgroup :: "cg_host \<Rightarrow> fpath \<Rightarrow> unit cg" where
  "wait_for_empty_cgroup h leaf s = (case read_clock s of (started, s1) \<Rightarrow> drain_loop h leaf started s1)"

definition kill_cgroup :: "cg_host \<Rightarrow> fpath \<Rightarrow> unit cg" where
  "kill_cgroup h leaf =
     (let kill_path = leaf @ [''cgroup.kill''] in
      bind_eff (exists_cg h kill_path) (\<lambda>there.
        if \<not> there then ret ()
        else bind_eff (write_cgroup_file h kill_path (cg_line ''1'')) (\<lambda>_. wait_for_empty_cgroup h leaf)))"

definition is_transient_cgroup_rmdir_error :: "cg_io \<Rightarrow> bool" where
  "is_transient_cgroup_rmdir_error e \<longleftrightarrow> e = IoBusy \<or> e = IoNotEmpty"

function rmdir_loop :: "cg_host \<Rightarrow> fpath \<Rightarrow> nat \<Rightarrow> unit cg" where
  "rmdir_loop h leaf started s =
     (let s1 = log_event (Rmdir leaf) s in
      case host_rmdir h (cg_trace s) leaf of
        Ok _ \<Rightarrow> (Ok (), s1)
      | Err e \<Rightarrow>
          if e = IoNotFound then (Ok (), s1)
          else if is_transient_cgroup_rmdir_error e then
            (case read_clock s1 of (now, s2) \<Rightarrow>
               if CGROUP_RMDIR_DRAIN_TIMEOUT \<le> now - started then (Err (CgroupIo leaf e), s2)
               else rmdir_loop h leaf started (sleep_cg CGROUP_RMDIR_DRAIN_POLL s2))
          else (Err (CgroupIo leaf e), s1))"
  by pat_completeness auto
termination
proof (relation "measure (\<lambda>(h, leaf, started, s). started + CGROUP_RMDIR_DRAIN_TIMEOUT - cg_now s)", goal_cases)
  case (2 h leaf started s s1 e now s2)
  have 1: "cg_now s1 = cg_now s" using 2(1) by (simp add: log_event_def)
  have 3: "now = cg_now s2" "cg_now s1 \<le> cg_now s2" using read_clock_mono [OF 2(5) [symmetric]] by auto
  have "cg_now s2 < started + CGROUP_RMDIR_DRAIN_TIMEOUT" using 2(6) 3(1) by simp
  with 1 3 show ?case by (simp add: sleep_cg_def CGROUP_RMDIR_DRAIN_POLL_def)
qed simp

declare rmdir_loop.simps [simp del]

definition remove_empty_cgroup_leaf :: "cg_host \<Rightarrow> fpath \<Rightarrow> unit cg" where
  "remove_empty_cgroup_leaf h leaf s = (case read_clock s of (started, s1) \<Rightarrow> rmdir_loop h leaf started s1)"

text \<open>\<open>Drop for Subtree\<close>: both errors are only logged.\<close>
definition drop_subtree :: "cg_host \<Rightarrow> fpath \<Rightarrow> cg_state \<Rightarrow> cg_state" where
  "drop_subtree h leaf s = snd (remove_empty_cgroup_leaf h leaf (snd (kill_cgroup h leaf s)))"

definition leaf_path :: "string \<Rightarrow> fpath" where
  "leaf_path vm_id = CGROUP_ROOT @ [vm_id]"

definition cleanup_orphan_subtree :: "cg_host \<Rightarrow> string \<Rightarrow> unit cg" where
  "cleanup_orphan_subtree h vm_id =
     (let leaf = leaf_path vm_id in
      bind_eff (exists_cg h leaf) (\<lambda>there.
        if \<not> there then ret ()
        else bind_eff (read_cg h (leaf @ [''cgroup.procs''])) (\<lambda>procs.
               if trim procs \<noteq> [] then fail (LivePids leaf (trim procs))
               else remove_empty_cgroup_leaf h leaf)))"

subsection \<open>Creating a leaf\<close>

definition enrolled_pids :: "u32 \<Rightarrow> u32 \<Rightarrow> u32 list" where
  "enrolled_pids jailer_pid firecracker_pid =
     remdups_adj (sort (filter (\<lambda>p. p \<noteq> 0) [jailer_pid, firecracker_pid]))"

text \<open>The first non-blank of the given files, read in order; missing files are skipped.\<close>
fun first_inherited :: "cg_host \<Rightarrow> fpath list \<Rightarrow> string option cg" where
  "first_inherited h [] = ret None"
| "first_inherited h (candidate # cs) =
     bind_eff (exists_cg h candidate) (\<lambda>there.
       if \<not> there then first_inherited h cs
       else bind_eff (read_cg h candidate) (\<lambda>inherited.
              if trim inherited \<noteq> [] then ret (Some inherited) else first_inherited h cs))"

text \<open>A directory and its ancestors, up to the root.\<close>
definition ancestors :: "fpath \<Rightarrow> fpath list" where
  "ancestors p = rev (map (\<lambda>k. take k p) [0..<Suc (length p)])"

definition inherit_sparse_cpuset_file :: "cg_host \<Rightarrow> fpath \<Rightarrow> fpath \<Rightarrow> string \<Rightarrow> unit cg" where
  "inherit_sparse_cpuset_file h parent leaf filename =
     (let leaf_file = leaf @ [filename] in
      bind_eff (exists_cg h leaf_file) (\<lambda>there.
        if \<not> there then ret ()
        else bind_eff (read_cg h leaf_file) (\<lambda>current.
          if trim current \<noteq> [] then ret ()
          else bind_eff (first_inherited h (concat (map (\<lambda>p. [p @ [filename], p @ [filename @ ''.effective'']]) (ancestors parent)))) (\<lambda>v.
            case v of
              Some inherited \<Rightarrow> write_cgroup_file h leaf_file inherited
            | None \<Rightarrow> fail (SparseInheritedFile filename)))))"

text \<open>After the \<open>Subtree\<close> exists: an early return drops it.\<close>
definition guarded_subtree :: "cg_host \<Rightarrow> fpath \<Rightarrow> unit cg \<Rightarrow> unit cg" where
  "guarded_subtree h leaf m s =
     (case m s of (Ok u, s') \<Rightarrow> (Ok u, s') | (Err e, s') \<Rightarrow> (Err e, drop_subtree h leaf s'))"

definition fill_subtree :: "cg_host \<Rightarrow> fpath \<Rightarrow> fpath \<Rightarrow> u32 list \<Rightarrow> cg_limits \<Rightarrow> unit cg" where
  "fill_subtree h leaf run_dir pids l =
     bind_eff (apply_limits h leaf l) (\<lambda>_.
     bind_eff (case oom_score_adj l of None \<Rightarrow> ret () | Some v \<Rightarrow> for_each (\<lambda>pid. set_oom_score_adj h pid v) pids) (\<lambda>_.
     bind_eff (for_each (\<lambda>pid. write_cgroup_file h (leaf @ [''cgroup.procs'']) (cg_line (nat_to_string (unat pid)))) pids) (\<lambda>_.
     write_cgroup_file h (run_dir @ [''cgroup-path.txt'']) (cg_line (''/'' @ join ''/'' leaf)))))"

text \<open>Up to the point where the \<open>Subtree\<close> exists.\<close>
definition prepare_leaf :: "cg_host \<Rightarrow> fpath \<Rightarrow> fpath \<Rightarrow> fpath \<Rightarrow> cg_limits \<Rightarrow> unit cg" where
  "prepare_leaf h base parent leaf l =
     bind_eff (create_dir_all_cg h parent) (\<lambda>_.
     bind_eff (enable_subtree_control_for_create h base parent (required_controllers l)) (\<lambda>_.
     bind_eff (create_dir_all_cg h leaf) (\<lambda>_.
     bind_eff (reject_existing_live_pids h leaf) (\<lambda>_.
     bind_eff (if cpuset_cpus l = None then inherit_sparse_cpuset_file h parent leaf ''cpuset.cpus'' else ret ()) (\<lambda>_.
     inherit_sparse_cpuset_file h parent leaf ''cpuset.mems'')))))"

definition create_at :: "cg_host \<Rightarrow> fpath \<Rightarrow> fpath \<Rightarrow> string \<Rightarrow> fpath \<Rightarrow> u32 \<Rightarrow> u32 \<Rightarrow> cg_limits \<Rightarrow> unit cg" where
  "create_at h base parent vm_id run_dir jailer_pid firecracker_pid l =
     (let leaf = parent @ [vm_id] in
      bind_eff (prepare_leaf h base parent leaf l) (\<lambda>_.
      guarded_subtree h leaf (fill_subtree h leaf run_dir (enrolled_pids jailer_pid firecracker_pid) l)))"

definition subtree_create :: "cg_host \<Rightarrow> string \<Rightarrow> fpath \<Rightarrow> u32 \<Rightarrow> u32 \<Rightarrow> cg_limits \<Rightarrow> unit cg" where
  "subtree_create h vm_id run_dir jailer_pid firecracker_pid l =
     create_at h CGROUP_V2_ROOT CGROUP_ROOT vm_id run_dir jailer_pid firecracker_pid l"

subsection \<open>The probe\<close>

definition mount_line_is_v2 :: "string \<Rightarrow> bool" where
  "mount_line_is_v2 l =
     (case split_whitespace l of
        dev # mount_point # fs_type # _ \<Rightarrow> fs_type = ''cgroup2'' \<and> mount_point = ''/sys/fs/cgroup''
      | _ \<Rightarrow> False)"

definition probe_mounts :: "cg_host \<Rightarrow> string \<Rightarrow> unit cg" where
  "probe_mounts h mounts_text =
     (if \<not> list_ex mount_line_is_v2 (str_lines mounts_text) then fail UnsupportedHostMode
      else bind_eff (read_cg h (CGROUP_V2_ROOT @ [''cgroup.subtree_control''])) (\<lambda>_. ret ()))"

definition read_host_probe :: "cg_host \<Rightarrow> unit cg" where
  "read_host_probe h = bind_eff (read_cg h [''proc'', ''mounts'']) (probe_mounts h)"

definition probe_once :: "unit cg \<Rightarrow> unit cg" where
  "probe_once m s =
     (case probe_result s of
        Some r \<Rightarrow> (r, s)
      | None \<Rightarrow> (case m s of (r, s') \<Rightarrow> (r, s'\<lparr>probe_result := Some r\<rparr>)))"

definition probe :: "cg_host \<Rightarrow> unit cg" where
  "probe h = probe_once (read_host_probe h)"

subsection \<open>What an operation does to the trace\<close>

text \<open>Since the trace \<open>T\<close> only events with \<open>P\<close> have happened.\<close>
definition grown :: "(cg_event \<Rightarrow> bool) \<Rightarrow> cg_event list \<Rightarrow> cg_state \<Rightarrow> bool" where
  "grown P T s \<longleftrightarrow> (\<exists>es. cg_trace s = T @ es \<and> list_all P es)"

lemma grown_start [simp]: "grown P (cg_trace s) s"
  by (auto simp: grown_def)

lemma grown_log [intro]: "P e \<Longrightarrow> grown P T s \<Longrightarrow> grown P T (log_event e s)"
  by (auto simp: grown_def log_event_def)

lemma grown_cong: "cg_trace s' = cg_trace s \<Longrightarrow> grown P T s' = grown P T s"
  by (simp add: grown_def)

lemma read_clock_trace: "read_clock s = (t, s') \<Longrightarrow> cg_trace s' = cg_trace s"
  by (auto simp: read_clock_def split: list.splits)

lemma grown_sleep: "P (Sleep d) \<Longrightarrow> grown P T s \<Longrightarrow> grown P T (sleep_cg d s)"
  by (auto simp: sleep_cg_def log_event_def grown_def)

text \<open>Paths that an event writes to.\<close>
fun writes_to :: "(fpath \<Rightarrow> bool) \<Rightarrow> cg_event \<Rightarrow> bool" where
  "writes_to A (Wrote p v) = A p"
| "writes_to A (WriteFailed p v) = A p"
| "writes_to A (Rmdir p) = A p"
| "writes_to A _ = False"

abbreviation spares :: "(fpath \<Rightarrow> bool) \<Rightarrow> cg_event list \<Rightarrow> cg_state \<Rightarrow> bool" where
  "spares A \<equiv> grown (\<lambda>e. \<not> writes_to A e)"

lemma spares_basic [intro]:
  "keeps (spares A T) (create_dir_all_cg h p)" "keeps (spares A T) (exists_cg h p)" "keeps (spares A T) (read_cg h p)"
  "keeps (spares A T) (cgroup_procs h p)"
  by (auto simp: keeps_def create_dir_all_cg_def exists_cg_def read_cg_def cgroup_procs_def Let_def split: result.split cg_io.split)

lemma spares_write: "\<not> A p \<Longrightarrow> keeps (spares A T) (write_cgroup_file h p v)"
  by (auto simp: keeps_def write_cgroup_file_def split: result.split)

lemma spares_drain: "spares A T s \<Longrightarrow> spares A T (snd (drain_loop h leaf started s))"
proof (induction h leaf started s rule: drain_loop.induct)
  case (1 h leaf started s)
  obtain q s1 where procs: "cgroup_procs h leaf s = (q, s1)" by fastforce
  obtain now s2 where clk: "read_clock s1 = (now, s2)" by fastforce
  have "spares A T s1" using keepsD [OF spares_basic(4) "1.prems"] procs by (metis snd_conv)
  then have s2: "spares A T s2" by (simp add: grown_cong [OF read_clock_trace [OF clk]])
  then have "spares A T (sleep_cg CGROUP_KILL_DRAIN_POLL s2)" by (intro grown_sleep) simp_all
  note IH = "1.IH" [OF procs [symmetric] _ _ clk [symmetric] _ this]
  show ?case
  proof (cases q)
    case (Ok t)
    show ?thesis
    proof (cases "trim t = [] \<or> CGROUP_KILL_DRAIN_TIMEOUT \<le> now - started")
      case True
      with Ok procs clk s2 \<open>spares A T s1\<close> show ?thesis by (auto simp: drain_loop.simps [of h leaf started s])
    next
      case False
      then have "snd (drain_loop h leaf started s) = snd (drain_loop h leaf started (sleep_cg CGROUP_KILL_DRAIN_POLL s2))"
        using Ok procs clk by (simp add: drain_loop.simps [of h leaf started s])
      with IH [OF Ok] False show ?thesis by simp
    qed
  next
    case (Err e)
    with procs \<open>spares A T s1\<close> show ?thesis by (simp add: drain_loop.simps [of h leaf started s])
  qed
qed

lemma grown_rmdir:
  "P (Rmdir leaf) \<Longrightarrow> (\<And>d. P (Sleep d)) \<Longrightarrow> grown P T s \<Longrightarrow> grown P T (snd (rmdir_loop h leaf started s))"
proof (induction h leaf started s rule: rmdir_loop.induct)
  case (1 h leaf started s)
  let ?s1 = "log_event (Rmdir leaf) s"
  obtain now s2 where clk: "read_clock ?s1 = (now, s2)" by fastforce
  have s1: "grown P T ?s1" using "1.prems" by (auto intro!: grown_log)
  then have s2: "grown P T s2" by (simp add: grown_cong [OF read_clock_trace [OF clk]])
  then have "grown P T (sleep_cg CGROUP_RMDIR_DRAIN_POLL s2)" using "1.prems"(2) by (intro grown_sleep) simp_all
  note IH = "1.IH" [OF refl _ _ _ clk [symmetric] _ "1.prems"(1,2) this]
  show ?case
  proof (cases "host_rmdir h (cg_trace s) leaf")
    case (Ok u)
    with s1 show ?thesis by (simp add: rmdir_loop.simps [of h leaf started s] Let_def)
  next
    case (Err e)
    show ?thesis
    proof (cases "e \<noteq> IoNotFound \<and> is_transient_cgroup_rmdir_error e \<and> \<not> CGROUP_RMDIR_DRAIN_TIMEOUT \<le> now - started")
      case True
      then have "snd (rmdir_loop h leaf started s) = snd (rmdir_loop h leaf started (sleep_cg CGROUP_RMDIR_DRAIN_POLL s2))"
        using Err clk by (simp add: rmdir_loop.simps [of h leaf started s] Let_def)
      with IH [OF Err] True show ?thesis by simp
    next
      case False
      with Err clk s1 s2 show ?thesis by (auto simp: rmdir_loop.simps [of h leaf started s] Let_def)
    qed
  qed
qed

lemma grown_remove:
  "P (Rmdir leaf) \<Longrightarrow> (\<And>d. P (Sleep d)) \<Longrightarrow> keeps (grown P T) (remove_empty_cgroup_leaf h leaf)"
  by (auto simp: keeps_def remove_empty_cgroup_leaf_def grown_cong [OF read_clock_trace] intro!: grown_rmdir split: prod.split)

lemma spares_wait: "keeps (spares A T) (wait_for_empty_cgroup h leaf)"
  by (auto simp: keeps_def wait_for_empty_cgroup_def grown_cong [OF read_clock_trace] intro!: spares_drain split: prod.split)

lemma spares_remove: "\<not> A leaf \<Longrightarrow> keeps (spares A T) (remove_empty_cgroup_leaf h leaf)"
  by (rule grown_remove) simp_all

lemma spares_kill: "\<not> A (leaf @ [''cgroup.kill'']) \<Longrightarrow> keeps (spares A T) (kill_cgroup h leaf)"
  unfolding kill_cgroup_def Let_def by (auto intro!: keeps_bind spares_wait spares_write)

lemma spares_drop:
  "\<not> A leaf \<Longrightarrow> \<not> A (leaf @ [''cgroup.kill'']) \<Longrightarrow> spares A T s \<Longrightarrow> spares A T (drop_subtree h leaf s)"
  unfolding drop_subtree_def by (blast intro: keepsD [OF spares_remove] keepsD [OF spares_kill])

lemma spares_first: "keeps (spares A T) (first_inherited h cs)"
proof (induction cs)
  case (Cons c cs)
  then show ?case by (auto intro!: keeps_bind)
qed (simp add: keeps_def)

lemma spares_inherit: "\<not> A (leaf @ [f]) \<Longrightarrow> keeps (spares A T) (inherit_sparse_cpuset_file h parent leaf f)"
  unfolding inherit_sparse_cpuset_file_def Let_def
  by (intro keeps_bind spares_basic) (auto intro!: keeps_bind spares_first spares_write split: option.split)

lemma spares_reject: "keeps (spares A T) (reject_existing_live_pids h leaf)"
  unfolding reject_existing_live_pids_def by (auto intro!: keeps_bind)

lemma spares_enable:
  assumes "\<And>p. p = base \<or> p \<in> set (chain_below base parent) \<Longrightarrow> \<not> A (p @ [''cgroup.subtree_control''])"
  shows "keeps (spares A T) (enable_subtree_control_for_create h base parent cs)"
proof -
  have un: "keeps (spares A T) (write_subtree_control_unchecked h p cs)" if "p = base \<or> p \<in> set (chain_below base parent)" for p
    unfolding write_subtree_control_unchecked_def by (rule spares_write) (rule assms [OF that])
  have each: "keeps (spares A T) (for_each (\<lambda>p. write_subtree_control_unchecked h p cs) ps)" if "set ps \<subseteq> set (chain_below base parent)" for ps
    using that by (induction ps) (auto intro!: keeps_bind un)
  have chain: "keeps (spares A T) (enable_subtree_control_chain h base parent cs)"
    unfolding enable_subtree_control_chain_def write_subtree_control_checked_def
    by (auto intro!: keeps_bind un each)
  moreover have "keeps (spares A T) (enable_subtree_control_chain_once (enable_subtree_control_chain h base parent cs))"
  proof (rule keepsI)
    fix s assume s: "spares A T s"
    obtain q s1 where "enable_subtree_control_chain h base parent cs s = (q, s1)" by fastforce
    with keepsD [OF chain s] s show "spares A T (snd (enable_subtree_control_chain_once (enable_subtree_control_chain h base parent cs) s))"
      by (cases q) (auto simp: enable_subtree_control_chain_once_def bind_eff_def grown_def)
  qed
  ultimately show ?thesis unfolding enable_subtree_control_for_create_def by auto
qed

subsection \<open>Limits before processes\<close>

definition opt_events :: "fpath \<Rightarrow> string option \<Rightarrow> cg_event list" where
  "opt_events p v = (case v of None \<Rightarrow> [] | Some t \<Rightarrow> [Wrote p (cg_line t)])"

text \<open>The writes that put the limits in force.\<close>
definition limit_writes :: "fpath \<Rightarrow> cg_limits \<Rightarrow> cg_event list" where
  "limit_writes leaf l =
     opt_events (leaf @ [''cpu.max'']) (map_option cpu_max_text (cpu_limit l)) @
     opt_events (leaf @ [''memory.max'']) (map_option (\<lambda>n. nat_to_string (unat n)) (memory_max l)) @
     opt_events (leaf @ [''memory.swap.max'']) (map_option (\<lambda>n. nat_to_string (unat n)) (memory_swap_max l)) @
     opt_events (leaf @ [''pids.max'']) (map_option (\<lambda>n. nat_to_string (unat n)) (pids_max l)) @
     opt_events (leaf @ [''cpuset.cpus'']) (cpuset_cpus l) @
     opt_events (leaf @ [''io.weight'']) (map_option (\<lambda>v. ''default '' @ nat_to_string (unat v)) (io_weight l)) @
     map (\<lambda>m. Wrote (leaf @ [''io.max'']) (cg_line (io_max_to_string m))) (io_max_rows l)"

lemma write_Ok: "write_cgroup_file h p v s = (Ok u, s') \<Longrightarrow> cg_trace s' = cg_trace s @ [Wrote p v]"
  by (auto simp: write_cgroup_file_def log_event_def split: result.splits)

lemma opt_write_Ok: "opt_write h p v s = (Ok u, s') \<Longrightarrow> cg_trace s' = cg_trace s @ opt_events p v"
  by (auto simp: opt_write_def opt_events_def split: option.splits dest: write_Ok)

lemma each_write_Ok:
  "for_each (\<lambda>x. write_cgroup_file h p (f x)) xs s = (Ok u, s') \<Longrightarrow> cg_trace s' = cg_trace s @ map (\<lambda>x. Wrote p (f x)) xs"
  by (induction xs arbitrary: s) (auto simp: result_simps dest!: write_Ok)

lemma apply_limits_Ok: "apply_limits h leaf l s = (Ok u, s') \<Longrightarrow> cg_trace s' = cg_trace s @ limit_writes leaf l"
  by (auto simp: apply_limits_def limit_writes_def bind_eff_eq_Ok opt_events_def split: option.split_asm
    dest!: opt_write_Ok write_Ok each_write_Ok)

lemma spares_opt_write: "\<not> A p \<Longrightarrow> keeps (spares A T) (opt_write h p v)"
  by (auto simp: opt_write_def intro!: spares_write split: option.split)

lemma spares_apply:
  assumes "\<And>f. f \<in> {''cpu.max'', ''memory.max'', ''memory.swap.max'', ''pids.max'', ''cpuset.cpus'', ''io.weight'', ''io.max''} \<Longrightarrow> \<not> A (leaf @ [f])"
  shows "keeps (spares A T) (apply_limits h leaf l)"
  unfolding apply_limits_def
  by (intro keeps_bind spares_opt_write keeps_for_each spares_write assms)
    (auto intro!: keeps_bind spares_write assms split: option.split)

lemma spares_oom:
  assumes "\<And>p. \<not> A (p @ [''oom_score_adj''])"
  shows "keeps (spares A T) (set_oom_score_adj h pid v)"
proof -
  have "\<not> A ([''proc'', x] @ [''oom_score_adj''])" for x by (rule assms)
  then show ?thesis by (auto simp: set_oom_score_adj_def intro!: spares_write)
qed

lemma spares_prepare:
  assumes "\<And>p. p = base \<or> p \<in> set (chain_below base parent) \<Longrightarrow> \<not> A (p @ [''cgroup.subtree_control''])" "\<not> A (leaf @ [''cpuset.cpus''])" "\<not> A (leaf @ [''cpuset.mems''])"
  shows "keeps (spares A T) (prepare_leaf h base parent leaf l)"
  unfolding prepare_leaf_def using assms by (auto intro!: keeps_bind spares_basic spares_enable spares_reject spares_inherit)

lemma spares_grows: "spares A T s \<Longrightarrow> \<exists>es. cg_trace s = T @ es \<and> (\<forall>e \<in> set es. \<not> writes_to A e)"
  by (auto simp: grown_def list_all_iff)

lemma split_after:
  assumes "xs @ ys = pre @ e # post" "e \<notin> set xs"
  shows "set xs \<subseteq> set pre"
proof -
  obtain us where "xs = pre @ us \<and> us @ ys = e # post \<or> xs @ us = pre \<and> ys = us @ e # post"
    using assms(1) by (auto simp: append_eq_append_conv2)
  with assms(2) show ?thesis by (cases us) auto
qed

definition procs_file :: "fpath \<Rightarrow> fpath" where
  "procs_file leaf = leaf @ [''cgroup.procs'']"

definition enrolment :: "fpath \<Rightarrow> u32 \<Rightarrow> cg_event" where
  "enrolment leaf pid = Wrote (procs_file leaf) (cg_line (nat_to_string (unat pid)))"

definition enrols :: "fpath \<Rightarrow> cg_event \<Rightarrow> bool" where
  "enrols leaf e \<longleftrightarrow> (\<exists>v. e = Wrote (procs_file leaf) v)"

lemma enrols_writes: "enrols leaf e \<Longrightarrow> writes_to (\<lambda>p. p = procs_file leaf) e"
  by (auto simp: enrols_def)

lemma limit_writes_no_procs: "e \<in> set (limit_writes leaf l) \<Longrightarrow> \<not> enrols leaf e"
  by (auto simp: limit_writes_def opt_events_def enrols_def procs_file_def split: option.splits)

lemma fill_subtree_trace:
  assumes "fill_subtree h leaf run_dir pids l s = (r, s')"
  shows "\<exists>es. cg_trace s' = cg_trace s @ es \<and>
    ((\<forall>e \<in> set es. \<not> enrols leaf e) \<or> (\<exists>rest. es = limit_writes leaf l @ rest)) \<and>
    (r = Ok () \<longrightarrow> filter (enrols leaf) es = map (enrolment leaf) pids)"
proof -
  let ?A = "\<lambda>p. p = procs_file leaf"
  obtain q s1 where lim: "apply_limits h leaf l s = (q, s1)" by fastforce
  show ?thesis
  proof (cases q)
    case (Err e)
    have "keeps (spares ?A (cg_trace s)) (apply_limits h leaf l)" by (rule spares_apply) (auto simp: procs_file_def)
    from keepsD [OF this] lim have "spares ?A (cg_trace s) s1" by (metis grown_start snd_conv)
    moreover have "r = Err e" "s' = s1" using assms lim Err by (simp_all add: fill_subtree_def bind_eff_def)
    ultimately show ?thesis using spares_grows enrols_writes by (metis result.distinct(1))
  next
    case (Ok u)
    have t1: "cg_trace s1 = cg_trace s @ limit_writes leaf l" using apply_limits_Ok lim Ok by blast
    let ?oom = "case oom_score_adj l of None \<Rightarrow> ret () | Some v \<Rightarrow> for_each (\<lambda>pid. set_oom_score_adj h pid v) pids"
    let ?enrol = "for_each (\<lambda>pid. write_cgroup_file h (leaf @ [''cgroup.procs'']) (cg_line (nat_to_string (unat pid)))) pids"
    let ?path = "write_cgroup_file h (run_dir @ [''cgroup-path.txt'']) (cg_line (''/'' @ join ''/'' leaf))"
    have run: "bind_eff ?oom (\<lambda>_. bind_eff ?enrol (\<lambda>_. ?path)) s1 = (r, s')"
      using assms lim Ok by (simp add: fill_subtree_def)
    have "keeps (spares (\<lambda>_. False) (cg_trace s1)) (bind_eff ?oom (\<lambda>_. bind_eff ?enrol (\<lambda>_. ?path)))"
      by (auto intro!: keeps_bind keeps_for_each spares_write spares_oom split: option.split)
    from keepsD [OF this, of s1] run have "spares (\<lambda>_. False) (cg_trace s1) s'" by simp
    then obtain rest where rest: "cg_trace s' = cg_trace s1 @ rest" using spares_grows by blast
    moreover have "filter (enrols leaf) (limit_writes leaf l @ rest) = map (enrolment leaf) pids" if r: "r = Ok ()"
    proof -
      obtain s2 s3 where oom: "?oom s1 = (Ok (), s2)" and en: "?enrol s2 = (Ok (), s3)" and pa: "?path s3 = (Ok (), s')"
        using run r by (auto simp: bind_eff_eq_Ok)
      have "keeps (spares ?A (cg_trace s1)) ?oom"
        by (auto intro!: keeps_for_each spares_oom simp: procs_file_def split: option.split)
      from keepsD [OF this, of s1] oom have "spares ?A (cg_trace s1) s2" by simp
      then obtain os where os: "cg_trace s2 = cg_trace s1 @ os" "\<forall>e \<in> set os. \<not> enrols leaf e"
        using spares_grows enrols_writes by metis
      have "rest = os @ map (enrolment leaf) pids @ [Wrote (run_dir @ [''cgroup-path.txt'']) (cg_line (''/'' @ join ''/'' leaf))]"
        using rest os(1) each_write_Ok [OF en] write_Ok [OF pa] by (auto simp: enrolment_def procs_file_def)
      moreover have "filter (enrols leaf) (map (enrolment leaf) pids) = map (enrolment leaf) pids"
        by (induction pids) (auto simp: enrols_def enrolment_def)
      moreover have "filter (enrols leaf) (limit_writes leaf l) = []" "filter (enrols leaf) os = []"
        using limit_writes_no_procs os(2) by (auto simp: filter_empty_conv)
      moreover have "\<not> enrols leaf (Wrote (run_dir @ [''cgroup-path.txt'']) v)" for v by (simp add: enrols_def procs_file_def)
      ultimately show ?thesis by simp
    qed
    ultimately show ?thesis using t1 by (intro exI [where x = "limit_writes leaf l @ rest"]) auto
  qed
qed


subsection \<open>Leaves of other processes\<close>

definition never_live :: "'a cg \<Rightarrow> bool" where
  "never_live m \<longleftrightarrow> (\<forall>s p x. fst (m s) \<noteq> Err (LivePids p x))"

lemma never_liveI: "(\<And>s p x s'. m s = (Err (LivePids p x), s') \<Longrightarrow> False) \<Longrightarrow> never_live m"
  unfolding never_live_def by (metis prod.collapse)

lemma never_liveD: "never_live m \<Longrightarrow> m s = (Err (LivePids p x), s') \<Longrightarrow> False"
  unfolding never_live_def by (metis fst_conv)

lemma never_live_ret [simp]: "never_live (ret a)"
  by (simp add: never_live_def)

lemma never_live_bind: "never_live m \<Longrightarrow> (\<And>a. never_live (f a)) \<Longrightarrow> never_live (bind_eff m f)"
proof (rule never_liveI)
  fix s p x s' assume "never_live m" "\<And>a. never_live (f a)" "bind_eff m f s = (Err (LivePids p x), s')"
  then show False by (auto simp: bind_eff_def split: prod.split_asm result.split_asm dest: never_liveD)
qed

lemma never_live_each: "(\<And>x. never_live (f x)) \<Longrightarrow> never_live (for_each f xs)"
proof (induction xs)
  case (Cons x xs)
  then show ?case by (simp add: never_live_bind)
qed (simp add: never_live_def)

lemma never_live_basic [intro]:
  "never_live (create_dir_all_cg h p)" "never_live (exists_cg h p)" "never_live (read_cg h p)" "never_live (write_cgroup_file h p v)"
  by (auto simp: never_live_def create_dir_all_cg_def exists_cg_def read_cg_def write_cgroup_file_def split: result.split)

lemma never_live_results [intro]:
  "never_live (lift_result (validate_cpuset_cpus c))" "never_live (lift_result (validate_io_weight w))"
  "never_live (lift_result (check_controllers av cs))"
proof -
  show "never_live (lift_result (validate_cpuset_cpus c))" "never_live (lift_result (validate_io_weight w))"
    by (auto simp: never_live_def validate_cpuset_cpus_def validate_io_weight_def)
  show "never_live (lift_result (check_controllers av cs))"
    unfolding never_live_def check_controllers_def by (induction cs) (auto simp: result_simps)
qed

lemma never_live_enable: "never_live (enable_subtree_control_for_create h base parent cs)"
proof -
  have chain: "never_live (enable_subtree_control_chain h base parent cs)"
    unfolding enable_subtree_control_chain_def write_subtree_control_checked_def write_subtree_control_unchecked_def
    by (auto intro!: never_live_bind never_live_each)
  have "never_live (enable_subtree_control_chain_once (enable_subtree_control_chain h base parent cs))"
    by (rule never_liveI)
      (auto simp: enable_subtree_control_chain_once_def bind_eff_def split: prod.split_asm result.split_asm if_split_asm dest: never_liveD [OF chain])
  with chain show ?thesis unfolding enable_subtree_control_for_create_def by (cases "base = CGROUP_V2_ROOT \<and> parent = CGROUP_ROOT") auto
qed

lemma never_live_inherit: "never_live (inherit_sparse_cpuset_file h parent leaf f)"
proof -
  have first: "never_live (first_inherited h cs)" for cs 
  proof (induction cs)
    case (Cons c cs)
    then show ?case by (auto intro!: never_live_bind)
  qed (simp add: never_live_def)
  have "never_live (case v of Some inherited \<Rightarrow> write_cgroup_file h p inherited | None \<Rightarrow> fail (SparseInheritedFile f))" for v p
    by (auto simp: never_live_def [of "fail _"] split: option.split)
  with first show ?thesis unfolding inherit_sparse_cpuset_file_def Let_def by (auto intro!: never_live_bind never_live_basic)
qed

lemma never_live_fill: "never_live (fill_subtree h leaf run_dir pids l)"
proof -
  have "never_live (apply_limits h leaf l)"
  proof -
    have "never_live (opt_write h p v)" for p v by (auto simp: opt_write_def split: option.split)
    then show ?thesis unfolding apply_limits_def
      by (intro never_live_bind never_live_each) (auto intro!: never_live_bind split: option.split)
  qed
  moreover have "never_live (set_oom_score_adj h pid v)" for pid v
    by (auto simp: set_oom_score_adj_def never_live_def [of "fail _"] intro!: never_live_basic)
  ultimately show ?thesis unfolding fill_subtree_def by (auto intro!: never_live_bind never_live_each split: option.split)
qed

lemma chain_below_root: "chain_below CGROUP_V2_ROOT CGROUP_ROOT = [CGROUP_ROOT]"
  by (simp add: chain_below_def CGROUP_V2_ROOT_def CGROUP_ROOT_def under_def)

text \<open>A leaf that still has processes is left alone: when the creation is refused because of them, nothing at or below
  the leaf has been written or removed, and in particular none of the processes was killed.\<close>
theorem live_leaf_untouched:
  assumes run: "subtree_create h vm_id run_dir jp fp l s = (Err (LivePids p pids), s')"
    and name: "vm_id \<noteq> ''cgroup.subtree_control''"
  shows "p = leaf_path vm_id \<and> pids \<noteq> [] \<and>
    (\<exists>es. cg_trace s' = cg_trace s @ es \<and> (\<forall>e \<in> set es. \<not> writes_to (under (leaf_path vm_id)) e))"
proof -
  let ?leaf = "leaf_path vm_id"
  let ?A = "under ?leaf"
  have leaf: "CGROUP_ROOT @ [vm_id] = ?leaf" by (simp add: leaf_path_def)
  obtain q s1 where b: "prepare_leaf h CGROUP_V2_ROOT CGROUP_ROOT ?leaf l s = (q, s1)" by fastforce
  have q: "q = Err (LivePids p pids)" "s' = s1"
  proof -
    have "never_live (guarded_subtree h ?leaf (fill_subtree h ?leaf run_dir (enrolled_pids jp fp) l))"
      by (rule never_liveI) (auto simp: guarded_subtree_def split: prod.split_asm result.split_asm
        dest: never_liveD [OF never_live_fill [of h ?leaf run_dir "enrolled_pids jp fp" l]])
    then have "\<not> (\<exists>u. q = Ok u)"
      using run b by (auto simp: subtree_create_def create_at_def Let_def leaf dest: never_liveD)
    then obtain e where "q = Err e" by (cases q) auto
    with run b show "q = Err (LivePids p pids)" "s' = s1" by (simp_all add: subtree_create_def create_at_def Let_def leaf)
  qed
  let ?front = "bind_eff (create_dir_all_cg h CGROUP_ROOT) (\<lambda>_.
     bind_eff (enable_subtree_control_for_create h CGROUP_V2_ROOT CGROUP_ROOT (required_controllers l)) (\<lambda>_.
     create_dir_all_cg h ?leaf))"
  let ?rear = "bind_eff (if cpuset_cpus l = None then inherit_sparse_cpuset_file h CGROUP_ROOT ?leaf ''cpuset.cpus'' else ret ()) (\<lambda>_.
     inherit_sparse_cpuset_file h CGROUP_ROOT ?leaf ''cpuset.mems'')"
  have split: "prepare_leaf h CGROUP_V2_ROOT CGROUP_ROOT ?leaf l = bind_eff ?front (\<lambda>_. bind_eff (reject_existing_live_pids h ?leaf) (\<lambda>_. ?rear))"
    by (rule ext) (simp add: prepare_leaf_def bind_eff_def split: prod.split result.split)
  have nf: "never_live ?front" and nb: "never_live ?rear"
    by (auto intro!: never_live_bind never_live_enable never_live_inherit)
  obtain q1 s2 where f: "?front s = (q1, s2)" by fastforce
  have "\<exists>u. q1 = Ok u" using f b q by (cases q1) (auto simp: split dest: never_liveD [OF nf])
  then have rej: "bind_eff (reject_existing_live_pids h ?leaf) (\<lambda>_. ?rear) s2 = (Err (LivePids p pids), s1)"
    using f b q by (auto simp: split)
  obtain q2 s3 where r: "reject_existing_live_pids h ?leaf s2 = (q2, s3)" by fastforce
  have "\<not> (\<exists>u. q2 = Ok u)" using rej r by (auto dest: never_liveD [OF nb])
  then have q2: "q2 = Err (LivePids p pids)" "s3 = s1" using rej r by (cases q2; simp)+
  have "p = ?leaf" "pids \<noteq> []"
    using r q2 by (auto simp: reject_existing_live_pids_def bind_eff_def cgroup_procs_def Let_def
      split: prod.split_asm result.split_asm cg_io.split_asm if_split_asm)
  moreover have "\<not> ?A (d @ [''cgroup.subtree_control''])" if "d = CGROUP_V2_ROOT \<or> d \<in> set (chain_below CGROUP_V2_ROOT CGROUP_ROOT)" for d
    using that name unfolding chain_below_root by (auto simp: CGROUP_V2_ROOT_def CGROUP_ROOT_def leaf_path_def under_def)
  then have "keeps (spares ?A (cg_trace s)) (bind_eff ?front (\<lambda>_. reject_existing_live_pids h ?leaf))"
    by (intro keeps_bind spares_basic spares_reject spares_enable)
  then have "spares ?A (cg_trace s) s1"
    using f r q2 \<open>\<exists>u. q1 = Ok u\<close> by (auto dest!: keepsD [where w = s])
  ultimately show ?thesis using spares_grows q(2) by blast
qed

subsection \<open>Controllers of later VMs\<close>

definition control_file :: "fpath \<Rightarrow> bool" where
  "control_file p \<longleftrightarrow> (\<exists>d. p = d @ [''cgroup.subtree_control''])"

lemma primed_basic [intro]:
  "keeps primed (create_dir_all_cg h p)" "keeps primed (exists_cg h p)" "keeps primed (read_cg h p)"
  "keeps primed (write_cgroup_file h p v)" "keeps primed (cgroup_procs h p)"
  by (auto simp: keeps_def create_dir_all_cg_def exists_cg_def read_cg_def write_cgroup_file_def cgroup_procs_def Let_def log_event_def
    split: result.split cg_io.split)

lemma primed_inherit: "keeps primed (inherit_sparse_cpuset_file h parent leaf f)"
proof -
  have "keeps primed (first_inherited h cs)" for cs
  proof (induction cs)
    case (Cons c cs)
    then show ?case by (auto intro!: keeps_bind)
  qed (simp add: keeps_def)
  then show ?thesis unfolding inherit_sparse_cpuset_file_def Let_def
    by (auto intro!: keeps_bind primed_basic split: option.split)
qed

lemma primed_fill: "keeps primed (fill_subtree h leaf run_dir pids l)"
  unfolding fill_subtree_def apply_limits_def opt_write_def set_oom_score_adj_def
  by (intro keeps_bind keeps_for_each primed_basic) (auto intro!: keeps_bind keeps_for_each primed_basic split: option.split)

lemma enable_primed: "primed s \<Longrightarrow> enable_subtree_control_for_create h CGROUP_V2_ROOT CGROUP_ROOT cs s = (Ok (), s)"
  by (simp add: enable_subtree_control_for_create_def enable_subtree_control_chain_once_def)

lemma enable_primes:
  "enable_subtree_control_for_create h CGROUP_V2_ROOT CGROUP_ROOT cs s = (Ok (), s') \<Longrightarrow> primed s'"
  by (auto simp: enable_subtree_control_for_create_def enable_subtree_control_chain_once_def result_simps split: if_splits)

lemma created_primed:
  assumes "subtree_create h vm_id run_dir jp fp l s = (Ok (), s')"
  shows "primed s'"
proof -
  let ?leaf = "leaf_path vm_id"
  have leaf: "CGROUP_ROOT @ [vm_id] = ?leaf" by (simp add: leaf_path_def)
  obtain s0 s1 s2 s3 s4 s5 where en: "enable_subtree_control_for_create h CGROUP_V2_ROOT CGROUP_ROOT (required_controllers l) s0 = (Ok (), s1)"
    and rest: "create_dir_all_cg h ?leaf s1 = (Ok (), s2)" "reject_existing_live_pids h ?leaf s2 = (Ok (), s3)"
      "(if cpuset_cpus l = None then inherit_sparse_cpuset_file h CGROUP_ROOT ?leaf ''cpuset.cpus'' else ret ()) s3 = (Ok (), s4)"
      "inherit_sparse_cpuset_file h CGROUP_ROOT ?leaf ''cpuset.mems'' s4 = (Ok (), s5)"
    and fill: "guarded_subtree h ?leaf (fill_subtree h ?leaf run_dir (enrolled_pids jp fp) l) s5 = (Ok (), s')"
    using assms by (auto simp: subtree_create_def create_at_def prepare_leaf_def Let_def bind_eff_eq_Ok leaf)
  have "keeps primed (reject_existing_live_pids h ?leaf)" unfolding reject_existing_live_pids_def by (auto intro!: keeps_bind)
  moreover have "keeps primed (if cpuset_cpus l = None then inherit_sparse_cpuset_file h CGROUP_ROOT ?leaf ''cpuset.cpus'' else ret ())"
    by (simp add: primed_inherit)
  moreover have "fill_subtree h ?leaf run_dir (enrolled_pids jp fp) l s5 = (Ok (), s')"
    using fill by (auto simp: guarded_subtree_def split: prod.splits result.splits)
  ultimately show ?thesis
    using enable_primes [OF en] rest primed_basic(1) [of h ?leaf] primed_inherit primed_fill unfolding keeps_def by (metis snd_conv)
qed

text \<open>C27: The controllers are enabled for the first VM of the process only: once a creation has succeeded, no later one
  writes any \<open>cgroup.subtree_control\<close>, also when its limits require a controller (the CPU set, input and output)
  that the first VM did not.\<close>
theorem controllers_enabled_for_first_vm:
  assumes first: "subtree_create h vm1 run1 jp1 fp1 l1 s = (Ok (), s1)"
    and second: "subtree_create h vm2 run2 jp2 fp2 l2 s1 = (r, s2)" and name: "vm2 \<noteq> ''cgroup.subtree_control''"
  shows "\<exists>es. cg_trace s2 = cg_trace s1 @ es \<and> (\<forall>e \<in> set es. \<not> writes_to control_file e)"
proof -
  let ?leaf = "leaf_path vm2"
  let ?S = "\<lambda>s. primed s \<and> spares control_file (cg_trace s1) s"
  have leaf: "CGROUP_ROOT @ [vm2] = ?leaf" and plain: "\<not> control_file ?leaf"
    using name by (simp_all add: leaf_path_def control_file_def)
  have both: "keeps ?S m" if "keeps primed m" "keeps (spares control_file (cg_trace s1)) m" for m :: "'x cg"
    using that by (simp add: keeps_def)
  have files: "\<not> control_file (d @ [f])" if "f \<noteq> ''cgroup.subtree_control''" for d f using that by (simp add: control_file_def)
  have en: "keeps ?S (enable_subtree_control_for_create h CGROUP_V2_ROOT CGROUP_ROOT (required_controllers l2))"
    by (simp add: keeps_def enable_primed)
  have dirs: "keeps ?S (create_dir_all_cg h p)" for p by (intro both primed_basic spares_basic)
  have "keeps primed (reject_existing_live_pids h ?leaf)" unfolding reject_existing_live_pids_def by (auto intro!: keeps_bind)
  then have rj: "keeps ?S (reject_existing_live_pids h ?leaf)" by (intro both spares_reject)
  have ih: "keeps ?S (inherit_sparse_cpuset_file h CGROUP_ROOT ?leaf f)" if "f \<noteq> ''cgroup.subtree_control''" for f
    by (intro both primed_inherit spares_inherit files that)
  have "keeps ?S (prepare_leaf h CGROUP_V2_ROOT CGROUP_ROOT ?leaf l2)"
    unfolding prepare_leaf_def by (auto intro!: keeps_bind dirs en rj ih)
  moreover have fill: "keeps (spares control_file (cg_trace s1)) (fill_subtree h ?leaf run2 (enrolled_pids jp2 fp2) l2)"
    unfolding fill_subtree_def
    by (intro keeps_bind spares_apply keeps_for_each spares_write files)
      (auto intro!: keeps_for_each spares_oom spares_write files split: option.split)
  obtain q s3 where p: "prepare_leaf h CGROUP_V2_ROOT CGROUP_ROOT ?leaf l2 s1 = (q, s3)" by fastforce
  have "?S s1" using created_primed [OF first] by simp
  ultimately have s3: "spares control_file (cg_trace s1) s3" using p unfolding keeps_def by (metis snd_conv)
  have "spares control_file (cg_trace s1) s2"
  proof (cases q)
    case (Ok u)
    obtain q2 s4 where f: "fill_subtree h ?leaf run2 (enrolled_pids jp2 fp2) l2 s3 = (q2, s4)" by fastforce
    have "spares control_file (cg_trace s1) s4" using keepsD [OF fill s3] f by simp
    moreover have "s2 = (case q2 of Ok _ \<Rightarrow> s4 | Err _ \<Rightarrow> drop_subtree h ?leaf s4)"
      using second p Ok f by (auto simp: subtree_create_def create_at_def Let_def leaf guarded_subtree_def split: result.splits)
    ultimately show ?thesis by (cases q2) (auto intro!: spares_drop plain files)
  next
    case (Err e)
    with second p s3 show ?thesis by (simp add: subtree_create_def create_at_def Let_def leaf)
  qed
  then show ?thesis by (rule spares_grows)
qed

subsection \<open>How long a drop takes\<close>

definition cg_horizon :: "cg_state \<Rightarrow> nat" where
  "cg_horizon s = cg_now s + sum_list (cg_delays s)"

lemma read_clock_horizon:
  "read_clock s = (t, s') \<Longrightarrow> cg_horizon s' = cg_horizon s \<and> sum_list (cg_delays s') \<le> sum_list (cg_delays s) \<and> t = cg_now s'"
  by (auto simp: read_clock_def cg_horizon_def split: list.splits)

lemma horizon_log [simp]: "cg_horizon (log_event e s) = cg_horizon s" "cg_delays (log_event e s) = cg_delays s"
  "cg_now (log_event e s) = cg_now s"
  by (simp_all add: cg_horizon_def log_event_def)

lemma drain_time:
  "drain_loop h leaf started s = (r, s') \<Longrightarrow> sum_list (cg_delays s) \<le> D \<Longrightarrow> cg_horizon s \<le> started + 5020 + D \<Longrightarrow>
   cg_horizon s' \<le> started + 5020 + D"
proof (induction h leaf started s rule: drain_loop.induct)
  case (1 h leaf started s)
  obtain q s1 where procs: "cgroup_procs h leaf s = (q, s1)" by fastforce
  obtain now s2 where clk: "read_clock s1 = (now, s2)" by fastforce
  have h1: "cg_horizon s1 = cg_horizon s" "cg_delays s1 = cg_delays s"
    using cgroup_procs_now [OF procs] by (simp_all add: cg_horizon_def)
  note h2 = read_clock_horizon [OF clk]
  show ?case
  proof (cases "\<exists>t. q = Ok t \<and> trim t \<noteq> [] \<and> \<not> CGROUP_KILL_DRAIN_TIMEOUT \<le> now - started")
    case True
    then obtain t where t: "q = Ok t" "trim t \<noteq> []" "\<not> CGROUP_KILL_DRAIN_TIMEOUT \<le> now - started" by blast
    let ?s3 = "sleep_cg CGROUP_KILL_DRAIN_POLL s2"
    have run: "drain_loop h leaf started ?s3 = (r, s')"
      using "1.prems"(1) procs clk t by (simp add: drain_loop.simps [of h leaf started s])
    have d3: "cg_delays ?s3 = cg_delays s2" "cg_horizon ?s3 = cg_now s2 + 20 + sum_list (cg_delays s2)"
      by (simp_all add: sleep_cg_def cg_horizon_def log_event_def CGROUP_KILL_DRAIN_POLL_def)
    have "cg_now s2 < started + 5000" using t(3) h2 by (simp add: CGROUP_KILL_DRAIN_TIMEOUT_def)
    with d3 h1 h2 "1.prems"(2) have "cg_horizon ?s3 \<le> started + 5020 + D" "sum_list (cg_delays ?s3) \<le> D" by auto
    with "1.IH" [OF procs [symmetric] t(1,2) clk [symmetric] t(3) run] show ?thesis by blast
  next
    case False
    with "1.prems" procs clk h1 h2 show ?thesis
      by (cases q) (auto simp: drain_loop.simps [of h leaf started s] split: if_splits)
  qed
qed

lemma rmdir_time:
  "rmdir_loop h leaf started s = (r, s') \<Longrightarrow> sum_list (cg_delays s) \<le> D \<Longrightarrow> cg_horizon s \<le> started + 2020 + D \<Longrightarrow>
   cg_horizon s' \<le> started + 2020 + D"
proof (induction h leaf started s rule: rmdir_loop.induct)
  case (1 h leaf started s)
  let ?s1 = "log_event (Rmdir leaf) s"
  obtain now s2 where clk: "read_clock ?s1 = (now, s2)" by fastforce
  note h2 = read_clock_horizon [OF clk]
  show ?case
  proof (cases "\<exists>e. host_rmdir h (cg_trace s) leaf = Err e \<and> e \<noteq> IoNotFound \<and> is_transient_cgroup_rmdir_error e \<and>
      \<not> CGROUP_RMDIR_DRAIN_TIMEOUT \<le> now - started")
    case True
    then obtain e where e: "host_rmdir h (cg_trace s) leaf = Err e" "e \<noteq> IoNotFound" "is_transient_cgroup_rmdir_error e"
      "\<not> CGROUP_RMDIR_DRAIN_TIMEOUT \<le> now - started" by blast
    let ?s3 = "sleep_cg CGROUP_RMDIR_DRAIN_POLL s2"
    have run: "rmdir_loop h leaf started ?s3 = (r, s')"
      using "1.prems"(1) clk e by (simp add: rmdir_loop.simps [of h leaf started s] Let_def)
    have d3: "cg_delays ?s3 = cg_delays s2" "cg_horizon ?s3 = cg_now s2 + 20 + sum_list (cg_delays s2)"
      by (simp_all add: sleep_cg_def cg_horizon_def log_event_def CGROUP_RMDIR_DRAIN_POLL_def)
    have "cg_now s2 < started + 2000" using e(4) h2 by (simp add: CGROUP_RMDIR_DRAIN_TIMEOUT_def)
    with d3 h2 "1.prems"(2) have "cg_horizon ?s3 \<le> started + 2020 + D" "sum_list (cg_delays ?s3) \<le> D" by auto
    with "1.IH" [OF refl e(1,2,3) clk [symmetric] e(4) run] show ?thesis by blast
  next
    case False
    with "1.prems" clk h2 show ?thesis
      by (cases "host_rmdir h (cg_trace s) leaf") (auto simp: rmdir_loop.simps [of h leaf started s] Let_def split: if_splits)
  qed
qed

text \<open>Dropping a subtree is bounded: killing and removing the leaf takes at most 7.04 seconds, apart from the delays before
  the clock is read, whatever the kernel answers.\<close>
theorem drop_subtree_bounded:
  "cg_now (drop_subtree h leaf s) \<le> cg_now s + sum_list (cg_delays s) + 7040"
proof -
  obtain rk s1 where k: "kill_cgroup h leaf s = (rk, s1)" by fastforce
  have s1: "cg_horizon s1 \<le> cg_horizon s + 5020"
  proof -
    let ?s0 = "log_event (Exists (leaf @ [''cgroup.kill''])) s"
    obtain q sw where wr: "write_cgroup_file h (leaf @ [''cgroup.kill'']) (cg_line ''1'') ?s0 = (q, sw)" by fastforce
    have hw: "cg_horizon sw = cg_horizon s" using wr by (auto simp: write_cgroup_file_def split: result.splits)
    obtain st s2 where clk: "read_clock sw = (st, s2)" by fastforce
    obtain rd s3 where dr: "drain_loop h leaf st s2 = (rd, s3)" by fastforce
    note hc = read_clock_horizon [OF clk]
    have "cg_horizon s3 \<le> st + 5020 + sum_list (cg_delays s2)"
      by (rule drain_time [OF dr]) (use hc in \<open>auto simp: cg_horizon_def\<close>)
    then have "cg_horizon s3 \<le> cg_horizon s + 5020" using hc hw by (simp add: cg_horizon_def)
    with k wr clk dr hw show ?thesis
      by (cases q) (auto simp: kill_cgroup_def Let_def bind_eff_def exists_cg_def wait_for_empty_cgroup_def split: if_splits)
  qed
  obtain st s2 where clk: "read_clock s1 = (st, s2)" by fastforce
  obtain rr s3 where rm: "rmdir_loop h leaf st s2 = (rr, s3)" by fastforce
  note hc = read_clock_horizon [OF clk]
  have "cg_horizon s3 \<le> st + 2020 + sum_list (cg_delays s2)"
    by (rule rmdir_time [OF rm]) (use hc in \<open>auto simp: cg_horizon_def\<close>)
  with hc s1 have "cg_horizon s3 \<le> cg_horizon s + 7040" by (simp add: cg_horizon_def)
  moreover have "drop_subtree h leaf s = s3" by (simp add: drop_subtree_def k remove_empty_cgroup_leaf_def clk rm)
  ultimately show ?thesis by (simp add: cg_horizon_def)
qed

subsection \<open>Orphans\<close>

text \<open>The cleanup of an orphaned leaf writes nothing and removes the directory only after its process list was read and
  found blank; a list with processes is reported and the directory is left.\<close>
theorem orphan_cleanup_spares_processes:
  assumes "cleanup_orphan_subtree h vm_id s = (r, s')"
  shows "\<exists>es. cg_trace s' = cg_trace s @ es \<and> (\<forall>e \<in> set es. writes_to (\<lambda>_. True) e \<longrightarrow> e = Rmdir (leaf_path vm_id)) \<and>
    (Rmdir (leaf_path vm_id) \<in> set es \<longrightarrow>
       (\<exists>t. host_read h (cg_trace s @ [Exists (leaf_path vm_id)]) (procs_file (leaf_path vm_id)) = Ok t \<and> trim t = [])) \<and>
    (\<forall>t. host_exists h (cg_trace s) (leaf_path vm_id) \<and>
       host_read h (cg_trace s @ [Exists (leaf_path vm_id)]) (procs_file (leaf_path vm_id)) = Ok t \<and> trim t \<noteq> [] \<longrightarrow>
       r = Err (LivePids (leaf_path vm_id) (trim t)))"
proof -
  let ?leaf = "leaf_path vm_id"
  let ?s1 = "log_event (Exists ?leaf) s" and ?p = "procs_file ?leaf"
  let ?s2 = "log_event (ReadText ?p) ?s1"
  have t1: "cg_trace ?s1 = cg_trace s @ [Exists ?leaf]" and t2: "cg_trace ?s2 = cg_trace s @ [Exists ?leaf, ReadText ?p]"
    by (simp_all add: log_event_def)
  let ?P = "\<lambda>e. writes_to (\<lambda>_. True) e \<longrightarrow> e = Rmdir ?leaf"
  show ?thesis
  proof (cases "host_exists h (cg_trace s) ?leaf")
    case False
    with assms have "s' = ?s1" by (simp add: cleanup_orphan_subtree_def Let_def bind_eff_def exists_cg_def)
    with False t1 show ?thesis by auto
  next
    case True
    note run = assms [unfolded cleanup_orphan_subtree_def Let_def bind_eff_def exists_cg_def read_cg_def, folded procs_file_def, simplified True t1, simplified]
    show ?thesis
    proof (cases "host_read h (cg_trace s @ [Exists ?leaf]) ?p")
      case (Err e)
      with run t1 have "s' = ?s2" by simp
      with Err t2 show ?thesis by auto
    next
      case (Ok t)
      show ?thesis
      proof (cases "trim t = []")
        case False
        with run Ok t1 have "s' = ?s2" "r = Err (LivePids ?leaf (trim t))" by simp_all
        with Ok t2 False show ?thesis by auto
      next
        case blank: True
        with run Ok t1 have rm: "remove_empty_cgroup_leaf h ?leaf ?s2 = (r, s')" by simp
        have "keeps (grown ?P (cg_trace ?s2)) (remove_empty_cgroup_leaf h ?leaf)" by (rule grown_remove) simp_all
        from keepsD [OF this, of ?s2] rm have "grown ?P (cg_trace ?s2) s'" by simp
        then obtain es where "cg_trace s' = cg_trace s @ [Exists ?leaf, ReadText ?p] @ es" "list_all ?P es"
          by (auto simp: grown_def t2)
        with Ok blank show ?thesis by (intro exI [where x = "[Exists ?leaf, ReadText ?p] @ es"]) (auto simp: list_all_iff)
      qed
    qed
  qed
qed

subsection \<open>A host\<close>

text \<open>Every access succeeds and the files are as the argument says.\<close>
definition sample_cg_host :: "(fpath \<Rightarrow> string option) \<Rightarrow> cg_host" where
  "sample_cg_host files =
     \<lparr>host_mkdir = (\<lambda>_ _. Ok ()), host_exists = (\<lambda>_ p. files p \<noteq> None),
      host_read = (\<lambda>_ p. case files p of None \<Rightarrow> Err IoNotFound | Some t \<Rightarrow> Ok t),
      host_write = (\<lambda>_ _ _. Ok ()), host_rmdir = (\<lambda>_ _. Ok ())\<rparr>"

definition sample_cg_state :: cg_state where
  "sample_cg_state = \<lparr>cg_trace = [], cg_now = 0, cg_delays = [], primed = False, probe_result = None\<rparr>"

definition controllers_only :: "fpath \<Rightarrow> string option" where
  "controllers_only = [CGROUP_V2_ROOT @ [''cgroup.controllers''] \<mapsto> ''cpuset cpu io memory pids'']"

definition sample_limits :: cg_limits where
  "sample_limits =
     \<lparr>cpu_limit = Some MaxCpu, memory_max = None, memory_swap_max = Some 0, pids_max = Some 8, cpuset_cpus = None,
      io_max_rows = [], io_weight = None, oom_score_adj = None\<rparr>"

lemma sample_creates: "fst (subtree_create (sample_cg_host controllers_only) ''a'' [''r''] 7 7 sample_limits sample_cg_state) = Ok ()"
  by code_simp


theorem controllers_enabled_for_first_vm_witness:
  "\<exists>s1 s2 r es. subtree_create (sample_cg_host controllers_only) ''a'' [''r''] 7 7 sample_limits sample_cg_state = (Ok (), s1) \<and>
     subtree_create (sample_cg_host controllers_only) ''b'' [''q''] 8 8 (sample_limits\<lparr>cpuset_cpus := Some ''0-1''\<rparr>) s1 = (r, s2) \<and>
     CPUSET_CONTROLLER \<in> set (required_controllers (sample_limits\<lparr>cpuset_cpus := Some ''0-1''\<rparr>)) \<and>
     CPUSET_CONTROLLER \<notin> set (required_controllers sample_limits) \<and>
     cg_trace s2 = cg_trace s1 @ es \<and> (\<forall>e \<in> set es. \<not> writes_to control_file e)"
proof -
  obtain s1 where 1: "subtree_create (sample_cg_host controllers_only) ''a'' [''r''] 7 7 sample_limits sample_cg_state = (Ok (), s1)"
    using sample_creates by (metis prod.collapse)
  obtain r s2 where 2: "subtree_create (sample_cg_host controllers_only) ''b'' [''q''] 8 8 (sample_limits\<lparr>cpuset_cpus := Some ''0-1''\<rparr>) s1 = (r, s2)"
    by fastforce
  have "''b'' \<noteq> ''cgroup.subtree_control''" by simp
  from controllers_enabled_for_first_vm [OF 1 2 this] 1 2 show ?thesis
    by (auto simp: required_controllers_def sample_limits_def CPUSET_CONTROLLER_def IO_CONTROLLER_def BASE_CONTROLLERS_def)
qed

definition occupied :: "fpath \<Rightarrow> string option" where
  "occupied = controllers_only(leaf_path ''a'' \<mapsto> [], procs_file (leaf_path ''a'') \<mapsto> ''42'')"

lemma occupied_refused:
  "fst (subtree_create (sample_cg_host occupied) ''a'' [''r''] 7 7 sample_limits sample_cg_state) = Err (LivePids (leaf_path ''a'') ''42'')"
  by code_simp

theorem live_leaf_untouched_witness:
  "\<exists>s' es. subtree_create (sample_cg_host occupied) ''a'' [''r''] 7 7 sample_limits sample_cg_state = (Err (LivePids (leaf_path ''a'') ''42''), s') \<and>
     cg_trace s' = es \<and> (\<forall>e \<in> set es. \<not> writes_to (under (leaf_path ''a'')) e)"
proof -
  obtain s' where 1: "subtree_create (sample_cg_host occupied) ''a'' [''r''] 7 7 sample_limits sample_cg_state = (Err (LivePids (leaf_path ''a'') ''42''), s')"
    using occupied_refused by (metis prod.collapse)
  have "''a'' \<noteq> ''cgroup.subtree_control''" by simp
  from live_leaf_untouched [OF 1 this] 1 show ?thesis by (auto simp: sample_cg_state_def)
qed

theorem orphan_cleanup_spares_processes_witness:
  "\<exists>s'. cleanup_orphan_subtree (sample_cg_host occupied) ''a'' sample_cg_state = (Err (LivePids (leaf_path ''a'') ''42''), s') \<and>
     (\<forall>e \<in> set (cg_trace s'). writes_to (\<lambda>_. True) e \<longrightarrow> e = Rmdir (leaf_path ''a''))"
proof -
  obtain r s' where 1: "cleanup_orphan_subtree (sample_cg_host occupied) ''a'' sample_cg_state = (r, s')" by fastforce
  have "host_exists (sample_cg_host occupied) [] (leaf_path ''a'')"
    "host_read (sample_cg_host occupied) [Exists (leaf_path ''a'')] (procs_file (leaf_path ''a'')) = Ok ''42''" "trim ''42'' = ''42''"
    by code_simp+
  with orphan_cleanup_spares_processes [OF 1] 1 show ?thesis by (auto simp: sample_cg_state_def)
qed

end
