(* ===== verification/Vm_Layout.thy ===== *)
theory Vm_Layout
  imports Jail_Plan
begin

text \<open>
  The layout of a run directory (\<open>m80-firecracker/src/layout.rs\<close>, \<open>ready_listener_path\<close> of
  \<open>launch/ready.rs\<close>): where the files and sockets of one VM are on the host and inside its jail. Paths are
  component lists; the length of a socket path is a property of its text, so the paths of the sockets are
  also built as texts, the way \<open>PathBuf::push\<close> builds them, and shown to denote the same paths.
\<close>

subsection \<open>Names\<close>

definition SUN_PATH_BUDGET :: nat where "SUN_PATH_BUDGET = 107"
definition FIRECRACKER_API_SOCKET :: string where "FIRECRACKER_API_SOCKET = ''firecracker.sock''"
definition VSOCK_SOCKET :: string where "VSOCK_SOCKET = ''vsock.sock''"
definition ROOTFS_OVERLAY_IMAGE :: string where "ROOTFS_OVERLAY_IMAGE = ''rootfs.overlay.ext4''"
definition SCRATCH_IMAGE :: string where "SCRATCH_IMAGE = ''scratch.ext4''"
definition PREALLOCATED_DRIVE_SLOT_PREFIX :: string where "PREALLOCATED_DRIVE_SLOT_PREFIX = ''hotplug-slot-''"
definition PMEM_BACKING_DIR :: string where "PMEM_BACKING_DIR = ''pmem''"
definition PMEM_JAIL_PREFIX :: string where "PMEM_JAIL_PREFIX = ''pmem.''"
definition CONSOLE_LOG :: string where "CONSOLE_LOG = ''console.log''"
definition FIRECRACKER_LOG :: string where "FIRECRACKER_LOG = ''firecracker.log''"
definition FIRECRACKER_METRICS :: string where "FIRECRACKER_METRICS = ''firecracker-metrics.jsonl''"
definition BOOT_IDENTITY_FILE :: string where "BOOT_IDENTITY_FILE = ''boot-identity.json''"
definition READY_PORT_DEFAULT :: nat where "READY_PORT_DEFAULT = 52525"

subsection \<open>Paths of a VM\<close>

definition run_dir_path :: "path_buf \<Rightarrow> string \<Rightarrow> path_buf" where
  "run_dir_path run_root vm_id = path_push run_root (path_components vm_id)"

definition firecracker_api_socket_path :: "path_buf \<Rightarrow> path_buf \<Rightarrow> path_buf option" where
  "firecracker_api_socket_path run fc = map_option (\<lambda>r. path_push r [Normal FIRECRACKER_API_SOCKET]) (jail_root_path run fc)"

definition vsock_socket_path :: "path_buf \<Rightarrow> path_buf \<Rightarrow> path_buf option" where
  "vsock_socket_path run fc = map_option (\<lambda>r. path_push r [Normal VSOCK_SOCKET]) (jail_root_path run fc)"

definition rootfs_overlay_path :: "path_buf \<Rightarrow> path_buf" where
  "rootfs_overlay_path run = path_push run [Normal ROOTFS_OVERLAY_IMAGE]"

definition scratch_image_path :: "path_buf \<Rightarrow> path_buf" where
  "scratch_image_path run = path_push run [Normal SCRATCH_IMAGE]"

definition preallocated_drive_slot_filename :: "u8 \<Rightarrow> string" where
  "preallocated_drive_slot_filename slot = PREALLOCATED_DRIVE_SLOT_PREFIX @ nat_to_string (unat slot) @ ''.raw''"

definition preallocated_drive_slot_path :: "path_buf \<Rightarrow> u8 \<Rightarrow> path_buf" where
  "preallocated_drive_slot_path run slot = path_push run [Normal (preallocated_drive_slot_filename slot)]"

definition preallocated_drive_slot_jail_path :: "u8 \<Rightarrow> path_buf" where
  "preallocated_drive_slot_jail_path slot = path_components (''/'' @ preallocated_drive_slot_filename slot)"

definition pmem_layer_backing_dir :: "path_buf \<Rightarrow> path_buf" where
  "pmem_layer_backing_dir run = path_push run [Normal PMEM_BACKING_DIR]"

definition pmem_layer_backing_path :: "path_buf \<Rightarrow> nat \<Rightarrow> path_buf" where
  "pmem_layer_backing_path run slot = path_push (pmem_layer_backing_dir run) [Normal (nat_to_string slot @ ''.img'')]"

definition pmem_layer_jail_basename :: "nat \<Rightarrow> string" where
  "pmem_layer_jail_basename slot = PMEM_JAIL_PREFIX @ nat_to_string slot @ ''.img''"

definition pmem_layer_jail_bind_dest :: "nat \<Rightarrow> path_buf" where
  "pmem_layer_jail_bind_dest slot = path_components (pmem_layer_jail_basename slot)"

definition pmem_layer_jail_path :: "nat \<Rightarrow> path_buf" where
  "pmem_layer_jail_path slot = path_components (''/'' @ pmem_layer_jail_basename slot)"

definition console_log_path :: "path_buf \<Rightarrow> path_buf" where
  "console_log_path run = path_push run [Normal CONSOLE_LOG]"

definition fc_log_path :: "path_buf \<Rightarrow> path_buf \<Rightarrow> path_buf option" where
  "fc_log_path run fc = map_option (\<lambda>r. path_push r [Normal FIRECRACKER_LOG]) (jail_root_path run fc)"

definition fc_log_jail_path :: path_buf where
  "fc_log_jail_path = path_components (''/'' @ FIRECRACKER_LOG)"

definition fc_metrics_path_from_jail_root :: "path_buf \<Rightarrow> path_buf" where
  "fc_metrics_path_from_jail_root jail_root = path_push jail_root [Normal FIRECRACKER_METRICS]"

definition fc_metrics_path :: "path_buf \<Rightarrow> path_buf \<Rightarrow> path_buf option" where
  "fc_metrics_path run fc = map_option fc_metrics_path_from_jail_root (jail_root_path run fc)"

definition fc_metrics_jail_path :: path_buf where
  "fc_metrics_jail_path = path_components (''/'' @ FIRECRACKER_METRICS)"

definition boot_identity_path :: "path_buf \<Rightarrow> path_buf" where
  "boot_identity_path run = path_push run [Normal BOOT_IDENTITY_FILE]"

subsection \<open>Socket paths as texts\<close>

text \<open>The length is computed from the parts, before anything exists.\<close>
definition socket_path_len :: "string \<Rightarrow> string \<Rightarrow> string \<Rightarrow> nat" where
  "socket_path_len run_root vm_id fc_basename =
     length run_root + 1 + length vm_id + 1 + length fc_basename + 1 + length vm_id + length ''/root/'' +
     length FIRECRACKER_API_SOCKET"

text \<open>\<open>PathBuf::push\<close> on the text of a path.\<close>
definition join_text :: "string \<Rightarrow> string \<Rightarrow> string" where
  "join_text base p =
     (if is_absolute p then p
      else if base = [] \<or> last base = CHR ''/'' then base @ p
      else base @ ''/'' @ p)"

definition jail_root_text :: "string \<Rightarrow> string \<Rightarrow> string \<Rightarrow> string" where
  "jail_root_text run_root vm_id fc_basename =
     join_text (join_text (join_text (join_text run_root vm_id) fc_basename) vm_id) ''root''"

definition ready_listener_path :: "string \<Rightarrow> string" where
  "ready_listener_path vsock_uds = vsock_uds @ ''_'' @ nat_to_string READY_PORT_DEFAULT"

text \<open>A name that is one component of a path.\<close>
definition plain_name :: "string \<Rightarrow> bool" where
  "plain_name n \<longleftrightarrow> n \<noteq> [] \<and> CHR ''/'' \<notin> set n \<and> n \<noteq> ''.'' \<and> n \<noteq> ''..''"

subsection \<open>Texts and components\<close>

lemma split_on_sep: "split_on c (a @ c # b) = split_on c a @ split_on c b"
  by (induction a) (auto split: list.splits)

lemma plain_relative: "plain_name n \<Longrightarrow> \<not> is_absolute n"
  by (cases n) (auto simp: plain_name_def is_absolute_def starts_with_def)

lemma plain_components [simp]: "plain_name n \<Longrightarrow> path_components n = [Normal n]"
  using plain_relative [of n] by (simp add: path_components_def plain_name_def split_on_none)

lemma rooted_components: "plain_name n \<Longrightarrow> path_components (''/'' @ n) = [RootDir, Normal n]"
  by (simp add: path_components_def is_absolute_def starts_with_def plain_name_def split_on_none)

lemma hd_split_on: "split_on c (x # xs) = p # ps \<Longrightarrow> x \<noteq> c \<Longrightarrow> p = x # hd (split_on c xs)"
  by (auto split: list.splits)

text \<open>Pushing a name appends one component, whatever the base is.\<close>
lemma join_text_components:
  assumes "plain_name n" "base \<noteq> []"
  shows "path_components (join_text base n) = path_components base @ [Normal n]"
proof -
  have n: "split_on CHR ''/'' n = [n]" "n \<noteq> []" "n \<noteq> ''.''" "n \<noteq> ''..''" and rel: "\<not> is_absolute n"
    using assms(1) plain_relative by (auto simp: plain_name_def split_on_none)
  have abs: "is_absolute (base @ s) = is_absolute base" for s
    using assms(2) by (cases base) (auto simp: is_absolute_def starts_with_def)
  show ?thesis
  proof (cases "last base = CHR ''/''")
    case True
    then obtain b where b: "base = b @ ''/''" using assms(2) by (metis append_butlast_last_id)
    have "hd (split_on CHR ''/'' (b @ CHR ''/'' # n)) = hd (split_on CHR ''/'' (b @ ''/''))"
      by (simp add: split_on_sep)
    with True n rel abs [of n] b show ?thesis
      by (simp add: join_text_def path_components_def split_on_sep)
  next
    case False
    have "hd (split_on CHR ''/'' (base @ CHR ''/'' # n)) = hd (split_on CHR ''/'' base)"
      by (simp add: split_on_sep)
    with False n rel abs [of "''/'' @ n"] assms(2) show ?thesis
      by (simp add: join_text_def path_components_def split_on_sep)
  qed
qed

lemma join_text_nonempty [simp]: "plain_name n \<Longrightarrow> join_text base n \<noteq> []"
  by (auto simp: join_text_def plain_name_def)

lemma join_text_length: "plain_name n \<Longrightarrow> length (join_text base n) \<le> length base + 1 + length n"
  by (simp add: join_text_def plain_relative)

lemma join_text_length_exact:
  "plain_name n \<Longrightarrow> base \<noteq> [] \<Longrightarrow> last base \<noteq> CHR ''/'' \<Longrightarrow> length (join_text base n) = length base + 1 + length n"
  by (simp add: join_text_def plain_relative)

lemma join_text_last: "plain_name n \<Longrightarrow> last (join_text base n) \<noteq> CHR ''/''"
  using plain_relative [of n] by (cases n rule: rev_cases) (auto simp: join_text_def plain_name_def)

lemma plain_layout_names [simp]:
  "plain_name ''root''" "plain_name FIRECRACKER_API_SOCKET" "plain_name VSOCK_SOCKET"
  by (simp_all add: plain_name_def FIRECRACKER_API_SOCKET_def VSOCK_SOCKET_def)

lemmas join_text_facts = join_text_components join_text_length_exact join_text_last

text \<open>The text of the jail root denotes the path that \<open>jail_root_path\<close> computes.\<close>
lemma jail_root_text_denotes:
  assumes "plain_name vm_id" "plain_name f" "run_root \<noteq> []" "file_name fc = Some f"
  shows "jail_root_path (run_dir_path (path_components run_root) vm_id) fc =
    Some (path_components (jail_root_text run_root vm_id f))"
proof -
  have run: "run_dir_path (path_components run_root) vm_id = path_components run_root @ [Normal vm_id]"
    using assms(1) by (simp add: run_dir_path_def path_push_def)
  have "file_name (path_components run_root @ [Normal vm_id]) = Some vm_id"
    by (simp add: file_name_def)
  with assms show ?thesis
    by (simp add: run jail_root_path_def jail_root_text_def join_text_components path_push_def)
qed

lemma jail_root_text_length:
  assumes "plain_name vm_id" "plain_name f"
  shows "length (jail_root_text run_root vm_id f) + 1 + length FIRECRACKER_API_SOCKET \<le> socket_path_len run_root vm_id f"
proof -
  have "length (jail_root_text run_root vm_id f) = length (join_text run_root vm_id) + 1 + length f + 1 + length vm_id + 5"
    using assms by (simp add: jail_root_text_def join_text_length_exact join_text_last)
  with join_text_length [OF assms(1), of run_root] show ?thesis
    by (simp add: socket_path_len_def FIRECRACKER_API_SOCKET_def)
qed

lemma ready_suffix: "length (nat_to_string READY_PORT_DEFAULT) \<le> 5"
  using length_nat_to_string [of READY_PORT_DEFAULT 4] by (simp add: READY_PORT_DEFAULT_def)

text \<open>When the computed length is within the budget, so are the texts of all three sockets of the VM, and they
  denote the paths the layout names.\<close>
lemma socket_texts_fit:
  assumes "plain_name vm_id" "plain_name f" "run_root \<noteq> []" "file_name fc = Some f"
    and "socket_path_len run_root vm_id f \<le> SUN_PATH_BUDGET"
  shows "\<exists>api vsock. firecracker_api_socket_path (run_dir_path (path_components run_root) vm_id) fc = Some (path_components api) \<and>
    vsock_socket_path (run_dir_path (path_components run_root) vm_id) fc = Some (path_components vsock) \<and>
    length api \<le> SUN_PATH_BUDGET \<and> length vsock \<le> SUN_PATH_BUDGET \<and> length (ready_listener_path vsock) \<le> SUN_PATH_BUDGET"
proof -
  let ?root = "jail_root_text run_root vm_id f"
  have ne: "?root \<noteq> []" by (simp add: jail_root_text_def)
  have len: "length ?root + 17 \<le> 107"
    using jail_root_text_length [OF assms(1,2), of run_root] assms(5)
    by (simp add: FIRECRACKER_API_SOCKET_def SUN_PATH_BUDGET_def)
  have "length (join_text ?root FIRECRACKER_API_SOCKET) \<le> 107"
    using join_text_length [OF plain_layout_names(2), of ?root] len by (simp add: FIRECRACKER_API_SOCKET_def)
  moreover have vs: "length (join_text ?root VSOCK_SOCKET) \<le> length ?root + 11"
    using join_text_length [OF plain_layout_names(3), of ?root] by (simp add: VSOCK_SOCKET_def)
  moreover have "length (ready_listener_path (join_text ?root VSOCK_SOCKET)) \<le> 107"
    using vs len ready_suffix by (simp add: ready_listener_path_def)
  moreover have "firecracker_api_socket_path (run_dir_path (path_components run_root) vm_id) fc =
      Some (path_components (join_text ?root FIRECRACKER_API_SOCKET))"
    using ne by (simp add: firecracker_api_socket_path_def jail_root_text_denotes [OF assms(1-4)] join_text_components path_push_def)
  moreover have "vsock_socket_path (run_dir_path (path_components run_root) vm_id) fc =
      Some (path_components (join_text ?root VSOCK_SOCKET))"
    using ne by (simp add: vsock_socket_path_def jail_root_text_denotes [OF assms(1-4)] join_text_components path_push_def)
  ultimately show ?thesis using len unfolding SUN_PATH_BUDGET_def by (intro exI conjI) (assumption | simp)+
qed

subsection \<open>Names inside the jail\<close>

lemma slash_not_in_number: "CHR ''/'' \<notin> set (nat_to_string n)"
  by (rule digit_not_in) (simp add: is_ascii_digit_def)

lemma plain_slot_filename [simp]: "plain_name (preallocated_drive_slot_filename slot)"
  by (simp add: plain_name_def preallocated_drive_slot_filename_def PREALLOCATED_DRIVE_SLOT_PREFIX_def slash_not_in_number)

lemma plain_pmem_basename [simp]: "plain_name (pmem_layer_jail_basename slot)"
  by (simp add: plain_name_def pmem_layer_jail_basename_def PMEM_JAIL_PREFIX_def slash_not_in_number)

lemma slot_filename_inj: "preallocated_drive_slot_filename a = preallocated_drive_slot_filename b \<longleftrightarrow> a = b"
  by (simp add: preallocated_drive_slot_filename_def nat_to_string_inj word_unat_eq_iff)

lemma pmem_basename_inj: "pmem_layer_jail_basename a = pmem_layer_jail_basename b \<longleftrightarrow> a = b"
  by (simp add: pmem_layer_jail_basename_def nat_to_string_inj)

lemma jail_paths [simp]:
  "preallocated_drive_slot_jail_path slot = [RootDir, Normal (preallocated_drive_slot_filename slot)]"
  "pmem_layer_jail_path n = [RootDir, Normal (pmem_layer_jail_basename n)]"
  "pmem_layer_jail_bind_dest n = [Normal (pmem_layer_jail_basename n)]"
  using rooted_components [OF plain_slot_filename] rooted_components [OF plain_pmem_basename]
  by (simp_all add: preallocated_drive_slot_jail_path_def pmem_layer_jail_path_def pmem_layer_jail_bind_dest_def)

end
