(* ===== verification/Boot_Spec.thy ===== *)
theory Boot_Spec
  imports Vm_Layout Template_Identity Net_Policy
begin

text \<open>
  Declared pmem layers and the BootSpec file (\<open>m80-firecracker/src/pmem.rs\<close>, \<open>boot_spec.rs\<close>, the configuration
  errors of \<open>error.rs\<close>): digests and guest mount points are parsed into validated values, and a BootSpec that
  \<open>serde\<close> has read into its raw structures becomes a checked one. What \<open>serde_yaml\<close> and \<open>serde_json\<close> make of a
  text is the parameter of the two loaders. The theorems say which mount points are accepted, and that a
  loaded BootSpec is well-formed whatever the file says.
\<close>

subsection \<open>Errors (error.rs)\<close>

datatype config_error =
    TomlSyntax string string string
  | MissingField string
  | ConfigInvalidValue string string
  | DigestInvalid string
  | MountPathInvalid string
  | MountPathShadowsReserved string
  | MountPathDuplicated string
  | TooManyLayers nat nat
  | SharedPmemCompressedErofs string u64
  | SharedPmemErofsLayoutProbeInvalid string string
  | PmemImageTooLarge string u64 u64
  | VmIdPathBudgetExceeded string string string nat nat

text \<open>The rendered text (\<open>thiserror\<close>), where the code stores it as the reason of another error.\<close>
fun config_error_text :: "config_error \<Rightarrow> string" where
  "config_error_text (TomlSyntax layer p e) = layer @ '' '' @ p @ '': '' @ e"
| "config_error_text (MissingField f) = ''missing required field `'' @ f @ ''`''"
| "config_error_text (ConfigInvalidValue f r) = ''invalid value for `'' @ f @ ''`: '' @ r"
| "config_error_text (DigestInvalid r) = ''invalid image digest: '' @ r"
| "config_error_text (MountPathInvalid r) = ''invalid guest mount path: '' @ r"
| "config_error_text (MountPathShadowsReserved p) = ''guest mount path '' @ p @ '' shadows a reserved mount point''"
| "config_error_text (MountPathDuplicated p) = ''duplicate pmem mount path '' @ p"
| "config_error_text (TooManyLayers mx got) =
     ''too many pmem layers: got '' @ nat_to_string got @ '', max '' @ nat_to_string mx"
| "config_error_text (SharedPmemCompressedErofs p n) =
     ''shared pmem erofs image '' @ p @ '' contains '' @ nat_to_string (unat n) @
     '' compressed regular files; Shared requires uncompressed erofs payloads''"
| "config_error_text (SharedPmemErofsLayoutProbeInvalid p r) =
     ''could not determine shared pmem erofs layout for '' @ p @ '': '' @ r"
| "config_error_text (PmemImageTooLarge p got mx) =
     ''pmem erofs image '' @ p @ '' is too large for Firecracker virtio-pmem: got '' @ nat_to_string (unat got) @
     '' bytes, max '' @ nat_to_string (unat mx) @ '' bytes''"
| "config_error_text (VmIdPathBudgetExceeded v root f n b) =
     ''vm_id '' @ debug_str v @ '' would produce a '' @ nat_to_string n @ ''-byte AF_UNIX socket path under run_root '' @ root @
     '' (cap '' @ nat_to_string b @ '')''"

text \<open>\<open>FcError::Config(e).to_string()\<close>\<close>
definition fc_config_text :: "config_error \<Rightarrow> string" where
  "fc_config_text e = ''config: '' @ config_error_text e"

definition invalid_value :: "string \<Rightarrow> string \<Rightarrow> ('a, config_error) result" where
  "invalid_value field reason = Err (ConfigInvalidValue field reason)"

subsection \<open>Layers (pmem.rs)\<close>

definition MAX_PMEM_LAYERS :: nat where "MAX_PMEM_LAYERS = 8"

datatype boot_image_digest = ImageDigest string

definition boot_image_digest_parse :: "string \<Rightarrow> (boot_image_digest, config_error) result" where
  "boot_image_digest_parse v =
     (if length v \<noteq> 64 then Err (DigestInvalid ''sha256 digest must be 64 lowercase hex characters'')
      else if \<not> list_all is_lower_hex v then Err (DigestInvalid ''sha256 digest must be lowercase hex'')
      else Ok (ImageDigest v))"

text \<open>The value keeps the text; \<open>PathBuf\<close> compares it by components.\<close>
datatype boot_mount_path = GuestMountPath string

fun mount_text :: "boot_mount_path \<Rightarrow> string" where "mount_text (GuestMountPath s) = s"

definition RESERVED_MOUNTS :: "string list" where
  "RESERVED_MOUNTS = [''/proc'', ''/sys'', ''/dev'', ''/etc'', ''/lower'', ''/upper'', ''/merged'', ''/workspace'', ''/snapshot'']"

definition shadows_reserved_boot_mount :: "string \<Rightarrow> bool" where
  "shadows_reserved_boot_mount path \<longleftrightarrow>
     path_eq path ''/'' \<or> list_ex (\<lambda>reserved. path_eq path reserved \<or> path_starts_with path reserved) RESERVED_MOUNTS"

definition is_layer_char :: "char \<Rightarrow> bool" where
  "is_layer_char c \<longleftrightarrow> is_ascii_alphanumeric c \<or> c \<in> {CHR ''.'', CHR ''_'', CHR ''-''}"

definition boot_mount_path_parse :: "string \<Rightarrow> (boot_mount_path, config_error) result" where
  "boot_mount_path_parse v =
     (if v = [] then Err (MountPathInvalid ''path must not be empty'')
      else if \<not> is_absolute v then Err (MountPathInvalid ''path must be absolute'')
      else if shadows_reserved_boot_mount v then Err (MountPathShadowsReserved v)
      else
        (let raw = split_on (CHR ''/'') v
         in if length raw \<noteq> 4 \<or> raw ! 0 \<noteq> [] \<or> raw ! 1 \<noteq> ''opt'' \<or> raw ! 2 \<noteq> ''m80-layers''
              then Err (MountPathInvalid ''path must match /opt/m80-layers/<name>'')
            else
              (let name = raw ! 3
               in if name = ''.'' \<or> name = ''..''
                    then Err (MountPathInvalid ''path must not contain . or .. components'')
                  else if name = [] \<or> length name > 64
                    then Err (MountPathInvalid ''layer name must be 1..=64 characters'')
                  else if \<not> list_all is_layer_char name
                    then Err (MountPathInvalid ''layer name must contain only [A-Za-z0-9._-]'')
                  else Ok (GuestMountPath v))))"

datatype trust_reason = SameOperator | KubernetesSameNamespace | ResearchSandbox

datatype pmem_sharing = PerVm | Shared trust_reason

record pmem_layer =
  layer_image :: boot_image_digest
  layer_sharing :: pmem_sharing
  layer_mount_at :: boot_mount_path

fun first_duplicate :: "component list set \<Rightarrow> pmem_layer list \<Rightarrow> boot_mount_path option" where
  "first_duplicate seen [] = None"
| "first_duplicate seen (l # ls) =
     (if path_components (mount_text (layer_mount_at l)) \<in> seen then Some (layer_mount_at l)
      else first_duplicate (insert (path_components (mount_text (layer_mount_at l))) seen) ls)"

definition validate_pmem_layers :: "pmem_layer list \<Rightarrow> (unit, config_error) result" where
  "validate_pmem_layers layers =
     (if length layers > MAX_PMEM_LAYERS then Err (TooManyLayers MAX_PMEM_LAYERS (length layers))
      else (case first_duplicate {} layers of
              Some p \<Rightarrow> Err (MountPathDuplicated (mount_text p))
            | None \<Rightarrow> Ok ()))"

subsection \<open>Raw structures (boot_spec.rs)\<close>

datatype raw_network = RawNone | RawOutbound
datatype overlay_clone_mode = CloneAuto | CloneByteCopy | CloneReflink
datatype raw_image_format = RawErofs
datatype raw_sharing_mode = RawPerVm | RawShared
datatype raw_warm_strategy_mode = RawBootFill | RawSnapshotRestore

datatype json_value = JString string | JObject "(string \<times> json_value) list" | JOther

record raw_sandbox =
  raw_vm_id_prefix :: string
  raw_vcpu_count :: u32
  raw_mem_size_mib :: u32
  raw_workspace :: "string option"
  raw_network :: raw_network
  raw_overlay_size_bytes :: u64
  raw_overlay_clone_mode :: overlay_clone_mode
  raw_boot_args :: "string list"

record raw_image =
  raw_digest :: string
  raw_format :: raw_image_format

record raw_sharing =
  raw_mode :: raw_sharing_mode
  raw_trust_reason :: "trust_reason option"
  raw_acknowledged :: "bool option"

record raw_pmem_layer =
  raw_image :: raw_image
  raw_mount_at :: string
  raw_sharing :: raw_sharing

record raw_template_ref =
  raw_store :: string
  raw_fingerprint :: string

record raw_ready_probe =
  raw_program :: string
  raw_args :: "string list"
  raw_timeout_ms :: u64

record raw_warm_strategy =
  raw_strategy_mode :: raw_warm_strategy_mode
  raw_template :: "raw_template_ref option"
  raw_ready_probe :: "raw_ready_probe option"
  raw_hooks :: "json_value list"

record raw_boot_spec =
  raw_schema_version :: u32
  raw_name :: "string option"
  raw_sandbox :: raw_sandbox
  raw_pmem_layers :: "raw_pmem_layer list"
  raw_warm_strategy :: raw_warm_strategy

subsection \<open>Checked structures\<close>

record boot_spec_sandbox =
  vm_id_prefix :: string
  bs_vcpu_count :: u32
  bs_mem_size_mib :: u32
  bs_workspace :: "string option"
  bs_network :: network_policy
  bs_overlay_size_bytes :: u64
  bs_overlay_clone_mode :: overlay_clone_mode
  bs_boot_args :: "string list"

record boot_spec_ready_probe =
  probe_program :: string
  probe_args :: "string list"
  probe_timeout_ms :: u64

datatype boot_spec_warm_strategy =
    BootFill
  | SnapshotRestore string template_fingerprint boot_spec_ready_probe hook_spec_set

record boot_spec =
  schema_version :: u32
  bs_name :: "string option"
  bs_sandbox :: boot_spec_sandbox
  bs_pmem_layers :: "pmem_layer list"
  bs_warm_strategy :: boot_spec_warm_strategy

subsection \<open>Parsing\<close>

definition validate_non_empty :: "string \<Rightarrow> string \<Rightarrow> (unit, config_error) result" where
  "validate_non_empty field v = (if v = [] then invalid_value field ''must not be empty'' else Ok ())"

definition is_m80_owned_kernel_arg :: "string \<Rightarrow> bool" where
  "is_m80_owned_kernel_arg token \<longleftrightarrow>
     list_ex (starts_with token) [''init='', ''m80.workspace='', ''m80.rootfs='', ''rootfstype='']"

fun validate_boot_args :: "string list \<Rightarrow> (unit, config_error) result" where
  "validate_boot_args [] = Ok ()"
| "validate_boot_args (token # tokens) =
     (if token = [] then invalid_value ''sandbox.boot_args'' ''boot arg token must not be empty''
      else if list_ex is_ws token \<or> list_ex is_ascii_control token
        then invalid_value ''sandbox.boot_args'' ''boot arg tokens must not contain whitespace or control characters''
      else if is_m80_owned_kernel_arg token
        then invalid_value ''sandbox.boot_args'' ''boot arg overrides an m80-owned key''
      else validate_boot_args tokens)"

definition parse_sandbox :: "raw_sandbox \<Rightarrow> (boot_spec_sandbox, config_error) result" where
  "parse_sandbox raw =
     and_then (validate_non_empty ''sandbox.vm_id_prefix'' (raw_vm_id_prefix raw)) (\<lambda>_.
     if raw_vcpu_count raw = 0 then invalid_value ''sandbox.vcpu_count'' ''must be greater than zero''
     else if raw_mem_size_mib raw = 0 then invalid_value ''sandbox.mem_size_mib'' ''must be greater than zero''
     else if raw_overlay_size_bytes raw = 0
       then invalid_value ''sandbox.overlay_size_bytes'' ''must be greater than zero''
     else and_then (validate_boot_args (raw_boot_args raw)) (\<lambda>_.
       Ok \<lparr>vm_id_prefix = raw_vm_id_prefix raw, bs_vcpu_count = raw_vcpu_count raw,
           bs_mem_size_mib = raw_mem_size_mib raw, bs_workspace = raw_workspace raw,
           bs_network = (case raw_network raw of RawNone \<Rightarrow> NoEgress | RawOutbound \<Rightarrow> AllowOutbound []),
           bs_overlay_size_bytes = raw_overlay_size_bytes raw,
           bs_overlay_clone_mode = raw_overlay_clone_mode raw, bs_boot_args = raw_boot_args raw\<rparr>))"

definition strip_sha256 :: "string \<Rightarrow> string" where
  "strip_sha256 v = (case strip_prefix v ''sha256:'' of None \<Rightarrow> v | Some d \<Rightarrow> d)"

definition parse_image_digest :: "string \<Rightarrow> string \<Rightarrow> (boot_image_digest, config_error) result" where
  "parse_image_digest v field =
     (case boot_image_digest_parse (strip_sha256 v) of
        Ok d \<Rightarrow> Ok d
      | Err e \<Rightarrow> Err (ConfigInvalidValue field (fc_config_text e)))"

definition parse_guest_mount_path :: "string \<Rightarrow> string \<Rightarrow> (boot_mount_path, config_error) result" where
  "parse_guest_mount_path v field =
     (case boot_mount_path_parse v of
        Ok p \<Rightarrow> Ok p
      | Err e \<Rightarrow> Err (ConfigInvalidValue field (fc_config_text e)))"

text \<open>\<open>TemplateStoreError\<close> as text, for the variant that the parsers of values raise.\<close>
fun template_value_text :: "template_store_error \<Rightarrow> string" where
  "template_value_text (TemplateInvalidValue f r) = ''invalid snapshot-template value for '' @ f @ '': '' @ r"
| "template_value_text _ = []"

definition parse_template_fingerprint ::
    "digest_crates \<Rightarrow> string \<Rightarrow> string \<Rightarrow> (template_fingerprint, config_error) result" where
  "parse_template_fingerprint cr v field =
     (case fingerprint_parse_hex cr (strip_sha256 v) of
        Ok fp \<Rightarrow> Ok fp
      | Err e \<Rightarrow> Err (ConfigInvalidValue field (template_value_text e)))"

definition parse_sharing :: "raw_sharing \<Rightarrow> (pmem_sharing, config_error) result" where
  "parse_sharing raw =
     (case raw_mode raw of
        RawPerVm \<Rightarrow>
          (if raw_trust_reason raw \<noteq> None \<or> raw_acknowledged raw \<noteq> None
           then invalid_value ''pmem_layers[].sharing'' ''per_vm sharing must not carry trust_reason or acknowledged''
           else Ok PerVm)
      | RawShared \<Rightarrow>
          (case raw_trust_reason raw of
             None \<Rightarrow> Err (MissingField ''pmem_layers[].sharing.trust_reason'')
           | Some reason \<Rightarrow>
               (if raw_acknowledged raw \<noteq> Some True
                then invalid_value ''pmem_layers[].sharing.acknowledged'' ''shared pmem requires acknowledged: true''
                else Ok (Shared reason))))"

definition parse_pmem_layer :: "raw_pmem_layer \<Rightarrow> (pmem_layer, config_error) result" where
  "parse_pmem_layer raw =
     and_then (parse_image_digest (raw_digest (raw_image raw)) ''pmem_layers[].image.digest'') (\<lambda>digest.
     and_then (parse_guest_mount_path (raw_mount_at raw) ''pmem_layers[].mount_at'') (\<lambda>mount_at.
     and_then (parse_sharing (raw_sharing raw)) (\<lambda>sharing.
       Ok \<lparr>layer_image = digest, layer_sharing = sharing, layer_mount_at = mount_at\<rparr>)))"

definition parse_ready_probe :: "raw_ready_probe \<Rightarrow> (boot_spec_ready_probe, config_error) result" where
  "parse_ready_probe raw =
     and_then (validate_non_empty ''warm_strategy.ready_probe.program'' (raw_program raw)) (\<lambda>_.
     if raw_timeout_ms raw = 0
       then invalid_value ''warm_strategy.ready_probe.timeout_ms'' ''must be greater than zero''
     else Ok \<lparr>probe_program = raw_program raw, probe_args = raw_args raw, probe_timeout_ms = raw_timeout_ms raw\<rparr>)"

definition reject_unknown_keys :: "string \<Rightarrow> string list \<Rightarrow> string list \<Rightarrow> (unit, config_error) result" where
  "reject_unknown_keys field keys allowed =
     (if list_all (\<lambda>k. k \<in> set allowed) keys then Ok () else invalid_value field ''unknown field'')"

definition parse_set_hostname_hook :: "json_value \<Rightarrow> (hook_spec, config_error) result" where
  "parse_set_hostname_hook payload =
     (case payload of
        JObject obj \<Rightarrow>
          and_then (reject_unknown_keys ''warm_strategy.hooks[].set_hostname'' (map fst obj) [''hostname'']) (\<lambda>_.
            (case map_of obj ''hostname'' of
               Some (JString hostname) \<Rightarrow>
                 (case hostname_spec_new hostname of
                    Ok h \<Rightarrow> Ok (SpecSetHostname h)
                  | Err e \<Rightarrow>
                      Err (ConfigInvalidValue ''warm_strategy.hooks[].set_hostname.hostname'' (template_value_text e)))
             | _ \<Rightarrow> Err (MissingField ''warm_strategy.hooks[].set_hostname.hostname'')))
      | _ \<Rightarrow> invalid_value ''warm_strategy.hooks[].set_hostname'' ''set_hostname payload must be an object'')"

definition parse_hook :: "json_value \<Rightarrow> (hook_spec, config_error) result" where
  "parse_hook v =
     (case v of
        JString name \<Rightarrow>
          (if name = ''reseed_systemd_random_seed'' then Ok ReseedSystemdRandomSeed
           else if name = ''regen_machine_id'' then Ok RegenMachineId
           else invalid_value ''warm_strategy.hooks[].variant'' ''unknown HookSpec variant'')
      | JObject obj \<Rightarrow>
          (case obj of
             [(variant, payload)] \<Rightarrow>
               (if variant = ''set_hostname'' then parse_set_hostname_hook payload
                else invalid_value ''warm_strategy.hooks[].variant'' ''unknown HookSpec variant'')
           | _ \<Rightarrow> invalid_value ''warm_strategy.hooks[]'' ''hook object must contain exactly one variant'')
      | JOther \<Rightarrow> invalid_value ''warm_strategy.hooks[]'' ''hook must be a string variant or single-entry object'')"

definition parse_hooks :: "json_value list \<Rightarrow> (hook_spec list, config_error) result" where
  "parse_hooks raw = collect_results parse_hook raw"

definition parse_warm_strategy ::
    "digest_crates \<Rightarrow> raw_warm_strategy \<Rightarrow> (boot_spec_warm_strategy, config_error) result" where
  "parse_warm_strategy cr raw =
     (case raw_strategy_mode raw of
        RawBootFill \<Rightarrow>
          (if raw_template raw \<noteq> None \<or> raw_ready_probe raw \<noteq> None \<or> raw_hooks raw \<noteq> []
           then invalid_value ''warm_strategy'' ''boot_fill must not include template, ready_probe, or hooks''
           else Ok BootFill)
      | RawSnapshotRestore \<Rightarrow>
          and_then (ok_or (raw_template raw) (MissingField ''warm_strategy.template'')) (\<lambda>template.
          and_then (ok_or (raw_ready_probe raw) (MissingField ''warm_strategy.ready_probe'')) (\<lambda>probe.
          and_then (parse_template_fingerprint cr (raw_fingerprint template) ''warm_strategy.template.fingerprint'') (\<lambda>fp.
          and_then (parse_ready_probe probe) (\<lambda>ready.
          and_then (parse_hooks (raw_hooks raw)) (\<lambda>hooks.
            Ok (SnapshotRestore (raw_store template) fp ready (hook_spec_set_new cr hooks))))))))"

definition boot_spec_from_raw :: "digest_crates \<Rightarrow> raw_boot_spec \<Rightarrow> (boot_spec, config_error) result" where
  "boot_spec_from_raw cr raw =
     (if raw_schema_version raw \<noteq> 1 then invalid_value ''schema_version'' ''only schema_version 1 is supported''
      else
        and_then (parse_sandbox (raw_sandbox raw)) (\<lambda>sandbox.
        and_then (collect_results parse_pmem_layer (raw_pmem_layers raw)) (\<lambda>layers.
        and_then (validate_pmem_layers layers) (\<lambda>_.
        and_then (parse_warm_strategy cr (raw_warm_strategy raw)) (\<lambda>strategy.
          Ok \<lparr>schema_version = raw_schema_version raw, bs_name = raw_name raw, bs_sandbox = sandbox,
              bs_pmem_layers = layers, bs_warm_strategy = strategy\<rparr>)))))"

definition load_boot_spec_yaml_str ::
    "digest_crates \<Rightarrow> (string \<Rightarrow> (raw_boot_spec, string) result) \<Rightarrow> string \<Rightarrow> (boot_spec, config_error) result" where
  "load_boot_spec_yaml_str cr from_yaml input =
     (case from_yaml input of
        Err text \<Rightarrow> Err (ConfigInvalidValue ''boot_spec.yaml'' text)
      | Ok raw \<Rightarrow> boot_spec_from_raw cr raw)"

definition load_boot_spec_json_str ::
    "digest_crates \<Rightarrow> (string \<Rightarrow> (raw_boot_spec, string) result) \<Rightarrow> string \<Rightarrow> (boot_spec, config_error) result" where
  "load_boot_spec_json_str cr from_json input =
     (case from_json input of
        Err text \<Rightarrow> Err (ConfigInvalidValue ''boot_spec.json'' text)
      | Ok raw \<Rightarrow> boot_spec_from_raw cr raw)"

subsection \<open>Which mount points are accepted\<close>

definition layer_mount :: "string \<Rightarrow> string" where
  "layer_mount name = ''/opt/m80-layers/'' @ name"

definition layer_name_ok :: "string \<Rightarrow> bool" where
  "layer_name_ok name \<longleftrightarrow> name \<noteq> [] \<and> length name \<le> 64 \<and> list_all is_layer_char name \<and> name \<noteq> ''.'' \<and> name \<noteq> ''..''"

lemma layer_name_plain: "layer_name_ok name \<Longrightarrow> plain_name name"
  by (auto simp: layer_name_ok_def plain_name_def list_all_iff is_layer_char_def is_ascii_alphanumeric_def is_ascii_digit_def)

lemma layer_mount_split: "plain_name name \<Longrightarrow> split_on (CHR ''/'') (layer_mount name) = [[], ''opt'', ''m80-layers'', name]"
  by (simp add: layer_mount_def plain_name_def split_on_none)

lemma layer_mount_components:
  "plain_name name \<Longrightarrow> path_components (layer_mount name) = [RootDir, Normal ''opt'', Normal ''m80-layers'', Normal name]"
  using layer_mount_split [of name]
  by (simp add: path_components_def plain_name_def) (simp add: layer_mount_def is_absolute_def starts_with_def)

lemma layer_mount_not_reserved: "plain_name name \<Longrightarrow> \<not> shadows_reserved_boot_mount (layer_mount name)"
  by (simp add: shadows_reserved_boot_mount_def path_eq_def path_starts_with_def RESERVED_MOUNTS_def layer_mount_components)
    (simp add: path_components_def is_absolute_def starts_with_def)

lemma guest_mount_path_accepts_iff:
  "boot_mount_path_parse v = Ok p \<longleftrightarrow> p = GuestMountPath v \<and> (\<exists>name. v = layer_mount name \<and> layer_name_ok name)"
proof
  assume ok: "boot_mount_path_parse v = Ok p"
  define raw where "raw = split_on (CHR ''/'') v"
  have parts: "length raw = 4" "raw ! 0 = []" "raw ! 1 = ''opt''" "raw ! 2 = ''m80-layers''" "layer_name_ok (raw ! 3)"
    "p = GuestMountPath v"
    using ok by (auto simp: boot_mount_path_parse_def raw_def [symmetric] Let_def layer_name_ok_def split: if_splits)
  have "raw = [[], ''opt'', ''m80-layers'', raw ! 3]"
    using parts(1-4) by (intro nth_equalityI) (auto simp: less_Suc_eq numeral_eq_Suc)
  then have "v = join [CHR ''/''] [[], ''opt'', ''m80-layers'', raw ! 3]" using join_split_on [of "CHR ''/''" v] raw_def by metis
  then have "v = layer_mount (raw ! 3)" by (simp add: layer_mount_def)
  with parts show "p = GuestMountPath v \<and> (\<exists>name. v = layer_mount name \<and> layer_name_ok name)" by blast
next
  assume "p = GuestMountPath v \<and> (\<exists>name. v = layer_mount name \<and> layer_name_ok name)"
  then obtain name where p: "p = GuestMountPath v" and v: "v = layer_mount name" and name: "layer_name_ok name" by blast
  have "v \<noteq> []" "is_absolute v" by (simp_all add: v layer_mount_def is_absolute_def starts_with_def)
  then show "boot_mount_path_parse v = Ok p"
    using name layer_mount_not_reserved [OF layer_name_plain [OF name]] layer_mount_split [OF layer_name_plain [OF name]]
    by (auto simp: boot_mount_path_parse_def p v [symmetric] layer_name_ok_def numeral_eq_Suc)
qed

subsection \<open>A loaded BootSpec is well-formed\<close>

definition layer_ok :: "pmem_layer \<Rightarrow> bool" where
  "layer_ok l \<longleftrightarrow> (\<exists>d. layer_image l = ImageDigest d \<and> length d = 64 \<and> list_all is_lower_hex d) \<and>
     (\<exists>name. layer_mount_at l = GuestMountPath (layer_mount name) \<and> layer_name_ok name)"

definition layers_ok :: "pmem_layer list \<Rightarrow> bool" where
  "layers_ok ls \<longleftrightarrow> length ls \<le> MAX_PMEM_LAYERS \<and> list_all layer_ok ls \<and> distinct (map layer_mount_at ls)"

definition boot_arg_ok :: "string \<Rightarrow> bool" where
  "boot_arg_ok t \<longleftrightarrow> t \<noteq> [] \<and> list_all (\<lambda>c. \<not> is_ws c \<and> \<not> is_ascii_control c) t \<and> \<not> is_m80_owned_kernel_arg t"

fun strategy_ok :: "digest_crates \<Rightarrow> boot_spec_warm_strategy \<Rightarrow> bool" where
  "strategy_ok cr BootFill = True"
| "strategy_ok cr (SnapshotRestore _ fp probe hooks) \<longleftrightarrow>
     probe_program probe \<noteq> [] \<and> probe_timeout_ms probe \<noteq> 0 \<and> hooks = hook_spec_set_new cr (set_hooks hooks) \<and>
     (\<exists>hex bs. length hex = 64 \<and> list_all is_lower_hex hex \<and> dg_unhex cr hex = Some bs \<and> fp = TemplateFingerprint bs)"

definition boot_spec_ok :: "digest_crates \<Rightarrow> boot_spec \<Rightarrow> bool" where
  "boot_spec_ok cr spec \<longleftrightarrow> schema_version spec = 1 \<and>
     (let s = bs_sandbox spec in vm_id_prefix s \<noteq> [] \<and> bs_vcpu_count s \<noteq> 0 \<and> bs_mem_size_mib s \<noteq> 0 \<and>
        bs_overlay_size_bytes s \<noteq> 0 \<and> list_all boot_arg_ok (bs_boot_args s) \<and> bs_network s \<in> {NoEgress, AllowOutbound []}) \<and>
     layers_ok (bs_pmem_layers spec) \<and> strategy_ok cr (bs_warm_strategy spec)"

lemma validate_boot_args_Ok: "validate_boot_args ts = Ok () \<longleftrightarrow> list_all boot_arg_ok ts"
  by (induction ts) (auto simp: invalid_value_def boot_arg_ok_def list_all_iff list_ex_iff)

lemma first_duplicate_None:
  "first_duplicate seen ls = None \<longleftrightarrow>
     distinct (map (\<lambda>l. path_components (mount_text (layer_mount_at l))) ls) \<and>
     (\<forall>l \<in> set ls. path_components (mount_text (layer_mount_at l)) \<notin> seen)"
  by (induction ls arbitrary: seen) (auto simp: image_iff)

lemma validate_pmem_layers_Ok:
  assumes "validate_pmem_layers ls = Ok ()" "list_all layer_ok ls"
  shows "layers_ok ls"
proof -
  have "distinct (map (\<lambda>l. path_components (mount_text (layer_mount_at l))) ls)" and "length ls \<le> MAX_PMEM_LAYERS"
    using assms(1) by (auto simp: validate_pmem_layers_def first_duplicate_None split: if_splits option.splits)
  then show ?thesis
    using assms(2) by (auto simp: layers_ok_def distinct_map inj_on_def)
qed

lemma parse_pmem_layer_ok: "parse_pmem_layer raw = Ok l \<Longrightarrow> layer_ok l"
  by (auto simp: parse_pmem_layer_def and_then_eq_Ok parse_image_digest_def boot_image_digest_parse_def parse_guest_mount_path_def
    guest_mount_path_accepts_iff layer_ok_def split: result.splits if_splits)

lemma parse_sandbox_ok:
  "parse_sandbox raw = Ok s \<Longrightarrow> vm_id_prefix s \<noteq> [] \<and> bs_vcpu_count s \<noteq> 0 \<and> bs_mem_size_mib s \<noteq> 0 \<and>
     bs_overlay_size_bytes s \<noteq> 0 \<and> list_all boot_arg_ok (bs_boot_args s) \<and> bs_network s \<in> {NoEgress, AllowOutbound []}"
  by (auto simp: parse_sandbox_def and_then_eq_Ok validate_non_empty_def invalid_value_def validate_boot_args_Ok
    split: if_splits raw_network.splits)

lemma parse_warm_strategy_ok: "parse_warm_strategy cr raw = Ok s \<Longrightarrow> strategy_ok cr s"
  by (auto simp: parse_warm_strategy_def and_then_eq_Ok parse_ready_probe_def validate_non_empty_def invalid_value_def
    parse_template_fingerprint_def fingerprint_parse_hex_def hook_spec_set_new_def
    split: raw_warm_strategy_mode.splits if_splits result.splits option.splits)

lemma boot_spec_from_raw_ok:
  assumes "boot_spec_from_raw cr raw = Ok spec"
  shows "boot_spec_ok cr spec"
proof -
  obtain sandbox layers strategy where r: "raw_schema_version raw = 1" "parse_sandbox (raw_sandbox raw) = Ok sandbox"
    "collect_results parse_pmem_layer (raw_pmem_layers raw) = Ok layers" "validate_pmem_layers layers = Ok ()"
    "parse_warm_strategy cr (raw_warm_strategy raw) = Ok strategy"
    and spec: "spec = \<lparr>schema_version = 1, bs_name = raw_name raw, bs_sandbox = sandbox, bs_pmem_layers = layers, bs_warm_strategy = strategy\<rparr>"
    using assms by (auto simp: boot_spec_from_raw_def and_then_eq_Ok invalid_value_def split: if_splits)
  have "list_all layer_ok layers"
    using collect_results_Ok_set [OF r(3)] parse_pmem_layer_ok by (fastforce simp: list_all_iff)
  with r(4) have "layers_ok layers" by (rule validate_pmem_layers_Ok)
  with parse_sandbox_ok [OF r(2)] parse_warm_strategy_ok [OF r(5)] show ?thesis by (simp add: boot_spec_ok_def spec Let_def)
qed

text \<open>C15: Whatever a BootSpec file says, a specification that loads is well-formed: schema version 1, no zero size, kernel
  arguments that are single printable tokens and none of m80's own, at most eight layers with lowercase digests and
  distinct mount points directly below \<open>/opt/m80-layers\<close>, and a restore strategy with a probe that can run.\<close>
theorem loaded_boot_spec_ok:
  assumes "load_boot_spec_yaml_str cr parse input = Ok spec \<or> load_boot_spec_json_str cr parse input = Ok spec"
  shows "boot_spec_ok cr spec"
  using assms by (auto simp: load_boot_spec_yaml_str_def load_boot_spec_json_str_def split: result.splits intro: boot_spec_from_raw_ok)

definition sample_raw_layer :: "char \<Rightarrow> string \<Rightarrow> raw_pmem_layer" where
  "sample_raw_layer d name =
     \<lparr>raw_image = \<lparr>raw_digest = ''sha256:'' @ replicate 64 d, raw_format = RawErofs\<rparr>, raw_mount_at = ''/opt/m80-layers/'' @ name,
      raw_sharing = \<lparr>raw_mode = RawShared, raw_trust_reason = Some SameOperator, raw_acknowledged = Some True\<rparr>\<rparr>"

definition sample_raw_spec :: "raw_pmem_layer list \<Rightarrow> raw_boot_spec" where
  "sample_raw_spec layers =
     \<lparr>raw_schema_version = 1, raw_name = None,
      raw_sandbox = \<lparr>raw_vm_id_prefix = ''vm'', raw_vcpu_count = 2, raw_mem_size_mib = 512, raw_workspace = None,
        raw_network = RawOutbound, raw_overlay_size_bytes = 4096, raw_overlay_clone_mode = CloneAuto,
        raw_boot_args = [''audit=0'']\<rparr>,
      raw_pmem_layers = layers,
      raw_warm_strategy = \<lparr>raw_strategy_mode = RawBootFill, raw_template = None, raw_ready_probe = None, raw_hooks = []\<rparr>\<rparr>"

lemma sample_layer_parses:
  "layer_name_ok name \<Longrightarrow> is_lower_hex d \<Longrightarrow> parse_pmem_layer (sample_raw_layer d name) =
     Ok \<lparr>layer_image = ImageDigest (replicate 64 d), layer_sharing = Shared SameOperator, layer_mount_at = GuestMountPath (layer_mount name)\<rparr>"
proof -
  assume name: "layer_name_ok name" and d: "is_lower_hex d"
  have "boot_mount_path_parse (layer_mount name) = Ok (GuestMountPath (layer_mount name))"
    using name guest_mount_path_accepts_iff by blast
  moreover have "list_all is_lower_hex (replicate 64 d)" using d by (simp add: list_all_iff)
  moreover have "strip_sha256 (''sha256:'' @ ds) = ds" for ds by (simp add: strip_sha256_def strip_prefix_def starts_with_def)
  ultimately show ?thesis
    by (simp add: sample_raw_layer_def parse_pmem_layer_def parse_image_digest_def boot_image_digest_parse_def parse_guest_mount_path_def
      layer_mount_def [symmetric] parse_sharing_def del: append.simps)
qed

lemma sample_layer_names: "layer_name_ok ''x''" "layer_name_ok ''y''" "is_lower_hex CHR ''a''"
  by code_simp+

lemma sample_spec_loads:
  "is_ok (boot_spec_from_raw sample_digest_crates (sample_raw_spec [sample_raw_layer CHR ''a'' ''x'', sample_raw_layer CHR ''a'' ''y'']))"
proof -
  have "is_ok (parse_sandbox (raw_sandbox (sample_raw_spec ls)))" for ls
    by (simp add: sample_raw_spec_def parse_sandbox_def validate_non_empty_def is_m80_owned_kernel_arg_def is_ws_def
      is_ascii_control_def starts_with_def)
  then obtain sandbox where 1: "parse_sandbox (raw_sandbox (sample_raw_spec ls)) = Ok sandbox" for ls
    by (metis is_ok_iff sample_raw_spec_def raw_boot_spec.select_convs(3))
  have 2: "path_components (layer_mount ''x'') \<noteq> path_components (layer_mount ''y'')"
    using layer_mount_components layer_name_plain sample_layer_names by simp
  show ?thesis
    by (simp add: boot_spec_from_raw_def 1) (simp add: sample_raw_spec_def sample_layer_parses sample_layer_names validate_pmem_layers_def
      MAX_PMEM_LAYERS_def parse_warm_strategy_def 2 [symmetric])
qed

theorem loaded_boot_spec_ok_witness:
  "\<exists>spec. load_boot_spec_yaml_str sample_digest_crates (\<lambda>_. Ok (sample_raw_spec [sample_raw_layer CHR ''a'' ''x'', sample_raw_layer CHR ''a'' ''y''])) '''' = Ok spec \<and>
     boot_spec_ok sample_digest_crates spec"
proof -
  let ?p = "\<lambda>_ :: string. Ok (sample_raw_spec [sample_raw_layer CHR ''a'' ''x'', sample_raw_layer CHR ''a'' ''y'']) :: (raw_boot_spec, string) result"
  obtain spec where l: "load_boot_spec_yaml_str sample_digest_crates ?p '''' = Ok spec"
    using sample_spec_loads by (auto simp: load_boot_spec_yaml_str_def is_ok_iff)
  have "load_boot_spec_yaml_str sample_digest_crates ?p '''' = Ok spec \<or> load_boot_spec_json_str sample_digest_crates ?p '''' = Ok spec"
    using l ..
  from loaded_boot_spec_ok [OF this] l show ?thesis by blast
qed

end
