(* ===== verification/Preboot.thy ===== *)
theory Preboot
  imports Boot_Spec Vsock Cgroup Net_Policy Tokens
begin

text \<open>
  What Firecracker is told before the VM starts (\<open>m80-firecracker/src/preboot.rs\<close>, the launch parameters of
  \<open>types.rs\<close> and the request bodies of \<open>m80-firecracker-client/src/lib.rs\<close>): the kernel command line and the ordered
  list of requests. The client is a parameter. The theorems say which tokens the kernel finds on its command
  line and that a planned VM has exactly one root device, read-only, and distinct device ids.
\<close>

subsection \<open>Errors (error.rs)\<close>

text \<open>The variants of \<open>FcError\<close> that admission, launch and recovery raise. \<open>Foreign\<close> stands for an error of a call
  that the model takes as a parameter.\<close>
datatype vm_error =
    Config config_error
  | InvalidState string string
  | InvalidVmId string string
  | AdmissionRefused u32
  | PathIo path_buf io_error
  | RunDirOwnershipAmbiguous path_buf
  | RunDirAlreadyOwned path_buf u32
  | StaleCgroupLeaf string fpath string
  | Jailer jailer_error
  | CgroupFailed cgroup_error
  | Foreign string

subsection \<open>Launch parameters (types.rs)\<close>

datatype image_kind = Ubuntu | Minimal
datatype kernel_kind = Stock | Stripped
datatype rootfs_format = Ext4 | ErofsRoot
datatype cpu_template = T2 | C3
datatype huge_page_config = Hugetlbfs2M
datatype io_engine = SyncIo | AsyncIo
datatype cache_type = Writeback | UnsafeCache
datatype fc_log_level = LogError | LogWarning | LogInfo | LogDebug

definition FIRST_LINE_VCPU_COUNT :: u32 where "FIRST_LINE_VCPU_COUNT = 1"
definition FIRST_LINE_MEM_SIZE_MIB :: u32 where "FIRST_LINE_MEM_SIZE_MIB = 512"
definition DEFAULT_PREALLOCATED_DRIVE_SLOTS :: u8 where "DEFAULT_PREALLOCATED_DRIVE_SLOTS = 0"

text \<open>Durations in milliseconds.\<close>
record sandbox_config =
  sc_vm_id :: "string option"
  sc_workspace :: "string option"
  sc_network :: network_policy
  sc_vcpu_count :: "u32 option"
  sc_mem_size_mib :: "u32 option"
  sc_huge_pages_2m :: bool
  sc_cpuset_cpus :: "string option"
  sc_cpu_template :: "cpu_template option"
  sc_fc_log_level :: "fc_log_level option"
  sc_drive_cache_type :: "cache_type option"
  sc_boot_args :: "string option"
  sc_overlay_size_bytes :: u64
  sc_overlay_clone_mode :: overlay_clone_mode
  sc_idle_timeout :: "nat option"
  sc_max_lifetime :: "nat option"
  sc_daemonize :: bool
  sc_request_id :: "string option"
  sc_pmem_layers :: "pmem_layer list"
  sc_preallocated_drive_slots :: u8
  sc_one_shot :: bool

definition sandbox_config_default :: sandbox_config where
  "sandbox_config_default =
     \<lparr>sc_vm_id = None, sc_workspace = None, sc_network = NoEgress, sc_vcpu_count = None, sc_mem_size_mib = None,
      sc_huge_pages_2m = False, sc_cpuset_cpus = None, sc_cpu_template = None, sc_fc_log_level = None,
      sc_drive_cache_type = None, sc_boot_args = None, sc_overlay_size_bytes = 512 * 1024 * 1024,
      sc_overlay_clone_mode = CloneByteCopy, sc_idle_timeout = Some 300000, sc_max_lifetime = None,
      sc_daemonize = False, sc_request_id = None, sc_pmem_layers = [],
      sc_preallocated_drive_slots = DEFAULT_PREALLOCATED_DRIVE_SLOTS, sc_one_shot = False\<rparr>"

record resolved_pmem_backing =
  backing_host_path :: path_buf
  backing_jail_basename :: string
  backing_sharing :: pmem_sharing

datatype realized_network =
    RealizedNoEgress
  | RealizedOutboundNat string path_buf string
  | RealizedJoinNetns string string string string string "string list"

subsection \<open>Request bodies (m80-firecracker-client)\<close>

record boot_source_config =
  kernel_image_path :: path_buf
  boot_args :: "string option"
  initrd_path :: "path_buf option"

record machine_config =
  vcpu_count :: u32
  mem_size_mib :: u32
  smt :: bool
  cpu_template :: "cpu_template option"
  track_dirty_pages :: "bool option"
  huge_pages :: "huge_page_config option"

record drive_config =
  drive_id :: string
  path_on_host :: path_buf
  is_root_device :: bool
  is_read_only :: bool
  io_engine :: "io_engine option"
  cache_type :: "cache_type option"

record pmem_config =
  pmem_id :: string
  pmem_path_on_host :: path_buf
  pmem_root_device :: bool
  pmem_read_only :: bool

text \<open>The rate limiters, which the plan always leaves out, are left out here too.\<close>
record network_interface_config =
  iface_id :: string
  host_dev_name :: string
  iface_guest_mac :: "string option"

record vsock_config =
  guest_cid :: u32
  uds_path :: path_buf

datatype preboot_put =
    PutMachineConfig machine_config
  | PutBootSource boot_source_config
  | PutDrive drive_config
  | PutPmem pmem_config
  | PutNetworkInterface network_interface_config
  | PutEntropyDevice
  | PutVsock vsock_config

fun phase_name :: "preboot_put \<Rightarrow> string" where
  "phase_name (PutMachineConfig _) = ''phase_11_put_machine_config''"
| "phase_name (PutBootSource _) = ''phase_11_put_boot_source''"
| "phase_name (PutDrive d) = ''phase_11_put_drive_'' @ drive_id d"
| "phase_name (PutPmem p) = ''phase_11_put_pmem_'' @ pmem_id p"
| "phase_name (PutNetworkInterface n) = ''phase_11_put_network_interface_'' @ iface_id n"
| "phase_name PutEntropyDevice = ''phase_11_put_entropy''"
| "phase_name (PutVsock _) = ''phase_11_put_vsock''"

subsection \<open>The kernel command line\<close>

definition COMMON_BOOT_ARGS :: string where
  "COMMON_BOOT_ARGS = ''console=ttyS0 reboot=k panic=-1 pci=off''"

definition STRIPPED_BOOT_ARGS :: string where
  "STRIPPED_BOOT_ARGS = ''console=ttyS0 reboot=k panic=-1 pci=off quiet loglevel=0 8250.nr_uarts=1 '' @
     ''earlycon=uart8250,io,0x3f8,115200n8 printk.time=1''"

definition caller_token_is_reserved :: "string \<Rightarrow> bool" where
  "caller_token_is_reserved token \<longleftrightarrow>
     starts_with token ''init='' \<or> starts_with token ''m80.workspace='' \<or> starts_with token ''m80.rootfs='' \<or>
     starts_with token ''rootfstype=''"

definition validate_caller_boot_args :: "string \<Rightarrow> (unit, vm_error) result" where
  "validate_caller_boot_args args =
     (if list_ex (\<lambda>ch. is_ascii_control ch \<and> ch \<noteq> CHR '' '') args then
        Err (Config (ConfigInvalidValue ''boot_args'' ''kernel cmdline extras must be printable space-separated tokens''))
      else
        (case filter caller_token_is_reserved (split_whitespace args) of
           [] \<Rightarrow> Ok ()
         | token # _ \<Rightarrow> Err (Config (ConfigInvalidValue ''boot_args''
             (''reserved kernel cmdline token '' @ debug_str token @ '' is owned by m80'')))))"

definition validate_caller_boot_args_if_present :: "string option \<Rightarrow> (unit, vm_error) result" where
  "validate_caller_boot_args_if_present args =
     (case args of None \<Rightarrow> Ok () | Some a \<Rightarrow> validate_caller_boot_args a)"

fun validate_cmdline_tokens :: "string \<Rightarrow> string list \<Rightarrow> (unit, vm_error) result" where
  "validate_cmdline_tokens field [] = Ok ()"
| "validate_cmdline_tokens field (token # tokens) =
     (if token = [] \<or> list_ex is_ws token then
        Err (Config (ConfigInvalidValue field (''cmdline token '' @ debug_str token @ '' is empty or contains whitespace'')))
      else validate_cmdline_tokens field tokens)"

text \<open>The first argument is the environment variable \<open>M80_PHASE_TRACE\<close>.\<close>
definition boot_args_for ::
    "string option \<Rightarrow> image_kind \<Rightarrow> kernel_kind \<Rightarrow> rootfs_format \<Rightarrow> string option \<Rightarrow> bool \<Rightarrow> string list
     \<Rightarrow> (string, vm_error) result" where
  "boot_args_for phase_trace kind kernel_kind rootfs_format config_override include_workspace_drive extra_boot_args =
     and_then (validate_caller_boot_args_if_present config_override) (\<lambda>_.
     and_then (validate_cmdline_tokens ''extra_boot_args'' extra_boot_args) (\<lambda>_.
       (let verbose = (kernel_kind = Stripped \<and> phase_trace = Some ''1'');
            base = (case kernel_kind of Stock \<Rightarrow> COMMON_BOOT_ARGS | Stripped \<Rightarrow> STRIPPED_BOOT_ARGS) @ '' init=/m80-guestd'';
            args = base @ '' m80.workspace='' @ (if include_workspace_drive then ''1'' else ''0'') @
              (case rootfs_format of
                 Ext4 \<Rightarrow> '' m80.rootfs=ext4''
               | ErofsRoot \<Rightarrow> '' m80.rootfs=erofs rootfstype=erofs'') @
              (if verbose then '' ignore_loglevel loglevel=7'' else []) @
              (if extra_boot_args \<noteq> [] then '' '' @ join '' '' extra_boot_args else []) @
              (case config_override of
                 Some custom \<Rightarrow> if trim custom \<noteq> [] then '' '' @ trim custom else []
               | None \<Rightarrow> [])
        in Ok args)))"

subsection \<open>The plan\<close>

definition preallocated_drive_slot_id :: "u8 \<Rightarrow> string" where
  "preallocated_drive_slot_id slot = ''hotplug_slot_'' @ nat_to_string (unat slot)"

definition machine_config_for :: "sandbox_config \<Rightarrow> machine_config" where
  "machine_config_for config =
     \<lparr>vcpu_count = (case sc_vcpu_count config of None \<Rightarrow> FIRST_LINE_VCPU_COUNT | Some n \<Rightarrow> n),
      mem_size_mib = (case sc_mem_size_mib config of None \<Rightarrow> FIRST_LINE_MEM_SIZE_MIB | Some n \<Rightarrow> n),
      smt = False, cpu_template = sc_cpu_template config, track_dirty_pages = None,
      huge_pages = (if sc_huge_pages_2m config then Some Hugetlbfs2M else None)\<rparr>"

definition writable_drive_cache_type :: "sandbox_config \<Rightarrow> cache_type" where
  "writable_drive_cache_type config = (case sc_drive_cache_type config of None \<Rightarrow> UnsafeCache | Some c \<Rightarrow> c)"

definition validate_resolved_pmem_backings ::
    "pmem_layer list \<Rightarrow> resolved_pmem_backing list \<Rightarrow> (unit, vm_error) result" where
  "validate_resolved_pmem_backings layers backings =
     (if length layers \<noteq> length backings then
        Err (InvalidState ''one resolved pmem backing per declared layer'' ''pmem layer/backing count mismatch'')
      else if list_ex (\<lambda>(slot, b). backing_jail_basename b \<noteq> pmem_layer_jail_basename slot) (enumerate 0 backings) then
        Err (InvalidState ''slot-indexed pmem jail basename'' ''pmem backing jail basename mismatch'')
      else Ok ())"

definition slot_range_u8 :: "u8 \<Rightarrow> u8 list" where
  "slot_range_u8 n = map word_of_nat [0 ..< unat n]"

definition drive_slot_put :: "u8 \<Rightarrow> preboot_put" where
  "drive_slot_put slot =
     PutDrive \<lparr>drive_id = preallocated_drive_slot_id slot, path_on_host = preallocated_drive_slot_jail_path slot,
       is_root_device = False, is_read_only = False, io_engine = None, cache_type = None\<rparr>"

definition pmem_put :: "nat \<Rightarrow> preboot_put" where
  "pmem_put slot =
     PutPmem \<lparr>pmem_id = ''pmem_'' @ nat_to_string slot, pmem_path_on_host = pmem_layer_jail_path slot,
       pmem_root_device = False, pmem_read_only = True\<rparr>"

fun network_puts :: "realized_network \<Rightarrow> preboot_put list" where
  "network_puts (RealizedOutboundNat tap _ mac) =
     [PutNetworkInterface \<lparr>iface_id = ''eth0'', host_dev_name = tap, iface_guest_mac = Some mac\<rparr>]"
| "network_puts (RealizedJoinNetns _ tap mac _ _ _) =
     [PutNetworkInterface \<lparr>iface_id = ''eth0'', host_dev_name = tap, iface_guest_mac = Some mac\<rparr>]"
| "network_puts RealizedNoEgress = []"

definition plan_preboot_puts ::
    "(u8 list \<Rightarrow> u8 list) \<Rightarrow> string option \<Rightarrow> sandbox_config \<Rightarrow> string \<Rightarrow> image_kind \<Rightarrow> kernel_kind \<Rightarrow> rootfs_format \<Rightarrow> bool
     \<Rightarrow> pmem_layer list \<Rightarrow> resolved_pmem_backing list \<Rightarrow> realized_network \<Rightarrow> string list
     \<Rightarrow> (preboot_put list, vm_error) result" where
  "plan_preboot_puts hash phase_trace config vm_id kind kernel_kind rootfs_format include_workspace_drive
       pmem_layers pmem_backings network extra_boot_args =
     and_then (validate_caller_boot_args_if_present (sc_boot_args config)) (\<lambda>_.
     and_then (validate_cmdline_tokens ''extra_boot_args'' extra_boot_args) (\<lambda>_.
     and_then (validate_resolved_pmem_backings pmem_layers pmem_backings) (\<lambda>_.
     and_then (boot_args_for phase_trace kind kernel_kind rootfs_format (sc_boot_args config) include_workspace_drive
       extra_boot_args) (\<lambda>args.
       Ok ([PutMachineConfig (machine_config_for config),
            PutBootSource \<lparr>kernel_image_path = path_components ''/kernel'', boot_args = Some args, initrd_path = None\<rparr>,
            PutDrive \<lparr>drive_id = ''rootfs'', path_on_host = path_components ''/rootfs.ext4'', is_root_device = True,
              is_read_only = True, io_engine = None, cache_type = None\<rparr>,
            PutDrive \<lparr>drive_id = ''rootfs_overlay'', path_on_host = path_components ''/rootfs.overlay.ext4'',
              is_root_device = False, is_read_only = False, io_engine = Some AsyncIo,
              cache_type = Some (writable_drive_cache_type config)\<rparr>] @
           (if include_workspace_drive
            then [PutDrive \<lparr>drive_id = ''workspace'', path_on_host = path_components ''/scratch.ext4'',
              is_root_device = False, is_read_only = False, io_engine = Some AsyncIo,
              cache_type = Some (writable_drive_cache_type config)\<rparr>]
            else []) @
           map drive_slot_put (slot_range_u8 (sc_preallocated_drive_slots config)) @
           map pmem_put [0 ..< length pmem_layers] @
           network_puts network @
           [PutEntropyDevice,
            PutVsock \<lparr>guest_cid = cid_for_vm_id hash vm_id, uds_path = path_components ''/vsock.sock''\<rparr>])))))"

text \<open>The requests are sent in order, each with its own call of the client, up to the first that fails.\<close>
definition apply_preboot_puts :: "(preboot_put \<Rightarrow> ('w, unit, vm_error) eff) \<Rightarrow> preboot_put list \<Rightarrow> ('w, unit, vm_error) eff" where
  "apply_preboot_puts client_put puts = for_each client_put puts"

subsection \<open>What the kernel finds on its command line\<close>

definition m80_tokens :: "string option \<Rightarrow> kernel_kind \<Rightarrow> rootfs_format \<Rightarrow> bool \<Rightarrow> string list" where
  "m80_tokens phase_trace kernel_kind rootfs_format workspace =
     [''console=ttyS0'', ''reboot=k'', ''panic=-1'', ''pci=off''] @
     (case kernel_kind of
        Stock \<Rightarrow> []
      | Stripped \<Rightarrow> [''quiet'', ''loglevel=0'', ''8250.nr_uarts=1'', ''earlycon=uart8250,io,0x3f8,115200n8'', ''printk.time=1'']) @
     [''init=/m80-guestd'', ''m80.workspace='' @ (if workspace then ''1'' else ''0'')] @
     (case rootfs_format of Ext4 \<Rightarrow> [''m80.rootfs=ext4''] | ErofsRoot \<Rightarrow> [''m80.rootfs=erofs'', ''rootfstype=erofs'']) @
     (if kernel_kind = Stripped \<and> phase_trace = Some ''1'' then [''ignore_loglevel'', ''loglevel=7''] else [])"

lemma m80_tokens_are_tokens: "list_all is_token (m80_tokens phase_trace kernel_kind rootfs_format workspace)"
  by (cases kernel_kind; cases rootfs_format) (simp_all add: m80_tokens_def is_token_def is_ws_def)

lemma validate_cmdline_tokens_Ok: "validate_cmdline_tokens field ts = Ok () \<longleftrightarrow> list_all is_token ts"
  by (induction ts) (auto simp: is_token_def list_all_iff list_ex_iff)

lemma validate_caller_Ok:
  "validate_caller_boot_args_if_present (Some a) = Ok () \<longleftrightarrow>
     list_all (\<lambda>c. \<not> is_ascii_control c) a \<and> (\<forall>t \<in> set (split_whitespace a). \<not> caller_token_is_reserved t)"
proof -
  have "\<not> is_ascii_control CHR '' ''" by (simp add: is_ascii_control_def)
  then have "list_ex (\<lambda>ch. is_ascii_control ch \<and> ch \<noteq> CHR '' '') a \<longleftrightarrow> \<not> list_all (\<lambda>c. \<not> is_ascii_control c) a"
    by (auto simp: list_ex_iff list_all_iff)
  then show ?thesis
    by (auto simp: validate_caller_boot_args_if_present_def validate_caller_boot_args_def filter_empty_conv
      split: list.splits)
qed

text \<open>The fixed part of the command line is the join of its tokens.\<close>
lemma m80_args_join:
  "(case kernel_kind of Stock \<Rightarrow> COMMON_BOOT_ARGS | Stripped \<Rightarrow> STRIPPED_BOOT_ARGS) @ '' init=/m80-guestd'' @ '' m80.workspace='' @
     (if workspace then ''1'' else ''0'') @
     (case rootfs_format of Ext4 \<Rightarrow> '' m80.rootfs=ext4'' | ErofsRoot \<Rightarrow> '' m80.rootfs=erofs rootfstype=erofs'') @
     (if kernel_kind = Stripped \<and> phase_trace = Some ''1'' then '' ignore_loglevel loglevel=7'' else []) =
   join '' '' (m80_tokens phase_trace kernel_kind rootfs_format workspace)"
  by (cases kernel_kind; cases rootfs_format) (simp_all add: m80_tokens_def COMMON_BOOT_ARGS_def STRIPPED_BOOT_ARGS_def)

lemma split_whitespace_tail:
  "split_whitespace (s @ (if xs \<noteq> [] then '' '' @ xs else [])) = split_whitespace s @ split_whitespace xs"
  using split_whitespace_blank [of "CHR '' ''" s xs] by (simp add: is_ws_def)

definition caller_tokens :: "string option \<Rightarrow> string list" where
  "caller_tokens custom = (case custom of None \<Rightarrow> [] | Some a \<Rightarrow> split_whitespace a)"

lemma boot_args_tokens:
  assumes "boot_args_for phase_trace kind kernel_kind rootfs_format custom workspace extra = Ok args"
  shows "split_whitespace args = m80_tokens phase_trace kernel_kind rootfs_format workspace @ extra @ caller_tokens custom"
    and "\<forall>t \<in> set (caller_tokens custom). \<not> caller_token_is_reserved t" and "list_all is_token extra"
proof -
  let ?m = "join '' '' (m80_tokens phase_trace kernel_kind rootfs_format workspace)"
  let ?x = "if extra \<noteq> [] then '' '' @ join '' '' extra else []"
  let ?c = "case custom of Some c \<Rightarrow> if trim c \<noteq> [] then '' '' @ trim c else [] | None \<Rightarrow> []"
  from assms have ok: "validate_caller_boot_args_if_present custom = Ok ()" and ext: "list_all is_token extra"
    and args: "args = ?m @ ?x @ ?c"
    unfolding m80_args_join [symmetric]
    by (auto simp: boot_args_for_def and_then_eq_Ok validate_cmdline_tokens_Ok Let_def)
  show "list_all is_token extra" by (fact ext)
  show "\<forall>t \<in> set (caller_tokens custom). \<not> caller_token_is_reserved t"
    using ok by (cases custom) (auto simp: caller_tokens_def validate_caller_Ok)
  have x: "split_whitespace (s @ ?x) = split_whitespace s @ extra" for s
    using split_whitespace_blank [of "CHR '' ''" s "join '' '' extra"] split_whitespace_join [OF ext] by (simp add: is_ws_def)
  have c: "split_whitespace (s @ ?c) = split_whitespace s @ caller_tokens custom" for s
  proof (cases custom)
    case (Some a)
    with split_whitespace_tail [of s "trim a"] show ?thesis by (simp add: caller_tokens_def)
  qed (simp add: caller_tokens_def)
  show "split_whitespace args = m80_tokens phase_trace kernel_kind rootfs_format workspace @ extra @ caller_tokens custom"
    unfolding args append_assoc [symmetric] c x by (simp add: split_whitespace_join m80_tokens_are_tokens)
qed

lemma m80_reserved_tokens:
  "filter caller_token_is_reserved (m80_tokens phase_trace kernel_kind rootfs_format workspace) =
     [''init=/m80-guestd'', ''m80.workspace='' @ (if workspace then ''1'' else ''0'')] @
     (case rootfs_format of Ext4 \<Rightarrow> [''m80.rootfs=ext4''] | ErofsRoot \<Rightarrow> [''m80.rootfs=erofs'', ''rootfstype=erofs''])"
  by (cases kernel_kind; cases rootfs_format) (simp_all add: m80_tokens_def caller_token_is_reserved_def starts_with_def)



subsection \<open>What is planned\<close>

fun put_root_drives :: "preboot_put \<Rightarrow> drive_config list" where
  "put_root_drives (PutDrive d) = (if is_root_device d then [d] else [])"
| "put_root_drives _ = []"

fun put_writable :: "preboot_put \<Rightarrow> string list" where
  "put_writable (PutDrive d) = (if is_read_only d then [] else [drive_id d])"
| "put_writable (PutPmem p) = (if pmem_read_only p then [] else [pmem_id p])"
| "put_writable _ = []"

definition planned_drives :: "sandbox_config \<Rightarrow> bool \<Rightarrow> preboot_put list" where
  "planned_drives config workspace =
     [PutDrive \<lparr>drive_id = ''rootfs'', path_on_host = [RootDir, Normal ''rootfs.ext4''], is_root_device = True,
        is_read_only = True, io_engine = None, cache_type = None\<rparr>,
      PutDrive \<lparr>drive_id = ''rootfs_overlay'', path_on_host = [RootDir, Normal ''rootfs.overlay.ext4''],
        is_root_device = False, is_read_only = False, io_engine = Some AsyncIo,
        cache_type = Some (writable_drive_cache_type config)\<rparr>] @
     (if workspace
      then [PutDrive \<lparr>drive_id = ''workspace'', path_on_host = [RootDir, Normal ''scratch.ext4''],
        is_root_device = False, is_read_only = False, io_engine = Some AsyncIo,
        cache_type = Some (writable_drive_cache_type config)\<rparr>]
      else []) @
     map drive_slot_put (slot_range_u8 (sc_preallocated_drive_slots config))"

lemma jail_file_paths:
  "path_components ''/kernel'' = [RootDir, Normal ''kernel'']"
  "path_components ''/rootfs.ext4'' = [RootDir, Normal ''rootfs.ext4'']"
  "path_components ''/rootfs.overlay.ext4'' = [RootDir, Normal ''rootfs.overlay.ext4'']"
  "path_components ''/scratch.ext4'' = [RootDir, Normal ''scratch.ext4'']"
  "path_components ''/vsock.sock'' = [RootDir, Normal ''vsock.sock'']"
  by (simp_all add: path_components_def is_absolute_def starts_with_def)

lemma plan_shape:
  assumes "plan_preboot_puts hash phase_trace config vm_id kind kernel_kind rootfs_format workspace layers backings network extra = Ok puts"
  shows "\<exists>args. boot_args_for phase_trace kind kernel_kind rootfs_format (sc_boot_args config) workspace extra = Ok args \<and>
    puts = [PutMachineConfig (machine_config_for config),
        PutBootSource \<lparr>kernel_image_path = [RootDir, Normal ''kernel''], boot_args = Some args, initrd_path = None\<rparr>] @
      planned_drives config workspace @ map pmem_put [0 ..< length layers] @ network_puts network @
      [PutEntropyDevice, PutVsock \<lparr>guest_cid = cid_for_vm_id hash vm_id, uds_path = [RootDir, Normal ''vsock.sock'']\<rparr>]"
    and "validate_resolved_pmem_backings layers backings = Ok ()"
  using assms by (auto simp: plan_preboot_puts_def planned_drives_def and_then_eq_Ok jail_file_paths)

lemma slot_range_distinct: "distinct (slot_range_u8 n)"
  unfolding slot_range_u8_def distinct_map
proof (intro conjI inj_onI)
  fix a b :: nat
  assume "a \<in> set [0 ..< unat n]" "b \<in> set [0 ..< unat n]" and eq: "(word_of_nat a :: u8) = word_of_nat b"
  moreover have "unat n < 2 ^ LENGTH(8)" by (rule unsigned_less)
  ultimately have "a < 2 ^ LENGTH(8)" "b < 2 ^ LENGTH(8)" by auto
  with eq show "a = b" by (metis unat_word_of_nat)
qed simp

lemma slot_id_inj: "preallocated_drive_slot_id a = preallocated_drive_slot_id b \<longleftrightarrow> a = b"
  by (simp add: preallocated_drive_slot_id_def nat_to_string_inj word_unat_eq_iff)

lemma phase_name_slots [simp]:
  "phase_name (drive_slot_put s) = ''phase_11_put_drive_'' @ preallocated_drive_slot_id s"
  "phase_name (pmem_put n) = ''phase_11_put_pmem_'' @ ''pmem_'' @ nat_to_string n"
  by (simp_all add: drive_slot_put_def pmem_put_def)

lemma distinct_plan_names: "distinct (map phase_name ([PutMachineConfig m, PutBootSource b] @ planned_drives config workspace @
    map pmem_put [0 ..< k] @ network_puts network @ [PutEntropyDevice, PutVsock v]))"
proof -
  have slots: "distinct (map (phase_name \<circ> drive_slot_put) (slot_range_u8 n))" for n
    by (simp add: distinct_map slot_range_distinct inj_on_def slot_id_inj)
  have pmem: "distinct (map (phase_name \<circ> pmem_put) [0 ..< k])"
    by (simp add: distinct_map inj_on_def nat_to_string_inj)
  have fresh: "preallocated_drive_slot_id s \<noteq> ''rootfs''" "preallocated_drive_slot_id s \<noteq> ''rootfs_overlay''"
    "preallocated_drive_slot_id s \<noteq> ''workspace''" for s by (simp_all add: preallocated_drive_slot_id_def)
  show ?thesis
    using slots [of "sc_preallocated_drive_slots config"] pmem
    by (cases network) (auto simp: planned_drives_def fresh fresh [symmetric])
qed

text \<open>In every plan the requests come in the order machine, kernel, drives, layers, network, entropy, vsock; exactly
  one drive is the root device, the shared root file system, and it is read-only; writable are only the overlay,
  the workspace and the empty slots; no device is configured twice; and the vsock address is the one of the VM.\<close>
theorem planned_devices:
  assumes "plan_preboot_puts hash phase_trace config vm_id kind kernel_kind rootfs_format workspace layers backings network extra = Ok puts"
  shows "(\<exists>args rest. puts = PutMachineConfig (machine_config_for config) #
        PutBootSource \<lparr>kernel_image_path = [RootDir, Normal ''kernel''], boot_args = Some args, initrd_path = None\<rparr> #
        planned_drives config workspace @ map pmem_put [0 ..< length layers] @ network_puts network @ PutEntropyDevice # rest \<and>
        map phase_name rest = [''phase_11_put_vsock'']) \<and>
    map drive_id (concat (map put_root_drives puts)) = [''rootfs''] \<and> list_all is_read_only (concat (map put_root_drives puts)) \<and>
    concat (map put_writable puts) = [''rootfs_overlay''] @ (if workspace then [''workspace''] else []) @
      map preallocated_drive_slot_id (slot_range_u8 (sc_preallocated_drive_slots config)) \<and>
    distinct (map phase_name puts) \<and>
    (\<exists>v. last puts = PutVsock v \<and> guest_cid v = cid_for_vm_id hash vm_id)"
proof -
  let ?v = "PutVsock \<lparr>guest_cid = cid_for_vm_id hash vm_id, uds_path = [RootDir, Normal ''vsock.sock'']\<rparr>"
  obtain args where puts: "puts = [PutMachineConfig (machine_config_for config),
        PutBootSource \<lparr>kernel_image_path = [RootDir, Normal ''kernel''], boot_args = Some args, initrd_path = None\<rparr>] @
      planned_drives config workspace @ map pmem_put [0 ..< length layers] @ network_puts network @ [PutEntropyDevice, ?v]"
    using plan_shape(1) [OF assms] by blast
  have slots: "put_root_drives (drive_slot_put s) = []" "put_writable (drive_slot_put s) = [preallocated_drive_slot_id s]" for s
    by (simp_all add: drive_slot_put_def)
  have pm: "put_root_drives (pmem_put n) = []" "put_writable (pmem_put n) = []" for n by (simp_all add: pmem_put_def)
  have net: "concat (map put_root_drives (network_puts network)) = []" "concat (map put_writable (network_puts network)) = []"
    by (cases network; simp)+
  have sl: "concat (map (put_writable \<circ> drive_slot_put) ss) = map preallocated_drive_slot_id ss"
    "concat (map (put_root_drives \<circ> drive_slot_put) ss) = []" for ss by (induction ss) (simp_all add: slots)
  have pl: "concat (map (put_writable \<circ> pmem_put) ns) = []" "concat (map (put_root_drives \<circ> pmem_put) ns) = []" for ns
    by (induction ns) (simp_all add: pm)
  have 1: "distinct (map phase_name puts)" unfolding puts by (rule distinct_plan_names)
  have 2: "concat (map put_root_drives puts) = [\<lparr>drive_id = ''rootfs'', path_on_host = [RootDir, Normal ''rootfs.ext4''],
      is_root_device = True, is_read_only = True, io_engine = None, cache_type = None\<rparr>]"
    unfolding puts by (simp add: planned_drives_def net sl pl)
  have 3: "concat (map put_writable puts) = [''rootfs_overlay''] @ (if workspace then [''workspace''] else []) @
      map preallocated_drive_slot_id (slot_range_u8 (sc_preallocated_drive_slots config))"
    unfolding puts by (simp add: planned_drives_def net sl pl)
  have 4: "\<exists>args rest. puts = PutMachineConfig (machine_config_for config) #
        PutBootSource \<lparr>kernel_image_path = [RootDir, Normal ''kernel''], boot_args = Some args, initrd_path = None\<rparr> #
        planned_drives config workspace @ map pmem_put [0 ..< length layers] @ network_puts network @ PutEntropyDevice # rest \<and>
        map phase_name rest = [''phase_11_put_vsock'']"
    by (rule exI [of _ args], rule exI [of _ "[?v]"]) (simp only: puts append.simps append_assoc list.map phase_name.simps)
  have 5: "\<exists>v. last puts = PutVsock v \<and> guest_cid v = cid_for_vm_id hash vm_id" unfolding puts by simp
  have 6: "map drive_id (concat (map put_root_drives puts)) = [''rootfs'']" "list_all is_read_only (concat (map put_root_drives puts))"
    unfolding 2 by simp_all
  show ?thesis by (intro conjI 1 3 4 5 6)
qed

theorem planned_devices_witness:
  "\<exists>puts. plan_preboot_puts (\<lambda>_. replicate 32 0) None sandbox_config_default ''a'' Minimal Stock Ext4 True [] []
      (RealizedOutboundNat ''tap0'' [] ''02:00:00:00:00:01'') [] = Ok puts \<and>
    concat (map put_writable puts) = [''rootfs_overlay'', ''workspace''] \<and> distinct (map phase_name puts)"
proof -
  obtain puts where p: "plan_preboot_puts (\<lambda>_. replicate 32 0) None sandbox_config_default ''a'' Minimal Stock Ext4 True [] []
      (RealizedOutboundNat ''tap0'' [] ''02:00:00:00:00:01'') [] = Ok puts"
    by (simp add: plan_preboot_puts_def boot_args_for_def Let_def validate_resolved_pmem_backings_def
      validate_caller_boot_args_if_present_def sandbox_config_default_def)
  have "slot_range_u8 (sc_preallocated_drive_slots sandbox_config_default) = []"
    by (simp add: slot_range_u8_def sandbox_config_default_def DEFAULT_PREALLOCATED_DRIVE_SLOTS_def)
  with planned_devices [OF p] p show ?thesis by simp
qed

end
