(* ===== verification/Jail_Config.thy ===== *)
theory Jail_Config
  imports Preboot Jail_Samples
begin

text \<open>
  The jail of a launch (\<open>m80-firecracker/src/launch.rs\<close>, phase 4 and its helpers; \<open>snapshot_stage_parent\<close> of
  \<open>lifecycle.rs\<close>): which files are bound into it, and in which network namespace the VMM runs. The theorems compose
  the parts: \<open>Plan::compute\<close> accepts the configuration, its destinations are flat, so building the jail touches nothing
  outside the run directory, and every file the planned requests name is bound with the access they ask for.
\<close>

subsection \<open>Inputs\<close>

datatype launch_path = LaunchSystemd | LaunchWrapper

text \<open>What preflight discovered, as far as a launch reads it.\<close>
record discovery =
  disc_firecracker_bin :: path_buf
  disc_seccomp_filter :: path_buf
  disc_jailer_bin :: path_buf
  disc_launch_path :: launch_path
  disc_systemd_run_bin :: "path_buf option"
  disc_jailer_harden_bin :: path_buf
  disc_kernel :: path_buf
  disc_image_kind :: image_kind
  disc_kernel_kind :: kernel_kind
  disc_rootfs_format :: rootfs_format

record storage_prep =
  rootfs_base_path :: path_buf
  rootfs_overlay :: path_buf
  scratch_path :: "path_buf option"
  slot_images :: "path_buf list"
  pmem_backings :: "resolved_pmem_backing list"

record jailer_materialize_input =
  jm_jailer_bin :: path_buf
  jm_jailer_harden_bin :: "path_buf option"
  jm_firecracker_bin :: path_buf
  jm_seccomp_filter :: path_buf
  jm_uid :: u32
  jm_gid :: u32
  jm_run_dir :: path_buf
  jm_kernel :: path_buf
  jm_storage :: storage_prep
  jm_daemonize :: bool
  jm_netns_path :: "path_buf option"
  jm_private_netns :: bool
  jm_snapshot_parent :: "path_buf option"
  jm_snapshot_bind_mode :: bind_mode

definition FIRECRACKER_SECCOMP_FILTER_JAIL_PATH :: string where
  "FIRECRACKER_SECCOMP_FILTER_JAIL_PATH = ''firecracker-seccomp-filter.bin''"

definition SNAPSHOT_BIND_DEST :: string where "SNAPSHOT_BIND_DEST = ''snapshot''"

definition snapshot_stage_parent :: "path_buf \<Rightarrow> path_buf" where
  "snapshot_stage_parent run = path_push run [Normal SNAPSHOT_BIND_DEST]"

subsection \<open>Bindings\<close>

definition snapshot_bindings :: "path_buf \<Rightarrow> bind_mode \<Rightarrow> jail_binding list" where
  "snapshot_bindings source m =
     [\<lparr>bind_source = [], bind_dest = path_components SNAPSHOT_BIND_DEST, bind_how = CreateInsideJail\<rparr>,
      \<lparr>bind_source = source, bind_dest = path_components SNAPSHOT_BIND_DEST, bind_how = m\<rparr>]"

definition pmem_binding :: "nat \<times> resolved_pmem_backing \<Rightarrow> jail_binding" where
  "pmem_binding = (\<lambda>(slot, backing).
     \<lparr>bind_source = backing_host_path backing, bind_dest = pmem_layer_jail_bind_dest slot,
      bind_how = (case backing_sharing backing of PerVm \<Rightarrow> Ro | Shared _ \<Rightarrow> RoImageStore)\<rparr>)"

definition slot_binding :: "nat \<times> path_buf \<Rightarrow> jail_binding" where
  "slot_binding = (\<lambda>(slot, path).
     \<lparr>bind_source = path, bind_dest = path_components (preallocated_drive_slot_filename (word_of_nat slot)), bind_how = Rw\<rparr>)"

definition launch_bindings :: "jailer_materialize_input \<Rightarrow> path_buf \<Rightarrow> jail_binding list" where
  "launch_bindings i snapshot_parent =
     [\<lparr>bind_source = jm_kernel i, bind_dest = path_components ''kernel'', bind_how = Ro\<rparr>,
      \<lparr>bind_source = rootfs_base_path (jm_storage i), bind_dest = path_components ''rootfs.ext4'', bind_how = Ro\<rparr>,
      \<lparr>bind_source = rootfs_overlay (jm_storage i), bind_dest = path_components ''rootfs.overlay.ext4'', bind_how = Rw\<rparr>,
      \<lparr>bind_source = jm_seccomp_filter i, bind_dest = path_components FIRECRACKER_SECCOMP_FILTER_JAIL_PATH, bind_how = Ro\<rparr>] @
     snapshot_bindings snapshot_parent (jm_snapshot_bind_mode i) @
     (case scratch_path (jm_storage i) of
        Some scratch \<Rightarrow> [\<lparr>bind_source = scratch, bind_dest = path_components ''scratch.ext4'', bind_how = Rw\<rparr>]
      | None \<Rightarrow> []) @
     map slot_binding (enumerate 0 (slot_images (jm_storage i))) @
     map pmem_binding (enumerate 0 (pmem_backings (jm_storage i)))"

definition build_jailer_launch_config :: "jailer_materialize_input \<Rightarrow> jail_binding list \<Rightarrow> jailer_socket list \<Rightarrow> jailer_config" where
  "build_jailer_launch_config i bs socks =
     \<lparr>jailer_bin = jm_jailer_bin i, jailer_harden_bin = jm_jailer_harden_bin i, firecracker_bin = jm_firecracker_bin i,
      run_dir = jm_run_dir i, jail_uid = jm_uid i, jail_gid = jm_gid i, bindings = bs, sockets = socks,
      limits = resource_limits_default, new_pid_ns = True, new_net_ns = jm_private_netns i, daemonize = jm_daemonize i,
      new_cgroup_ns = False, cgroup_version = Some V2, netns_path = jm_netns_path i,
      seccomp_filter_path = Some (path_components FIRECRACKER_SECCOMP_FILTER_JAIL_PATH),
      stdio_log = Some (console_log_path (jm_run_dir i))\<rparr>"

text \<open>The directory that snapshots of a cold-booted VM are staged in is made here; a restore binds the directory of the
  snapshot instead.\<close>
definition snapshot_parent_dir :: "jail_env \<Rightarrow> jailer_materialize_input \<Rightarrow> (jail_world, path_buf, vm_error) eff" where
  "snapshot_parent_dir env i =
     (case jm_snapshot_parent i of
        Some parent \<Rightarrow> ret parent
      | None \<Rightarrow>
          (let stage = snapshot_stage_parent (jm_run_dir i)
           in bind_eff (map_err (PathIo stage) (create_dir_all env stage)) (\<lambda>_. ret stage)))"

text \<open>\<open>None\<close> is a panic of the planner.\<close>
definition phase_4_jailer_materialize ::
    "jail_env \<Rightarrow> jailer_materialize_input \<Rightarrow> jail_world \<Rightarrow> ((materialized_jail, vm_error) result \<times> jail_world) option" where
  "phase_4_jailer_materialize env i w =
     (case snapshot_parent_dir env i w of
        (Err e, w1) \<Rightarrow> Some (Err e, w1)
      | (Ok parent, w1) \<Rightarrow>
          (case plan_compute (build_jailer_launch_config i (launch_bindings i parent) [FirecrackerSock, VsockSock]) of
             None \<Rightarrow> None
           | Some (Err e) \<Rightarrow> Some (Err (Jailer e), w1)
           | Some (Ok plan) \<Rightarrow>
               (case materialize env plan w1 of
                  None \<Rightarrow> None
                | Some (Ok j, w2) \<Rightarrow> Some (Ok j, w2)
                | Some (Err e, w2) \<Rightarrow> Some (Err (Jailer e), w2))))"

subsection \<open>Namespaces\<close>

definition jailer_harden_bin_for_launch :: "discovery \<Rightarrow> path_buf option" where
  "jailer_harden_bin_for_launch d =
     (case disc_launch_path d of LaunchSystemd \<Rightarrow> None | LaunchWrapper \<Rightarrow> Some (disc_jailer_harden_bin d))"

definition cold_launch_netns_path :: "net_crates \<Rightarrow> network_policy \<Rightarrow> string \<Rightarrow> string \<Rightarrow> path_buf option" where
  "cold_launch_netns_path cr policy run_root vm_id =
     (case policy of
        JoinNetns spec \<Rightarrow> Some (path_components (netns_spec.netns_path spec))
      | AllowOutbound _ \<Rightarrow> Some (path_components (planned_vmm_netns_path cr run_root vm_id))
      | NoEgress \<Rightarrow> None)"

definition join_netns_path :: "network_policy \<Rightarrow> path_buf option" where
  "join_netns_path policy =
     (case policy of JoinNetns spec \<Rightarrow> Some (path_components (netns_spec.netns_path spec)) | _ \<Rightarrow> None)"

definition private_vmm_netns :: "network_policy \<Rightarrow> bool" where
  "private_vmm_netns policy \<longleftrightarrow> policy = NoEgress"

text \<open>The input of phase 4 in \<open>Sandbox::prepare\<close> and in the restore from a snapshot.\<close>
definition cold_jail_input ::
    "net_crates \<Rightarrow> discovery \<Rightarrow> u32 \<Rightarrow> u32 \<Rightarrow> string \<Rightarrow> string \<Rightarrow> sandbox_config \<Rightarrow> storage_prep \<Rightarrow> jailer_materialize_input" where
  "cold_jail_input cr d uid gid run_root vm_id config storage =
     \<lparr>jm_jailer_bin = disc_jailer_bin d, jm_jailer_harden_bin = jailer_harden_bin_for_launch d,
      jm_firecracker_bin = disc_firecracker_bin d, jm_seccomp_filter = disc_seccomp_filter d, jm_uid = uid, jm_gid = gid,
      jm_run_dir = run_dir_path (path_components run_root) vm_id, jm_kernel = disc_kernel d, jm_storage = storage,
      jm_daemonize = sc_daemonize config, jm_netns_path = cold_launch_netns_path cr (sc_network config) run_root vm_id,
      jm_private_netns = private_vmm_netns (sc_network config), jm_snapshot_parent = None, jm_snapshot_bind_mode = Rw\<rparr>"

definition restore_jail_input ::
    "discovery \<Rightarrow> u32 \<Rightarrow> u32 \<Rightarrow> string \<Rightarrow> string \<Rightarrow> sandbox_config \<Rightarrow> storage_prep \<Rightarrow> path_buf \<Rightarrow> jailer_materialize_input" where
  "restore_jail_input d uid gid run_root vm_id config storage host_parent =
     \<lparr>jm_jailer_bin = disc_jailer_bin d, jm_jailer_harden_bin = jailer_harden_bin_for_launch d,
      jm_firecracker_bin = disc_firecracker_bin d, jm_seccomp_filter = disc_seccomp_filter d, jm_uid = uid, jm_gid = gid,
      jm_run_dir = run_dir_path (path_components run_root) vm_id, jm_kernel = disc_kernel d, jm_storage = storage,
      jm_daemonize = sc_daemonize config, jm_netns_path = join_netns_path (sc_network config),
      jm_private_netns = private_vmm_netns (sc_network config), jm_snapshot_parent = Some host_parent,
      jm_snapshot_bind_mode = Ro\<rparr>"

subsection \<open>Phase 7: the network arguments of a joined namespace\<close>

text \<open>For an outbound network the arguments and the policy come from \<open>m80-net-outbound\<close>, here a parameter.\<close>
definition phase_7_outbound_guest_config ::
    "('w, string list, vm_error) eff \<Rightarrow> realized_network \<Rightarrow> ('w, string list, vm_error) eff" where
  "phase_7_outbound_guest_config outbound net =
     (case net of
        RealizedOutboundNat _ _ _ \<Rightarrow> outbound
      | RealizedJoinNetns _ _ mac ip gw dns \<Rightarrow>
          ret [''m80.net=join_netns'', ''m80.net.iface=eth0'', ''m80.net.mac='' @ mac, ''m80.net.ipv4='' @ ip,
               ''m80.net.gateway='' @ gw, ''m80.net.dns='' @ join '','' dns]
      | RealizedNoEgress \<Rightarrow> ret [])"

text \<open>Phase 6: the helper that realizes bridge and TAP is a parameter.\<close>
definition phase_6_network_realize ::
    "('w, string \<times> path_buf \<times> string, vm_error) eff \<Rightarrow> sandbox_config \<Rightarrow> ('w, realized_network, vm_error) eff" where
  "phase_6_network_realize realize_bridge_and_tap config =
     (case sc_network config of
        NoEgress \<Rightarrow> ret RealizedNoEgress
      | JoinNetns spec \<Rightarrow>
          ret (RealizedJoinNetns (netns_spec.netns_path spec) (spec_tap_name spec)
            (case spec_guest_mac spec of MacAddr m \<Rightarrow> m) (ipv4net_to_string (spec_guest_ipv4 spec))
            (ipv4_to_string (spec_gateway_ipv4 spec)) (map ipv4_to_string (spec_dns_resolvers spec)))
      | AllowOutbound _ \<Rightarrow>
          bind_eff realize_bridge_and_tap (\<lambda>(tap, netns, mac). ret (RealizedOutboundNat tap netns mac)))"

subsection \<open>The destinations\<close>

definition dest_names :: "storage_prep \<Rightarrow> string list" where
  "dest_names s =
     [''kernel'', ''rootfs.ext4'', ''rootfs.overlay.ext4'', FIRECRACKER_SECCOMP_FILTER_JAIL_PATH, SNAPSHOT_BIND_DEST] @
     (if scratch_path s \<noteq> None then [''scratch.ext4''] else []) @
     map (\<lambda>n. preallocated_drive_slot_filename (word_of_nat n)) [0 ..< length (slot_images s)] @
     map pmem_layer_jail_basename [0 ..< length (pmem_backings s)]"

definition launch_input_ok :: "jailer_materialize_input \<Rightarrow> bool" where
  "launch_input_ok i \<longleftrightarrow> jm_uid i \<noteq> 0 \<and> jm_gid i \<noteq> 0 \<and> file_name (jm_firecracker_bin i) \<noteq> None \<and>
     file_name (jm_run_dir i) \<noteq> None \<and> jm_snapshot_bind_mode i \<in> {Ro, Rw} \<and> length (slot_images (jm_storage i)) \<le> 256 \<and>
     (\<forall>b \<in> set (pmem_backings (jm_storage i)). backing_sharing b \<noteq> PerVm \<longrightarrow> path_has_prefix (backing_host_path b) DEFAULT_STORE_ROOT)"

lemma plain_dest_names:
  "path_components ''kernel'' = [Normal ''kernel'']" "path_components ''rootfs.ext4'' = [Normal ''rootfs.ext4'']"
  "path_components ''rootfs.overlay.ext4'' = [Normal ''rootfs.overlay.ext4'']"
  "path_components FIRECRACKER_SECCOMP_FILTER_JAIL_PATH = [Normal FIRECRACKER_SECCOMP_FILTER_JAIL_PATH]"
  "path_components SNAPSHOT_BIND_DEST = [Normal SNAPSHOT_BIND_DEST]" "path_components ''scratch.ext4'' = [Normal ''scratch.ext4'']"
  by (simp_all add: plain_name_def FIRECRACKER_SECCOMP_FILTER_JAIL_PATH_def SNAPSHOT_BIND_DEST_def)

lemma launch_bind_dests:
  assumes "jm_snapshot_bind_mode i \<in> {Ro, Rw}"
  shows "bind_dests (launch_bindings i parent) = map (\<lambda>n. [Normal n]) (dest_names (jm_storage i))"
proof -
  have slots: "map bind_dest (filter (\<lambda>b. is_bind_mount_mode (bind_how b)) (map slot_binding ps)) =
      map (\<lambda>n. [Normal (preallocated_drive_slot_filename (word_of_nat n))]) (map fst ps)" for ps
    by (induction ps) (auto simp: slot_binding_def plain_dest_names is_bind_mount_mode_def)
  have pmem: "map bind_dest (filter (\<lambda>b. is_bind_mount_mode (bind_how b)) (map pmem_binding ps)) =
      map (\<lambda>n. [Normal (pmem_layer_jail_basename n)]) (map fst ps)" for ps
    by (induction ps) (auto simp: pmem_binding_def is_bind_mount_mode_def split: pmem_sharing.splits)
  show ?thesis
    using assms unfolding bind_dests_def launch_bindings_def filter_append map_append slots pmem
    by (auto simp: dest_names_def plain_dest_names snapshot_bindings_def is_bind_mount_mode_def map_fst_enumerate comp_def
      split: option.splits)
qed

lemma dest_names_distinct:
  assumes "length (slot_images s) \<le> 256"
  shows "distinct (dest_names s)"
proof -
  have "inj_on (\<lambda>n. preallocated_drive_slot_filename (word_of_nat n)) {0 ..< length (slot_images s)}"
  proof (rule inj_onI)
    fix a b assume "a \<in> {0 ..< length (slot_images s)}" "b \<in> {0 ..< length (slot_images s)}"
      and "preallocated_drive_slot_filename (word_of_nat a) = preallocated_drive_slot_filename (word_of_nat b)"
    with assms have "(word_of_nat a :: u8) = word_of_nat b" "a < 2 ^ LENGTH(8)" "b < 2 ^ LENGTH(8)"
      by (auto simp: slot_filename_inj)
    then show "a = b" by (metis unat_word_of_nat)
  qed
  then show ?thesis
    by (auto simp: dest_names_def distinct_map inj_on_def nat_to_string_inj FIRECRACKER_SECCOMP_FILTER_JAIL_PATH_def
      SNAPSHOT_BIND_DEST_def preallocated_drive_slot_filename_def PREALLOCATED_DRIVE_SLOT_PREFIX_def
      pmem_layer_jail_basename_def PMEM_JAIL_PREFIX_def)
qed

lemma dest_names_inner: "n \<in> set (dest_names s) \<Longrightarrow> n \<notin> kernel_dirs"
  by (auto simp: dest_names_def kernel_dirs_def FIRECRACKER_SECCOMP_FILTER_JAIL_PATH_def SNAPSHOT_BIND_DEST_def
      preallocated_drive_slot_filename_def PREALLOCATED_DRIVE_SLOT_PREFIX_def pmem_layer_jail_basename_def PMEM_JAIL_PREFIX_def
      split: if_splits)

lemma launch_binding_dests: "bind_dest ` set (launch_bindings i parent) = (\<lambda>n. [Normal n]) ` set (dest_names (jm_storage i))"
proof -
  have fst_enum: "fst ` set (enumerate 0 xs) = {0 ..< length xs}" for xs :: "'b list"
    unfolding set_map [symmetric] map_fst_enumerate by simp
  have slots: "(bind_dest \<circ> slot_binding) ` X = (\<lambda>n. [Normal (preallocated_drive_slot_filename (word_of_nat n))]) ` fst ` X" for X
    by (force simp: slot_binding_def image_iff)
  have pmem: "(bind_dest \<circ> pmem_binding) ` X = (\<lambda>n. [Normal (pmem_layer_jail_basename n)]) ` fst ` X" for X
    by (force simp: pmem_binding_def image_iff)
  show ?thesis
    unfolding launch_bindings_def dest_names_def set_append set_map image_Un image_image
    using slots [of "set (enumerate 0 (slot_images (jm_storage i)))"] pmem [of "set (enumerate 0 (pmem_backings (jm_storage i)))"]
    by (cases "scratch_path (jm_storage i)")
      (simp_all add: fst_enum plain_dest_names snapshot_bindings_def image_image comp_def insert_commute)
qed

lemma launch_config_acceptable:
  assumes "launch_input_ok i"
  shows "acceptable_config (build_jailer_launch_config i (launch_bindings i parent) socks)"
proof -
  have "inner_dest (bind_dest b)" if "b \<in> set (launch_bindings i parent)" for b
  proof -
    have "bind_dest b \<in> bind_dest ` set (launch_bindings i parent)" using that by (rule imageI)
    then obtain n where n: "n \<in> set (dest_names (jm_storage i))" "bind_dest b = [Normal n]"
      unfolding launch_binding_dests by blast
    with dest_names_inner show ?thesis unfolding inner_dest_def by (intro exI [of _ n] exI [of _ "[]"]) simp
  qed
  moreover have "distinct (bind_dests (launch_bindings i parent))"
    using assms by (auto simp: launch_input_ok_def launch_bind_dests distinct_map inj_on_def intro: dest_names_distinct)
  moreover have "path_has_prefix (bind_source b) DEFAULT_STORE_ROOT"
    if b: "b \<in> set (launch_bindings i parent)" "bind_how b = RoImageStore" for b
  proof -
    have "jm_snapshot_bind_mode i \<noteq> RoImageStore" using assms by (auto simp: launch_input_ok_def)
    with b obtain n k where "(n, k) \<in> set (enumerate 0 (pmem_backings (jm_storage i)))" "b = pmem_binding (n, k)"
      by (auto simp: launch_bindings_def snapshot_bindings_def slot_binding_def split: option.splits)
    with b(2) assms show ?thesis
      by (auto simp: pmem_binding_def launch_input_ok_def in_set_enumerate_eq split: pmem_sharing.splits)
  qed
  ultimately show ?thesis
    using assms by (auto simp: acceptable_config_def acceptable_bindings_def build_jailer_launch_config_def launch_input_ok_def)
qed

text \<open>No destination is below another one.\<close>
lemma launch_plan_flat:
  assumes ok: "launch_input_ok i" and lit: "literal_below env (jm_run_dir i)"
    and plan: "plan_compute (build_jailer_launch_config i (launch_bindings i parent) socks) = Some (Ok plan)"
    and a: "a \<in> set (binds_of (plan_steps plan))" and b: "b \<in> set (binds_of (plan_steps plan))" and ne: "a \<noteq> b"
  shows "\<not> under (locate env a) (locate env b)"
proof -
  let ?c = "build_jailer_launch_config i (launch_bindings i parent) socks"
  have c: "run_dir ?c = jm_run_dir i" "bindings ?c = launch_bindings i parent" by (simp_all add: build_jailer_launch_config_def)
  obtain root where root: "jail_root_path (run_dir ?c) (firecracker_bin ?c) = Some root" and acc: "acceptable_config ?c"
    and p: "plan_steps plan = compute_steps root ?c"
    using plan by (auto elim!: plan_compute_OkD)
  obtain e v where root': "root = jm_run_dir i @ [Normal e, Normal v, Normal ''root'']" using root c by (auto simp: jail_root_path_iff)
  obtain dirs where steps: "plan_steps plan = CreateDir root JAIL_ROOT_MODE # dirs @ bind_steps root (bindings ?c) @ socket_steps root (sockets ?c)"
    and dirs: "\<forall>s \<in> set dirs. \<exists>p. s = CreateDir (root @ p) JAIL_INTERNAL_DIR_MODE \<and> inner_dest p"
    using compute_steps_shape [OF acc] p by metis
  have "binds_of dirs = []" using dirs by (induction dirs rule: binds_of.induct) auto
  then have "binds_of (plan_steps plan) = map (path_push root) (map (\<lambda>n. [Normal n]) (dest_names (jm_storage i)))"
    using ok by (simp add: steps c launch_bind_dests launch_input_ok_def)
  then obtain m n where "a = root @ [Normal m]" "b = root @ [Normal n]" using a b by (auto simp: path_push_def)
  moreover have "locate env (root @ [Normal n]) = locate env (jm_run_dir i) @ [e, v, ''root'', n]" for n
    using lit [unfolded literal_below_def, rule_format, of "[e, v, ''root'', n]"] by (simp add: root')
  ultimately show ?thesis using ne by (auto simp: under_iff)
qed

subsection \<open>Building the jail of a launch\<close>

lemma snapshot_parent_contained:
  assumes "literal_below env (jm_run_dir i)" "clear_of (locate env (jm_run_dir i)) (mounts w)"
    "nodes w (locate env (jm_run_dir i)) = Some DirNode" "snapshot_parent_dir env i w = (r, w1)"
  shows "contained (locate env (jm_run_dir i)) (nodes w) w1 \<and> mounts w1 = mounts w"
proof (cases "jm_snapshot_parent i")
  case (Some p)
  with assms(3,4) show ?thesis by (simp add: snapshot_parent_dir_def ret_def contained_def)
next
  case None
  let ?stage = "jm_run_dir i @ [Normal SNAPSHOT_BIND_DEST]"
  have start: "contained (locate env (jm_run_dir i)) (nodes w) w" using assms(3) by (simp add: contained_def)
  obtain r2 w2 where 2: "create_dir_all env ?stage w = (r2, w2)" by fastforce
  have "contained (locate env (jm_run_dir i)) (nodes w) w2"
    using contained_one_dir [OF assms(1,2) start, of SNAPSHOT_BIND_DEST] 2 by simp
  moreover have "mounts w2 = mounts w" using quietD [OF quiet_create_dir_all 2] by simp
  moreover have "w1 = w2"
    using None assms(4) 2 by (cases r2) (auto simp: snapshot_parent_dir_def snapshot_stage_parent_def path_push_def Let_def
      bind_eff_def map_err_def ret_def)
  ultimately show ?thesis by simp
qed


definition sample_storage :: storage_prep where
  "sample_storage =
     \<lparr>rootfs_base_path = path_components ''/img'', rootfs_overlay = path_components ''/data/x'', scratch_path = None,
      slot_images = [path_components ''/data/x''], pmem_backings = []\<rparr>"

definition sample_discovery :: discovery where
  "sample_discovery =
     \<lparr>disc_firecracker_bin = path_components ''/bin/fc'', disc_seccomp_filter = path_components ''/img'',
      disc_jailer_bin = path_components ''/bin/jailer'', disc_launch_path = LaunchWrapper, disc_systemd_run_bin = None,
      disc_jailer_harden_bin = path_components ''/bin/harden'', disc_kernel = path_components ''/img'',
      disc_image_kind = Minimal, disc_kernel_kind = Stock, disc_rootfs_format = Ext4\<rparr>"

definition sample_input :: jailer_materialize_input where
  "sample_input = restore_jail_input sample_discovery 3000 3000 ''/run'' ''vm'' sandbox_config_default sample_storage
     (path_components ''/data'')"

lemma sample_input_ok: "launch_input_ok sample_input"
proof -
  have "jm_run_dir sample_input = [RootDir, Normal ''run'', Normal ''vm'']" "jm_firecracker_bin sample_input = [RootDir, Normal ''bin'', Normal ''fc'']"
    by (simp_all add: sample_input_def restore_jail_input_def run_dir_path_def path_push_def path_components_def is_absolute_def
      starts_with_def sample_discovery_def)
  then show ?thesis
    by (simp add: launch_input_ok_def file_name_def) (simp add: sample_input_def restore_jail_input_def sample_storage_def)
qed


subsection \<open>What Firecracker opens is bound\<close>

definition bound :: "jail_binding list \<Rightarrow> path_buf \<Rightarrow> bool \<Rightarrow> bool" where
  "bound bs p read_only \<longleftrightarrow>
     (\<exists>b \<in> set bs. p = RootDir # bind_dest b \<and> is_bind_mount_mode (bind_how b) \<and> is_read_only_bind_mode (bind_how b) = read_only)"

fun put_bound :: "jailer_config \<Rightarrow> preboot_put \<Rightarrow> bool" where
  "put_bound c (PutDrive d) = bound (bindings c) (path_on_host d) (is_read_only d)"
| "put_bound c (PutPmem p) = bound (bindings c) (pmem_path_on_host p) (pmem_read_only p)"
| "put_bound c (PutBootSource b) = (bound (bindings c) (kernel_image_path b) True \<and> initrd_path b = None)"
| "put_bound c (PutVsock v) = (\<exists>s \<in> set (sockets c). uds_path v = [RootDir, Normal (Jail_Plan.jail_path s)])"
| "put_bound c _ = True"

lemma boundI:
  "b \<in> set bs \<Longrightarrow> p = RootDir # bind_dest b \<Longrightarrow> is_bind_mount_mode (bind_how b) \<Longrightarrow>
     is_read_only_bind_mode (bind_how b) = ro \<Longrightarrow> bound bs p ro"
  by (auto simp: bound_def)

text \<open>C14: Everything Firecracker is told to open is in the jail with the access it was told: the kernel, each drive and each
  layer is bound, read-only exactly if the request says so, and the vsock socket is one the plan makes room for.\<close>
theorem devices_are_bound:
  assumes plan: "plan_preboot_puts hash phase_trace config vm_id kind kernel_kind rootfs_format (scratch_path (jm_storage i) \<noteq> None)
      layers (pmem_backings (jm_storage i)) network extra = Ok puts"
    and slots: "length (slot_images (jm_storage i)) = unat (sc_preallocated_drive_slots config)" and p: "p \<in> set puts"
  shows "put_bound (build_jailer_launch_config i (launch_bindings i parent) [FirecrackerSock, VsockSock]) p"
proof -
  let ?c = "build_jailer_launch_config i (launch_bindings i parent) [FirecrackerSock, VsockSock]"
  let ?bs = "launch_bindings i parent"
  have c: "bindings ?c = ?bs" "sockets ?c = [FirecrackerSock, VsockSock]" by (simp_all add: build_jailer_launch_config_def)
  have len: "length layers = length (pmem_backings (jm_storage i))"
    using plan_shape(2) [OF plan] by (simp add: validate_resolved_pmem_backings_def split: if_splits)
  have slot: "put_bound ?c (drive_slot_put n)" if n: "n \<in> set (slot_range_u8 (sc_preallocated_drive_slots config))" for n
  proof -
    obtain k where k: "n = word_of_nat k" "k < length (slot_images (jm_storage i))" using n slots by (auto simp: slot_range_u8_def)
    have mem: "slot_binding (k, slot_images (jm_storage i) ! k) \<in> set ?bs"
      using k(2) by (auto simp: launch_bindings_def in_set_enumerate_eq)
    show ?thesis
      unfolding drive_slot_put_def put_bound.simps c
      by (rule boundI [OF mem]) (simp_all add: slot_binding_def k(1) is_bind_mount_mode_def is_read_only_bind_mode_def)
  qed
  have pmem: "put_bound ?c (pmem_put n)" if "n < length layers" for n
  proof -
    have mem: "pmem_binding (n, pmem_backings (jm_storage i) ! n) \<in> set ?bs"
      using that len by (auto simp: launch_bindings_def in_set_enumerate_eq)
    show ?thesis
      unfolding pmem_put_def put_bound.simps c
      by (rule boundI [OF mem]) (auto simp: pmem_binding_def is_bind_mount_mode_def is_read_only_bind_mode_def split: pmem_sharing.splits)
  qed
  have modes: "is_bind_mount_mode Ro" "is_bind_mount_mode Rw" "is_read_only_bind_mode Ro" "\<not> is_read_only_bind_mode Rw"
    by (simp_all add: is_bind_mount_mode_def is_read_only_bind_mode_def)
  have fixed: "bound ?bs [RootDir, Normal ''kernel''] True" "bound ?bs [RootDir, Normal ''rootfs.ext4''] True"
    "bound ?bs [RootDir, Normal ''rootfs.overlay.ext4''] False"
    "scratch_path (jm_storage i) \<noteq> None \<Longrightarrow> bound ?bs [RootDir, Normal ''scratch.ext4''] False"
    by (auto simp: bound_def launch_bindings_def plain_dest_names modes)
  have net: "put_bound ?c p" if "p \<in> set (network_puts network)" using that by (cases network) auto
  obtain args where "puts = [PutMachineConfig (machine_config_for config),
        PutBootSource \<lparr>kernel_image_path = [RootDir, Normal ''kernel''], boot_args = Some args, initrd_path = None\<rparr>] @
      planned_drives config (scratch_path (jm_storage i) \<noteq> None) @ map pmem_put [0 ..< length layers] @ network_puts network @
      [PutEntropyDevice, PutVsock \<lparr>guest_cid = cid_for_vm_id hash vm_id, uds_path = [RootDir, Normal ''vsock.sock'']\<rparr>]"
    using plan_shape(1) [OF plan] by blast
  with p show ?thesis
    using fixed slot pmem net by (auto simp: planned_drives_def c split: if_splits)
qed

theorem devices_are_bound_witness:
  "\<exists>puts. plan_preboot_puts (\<lambda>_. replicate 32 0) None (sandbox_config_default\<lparr>sc_preallocated_drive_slots := 1\<rparr>) ''vm'' Minimal Stock
      Ext4 (scratch_path (jm_storage sample_input) \<noteq> None) [] (pmem_backings (jm_storage sample_input)) RealizedNoEgress [] = Ok puts \<and>
     drive_slot_put 0 \<in> set puts \<and>
     put_bound (build_jailer_launch_config sample_input (launch_bindings sample_input []) [FirecrackerSock, VsockSock]) (drive_slot_put 0)"
proof -
  let ?config = "sandbox_config_default\<lparr>sc_preallocated_drive_slots := 1\<rparr>"
  have st: "jm_storage sample_input = sample_storage" by (simp add: sample_input_def restore_jail_input_def)
  obtain puts where p: "plan_preboot_puts (\<lambda>_. replicate 32 0) None ?config ''vm'' Minimal Stock Ext4
      (scratch_path (jm_storage sample_input) \<noteq> None) [] (pmem_backings (jm_storage sample_input)) RealizedNoEgress [] = Ok puts"
    by (simp add: plan_preboot_puts_def boot_args_for_def Let_def validate_resolved_pmem_backings_def
      validate_caller_boot_args_if_present_def sandbox_config_default_def st sample_storage_def)
  have slots: "length (slot_images (jm_storage sample_input)) = unat (sc_preallocated_drive_slots ?config)"
    by (simp add: st sample_storage_def)
  have "0 \<in> set (slot_range_u8 (sc_preallocated_drive_slots ?config))" by (simp add: slot_range_u8_def)
  then have m: "drive_slot_put 0 \<in> set puts" using plan_shape(1) [OF p] by (auto simp: planned_drives_def)
  from devices_are_bound [OF p slots m, of "[]"] p m show ?thesis by blast
qed

subsection \<open>Network namespaces\<close>

text \<open>Neither a new network namespace nor one to join: the VMM runs in that of the host.\<close>
definition in_host_netns :: "jailer_config \<Rightarrow> bool" where
  "in_host_netns c \<longleftrightarrow> \<not> new_net_ns c \<and> jailer_config.netns_path c = None"

text \<open>C17: A cold launch never runs the VMM in the network namespace of the host: it gets a private one or joins a named one. A
  restore from a snapshot does the same unless the policy allows outbound traffic; then it gets neither and the VMM runs in
  the namespace of the host.\<close>
theorem vmm_network_namespace:
  "\<not> in_host_netns (build_jailer_launch_config (cold_jail_input cr d uid gid run_root vm_id config storage) bs socks) \<and>
   in_host_netns (build_jailer_launch_config (restore_jail_input d uid gid run_root vm_id config storage parent) bs socks) =
     (case sc_network config of AllowOutbound _ \<Rightarrow> True | _ \<Rightarrow> False)"
  by (cases "sc_network config")
    (auto simp: in_host_netns_def build_jailer_launch_config_def cold_jail_input_def restore_jail_input_def
      private_vmm_netns_def cold_launch_netns_path_def join_netns_path_def)

end
