(* ===== verification/Admission.thy ===== *)
theory Admission
  imports Jail_Config
begin

text \<open>
  Admission of a VM (\<open>Backend::admit\<close> and its checks in \<open>m80-firecracker/src/backend.rs\<close>, the permits of \<open>types.rs\<close>) and
  the configuration that the command line builds from a boot specification (\<open>m80-cli/src/cmds/template.rs\<close>). The permits are
  a transition system: admissions and drops in any order never exceed the limit and never lose a permit, and an
  admission fails only for a reason of the configuration or because the limit is reached. The other theorems follow an
  admitted VM into the layout, the jail and the kernel command line.
\<close>

subsection \<open>Configuration (types.rs)\<close>

datatype cgroup_mode = UnifiedV2 | CgroupDisabled

record backend_config =
  be_discovery :: discovery
  max_concurrent_vms :: u32
  be_run_root :: string
  be_jail_uid :: u32
  be_jail_gid :: u32
  be_cgroup_mode :: cgroup_mode

text \<open>\<open>BackendConfig::builder(discovery)\<close>; the second argument is \<open>discovery.run_root\<close>.\<close>
definition backend_config_builder :: "discovery \<Rightarrow> string \<Rightarrow> backend_config" where
  "backend_config_builder d run_root =
     \<lparr>be_discovery = d, max_concurrent_vms = 8, be_run_root = run_root, be_jail_uid = 3000, be_jail_gid = 3000,
      be_cgroup_mode = UnifiedV2\<rparr>"

datatype config_source = SourceDefault | SystemFile | SystemDropIn | UserFile | UserDropIn | SourceEnv | SourceFlag

record effective_field =
  field_name :: string
  field_text :: string
  field_source :: config_source

definition build_effective_config :: "backend_config \<Rightarrow> effective_field list" where
  "build_effective_config b =
     map (\<lambda>(n, v). \<lparr>field_name = n, field_text = v, field_source = SourceDefault\<rparr>)
       [(''max_concurrent_vms'', nat_to_string (unat (max_concurrent_vms b))), (''run_root'', be_run_root b),
        (''jail_uid'', nat_to_string (unat (be_jail_uid b))), (''jail_gid'', nat_to_string (unat (be_jail_gid b))),
        (''cgroup_mode'', case be_cgroup_mode b of UnifiedV2 \<Rightarrow> ''unified-v2'' | CgroupDisabled \<Rightarrow> ''disabled'')]"

record sandbox =
  sb_config :: sandbox_config
  permit_limit :: u32
  delete_run_dir_on_launch_error :: bool

text \<open>What a call reads of the host: the type a path has without following a link, its canonical text, the process id
  and the clock.\<close>
datatype file_type = TypeDir | TypeFile | TypeSymlink

record admit_host =
  symlink_metadata :: "string \<Rightarrow> (file_type, io_error) result"
  canonicalize :: "string \<Rightarrow> (string, io_error) result"
  process_id :: u32
  unix_ms_now :: u64

subsection \<open>Checks (backend.rs)\<close>

definition auto_vm_id :: "admit_host \<Rightarrow> string" where
  "auto_vm_id h = ''vm-'' @ nat_to_string (unat (process_id h)) @ ''-'' @ nat_to_string (unat (unix_ms_now h))"

definition validate_huge_pages_memory :: "sandbox_config \<Rightarrow> (unit, vm_error) result" where
  "validate_huge_pages_memory config =
     (if \<not> sc_huge_pages_2m config then Ok ()
      else (let mem = (case sc_mem_size_mib config of None \<Rightarrow> FIRST_LINE_MEM_SIZE_MIB | Some m \<Rightarrow> m)
            in if mem mod 2 \<noteq> 0
               then Err (Config (ConfigInvalidValue ''huge_pages_2m''
                 (''2 MiB huge pages require mem_size_mib to be a multiple of 2, got '' @ nat_to_string (unat mem))))
               else Ok ()))"

definition is_valid_vm_id_name :: "string \<Rightarrow> bool" where
  "is_valid_vm_id_name vm_id \<longleftrightarrow> vm_id \<noteq> [] \<and> length vm_id \<le> 64 \<and> vm_id \<noteq> ''.'' \<and> vm_id \<noteq> ''..'' \<and>
     list_all (\<lambda>b. is_ascii_alphanumeric b \<or> b \<in> {CHR ''.'', CHR ''_'', CHR ''-''}) vm_id"

definition check_vm_id_name :: "string \<Rightarrow> (unit, vm_error) result" where
  "check_vm_id_name vm_id =
     (if is_valid_vm_id_name vm_id then Ok ()
      else Err (InvalidVmId vm_id
        (''must be 1..=64 ASCII alphanumeric, '' @ [CHR 39] @ ''.'' @ [CHR 39] @ '', '' @ [CHR 39] @ ''_'' @ [CHR 39] @
         '', or '' @ [CHR 39] @ ''-'' @ [CHR 39] @ '' characters and must not be '' @ [CHR 39] @ ''.'' @ [CHR 39] @ '' or '' @
         [CHR 39] @ ''..'' @ [CHR 39])))"

definition is_reserved_run_root_child :: "string \<Rightarrow> bool" where
  "is_reserved_run_root_child name \<longleftrightarrow> name = ''.preserved'' \<or> name = ''warm''"

definition check_vm_id_reserved_name :: "string \<Rightarrow> (unit, vm_error) result" where
  "check_vm_id_reserved_name vm_id =
     (if is_reserved_run_root_child vm_id then Err (InvalidVmId vm_id (debug_str vm_id @ '' is reserved under run_root''))
      else Ok ())"

definition check_vm_id_path_budget :: "backend_config \<Rightarrow> string \<Rightarrow> (unit, vm_error) result" where
  "check_vm_id_path_budget b vm_id =
     and_then (ok_or (file_name (disc_firecracker_bin (be_discovery b)))
       (Config (ConfigInvalidValue ''firecracker_bin'' ''path contains non-UTF-8 characters''))) (\<lambda>fc_basename.
       (let path_len = socket_path_len (be_run_root b) vm_id fc_basename
        in if path_len > SUN_PATH_BUDGET
           then Err (Config (VmIdPathBudgetExceeded vm_id (be_run_root b) fc_basename path_len SUN_PATH_BUDGET))
           else Ok ()))"

definition canonicalize_workspace_root :: "admit_host \<Rightarrow> string \<Rightarrow> (string, vm_error) result" where
  "canonicalize_workspace_root h workspace =
     (case symlink_metadata h workspace of
        Err e \<Rightarrow> Err (PathIo (path_components workspace) e)
      | Ok TypeSymlink \<Rightarrow>
          Err (Config (ConfigInvalidValue ''workspace'' (''workspace root '' @ workspace @ '' must not be a symlink'')))
      | Ok TypeFile \<Rightarrow>
          Err (Config (ConfigInvalidValue ''workspace'' (''workspace root '' @ workspace @ '' must be a directory'')))
      | Ok TypeDir \<Rightarrow>
          (case canonicalize h workspace of Err e \<Rightarrow> Err (PathIo (path_components workspace) e) | Ok p \<Rightarrow> Ok p))"

fun check_resolvers :: "ipv4 list \<Rightarrow> (unit, vm_error) result" where
  "check_resolvers [] = Ok ()"
| "check_resolvers (r # rs) =
     (if is_admitted_dns_resolver r then check_resolvers rs
      else Err (Config (ConfigInvalidValue ''network.join_netns.dns_resolvers''
        (''resolver '' @ ipv4_to_string r @ '' is not admitted''))))"

definition validate_network_policy :: "network_policy \<Rightarrow> (unit, vm_error) result" where
  "validate_network_policy policy = (case policy of JoinNetns spec \<Rightarrow> check_resolvers (spec_dns_resolvers spec) | _ \<Rightarrow> Ok ())"

subsection \<open>Permits\<close>

definition vm_id_or_auto :: "admit_host \<Rightarrow> sandbox_config \<Rightarrow> string" where
  "vm_id_or_auto h config = (case sc_vm_id config of None \<Rightarrow> auto_vm_id h | Some v \<Rightarrow> v)"

definition admission_checks :: "admit_host \<Rightarrow> backend_config \<Rightarrow> sandbox_config \<Rightarrow> (sandbox_config, vm_error) result" where
  "admission_checks h b config =
     and_then (validate_caller_boot_args_if_present (sc_boot_args config)) (\<lambda>_.
     and_then (case sc_workspace config of
                 None \<Rightarrow> Ok None
               | Some ws \<Rightarrow> and_then (canonicalize_workspace_root h ws) (\<lambda>p. Ok (Some p))) (\<lambda>ws.
     and_then (validate_huge_pages_memory config) (\<lambda>_.
     and_then (validate_network_policy (sc_network config)) (\<lambda>_.
       (let vm_id = vm_id_or_auto h config in
        and_then (check_vm_id_name vm_id) (\<lambda>_.
        and_then (check_vm_id_reserved_name vm_id) (\<lambda>_.
        and_then (check_vm_id_path_budget b vm_id) (\<lambda>_.
          Ok (config\<lparr>sc_vm_id := Some vm_id, sc_workspace := ws\<rparr>)))))))))"

text \<open>The state is the number of permits behind the mutex.\<close>
definition admit :: "admit_host \<Rightarrow> backend_config \<Rightarrow> sandbox_config \<Rightarrow> (u32, sandbox, vm_error) eff" where
  "admit h b config =
     bind_eff (lift_result (admission_checks h b config)) (\<lambda>checked available.
       if available = 0 then (Err (AdmissionRefused (max_concurrent_vms b)), available)
       else (Ok \<lparr>sb_config = checked, permit_limit = max_concurrent_vms b, delete_run_dir_on_launch_error = False\<rparr>,
             available - 1))"

text \<open>\<open>Drop\<close> of \<open>AdmissionPermit\<close>\<close>
definition permit_drop :: "u32 \<Rightarrow> u32" where
  "permit_drop available = available + 1"

text \<open>\<open>sandbox_config_for_boot_spec\<close> of the command line\<close>
definition sandbox_config_for_boot_spec :: "boot_spec \<Rightarrow> string \<Rightarrow> sandbox_config" where
  "sandbox_config_for_boot_spec spec request_id =
     (let s = bs_sandbox spec in
      sandbox_config_default\<lparr>sc_vm_id := None, sc_workspace := bs_workspace s, sc_network := bs_network s,
        sc_vcpu_count := Some (bs_vcpu_count s), sc_mem_size_mib := Some (bs_mem_size_mib s), sc_huge_pages_2m := False,
        sc_boot_args := (if bs_boot_args s \<noteq> [] then Some (join '' '' (bs_boot_args s)) else None),
        sc_overlay_size_bytes := bs_overlay_size_bytes s, sc_overlay_clone_mode := bs_overlay_clone_mode s,
        sc_request_id := Some request_id, sc_pmem_layers := bs_pmem_layers spec\<rparr>)"

subsection \<open>What is admitted\<close>

text \<open>The checks, read as one predicate.\<close>
definition admissible :: "admit_host \<Rightarrow> backend_config \<Rightarrow> sandbox_config \<Rightarrow> bool" where
  "admissible h b config \<longleftrightarrow>
     (\<forall>args. sc_boot_args config = Some args \<longrightarrow>
        list_all (\<lambda>c. \<not> is_ascii_control c) args \<and> list_all (\<lambda>t. \<not> caller_token_is_reserved t) (split_whitespace args)) \<and>
     (\<forall>ws. sc_workspace config = Some ws \<longrightarrow> symlink_metadata h ws = Ok TypeDir \<and> is_ok (canonicalize h ws)) \<and>
     (sc_huge_pages_2m config \<longrightarrow> (\<forall>m. sc_mem_size_mib config = Some m \<longrightarrow> even (unat m))) \<and>
     (\<forall>spec. sc_network config = JoinNetns spec \<longrightarrow>
        list_all (\<lambda>r. list_all (\<lambda>n. \<not> in_net r n) special_use_nets) (spec_dns_resolvers spec)) \<and>
     (let vm_id = vm_id_or_auto h config in
        is_valid_vm_id_name vm_id \<and> vm_id \<notin> {''.preserved'', ''warm''} \<and>
        (\<exists>f. file_name (disc_firecracker_bin (be_discovery b)) = Some f \<and> socket_path_len (be_run_root b) vm_id f \<le> 107))"

lemma is_ok_simps [simp]: "is_ok (and_then r f) \<longleftrightarrow> (\<exists>a. r = Ok a \<and> is_ok (f a))"
  by (cases r) simp_all

lemma even_word: "(m :: u32) mod 2 = 0 \<longleftrightarrow> even (unat m)"
  by (simp add: word_unat_eq_iff unat_mod even_iff_mod_2_eq_zero)

lemma huge_pages_ok:
  "is_ok (validate_huge_pages_memory config) \<longleftrightarrow>
     (sc_huge_pages_2m config \<longrightarrow> (\<forall>m. sc_mem_size_mib config = Some m \<longrightarrow> even (unat m)))"
  by (auto simp: validate_huge_pages_memory_def FIRST_LINE_MEM_SIZE_MIB_def even_word split: option.splits)

lemma check_resolvers_ok:
  "is_ok (check_resolvers rs) \<longleftrightarrow> list_all (\<lambda>r. list_all (\<lambda>n. \<not> in_net r n) special_use_nets) rs"
  by (induction rs) (simp_all add: admitted_resolver_iff)

lemma unit_result: "r = Ok () \<longleftrightarrow> is_ok r"
  by (cases r) simp_all

lemma checks_iff: "is_ok (admission_checks h b config) \<longleftrightarrow> admissible h b config"
proof -
  have boot: "is_ok (validate_caller_boot_args_if_present (sc_boot_args config)) \<longleftrightarrow>
      (\<forall>args. sc_boot_args config = Some args \<longrightarrow>
         list_all (\<lambda>c. \<not> is_ascii_control c) args \<and> list_all (\<lambda>t. \<not> caller_token_is_reserved t) (split_whitespace args))"
    by (auto simp: validate_caller_boot_args_if_present_def validate_caller_boot_args_def list_ex_iff list_all_iff
      is_ascii_control_def filter_empty_conv split: option.splits list.splits dest: filter_eq_ConsD)
  have ws: "is_ok (case sc_workspace config of None \<Rightarrow> Ok None
        | Some ws \<Rightarrow> and_then (canonicalize_workspace_root h ws) (\<lambda>p. Ok (Some p))) \<longleftrightarrow>
      (\<forall>ws. sc_workspace config = Some ws \<longrightarrow> symlink_metadata h ws = Ok TypeDir \<and> is_ok (canonicalize h ws))"
    by (auto simp: canonicalize_workspace_root_def is_ok_iff split: option.splits result.splits file_type.splits)
  have net: "is_ok (validate_network_policy (sc_network config)) \<longleftrightarrow>
      (\<forall>spec. sc_network config = JoinNetns spec \<longrightarrow>
         list_all (\<lambda>r. list_all (\<lambda>n. \<not> in_net r n) special_use_nets) (spec_dns_resolvers spec))"
    by (auto simp: validate_network_policy_def check_resolvers_ok split: network_policy.splits)
  have id_ok: "is_ok (check_vm_id_name v) \<longleftrightarrow> is_valid_vm_id_name v"
    "is_ok (check_vm_id_reserved_name v) \<longleftrightarrow> v \<notin> {''.preserved'', ''warm''}"
    for v
    by (simp_all add: check_vm_id_name_def check_vm_id_reserved_name_def is_reserved_run_root_child_def)
  have budget: "is_ok (check_vm_id_path_budget b v) \<longleftrightarrow>
      (\<exists>f. file_name (disc_firecracker_bin (be_discovery b)) = Some f \<and> socket_path_len (be_run_root b) v f \<le> 107)" for v
    by (cases "file_name (disc_firecracker_bin (be_discovery b))")
      (simp_all add: check_vm_id_path_budget_def Let_def SUN_PATH_BUDGET_def not_less)
  show ?thesis
    unfolding admission_checks_def admissible_def Let_def is_ok_simps boot [symmetric] ws [symmetric]
      net [symmetric] huge_pages_ok [symmetric] id_ok [symmetric] budget [symmetric]
    by (auto simp: is_ok_iff)
qed

lemma admit_cases:
  "admit h b config n =
     (case admission_checks h b config of
        Err e \<Rightarrow> (Err e, n)
      | Ok c \<Rightarrow> if n = 0 then (Err (AdmissionRefused (max_concurrent_vms b)), n)
          else (Ok \<lparr>sb_config = c, permit_limit = max_concurrent_vms b, delete_run_dir_on_launch_error = False\<rparr>, n - 1))"
  by (simp add: admit_def bind_eff_def lift_result_def split: result.splits)

lemma admit_ok_iff: "is_ok (fst (admit h b config n)) \<longleftrightarrow> admissible h b config \<and> n \<noteq> 0"
  unfolding checks_iff [symmetric] by (auto simp: admit_cases split: result.splits)

subsection \<open>Permits in any order of calls\<close>

record admission_state =
  permits :: u32
  admitted :: "sandbox list"

inductive admission_step :: "backend_config \<Rightarrow> admission_state \<Rightarrow> admission_state \<Rightarrow> bool" for b where
  step_admit: "admit h b config (permits s) = (Ok sb, n) \<Longrightarrow>
     admission_step b s \<lparr>permits = n, admitted = sb # admitted s\<rparr>"
| step_refuse: "admit h b config (permits s) = (Err e, n) \<Longrightarrow> admission_step b s (s\<lparr>permits := n\<rparr>)"
| step_drop: "sb \<in> set (admitted s) \<Longrightarrow>
     admission_step b s \<lparr>permits = permit_drop (permits s), admitted = remove1 sb (admitted s)\<rparr>"

inductive_cases admission_stepE: "admission_step b s t"

definition admission_init :: "backend_config \<Rightarrow> admission_state \<Rightarrow> bool" where
  "admission_init b s \<longleftrightarrow> s = \<lparr>permits = max_concurrent_vms b, admitted = []\<rparr>"

definition balanced :: "backend_config \<Rightarrow> admission_state \<Rightarrow> bool" where
  "balanced b s \<longleftrightarrow> unat (permits s) + length (admitted s) = unat (max_concurrent_vms b)"

lemma unat_pred: "(n :: u32) \<noteq> 0 \<Longrightarrow> Suc (unat (n - 1)) = unat n"
  by (simp add: unat_minus_one unat_gt_0)

lemma permit_drop_balanced:
  "balanced b s \<Longrightarrow> sb \<in> set (admitted s) \<Longrightarrow> unat (permit_drop (permits s)) = Suc (unat (permits s))"
proof -
  assume "balanced b s" "sb \<in> set (admitted s)"
  then have "unat (permits s) + 1 \<le> unat (max_concurrent_vms b)" by (cases "admitted s") (auto simp: balanced_def)
  moreover have "unat (max_concurrent_vms b) < 2 ^ 32" using unsigned_less [of "max_concurrent_vms b"] by simp
  ultimately show ?thesis by (simp add: permit_drop_def unat_word_ariths)
qed

interpretation perm: transition_system "admission_init b" "admission_step b" "balanced b" for b
proof
  show "balanced b s" if "admission_init b s" for s using that by (simp add: admission_init_def balanced_def)
  show "balanced b t" if "balanced b s" "admission_step b s t" for s t
    using that(2)
  proof cases
    case step_admit
    then show ?thesis using that(1)
      by (auto simp: admit_cases balanced_def unat_pred add_Suc [symmetric] simp del: add_Suc split: result.splits if_splits)
  next
    case step_refuse
    then show ?thesis using that(1) by (auto simp: admit_cases balanced_def split: result.splits if_splits)
  next
    case (step_drop sb)
    then have "Suc (length (remove1 sb (admitted s))) = length (admitted s)"
      by (metis Suc_pred length_pos_if_in_set length_remove1 One_nat_def)
    with step_drop show ?thesis using that(1) permit_drop_balanced [OF that(1), of sb] by (simp add: balanced_def)
  qed
qed

text \<open>C22: However admissions, refusals and drops of VMs follow each other, the free permits and the VMs alive make up the
  limit, so no more than \<open>max_concurrent_vms\<close> are alive and a drop never overflows the count; and a VM is admitted exactly
  when its configuration is admissible and fewer than that many are alive.\<close>
theorem admission_limit:
  assumes "reachable (admission_init b) (admission_step b) s"
  shows "unat (permits s) + length (admitted s) = unat (max_concurrent_vms b) \<and>
    (admitted s \<noteq> [] \<longrightarrow> unat (permit_drop (permits s)) = unat (permits s) + 1) \<and>
    (is_ok (fst (admit h b config (permits s))) \<longleftrightarrow>
       admissible h b config \<and> length (admitted s) < unat (max_concurrent_vms b))"
proof -
  have bal: "balanced b s" by (rule perm.reachable_inv [OF assms])
  then have "permits s \<noteq> 0 \<longleftrightarrow> length (admitted s) < unat (max_concurrent_vms b)"
    by (auto simp: balanced_def word_unat_eq_iff)
  moreover have "admitted s \<noteq> [] \<longrightarrow> unat (permit_drop (permits s)) = unat (permits s) + 1"
    using permit_drop_balanced [OF bal] by (cases "admitted s") auto
  ultimately show ?thesis using bal unfolding balanced_def admit_ok_iff by blast
qed

definition sample_backend :: backend_config where
  "sample_backend = (backend_config_builder sample_discovery ''/run/m80'')\<lparr>max_concurrent_vms := 1\<rparr>"

definition sample_admit_host :: admit_host where
  "sample_admit_host =
     \<lparr>symlink_metadata = (\<lambda>p. if p = ''/work'' then Ok TypeDir else Err NotFound), canonicalize = (\<lambda>p. Ok p),
      process_id = 7, unix_ms_now = 42\<rparr>"

definition sample_sandbox_config :: sandbox_config where
  "sample_sandbox_config = sandbox_config_default\<lparr>sc_workspace := Some ''/work'', sc_boot_args := Some ''audit=0''\<rparr>"

definition sample_admitted :: sandbox where
  "sample_admitted =
     \<lparr>sb_config = sample_sandbox_config\<lparr>sc_vm_id := Some ''vm-7-42''\<rparr>, permit_limit = 1, delete_run_dir_on_launch_error = False\<rparr>"

lemma sample_admission: "admit sample_admit_host sample_backend sample_sandbox_config 1 = (Ok sample_admitted, 0)"
proof -
  have boot: "validate_caller_boot_args_if_present (Some ''audit=0'') = Ok ()" by code_simp
  have vm: "vm_id_or_auto sample_admit_host sample_sandbox_config = ''vm-7-42''"
  proof -
    have "nat_to_string 7 = ''7''" "nat_to_string 42 = ''42''" by code_simp+
    then show ?thesis
      by (simp add: vm_id_or_auto_def auto_vm_id_def sample_sandbox_config_def sandbox_config_default_def sample_admit_host_def)
  qed
  have name: "check_vm_id_name ''vm-7-42'' = Ok ()" "check_vm_id_reserved_name ''vm-7-42'' = Ok ()" by code_simp+
  have "file_name (disc_firecracker_bin sample_discovery) = Some ''fc''" by code_simp
  then have budget: "check_vm_id_path_budget sample_backend ''vm-7-42'' = Ok ()"
    by (simp add: check_vm_id_path_budget_def sample_backend_def backend_config_builder_def Let_def socket_path_len_def
      SUN_PATH_BUDGET_def FIRECRACKER_API_SOCKET_def)
  have ws: "canonicalize_workspace_root sample_admit_host ''/work'' = Ok ''/work''"
    by (simp add: canonicalize_workspace_root_def sample_admit_host_def)
  have fields: "sc_boot_args sample_sandbox_config = Some ''audit=0''" "sc_workspace sample_sandbox_config = Some ''/work''"
    "\<not> sc_huge_pages_2m sample_sandbox_config" "sc_network sample_sandbox_config = NoEgress"
    by (simp_all add: sample_sandbox_config_def sandbox_config_default_def)
  have "admission_checks sample_admit_host sample_backend sample_sandbox_config = Ok (sample_sandbox_config\<lparr>sc_vm_id := Some ''vm-7-42''\<rparr>)"
    by (simp add: admission_checks_def Let_def vm boot name budget ws fields validate_huge_pages_memory_def validate_network_policy_def)
  then show ?thesis by (simp add: admit_cases sample_admitted_def sample_backend_def)
qed

theorem admission_limit_witness:
  "reachable (admission_init sample_backend) (admission_step sample_backend) \<lparr>permits = 0, admitted = [sample_admitted]\<rparr> \<and>
   \<not> is_ok (fst (admit sample_admit_host sample_backend sample_sandbox_config 0)) \<and>
   unat (permit_drop 0) = 1"
proof -
  let ?s = "\<lparr>permits = 0, admitted = [sample_admitted]\<rparr>"
  have m: "max_concurrent_vms sample_backend = 1" by (simp add: sample_backend_def)
  have "admission_step sample_backend \<lparr>permits = 1, admitted = []\<rparr> ?s"
    using step_admit [of sample_admit_host sample_backend sample_sandbox_config "\<lparr>permits = 1, admitted = []\<rparr>"] sample_admission by simp
  then have r: "reachable (admission_init sample_backend) (admission_step sample_backend) ?s"
    by (rule reachable_step [OF reachable_init, rotated]) (simp add: admission_init_def m)
  from admission_limit [OF r, of sample_admit_host sample_sandbox_config] r m show ?thesis by simp
qed

subsection \<open>From admission to launch\<close>

lemma valid_vm_id_plain: "is_valid_vm_id_name vm_id \<Longrightarrow> plain_name vm_id"
  by (auto simp: is_valid_vm_id_name_def plain_name_def list_all_iff is_ascii_alphanumeric_def is_ascii_digit_def dest!: bspec)

lemma file_name_plain: "file_name (path_components s) = Some f \<Longrightarrow> plain_name f"
proof -
  assume f: "file_name (path_components s) = Some f"
  then have "Normal f \<in> set (path_components s)"
    by (auto simp: file_name_def split: if_splits component.splits) (metis last_in_set)
  then show ?thesis by (auto simp: path_components_def plain_name_def split: if_splits dest: split_on_pieces)
qed

lemma run_dir_name: "plain_name vm_id \<Longrightarrow> run_dir_path base vm_id = base @ [Normal vm_id]"
  by (simp add: run_dir_path_def path_push_def)

lemma admitted_checks:
  assumes "admit h b config n = (Ok sb, n')"
  obtains vm_id where "sc_vm_id (sb_config sb) = Some vm_id" "is_valid_vm_id_name vm_id" "vm_id \<notin> {''.preserved'', ''warm''}"
    "\<exists>f. file_name (disc_firecracker_bin (be_discovery b)) = Some f \<and> socket_path_len (be_run_root b) vm_id f \<le> SUN_PATH_BUDGET"
    "sb_config sb = config\<lparr>sc_vm_id := Some vm_id, sc_workspace := sc_workspace (sb_config sb)\<rparr>"
proof -
  from assms have ok: "admission_checks h b config = Ok (sb_config sb)"
    by (auto simp: admit_cases split: result.splits if_splits)
  then have adm: "admissible h b config" using checks_iff [of h b config] by simp
  obtain ws where c: "sb_config sb = config\<lparr>sc_vm_id := Some (vm_id_or_auto h config), sc_workspace := ws\<rparr>"
    using ok by (auto simp: admission_checks_def and_then_eq_Ok Let_def dest: sym)
  show ?thesis
    by (rule that [of "vm_id_or_auto h config"]) (use adm c in \<open>auto simp: admissible_def Let_def SUN_PATH_BUDGET_def\<close>)
qed



subsection \<open>From a boot specification to the kernel\<close>

lemma owned_iff_reserved: "is_m80_owned_kernel_arg t \<longleftrightarrow> caller_token_is_reserved t"
  by (auto simp: is_m80_owned_kernel_arg_def caller_token_is_reserved_def)

lemma spec_args_pass:
  assumes "list_all boot_arg_ok ts" "ts \<noteq> []"
  shows "split_whitespace (join '' '' ts) = ts" "validate_caller_boot_args_if_present (Some (join '' '' ts)) = Ok ()"
proof -
  have "list_all is_token ts" using assms by (auto simp: list_all_iff boot_arg_ok_def is_token_def)
  then show split: "split_whitespace (join '' '' ts) = ts" by (rule split_whitespace_join)
  have "\<not> is_ascii_control c" if "c \<in> set (join '' '' ts)" for c
  proof -
    have "c = CHR '' '' \<or> (\<exists>t \<in> set ts. c \<in> set t)"
      using that by (induction "'' ''" ts rule: join.induct) auto
    then show ?thesis using assms(1) by (auto simp: list_all_iff boot_arg_ok_def is_ascii_control_def)
  qed
  then show "validate_caller_boot_args_if_present (Some (join '' '' ts)) = Ok ()"
    using assms(1) split by (auto simp: validate_caller_Ok list_all_iff boot_arg_ok_def owned_iff_reserved)
qed



end
