(* ===== verification/Config_Load.thy ===== *)
theory Config_Load
  imports Admission "HOL-Library.AList"
begin

text \<open>
  The layered configuration of the host (\<open>m80-firecracker/src/config.rs\<close>): defaults, the system file and its drop-ins, the
  user's, the environment and the flags, and the typed configuration that is read from the result. The files and the
  environment are what a record of functions answers, the TOML parser is a parameter. A hash map is an association list
  with distinct keys. The theorems: for every field the last layer that sets it wins and is named as its source; the
  configuration that a backend reports reads back as itself.
\<close>

subsection \<open>Layers\<close>

datatype toml_value =
    TomlString string
  | TomlInteger int
  | TomlBoolean bool
  | TomlTable "(string \<times> toml_value) list"
  | TomlOther string

type_synonym config_fields = "(string \<times> string \<times> config_source) list"

record config_host =
  cfg_exists :: "string \<Rightarrow> bool"
  cfg_is_dir :: "string \<Rightarrow> bool"
  cfg_is_file :: "string \<Rightarrow> bool"
  cfg_read_to_string :: "string \<Rightarrow> (string, io_error) result"
  cfg_read_dir :: "string \<Rightarrow> ((string, io_error) result list, io_error) result"
  cfg_env_var :: "string \<Rightarrow> string option"

record toml_crate =
  toml_from_str :: "string \<Rightarrow> (toml_value, string) result"
  toml_display :: "toml_value \<Rightarrow> string"

definition defaults :: config_fields where
  "defaults =
     [(''default_profile'', ''env'', SourceDefault), (''max_concurrent_vms'', ''8'', SourceDefault),
      (''run_root'', ''/var/run/m80'', SourceDefault), (''jail_uid'', ''3000'', SourceDefault),
      (''jail_gid'', ''3000'', SourceDefault), (''cgroup_mode'', ''unified-v2'', SourceDefault)]"

record config_file_paths =
  system_file :: "string option"
  system_drop_in_dir :: "string option"
  user_file :: "string option"
  user_drop_in_dir :: "string option"

text \<open>\<open>ConfigFilePaths::host\<close> and \<open>home_dir\<close>\<close>
definition config_paths_host :: "config_host \<Rightarrow> config_file_paths" where
  "config_paths_host h =
     (let home = cfg_env_var h ''HOME'' in
      \<lparr>system_file = Some ''/etc/m80/config.toml'', system_drop_in_dir = Some ''/etc/m80/config.d'',
       user_file = map_option (\<lambda>d. join_text d ''.config/m80/config.toml'') home,
       user_drop_in_dir = map_option (\<lambda>d. join_text d ''.config/m80/config.d'') home\<rparr>)"

definition toml_text :: "toml_crate \<Rightarrow> toml_value \<Rightarrow> string" where
  "toml_text t v =
     (case v of
        TomlString s \<Rightarrow> s
      | TomlInteger i \<Rightarrow> int_to_string i
      | TomlBoolean b \<Rightarrow> if b then ''true'' else ''false''
      | _ \<Rightarrow> toml_display t v)"

fun apply_toml_entries ::
    "toml_crate \<Rightarrow> string \<Rightarrow> string \<Rightarrow> config_source \<Rightarrow> (string \<times> toml_value) list \<Rightarrow> config_fields \<Rightarrow> (config_fields, vm_error) result" where
  "apply_toml_entries t path layer source [] fl = Ok fl"
| "apply_toml_entries t path layer source ((key, val) # entries) fl =
     (if key \<in> set (map fst fl)
      then apply_toml_entries t path layer source entries (AList.update key (toml_text t val, source) fl)
      else Err (Config (ConfigInvalidValue ''config key''
        (''unknown config key '' @ debug_str key @ '' in '' @ layer @ '' '' @ path))))"

definition apply_toml_layer ::
    "toml_crate \<Rightarrow> string \<Rightarrow> string \<Rightarrow> string \<Rightarrow> config_source \<Rightarrow> config_fields \<Rightarrow> (config_fields, vm_error) result" where
  "apply_toml_layer t text path layer source fl =
     (case toml_from_str t text of
        Err e \<Rightarrow> Err (Config (TomlSyntax layer path e))
      | Ok (TomlTable entries) \<Rightarrow> apply_toml_entries t path layer source entries fl
      | Ok _ \<Rightarrow> Err (Config (ConfigInvalidValue ''config root'' (layer @ '' '' @ path @ '' must be a TOML table''))))"

text \<open>\<open>Path::extension\<close> of a file name\<close>
definition file_extension :: "string \<Rightarrow> string option" where
  "file_extension name =
     (let pieces = split_on (CHR ''.'') name in
      if length pieces = 1 \<or> (length pieces = 2 \<and> hd pieces = []) then None else Some (last pieces))"

text \<open>The loop over the directory: \<open>entry?\<close>, then the filter on the path.\<close>
fun drop_in_files :: "config_host \<Rightarrow> string \<Rightarrow> (string, io_error) result list \<Rightarrow> (string list, vm_error) result" where
  "drop_in_files h dir [] = Ok []"
| "drop_in_files h dir (Err e # entries) = Err (PathIo (path_components dir) e)"
| "drop_in_files h dir (Ok name # entries) =
     and_then (drop_in_files h dir entries) (\<lambda>files.
       Ok (if file_extension name = Some ''toml'' \<and> cfg_is_file h (join_text dir name) then name # files else files))"

definition apply_config_file ::
    "config_host \<Rightarrow> toml_crate \<Rightarrow> string \<Rightarrow> string \<Rightarrow> config_source \<Rightarrow> config_fields \<Rightarrow> (config_fields, vm_error) result" where
  "apply_config_file h t path label source fl =
     (case cfg_read_to_string h path of
        Err e \<Rightarrow> Err (PathIo (path_components path) e)
      | Ok content \<Rightarrow> apply_toml_layer t content path label source fl)"

fun apply_config_files ::
    "config_host \<Rightarrow> toml_crate \<Rightarrow> string list \<Rightarrow> string \<Rightarrow> config_source \<Rightarrow> config_fields \<Rightarrow> (config_fields, vm_error) result" where
  "apply_config_files h t [] label source fl = Ok fl"
| "apply_config_files h t (path # paths) label source fl =
     and_then (apply_config_file h t path label source fl) (apply_config_files h t paths label source)"

text \<open>The files of one directory compare as their names.\<close>
definition apply_drop_in_dir ::
    "config_host \<Rightarrow> toml_crate \<Rightarrow> string \<Rightarrow> config_source \<Rightarrow> string \<Rightarrow> config_fields \<Rightarrow> (config_fields, vm_error) result" where
  "apply_drop_in_dir h t dir source label fl =
     (if \<not> cfg_exists h dir then Ok fl
      else if \<not> cfg_is_dir h dir then
        Err (Config (ConfigInvalidValue ''config drop-in path'' (label @ '' is not a directory: '' @ dir)))
      else (case cfg_read_dir h dir of
              Err e \<Rightarrow> Err (PathIo (path_components dir) e)
            | Ok entries \<Rightarrow>
                and_then (drop_in_files h dir entries) (\<lambda>names.
                  apply_config_files h t (map (join_text dir) (sort names)) label source fl)))"

definition env_mapping :: "(string \<times> string) list" where
  "env_mapping =
     [(''M80_DEFAULT_PROFILE'', ''default_profile''), (''M80_MAX_CONCURRENT_VMS'', ''max_concurrent_vms''),
      (''M80_RUN_ROOT'', ''run_root''), (''M80_JAIL_UID'', ''jail_uid''), (''M80_JAIL_GID'', ''jail_gid''),
      (''M80_CGROUP_MODE'', ''cgroup_mode'')]"

definition apply_env :: "config_host \<Rightarrow> config_fields \<Rightarrow> config_fields" where
  "apply_env h fl =
     foldl (\<lambda>fs (env_key, name). case cfg_env_var h env_key of
              Some val \<Rightarrow> AList.update name (val, SourceEnv) fs
            | None \<Rightarrow> fs) fl env_mapping"

fun apply_overrides :: "(string \<times> string) list \<Rightarrow> config_fields \<Rightarrow> (config_fields, vm_error) result" where
  "apply_overrides [] fl = Ok fl"
| "apply_overrides ((k, v) # overrides) fl =
     (if k \<in> set (map fst fl) then apply_overrides overrides (AList.update k (v, SourceFlag) fl)
      else Err (Config (ConfigInvalidValue ''config override'' (''unknown config override key '' @ debug_str k))))"

definition to_effective :: "config_fields \<Rightarrow> effective_field list" where
  "to_effective fl =
     sort_key field_name (map (\<lambda>(n, v, s). \<lparr>field_name = n, field_text = v, field_source = s\<rparr>) fl)"

definition apply_optional_file ::
    "config_host \<Rightarrow> toml_crate \<Rightarrow> string option \<Rightarrow> string \<Rightarrow> config_source \<Rightarrow> config_fields \<Rightarrow> (config_fields, vm_error) result" where
  "apply_optional_file h t path label source fl =
     (case path of
        Some p \<Rightarrow> if cfg_exists h p then apply_config_file h t p label source fl else Ok fl
      | None \<Rightarrow> Ok fl)"

definition apply_optional_dir ::
    "config_host \<Rightarrow> toml_crate \<Rightarrow> string option \<Rightarrow> config_source \<Rightarrow> string \<Rightarrow> config_fields \<Rightarrow> (config_fields, vm_error) result" where
  "apply_optional_dir h t dir source label fl =
     (case dir of Some d \<Rightarrow> apply_drop_in_dir h t d source label fl | None \<Rightarrow> Ok fl)"

definition load_from_paths ::
    "config_host \<Rightarrow> toml_crate \<Rightarrow> (string \<times> string) list \<Rightarrow> config_file_paths \<Rightarrow> (effective_field list, vm_error) result" where
  "load_from_paths h t args_overrides paths =
     and_then (apply_optional_file h t (system_file paths) ''system config'' SystemFile defaults) (\<lambda>fl.
     and_then (apply_optional_dir h t (system_drop_in_dir paths) SystemDropIn ''system config drop-in'' fl) (\<lambda>fl.
     and_then (apply_optional_file h t (user_file paths) ''user config'' UserFile fl) (\<lambda>fl.
     and_then (apply_optional_dir h t (user_drop_in_dir paths) UserDropIn ''user config drop-in'' fl) (\<lambda>fl.
     and_then (apply_overrides args_overrides (apply_env h fl)) (\<lambda>fl.
     Ok (to_effective fl))))))"

definition config_load :: "config_host \<Rightarrow> toml_crate \<Rightarrow> (string \<times> string) list \<Rightarrow> (effective_field list, vm_error) result" where
  "config_load h t args_overrides = load_from_paths h t args_overrides (config_paths_host h)"

subsection \<open>The typed configuration\<close>

text \<open>The message of \<open>ParseIntError\<close> for a \<open>u32\<close>\<close>
fun scan_int_error :: "nat \<Rightarrow> string \<Rightarrow> string" where
  "scan_int_error acc [] = []"
| "scan_int_error acc (c # cs) =
     (if \<not> is_ascii_digit c then ''invalid digit found in string''
      else if 10 * acc + (of_char c - 48) \<ge> 2 ^ 32 then ''number too large to fit in target type''
      else scan_int_error (10 * acc + (of_char c - 48)) cs)"

definition parse_int_error :: "string \<Rightarrow> string" where
  "parse_int_error s =
     (case s of
        [] \<Rightarrow> ''cannot parse integer from empty string''
      | c # cs \<Rightarrow> if c = CHR ''+'' \<and> cs \<noteq> [] then scan_int_error 0 cs else scan_int_error 0 s)"

definition parse_config_u32 :: "string \<Rightarrow> string \<Rightarrow> (u32, vm_error) result" where
  "parse_config_u32 field s =
     ok_or (parse_u32 s) (Config (ConfigInvalidValue field (''must be a u32: '' @ parse_int_error s)))"

definition effective_get :: "effective_field list \<Rightarrow> string \<Rightarrow> string option" where
  "effective_get effective name = map_option field_text (find (\<lambda>f. field_name f = name) effective)"

definition parse_cgroup_mode :: "string \<Rightarrow> (cgroup_mode, vm_error) result" where
  "parse_cgroup_mode s =
     (if s = ''unified-v2'' then Ok UnifiedV2
      else if s = ''disabled'' then Ok CgroupDisabled
      else Err (Config (ConfigInvalidValue ''cgroup_mode''
        (''unknown value '' @ debug_str s @ ''; expected '' @ debug_str ''unified-v2'' @ '' or '' @ debug_str ''disabled''))))"

definition backend_config_from_effective :: "effective_field list \<Rightarrow> discovery \<Rightarrow> (backend_config, vm_error) result" where
  "backend_config_from_effective effective d =
     (let get = (\<lambda>name default. case effective_get effective name of None \<Rightarrow> default | Some v \<Rightarrow> v) in
      and_then (parse_config_u32 ''max_concurrent_vms'' (get ''max_concurrent_vms'' ''8'')) (\<lambda>mx.
      and_then (parse_config_u32 ''jail_uid'' (get ''jail_uid'' ''3000'')) (\<lambda>uid.
      and_then (parse_config_u32 ''jail_gid'' (get ''jail_gid'' ''3000'')) (\<lambda>gid.
      and_then (parse_cgroup_mode (get ''cgroup_mode'' ''unified-v2'')) (\<lambda>m.
      Ok \<lparr>be_discovery = d, max_concurrent_vms = mx, be_run_root = get ''run_root'' ''/var/run/m80'', be_jail_uid = uid,
          be_jail_gid = gid, be_cgroup_mode = m\<rparr>)))))"

subsection \<open>The last layer wins\<close>

text \<open>What each layer sets, in the order of the layers.\<close>
definition toml_assignments :: "toml_crate \<Rightarrow> config_source \<Rightarrow> string \<Rightarrow> config_fields" where
  "toml_assignments t source text =
     (case toml_from_str t text of Ok (TomlTable es) \<Rightarrow> map (\<lambda>(k, v). (k, toml_text t v, source)) es | _ \<Rightarrow> [])"

definition file_assignments :: "config_host \<Rightarrow> toml_crate \<Rightarrow> config_source \<Rightarrow> string \<Rightarrow> config_fields" where
  "file_assignments h t source path =
     (case cfg_read_to_string h path of Ok content \<Rightarrow> toml_assignments t source content | Err _ \<Rightarrow> [])"

definition dir_assignments :: "config_host \<Rightarrow> toml_crate \<Rightarrow> config_source \<Rightarrow> string \<Rightarrow> config_fields" where
  "dir_assignments h t source dir =
     (case cfg_read_dir h dir of
        Ok entries \<Rightarrow> concat (map (\<lambda>name. file_assignments h t source (join_text dir name))
          (sort [name. Ok name \<leftarrow> entries, file_extension name = Some ''toml'' \<and> cfg_is_file h (join_text dir name)]))
      | Err _ \<Rightarrow> [])"

definition when_there :: "config_host \<Rightarrow> (string \<Rightarrow> config_fields) \<Rightarrow> string option \<Rightarrow> config_fields" where
  "when_there h f path = (case path of Some p \<Rightarrow> if cfg_exists h p then f p else [] | None \<Rightarrow> [])"

definition env_assignments :: "config_host \<Rightarrow> config_fields" where
  "env_assignments h =
     concat (map (\<lambda>(key, name). case cfg_env_var h key of Some v \<Rightarrow> [(name, v, SourceEnv)] | None \<Rightarrow> []) env_mapping)"

definition config_assignments :: "config_host \<Rightarrow> toml_crate \<Rightarrow> (string \<times> string) list \<Rightarrow> config_file_paths \<Rightarrow> config_fields" where
  "config_assignments h t overrides paths =
     defaults @ when_there h (file_assignments h t SystemFile) (system_file paths) @
     when_there h (dir_assignments h t SystemDropIn) (system_drop_in_dir paths) @
     when_there h (file_assignments h t UserFile) (user_file paths) @
     when_there h (dir_assignments h t UserDropIn) (user_drop_in_dir paths) @
     env_assignments h @ map (\<lambda>(k, v). (k, v, SourceFlag)) overrides"

definition sets :: "config_fields \<Rightarrow> config_fields \<Rightarrow> config_fields \<Rightarrow> bool" where
  "sets as fl fl' \<longleftrightarrow> map fst fl' = map fst fl \<and> map_of fl' = map_of fl ++ map_of (rev as)"

lemma sets_Nil [simp]: "sets [] fl fl" by (simp add: sets_def)

lemma sets_append: "sets as f g \<Longrightarrow> sets bs g k \<Longrightarrow> sets (as @ bs) f k"
  by (simp add: sets_def map_add_assoc)

lemma sets_update: "k \<in> set (map fst fl) \<Longrightarrow> sets [(k, v)] fl (AList.update k v fl)"
  by (auto simp: sets_def update_keys update_conv' map_add_def fun_eq_iff)

lemma sets_Cons: "k \<in> fst ` set f \<Longrightarrow> sets as (AList.update k v f) g \<Longrightarrow> sets ((k, v) # as) f g"
  using sets_append [OF sets_update [of k f v], of as g] by simp

lemma sets_entries:
  "apply_toml_entries t path layer source es f = Ok g \<Longrightarrow> sets (map (\<lambda>(k, v). (k, toml_text t v, source)) es) f g"
  by (induction t path layer source es f rule: apply_toml_entries.induct) (auto split: if_splits intro!: sets_Cons rev_image_eqI)

lemma sets_file: "apply_config_file h t path label source f = Ok g \<Longrightarrow> sets (file_assignments h t source path) f g"
  by (auto simp: apply_config_file_def apply_toml_layer_def file_assignments_def toml_assignments_def
    split: result.splits toml_value.splits dest: sets_entries)

lemma sets_files:
  "apply_config_files h t paths label source f = Ok g \<Longrightarrow> sets (concat (map (file_assignments h t source) paths)) f g"
  by (induction paths arbitrary: f) (auto simp: and_then_eq_Ok intro: sets_append sets_file)

lemma drop_in_files_Ok:
  "drop_in_files h dir entries = Ok names \<Longrightarrow>
     names = [name. Ok name \<leftarrow> entries, file_extension name = Some ''toml'' \<and> cfg_is_file h (join_text dir name)]"
  by (induction h dir entries arbitrary: names rule: drop_in_files.induct) (auto simp: and_then_eq_Ok)

lemma sets_dir: "apply_drop_in_dir h t dir source label f = Ok g \<Longrightarrow> sets (if cfg_exists h dir then dir_assignments h t source dir else []) f g"
  by (auto simp: apply_drop_in_dir_def dir_assignments_def and_then_eq_Ok o_def split: if_splits result.splits
    dest!: drop_in_files_Ok sets_files)

lemma sets_optional:
  "apply_optional_file h t path label source f = Ok g \<Longrightarrow> sets (when_there h (file_assignments h t source) path) f g"
  "apply_optional_dir h t path source label f = Ok g \<Longrightarrow> sets (when_there h (dir_assignments h t source) path) f g"
  by (auto simp: apply_optional_file_def apply_optional_dir_def when_there_def split: option.splits if_splits dest: sets_file sets_dir)

lemma sets_env:
  assumes "map fst fl = map fst defaults"
  shows "sets (env_assignments h) fl (apply_env h fl)"
proof -
  have "sets (concat (map (\<lambda>(key, name). case cfg_env_var h key of Some v \<Rightarrow> [(name, v, SourceEnv)] | None \<Rightarrow> []) m)) f
      (foldl (\<lambda>fs (env_key, name). case cfg_env_var h env_key of Some val \<Rightarrow> AList.update name (val, SourceEnv) fs | None \<Rightarrow> fs) f m)"
    if "snd ` set m \<subseteq> set (map fst f)" for m f
    using that
  proof (induction m arbitrary: f)
    case (Cons p m)
    obtain key name where p: "p = (key, name)" by fastforce
    show ?case
    proof (cases "cfg_env_var h key")
      case (Some v)
      have "set (map fst (AList.update name (v, SourceEnv) f)) = set (map fst f)" using Cons.prems p by (auto simp: update_keys)
      then show ?thesis using Cons.IH [of "AList.update name (v, SourceEnv) f"] Cons.prems p Some by (auto intro!: sets_Cons rev_image_eqI)
    qed (use Cons p in auto)
  qed simp
  moreover have "snd ` set env_mapping \<subseteq> set (map fst fl)" unfolding assms by (simp add: env_mapping_def defaults_def)
  ultimately show ?thesis unfolding env_assignments_def apply_env_def by blast
qed

lemma sets_overrides: "apply_overrides os f = Ok g \<Longrightarrow> sets (map (\<lambda>(k, v). (k, v, SourceFlag)) os) f g"
  by (induction os f rule: apply_overrides.induct) (auto split: if_splits intro!: sets_Cons rev_image_eqI)

lemma sets_keys: "sets as f g \<Longrightarrow> map fst g = map fst f"
  by (simp add: sets_def)

lemma loaded_fields:
  assumes "load_from_paths h t overrides paths = Ok eff"
  obtains fl where "eff = to_effective fl" "map fst fl = map fst defaults"
    "map_of fl = map_of (rev (config_assignments h t overrides paths))"
proof -
  obtain f1 f2 f3 f4 f5 where 1: "sets (when_there h (file_assignments h t SystemFile) (system_file paths)) defaults f1"
    and 2: "sets (when_there h (dir_assignments h t SystemDropIn) (system_drop_in_dir paths)) f1 f2"
    and 3: "sets (when_there h (file_assignments h t UserFile) (user_file paths)) f2 f3"
    and 4: "sets (when_there h (dir_assignments h t UserDropIn) (user_drop_in_dir paths)) f3 f4"
    and 5: "sets (map (\<lambda>(k, v). (k, v, SourceFlag)) overrides) (apply_env h f4) f5" and eff: "eff = to_effective f5"
    using assms by (auto simp: load_from_paths_def and_then_eq_Ok dest!: sets_optional sets_overrides)
  have keys: "map fst f4 = map fst defaults" using 1 2 3 4 by (simp add: sets_def)
  have all: "sets (when_there h (file_assignments h t SystemFile) (system_file paths) @
      when_there h (dir_assignments h t SystemDropIn) (system_drop_in_dir paths) @
      when_there h (file_assignments h t UserFile) (user_file paths) @
      when_there h (dir_assignments h t UserDropIn) (user_drop_in_dir paths) @
      env_assignments h @ map (\<lambda>(k, v). (k, v, SourceFlag)) overrides) defaults f5"
    by (intro sets_append [OF 1] sets_append [OF 2] sets_append [OF 3] sets_append [OF 4] sets_append [OF sets_env [OF keys]] 5)
  have "map_of (rev defaults) = map_of defaults" by (rule ext) (simp add: defaults_def)
  with all have "map_of f5 = map_of (rev (config_assignments h t overrides paths))"
    unfolding sets_def config_assignments_def by (simp add: map_add_assoc)
  with that [OF eff] sets_keys [OF all] show ?thesis by blast
qed

lemma effective_entries:
  assumes "distinct (map fst fl)" "f \<in> set (to_effective fl)"
  shows "map_of fl (field_name f) = Some (field_text f, field_source f)"
  using assms by (auto simp: to_effective_def)

lemma map_sort_key: "map key (sort_key key xs) = sort (map key xs)"
  by (rule sym, rule properties_for_sort) simp_all

text \<open>C25: For every field the effective configuration reports the value of the last layer that sets it, and that layer as its
  source; the layers are the defaults, the system file, its drop-ins by name, the user file, its drop-ins by name, the
  environment and the flags; the fields are exactly the known ones, sorted.\<close>
theorem last_layer_wins:
  assumes "load_from_paths h t overrides paths = Ok eff"
  shows "map field_name eff = [''cgroup_mode'', ''default_profile'', ''jail_gid'', ''jail_uid'', ''max_concurrent_vms'', ''run_root''] \<and>
    (\<forall>f \<in> set eff. map_of (rev (config_assignments h t overrides paths)) (field_name f) = Some (field_text f, field_source f))"
proof -
  obtain fl where eff: "eff = to_effective fl" and keys: "map fst fl = map fst defaults"
    and m: "map_of fl = map_of (rev (config_assignments h t overrides paths))"
    by (rule loaded_fields [OF assms])
  have "map field_name eff = sort (map fst fl)"
    unfolding eff to_effective_def map_sort_key by (simp add: o_def case_prod_unfold)
  also have "\<dots> = [''cgroup_mode'', ''default_profile'', ''jail_gid'', ''jail_uid'', ''max_concurrent_vms'', ''run_root'']"
    unfolding keys by code_simp
  finally show ?thesis using effective_entries [of fl] keys eff m by (auto simp: defaults_def)
qed

subsection \<open>Reading back what a backend reports\<close>

lemma parse_config_u32_print [simp]: "parse_config_u32 field (nat_to_string (unat x)) = Ok x"
  by (simp add: parse_config_u32_def parse_u32_to_string)

text \<open>The effective configuration that a backend reports reads back as the configuration of the backend.\<close>
theorem reported_config_round_trip:
  "backend_config_from_effective (build_effective_config b) (be_discovery b) = Ok b"
proof -
  let ?eff = "build_effective_config b"
  have get: "effective_get ?eff ''max_concurrent_vms'' = Some (nat_to_string (unat (max_concurrent_vms b)))"
    "effective_get ?eff ''run_root'' = Some (be_run_root b)"
    "effective_get ?eff ''jail_uid'' = Some (nat_to_string (unat (be_jail_uid b)))"
    "effective_get ?eff ''jail_gid'' = Some (nat_to_string (unat (be_jail_gid b)))"
    "effective_get ?eff ''cgroup_mode'' = Some (case be_cgroup_mode b of UnifiedV2 \<Rightarrow> ''unified-v2'' | CgroupDisabled \<Rightarrow> ''disabled'')"
    by (simp_all add: effective_get_def build_effective_config_def)
  have "parse_cgroup_mode (case be_cgroup_mode b of UnifiedV2 \<Rightarrow> ''unified-v2'' | CgroupDisabled \<Rightarrow> ''disabled'') = Ok (be_cgroup_mode b)"
    by (cases "be_cgroup_mode b") (simp_all add: parse_cgroup_mode_def)
  then show ?thesis by (simp add: backend_config_from_effective_def Let_def get)
qed

subsection \<open>An example\<close>

definition sample_toml :: toml_crate where
  "sample_toml =
     \<lparr>toml_from_str = (\<lambda>s. if s = ''A'' then Ok (TomlTable [(''jail_uid'', TomlInteger 4), (''run_root'', TomlString ''/r'')])
        else if s = ''B'' then Ok (TomlTable [(''jail_uid'', TomlInteger 5)]) else Err ''bad''),
      toml_display = (\<lambda>_. [])\<rparr>"

definition sample_config_host :: config_host where
  "sample_config_host =
     \<lparr>cfg_exists = (\<lambda>p. p \<in> {''/sys.toml'', ''/d''}), cfg_is_dir = (\<lambda>p. p = ''/d''), cfg_is_file = (\<lambda>p. p \<noteq> ''/d''),
      cfg_read_to_string = (\<lambda>p. if p = ''/sys.toml'' then Ok ''A'' else if p = ''/d/10.toml'' then Ok ''B'' else Err NotFound),
      cfg_read_dir = (\<lambda>_. Ok [Ok ''README'', Ok ''10.toml'']),
      cfg_env_var = (\<lambda>k. if k = ''M80_JAIL_GID'' then Some ''6000'' else None)\<rparr>"

definition sample_config_paths :: config_file_paths where
  "sample_config_paths = \<lparr>system_file = Some ''/sys.toml'', system_drop_in_dir = Some ''/d'', user_file = None, user_drop_in_dir = None\<rparr>"

theorem last_layer_wins_witness:
  "\<exists>eff. load_from_paths sample_config_host sample_toml [(''max_concurrent_vms'', ''2'')] sample_config_paths = Ok eff \<and>
     \<lparr>field_name = ''jail_uid'', field_text = ''5'', field_source = SystemDropIn\<rparr> \<in> set eff \<and>
     map field_name eff = [''cgroup_mode'', ''default_profile'', ''jail_gid'', ''jail_uid'', ''max_concurrent_vms'', ''run_root'']"
proof -
  let ?h = sample_config_host and ?t = sample_toml
  have ext: "file_extension ''README'' = None" "file_extension ''10.toml'' = Some ''toml''" by code_simp+
  have path: "join_text ''/d'' ''10.toml'' = ''/d/10.toml''" by code_simp
  have num: "int_to_string 4 = ''4''" "int_to_string 5 = ''5''" by code_simp+
  obtain f1 where 1: "apply_optional_file ?h ?t (Some ''/sys.toml'') ''system config'' SystemFile defaults = Ok f1"
    and v1: "map fst f1 = map fst defaults"
    by (simp add: apply_optional_file_def apply_config_file_def apply_toml_layer_def sample_config_host_def sample_toml_def
      toml_text_def num defaults_def)
  have 2: "apply_optional_dir ?h ?t (Some ''/d'') SystemDropIn ''system config drop-in'' f1 =
      Ok (AList.update ''jail_uid'' (''5'', SystemDropIn) f1)"
    using arg_cong [OF v1, of set]
    by (simp add: apply_optional_dir_def apply_drop_in_dir_def apply_config_file_def apply_toml_layer_def sample_config_host_def
      sample_toml_def toml_text_def num ext path defaults_def)
  let ?f2 = "AList.update ''jail_uid'' (''5'', SystemDropIn) f1"
  have k2: "map fst ?f2 = map fst defaults" using v1 by (simp add: update_keys defaults_def)
  have env: "apply_env ?h ?f2 = AList.update ''jail_gid'' (''6000'', SourceEnv) ?f2"
    by (simp add: apply_env_def env_mapping_def sample_config_host_def)
  let ?f4 = "AList.update ''max_concurrent_vms'' (''2'', SourceFlag) (AList.update ''jail_gid'' (''6000'', SourceEnv) ?f2)"
  have over: "apply_overrides [(''max_concurrent_vms'', ''2'')] (apply_env ?h ?f2) = Ok ?f4"
    unfolding env using arg_cong [OF k2, of set] by (auto simp: update_keys defaults_def simp del: AList.update.simps)
  have l: "load_from_paths ?h ?t [(''max_concurrent_vms'', ''2'')] sample_config_paths = Ok (to_effective ?f4)"
    unfolding load_from_paths_def sample_config_paths_def
    by (simp add: 1 2 over apply_optional_file_def [of _ _ None] apply_optional_dir_def [of _ _ None] del: apply_overrides.simps)
  have "map_of ?f4 ''jail_uid'' = Some (''5'', SystemDropIn)" by (simp add: update_conv')
  then have "(''jail_uid'', ''5'', SystemDropIn) \<in> set ?f4" by (rule map_of_SomeD)
  then have "\<lparr>field_name = ''jail_uid'', field_text = ''5'', field_source = SystemDropIn\<rparr> \<in> set (to_effective ?f4)"
    unfolding to_effective_def set_sort set_map by (rule rev_image_eqI) simp
  with conjunct1 [OF last_layer_wins [OF l]] l show ?thesis by (intro exI conjI)
qed

end
