(* ===== verification/Scratch.thy ===== *)
theory Scratch
  imports Jail_Plan
begin

text \<open>
  Scratch images (\<open>m80-storage/src/scratch.rs\<close>): hydration of an image from the workspace of the host, and extraction of
  what the guest left in it into a directory of the host. The tree of a mounted image, or of the workspace, is data;
  what the guest can put there is arbitrary. The host is the file system of \<open>Host_Fs\<close> with permission bits, and every
  call on either side may fail by the fault script. The outputs of \<open>e2fsck\<close>, \<open>mkfs.ext4\<close>, \<open>mount\<close> and \<open>umount\<close> are parameters.
  The theorems: a successful extraction produces exactly the admissible part of the tree, without special bits and
  within the byte cap; a failed one leaves the destination alone; hydration followed by extraction gives the workspace
  back; the size that is chosen for an image holds the workspace.
\<close>

subsection \<open>Data\<close>

datatype image_node =
    ImgFile "u8 list" u32
  | ImgDir "(string \<times> image_node) list" u32
  | ImgSymlink
  | ImgSpecial
  | ImgOther

datatype rejection_reason = RejectedSymlink | RejectedSpecialFile

record change_set =
  staged :: "fpath list"
  rejected :: "(fpath \<times> rejection_reason) list"
  total_bytes :: u64

datatype storage_error =
    OverlayCreateFailed fpath io_error
  | OverlayTemplateCreateFailed fpath io_error
  | OverlayTemplateMismatch fpath string
  | OverlayTemplateCloneFailed fpath fpath io_error
  | OverlayTemplateCloneModeProbeFailed fpath string
  | SubprocessFailed string fpath string string
  | AdmissibilityRefused fpath
  | ExtractSizeExceeded fpath u64 u64
  | SwapFailed io_error
  | StorageIo fpath io_error

record mode_world = fs +
  modes :: "fpath \<Rightarrow> u32"

type_synonym 'a storage = "(mode_world, 'a, storage_error) eff"

record cmd_output =
  out_code :: "i32 option"
  out_signal :: "i32 option"
  out_stdout :: string
  out_stderr :: string

definition format_exit :: "cmd_output \<Rightarrow> string" where
  "format_exit out =
     (case out_code out of
        Some c \<Rightarrow> (if sint c < 0 then ''-'' else '''') @ nat_to_string (nat \<bar>sint c\<bar>)
      | None \<Rightarrow> (case out_signal out of
          Some s \<Rightarrow> ''signal: '' @ (if sint s < 0 then ''-'' else '''') @ nat_to_string (nat \<bar>sint s\<bar>)
        | None \<Rightarrow> ''unknown''))"

subsection \<open>System calls\<close>

text \<open>A call that reads the source tree: it fails by the script or changes nothing.\<close>
definition src_call :: "fpath \<Rightarrow> unit storage" where
  "src_call p w = (case take_fault w of (Fails _ _, w') \<Rightarrow> (Err (StorageIo p OtherIo), w') | (Works, w') \<Rightarrow> (Ok (), w'))"

definition chmod :: "fpath \<Rightarrow> u32 \<Rightarrow> (mode_world, unit, io_error) eff" where
  "chmod p m = bind_eff (fs_set_permissions p) (\<lambda>_ w. (Ok (), w\<lparr>modes := (modes w)(p := m)\<rparr>))"

text \<open>\<open>fs::copy\<close> of a file with these bytes and this mode; a failed copy may leave a part of it.\<close>
definition copy_file :: "fpath \<Rightarrow> u8 list \<Rightarrow> u32 \<Rightarrow> (mode_world, unit, io_error) eff" where
  "copy_file dst bs m w = (case fs_write dst bs w of (r, w') \<Rightarrow> (r, w'\<lparr>modes := (modes w')(dst := m)\<rparr>))"

text \<open>\<open>open\<close> with \<open>create_new\<close>\<close>
definition create_new :: "fpath \<Rightarrow> (mode_world, unit, io_error) eff" where
  "create_new p w = (if nodes w p \<noteq> None then (Err AlreadyExists, snd (take_fault w)) else fs_write p [] w)"

definition sys_rename :: "fpath \<Rightarrow> fpath \<Rightarrow> (mode_world, unit, io_error) eff" where
  "sys_rename a b =
     bind_eff (fs_rename a b) (\<lambda>_ w. (Ok (), w\<lparr>modes := (\<lambda>q. if under b q then modes w (a @ drop (length b) q) else modes w q)\<rparr>))"

text \<open>A temporary directory is made with mode \<open>0700\<close>; its name is a parameter.\<close>
definition make_tempdir :: "fpath \<Rightarrow> (mode_world, unit, io_error) eff" where
  "make_tempdir p = bind_eff (fs_create_dir p) (\<lambda>_ w. (Ok (), w\<lparr>modes := (modes w)(p := 0x1C0)\<rparr>))"

definition drop_tempdir :: "fpath \<Rightarrow> mode_world \<Rightarrow> mode_world" where
  "drop_tempdir p w = snd (fs_remove_dir_all p w)"

subsection \<open>Sizes\<close>

definition MIN_SCRATCH_BYTES :: u64 where "MIN_SCRATCH_BYTES = 64 * 1024 * 1024"
definition SCRATCH_PADDING_BYTES :: u64 where "SCRATCH_PADDING_BYTES = 32 * 1024 * 1024"
definition SCRATCH_ALIGNMENT_BYTES :: u64 where "SCRATCH_ALIGNMENT_BYTES = 4 * 1024 * 1024"
definition HOST_VISIBLE_MODE_BITS :: u32 where "HOST_VISIBLE_MODE_BITS = 0x1FF"

definition align_scratch_size :: "u64 \<Rightarrow> u64" where
  "align_scratch_size sz =
     (let remainder = sz mod SCRATCH_ALIGNMENT_BYTES
      in if remainder = 0 then sz else saturating_add sz (SCRATCH_ALIGNMENT_BYTES - remainder))"

fun workspace_used_bytes :: "fpath \<Rightarrow> (string \<times> image_node) list \<Rightarrow> u64 \<Rightarrow> u64 storage" where
  "workspace_used_bytes src [] used = ret used"
| "workspace_used_bytes src ((n, d) # es) used =
     bind_eff (src_call src) (\<lambda>_.
     bind_eff (src_call (src @ [n])) (\<lambda>_.
       case d of
         ImgDir cs m \<Rightarrow>
           bind_eff (src_call (src @ [n])) (\<lambda>_.
           bind_eff (workspace_used_bytes (src @ [n]) cs 0) (\<lambda>u.
           workspace_used_bytes src es (saturating_add used u)))
       | ImgFile bs m \<Rightarrow> workspace_used_bytes src es (saturating_add used (word_of_nat (length bs)))
       | _ \<Rightarrow> fail (AdmissibilityRefused (src @ [n]))))"

definition recommended_size_for_workspace :: "fpath \<Rightarrow> (string \<times> image_node) list \<Rightarrow> u64 storage" where
  "recommended_size_for_workspace workspace es =
     bind_eff (src_call workspace) (\<lambda>_.
     bind_eff (workspace_used_bytes workspace es 0) (\<lambda>used.
     ret (align_scratch_size (max (saturating_add used SCRATCH_PADDING_BYTES) MIN_SCRATCH_BYTES))))"

subsection \<open>Hydration\<close>

record storage_ops =
  mkfs_output :: "(cmd_output, io_error) result"
  e2fsck_output :: "(cmd_output, io_error) result"
  mount_output :: "(cmd_output, io_error) result"
  umount_output :: "(cmd_output, io_error) result"

definition set_host_visible_permissions :: "fpath \<Rightarrow> u32 \<Rightarrow> unit storage" where
  "set_host_visible_permissions p m = map_err (StorageIo p) (chmod p (m AND HOST_VISIBLE_MODE_BITS))"

definition copy_regular_file_no_follow :: "fpath \<Rightarrow> fpath \<Rightarrow> u8 list \<Rightarrow> u32 \<Rightarrow> unit storage" where
  "copy_regular_file_no_follow src dst bs m =
     bind_eff (src_call src) (\<lambda>_.
     bind_eff (map_err (StorageIo dst) (create_new dst)) (\<lambda>_.
     bind_eff (map_err (StorageIo src) (fs_write dst bs)) (\<lambda>_.
     set_host_visible_permissions dst m)))"

fun copy_tree :: "fpath \<Rightarrow> fpath \<Rightarrow> fpath \<Rightarrow> (string \<times> image_node) list \<Rightarrow> unit storage" where
  "copy_tree root dst_root rel [] = ret ()"
| "copy_tree root dst_root rel ((n, d) # es) =
     (let src_path = root @ rel @ [n]; dst_path = dst_root @ rel @ [n] in
      bind_eff (src_call (root @ rel)) (\<lambda>_.
      bind_eff (src_call src_path) (\<lambda>_.
        case d of
          ImgDir cs m \<Rightarrow>
            bind_eff (map_err (StorageIo dst_path) (fs_create_dir dst_path)) (\<lambda>_.
            bind_eff (set_host_visible_permissions dst_path m) (\<lambda>_.
            bind_eff (src_call src_path) (\<lambda>_.
            bind_eff (copy_tree root dst_root (rel @ [n]) cs) (\<lambda>_.
            copy_tree root dst_root rel es))))
        | ImgFile bs m \<Rightarrow>
            bind_eff (copy_regular_file_no_follow src_path dst_path bs m) (\<lambda>_. copy_tree root dst_root rel es)
        | _ \<Rightarrow> fail (AdmissibilityRefused src_path))))"

definition prepare_scratch_mount_root :: "fpath \<Rightarrow> u32 \<Rightarrow> fpath \<Rightarrow> unit storage" where
  "prepare_scratch_mount_root workspace ws_mode mount_root =
     bind_eff (src_call workspace) (\<lambda>_. set_host_visible_permissions mount_root ws_mode)"

definition trimmed_detail :: "cmd_output \<Rightarrow> string" where
  "trimmed_detail out = trim (if out_stderr out = [] then out_stdout out else out_stderr out)"

definition run_mount :: "(cmd_output, io_error) result \<Rightarrow> fpath \<Rightarrow> unit storage" where
  "run_mount output mount_point =
     (case output of
        Err e \<Rightarrow> fail (StorageIo mount_point e)
      | Ok out \<Rightarrow> if out_code out = Some 0 then ret () else fail (StorageIo mount_point OtherIo))"

text \<open>A fresh ext4 image shows \<open>lost+found\<close>; after an unmount the mount point is empty again.\<close>
definition mount_fresh :: "fpath \<Rightarrow> mode_world \<Rightarrow> mode_world" where
  "mount_fresh m w = w\<lparr>nodes := (nodes w)(m @ [''lost+found''] \<mapsto> DirNode)\<rparr>"

definition unmounted :: "fpath \<Rightarrow> mode_world \<Rightarrow> mode_world" where
  "unmounted m w = w\<lparr>nodes := (\<lambda>q. if under m q \<and> q \<noteq> m then None else nodes w q)\<rparr>"

text \<open>What the copy does at the mount point, and the result of the whole hydration: the copy error wins. The second component of
  the result is what the mount point showed before the unmount, which is what the image holds.\<close>
definition hydrate_mounted ::
    "storage_ops \<Rightarrow> fpath \<Rightarrow> u32 \<Rightarrow> (string \<times> image_node) list \<Rightarrow> fpath \<Rightarrow> (mode_world, mode_world, storage_error) eff" where
  "hydrate_mounted ops workspace ws_mode es m w =
     (case bind_eff (prepare_scratch_mount_root workspace ws_mode m) (\<lambda>_.
             bind_eff (src_call workspace) (\<lambda>_. copy_tree workspace m [] es)) (mount_fresh m w) of
        (copy_result, w1) \<Rightarrow>
          (case run_mount (umount_output ops) m w1 of
             (umount_result, w2) \<Rightarrow>
               (case copy_result of
                  Err e \<Rightarrow> (Err e, if is_ok umount_result then unmounted m w2 else w2)
                | Ok _ \<Rightarrow>
                    (case umount_result of
                       Err e \<Rightarrow> (Err e, w2)
                     | Ok _ \<Rightarrow> (Ok w1, unmounted m w2)))))"

definition do_create ::
    "storage_ops \<Rightarrow> fpath \<Rightarrow> u32 \<Rightarrow> (string \<times> image_node) list \<Rightarrow> fpath \<Rightarrow> u64 \<Rightarrow> fpath \<Rightarrow> (mode_world, mode_world, storage_error) eff" where
  "do_create ops workspace ws_mode es img sz m =
     bind_eff (map_err (StorageIo img) (fs_write img [])) (\<lambda>_.
     bind_eff (map_err (StorageIo img) (fs_write img (replicate (unat sz) 0))) (\<lambda>_.
     bind_eff (case mkfs_output ops of
                 Err e \<Rightarrow> fail (StorageIo img e)
               | Ok out \<Rightarrow> if out_code out = Some 0 then ret ()
                   else fail (SubprocessFailed ''mkfs.ext4'' img (format_exit out) (trim (out_stderr out)))) (\<lambda>_.
     bind_eff (map_err (StorageIo img) (make_tempdir m)) (\<lambda>_ w.
       case bind_eff (run_mount (mount_output ops) m) (\<lambda>_. hydrate_mounted ops workspace ws_mode es m) w of
         (r, w') \<Rightarrow> (r, drop_tempdir m w')))))"

definition scratch_create ::
    "storage_ops \<Rightarrow> fpath \<Rightarrow> u32 \<Rightarrow> (string \<times> image_node) list \<Rightarrow> fpath \<Rightarrow> u64 \<Rightarrow> fpath \<Rightarrow> (mode_world, mode_world, storage_error) eff" where
  "scratch_create ops workspace ws_mode es img sz m w =
     (case do_create ops workspace ws_mode es img sz m w of
        (Ok mounted, w') \<Rightarrow> (Ok mounted, w')
      | (Err e, w') \<Rightarrow> (Err e, snd (fs_remove_file img w')))"

subsection \<open>Extraction\<close>

definition e2fsck_exit_acceptable :: "i32 option \<Rightarrow> bool" where
  "e2fsck_exit_acceptable code = (case code of Some c \<Rightarrow> c AND NOT 3 = 0 | None \<Rightarrow> False)"

definition run_e2fsck :: "storage_ops \<Rightarrow> fpath \<Rightarrow> unit storage" where
  "run_e2fsck ops img =
     (case e2fsck_output ops of
        Err e \<Rightarrow> fail (StorageIo img e)
      | Ok out \<Rightarrow> if e2fsck_exit_acceptable (out_code out) then ret ()
          else fail (SubprocessFailed ''e2fsck'' img (format_exit out) (trimmed_detail out)))"

fun walk_for_extract ::
    "fpath \<Rightarrow> fpath \<Rightarrow> u64 option \<Rightarrow> fpath \<Rightarrow> (string \<times> image_node) list \<Rightarrow> change_set \<Rightarrow> change_set storage" where
  "walk_for_extract root dst_root mx rel [] acc = ret acc"
| "walk_for_extract root dst_root mx rel ((n, d) # es) acc =
     (let path = rel @ [n]; src_path = root @ path; dst_path = dst_root @ path in
      bind_eff (src_call (root @ rel)) (\<lambda>_.
      bind_eff (src_call src_path) (\<lambda>_.
        if path = [''lost+found''] then walk_for_extract root dst_root mx rel es acc
        else
          (case d of
             ImgSymlink \<Rightarrow> walk_for_extract root dst_root mx rel es (acc\<lparr>rejected := rejected acc @ [(path, RejectedSymlink)]\<rparr>)
           | ImgDir cs m \<Rightarrow>
               bind_eff (map_err (StorageIo dst_path) (fs_create_dir dst_path)) (\<lambda>_.
               bind_eff (set_host_visible_permissions dst_path m) (\<lambda>_.
               bind_eff (src_call src_path) (\<lambda>_.
               bind_eff (walk_for_extract root dst_root mx path cs (acc\<lparr>staged := staged acc @ [path]\<rparr>)) (\<lambda>acc.
               walk_for_extract root dst_root mx rel es acc))))
           | ImgFile bs m \<Rightarrow>
               (let next_total = saturating_add (total_bytes acc) (word_of_nat (length bs)) in
                if (case mx of Some b \<Rightarrow> next_total > b | None \<Rightarrow> False)
                then fail (ExtractSizeExceeded path (the mx) next_total)
                else
                  bind_eff (map_err (StorageIo src_path) (copy_file dst_path bs m)) (\<lambda>_.
                  bind_eff (set_host_visible_permissions dst_path m) (\<lambda>_.
                  walk_for_extract root dst_root mx rel es
                    (acc\<lparr>total_bytes := next_total, staged := staged acc @ [path]\<rparr>))))
           | _ \<Rightarrow> walk_for_extract root dst_root mx rel es (acc\<lparr>rejected := rejected acc @ [(path, RejectedSpecialFile)]\<rparr>)))))"

definition stage_parent :: "path_buf \<Rightarrow> path_buf" where
  "stage_parent into = (case path_buf_parent into of Some p \<Rightarrow> if p \<noteq> [] then p else [CurDir] | None \<Rightarrow> [CurDir])"

definition stage_prefix :: "u32 \<Rightarrow> path_buf \<Rightarrow> string" where
  "stage_prefix pid into =
     ''.'' @ (case file_name into of Some n \<Rightarrow> n | None \<Rightarrow> ''workspace'') @ ''.m80-writeback-stage-'' @ nat_to_string (unat pid) @ ''-''"

text \<open>The stage lies in the parent of the destination; \<open>rnd\<close> is the random end of its name.\<close>
definition stage_dir :: "(path_buf \<Rightarrow> fpath) \<Rightarrow> u32 \<Rightarrow> string \<Rightarrow> path_buf \<Rightarrow> fpath" where
  "stage_dir loc pid rnd into = loc (stage_parent into) @ [stage_prefix pid into @ rnd]"

definition build_stage ::
    "fpath \<Rightarrow> (string \<times> image_node) list \<Rightarrow> fpath \<Rightarrow> fpath \<Rightarrow> u64 option \<Rightarrow> change_set storage" where
  "build_stage mount_root es parent stage mx =
     bind_eff (map_err (StorageIo parent) (make_tempdir stage)) (\<lambda>_ w.
       case bind_eff (src_call mount_root) (\<lambda>_.
              walk_for_extract mount_root stage mx [] es \<lparr>staged = [], rejected = [], total_bytes = 0\<rparr>) w of
         (Ok cs, w') \<Rightarrow> (Ok cs, w')
       | (Err e, w') \<Rightarrow> (Err e, drop_tempdir stage w'))"

definition finish_extract ::
    "storage_ops \<Rightarrow> fpath \<Rightarrow> (change_set, storage_error) result \<Rightarrow> fpath \<Rightarrow> fpath \<Rightarrow> change_set storage" where
  "finish_extract ops m stage_result stage dst w =
     (case run_mount (umount_output ops) m w of
        (Err e, w') \<Rightarrow> (Err e, if is_ok stage_result then drop_tempdir stage w' else w')
      | (Ok _, w') \<Rightarrow>
          (case stage_result of
             Err e \<Rightarrow> (Err e, drop_tempdir m w')
           | Ok cs \<Rightarrow>
               (case sys_rename stage dst w' of
                  (Err e, w2) \<Rightarrow> (Err (SwapFailed e), drop_tempdir m (drop_tempdir stage w2))
                | (Ok _, w2) \<Rightarrow> (Ok cs, drop_tempdir m w2))))"

text \<open>A mount point whose unmount failed cannot be removed.\<close>
definition scratch_extract ::
    "storage_ops \<Rightarrow> (path_buf \<Rightarrow> fpath) \<Rightarrow> u32 \<Rightarrow> string \<Rightarrow> fpath \<Rightarrow> (string \<times> image_node) list \<Rightarrow> fpath \<Rightarrow> path_buf \<Rightarrow> u64 option
     \<Rightarrow> change_set storage" where
  "scratch_extract ops loc pid rnd img es m into mx =
     bind_eff (path_exists (loc into)) (\<lambda>there.
       if there then fail (StorageIo (loc into) AlreadyExists)
       else
         bind_eff (run_e2fsck ops img) (\<lambda>_.
         bind_eff (map_err (StorageIo img) (make_tempdir m)) (\<lambda>_ w.
           case run_mount (mount_output ops) m w of
             (Err e, w') \<Rightarrow> (Err e, drop_tempdir m w')
           | (Ok _, w') \<Rightarrow>
               (case build_stage m es (loc (stage_parent into)) (stage_dir loc pid rnd into) mx w' of
                  (r, w2) \<Rightarrow> finish_extract ops m r (stage_dir loc pid rnd into) (loc into) w2))))"

subsection \<open>What may change\<close>

definition touches_only :: "(fpath \<Rightarrow> bool) \<Rightarrow> 'a storage \<Rightarrow> bool" where
  "touches_only S m \<longleftrightarrow> (\<forall>w q. \<not> S q \<longrightarrow> nodes (snd (m w)) q = nodes w q \<and> modes (snd (m w)) q = modes w q)"

definition io_touches_only :: "(fpath \<Rightarrow> bool) \<Rightarrow> (mode_world, 'a, io_error) eff \<Rightarrow> bool" where
  "io_touches_only S m \<longleftrightarrow> (\<forall>w q. \<not> S q \<longrightarrow> nodes (snd (m w)) q = nodes w q \<and> modes (snd (m w)) q = modes w q)"

lemma touchesD:
  "touches_only S m \<Longrightarrow> m w = (r, w') \<Longrightarrow> \<not> S q \<Longrightarrow> nodes w' q = nodes w q \<and> modes w' q = modes w q"
  by (metis touches_only_def snd_conv)

lemma modes_more: "fs.more w' = fs.more w \<Longrightarrow> modes w' = modes w"
  by (cases w; cases w') simp

lemma io_touches_fs: "fs_only S m \<Longrightarrow> io_touches_only S m"
  by (auto simp: fs_only_def io_touches_only_def intro: modes_more [THEN fun_cong])

lemma touches_fs: "fs_only S m \<Longrightarrow> touches_only S m"
  by (auto simp: fs_only_def touches_only_def intro: modes_more [THEN fun_cong])

lemma touches_weaken: "touches_only S m \<Longrightarrow> (\<And>q. S q \<Longrightarrow> T q) \<Longrightarrow> touches_only T m"
  by (auto simp: touches_only_def)

lemma io_touches_weaken: "io_touches_only S m \<Longrightarrow> (\<And>q. S q \<Longrightarrow> T q) \<Longrightarrow> io_touches_only T m"
  by (auto simp: io_touches_only_def)

lemma touches_bind [intro]:
  assumes "touches_only S m" "\<And>a. touches_only S (f a)"
  shows "touches_only S (bind_eff m f)"
  unfolding touches_only_def
proof (intro allI impI)
  fix w q assume q: "\<not> S q"
  obtain r w' where m: "m w = (r, w')" by fastforce
  show "nodes (snd (bind_eff m f w)) q = nodes w q \<and> modes (snd (bind_eff m f w)) q = modes w q"
    using touchesD [OF assms(1) m q] assms(2) q by (cases r) (auto simp: m bind_eff_def touches_only_def)
qed

lemma touches_map_err: "io_touches_only S m \<Longrightarrow> touches_only S (map_err g m)"
  by (auto simp: io_touches_only_def touches_only_def map_err_def split: prod.splits result.splits) (metis snd_conv)+

lemma touches_src [simp]: "touches_only S (src_call p)"
  by (auto simp: touches_only_def src_call_def split: prod.splits fault.splits dest!: take_fault_nodes modes_more)

lemma touches_pure [simp]: "touches_only S (ret a)" "touches_only S (fail e)"
  by (simp_all add: touches_only_def)

lemma take_fault_modes [simp]: "take_fault w = (f, w') \<Longrightarrow> modes w' = modes w"
  by (auto dest!: take_fault_nodes modes_more)

lemma io_touches_calls:
  "io_touches_only (\<lambda>q. q = p) (chmod p m)" "io_touches_only (\<lambda>q. q = p) (copy_file p bs m)"
  "io_touches_only (\<lambda>q. q = p) (create_new p)" "io_touches_only (\<lambda>q. q = p) (make_tempdir p)"
  "io_touches_only (\<lambda>q. q = p) (fs_write p bs)" "io_touches_only (\<lambda>q. q = p) (fs_create_dir p)"
proof -
  show w: "io_touches_only (\<lambda>q. q = p) (fs_write p bs)" for bs by (rule io_touches_fs) (rule fs_only_writes)
  show d: "io_touches_only (\<lambda>q. q = p) (fs_create_dir p)" by (rule io_touches_fs) (rule fs_only_writes)
  have s: "io_touches_only (\<lambda>q. q = p) (fs_set_permissions p)" by (rule io_touches_fs) simp
  show "io_touches_only (\<lambda>q. q = p) (chmod p m)" using s
    by (auto simp: io_touches_only_def chmod_def bind_eff_def split: prod.splits result.splits) (metis snd_conv)+
  show "io_touches_only (\<lambda>q. q = p) (copy_file p bs m)" using w [of bs]
    by (auto simp: io_touches_only_def copy_file_def split: prod.splits) (metis snd_conv)+
  show "io_touches_only (\<lambda>q. q = p) (create_new p)" using w [of "[]"]
    by (auto simp: io_touches_only_def create_new_def split: prod.splits)
      (metis snd_conv surj_pair take_fault_nodes take_fault_modes)+
  show "io_touches_only (\<lambda>q. q = p) (make_tempdir p)" using d
    by (auto simp: io_touches_only_def make_tempdir_def bind_eff_def split: prod.splits result.splits) (metis snd_conv)+
qed

lemma drop_tempdir_frame: "\<not> under p q \<Longrightarrow> nodes (drop_tempdir p w) q = nodes w q \<and> modes (drop_tempdir p w) q = modes w q"
  using io_touches_fs [OF fs_only_writes(4) [of p]] by (auto simp: io_touches_only_def drop_tempdir_def)

lemma touches_mount [simp]: "touches_only S (run_mount out m)"
  by (simp add: run_mount_def split: result.splits)

subsection \<open>The admissible part of a tree\<close>

text \<open>Directories and regular files with the bits the host may see, in the order of the walk; the directory that ext4 itself
  makes is left out.\<close>
fun admissible_part :: "fpath \<Rightarrow> (string \<times> image_node) list \<Rightarrow> (fpath \<times> node \<times> u32) list" where
  "admissible_part rel [] = []"
| "admissible_part rel ((n, d) # es) =
     (if rel @ [n] = [''lost+found''] then []
      else (case d of
              ImgDir cs m \<Rightarrow> (rel @ [n], DirNode, m AND HOST_VISIBLE_MODE_BITS) # admissible_part (rel @ [n]) cs
            | ImgFile bs m \<Rightarrow> [(rel @ [n], FileNode bs, m AND HOST_VISIBLE_MODE_BITS)]
            | _ \<Rightarrow> [])) @ admissible_part rel es"

fun refused_part :: "fpath \<Rightarrow> (string \<times> image_node) list \<Rightarrow> (fpath \<times> rejection_reason) list" where
  "refused_part rel [] = []"
| "refused_part rel ((n, d) # es) =
     (if rel @ [n] = [''lost+found''] then []
      else (case d of
              ImgDir cs m \<Rightarrow> refused_part (rel @ [n]) cs
            | ImgFile bs m \<Rightarrow> []
            | ImgSymlink \<Rightarrow> [(rel @ [n], RejectedSymlink)]
            | _ \<Rightarrow> [(rel @ [n], RejectedSpecialFile)])) @ refused_part rel es"

fun file_bytes :: "fpath \<times> node \<times> u32 \<Rightarrow> nat" where
  "file_bytes (p, FileNode bs, m) = length bs"
| "file_bytes (p, DirNode, m) = 0"

text \<open>The names in a directory are distinct.\<close>
fun image_ok :: "(string \<times> image_node) list \<Rightarrow> bool" where
  "image_ok [] = True"
| "image_ok ((n, d) # es) \<longleftrightarrow> n \<notin> fst ` set es \<and> (case d of ImgDir cs m \<Rightarrow> image_ok cs | _ \<Rightarrow> True) \<and> image_ok es"

lemma admissible_below:
  "x \<in> set (admissible_part rel es) \<Longrightarrow> \<exists>n d r. (n, d) \<in> set es \<and> fst x = rel @ n # r"
proof (induction rel es rule: admissible_part.induct)
  case (2 rel n d es)
  show ?case
  proof (cases "x \<in> set (admissible_part rel es)")
    case True
    then show ?thesis using "2.IH"(2) by auto
  next
    case False
    with "2.prems" have ne: "rel @ [n] \<noteq> [''lost+found'']" by (auto split: if_splits)
    show ?thesis
    proof (cases d)
      case (ImgDir cs m)
      with False ne "2.prems" have "x = (rel @ [n], DirNode, m AND HOST_VISIBLE_MODE_BITS) \<or> x \<in> set (admissible_part (rel @ [n]) cs)"
        by auto
      then show ?thesis using "2.IH"(1) [OF ne ImgDir] by fastforce
    qed (use False ne "2.prems" in auto)
  qed
qed simp

lemma admissible_distinct: "image_ok es \<Longrightarrow> distinct (map fst (admissible_part rel es))"
proof (induction rel es rule: admissible_part.induct)
  case (2 rel n d es)
  have tail: "distinct (map fst (admissible_part rel es))" using 2 by simp
  have other: "rel @ n # r \<notin> fst ` set (admissible_part rel es)" for r
    using admissible_below [of _ rel es] "2.prems" by force
  show ?case
  proof (cases "rel @ [n] = [''lost+found'']")
    case False
    show ?thesis
    proof (cases d)
      case (ImgDir cs m)
      have "distinct (map fst (admissible_part (rel @ [n]) cs))" using "2.IH"(1) [OF False ImgDir] "2.prems" ImgDir by simp
      moreover have "rel @ [n] \<notin> fst ` set (admissible_part (rel @ [n]) cs)" using admissible_below [of _ "rel @ [n]" cs] by force
      moreover have "fst ` set (admissible_part (rel @ [n]) cs) \<inter> fst ` set (admissible_part rel es) = {}"
        using admissible_below [of _ "rel @ [n]" cs] other by force
      ultimately show ?thesis using False ImgDir tail other [of "[]"] by simp
    qed (use False tail other [of "[]"] in simp_all)
  qed (use tail in simp)
qed simp

subsection \<open>The walk\<close>

lemma touches_at:
  "io_touches_only (\<lambda>q. q = p) m \<Longrightarrow> S p \<Longrightarrow> touches_only S (map_err g m)"
  by (rule touches_map_err, erule io_touches_weaken) simp

lemma touches_permissions: "S p \<Longrightarrow> touches_only S (set_host_visible_permissions p m)"
  unfolding set_host_visible_permissions_def by (rule touches_at [OF io_touches_calls(1)])

lemma touches_if: "touches_only S a \<Longrightarrow> touches_only S b \<Longrightarrow> touches_only S (if c then a else b)"
  by simp

definition walk_area :: "fpath \<Rightarrow> (fpath \<times> node \<times> u32) list \<Rightarrow> fpath \<Rightarrow> bool" where
  "walk_area dst xs q \<longleftrightarrow> q \<in> (@) dst ` fst ` set xs"

lemma walk_area_simps [simp]:
  "\<not> walk_area dst [] q" "walk_area dst (x # xs) q \<longleftrightarrow> q = dst @ fst x \<or> walk_area dst xs q"
  "walk_area dst (xs @ ys) q \<longleftrightarrow> walk_area dst xs q \<or> walk_area dst ys q"
  by (auto simp: walk_area_def)

lemma walk_dir:
  "rel @ [n] \<noteq> [''lost+found''] \<Longrightarrow> walk_for_extract root dst mx rel ((n, ImgDir cs m) # es) acc =
     bind_eff (src_call (root @ rel)) (\<lambda>_. bind_eff (src_call (root @ rel @ [n])) (\<lambda>_.
     bind_eff (map_err (StorageIo (dst @ rel @ [n])) (fs_create_dir (dst @ rel @ [n]))) (\<lambda>_.
     bind_eff (set_host_visible_permissions (dst @ rel @ [n]) m) (\<lambda>_.
     bind_eff (src_call (root @ rel @ [n])) (\<lambda>_.
     bind_eff (walk_for_extract root dst mx (rel @ [n]) cs (acc\<lparr>staged := staged acc @ [rel @ [n]]\<rparr>))
       (walk_for_extract root dst mx rel es))))))"
  by (auto simp: Let_def)

lemma walk_file:
  "rel @ [n] \<noteq> [''lost+found''] \<Longrightarrow> walk_for_extract root dst mx rel ((n, ImgFile bs m) # es) acc =
     bind_eff (src_call (root @ rel)) (\<lambda>_. bind_eff (src_call (root @ rel @ [n])) (\<lambda>_.
     let next_total = saturating_add (total_bytes acc) (word_of_nat (length bs)) in
     if (case mx of Some b \<Rightarrow> next_total > b | None \<Rightarrow> False) then fail (ExtractSizeExceeded (rel @ [n]) (the mx) next_total)
     else bind_eff (map_err (StorageIo (root @ rel @ [n])) (copy_file (dst @ rel @ [n]) bs m)) (\<lambda>_.
       bind_eff (set_host_visible_permissions (dst @ rel @ [n]) m) (\<lambda>_.
       walk_for_extract root dst mx rel es (acc\<lparr>total_bytes := next_total, staged := staged acc @ [rel @ [n]]\<rparr>)))))"
  by (auto simp: Let_def)

lemma walk_refused:
  "rel @ [n] \<noteq> [''lost+found''] \<Longrightarrow> d \<in> {ImgSymlink, ImgSpecial, ImgOther} \<Longrightarrow>
     walk_for_extract root dst mx rel ((n, d) # es) acc =
     bind_eff (src_call (root @ rel)) (\<lambda>_. bind_eff (src_call (root @ rel @ [n])) (\<lambda>_.
     walk_for_extract root dst mx rel es (acc\<lparr>rejected := rejected acc @ refused_part rel [(n, d)]\<rparr>)))"
  by (auto simp: Let_def)

lemma touches_walk: "touches_only (walk_area dst (admissible_part rel es)) (walk_for_extract root dst mx rel es acc)"
proof (induction rel es arbitrary: acc rule: admissible_part.induct)
  case (2 rel n d es)
  let ?S = "walk_area dst (admissible_part rel ((n, d) # es))"
  have rest: "touches_only ?S (walk_for_extract root dst mx rel es acc')" for acc'
    using "2.IH"(2) by (rule touches_weaken) simp
  show ?case
  proof (cases "rel @ [n] = [''lost+found'']")
    case True
    then show ?thesis using "2.IH"(2) by (auto simp: Let_def intro!: touches_bind)
  next
    case False
    show ?thesis
    proof (cases d)
      case (ImgDir cs m)
      have below: "touches_only ?S (walk_for_extract root dst mx (rel @ [n]) cs acc')" for acc'
        using "2.IH"(1) [OF False ImgDir] by (rule touches_weaken) (use False ImgDir in auto)
      have at: "?S (dst @ rel @ [n])" using False ImgDir by auto
      show ?thesis unfolding ImgDir walk_dir [OF False]
        by (intro touches_bind touches_src touches_at [OF io_touches_calls(6)] touches_permissions at [unfolded ImgDir]
          below [unfolded ImgDir] rest [unfolded ImgDir])
    next
      case (ImgFile bs m)
      have at: "?S (dst @ rel @ [n])" using False ImgFile by auto
      note r = at [unfolded ImgFile] rest [unfolded ImgFile]
      show ?thesis unfolding ImgFile walk_file [OF False] Let_def
        by (intro touches_bind touches_src touches_if touches_pure touches_at [OF io_touches_calls(2)] touches_permissions r)
    qed (use False rest in \<open>auto simp: Let_def intro!: touches_bind\<close>)
  qed
qed simp

text \<open>A successful step of the walk, taken apart.\<close>
lemma src_call_Ok: "src_call p w = (Ok a, w') \<Longrightarrow> nodes w' = nodes w \<and> modes w' = modes w"
  by (auto simp: src_call_def split: prod.splits fault.splits dest: take_fault_nodes)

lemma permissions_Ok:
  "set_host_visible_permissions p m w = (Ok a, w') \<Longrightarrow>
     nodes w' = nodes w \<and> modes w' = (modes w)(p := m AND HOST_VISIBLE_MODE_BITS)"
  by (auto simp: set_host_visible_permissions_def map_err_eq_Ok chmod_def bind_eff_eq_Ok fs_set_permissions_def
    split: prod.splits fault.splits if_splits dest: take_fault_nodes)

lemma create_dir_Ok:
  "map_err g (fs_create_dir p) (w :: mode_world) = (Ok a, w') \<Longrightarrow> nodes w' = (nodes w)(p \<mapsto> DirNode) \<and> modes w' = modes w"
  by (auto simp: map_err_eq_Ok fs_create_dir_def split: prod.splits fault.splits if_splits dest: take_fault_nodes)

lemma copy_file_Ok:
  "map_err g (copy_file p bs m) w = (Ok a, w') \<Longrightarrow> nodes w' p = Some (FileNode bs)"
  by (auto simp: map_err_eq_Ok copy_file_def fs_write_def split: prod.splits fault.splits if_splits dest: take_fault_nodes)

lemma walk_Cons_Ok:
  assumes "walk_for_extract root dst mx rel ((n, d) # es) acc w = (Ok acc', w')"
  obtains (skip) acc1 w1 where "admissible_part rel [(n, d)] = []" "acc1 = acc\<lparr>rejected := rejected acc @ refused_part rel [(n, d)]\<rparr>"
      "walk_for_extract root dst mx rel es acc1 w1 = (Ok acc', w')"
  | (dir) cs m acc1 w1 acc2 w2 where "d = ImgDir cs m" "rel @ [n] \<noteq> [''lost+found'']" "acc1 = acc\<lparr>staged := staged acc @ [rel @ [n]]\<rparr>"
      "nodes w1 (dst @ rel @ [n]) = Some DirNode" "modes w1 (dst @ rel @ [n]) = m AND HOST_VISIBLE_MODE_BITS"
      "walk_for_extract root dst mx (rel @ [n]) cs acc1 w1 = (Ok acc2, w2)"
      "walk_for_extract root dst mx rel es acc2 w2 = (Ok acc', w')"
  | (regular) bs m acc1 w1 where "d = ImgFile bs m" "rel @ [n] \<noteq> [''lost+found'']"
      "acc1 = acc\<lparr>total_bytes := saturating_add (total_bytes acc) (word_of_nat (length bs)), staged := staged acc @ [rel @ [n]]\<rparr>"
      "\<And>b. mx = Some b \<Longrightarrow> total_bytes acc1 \<le> b"
      "nodes w1 (dst @ rel @ [n]) = Some (FileNode bs)" "modes w1 (dst @ rel @ [n]) = m AND HOST_VISIBLE_MODE_BITS"
      "walk_for_extract root dst mx rel es acc1 w1 = (Ok acc', w')"
proof (cases "rel @ [n] = [''lost+found'']")
  case True
  then obtain w1 where "walk_for_extract root dst mx rel es acc w1 = (Ok acc', w')"
    using assms by (auto simp: Let_def bind_eff_eq_Ok)
  then show ?thesis using True by (intro skip [of acc w1]) auto
next
  case False
  show ?thesis
  proof (cases d)
    case (ImgDir cs m)
    obtain v2 v3 v4 v5 acc2 v6 where c: "map_err (StorageIo (dst @ rel @ [n])) (fs_create_dir (dst @ rel @ [n])) v2 = (Ok (), v3)"
      and p: "set_host_visible_permissions (dst @ rel @ [n]) m v3 = (Ok (), v4)"
      and r: "src_call (root @ rel @ [n]) v4 = (Ok (), v5)"
      and walks: "walk_for_extract root dst mx (rel @ [n]) cs (acc\<lparr>staged := staged acc @ [rel @ [n]]\<rparr>) v5 = (Ok acc2, v6)"
        "walk_for_extract root dst mx rel es acc2 v6 = (Ok acc', w')"
      using assms unfolding ImgDir walk_dir [OF False] by (auto simp: bind_eff_eq_Ok)
    have "nodes v5 (dst @ rel @ [n]) = Some DirNode" "modes v5 (dst @ rel @ [n]) = m AND HOST_VISIBLE_MODE_BITS"
      using create_dir_Ok [OF c] permissions_Ok [OF p] src_call_Ok [OF r] by simp_all
    then show ?thesis by (intro dir [OF ImgDir False _ _ _ walks]) simp_all
  next
    case (ImgFile bs m)
    let ?total = "saturating_add (total_bytes acc) (word_of_nat (length bs))"
    obtain v2 v3 v4 where c: "map_err (StorageIo (root @ rel @ [n])) (copy_file (dst @ rel @ [n]) bs m) v2 = (Ok (), v3)"
      and p: "set_host_visible_permissions (dst @ rel @ [n]) m v3 = (Ok (), v4)" and b: "\<not> (case mx of Some b \<Rightarrow> ?total > b | None \<Rightarrow> False)"
      and walks: "walk_for_extract root dst mx rel es (acc\<lparr>total_bytes := ?total, staged := staged acc @ [rel @ [n]]\<rparr>) v4 = (Ok acc', w')"
      using assms unfolding ImgFile walk_file [OF False] by (auto simp: bind_eff_eq_Ok Let_def split: if_splits)
    have "nodes v4 (dst @ rel @ [n]) = Some (FileNode bs)" "modes v4 (dst @ rel @ [n]) = m AND HOST_VISIBLE_MODE_BITS"
      using copy_file_Ok [OF c] permissions_Ok [OF p] by simp_all
    then show ?thesis using b by (intro regular [OF ImgFile False _ _ _ _ walks]) (simp_all add: not_less)
  qed (use assms False in \<open>auto simp: walk_refused bind_eff_eq_Ok simp del: walk_for_extract.simps intro!: skip\<close>)
qed

lemma walk_acc:
  "walk_for_extract root dst mx rel es acc w = (Ok acc', w') \<Longrightarrow>
     staged acc' = staged acc @ map fst (admissible_part rel es) \<and> rejected acc' = rejected acc @ refused_part rel es"
proof (induction rel es arbitrary: acc acc' w w' rule: admissible_part.induct)
  case (2 rel n d es)
  from "2.prems" show ?case
  proof (cases rule: walk_Cons_Ok)
    case skip
    then show ?thesis using "2.IH"(2) [OF skip(3)] by auto
  next
    case dir
    then show ?thesis using "2.IH"(1) [OF dir(2,1,6)] "2.IH"(2) [OF dir(7)] by auto
  next
    case regular
    then show ?thesis using "2.IH"(2) [OF regular(7)] by auto
  qed
qed simp

lemma walk_nodes:
  assumes "image_ok es" "walk_for_extract root dst mx rel es acc w = (Ok acc', w')" "x \<in> set (admissible_part rel es)"
  shows "nodes w' (dst @ fst x) = Some (fst (snd x)) \<and> modes w' (dst @ fst x) = snd (snd x)"
  using assms
proof (induction rel es arbitrary: acc w acc' w' rule: admissible_part.induct)
  case (2 rel n d es)
  have keep: "nodes w' (dst @ fst x) = nodes v (dst @ fst x) \<and> modes w' (dst @ fst x) = modes v (dst @ fst x)"
    if "walk_for_extract root dst mx rel es a v = (Ok acc', w')" "x \<notin> set (admissible_part rel es)" for a v
  proof -
    have "distinct (map fst (admissible_part rel ((n, d) # es)))" by (rule admissible_distinct [OF "2.prems"(1)])
    then have "fst x \<notin> fst ` set (admissible_part rel es)" using "2.prems"(3) that(2) by (auto simp: distinct_map)
    then show ?thesis using touchesD [OF touches_walk that(1)] by (auto simp: walk_area_def)
  qed
  show ?case
  proof (cases "x \<in> set (admissible_part rel es)")
    case True
    from "2.prems"(2) show ?thesis
      by (cases rule: walk_Cons_Ok) (use "2.IH"(2) "2.prems"(1) True in auto)
  next
    case False
    from "2.prems"(2) show ?thesis
    proof (cases rule: walk_Cons_Ok)
      case skip
      then show ?thesis using "2.prems"(3) False by auto
    next
      case (dir cs m acc1 w1 acc2 w2)
      then consider "x = (rel @ [n], DirNode, m AND HOST_VISIBLE_MODE_BITS)" | "x \<in> set (admissible_part (rel @ [n]) cs)"
        using "2.prems"(3) False by auto
      then show ?thesis
      proof cases
        case 1
        have "rel @ [n] \<notin> fst ` set (admissible_part (rel @ [n]) cs)" using admissible_below [of _ "rel @ [n]" cs] by force
        then have "nodes w2 (dst @ rel @ [n]) = nodes w1 (dst @ rel @ [n]) \<and> modes w2 (dst @ rel @ [n]) = modes w1 (dst @ rel @ [n])"
          using touchesD [OF touches_walk dir(6)] by (auto simp: walk_area_def)
        then show ?thesis using keep [OF dir(7) False] 1 dir(4,5) by simp
      next
        case 2
        from "2.IH"(1) [OF dir(2) dir(1) _ dir(6) 2] "2.prems"(1) dir(1) keep [OF dir(7) False] show ?thesis by simp
      qed
    next
      case (regular bs m acc1 w1)
      then show ?thesis using keep [OF regular(7) False] "2.prems"(3) False by auto
    qed
  qed
qed simp

lemma walk_cap:
  assumes "walk_for_extract root dst (Some b) rel es acc w = (Ok acc', w')" "total_bytes acc \<le> b"
  shows "total_bytes acc' \<le> b"
  using assms
proof (induction rel es arbitrary: acc acc' w w' rule: admissible_part.induct)
  case (2 rel n d es)
  from "2.prems"(1) show ?case
  proof (cases rule: walk_Cons_Ok)
    case skip
    then show ?thesis using "2.IH"(2) [OF skip(3)] "2.prems"(2) by simp
  next
    case dir
    then show ?thesis using "2.IH"(1) [OF dir(2,1,6)] "2.IH"(2) [OF dir(7)] "2.prems"(2) by simp
  next
    case regular
    then show ?thesis using "2.IH"(2) [OF regular(7)] by simp
  qed
qed simp

lemma walk_total:
  assumes "walk_for_extract root dst mx rel es acc w = (Ok acc', w')"
    and "unat (total_bytes acc) + sum_list (map file_bytes (admissible_part rel es)) < 2 ^ 64"
  shows "unat (total_bytes acc') = unat (total_bytes acc) + sum_list (map file_bytes (admissible_part rel es))"
  using assms
proof (induction rel es arbitrary: acc acc' w w' rule: admissible_part.induct)
  case (2 rel n d es)
  from "2.prems"(1) show ?case
  proof (cases rule: walk_Cons_Ok)
    case skip
    then show ?thesis using "2.IH"(2) [OF skip(3)] "2.prems"(2) by auto
  next
    case (dir cs m acc1 w1 acc2 w2)
    have "unat (total_bytes acc2) = unat (total_bytes acc1) + sum_list (map file_bytes (admissible_part (rel @ [n]) cs))"
      using "2.IH"(1) [OF dir(2,1,6)] "2.prems"(2) dir(1,2,3) by auto
    then show ?thesis using "2.IH"(2) [OF dir(7)] "2.prems"(2) dir(1,2,3) by auto
  next
    case (regular bs m acc1 w1)
    have "unat (total_bytes acc) + length bs < 2 ^ 64" using "2.prems"(2) regular(1,2) by auto
    then have "unat (total_bytes acc1) = unat (total_bytes acc) + length bs"
      using regular(3) by (simp add: saturating_add_def unat_word_of_nat unat_word_ariths)
    then show ?thesis using "2.IH"(2) [OF regular(7)] "2.prems"(2) regular(1,2) by auto
  qed
qed simp

subsection \<open>The stage\<close>

lemma make_tempdir_Ok:
  "map_err g (make_tempdir p) w = (Ok a, w') \<Longrightarrow> nodes w' = (nodes w)(p \<mapsto> DirNode) \<and> nodes w p = None"
  by (auto simp: map_err_eq_Ok make_tempdir_def bind_eff_eq_Ok fs_create_dir_def split: prod.splits fault.splits if_splits
    dest: take_fault_nodes)

lemma touches_build_stage: "touches_only (under stage) (build_stage root es parent stage mx)"
proof -
  have make: "touches_only (under stage) (map_err g (make_tempdir stage))" for g by (rule touches_at [OF io_touches_calls(4)]) simp
  have walk: "touches_only (under stage) (bind_eff (src_call root) (\<lambda>_. walk_for_extract root stage mx [] es acc))" for acc
    by (intro touches_bind touches_src touches_weaken [OF touches_walk]) (auto simp: walk_area_def)
  show ?thesis unfolding build_stage_def
  proof (rule touches_bind [OF make])
    show "touches_only (under stage) (\<lambda>w. case bind_eff (src_call root) (\<lambda>_.
        walk_for_extract root stage mx [] es \<lparr>staged = [], rejected = [], total_bytes = 0\<rparr>) w of
        (Ok cs, w') \<Rightarrow> (Ok cs, w') | (Err e, w') \<Rightarrow> (Err e, drop_tempdir stage w'))" for a
      using walk [of "\<lparr>staged = [], rejected = [], total_bytes = 0\<rparr>"]
      by (auto simp: touches_only_def drop_tempdir_frame split: prod.splits result.splits) (metis snd_conv)+
  qed
qed

definition stage_node :: "(string \<times> image_node) list \<Rightarrow> fpath \<Rightarrow> node option" where
  "stage_node es q = (if q = [] then Some DirNode else map_option fst (map_of (admissible_part [] es) q))"

lemma build_stage_Ok:
  assumes ok: "image_ok es" and fresh: "\<And>q. under stage q \<Longrightarrow> nodes w q = None"
    and b: "build_stage root es parent stage mx w = (Ok cs, w')"
  shows "nodes w' (stage @ q) = stage_node es q"
    and "x \<in> set (admissible_part [] es) \<Longrightarrow> modes w' (stage @ fst x) = snd (snd x)"
    and "staged cs = map fst (admissible_part [] es)" and "rejected cs = refused_part [] es"
    and "mx = Some k \<Longrightarrow> total_bytes cs \<le> k"
    and "sum_list (map file_bytes (admissible_part [] es)) < 2 ^ 64 \<Longrightarrow>
      unat (total_bytes cs) = sum_list (map file_bytes (admissible_part [] es))"
proof -
  let ?acc = "\<lparr>staged = [], rejected = [], total_bytes = 0\<rparr> :: change_set"
  let ?walk = "bind_eff (src_call root) (\<lambda>_. walk_for_extract root stage mx [] es ?acc)"
  obtain w1 where made: "map_err (StorageIo parent) (make_tempdir stage) w = (Ok (), w1)"
    and rest: "(case ?walk w1 of (Ok cs, w') \<Rightarrow> (Ok cs, w') | (Err e, w') \<Rightarrow> (Err e, drop_tempdir stage w')) = (Ok cs, w')"
    using b unfolding build_stage_def bind_eff_eq_Ok [of "map_err _ _"] by auto
  obtain r3 w3 where r3: "?walk w1 = (r3, w3)" by fastforce
  with rest have "?walk w1 = (Ok cs, w')" by (cases r3) auto
  then obtain w2 where src: "src_call root w1 = (Ok (), w2)" and walk: "walk_for_extract root stage mx [] es ?acc w2 = (Ok cs, w')"
    by (auto simp: bind_eff_eq_Ok)
  have n2: "nodes w2 (stage @ p) = (if p = [] then Some DirNode else None)" for p
    using make_tempdir_Ok [OF made] src_call_Ok [OF src] fresh [of "stage @ p"] by simp
  have dist: "distinct (map fst (admissible_part [] es))" by (rule admissible_distinct [OF ok])
  show "nodes w' (stage @ q) = stage_node es q"
  proof (cases "q \<in> fst ` set (admissible_part [] es)")
    case True
    then obtain x where x: "x \<in> set (admissible_part [] es)" "q = fst x" by auto
    then have "map_of (admissible_part [] es) q = Some (snd x)" using dist by (simp add: map_of_eq_Some_iff)
    moreover have "q \<noteq> []" using admissible_below [OF x(1)] x(2) by auto
    ultimately show ?thesis using walk_nodes [OF ok walk x(1)] x(2) by (simp add: stage_node_def)
  next
    case False
    then have "nodes w' (stage @ q) = nodes w2 (stage @ q)" using touchesD [OF touches_walk walk] by (auto simp: walk_area_def)
    moreover have "map_of (admissible_part [] es) q = None" using False by (simp add: map_of_eq_None_iff)
    ultimately show ?thesis using n2 by (simp add: stage_node_def)
  qed
  show "x \<in> set (admissible_part [] es) \<Longrightarrow> modes w' (stage @ fst x) = snd (snd x)" using walk_nodes [OF ok walk] by blast
  show "staged cs = map fst (admissible_part [] es)" "rejected cs = refused_part [] es" using walk_acc [OF walk] by simp_all
  show "mx = Some k \<Longrightarrow> total_bytes cs \<le> k" using walk_cap [of root stage k "[]" es ?acc w2 cs w'] walk by simp
  show "sum_list (map file_bytes (admissible_part [] es)) < 2 ^ 64 \<Longrightarrow>
      unat (total_bytes cs) = sum_list (map file_bytes (admissible_part [] es))"
    using walk_total [OF walk] by simp
qed

subsection \<open>Extraction\<close>

lemma rename_Err: "sys_rename a b w = (Err e, w') \<Longrightarrow> nodes w' = nodes w \<and> modes w' = modes w"
  by (auto simp: sys_rename_def bind_eff_def fs_rename_def split: prod.splits result.splits fault.splits option.splits if_splits
    dest: take_fault_nodes)

lemma rename_Ok:
  "sys_rename a b w = (Ok u, w') \<Longrightarrow> a \<noteq> b \<Longrightarrow>
     nodes w' = moved a b (nodes w) \<and> modes w' = (\<lambda>q. if under b q then modes w (a @ drop (length b) q) else modes w q)"
  by (auto simp: sys_rename_def bind_eff_eq_Ok fs_rename_def split: prod.splits fault.splits option.splits if_splits
    dest: take_fault_nodes)

lemma run_mount_same: "run_mount out m w = (r, w') \<Longrightarrow> w' = w"
  by (auto simp: run_mount_def split: result.splits if_splits)

text \<open>What happens before the stage is built.\<close>
lemma extract_start:
  assumes "scratch_extract ops loc pid rnd img es m into mx w = (r, w')"
  obtains (early) e where "r = Err e" "\<And>q. \<not> under m q \<Longrightarrow> nodes w' q = nodes w q \<and> modes w' q = modes w q"
  | (built) w1 r2 w2 where "\<And>q. \<not> under m q \<Longrightarrow> nodes w1 q = nodes w q \<and> modes w1 q = modes w q"
      "build_stage m es (loc (stage_parent into)) (stage_dir loc pid rnd into) mx w1 = (r2, w2)"
      "finish_extract ops m r2 (stage_dir loc pid rnd into) (loc into) w2 = (r, w')"
proof -
  have ex: "\<exists>b w1. (path_exists (loc into) :: bool storage) w = (Ok b, w1) \<and> nodes w1 = nodes w \<and> modes w1 = modes w"
    by (auto simp: path_exists_def fs_query_def split: prod.splits fault.splits dest: take_fault_nodes)
  then obtain b w1 where 1: "(path_exists (loc into) :: bool storage) w = (Ok b, w1)" "nodes w1 = nodes w" "modes w1 = modes w" by blast
  obtain r2 w2 where 2: "run_e2fsck ops img w1 = (r2, w2)" by fastforce
  have w2: "w2 = w1" using 2 by (auto simp: run_e2fsck_def split: result.splits if_splits)
  obtain r3 w3 where 3: "map_err (StorageIo img) (make_tempdir m) w1 = (r3, w3)" by fastforce
  have t3: "nodes w3 q = nodes w q \<and> modes w3 q = modes w q" if "\<not> under m q" for q
    using touchesD [OF touches_at [OF io_touches_calls(4), of "under m" m] 3, of q] that 1 by simp
  obtain r4 w4 where 4: "run_mount (mount_output ops) m w3 = (r4, w4)" by fastforce
  have w4: "w4 = w3" by (rule run_mount_same [OF 4])
  consider "b" | e where "\<not> b" "r2 = Err e" | e where "\<not> b" "r2 = Ok ()" "r3 = Err e"
    | e where "\<not> b" "r2 = Ok ()" "r3 = Ok ()" "r4 = Err e" | "\<not> b" "r2 = Ok ()" "r3 = Ok ()" "r4 = Ok ()"
    by (cases b; cases r2; cases r3; cases r4) auto
  then show ?thesis
  proof cases
    case 5
    obtain r5 w5 where bs: "build_stage m es (loc (stage_parent into)) (stage_dir loc pid rnd into) mx w3 = (r5, w5)" by fastforce
    have "finish_extract ops m r5 (stage_dir loc pid rnd into) (loc into) w5 = (r, w')"
      using assms 5 by (simp add: scratch_extract_def bind_eff_def 1 2 w2 3 4 w4 bs)
    from built [OF t3 bs this] show ?thesis .
  qed (use assms 1 2 w2 3 4 w4 t3 drop_tempdir_frame in \<open>auto simp: scratch_extract_def bind_eff_def intro!: early\<close>)
qed

lemma stage_apart:
  assumes "loc into = loc (stage_parent into) @ [n]" "file_name into = Some n"
  shows "\<not> under (stage_dir loc pid rnd into) (loc into)" "\<not> under (loc into) (stage_dir loc pid rnd into)"
  using assms by (auto simp: stage_dir_def under_iff stage_prefix_def dest!: arg_cong [of _ _ length])

lemma finish_Ok:
  assumes fin: "finish_extract ops m r2 stage dst w2 = (Ok cs, w')" and ne: "stage \<noteq> dst"
  shows "r2 = Ok cs" and "\<not> under m q \<Longrightarrow> nodes w' q = moved stage dst (nodes w2) q \<and>
    modes w' q = (if under dst q then modes w2 (stage @ drop (length dst) q) else modes w2 q)"
proof -
  obtain u v where mnt: "run_mount (umount_output ops) m w2 = (u, v)" by fastforce
  have v: "v = w2" by (rule run_mount_same [OF mnt])
  obtain r w3 where ren: "sys_rename stage dst w2 = (r, w3)" by fastforce
  have u: "u = Ok ()" using fin mnt by (cases u) (auto simp: finish_extract_def)
  have r2: "r2 = Ok cs \<and> r = Ok () \<and> w' = drop_tempdir m w3"
    using fin mnt u v ren by (cases r2; cases r) (auto simp: finish_extract_def)
  then show "r2 = Ok cs" by simp
  show "\<not> under m q \<Longrightarrow> nodes w' q = moved stage dst (nodes w2) q \<and>
      modes w' q = (if under dst q then modes w2 (stage @ drop (length dst) q) else modes w2 q)"
    using r2 rename_Ok [of stage dst w2 "()" w3] ren ne drop_tempdir_frame [of m q w3] by simp
qed

lemma finish_Err:
  assumes fin: "finish_extract ops m r2 stage dst w2 = (Err e, w')" and q: "\<not> under m q" "\<not> under stage q"
  shows "nodes w' q = nodes w2 q \<and> modes w' q = modes w2 q"
proof -
  note frame = drop_tempdir_frame [OF q(1)] drop_tempdir_frame [OF q(2)]
  obtain u v where mnt: "run_mount (umount_output ops) m w2 = (u, v)" by fastforce
  have v: "v = w2" by (rule run_mount_same [OF mnt])
  obtain r w3 where ren: "sys_rename stage dst w2 = (r, w3)" by fastforce
  consider e' where "u = Err e'" | e' where "u = Ok ()" "r2 = Err e'" | cs e' where "u = Ok ()" "r2 = Ok cs" "r = Err e'"
    using fin mnt v ren by (cases u; cases r2; cases r) (auto simp: finish_extract_def)
  then show ?thesis
  proof cases
    case 3
    then show ?thesis using fin mnt v ren rename_Err [of stage dst w2 e' w3] frame by (auto simp: finish_extract_def)
  qed (use fin mnt v frame in \<open>auto simp: finish_extract_def split: if_splits\<close>)
qed

definition apart :: "fpath \<Rightarrow> fpath \<Rightarrow> bool" where
  "apart p q \<longleftrightarrow> \<not> under p q \<and> \<not> under q p"

lemma apart_below: "apart p q \<Longrightarrow> under p a \<Longrightarrow> \<not> under q a"
  by (auto simp: apart_def under_iff append_eq_append_conv2)

lemma extract_Ok:
  assumes ex: "scratch_extract ops loc pid rnd img es m into mx w = (Ok cs, w')" and ok: "image_ok es"
    and place: "loc into = loc (stage_parent into) @ [n]" "file_name into = Some n"
    and fresh: "\<And>q. under (stage_dir loc pid rnd into) q \<Longrightarrow> nodes w q = None"
    and apart: "apart m (loc into)" "apart m (stage_dir loc pid rnd into)"
  shows "nodes w' (loc into @ q) = stage_node es q"
    and "x \<in> set (admissible_part [] es) \<Longrightarrow> modes w' (loc into @ fst x) = snd (snd x)"
    and "staged cs = map fst (admissible_part [] es)" and "rejected cs = refused_part [] es"
    and "mx = Some b \<Longrightarrow> total_bytes cs \<le> b"
    and "sum_list (map file_bytes (admissible_part [] es)) < 2 ^ 64 \<Longrightarrow>
      unat (total_bytes cs) = sum_list (map file_bytes (admissible_part [] es))"
    and "\<not> under (loc into) q \<Longrightarrow> \<not> under (stage_dir loc pid rnd into) q \<Longrightarrow> \<not> under m q \<Longrightarrow>
      nodes w' q = nodes w q \<and> modes w' q = modes w q"
proof -
  let ?stage = "stage_dir loc pid rnd into" and ?dst = "loc into"
  from ex obtain w1 r2 w2 where w1: "\<And>q. \<not> under m q \<Longrightarrow> nodes w1 q = nodes w q \<and> modes w1 q = modes w q"
    and bs: "build_stage m es (loc (stage_parent into)) ?stage mx w1 = (r2, w2)"
    and fin: "finish_extract ops m r2 ?stage ?dst w2 = (Ok cs, w')"
    by (cases rule: extract_start) auto
  have ne: "?stage \<noteq> ?dst" using stage_apart(1) [OF place, of pid rnd] by (metis under_refl)
  note fin2 = finish_Ok [OF fin ne]
  have fresh1: "nodes w1 q = None" if "under ?stage q" for q
    using w1 [of q] fresh [OF that] apart_below [OF apart(2)] that by (auto simp: apart_def under_iff append_eq_append_conv2)
  note built = build_stage_Ok [OF ok fresh1 bs [unfolded fin2(1)]]
  have off: "\<not> under m (?dst @ q)" for q using apart(1) by (auto simp: apart_def under_iff append_eq_append_conv2)
  have at: "nodes w' (?dst @ q) = nodes w2 (?stage @ q)" "modes w' (?dst @ q) = modes w2 (?stage @ q)" for q
    using fin2(2) [OF off] by (simp_all add: moved_def)
  show "nodes w' (?dst @ q) = stage_node es q" using at(1) built(1) by simp
  show "x \<in> set (admissible_part [] es) \<Longrightarrow> modes w' (?dst @ fst x) = snd (snd x)" using at(2) built(2) by simp
  show "staged cs = map fst (admissible_part [] es)" by (rule built(3))
  show "rejected cs = refused_part [] es" by (rule built(4))
  show "mx = Some b \<Longrightarrow> total_bytes cs \<le> b" by (rule built(5))
  show "sum_list (map file_bytes (admissible_part [] es)) < 2 ^ 64 \<Longrightarrow>
      unat (total_bytes cs) = sum_list (map file_bytes (admissible_part [] es))" by (rule built(6))
  show "\<not> under ?dst q \<Longrightarrow> \<not> under ?stage q \<Longrightarrow> \<not> under m q \<Longrightarrow> nodes w' q = nodes w q \<and> modes w' q = modes w q"
    using fin2(2) [of q] touchesD [OF touches_build_stage bs, of q] w1 [of q] by (simp add: moved_def)
qed

lemma admissible_bits: "x \<in> set (admissible_part rel es) \<Longrightarrow> snd (snd x) AND NOT 0x1FF = 0"
  by (induction rel es rule: admissible_part.induct)
    (auto simp: HOST_VISIBLE_MODE_BITS_def and.assoc split: if_splits image_node.splits)



subsection \<open>The size of an image\<close>

fun tree_bytes :: "(string \<times> image_node) list \<Rightarrow> nat" where
  "tree_bytes [] = 0"
| "tree_bytes ((n, d) # es) =
     (case d of ImgDir cs m \<Rightarrow> tree_bytes cs | ImgFile bs m \<Rightarrow> length bs | _ \<Rightarrow> 0) + tree_bytes es"

lemma used_bytes:
  "workspace_used_bytes src es u w = (Ok v, w') \<Longrightarrow> unat u + tree_bytes es < 2 ^ 64 \<Longrightarrow> unat v = unat u + tree_bytes es"
proof (induction es arbitrary: src u v w w' rule: tree_bytes.induct)
  case (2 n d es)
  have add: "unat (saturating_add u (b :: u64)) = unat u + unat b" if "unat u + unat b < 2 ^ 64" for b
    using that by (simp add: saturating_add_def unat_word_ariths)
  show ?case
  proof (cases d)
    case (ImgDir cs m)
    with "2.prems"(1) obtain b w1 w2 where below: "workspace_used_bytes (src @ [n]) cs 0 w1 = (Ok b, w2)"
      and rest: "workspace_used_bytes src es (saturating_add u b) w2 = (Ok v, w')" by (auto simp: bind_eff_eq_Ok)
    have "unat b = tree_bytes cs" using "2.IH"(1) [OF ImgDir below] "2.prems"(2) ImgDir by simp
    then show ?thesis using "2.IH"(2) [OF rest] add [of b] "2.prems"(2) ImgDir by simp
  next
    case (ImgFile bs m)
    with "2.prems"(1) obtain w2 where rest: "workspace_used_bytes src es (saturating_add u (word_of_nat (length bs))) w2 = (Ok v, w')"
      by (auto simp: bind_eff_eq_Ok)
    have "unat (word_of_nat (length bs) :: u64) = length bs" using "2.prems"(2) ImgFile by (simp add: unat_word_of_nat)
    then show ?thesis using "2.IH"(2) [OF rest] add [of "word_of_nat (length bs)"] "2.prems"(2) ImgFile by simp
  qed (use "2.prems" in \<open>auto simp: bind_eff_eq_Ok\<close>)
qed simp

lemma align_bounds:
  assumes "unat s + 4194304 < 2 ^ 64"
  shows "unat s \<le> unat (align_scratch_size s)" "unat (align_scratch_size s) < unat s + 4194304"
    "unat (align_scratch_size s) mod 4194304 = 0"
proof -
  let ?r = "unat s mod 4194304"
  have r: "unat (s mod SCRATCH_ALIGNMENT_BYTES) = ?r" by (simp add: unat_mod SCRATCH_ALIGNMENT_BYTES_def)
  have zero: "s mod SCRATCH_ALIGNMENT_BYTES = 0 \<longleftrightarrow> ?r = 0" using r by (simp add: word_unat_eq_iff)
  have lt: "?r < 4194304" by simp
  have "s mod SCRATCH_ALIGNMENT_BYTES \<le> SCRATCH_ALIGNMENT_BYTES"
    unfolding word_le_nat_alt r by (simp add: SCRATCH_ALIGNMENT_BYTES_def less_imp_le)
  then have d: "unat (SCRATCH_ALIGNMENT_BYTES - s mod SCRATCH_ALIGNMENT_BYTES) = 4194304 - ?r"
    by (simp add: unat_sub r) (simp add: SCRATCH_ALIGNMENT_BYTES_def)
  have eq: "unat (align_scratch_size s) = unat s + (if ?r = 0 then 0 else 4194304 - ?r)"
    using assms by (simp add: align_scratch_size_def Let_def zero saturating_add_def d unat_word_ariths)
  have "(if ?r = 0 then 0 else 4194304 - ?r) < 4194304" by auto
  then show "unat s \<le> unat (align_scratch_size s)" "unat (align_scratch_size s) < unat s + 4194304" unfolding eq by linarith+
  have "(unat s + (4194304 - ?r)) mod 4194304 = 0"
  proof -
    have "unat s + (4194304 - ?r) = 4194304 * (unat s div 4194304) + 4194304" using lt mult_div_mod_eq [of 4194304 "unat s"] by linarith
    then show ?thesis by simp
  qed
  then show "unat (align_scratch_size s) mod 4194304 = 0" using eq by simp
qed

text \<open>C21: The size chosen for the image of a workspace is a multiple of 4 MiB, at least 64 MiB, leaves at least 32 MiB beside
  the files of the workspace, and is less than 4 MiB more than that.\<close>
theorem recommended_size_holds_workspace:
  assumes "recommended_size_for_workspace ws es w = (Ok sz, w')" and "tree_bytes es + 40 * 1024 * 1024 < 2 ^ 64"
  shows "unat sz mod (4 * 1024 * 1024) = 0 \<and> 64 * 1024 * 1024 \<le> unat sz \<and> tree_bytes es + 32 * 1024 * 1024 \<le> unat sz \<and>
    unat sz < max (64 * 1024 * 1024) (tree_bytes es + 32 * 1024 * 1024) + 4 * 1024 * 1024"
proof -
  obtain used w1 w2 where u: "workspace_used_bytes ws es 0 w1 = (Ok used, w2)"
    and sz: "sz = align_scratch_size (max (saturating_add used SCRATCH_PADDING_BYTES) MIN_SCRATCH_BYTES)"
    using assms(1) by (auto simp: recommended_size_for_workspace_def bind_eff_eq_Ok)
  have used: "unat used = tree_bytes es" using used_bytes [OF u] assms(2) by simp
  let ?s = "max (saturating_add used SCRATCH_PADDING_BYTES) MIN_SCRATCH_BYTES"
  have "unat (saturating_add used SCRATCH_PADDING_BYTES) = tree_bytes es + 33554432"
    using used assms(2) by (simp add: saturating_add_def SCRATCH_PADDING_BYTES_def unat_word_ariths)
  moreover have "unat MIN_SCRATCH_BYTES = 67108864" by (simp add: MIN_SCRATCH_BYTES_def)
  ultimately have s: "unat ?s = max (tree_bytes es + 33554432) 67108864"
    by (auto simp: max_def word_le_nat_alt)
  then have "unat ?s + 4194304 < 2 ^ 64" using assms(2) by simp
  from align_bounds [OF this] s show ?thesis unfolding sz by (auto simp: max.commute)
qed

subsection \<open>Hydration, then extraction\<close>

text \<open>A whole tree, the modes seen through \<open>f\<close>.\<close>
fun tree_part :: "(u32 \<Rightarrow> u32) \<Rightarrow> fpath \<Rightarrow> (string \<times> image_node) list \<Rightarrow> (fpath \<times> node \<times> u32) list" where
  "tree_part f rel [] = []"
| "tree_part f rel ((n, d) # es) =
     (case d of
        ImgDir cs m \<Rightarrow> (rel @ [n], DirNode, f m) # tree_part f (rel @ [n]) cs
      | ImgFile bs m \<Rightarrow> [(rel @ [n], FileNode bs, f m)]
      | _ \<Rightarrow> []) @ tree_part f rel es"

abbreviation visible_bits :: "u32 \<Rightarrow> u32" where
  "visible_bits m \<equiv> m AND HOST_VISIBLE_MODE_BITS"

definition without_lost_found :: "(string \<times> image_node) list \<Rightarrow> (string \<times> image_node) list" where
  "without_lost_found es = filter (\<lambda>e. fst e \<noteq> ''lost+found'') es"

lemma admissible_tree_below: "rel \<noteq> [] \<Longrightarrow> admissible_part rel es = tree_part visible_bits rel es"
  by (induction visible_bits rel es rule: tree_part.induct) (auto split: image_node.splits)

lemma admissible_tree: "admissible_part [] es = tree_part visible_bits [] (without_lost_found es)"
  by (induction es) (auto simp: without_lost_found_def admissible_tree_below split: image_node.splits)

lemma tree_part_below: "x \<in> set (tree_part f rel es) \<Longrightarrow> \<exists>n d r. (n, d) \<in> set es \<and> fst x = rel @ n # r"
proof (induction f rel es rule: tree_part.induct)
  case (2 f rel n d es)
  show ?case
  proof (cases "x \<in> set (tree_part f rel es)")
    case True
    then show ?thesis using "2.IH"(2) by auto
  next
    case False
    show ?thesis
    proof (cases d)
      case (ImgDir cs m)
      with False "2.prems" have "x = (rel @ [n], DirNode, f m) \<or> x \<in> set (tree_part f (rel @ [n]) cs)" by auto
      then show ?thesis using "2.IH"(1) [OF ImgDir] by fastforce
    qed (use False "2.prems" in auto)
  qed
qed simp

lemma tree_part_distinct: "image_ok es \<Longrightarrow> distinct (map fst (tree_part f rel es))"
proof (induction f rel es rule: tree_part.induct)
  case (2 f rel n d es)
  have tail: "distinct (map fst (tree_part f rel es))" using 2 by simp
  have other: "rel @ n # r \<notin> fst ` set (tree_part f rel es)" for r
    using tree_part_below [of _ f rel es] "2.prems" by force
  show ?case
  proof (cases d)
    case (ImgDir cs m)
    have "distinct (map fst (tree_part f (rel @ [n]) cs))" using "2.IH"(1) [OF ImgDir] "2.prems" ImgDir by simp
    moreover have "rel @ [n] \<notin> fst ` set (tree_part f (rel @ [n]) cs)" using tree_part_below [of _ f "rel @ [n]" cs] by force
    moreover have "fst ` set (tree_part f (rel @ [n]) cs) \<inter> fst ` set (tree_part f rel es) = {}"
      using tree_part_below [of _ f "rel @ [n]" cs] other by force
    ultimately show ?thesis using ImgDir tail other [of "[]"] by simp
  qed (use tail other [of "[]"] in simp_all)
qed simp

lemma tree_part_modes: "tree_part f rel es = map (\<lambda>(p, k, m). (p, k, f m)) (tree_part id rel es)"
  by (induction f rel es rule: tree_part.induct) (auto split: image_node.splits)

text \<open>A mounted image read as a tree: only directories and files, as the kernel shows them.\<close>
definition shows_tree :: "mode_world \<Rightarrow> fpath \<Rightarrow> (string \<times> image_node) list \<Rightarrow> bool" where
  "shows_tree w m es \<longleftrightarrow> image_ok es \<and> refused_part [] (without_lost_found es) = [] \<and>
     (\<forall>q. q \<noteq> [] \<longrightarrow> nodes w (m @ q) = map_option fst (map_of (tree_part id [] es) q)) \<and>
     (\<forall>x \<in> set (tree_part id [] es). modes w (m @ fst x) = snd (snd x))"

lemma touches_copy_file: "S dst \<Longrightarrow> touches_only S (copy_regular_file_no_follow src dst bs m)"
  unfolding copy_regular_file_no_follow_def
  by (intro touches_bind touches_src touches_at [OF io_touches_calls(3)] touches_at [OF io_touches_calls(5)] touches_permissions)

lemma touches_copy: "touches_only (walk_area dst (tree_part visible_bits rel es)) (copy_tree root dst rel es)"
proof (induction visible_bits rel es rule: tree_part.induct)
  case (2 rel n d es)
  let ?S = "walk_area dst (tree_part visible_bits rel ((n, d) # es))"
  have rest: "touches_only ?S (copy_tree root dst rel es)" using "2.hyps"(2) by (rule touches_weaken) simp
  show ?case
  proof (cases d)
    case (ImgDir cs m)
    have "touches_only ?S (copy_tree root dst (rel @ [n]) cs)"
      using "2.hyps"(1) [OF ImgDir] by (rule touches_weaken) (use ImgDir in simp)
    moreover have "?S (dst @ rel @ [n])" using ImgDir by simp
    ultimately show ?thesis using rest ImgDir unfolding copy_tree.simps Let_def
      by (simp only: image_node.case) (intro touches_bind touches_src touches_at [OF io_touches_calls(6)] touches_permissions)
  next
    case (ImgFile bs m)
    have "?S (dst @ rel @ [n])" using ImgFile by simp
    then show ?thesis using rest ImgFile unfolding copy_tree.simps Let_def
      by (simp only: image_node.case) (intro touches_bind touches_src touches_copy_file)
  qed (simp_all only: copy_tree.simps Let_def image_node.case, (intro touches_bind touches_src touches_pure)+)
qed simp

lemma copied_file:
  assumes "copy_regular_file_no_follow src dst bs m w = (Ok u, w')"
  shows "nodes w' dst = Some (FileNode bs)" "modes w' dst = visible_bits m" "nodes w dst = None"
proof -
  obtain w1 w2 w3 where s: "src_call src w = (Ok (), w1)" and c: "map_err (StorageIo dst) (create_new dst) w1 = (Ok (), w2)"
    and wr: "map_err (StorageIo src) (fs_write dst bs) w2 = (Ok (), w3)" and p: "set_host_visible_permissions dst m w3 = (Ok u, w')"
    using assms by (auto simp: copy_regular_file_no_follow_def bind_eff_eq_Ok)
  have "nodes w3 dst = Some (FileNode bs)"
    using wr by (auto simp: map_err_eq_Ok fs_write_def split: prod.splits fault.splits if_splits)
  then show "nodes w' dst = Some (FileNode bs)" "modes w' dst = visible_bits m" using permissions_Ok [OF p] by simp_all
  show "nodes w dst = None" using c src_call_Ok [OF s] by (auto simp: map_err_eq_Ok create_new_def split: if_splits)
qed

lemma created_dir: "map_err g (fs_create_dir p) (w :: mode_world) = (Ok u, w') \<Longrightarrow> nodes w p = None"
  by (auto simp: map_err_eq_Ok fs_create_dir_def split: prod.splits fault.splits if_splits dest: take_fault_nodes)

lemma copy_Cons_Ok:
  assumes "copy_tree root dst rel ((n, d) # es) w = (Ok u, w')"
  obtains (dir) cs m w1 w2 where "d = ImgDir cs m" "nodes w (dst @ rel @ [n]) = None"
      "nodes w1 (dst @ rel @ [n]) = Some DirNode" "modes w1 (dst @ rel @ [n]) = visible_bits m"
      "copy_tree root dst (rel @ [n]) cs w1 = (Ok (), w2)" "copy_tree root dst rel es w2 = (Ok u, w')"
      "\<And>q. q \<noteq> dst @ rel @ [n] \<Longrightarrow> nodes w1 q = nodes w q"
  | (regular) bs m w1 where "d = ImgFile bs m" "nodes w (dst @ rel @ [n]) = None"
      "nodes w1 (dst @ rel @ [n]) = Some (FileNode bs)" "modes w1 (dst @ rel @ [n]) = visible_bits m"
      "copy_tree root dst rel es w1 = (Ok u, w')" "\<And>q. q \<noteq> dst @ rel @ [n] \<Longrightarrow> nodes w1 q = nodes w q"
proof (cases d)
  case (ImgDir cs m)
  obtain v1 v2 v3 v4 v5 v6 where s: "src_call (root @ rel) w = (Ok (), v1)" "src_call (root @ rel @ [n]) v1 = (Ok (), v2)"
    and c: "map_err (StorageIo (dst @ rel @ [n])) (fs_create_dir (dst @ rel @ [n])) v2 = (Ok (), v3)"
    and p: "set_host_visible_permissions (dst @ rel @ [n]) m v3 = (Ok (), v4)" and r: "src_call (root @ rel @ [n]) v4 = (Ok (), v5)"
    and copies: "copy_tree root dst (rel @ [n]) cs v5 = (Ok (), v6)" "copy_tree root dst rel es v6 = (Ok u, w')"
    using assms by (auto simp: ImgDir Let_def bind_eff_eq_Ok)
  note step = src_call_Ok [OF s(1)] src_call_Ok [OF s(2)] create_dir_Ok [OF c] created_dir [OF c] permissions_Ok [OF p] src_call_Ok [OF r]
  show ?thesis by (rule dir [OF ImgDir _ _ _ copies]) (use step in auto)
next
  case (ImgFile bs m)
  obtain v1 v2 v3 where s: "src_call (root @ rel) w = (Ok (), v1)" "src_call (root @ rel @ [n]) v1 = (Ok (), v2)"
    and c: "copy_regular_file_no_follow (root @ rel @ [n]) (dst @ rel @ [n]) bs m v2 = (Ok (), v3)"
    and copies: "copy_tree root dst rel es v3 = (Ok u, w')"
    using assms by (auto simp: ImgFile Let_def bind_eff_eq_Ok)
  note step = src_call_Ok [OF s(1)] src_call_Ok [OF s(2)] copied_file [OF c] touchesD [OF touches_copy_file [of "\<lambda>q. q = dst @ rel @ [n]"] c]
  show ?thesis by (rule regular [OF ImgFile _ _ _ copies]) (use step in auto)
qed (use assms in \<open>auto simp: Let_def bind_eff_eq_Ok\<close>)

lemma copy_untouched:
  assumes "copy_tree root dst rel es w = (Ok u, w')" "q \<notin> fst ` set (tree_part visible_bits rel es)"
  shows "nodes w' (dst @ q) = nodes w (dst @ q) \<and> modes w' (dst @ q) = modes w (dst @ q)"
  using touchesD [OF touches_copy assms(1), of "dst @ q"] assms(2) by (auto simp: walk_area_def)

lemma copy_nodes:
  assumes "image_ok es" "copy_tree root dst rel es w = (Ok u, w')" "x \<in> set (tree_part visible_bits rel es)"
  shows "nodes w' (dst @ fst x) = Some (fst (snd x)) \<and> modes w' (dst @ fst x) = snd (snd x)"
  using assms
proof (induction es arbitrary: rel w u w' rule: image_ok.induct)
  case (2 n d es)
  have keep: "nodes w' (dst @ fst x) = nodes v (dst @ fst x) \<and> modes w' (dst @ fst x) = modes v (dst @ fst x)"
    if "copy_tree root dst rel es v = (Ok u, w')" "x \<notin> set (tree_part visible_bits rel es)" for v
  proof -
    have "distinct (map fst (tree_part visible_bits rel ((n, d) # es)))" by (rule tree_part_distinct [OF "2.prems"(1)])
    then have "fst x \<notin> fst ` set (tree_part visible_bits rel es)" using "2.prems"(3) that(2) by (auto simp: distinct_map)
    then show ?thesis by (rule copy_untouched [OF that(1)])
  qed
  have ok: "image_ok es" using "2.prems"(1) by simp
  show ?case
  proof (cases "x \<in> set (tree_part visible_bits rel es)")
    case True
    from "2.prems"(2) show ?thesis
    proof (cases rule: copy_Cons_Ok)
      case dir
      show ?thesis by (rule "2.IH"(2) [OF ok dir(6) True])
    next
      case regular
      show ?thesis by (rule "2.IH"(2) [OF ok regular(5) True])
    qed
  next
    case False
    from "2.prems"(2) show ?thesis
    proof (cases rule: copy_Cons_Ok)
      case (dir cs m w1 w2)
      then consider "x = (rel @ [n], DirNode, visible_bits m)" | "x \<in> set (tree_part visible_bits (rel @ [n]) cs)"
        using "2.prems"(3) False by auto
      then show ?thesis
      proof cases
        case 1
        have "rel @ [n] \<notin> fst ` set (tree_part visible_bits (rel @ [n]) cs)"
          using tree_part_below [of _ visible_bits "rel @ [n]" cs] by force
        from copy_untouched [OF dir(5) this] show ?thesis using keep [OF dir(6) False] 1 dir(3,4) by simp
      next
        case 2
        have "image_ok cs" using "2.prems"(1) dir(1) by simp
        from "2.IH"(1) [OF dir(1) this dir(5) 2] keep [OF dir(6) False] show ?thesis by simp
      qed
    next
      case (regular bs m w1)
      then show ?thesis using keep [OF regular(5) False] "2.prems"(3) False by auto
    qed
  qed
qed simp

lemma copy_refuses: "copy_tree root dst rel es w = (Ok u, w') \<Longrightarrow> refused_part rel es = []"
proof (induction es arbitrary: rel w u w' rule: image_ok.induct)
  case (2 n d es)
  from "2.prems" show ?case
  proof (cases rule: copy_Cons_Ok)
    case dir
    then show ?thesis using "2.IH"(1) [OF dir(1,5)] "2.IH"(2) [OF dir(6)] by simp
  next
    case regular
    then show ?thesis using "2.IH"(2) [OF regular(5)] by simp
  qed
qed simp

lemma copy_names_new:
  assumes "image_ok es" "copy_tree root dst rel es w = (Ok u, w')" "n \<in> fst ` set es"
  shows "nodes w (dst @ rel @ [n]) = None"
  using assms
proof (induction es arbitrary: w u w')
  case (Cons e es)
  obtain k d where e: "e = (k, d)" by fastforce
  have ok: "image_ok es" using Cons.prems(1) e by (simp add: e)
  show ?case
  proof (cases "n = k")
    case True
    from Cons.prems(2) [unfolded e] show ?thesis by (cases rule: copy_Cons_Ok) (use True in simp_all)
  next
    case False
    then have n: "n \<in> fst ` set es" using Cons.prems(3) e by simp
    from Cons.prems(2) [unfolded e] show ?thesis
    proof (cases rule: copy_Cons_Ok)
      case (dir cs m w1 w2)
      have "rel @ [n] \<notin> fst ` set (tree_part visible_bits (rel @ [k]) cs)"
        using tree_part_below [of _ visible_bits "rel @ [k]" cs] False by force
      from copy_untouched [OF dir(5) this] have "nodes w2 (dst @ rel @ [n]) = nodes w1 (dst @ rel @ [n])" by simp
      then show ?thesis using Cons.IH [OF ok dir(6) n] dir(7) [of "dst @ rel @ [n]"] False by simp
    next
      case (regular bs m w1)
      then show ?thesis using Cons.IH [OF ok regular(5) n] regular(6) [of "dst @ rel @ [n]"] False by simp
    qed
  qed
qed simp

lemma tree_part_without:
  "tree_part f [] (without_lost_found es) = filter (\<lambda>(q, _). hd q \<noteq> ''lost+found'') (tree_part f [] es)"
proof (induction es)
  case (Cons e es)
  obtain n d where e: "e = (n, d)" by fastforce
  have head: "\<forall>x \<in> set (tree_part f [n] cs). hd (fst x) = n" for cs using tree_part_below [of _ f "[n]" cs] by force
  have "filter (\<lambda>(q, _). hd q \<noteq> ''lost+found'') (tree_part f [n] cs) = (if n = ''lost+found'' then [] else tree_part f [n] cs)" for cs
    using head [of cs] by (auto simp: filter_empty_conv filter_id_conv)
  then show ?case using Cons e by (cases d) (auto simp: without_lost_found_def)
qed (simp add: without_lost_found_def)

lemma map_of_key_filter: "map_of (filter (\<lambda>(k, _). P k) xs) q = (if P q then map_of xs q else None)"
  by (induction xs) auto

lemma map_of_map_modes: "map_of (map (\<lambda>(p, k, m). (p, k, f m)) xs) q = map_option (\<lambda>(k, m). (k, f m)) (map_of xs q)"
  by (induction xs) auto

lemma stage_map:
  "map_of (admissible_part [] es) q =
     (if hd q = ''lost+found'' then None else map_option (\<lambda>(k, m). (k, visible_bits m)) (map_of (tree_part id [] es) q))"
  unfolding admissible_tree tree_part_without map_of_key_filter
  by (subst tree_part_modes) (simp add: map_of_map_modes)

lemma hydrate_Ok:
  assumes "hydrate_mounted ops ws ws_mode es m w = (Ok mounted, w')"
  obtains v5 v6 u where "prepare_scratch_mount_root ws ws_mode m (mount_fresh m w) = (Ok (), v5)" "src_call ws v5 = (Ok (), v6)"
    "copy_tree ws m [] es v6 = (Ok u, mounted)"
proof -
  obtain r w1 where copy: "bind_eff (prepare_scratch_mount_root ws ws_mode m) (\<lambda>_.
      bind_eff (src_call ws) (\<lambda>_. copy_tree ws m [] es)) (mount_fresh m w) = (r, w1)" by fastforce
  obtain r2 w2 where "run_mount (umount_output ops) m w1 = (r2, w2)" by fastforce
  then have "r = Ok ()" "w1 = mounted" using assms copy unfolding hydrate_mounted_def by (cases r; cases r2; simp)+
  with copy that show ?thesis by (auto simp: bind_eff_eq_Ok)
qed

lemma create_parts:
  assumes "scratch_create ops ws ws_mode es img sz m w = (Ok mounted, w1)"
  obtains v1 v2 v3 v5 v6 u where "map_err (StorageIo img) (fs_write img []) w = (Ok (), v1)"
    "map_err (StorageIo img) (fs_write img (replicate (unat sz) 0)) v1 = (Ok (), v2)"
    "map_err (StorageIo img) (make_tempdir m) v2 = (Ok (), v3)"
    "prepare_scratch_mount_root ws ws_mode m (mount_fresh m v3) = (Ok (), v5)" "src_call ws v5 = (Ok (), v6)"
    "copy_tree ws m [] es v6 = (Ok u, mounted)"
proof -
  have "do_create ops ws ws_mode es img sz m w = (Ok mounted, w1)"
    using assms by (auto simp: scratch_create_def split: prod.splits result.splits)
  then obtain v1 v2 v3 where t: "map_err (StorageIo img) (fs_write img []) w = (Ok (), v1)"
    "map_err (StorageIo img) (fs_write img (replicate (unat sz) 0)) v1 = (Ok (), v2)"
    "map_err (StorageIo img) (make_tempdir m) v2 = (Ok (), v3)"
    and inner: "(case bind_eff (run_mount (mount_output ops) m) (\<lambda>_. hydrate_mounted ops ws ws_mode es m) v3 of
      (r, w') \<Rightarrow> (r, drop_tempdir m w')) = (Ok mounted, w1)"
    unfolding do_create_def by (auto simp: bind_eff_eq_Ok split: result.splits if_splits)
  obtain r v4 where b: "bind_eff (run_mount (mount_output ops) m) (\<lambda>_. hydrate_mounted ops ws ws_mode es m) v3 = (r, v4)"
    by fastforce
  then have "hydrate_mounted ops ws ws_mode es m v3 = (Ok mounted, v4)"
    using inner by (auto simp: bind_eff_eq_Ok dest: run_mount_same)
  then show ?thesis by (rule hydrate_Ok) (rule that [OF t])
qed

text \<open>What a hydrated image holds.\<close>
lemma hydrated_image:
  assumes c: "scratch_create ops ws ws_mode es img sz m w = (Ok mounted, w1)" and ok: "image_ok es"
    and fresh: "\<And>q. under m q \<Longrightarrow> nodes w q = None" and img: "\<not> under m img"
  shows "''lost+found'' \<notin> fst ` set es" "refused_part [] es = []"
    and "q \<noteq> [] \<Longrightarrow> hd q \<noteq> ''lost+found'' \<Longrightarrow> nodes mounted (m @ q) = map_option fst (map_of (tree_part visible_bits [] es) q)"
    and "x \<in> set (tree_part visible_bits [] es) \<Longrightarrow> modes mounted (m @ fst x) = snd (snd x)"
proof -
  from c obtain v1 v2 v3 v5 v6 u where t1: "map_err (StorageIo img) (fs_write img []) w = (Ok (), v1)"
    and t2: "map_err (StorageIo img) (fs_write img (replicate (unat sz) 0)) v1 = (Ok (), v2)"
    and made: "map_err (StorageIo img) (make_tempdir m) v2 = (Ok (), v3)"
    and p: "prepare_scratch_mount_root ws ws_mode m (mount_fresh m v3) = (Ok (), v5)" and s: "src_call ws v5 = (Ok (), v6)"
    and copy: "copy_tree ws m [] es v6 = (Ok u, mounted)" by (rule create_parts)
  have n3: "nodes v3 (m @ q) = (if q = [] then Some DirNode else None)" for q
  proof -
    have "m @ q \<noteq> img" using img by auto
    then have "nodes v2 (m @ q) = nodes w (m @ q)"
      using touchesD [OF touches_at [OF io_touches_calls(5), of "\<lambda>q. q = img" img] t1, of "m @ q"]
        touchesD [OF touches_at [OF io_touches_calls(5), of "\<lambda>q. q = img" img] t2, of "m @ q"] by simp
    then show ?thesis using make_tempdir_Ok [OF made] fresh [of "m @ q"] by simp
  qed
  have n6: "nodes v6 (m @ q) = (if q = [] \<or> q = [''lost+found''] then Some DirNode else None)" for q
    using n3 [of q] p src_call_Ok [OF s]
    by (auto simp: prepare_scratch_mount_root_def bind_eff_eq_Ok mount_fresh_def dest!: permissions_Ok src_call_Ok)
  show lost: "''lost+found'' \<notin> fst ` set es"
    using copy_names_new [OF ok copy, of "''lost+found''"] n6 [of "[''lost+found'']"] by auto
  show "refused_part [] es = []" by (rule copy_refuses [OF copy])
  show "x \<in> set (tree_part visible_bits [] es) \<Longrightarrow> modes mounted (m @ fst x) = snd (snd x)" using copy_nodes [OF ok copy] by blast
  have dist: "distinct (map fst (tree_part visible_bits [] es))" by (rule tree_part_distinct [OF ok])
  show "nodes mounted (m @ q) = map_option fst (map_of (tree_part visible_bits [] es) q)" if q: "q \<noteq> []" "hd q \<noteq> ''lost+found''"
  proof (cases "q \<in> fst ` set (tree_part visible_bits [] es)")
    case True
    then obtain x where x: "x \<in> set (tree_part visible_bits [] es)" "q = fst x" by auto
    then have "map_of (tree_part visible_bits [] es) q = Some (snd x)" using dist by (simp add: map_of_eq_Some_iff)
    then show ?thesis using copy_nodes [OF ok copy x(1)] x(2) by simp
  next
    case False
    then have "map_of (tree_part visible_bits [] es) q = None" by (simp add: map_of_eq_None_iff)
    then show ?thesis using copy_untouched [OF copy False] n6 [of q] q by auto
  qed
qed

lemma refused_without: "refused_part [] (without_lost_found es) = refused_part [] es"
  by (induction es) (auto simp: without_lost_found_def)

text \<open>An image that shows the tree \<open>es'\<close> after hydration from \<open>es\<close> has the admissible part of \<open>es'\<close> equal to all of \<open>es\<close>.\<close>
lemma hydrated_part:
  assumes lost: "''lost+found'' \<notin> fst ` set es" and shown: "shows_tree mounted m es'"
    and nds: "\<And>q. q \<noteq> [] \<Longrightarrow> hd q \<noteq> ''lost+found'' \<Longrightarrow> nodes mounted (m @ q) = map_option fst (map_of (tree_part visible_bits [] es) q)"
    and mds: "\<And>x. x \<in> set (tree_part visible_bits [] es) \<Longrightarrow> modes mounted (m @ fst x) = snd (snd x)" and ok: "image_ok es"
  shows "q \<noteq> [] \<Longrightarrow> map_of (admissible_part [] es') q = map_of (tree_part visible_bits [] es) q"
proof -
  assume q: "q \<noteq> []"
  let ?t = "map_of (tree_part visible_bits [] es)" and ?t' = "map_of (tree_part id [] es')"
  have dist: "distinct (map fst (tree_part visible_bits [] es))" "distinct (map fst (tree_part id [] es'))"
    using tree_part_distinct ok shown by (auto simp: shows_tree_def)
  show "map_of (admissible_part [] es') q = ?t q"
  proof (cases "hd q = ''lost+found''")
    case True
    have "q \<notin> fst ` set (tree_part visible_bits [] es)"
      using tree_part_below [of _ visible_bits "[]" es] lost True by force
    then have "?t q = None" by (simp add: map_of_eq_None_iff)
    then show ?thesis using True by (simp add: stage_map)
  next
    case False
    have n: "map_option fst (?t' q) = map_option fst (?t q)" using nds [OF q False] shown q by (simp add: shows_tree_def)
    show ?thesis
    proof (cases "?t q")
      case None
      then show ?thesis using n False by (simp add: stage_map)
    next
      case (Some km)
      then obtain k mo where km: "?t q = Some (k, mo)" by (cases km) simp
      with n obtain mo' where t': "?t' q = Some (k, mo')" by auto
      have mo: "(q, k, mo) \<in> set (tree_part visible_bits [] es)" by (rule map_of_SomeD [OF km])
      have mo': "(q, k, mo') \<in> set (tree_part id [] es')" by (rule map_of_SomeD [OF t'])
      have "mo' = mo" using mds [OF mo] shown mo' by (force simp: shows_tree_def)
      moreover have "visible_bits mo = mo" using mo unfolding tree_part_modes [of visible_bits "[]" es] by (auto simp: and.assoc)
      ultimately show ?thesis using False km t' by (simp add: stage_map)
    qed
  qed
qed

text \<open>C20: Hydrating an image from a workspace and extracting the image again gives the workspace back: every directory and
  regular file is there with its bytes and its nine permission bits, nothing else is there, and nothing is rejected.\<close>
theorem hydrate_then_extract:
  assumes c: "scratch_create ops ws ws_mode es img sz m w = (Ok mounted, w1)" and ok: "image_ok es"
    and new: "\<And>q. under m q \<Longrightarrow> nodes w q = None" and img: "\<not> under m img"
    and shown: "shows_tree mounted m es'"
    and ex: "scratch_extract ops' loc pid rnd img es' m' into mx w2 = (Ok cs, w3)"
    and place: "loc into = loc (stage_parent into) @ [n]" "file_name into = Some n"
    and fresh: "\<And>q. under (stage_dir loc pid rnd into) q \<Longrightarrow> nodes w2 q = None"
    and apart: "apart m' (loc into)" "apart m' (stage_dir loc pid rnd into)"
  shows "(\<forall>q. q \<noteq> [] \<longrightarrow> nodes w3 (loc into @ q) = map_option fst (map_of (tree_part visible_bits [] es) q)) \<and>
    (\<forall>x \<in> set (tree_part visible_bits [] es). modes w3 (loc into @ fst x) = snd (snd x)) \<and> rejected cs = []"
proof -
  note hyd = hydrated_image [OF c ok new img]
  have ok': "image_ok es'" and ref: "refused_part [] es' = []" using shown by (simp_all add: shows_tree_def refused_without)
  note parts = extract_Ok [OF ex ok' place fresh apart]
  note part = hydrated_part [OF hyd(1) shown hyd(3,4) ok]
  have "modes w3 (loc into @ fst x) = snd (snd x)" if x: "x \<in> set (tree_part visible_bits [] es)" for x
  proof -
    have "fst x \<noteq> []" using tree_part_below [OF x] by auto
    moreover have "map_of (tree_part visible_bits [] es) (fst x) = Some (snd x)"
      using x tree_part_distinct [OF ok] by (simp add: map_of_eq_Some_iff)
    ultimately have "map_of (admissible_part [] es') (fst x) = Some (snd x)" using part by simp
    then have "(fst x, snd x) \<in> set (admissible_part [] es')" by (rule map_of_SomeD)
    then show ?thesis using parts(2) [of "(fst x, snd x)"] by simp
  qed
  then show ?thesis using parts(1,4) part ref by (simp add: stage_node_def)
qed

subsection \<open>Samples\<close>

abbreviation sample_output :: cmd_output where
  "sample_output \<equiv> \<lparr>out_code = Some 0, out_signal = None, out_stdout = [], out_stderr = []\<rparr>"

definition sample_commands :: storage_ops where
  "sample_commands =
     \<lparr>mkfs_output = Ok sample_output, e2fsck_output = Ok sample_output, mount_output = Ok sample_output, umount_output = Ok sample_output\<rparr>"

definition sample_loc :: "path_buf \<Rightarrow> fpath" where
  "sample_loc p = concat (map (\<lambda>c. case c of Normal n \<Rightarrow> [n] | _ \<Rightarrow> []) p)"

definition bare_host :: "fault list \<Rightarrow> mode_world" where
  "bare_host fl = \<lparr>nodes = Map.empty, faults = fl, clock = [], modes = (\<lambda>_. 0)\<rparr>"

definition sample_tree :: "(string \<times> image_node) list" where
  "sample_tree = [(''f'', ImgFile [7] 0xFED), (''l'', ImgSymlink)]"

abbreviation sample_changes :: change_set where
  "sample_changes \<equiv> \<lparr>staged = [[''f'']], rejected = [([''l''], RejectedSymlink)], total_bytes = 1\<rparr>"

abbreviation sample_extract :: "fault list \<Rightarrow> (change_set, storage_error) result \<times> mode_world" where
  "sample_extract fl \<equiv>
     scratch_extract sample_commands sample_loc 1 ''x'' [''i''] sample_tree [''m''] [Normal ''o''] (Some 4) (bare_host fl)"

lemma sample_place: "sample_loc [Normal ''o''] = [''o'']" "sample_loc (stage_parent [Normal ''o'']) = []" "file_name [Normal ''o''] = Some ''o''"
  by code_simp+

lemma sample_stage: "stage_dir sample_loc 1 ''x'' [Normal ''o''] = [''.o.m80-writeback-stage-1-x'']"
  by code_simp

lemmas extract_steps = scratch_extract_def path_exists_def fs_query_def run_e2fsck_def e2fsck_exit_acceptable_def sample_stage
  sample_place sample_commands_def bare_host_def bind_eff_def map_err_def fs_write_def take_fault_def ret_def make_tempdir_def
  fs_create_dir_def run_mount_def build_stage_def src_call_def set_host_visible_permissions_def chmod_def fs_set_permissions_def
  HOST_VISIBLE_MODE_BITS_def Let_def copy_file_def parent_is_dir_def finish_extract_def sys_rename_def fs_rename_def saturating_add_def fail_def

lemma sample_extracts: "fst (sample_extract []) = Ok sample_changes"
  by (simp add: extract_steps sample_tree_def under_def moved_def)

lemma sample_extract_fails: "fst (sample_extract [Works, Works, Fails 0 []]) = Err (StorageIo [] OtherIo)"
  by (simp add: extract_steps)

lemma pair_fst: "fst p = r \<Longrightarrow> p = (r, snd p)"
  by auto

lemma sample_apart: "apart [''m''] (sample_loc [Normal ''o''])" "apart [''m''] (stage_dir sample_loc 1 ''x'' [Normal ''o''])"
  unfolding sample_place sample_stage by (simp_all add: apart_def under_def)



theorem recommended_size_holds_workspace_witness:
  "unat (align_scratch_size (max (saturating_add 0 SCRATCH_PADDING_BYTES) MIN_SCRATCH_BYTES)) mod (4 * 1024 * 1024) = 0"
proof -
  have "recommended_size_for_workspace [] [] (bare_host []) =
      (Ok (align_scratch_size (max (saturating_add 0 SCRATCH_PADDING_BYTES) MIN_SCRATCH_BYTES)), bare_host [])"
    by (simp add: recommended_size_for_workspace_def bind_eff_def src_call_def take_fault_def bare_host_def ret_def)
  from recommended_size_holds_workspace [OF this] show ?thesis by simp
qed

abbreviation sample_workspace :: "(string \<times> image_node) list" where
  "sample_workspace \<equiv> [(''f'', ImgFile [7] 0xFED)]"

abbreviation sample_image :: "(string \<times> image_node) list" where
  "sample_image \<equiv> [(''lost+found'', ImgDir [] 0), (''f'', ImgFile [7] 0x1ED)]"

abbreviation sample_mounted :: mode_world where
  "sample_mounted \<equiv> \<lparr>nodes = [[''i''] \<mapsto> FileNode [], [''m''] \<mapsto> DirNode, [''m'', ''lost+found''] \<mapsto> DirNode, [''m'', ''f''] \<mapsto> FileNode [7]],
     faults = [], clock = [], modes = (\<lambda>_. 0)([''m''] := 0x1ED, [''m'', ''f''] := 0x1ED)\<rparr>"

lemma sample_hydrates: "\<exists>w1. scratch_create sample_commands [''w''] 0x1ED sample_workspace [''i''] 0 [''m''] (bare_host []) = (Ok sample_mounted, w1)"
  by (simp add: scratch_create_def do_create_def sample_commands_def bare_host_def bind_eff_def map_err_def fs_write_def take_fault_def
      ret_def make_tempdir_def fs_create_dir_def run_mount_def hydrate_mounted_def mount_fresh_def prepare_scratch_mount_root_def
      src_call_def set_host_visible_permissions_def chmod_def fs_set_permissions_def HOST_VISIBLE_MODE_BITS_def Let_def
      copy_regular_file_no_follow_def create_new_def parent_is_dir_def)

lemma sample_shows: "shows_tree sample_mounted [''m''] sample_image"
  by (simp add: shows_tree_def without_lost_found_def)

lemma sample_extracts_image: "\<exists>cs. fst (scratch_extract sample_commands sample_loc 1 ''x'' [''i''] sample_image [''m''] [Normal ''o''] None (bare_host [])) = Ok cs"
  by (intro exI [of _ "\<lparr>staged = [[''f'']], rejected = [], total_bytes = 1\<rparr>"]) (simp add: extract_steps under_def moved_def)

theorem hydrate_then_extract_witness:
  "nodes (snd (scratch_extract sample_commands sample_loc 1 ''x'' [''i''] sample_image [''m''] [Normal ''o''] None (bare_host [])))
     [''o'', ''f''] = Some (FileNode [7])"
proof -
  obtain w1 where c: "scratch_create sample_commands [''w''] 0x1ED sample_workspace [''i''] 0 [''m''] (bare_host []) = (Ok sample_mounted, w1)"
    using sample_hydrates by blast
  obtain cs where e: "fst (scratch_extract sample_commands sample_loc 1 ''x'' [''i''] sample_image [''m''] [Normal ''o''] None (bare_host [])) = Ok cs"
    using sample_extracts_image by blast
  have img: "image_ok sample_workspace" "\<not> under [''m''] [''i'']" and bare: "nodes (bare_host []) q = None" for q
    by (simp_all add: under_def bare_host_def)
  have "sample_loc [Normal ''o''] = sample_loc (stage_parent [Normal ''o'']) @ [''o'']" using sample_place by simp
  from hydrate_then_extract [OF c img(1) bare img(2) sample_shows pair_fst [OF e] this sample_place(3) bare sample_apart]
  show ?thesis using sample_place(1) by (simp add: spec [of _ "[''f'']"])
qed

end
