(* ===== verification/Spec2Isabelle.thy ===== *)
theory Spec2Isabelle
  imports Framing Mount_Conversions File_Conversions Warm_Pool_Properties Packet_Filter Template_Commit Jail_Launch Vsock Cgroup Config_Load Scratch
begin

text \<open>
  m80 runs one command in a Firecracker microVM. The host process plans a jail, storage and a network
  for the VM, starts Firecracker or takes a restored VM from a warm pool, talks to the guest agent
  over vsock with a framed protobuf protocol, and tears everything down again.

  \<^bold>\<open>Library.\<close> \<open>Prelude\<close>: machine integers with checked and saturating arithmetic, \<open>Result\<close>
  and effects with an explicit world, the standard string functions, and transition systems with
  their reachable states. \<open>Host_Fs\<close>: the file system, paths and clock behind \<open>std::fs\<close>, \<open>std::path\<close> and
  \<open>std::time\<close>, with a script of I/O faults in the world, so that a statement about all worlds covers
  every pattern of failing calls. \<open>Tokens\<close>: splitting a text at blanks, for the command lines and rule texts.

  \<^bold>\<open>Protocol\<close> (\<open>crates/m80-proto\<close>). \<open>Proto_Types\<close> has the payloads, \<open>Wire_Messages\<close> the protobuf
  messages of \<open>wire.proto\<close>, \<open>Conversions_Common\<close>, \<open>Exec_Conversions\<close>, \<open>File_Conversions\<close> and
  \<open>Mount_Conversions\<close> the \<open>payload_impl!\<close> instances of \<open>wire/conversions\<close>; \<open>Framing\<close> has the
  envelopes, the hand-written unknown-field scanner and the frame reader and writer. The trait
  \<open>Payload\<close> is the locale \<open>payload\<close>, interpreted once per payload type. The generated prost codec
  is a parameter with its documented round-trip law.

  \<^bold>\<open>Warm pool\<close> (\<open>crates/m80-firecracker/src/warm_pool\<close>). \<open>Cpu_Allocator\<close> and \<open>Warm_Pool\<close> have every
  critical section of the pool, its fill workers and its leases; \<open>Warm_Pool_Steps\<close> interleaves them
  as a transition system; \<open>Warm_Pool_Properties\<close> proves the properties over all reachable
  configurations. Restoring a slot is a parameter.

  \<^bold>\<open>Outbound network\<close> (\<open>crates/m80-net-mode\<close>, \<open>crates/m80-net-outbound\<close>). \<open>Net_Addressing\<close> has network
  modes, derived names and addresses, host-route collision and DNS discovery; \<open>Net_Policy\<close> the
  firewall rules and their installation through the \<open>PolicyOps\<close> seam; \<open>Packet_Filter\<close> reads the rules
  as \<open>iptables(8)\<close> documents them and proves what the installed policy decides. Hashing and CIDR
  arithmetic of other crates are a record of parameters with the hypothesis \<open>ipnet_laws\<close>.

  \<^bold>\<open>Snapshots and templates\<close> (\<open>crates/m80-snapshot\<close>, \<open>crates/m80-snapshot-template\<close>). \<open>Snapshot\<close> has manifests,
  their verification, capture and restore; \<open>Template_Identity\<close> the validated inputs of a template and the
  fingerprint over them; \<open>Template_Store\<close> the content-addressed store, each method a function on the file
  system, the pin counts and the sequence number. \<open>Template_Store_Properties\<close> runs the store as a transition
  system (any calls, faults and clock readings, builders writing below \<open>staging\<close>) and proves what pins
  protect; \<open>Template_Eviction\<close> and \<open>Template_Commit\<close> have eviction, look-up and commit. SHA-256, hex and
  \<open>serde_json\<close> are parameters; what is used of them is stated as \<open>hex_laws\<close>, \<open>snapshot_json_faithful\<close>,
  \<open>index_json_faithful\<close> and \<open>template_json_faithful\<close>. The loop of the eviction terminates because each
  round shortens the list of entries.

  \<^bold>\<open>Jailer\<close> (\<open>crates/m80-jailer\<close>). \<open>Jail_Plan\<close> has the configuration, the checks on bind destinations
  and the ordered steps of \<open>Plan::compute\<close>; \<open>Jail_Materialize\<close> applies a plan to a host with a mount
  table (\<open>Plan::materialize\<close>, with \<open>UmaskGuard\<close>) and tears the jail down (\<open>Drop\<close> of
  \<open>MaterializedJail\<close>). How the kernel reads a path text is the parameter \<open>locate\<close>. \<open>Jail_Mounts\<close> sees the
  table as a stack with one block per bind: failure and teardown give the old table back, and a
  completed jail shows every source with the planned options. \<open>Jail_Files\<close> shows that nothing outside
  the run directory is touched; \<open>Jail_Samples\<close> applies the theorems and has the configurations (nested
  destinations, mounts below a source) where the code falls short. \<open>Jail_Recovery\<close> has the pids and the unit
  name a jail leaves behind (\<open>record_live_state\<close>, \<open>record_systemd_unit\<close>) and what \<open>inspect_run_dir\<close> makes of
  them; \<open>Jail_Launch\<close> has the command line, the waits for the pid file and for a detached parent, the
  size-limited log and the whole of \<open>MaterializedJail::launch\<close>, up to the inspection that finds the launched
  processes again. Spawned processes, the clock and the pid file are lists of observations; a list that
  is too short is the value \<open>None\<close>, and a list with one poll at the deadline is long enough.

  \<^bold>\<open>Connection\<close> (\<open>crates/m80-vsock\<close>). \<open>Vsock\<close> has the context ids, the socket with its read timeout, the buffered
  reader, the \<open>CONNECT\<close> handshake and the receives. The peer is a list of timed arrivals and faults in the
  channel, so a statement about all channels covers every schedule. A receive refines the slice reader of
  \<open>Framing\<close>, a frame that keeps coming is received, and silence ends a receive before its deadline.

  \<^bold>\<open>Control groups\<close> (\<open>crates/m80-cgroup\<close>). \<open>Cgroup\<close> has the limits, the delegation of controllers, the creation of
  a leaf, the drain and removal loops and the cached probe. The kernel answers each access as an arbitrary function
  of the accesses before it, so the statements are about the trace of accesses.

  \<^bold>\<open>Launch\<close> (\<open>crates/m80-firecracker\<close>). \<open>Vm_Layout\<close> has the paths of a run directory and the length of the socket
  paths (\<open>layout.rs\<close>), \<open>Boot_Spec\<close> the boot specification with its layers (\<open>boot_spec.rs\<close>, \<open>pmem.rs\<close>): a specification that
  loads is well formed. \<open>Preboot\<close> has the kernel command line and the requests to Firecracker before boot
  (\<open>preboot.rs\<close>): which arguments the kernel finds, and which devices a plan has. \<open>Jail_Config\<close> has the jail and the
  network of a launch (\<open>launch.rs\<close>, phases 4, 6 and 7) and composes the parts: the plan of the jail is accepted, building
  it stays in the run directory, every device of the preboot plan is bound with its access, and a cold launch never
  shares the network namespace of the host. \<open>Admission\<close> has \<open>Backend::admit\<close> and the permits (\<open>backend.rs\<close>): the limit on
  concurrent VMs holds for all sequences of admissions and ends, an admitted VM has a plan that is accepted and sockets
  short enough, and the boot arguments of a specification reach the kernel. \<open>Config_Load\<close> has the layers of the
  configuration (\<open>config.rs\<close>): the last layer that sets a field wins, and the reported configuration reads back.

  \<^bold>\<open>Storage\<close> (\<open>crates/m80-storage\<close>). \<open>Scratch\<close> has the sizing, hydration and extraction of workspace images
  (\<open>scratch.rs\<close>). The tree the guest leaves behind is arbitrary data: an extraction produces its admissible part and
  nothing else, a failed one leaves the destination alone, and hydration followed by extraction gives the workspace back.
  The outputs of \<open>mkfs.ext4\<close>, \<open>e2fsck\<close>, \<open>mount\<close> and \<open>umount\<close> are parameters.

  \<^bold>\<open>Not modelled\<close>: process spawning, sockets and the Firecracker API behind the seams;
  the crates the manifest lists as not modelled.
\<close>

end
